(* ===== verification/Prelude.thy ===== *)
theory Prelude
  imports
    Main
    "HOL-Library.Sublist"
    "HOL-Library.AList"
begin

text \<open>
  What the components share: strings as lists of characters (splitting on a separator,
  joining, the last occurrence of a pattern, decimal numerals), the insertion-ordered maps
  and sets of the \<^verbatim>\<open>indexmap\<close> crate as association lists and distinct lists, the search for
  the first name nobody uses, and the two loop shapes of the engine: rounds repeated until
  nothing changes, and a search through numbered candidates.
\<close>

section \<open>Strings\<close>

text \<open>\<^verbatim>\<open>str::split\<close> with a non-empty separator: leftmost, non-overlapping.\<close>

function split_str :: "string \<Rightarrow> string \<Rightarrow> string list" where
  "split_str sep s =
     (if sep \<noteq> [] \<and> prefix sep s then [] # split_str sep (drop (length sep) s)
      else case s of
        [] \<Rightarrow> [[]]
      | c # cs \<Rightarrow> (case split_str sep cs of
                     [] \<Rightarrow> [[c]]
                   | p # ps \<Rightarrow> (c # p) # ps))"
  by pat_completeness auto
termination
proof (relation "measure (\<lambda>(sep, s). length s)", goal_cases)
  case (2 sep s)
  then have "length sep \<le> length s" and "0 < length sep"
    by (auto dest: prefix_length_le)
  then show ?case by (cases s) simp_all
qed auto

declare split_str.simps [simp del]

lemma split_str_nonempty [simp]: "split_str sep s \<noteq> []"
  by (subst split_str.simps) (auto split: list.splits)

fun join :: "string \<Rightarrow> string list \<Rightarrow> string" where
  "join sep [] = []"
| "join sep [x] = x"
| "join sep (x # y # ys) = x @ sep @ join sep (y # ys)"

lemma join_Cons: "ys \<noteq> [] \<Longrightarrow> join sep (x # ys) = x @ sep @ join sep ys"
  by (cases ys) simp_all

lemma split_str_no_sep:
  assumes "c \<in> set sep" and "c \<notin> set s"
  shows "split_str sep s = [s]"
  using assms(2)
proof (induction s)
  case Nil
  then show ?case using assms(1) by (subst split_str.simps) auto
next
  case (Cons a s)
  then have "\<not> prefix sep (a # s)" using assms(1) by (metis set_mono_prefix subsetD)
  then show ?case using Cons by (subst split_str.simps) auto
qed

lemma split_str_prepend:
  assumes "hd sep \<notin> set p" and "sep \<noteq> []"
  shows "split_str sep (p @ sep @ s) = p # split_str sep s"
  using assms
proof (induction p)
  case Nil
  then show ?case by (subst split_str.simps) simp
next
  case (Cons a p)
  then have "\<not> prefix sep ((a # p) @ sep @ s)" by (cases sep) auto
  then show ?case using Cons by (subst split_str.simps) (auto split: list.splits)
qed

lemma split_join:
  assumes "sep \<noteq> []" and "xs \<noteq> []" and "\<And>x. x \<in> set xs \<Longrightarrow> hd sep \<notin> set x"
  shows "split_str sep (join sep xs) = xs"
  using assms
proof (induction xs)
  case (Cons x xs)
  show ?case
  proof (cases xs)
    case Nil
    then show ?thesis using Cons.prems split_str_no_sep[of "hd sep" sep x] by simp
  next
    case (Cons y ys)
    with Cons.IH Cons.prems show ?thesis
      by (simp add: join_Cons split_str_prepend)
  qed
qed simp

lemma join_split: "join sep (split_str sep s) = s"
proof (induction sep s rule: split_str.induct)
  case (1 sep s)
  show ?case
  proof (cases "sep \<noteq> [] \<and> prefix sep s")
    case True
    then obtain t where t: "s = sep @ t" by (auto simp: prefix_def)
    with True 1(1) show ?thesis
      by (subst split_str.simps) (auto simp: join_Cons)
  next
    case False
    show ?thesis
    proof (cases s)
      case Nil
      with False show ?thesis by (subst split_str.simps) auto
    next
      case (Cons c cs)
      with False 1(2) have IH: "join sep (split_str sep cs) = cs" by blast
      obtain p ps where p: "split_str sep cs = p # ps" by (cases "split_str sep cs") auto
      have "join sep ((c # p) # ps) = c # join sep (p # ps)" by (cases ps) simp_all
      with IH p False Cons show ?thesis by (subst split_str.simps) auto
    qed
  qed
qed

text \<open>The greedy \<^verbatim>\<open>(.*)pattern(.*)\<close>: what stands before and after the last occurrence.\<close>

fun split_at_last :: "string \<Rightarrow> string \<Rightarrow> (string \<times> string) option" where
  "split_at_last pat [] = None"
| "split_at_last pat (c # cs) =
     (case split_at_last pat cs of
        Some (a, b) \<Rightarrow> Some (c # a, b)
      | None \<Rightarrow> if prefix pat (c # cs) then Some ([], drop (length pat) (c # cs)) else None)"

lemma split_at_last_sound: "split_at_last pat s = Some (a, b) \<Longrightarrow> s = a @ pat @ b"
  by (induction s arbitrary: a) (auto simp: prefix_def split: option.splits if_splits)

lemma split_at_last_None_iff:
  assumes "pat \<noteq> []"
  shows "split_at_last pat s = None \<longleftrightarrow> \<not> sublist pat s"
  using assms
  by (induction s) (auto simp: sublist_Cons_right split: option.splits)

lemma split_at_last_append:
  assumes "pat \<noteq> []" and "split_at_last pat (tl pat @ b) = None"
  shows "split_at_last pat (a @ pat @ b) = Some (a, b)"
proof (induction a)
  case Nil
  obtain c cs where pat: "pat = c # cs" using assms(1) by (cases pat) auto
  with assms(2) have "split_at_last pat (cs @ b) = None" by simp
  then show ?case by (simp add: pat)
qed simp

section \<open>Decimal numerals\<close>

definition digit_char :: "nat \<Rightarrow> char" where
  "digit_char d = char_of (48 + d)"

definition is_digit :: "char \<Rightarrow> bool" where
  "is_digit c \<longleftrightarrow> 48 \<le> (of_char c :: nat) \<and> (of_char c :: nat) \<le> 57"

fun nat_to_string :: "nat \<Rightarrow> string" where
  "nat_to_string n =
     (if n < 10 then [digit_char n] else nat_to_string (n div 10) @ [digit_char (n mod 10)])"

declare nat_to_string.simps [simp del]

definition string_to_nat :: "string \<Rightarrow> nat" where
  "string_to_nat s = foldl (\<lambda>n c. 10 * n + (of_char c - 48)) 0 s"

lemma of_char_digit: "d < 10 \<Longrightarrow> (of_char (digit_char d) :: nat) = 48 + d"
  by (simp add: digit_char_def)

lemma string_to_nat_snoc: "string_to_nat (s @ [c]) = 10 * string_to_nat s + (of_char c - 48)"
  by (simp add: string_to_nat_def)

lemma string_to_nat_nat_to_string [simp]: "string_to_nat (nat_to_string n) = n"
proof (induction n rule: nat_to_string.induct)
  case (1 n)
  then show ?case
    by (subst nat_to_string.simps)
       (auto simp: string_to_nat_snoc of_char_digit, simp add: string_to_nat_def of_char_digit)
qed

lemma nat_to_string_inj [simp]: "nat_to_string m = nat_to_string n \<longleftrightarrow> m = n"
  by (metis string_to_nat_nat_to_string)

lemma nat_to_string_digits: "\<forall>c \<in> set (nat_to_string n). is_digit c"
proof (induction n rule: nat_to_string.induct)
  case (1 n)
  then show ?case
    by (subst nat_to_string.simps) (auto simp: is_digit_def of_char_digit)
qed

lemma nat_to_string_nonempty [simp]: "nat_to_string n \<noteq> []"
  by (subst nat_to_string.simps) simp

section \<open>Insertion-ordered maps and sets\<close>

text \<open>
  An \<^verbatim>\<open>IndexMap\<close> is an association list with distinct keys: \<^verbatim>\<open>insert\<close> replaces the value in
  place or appends, \<^verbatim>\<open>shift_remove\<close> closes the gap. An \<^verbatim>\<open>IndexSet\<close> is a distinct list.
\<close>

type_synonym ('k, 'v) index_map = "('k \<times> 'v) list"

abbreviation imap_insert :: "'k \<Rightarrow> 'v \<Rightarrow> ('k, 'v) index_map \<Rightarrow> ('k, 'v) index_map" where
  "imap_insert \<equiv> AList.update"

abbreviation imap_wf :: "('k, 'v) index_map \<Rightarrow> bool" where
  "imap_wf m \<equiv> distinct (map fst m)"

definition iset_insert :: "'a \<Rightarrow> 'a list \<Rightarrow> 'a list" where
  "iset_insert x xs = (if x \<in> set xs then xs else xs @ [x])"

lemma set_iset_insert [simp]: "set (iset_insert x xs) = insert x (set xs)"
  by (auto simp: iset_insert_def)

lemma distinct_iset_insert [simp]: "distinct (iset_insert x xs) \<longleftrightarrow> distinct xs"
  by (auto simp: iset_insert_def)

lemma imap_get_insert [simp]:
  "map_of (imap_insert k v m) k' = (if k' = k then Some v else map_of m k')"
  by (simp add: update_conv')

lemma imap_wf_insert [simp]: "imap_wf m \<Longrightarrow> imap_wf (imap_insert k v m)"
  by (rule distinct_update)

text \<open>\<open>entry(k).or_default().push(v)\<close> on a map of vectors.\<close>

definition imap_push :: "'k \<Rightarrow> 'v \<Rightarrow> ('k, 'v list) index_map \<Rightarrow> ('k, 'v list) index_map" where
  "imap_push k v m = imap_insert k ((case map_of m k of Some vs \<Rightarrow> vs | None \<Rightarrow> []) @ [v]) m"

lemma map_of_imap_push:
  "map_of (imap_push k v m) k' =
     (if k' = k then Some ((case map_of m k of Some vs \<Rightarrow> vs | None \<Rightarrow> []) @ [v]) else map_of m k')"
  by (simp add: imap_push_def)

lemma imap_wf_push [simp]: "imap_wf m \<Longrightarrow> imap_wf (imap_push k v m)"
  by (simp add: imap_push_def)

section \<open>Loops\<close>

text \<open>\<open>(start..).find(|n| !taken(cand(n)))\<close>: \<open>None\<close> stands for a search that never ends.\<close>

partial_function (option) first_free :: "(nat \<Rightarrow> 'a) \<Rightarrow> ('a \<Rightarrow> bool) \<Rightarrow> nat \<Rightarrow> nat option" where
  [code]: "first_free cand taken n =
     (if taken (cand n) then first_free cand taken (Suc n) else Some n)"

lemma first_free_step:
  "taken (cand n) \<Longrightarrow> first_free cand taken n = first_free cand taken (Suc n)"
  "\<not> taken (cand n) \<Longrightarrow> first_free cand taken n = Some n"
  by (subst first_free.simps, simp)+

lemma first_free_reaches:
  assumes "\<not> taken (cand m)" and "n \<le> m"
  shows "\<exists>k \<ge> n. k \<le> m \<and> first_free cand taken n = Some k \<and> \<not> taken (cand k)
           \<and> (\<forall>j. n \<le> j \<and> j < k \<longrightarrow> taken (cand j))"
  using assms(2)
proof (induction n rule: inc_induct)
  case base
  then show ?case using assms(1) first_free_step(2)[of taken cand m] by auto
next
  case (step n)
  show ?case
  proof (cases "taken (cand n)")
    case True
    with step.IH obtain k where k: "Suc n \<le> k" "k \<le> m" "first_free cand taken (Suc n) = Some k"
      "\<not> taken (cand k)" "\<forall>j. Suc n \<le> j \<and> j < k \<longrightarrow> taken (cand j)" by auto
    from k(5) True have "\<forall>j. n \<le> j \<and> j < k \<longrightarrow> taken (cand j)"
      using le_eq_less_or_eq Suc_leI by metis
    with k True show ?thesis by (auto simp: first_free_step(1) intro!: exI[of _ k])
  next
    case False
    then show ?thesis using step.hyps by (auto simp: first_free_step(2) intro!: exI[of _ n])
  qed
qed

text \<open>
  The contract of a numbered naming scheme: different numbers give different names. Then the
  search ends whenever only finitely many names are taken, and gives the lowest free number.
\<close>

locale numbered_names =
  fixes cand :: "nat \<Rightarrow> 'a"
  assumes cand_inj: "cand i = cand j \<Longrightarrow> i = j"
begin

lemma search_ends:
  assumes "finite {x. taken x}"
  shows "\<exists>k \<ge> n. first_free cand taken n = Some k \<and> \<not> taken (cand k)
           \<and> (\<forall>j. n \<le> j \<and> j < k \<longrightarrow> taken (cand j))"
proof -
  have "inj_on cand {n..}" by (auto simp: inj_on_def dest: cand_inj)
  then have "infinite (cand ` {n..})" by (simp add: finite_image_iff infinite_Ici)
  with assms have "\<not> cand ` {n..} \<subseteq> {x. taken x}" using finite_subset by blast
  then obtain m where "n \<le> m" "\<not> taken (cand m)" by auto
  from first_free_reaches[of taken cand m n, OF this(2,1)] show ?thesis by blast
qed

end

text \<open>
  Rounds repeated for as long as a round reports a change. A round that panics gives \<open>None\<close>; else
  the first component of its result is the next state, the second whether the loop goes round again.
\<close>

partial_function (option) run_rounds :: "('s \<Rightarrow> ('s \<times> bool) option) \<Rightarrow> 's \<Rightarrow> 's option" where
  [code]: "run_rounds f s =
     (case f s of
        None \<Rightarrow> None
      | Some (t, again) \<Rightarrow> if again then run_rounds f t else Some t)"

text \<open>
  The contract of a fixpoint loop: a round returns and keeps the invariant, and a round that
  reports a change brings the measure down.
\<close>

locale converging_rounds =
  fixes round :: "'s \<Rightarrow> ('s \<times> bool) option"
    and good :: "'s \<Rightarrow> bool"
    and gauge :: "'s \<Rightarrow> nat"
  assumes round_returns: "good s \<Longrightarrow>
    \<exists>t again. round s = Some (t, again) \<and> good t \<and> (again \<longrightarrow> gauge t < gauge s)"
begin

lemma rounds_end:
  assumes "good s"
  shows "\<exists>s' t. run_rounds round s = Some t \<and> good s' \<and> round s' = Some (t, False)"
  using assms
proof (induction "gauge s" arbitrary: s rule: less_induct)
  case less
  from round_returns[OF less.prems] obtain t again where
    t: "round s = Some (t, again)" "good t" "again \<longrightarrow> gauge t < gauge s" by blast
  show ?case
  proof (cases again)
    case True
    with t less.hyps[of t] show ?thesis by (subst run_rounds.simps) simp
  next
    case False
    with t less.prems show ?thesis by (subst run_rounds.simps) auto
  qed
qed

text \<open>Whatever every round keeps from a good state on holds of the state before the last round.\<close>

lemma rounds_keep:
  assumes "good s" and "P s" and "\<And>s t again. good s \<Longrightarrow> P s \<Longrightarrow> round s = Some (t, again) \<Longrightarrow> P t"
  shows "\<exists>s' t. run_rounds round s = Some t \<and> good s' \<and> P s' \<and> round s' = Some (t, False)"
  using assms(1,2)
proof (induction "gauge s" arbitrary: s rule: less_induct)
  case less
  from round_returns[OF less.prems(1)] obtain t again where
    t: "round s = Some (t, again)" "good t" "again \<longrightarrow> gauge t < gauge s" by blast
  from assms(3)[OF less.prems t(1)] have "P t" .
  with t less show ?case by (cases again; subst run_rounds.simps; auto)
qed

end

text \<open>A filter whose test may panic.\<close>

fun filter_option :: "('a \<Rightarrow> bool option) \<Rightarrow> 'a list \<Rightarrow> 'a list option" where
  "filter_option p [] = Some []"
| "filter_option p (x # xs) =
     (case p x of
        None \<Rightarrow> None
      | Some keep \<Rightarrow> map_option (\<lambda>ys. if keep then x # ys else ys) (filter_option p xs))"

lemma filter_option_members:
  "filter_option p xs = Some ys \<Longrightarrow> ys = filter (\<lambda>x. p x = Some True) xs"
proof (induction xs arbitrary: ys)
  case (Cons x xs)
  then show ?case by (cases "p x") (auto split: if_splits)
qed simp

text \<open>Corresponding members of two lists.\<close>

lemma list_all2_origin:
  assumes "list_all2 P xs ys" and "y \<in> set ys"
  obtains x where "x \<in> set xs" "P x y"
  using assms by (metis list_all2_conv_all_nth in_set_conv_nth)

lemma list_all2_image:
  assumes "list_all2 P xs ys" and "x \<in> set xs"
  obtains y where "y \<in> set ys" "P x y"
  using assms by (metis list_all2_conv_all_nth in_set_conv_nth)

text \<open>
  A collection of items with names of their own, and \<open>ok\<close> the values of it that keep the promise.
\<close>

locale named_collection =
  fixes items :: "'v \<Rightarrow> 'a list" and name :: "'a \<Rightarrow> 'n" and ok :: "'v \<Rightarrow> bool"
  assumes unique: "ok v \<Longrightarrow> distinct (map name (items v))"
begin

lemma same_name_same_item:
  "ok v \<Longrightarrow> x \<in> set (items v) \<Longrightarrow> y \<in> set (items v) \<Longrightarrow> name x = name y \<Longrightarrow> x = y"
  using unique[of v] by (auto simp: distinct_map inj_on_def)

end

end
