(* ===== verification/SynTypes.thy ===== *)
theory SynTypes
  imports Prelude
begin

text \<open>
  The types of the bindings as the \<^verbatim>\<open>syn\<close> crate parses them, with the constructors the engine
  matches on, and the engine's own readers of them
  (\<^verbatim>\<open>engine/src/conversion/type_helpers.rs\<close>): the markers bindgen wraps types in, arrays,
  bitfield units and function pointers. A part of the syntax no reader looks into (a lifetime,
  an array length, a parenthesised argument list) is kept as its tokens.
\<close>

type_synonym rust_tokens = string
type_synonym ident = string

text \<open>The length of an array as \<^verbatim>\<open>syn\<close> parses it: an integer literal, or any other expression.\<close>

datatype array_length = Len_Int nat | Len_Other rust_tokens

datatype rust_type =
    Type_Path type_path
  | Type_Ptr bool rust_type
  | Type_Reference bool rust_type
  | Type_Array rust_type array_length
  | Type_FnPtr "rust_type list" "rust_type option"
  | Type_Paren rust_type
  | Type_Group rust_type
  | Type_Other rust_tokens
and type_path = TypePath (has_qself: bool) (leading_colon: bool) (segments: "path_segment list")
and path_segment = PathSegment (seg_ident: ident) (seg_arguments: path_arguments)
and path_arguments =
    PathArguments_None
  | AngleBracketed "generic_argument list"
  | Parenthesized rust_tokens
and generic_argument =
    GenericArgument_Type rust_type
  | GenericArgument_Other rust_tokens

text \<open>A path written out with no arguments anywhere, as \<^verbatim>\<open>parse_quote\<close> builds it from names.\<close>

definition plain_path :: "bool \<Rightarrow> ident list \<Rightarrow> type_path" where
  "plain_path colon segs = TypePath False colon (map (\<lambda>s. PathSegment s PathArguments_None) segs)"

definition ptr_is_mut :: "bool \<Rightarrow> bool" where
  "ptr_is_mut mutability = mutability"

section \<open>Pins and references\<close>

definition is_pin :: "type_path \<Rightarrow> bool" where
  "is_pin tp \<longleftrightarrow>
     length (segments tp) = 3 \<and>
     list_all (\<lambda>(seg, expected_name). seg_ident seg \<in> set expected_name)
       (zip (segments tp) [[''std'', ''core''], [''pin''], [''Pin'']])"

definition extract_pinned_mutable_reference_type :: "type_path \<Rightarrow> rust_type option" where
  "extract_pinned_mutable_reference_type tp =
     (if \<not> is_pin tp then None
      else if segments tp = [] then None
      else case seg_arguments (last (segments tp)) of
        AngleBracketed args \<Rightarrow>
          (case args of
             [GenericArgument_Type (Type_Reference True elem)] \<Rightarrow> Some elem
           | _ \<Rightarrow> None)
      | _ \<Rightarrow> None)"

fun array_element_type :: "rust_type \<Rightarrow> rust_type" where
  "array_element_type (Type_Array elem n) = array_element_type elem"
| "array_element_type ty = ty"

section \<open>Markers\<close>

definition marker_for_reference :: "bool \<Rightarrow> ident" where
  "marker_for_reference search_for_rvalue =
     (if search_for_rvalue then ''__bindgen_marker_RValueReference''
      else ''__bindgen_marker_Reference'')"

definition matches_bindgen_marker :: "rust_type \<Rightarrow> ident \<Rightarrow> bool" where
  "matches_bindgen_marker ty marker_name =
     (case ty of
        Type_Path tp \<Rightarrow> (case segments tp of [] \<Rightarrow> False | seg # _ \<Rightarrow> seg_ident seg = marker_name)
      | _ \<Rightarrow> False)"

definition type_is_reference :: "rust_type \<Rightarrow> bool \<Rightarrow> bool" where
  "type_is_reference ty search_for_rvalue =
     matches_bindgen_marker ty (marker_for_reference search_for_rvalue)"

definition unwrap_newtype :: "path_segment \<Rightarrow> ident \<Rightarrow> rust_type option" where
  "unwrap_newtype seg wrapper_name =
     (if seg_ident seg \<noteq> wrapper_name then None
      else case seg_arguments seg of
        AngleBracketed args \<Rightarrow>
          (case args of GenericArgument_Type ty # _ \<Rightarrow> Some ty | _ \<Rightarrow> None)
      | _ \<Rightarrow> None)"

definition unwrap_bindgen_marker :: "type_path \<Rightarrow> ident \<Rightarrow> rust_type option" where
  "unwrap_bindgen_marker ty marker_name =
     (case segments ty of [] \<Rightarrow> None | seg # _ \<Rightarrow> unwrap_newtype seg marker_name)"

definition unwrap_reference :: "type_path \<Rightarrow> bool \<Rightarrow> (bool \<times> rust_type) option" where
  "unwrap_reference ty search_for_rvalue =
     (case unwrap_bindgen_marker ty (marker_for_reference search_for_rvalue) of
        Some (Type_Ptr m elem) \<Rightarrow> Some (m, elem)
      | _ \<Rightarrow> None)"

definition unwrap_has_opaque :: "type_path \<Rightarrow> rust_type option" where
  "unwrap_has_opaque ty = unwrap_bindgen_marker ty ''__bindgen_marker_Opaque''"

definition unwrap_const :: "type_path \<Rightarrow> rust_type option" where
  "unwrap_const ty = unwrap_bindgen_marker ty ''__bindgen_marker_Const''"

definition unwrap_volatile :: "type_path \<Rightarrow> rust_type option" where
  "unwrap_volatile ty = unwrap_bindgen_marker ty ''__bindgen_marker_Volatile''"

definition unwrap_long_double :: "type_path \<Rightarrow> rust_type option" where
  "unwrap_long_double ty = unwrap_bindgen_marker ty ''__bindgen_marker_LongDouble''"

definition unwrap_float128 :: "type_path \<Rightarrow> rust_type option" where
  "unwrap_float128 ty = unwrap_bindgen_marker ty ''__bindgen_marker_Float128''"

definition unwrap_std_array :: "type_path \<Rightarrow> rust_type option" where
  "unwrap_std_array ty = unwrap_bindgen_marker ty ''__bindgen_marker_StdArray''"

text \<open>Every unwrapping goes down into the type, which is why the walks over them end.\<close>

lemma unwrap_newtype_size: "unwrap_newtype seg w = Some ty \<Longrightarrow> size ty < size seg"
  by (cases seg) (auto simp: unwrap_newtype_def split: if_splits path_arguments.splits list.splits
      generic_argument.splits)

lemma unwrap_bindgen_marker_size: "unwrap_bindgen_marker tp w = Some ty \<Longrightarrow> size ty < size tp"
  by (cases tp)
     (auto simp: unwrap_bindgen_marker_def dest!: unwrap_newtype_size split: list.splits)

lemma unwrap_marker_size [termination_simp]:
  "unwrap_const tp = Some ty \<Longrightarrow> size ty < Suc (size tp)"
  "unwrap_volatile tp = Some ty \<Longrightarrow> size ty < Suc (size tp)"
  "unwrap_std_array tp = Some ty \<Longrightarrow> size ty < Suc (size tp)"
  by (auto simp: unwrap_const_def unwrap_volatile_def unwrap_std_array_def
      dest: unwrap_bindgen_marker_size)

lemma extract_pinned_size [termination_simp]:
  assumes "extract_pinned_mutable_reference_type tp = Some ty"
  shows "size ty < Suc (size tp)"
proof (cases tp)
  case (TypePath q c segs)
  with assms have ne: "segs \<noteq> []" and
    last: "seg_arguments (last segs) = AngleBracketed [GenericArgument_Type (Type_Reference True ty)]"
    by (auto simp: extract_pinned_mutable_reference_type_def
        split: if_splits path_arguments.splits list.splits generic_argument.splits
          rust_type.splits bool.splits)
  then have "size ty < size (last segs)" by (cases "last segs") auto
  moreover have "size (last segs) \<le> size_list size segs"
    using size_list_estimation'[of "last segs" segs "size (last segs)" size] ne by simp
  ultimately show ?thesis using TypePath by simp
qed

fun mentions_marker :: "ident \<Rightarrow> rust_type \<Rightarrow> bool"
and path_mentions_marker :: "ident \<Rightarrow> type_path \<Rightarrow> bool"
and segment_mentions_marker :: "ident \<Rightarrow> path_segment \<Rightarrow> bool"
and arguments_mention_marker :: "ident \<Rightarrow> path_arguments \<Rightarrow> bool"
and argument_mentions_marker :: "ident \<Rightarrow> generic_argument \<Rightarrow> bool" where
  "mentions_marker marker (Type_Path typ) =
     (unwrap_bindgen_marker typ marker \<noteq> None \<or> path_mentions_marker marker typ)"
| "mentions_marker marker (Type_Array elem n) = mentions_marker marker elem"
| "mentions_marker marker (Type_Ptr m elem) = mentions_marker marker elem"
| "mentions_marker marker (Type_Reference m elem) = mentions_marker marker elem"
| "mentions_marker marker (Type_FnPtr inputs output) =
     (list_ex (mentions_marker marker) inputs \<or>
      (case output of Some ty \<Rightarrow> mentions_marker marker ty | None \<Rightarrow> False))"
| "mentions_marker marker (Type_Paren inner) = mentions_marker marker inner"
| "mentions_marker marker (Type_Group inner) = mentions_marker marker inner"
| "mentions_marker marker (Type_Other t) = False"
| "path_mentions_marker marker (TypePath q c segs) =
     list_ex (segment_mentions_marker marker) segs"
| "segment_mentions_marker marker (PathSegment i args) = arguments_mention_marker marker args"
| "arguments_mention_marker marker (AngleBracketed args) =
     list_ex (argument_mentions_marker marker) args"
| "arguments_mention_marker marker PathArguments_None = False"
| "arguments_mention_marker marker (Parenthesized t) = False"
| "argument_mentions_marker marker (GenericArgument_Type inner) = mentions_marker marker inner"
| "argument_mentions_marker marker (GenericArgument_Other t) = False"

definition mentions_long_double :: "rust_type \<Rightarrow> bool" where
  "mentions_long_double ty = mentions_marker ''__bindgen_marker_LongDouble'' ty"

definition mentions_float128 :: "rust_type \<Rightarrow> bool" where
  "mentions_float128 ty = mentions_marker ''__bindgen_marker_Float128'' ty"

definition mentions_volatile :: "rust_type \<Rightarrow> bool" where
  "mentions_volatile ty = mentions_marker ''__bindgen_marker_Volatile'' ty"

fun strip_const_markers :: "rust_type \<Rightarrow> rust_type" where
  "strip_const_markers (Type_Path typ) =
     (case unwrap_const typ of
        Some inner \<Rightarrow> strip_const_markers inner
      | None \<Rightarrow> Type_Path typ)"
| "strip_const_markers ty = ty"

definition is_volatile_qualified :: "rust_type \<Rightarrow> bool" where
  "is_volatile_qualified ty =
     (case strip_const_markers ty of
        Type_Path typ \<Rightarrow> unwrap_volatile typ \<noteq> None
      | _ \<Rightarrow> False)"

fun strip_qualifier_markers :: "rust_type \<Rightarrow> rust_type" where
  "strip_qualifier_markers (Type_Path typ) =
     (case unwrap_const typ of
        Some inner \<Rightarrow> strip_qualifier_markers inner
      | None \<Rightarrow>
          (case unwrap_volatile typ of
             Some inner \<Rightarrow> strip_qualifier_markers inner
           | None \<Rightarrow> Type_Path typ))"
| "strip_qualifier_markers ty = ty"

fun strip_layout_markers :: "rust_type \<Rightarrow> rust_type" where
  "strip_layout_markers (Type_Path typ) =
     (case unwrap_const typ of
        Some inner \<Rightarrow> strip_layout_markers inner
      | None \<Rightarrow>
          (case unwrap_std_array typ of
             Some inner \<Rightarrow> strip_layout_markers inner
           | None \<Rightarrow> Type_Path typ))"
| "strip_layout_markers ty = ty"

lemma strip_const_size: "size (strip_const_markers ty) \<le> size ty"
proof (induction ty rule: strip_const_markers.induct)
  case (1 tp)
  then show ?case using unwrap_marker_size[of tp] by (fastforce split: option.splits)
qed simp_all

lemma strip_qualifier_size: "size (strip_qualifier_markers ty) \<le> size ty"
proof (induction ty rule: strip_qualifier_markers.induct)
  case (1 tp)
  then show ?case using unwrap_marker_size[of tp] by (fastforce split: option.splits)
qed simp_all

lemma strip_layout_size [simp]: "size (strip_layout_markers ty) \<le> size ty"
proof (induction ty rule: strip_layout_markers.induct)
  case (1 tp)
  then show ?case using unwrap_marker_size[of tp] by (fastforce split: option.splits)
qed simp_all

lemma strip_size_less [termination_simp]:
  "size ty < n \<Longrightarrow> size (strip_qualifier_markers ty) < n"
  "size ty < n \<Longrightarrow> size (strip_layout_markers ty) < n"
  using strip_qualifier_size[of ty] strip_layout_size[of ty] by linarith+

text \<open>The loop of \<^verbatim>\<open>holds_std_array\<close>, entered with the qualifiers already peeled.\<close>

fun holds_std_array_loop :: "rust_type \<Rightarrow> bool" where
  "holds_std_array_loop (Type_Path typ) = (unwrap_std_array typ \<noteq> None)"
| "holds_std_array_loop (Type_Array elem n) = holds_std_array_loop (strip_qualifier_markers elem)"
| "holds_std_array_loop ty = False"

definition holds_std_array :: "rust_type \<Rightarrow> bool" where
  "holds_std_array ty = holds_std_array_loop (strip_qualifier_markers ty)"

text \<open>The \<^verbatim>\<open>while\<close> of \<^verbatim>\<open>unqualified_array_element_type\<close>, entered with the markers peeled.\<close>

fun array_element_loop :: "rust_type \<Rightarrow> rust_type" where
  "array_element_loop (Type_Array elem n) = array_element_loop (strip_layout_markers elem)"
| "array_element_loop ty = ty"

definition unqualified_array_element_type :: "rust_type \<Rightarrow> rust_type" where
  "unqualified_array_element_type ty = array_element_loop (strip_layout_markers ty)"

section \<open>Arrays in signatures\<close>

fun denotes_cpp_array :: "rust_type \<Rightarrow> bool" where
  "denotes_cpp_array (Type_Array elem n) = True"
| "denotes_cpp_array (Type_Reference m elem) = denotes_cpp_array elem"
| "denotes_cpp_array (Type_Ptr m elem) = denotes_cpp_array elem"
| "denotes_cpp_array (Type_Path typ) =
     (case extract_pinned_mutable_reference_type typ of
        Some inner \<Rightarrow> denotes_cpp_array inner
      | None \<Rightarrow> False)"
| "denotes_cpp_array ty = False"

fun mentions_cpp_array :: "rust_type \<Rightarrow> bool"
and path_mentions_cpp_array :: "type_path \<Rightarrow> bool"
and segment_mentions_cpp_array :: "path_segment \<Rightarrow> bool"
and arguments_mention_cpp_array :: "path_arguments \<Rightarrow> bool"
and argument_mentions_cpp_array :: "generic_argument \<Rightarrow> bool" where
  "mentions_cpp_array (Type_Array elem n) = True"
| "mentions_cpp_array (Type_Path typ) = path_mentions_cpp_array typ"
| "mentions_cpp_array (Type_Ptr m elem) = mentions_cpp_array elem"
| "mentions_cpp_array (Type_Reference m elem) = mentions_cpp_array elem"
| "mentions_cpp_array (Type_Paren inner) = mentions_cpp_array inner"
| "mentions_cpp_array (Type_Group inner) = mentions_cpp_array inner"
| "mentions_cpp_array (Type_FnPtr inputs output) = False"
| "mentions_cpp_array (Type_Other t) = False"
| "path_mentions_cpp_array (TypePath q c segs) = list_ex segment_mentions_cpp_array segs"
| "segment_mentions_cpp_array (PathSegment i args) = arguments_mention_cpp_array args"
| "arguments_mention_cpp_array (AngleBracketed args) = list_ex argument_mentions_cpp_array args"
| "arguments_mention_cpp_array PathArguments_None = False"
| "arguments_mention_cpp_array (Parenthesized t) = False"
| "argument_mentions_cpp_array (GenericArgument_Type inner) = mentions_cpp_array inner"
| "argument_mentions_cpp_array (GenericArgument_Other t) = False"

fun cpp_array_element :: "rust_type \<Rightarrow> rust_type option" where
  "cpp_array_element (Type_Array elem n) =
     Some (case cpp_array_element elem of Some e \<Rightarrow> e | None \<Rightarrow> elem)"
| "cpp_array_element (Type_Reference m elem) = cpp_array_element elem"
| "cpp_array_element (Type_Path typ) =
     (case extract_pinned_mutable_reference_type typ of
        Some inner \<Rightarrow> cpp_array_element inner
      | None \<Rightarrow> None)"
| "cpp_array_element ty = None"

definition denotes_cpp_array_behind_pointer :: "rust_type \<Rightarrow> bool" where
  "denotes_cpp_array_behind_pointer ty =
     (case ty of Type_Ptr m elem \<Rightarrow> denotes_cpp_array elem | _ \<Rightarrow> False)"

section \<open>Bitfield units and function pointers\<close>

definition unwrap_bitfield :: "type_path \<Rightarrow> rust_type option" where
  "unwrap_bitfield ty =
     (case segments ty of
        [] \<Rightarrow> None
      | first # rest \<Rightarrow>
          if seg_ident first \<noteq> ''root'' then None
          else (case rest of
             [] \<Rightarrow> None
           | second # more \<Rightarrow>
               if more \<noteq> [] then None else unwrap_newtype second ''__BindgenBitfieldUnit''))"

definition unwrap_function_pointer :: "type_path \<Rightarrow> (rust_type list \<times> rust_type option) option" where
  "unwrap_function_pointer ty =
     (if has_qself ty then None
      else case rev (segments ty) of
        [] \<Rightarrow> None
      | final # before \<Rightarrow>
          if \<not> list_all (\<lambda>seg. seg_ident seg \<in> {''std'', ''core'', ''option''}) before then None
          else (case unwrap_newtype final ''Option'' of
             Some (Type_FnPtr inputs output) \<Rightarrow> Some (inputs, output)
           | _ \<Rightarrow> None))"

definition is_pointer_like :: "rust_type \<Rightarrow> bool" where
  "is_pointer_like ty =
     (case ty of
        Type_Ptr m elem \<Rightarrow> True
      | Type_Path typ \<Rightarrow> unwrap_function_pointer typ \<noteq> None
      | _ \<Rightarrow> False)"

section \<open>What the readers promise\<close>

text \<open>A type no reader of layouts has anything left to peel off.\<close>

fun plain_layout :: "rust_type \<Rightarrow> bool" where
  "plain_layout (Type_Array elem n) = False"
| "plain_layout (Type_Path typ) = (unwrap_const typ = None \<and> unwrap_std_array typ = None)"
| "plain_layout ty = True"

lemma strip_layout_markers_head:
  "strip_layout_markers ty = Type_Path typ \<Longrightarrow> unwrap_const typ = None \<and> unwrap_std_array typ = None"
  by (induction ty rule: strip_layout_markers.induct) (auto split: option.splits)

lemma array_element_loop_plain:
  "(\<And>typ. ty = Type_Path typ \<Longrightarrow> unwrap_const typ = None \<and> unwrap_std_array typ = None) \<Longrightarrow>
   plain_layout (array_element_loop ty)"
proof (induction ty rule: array_element_loop.induct)
  case (1 elem n)
  then show ?case using strip_layout_markers_head by simp
qed auto

lemma plain_layout_fixed:
  "plain_layout ty \<Longrightarrow> strip_layout_markers ty = ty \<and> array_element_loop ty = ty"
  by (cases ty) auto

lemma strip_const_mentions:
  "mentions_marker m (strip_const_markers ty) \<Longrightarrow> mentions_marker m ty"
proof (induction ty rule: strip_const_markers.induct)
  case (1 tp)
  show ?case
  proof (cases "unwrap_const tp")
    case None
    with 1 show ?thesis by simp
  next
    case (Some inner)
    then obtain seg rest args where seg: "segments tp = seg # rest"
      "seg_arguments seg = AngleBracketed (GenericArgument_Type inner # args)"
      by (auto simp: unwrap_const_def unwrap_bindgen_marker_def unwrap_newtype_def
          split: list.splits if_splits path_arguments.splits generic_argument.splits)
    from 1 Some have "mentions_marker m inner" by simp
    then have "path_mentions_marker m tp" using seg by (cases tp; cases seg) auto
    then show ?thesis by simp
  qed
qed auto

lemma cpp_array_element_denotes:
  "cpp_array_element ty = Some e \<Longrightarrow> denotes_cpp_array ty \<and> cpp_array_element e = None"
  by (induction ty arbitrary: e rule: cpp_array_element.induct) (auto split: option.splits)

section \<open>Properties\<close>

text \<open>
  What a field is made of, once every array layer and every marker that says nothing about
  layout has been peeled off together, is neither an array nor a \<^verbatim>\<open>const\<close> or
  \<^verbatim>\<open>std::array\<close> marker, and asking again gives the same answer, however the two alternate.
\<close>

theorem array_element_is_plain:
  "plain_layout (unqualified_array_element_type ty) \<and>
   unqualified_array_element_type (unqualified_array_element_type ty) =
     unqualified_array_element_type ty"
proof -
  have plain: "plain_layout (unqualified_array_element_type ty)"
    unfolding unqualified_array_element_type_def
    by (rule array_element_loop_plain) (rule strip_layout_markers_head)
  then show ?thesis
    using plain_layout_fixed[OF plain] by (simp add: unqualified_array_element_type_def)
qed

text \<open>
  A type C++ qualified \<^verbatim>\<open>volatile\<close> in its own right is one that mentions \<^verbatim>\<open>volatile\<close>, so
  the broad question asked of template arguments never misses what the narrow one finds.
\<close>

theorem volatile_qualified_mentions:
  assumes "is_volatile_qualified ty"
  shows "mentions_volatile ty"
proof -
  from assms obtain tp where tp: "strip_const_markers ty = Type_Path tp" "unwrap_volatile tp \<noteq> None"
    by (auto simp: is_volatile_qualified_def split: rust_type.splits)
  then have "mentions_marker ''__bindgen_marker_Volatile'' (strip_const_markers ty)"
    by (simp add: unwrap_volatile_def)
  then show ?thesis unfolding mentions_volatile_def by (rule strip_const_mentions)
qed

definition const_volatile_int :: rust_type where
  "const_volatile_int =
     (let mark = (\<lambda>m ty. Type_Path (TypePath False False
                    [PathSegment m (AngleBracketed [GenericArgument_Type ty])]))
      in mark ''__bindgen_marker_Const'' (mark ''__bindgen_marker_Volatile''
           (Type_Path (plain_path False [''c_int'']))))"

lemma volatile_qualified_mentions_witness:
  "is_volatile_qualified const_volatile_int \<and> mentions_volatile const_volatile_int"
proof -
  have "is_volatile_qualified const_volatile_int"
    by (simp add: const_volatile_int_def is_volatile_qualified_def Let_def unwrap_const_def
        unwrap_volatile_def unwrap_bindgen_marker_def unwrap_newtype_def)
  with volatile_qualified_mentions show ?thesis by blast
qed

end
