(* ===== verification/Names.thy ===== *)
theory Names
  imports SynTypes "HOL-Library.Char_ord" "HOL-Library.List_Lexorder"
begin

text \<open>
  Namespaces, qualified names and the names bindgen invents
  (\<^verbatim>\<open>engine/src/types.rs\<close>). What a name is called in C++ depends on the database of known
  types and is in the theory of that database.
\<close>

type_synonym ('e, 'a) result = "'e + 'a"
type_synonym namespace = "string list"

text \<open>
  An identifier is its text. \<^verbatim>\<open>Ident::new\<close> panics on a text that is no Rust identifier, and that panic is left out:
  what is proved of panics further on is for names that are identifiers, as those bindgen reports are.
\<close>

definition make_ident :: "string \<Rightarrow> ident" where
  "make_ident idt = idt"

section \<open>Namespaces\<close>

definition Namespace_new :: namespace where
  "Namespace_new = []"

definition Namespace_push :: "namespace \<Rightarrow> string \<Rightarrow> namespace" where
  "Namespace_push ns segment = ns @ [segment]"

definition Namespace_is_empty :: "namespace \<Rightarrow> bool" where
  "Namespace_is_empty ns \<longleftrightarrow> ns = []"

definition Namespace_depth :: "namespace \<Rightarrow> nat" where
  "Namespace_depth ns = length ns"

definition Namespace_to_cpp_path :: "namespace \<Rightarrow> string" where
  "Namespace_to_cpp_path ns = join ''::'' ns"

section \<open>Qualified names\<close>

datatype qualified_name = QualifiedName (get_namespace: namespace) (get_final_item: string)

text \<open>\<open>derive(PartialOrd)\<close>: the namespace first, then the name.\<close>

instantiation qualified_name :: linorder
begin

definition less_eq_qualified_name :: "qualified_name \<Rightarrow> qualified_name \<Rightarrow> bool" where
  "less_eq_qualified_name a b \<longleftrightarrow>
     get_namespace a < get_namespace b \<or>
     (get_namespace a = get_namespace b \<and> get_final_item a \<le> get_final_item b)"

definition less_qualified_name :: "qualified_name \<Rightarrow> qualified_name \<Rightarrow> bool" where
  "less_qualified_name a b \<longleftrightarrow>
     get_namespace a < get_namespace b \<or>
     (get_namespace a = get_namespace b \<and> get_final_item a < get_final_item b)"

instance
proof
  fix x y z :: qualified_name
  show "x < y \<longleftrightarrow> x \<le> y \<and> \<not> y \<le> x"
    by (auto simp: less_eq_qualified_name_def less_qualified_name_def)
  show "x \<le> x" by (simp add: less_eq_qualified_name_def)
  show "x \<le> y \<Longrightarrow> y \<le> z \<Longrightarrow> x \<le> z" by (auto simp: less_eq_qualified_name_def)
  show "x \<le> y \<Longrightarrow> y \<le> x \<Longrightarrow> x = y"
    by (cases x; cases y) (auto simp: less_eq_qualified_name_def)
  show "x \<le> y \<or> y \<le> x" by (auto simp: less_eq_qualified_name_def)
qed

end

text \<open>
  The loops of \<^verbatim>\<open>from_segments\<close> and \<^verbatim>\<open>new_from_cpp_name\<close> peek at whether the segment in hand is
  the last one. An empty iterator reaches \<^verbatim>\<open>unreachable!()\<close>, which is \<open>None\<close> here.
\<close>

fun from_segments_loop :: "namespace \<Rightarrow> path_segment list \<Rightarrow> qualified_name option" where
  "from_segments_loop ns [] = None"
| "from_segments_loop ns [seg] = Some (QualifiedName ns (seg_ident seg))"
| "from_segments_loop ns (seg # next # rest) =
     from_segments_loop (Namespace_push ns (seg_ident seg)) (next # rest)"

definition from_segments :: "path_segment list \<Rightarrow> qualified_name option" where
  "from_segments segs = from_segments_loop Namespace_new segs"

definition from_type_path :: "type_path \<Rightarrow> qualified_name option" where
  "from_type_path ty =
     (case segments ty of
        [] \<Rightarrow> None
      | first_seg # rest \<Rightarrow>
          if seg_ident first_seg = ''root'' \<or> seg_ident first_seg = ''output'' then from_segments rest
          else from_segments (segments ty))"

definition QualifiedName_new :: "namespace \<Rightarrow> ident \<Rightarrow> qualified_name" where
  "QualifiedName_new ns idt = QualifiedName ns idt"

fun new_from_cpp_name_loop :: "namespace \<Rightarrow> string list \<Rightarrow> qualified_name" where
  "new_from_cpp_name_loop ns [] = QualifiedName ns []"
| "new_from_cpp_name_loop ns [seg] = QualifiedName ns seg"
| "new_from_cpp_name_loop ns (seg # next # rest) =
     new_from_cpp_name_loop (if seg \<noteq> [] then Namespace_push ns seg else ns) (next # rest)"

definition new_from_cpp_name :: "string \<Rightarrow> qualified_name" where
  "new_from_cpp_name idt = new_from_cpp_name_loop Namespace_new (split_str ''::'' idt)"

definition ns_segment_iter :: "qualified_name \<Rightarrow> string list" where
  "ns_segment_iter qn = get_namespace qn"

definition segment_iter :: "qualified_name \<Rightarrow> string list" where
  "segment_iter qn = ns_segment_iter qn @ [get_final_item qn]"

definition get_root_path_idents :: "qualified_name \<Rightarrow> ident list" where
  "get_root_path_idents qn = map make_ident (ns_segment_iter qn) @ [make_ident (get_final_item qn)]"

definition get_bindgen_path_idents :: "qualified_name \<Rightarrow> ident list" where
  "get_bindgen_path_idents qn =
     map make_ident [''bindgen'', ''root''] @ get_root_path_idents qn"

definition QualifiedName_to_string :: "qualified_name \<Rightarrow> string" where
  "QualifiedName_to_string qn =
     concat (map (\<lambda>seg. seg @ ''::'') (get_namespace qn)) @ get_final_item qn"

section \<open>Names the engine knows by their spelling\<close>

definition is_std_function :: "qualified_name \<Rightarrow> bool" where
  "is_std_function name \<longleftrightarrow>
     get_final_item name = ''function'' \<and> ns_segment_iter name = [''std'']"

definition VA_LIST_SPELLINGS :: "string list" where
  "VA_LIST_SPELLINGS =
     [''va_list'', ''__builtin_va_list'', ''__builtin_ms_va_list'', ''__builtin_sysv_va_list'',
      ''__gnuc_va_list'', ''__isoc_va_list'', ''__darwin_va_list'', ''__va_list_tag'']"

definition is_va_list :: "qualified_name \<Rightarrow> bool" where
  "is_va_list name =
     (case ns_segment_iter name of
        [] \<Rightarrow> get_final_item name \<in> set VA_LIST_SPELLINGS
      | first # rest \<Rightarrow>
          first = ''std'' \<and> rest = [] \<and> get_final_item name = ''__va_list'')"

section \<open>Whether an identifier will do\<close>

datatype invalid_ident_error =
    Ident_Union
  | TooManyUnderscores
  | BindgenOpaqueType
  | BindgenTy
  | ReservedName string

text \<open>
  Whether \<^verbatim>\<open>syn\<close> parses a token as an identifier is that crate's business, so it is the
  argument \<open>is_rust_ident\<close> of everything that asks.
\<close>

definition validate_str_ok_for_rust ::
    "(string \<Rightarrow> bool) \<Rightarrow> string \<Rightarrow> (invalid_ident_error, unit) result" where
  "validate_str_ok_for_rust is_rust_ident label =
     (if is_rust_ident (make_ident label) then Inr () else Inl (ReservedName label))"

definition validate_ident_ok_for_cxx ::
    "(string \<Rightarrow> bool) \<Rightarrow> string \<Rightarrow> (invalid_ident_error, unit) result" where
  "validate_ident_ok_for_cxx is_rust_ident idt =
     (case validate_str_ok_for_rust is_rust_ident idt of
        Inl e \<Rightarrow> Inl e
      | Inr _ \<Rightarrow>
          if prefix ''__BindgenUnionField'' idt then Inl Ident_Union
          else if prefix ''__BindgenOpaqueArray'' idt then Inl BindgenOpaqueType
          else if sublist ''__'' idt \<and> \<not> prefix ''__bindgen_marker'' idt then Inl TooManyUnderscores
          else if prefix ''_bindgen_ty_'' idt then Inl BindgenTy
          else Inr ())"

definition validate_ok_for_cxx ::
    "(string \<Rightarrow> bool) \<Rightarrow> qualified_name \<Rightarrow> (invalid_ident_error, unit) result" where
  "validate_ok_for_cxx is_rust_ident qn = validate_ident_ok_for_cxx is_rust_ident (get_final_item qn)"

section \<open>Names of disambiguated overloads\<close>

definition strip_bindgen_original_suffix :: "string \<Rightarrow> string" where
  "strip_bindgen_original_suffix effective_fun_name =
     (case split_at_last ''_bindgen_original'' effective_fun_name of
        None \<Rightarrow> effective_fun_name
      | Some (stem, rest) \<Rightarrow>
          (let overload_digits = takeWhile is_digit rest in
           if overload_digits = [] then stem
           else stem @ ''_autocxx_dedup_'' @ overload_digits))"

definition dedup_name_stem :: "string \<Rightarrow> string option" where
  "dedup_name_stem name =
     (case split_at_last ''_autocxx_dedup_'' name of
        None \<Rightarrow> None
      | Some (stem, rest) \<Rightarrow> if rest \<noteq> [] \<and> list_all is_digit rest then Some stem else None)"

definition strip_bindgen_original_suffix_from_ident :: "ident \<Rightarrow> ident" where
  "strip_bindgen_original_suffix_from_ident effective_fun_name =
     make_ident (strip_bindgen_original_suffix effective_fun_name)"

section \<open>Lemmas\<close>

text \<open>A name C++ could have written: no segment is empty or holds a colon.\<close>

definition well_spelled :: "qualified_name \<Rightarrow> bool" where
  "well_spelled qn \<longleftrightarrow>
     (\<forall>seg \<in> set (get_namespace qn). seg \<noteq> [] \<and> CHR '':'' \<notin> set seg) \<and>
     CHR '':'' \<notin> set (get_final_item qn)"

lemma new_from_cpp_name_loop_segments:
  "\<forall>seg \<in> set segs. seg \<noteq> [] \<Longrightarrow>
   new_from_cpp_name_loop ns (segs @ [idt]) = QualifiedName (ns @ segs) idt"
proof (induction segs arbitrary: ns)
  case (Cons s segs)
  then show ?case by (cases segs) (auto simp: Namespace_push_def)
qed simp

lemma new_from_cpp_name_join:
  assumes "well_spelled qn"
  shows "new_from_cpp_name (join ''::'' (segment_iter qn)) = qn"
proof (cases qn)
  case (QualifiedName ns idt)
  with assms have seg: "\<forall>s \<in> set ns. s \<noteq> []" and
    colon: "\<And>s. s \<in> set (ns @ [idt]) \<Longrightarrow> hd ''::'' \<notin> set s"
    by (auto simp: well_spelled_def)
  have "split_str ''::'' (join ''::'' (ns @ [idt])) = ns @ [idt]"
    by (rule split_join) (use colon in auto)
  with seg QualifiedName show ?thesis
    by (simp add: new_from_cpp_name_def segment_iter_def ns_segment_iter_def Namespace_new_def
        new_from_cpp_name_loop_segments)
qed

lemma QualifiedName_to_string_join: "QualifiedName_to_string qn = join ''::'' (segment_iter qn)"
proof -
  have "concat (map (\<lambda>seg. seg @ ''::'') ns) @ idt = join ''::'' (ns @ [idt])" for ns and idt :: string
    by (induction ns) (auto simp: join_Cons)
  then show ?thesis by (simp add: QualifiedName_to_string_def segment_iter_def ns_segment_iter_def)
qed

lemma from_segments_loop_snoc:
  "from_segments_loop ns (segs @ [seg]) = Some (QualifiedName (ns @ map seg_ident segs) (seg_ident seg))"
proof (induction segs arbitrary: ns)
  case (Cons s segs)
  then show ?case by (cases segs) (auto simp: Namespace_push_def)
qed simp

lemma from_segments_plain:
  "from_segments (segments (plain_path colon (ns @ [idt]))) = Some (QualifiedName ns idt)"
  by (simp add: from_segments_def plain_path_def from_segments_loop_snoc Namespace_new_def comp_def)

text \<open>
  A pattern that ends in something other than a digit occurs last where it was put, whatever
  number follows it.
\<close>

lemma no_later_pattern:
  assumes "pat \<noteq> []" and "\<not> is_digit (last pat)" and "list_all is_digit ds"
  shows "\<not> sublist pat (tl pat @ ds)"
proof
  assume "sublist pat (tl pat @ ds)"
  then obtain a b where split: "tl pat @ ds = a @ pat @ b" by (auto simp: sublist_def)
  define i where "i = length a + (length pat - 1)"
  have "(a @ pat @ b) ! i = last pat"
    using assms(1) by (simp add: i_def nth_append last_conv_nth)
  moreover have "i < length (tl pat @ ds)"
    unfolding split using assms(1) by (cases pat) (simp_all add: i_def)
  then have "(tl pat @ ds) ! i \<in> set ds"
    by (auto simp: nth_append i_def intro!: nth_mem)
  ultimately show False using assms(2,3) split by (auto simp: list_all_iff)
qed

lemma split_at_last_digits:
  assumes "pat \<noteq> []" and "\<not> is_digit (last pat)" and "list_all is_digit ds"
  shows "split_at_last pat (stem @ pat @ ds) = Some (stem, ds)"
  using split_at_last_append[of pat ds stem] no_later_pattern[OF assms] assms(1)
  by (simp add: split_at_last_None_iff)

section \<open>Properties\<close>

lemma strip_numbered:
  assumes "ds \<noteq> []" and "list_all is_digit ds"
  shows "strip_bindgen_original_suffix (stem @ ''_bindgen_original'' @ ds) =
    stem @ ''_autocxx_dedup_'' @ ds"
proof -
  have split: "split_at_last ''_bindgen_original'' (stem @ ''_bindgen_original'' @ ds) = Some (stem, ds)"
    by (rule split_at_last_digits[OF _ _ assms(2)]) (simp_all add: is_digit_def)
  have number: "takeWhile is_digit ds = ds"
    using assms(2) by (simp add: list_all_iff)
  show ?thesis
    unfolding strip_bindgen_original_suffix_def split option.case prod.case number Let_def
    using assms(1) by simp
qed

text \<open>
  The name given to an overload bindgen numbered, \<^verbatim>\<open>stem_bindgen_originalN\<close>, says which name
  the overloads share and no two such spellings become one name: whatever the stem is, its dedup
  name yields the stem back, and another stem or another number yields another name.
\<close>

theorem dedup_names_faithful:
  assumes "ds \<noteq> []" and "list_all is_digit ds" and "es \<noteq> []" and "list_all is_digit es"
  shows "dedup_name_stem (strip_bindgen_original_suffix (stem @ ''_bindgen_original'' @ ds)) = Some stem
    \<and> (strip_bindgen_original_suffix (stem @ ''_bindgen_original'' @ ds) =
       strip_bindgen_original_suffix (other @ ''_bindgen_original'' @ es)
       \<longleftrightarrow> stem = other \<and> ds = es)"
proof -
  have split: "split_at_last ''_autocxx_dedup_'' (st @ ''_autocxx_dedup_'' @ xs) = Some (st, xs)"
    if "list_all is_digit xs" for st xs
    by (rule split_at_last_digits[OF _ _ that]) (simp_all add: is_digit_def)
  have "stem = other \<and> ds = es"
    if "stem @ ''_autocxx_dedup_'' @ ds = other @ ''_autocxx_dedup_'' @ es"
  proof -
    have "Some (stem, ds) = Some (other, es)"
      unfolding split[OF assms(2), of stem, symmetric] split[OF assms(4), of other, symmetric]
      by (simp only: that)
    then show ?thesis by simp
  qed
  moreover have "dedup_name_stem (stem @ ''_autocxx_dedup_'' @ ds) = Some stem"
    using assms(1,2) by (simp only: dedup_name_stem_def split[OF assms(2)] option.case prod.case) simp
  ultimately show ?thesis
    unfolding strip_numbered[OF assms(1,2)] strip_numbered[OF assms(3,4)] by blast
qed

lemma dedup_names_faithful_witness:
  "dedup_name_stem (strip_bindgen_original_suffix ''byteSwap_bindgen_original2'') = Some ''byteSwap''
   \<and> strip_bindgen_original_suffix ''byteSwap_bindgen_original2'' \<noteq>
     strip_bindgen_original_suffix ''byteSwap_bindgen_original12''"
  using dedup_names_faithful[of "''2''" "''12''" "''byteSwap''" "''byteSwap''"]
  by (simp add: is_digit_def)

text \<open>
  Which identifiers cxx is given. One passes exactly when \<^verbatim>\<open>syn\<close> takes it, it holds no double
  underscore unless it is one of bindgen's markers, and it is not one of the names bindgen
  invents for an unnamed type; the two specific diagnostics for bindgen's unions and opaque
  arrays only ever replace a refusal that would have come anyway.
\<close>

theorem validate_ident_accepts:
  "validate_ident_ok_for_cxx is_rust_ident name = Inr () \<longleftrightarrow>
     is_rust_ident name \<and> \<not> (sublist ''__'' name \<and> \<not> prefix ''__bindgen_marker'' name) \<and>
     \<not> prefix ''_bindgen_ty_'' name"
proof -
  have "sublist ''__'' name \<and> \<not> prefix ''__bindgen_marker'' name"
    if "prefix p name" and "p = ''__BindgenUnionField'' \<or> p = ''__BindgenOpaqueArray''" for p
  proof
    from that have "prefix ''__'' name" by (auto simp: prefix_def)
    then show "sublist ''__'' name" by (rule prefix_imp_sublist)
    from that show "\<not> prefix ''__bindgen_marker'' name" by (auto simp: prefix_def)
  qed
  then have special: "sublist ''__'' name \<and> \<not> prefix ''__bindgen_marker'' name"
    if "prefix ''__BindgenUnionField'' name \<or> prefix ''__BindgenOpaqueArray'' name"
    using that by blast
  show ?thesis
    using special by (auto simp: validate_ident_ok_for_cxx_def validate_str_ok_for_rust_def make_ident_def)
qed

end
