(* ===== verification/TypeDatabase.thy ===== *)
theory TypeDatabase
  imports Names
begin

text \<open>
  The database of types the engine knows without being told
  (\<^verbatim>\<open>engine/src/known_types.rs\<close>): the behaviours, the entries, the three maps and every
  query, the database itself built by the insertions of \<^verbatim>\<open>create_type_database\<close> in their
  order, and the C++ and Rust spellings of a qualified name, which go through it
  (\<^verbatim>\<open>engine/src/types.rs\<close>).
\<close>

definition CXX_CHARACTER_TYPES :: "(string \<times> string \<times> string) list" where
  "CXX_CHARACTER_TYPES =
     [(''char16_t'', ''bindgen_cchar16_t'', ''autocxx::c_char16_t''),
      (''wchar_t'', ''bindgen_cwchar_t'', ''autocxx::c_wchar_t''),
      (''char32_t'', ''bindgen_cchar32_t'', ''autocxx::c_char32_t''),
      (''char8_t'', ''bindgen_cchar8_t'', ''autocxx::c_char8_t'')]"

section \<open>Behaviours\<close>

datatype behavior =
    CxxContainerUniquePtr
  | CxxContainerSharedPtr
  | CxxContainerVector
  | CxxString
  | CxxStringView
  | RustStr
  | RustString
  | RustByValue
  | CByValue
  | CChar
  | CByValueVecSafe
  | CIntegerWrapper
  | CVoid
  | CCharacter
  | RustContainerByValueSafe

fun destructor_is_trivial :: "behavior \<Rightarrow> bool" where
  "destructor_is_trivial CByValue = True"
| "destructor_is_trivial CChar = True"
| "destructor_is_trivial CByValueVecSafe = True"
| "destructor_is_trivial CIntegerWrapper = True"
| "destructor_is_trivial CCharacter = True"
| "destructor_is_trivial CVoid = True"
| "destructor_is_trivial RustByValue = True"
| "destructor_is_trivial RustStr = True"
| "destructor_is_trivial CxxStringView = True"
| "destructor_is_trivial CxxString = False"
| "destructor_is_trivial CxxContainerUniquePtr = False"
| "destructor_is_trivial CxxContainerSharedPtr = False"
| "destructor_is_trivial CxxContainerVector = False"
| "destructor_is_trivial RustString = False"
| "destructor_is_trivial RustContainerByValueSafe = False"

definition inner_types :: "behavior \<Rightarrow> (string \<times> string) list" where
  "inner_types b =
     (if b = CxxString \<or> b = CxxStringView then
        [(''value_type'', ''char''), (''size_type'', ''__SIZE_TYPE__''),
         (''difference_type'', ''__PTRDIFF_TYPE__'')]
      else [])"

fun has_prelude_entry :: "behavior \<Rightarrow> bool" where
  "has_prelude_entry RustString = True"
| "has_prelude_entry RustStr = True"
| "has_prelude_entry CxxString = True"
| "has_prelude_entry CxxStringView = True"
| "has_prelude_entry CxxContainerUniquePtr = True"
| "has_prelude_entry CxxContainerSharedPtr = True"
| "has_prelude_entry CxxContainerVector = True"
| "has_prelude_entry RustContainerByValueSafe = True"
| "has_prelude_entry CByValue = False"
| "has_prelude_entry CChar = False"
| "has_prelude_entry CByValueVecSafe = False"
| "has_prelude_entry CIntegerWrapper = False"
| "has_prelude_entry CCharacter = False"
| "has_prelude_entry CVoid = False"
| "has_prelude_entry RustByValue = False"

section \<open>Entries\<close>

record type_details =
  rs_name :: string
  td_cpp_name :: string
  td_behavior :: behavior
  extra_non_canonical_name :: "string option"
  td_has_const_copy_constructor :: bool
  td_has_move_constructor :: bool
  owns_cpp_name :: bool
  has_container_glue :: bool

definition TypeDetails_new ::
    "string \<Rightarrow> string \<Rightarrow> behavior \<Rightarrow> string option \<Rightarrow> bool \<Rightarrow> bool \<Rightarrow> type_details" where
  "TypeDetails_new rs cpp b extra copy move =
     \<lparr>rs_name = rs, td_cpp_name = cpp, td_behavior = b, extra_non_canonical_name = extra,
      td_has_const_copy_constructor = copy, td_has_move_constructor = move,
      owns_cpp_name = True, has_container_glue = True\<rparr>"

definition sharing_cpp_name :: "type_details \<Rightarrow> type_details" where
  "sharing_cpp_name td = td\<lparr>owns_cpp_name := False\<rparr>"

definition without_container_glue :: "type_details \<Rightarrow> type_details" where
  "without_container_glue td = td\<lparr>has_container_glue := False\<rparr>"

text \<open>\<open>newline\<close> is the line break of the C++ text.\<close>

definition newline :: string where
  "newline = [CHR 0x0A]"

definition get_prelude_entry :: "type_details \<Rightarrow> string option" where
  "get_prelude_entry td =
     (if \<not> has_prelude_entry (td_behavior td) then None
      else
        let tn = new_from_cpp_name (rs_name td);
            cxx_name = get_final_item tn;
            (templating, payload) =
              (if td_behavior td \<in> {CxxContainerUniquePtr, CxxContainerSharedPtr, CxxContainerVector,
                                    RustContainerByValueSafe}
               then (''template<typename T> '', ''T* ptr'')
               else ('''', ''char* ptr''));
            inner =
              (case inner_types (td_behavior td) of
                 [] \<Rightarrow> ''''
               | types \<Rightarrow>
                   ''public:'' @ newline @ ''    '' @
                   join (newline @ ''    '')
                     (map (\<lambda>(name, def). ''typedef '' @ def @ '' '' @ name @ '';'') types) @
                   newline @ ''private:'' @ newline)
        in Some (''/**'' @ newline @
                 ''* <div rustbindgen='' @ [CHR 0x22] @ ''true'' @ [CHR 0x22] @ '' replaces='' @
                 [CHR 0x22] @ td_cpp_name td @ [CHR 0x22] @ ''></div>'' @ newline @
                 ''*/'' @ newline @
                 templating @ ''class '' @ cxx_name @ '' {'' @ newline @
                 inner @ ''    '' @ payload @ '';'' @ newline @
                 ''};'' @ newline))"

definition substitute_name :: "type_details \<Rightarrow> string option" where
  "substitute_name td =
     (if has_prelude_entry (td_behavior td) then Some (last (split_str ''::'' (td_cpp_name td)))
      else None)"

definition td_to_type_path :: "type_details \<Rightarrow> type_path" where
  "td_to_type_path td =
     (let segs = split_str ''::'' (rs_name td) in
      if hd segs = [] then plain_path True (map make_ident (tl segs))
      else plain_path False (map make_ident segs))"

definition to_typename :: "type_details \<Rightarrow> qualified_name" where
  "to_typename td = new_from_cpp_name (rs_name td)"

datatype cxx_generic_type = Generic_Not | CppUniquePtr | CppSharedPtr | CppVector | Generic_Rust

definition get_generic_behavior :: "type_details \<Rightarrow> cxx_generic_type" where
  "get_generic_behavior td =
     (case td_behavior td of
        CxxContainerUniquePtr \<Rightarrow> CppUniquePtr
      | CxxContainerSharedPtr \<Rightarrow> CppSharedPtr
      | CxxContainerVector \<Rightarrow> CppVector
      | RustContainerByValueSafe \<Rightarrow> Generic_Rust
      | _ \<Rightarrow> Generic_Not)"

section \<open>The database\<close>

record type_database =
  by_rs_name :: "(qualified_name, type_details) index_map"
  canonical_names :: "(qualified_name, qualified_name) index_map"
  unique_ptr_payload_wrappers :: "(qualified_name, qualified_name) index_map"

record known_type_constructor_details =
  has_move_constructor :: bool
  has_const_copy_constructor :: bool
  kt_destructor_is_trivial :: bool

definition db_get :: "type_database \<Rightarrow> qualified_name \<Rightarrow> type_details option" where
  "db_get db ty =
     (let canonical_name = (case map_of (canonical_names db) ty of Some c \<Rightarrow> c | None \<Rightarrow> ty)
      in map_of (by_rs_name db) canonical_name)"

definition get_prelude :: "type_database \<Rightarrow> string" where
  "get_prelude db = concat (List.map_filter get_prelude_entry (map snd (by_rs_name db)))"

definition all_names :: "type_database \<Rightarrow> qualified_name list" where
  "all_names db = map fst (canonical_names db) @ map fst (by_rs_name db)"

definition pod_safe_behavior :: "behavior \<Rightarrow> bool" where
  "pod_safe_behavior b \<longleftrightarrow> b \<notin> {CxxString, CxxStringView, CxxContainerVector, CVoid}"

text \<open>The \<^verbatim>\<open>unwrap()\<close> on each name panics where \<open>db_get\<close> is \<open>None\<close>; so does the whole list.\<close>

fun pod_safety_collect ::
    "type_database \<Rightarrow> (qualified_name, bool) index_map \<Rightarrow> qualified_name list \<Rightarrow>
     (qualified_name, bool) index_map option" where
  "pod_safety_collect db acc [] = Some acc"
| "pod_safety_collect db acc (tn # tns) =
     (case db_get db tn of
        None \<Rightarrow> None
      | Some td \<Rightarrow>
          pod_safety_collect db (imap_insert tn (pod_safe_behavior (td_behavior td)) acc) tns)"

definition get_pod_safe_types :: "type_database \<Rightarrow> (qualified_name, bool) index_map option" where
  "get_pod_safe_types db = pod_safety_collect db [] (all_names db)"

definition get_constructor_details ::
    "type_database \<Rightarrow> qualified_name \<Rightarrow> known_type_constructor_details option" where
  "get_constructor_details db qn =
     map_option (\<lambda>x. \<lparr>has_move_constructor = td_has_move_constructor x,
                      has_const_copy_constructor = td_has_const_copy_constructor x,
                      kt_destructor_is_trivial = destructor_is_trivial (td_behavior x)\<rparr>)
       (db_get db qn)"

text \<open>\<open>self.get(tn).map(f).unwrap_or(d)\<close>, the shape of nearly every query.\<close>

abbreviation db_query :: "type_database \<Rightarrow> qualified_name \<Rightarrow> (type_details \<Rightarrow> 'a) \<Rightarrow> 'a \<Rightarrow> 'a" where
  "db_query db tn f d \<equiv> (case db_get db tn of Some td \<Rightarrow> f td | None \<Rightarrow> d)"

definition should_dereference_in_cpp :: "type_database \<Rightarrow> qualified_name \<Rightarrow> bool" where
  "should_dereference_in_cpp db tn = db_query db tn (\<lambda>td. td_behavior td = RustStr) False"

definition copyable_from_volatile :: "type_database \<Rightarrow> qualified_name \<Rightarrow> bool" where
  "copyable_from_volatile db tn =
     db_query db tn (\<lambda>td. td_behavior td \<in> {CByValue, CByValueVecSafe, CChar, CCharacter,
                                             CIntegerWrapper}) False"

definition lacks_copy_constructor :: "type_database \<Rightarrow> qualified_name \<Rightarrow> bool" where
  "lacks_copy_constructor db tn =
     db_query db tn (\<lambda>td. td_behavior td \<in> {CxxContainerUniquePtr, CxxContainerSharedPtr,
                                             CxxContainerVector, RustContainerByValueSafe}) False"

definition consider_substitution :: "type_database \<Rightarrow> qualified_name \<Rightarrow> type_path option" where
  "consider_substitution db tn = map_option td_to_type_path (db_get db tn)"

definition special_cpp_name :: "type_database \<Rightarrow> qualified_name \<Rightarrow> string option" where
  "special_cpp_name db rs = map_option td_cpp_name (db_get db rs)"

definition is_known_type :: "type_database \<Rightarrow> qualified_name \<Rightarrow> bool" where
  "is_known_type db ty \<longleftrightarrow> db_get db ty \<noteq> None"

definition is_known_substitute_type :: "type_database \<Rightarrow> qualified_name \<Rightarrow> bool" where
  "is_known_substitute_type db ty \<longleftrightarrow>
     Namespace_is_empty (get_namespace ty) \<and>
     list_ex (\<lambda>td. substitute_name td = Some (get_final_item ty)) (map snd (by_rs_name db))"

definition substitute_declares_inner_type ::
    "type_database \<Rightarrow> qualified_name \<Rightarrow> string \<Rightarrow> bool option" where
  "substitute_declares_inner_type db ty inner_type =
     (case db_get db ty of
        None \<Rightarrow> None
      | Some details \<Rightarrow>
          if has_prelude_entry (td_behavior details)
          then Some (list_ex (\<lambda>(name, _). name = inner_type) (inner_types (td_behavior details)))
          else None)"

definition known_type_type_path :: "type_database \<Rightarrow> qualified_name \<Rightarrow> type_path option" where
  "known_type_type_path db ty = map_option td_to_type_path (db_get db ty)"

definition as_ctype :: "type_database \<Rightarrow> qualified_name \<Rightarrow> qualified_name option" where
  "as_ctype db ty =
     (case db_get db ty of
        Some td \<Rightarrow> if td_behavior td \<in> {CIntegerWrapper, CVoid, CCharacter} then Some (to_typename td)
                   else None
      | None \<Rightarrow> None)"

definition cxx_generic_behavior :: "type_database \<Rightarrow> qualified_name \<Rightarrow> cxx_generic_type" where
  "cxx_generic_behavior db ty = db_query db ty get_generic_behavior Generic_Not"

definition is_cxx_acceptable_receiver :: "type_database \<Rightarrow> qualified_name \<Rightarrow> bool" where
  "is_cxx_acceptable_receiver db ty \<longleftrightarrow> db_get db ty = None"

definition permissible_within_vector :: "type_database \<Rightarrow> qualified_name \<Rightarrow> bool" where
  "permissible_within_vector db ty =
     db_query db ty (\<lambda>x. has_container_glue x \<and>
       td_behavior x \<in> {CxxString, CByValueVecSafe, CIntegerWrapper, CCharacter}) True"

definition permissible_within_array :: "type_database \<Rightarrow> qualified_name \<Rightarrow> bool" where
  "permissible_within_array db ty =
     db_query db ty (\<lambda>x. td_behavior x \<in> {CByValue, CByValueVecSafe, CChar}) False"

definition relocatable_newtype :: "type_database \<Rightarrow> qualified_name \<Rightarrow> bool" where
  "relocatable_newtype db ty =
     db_query db ty (\<lambda>x. td_behavior x \<in> {CIntegerWrapper, CCharacter}) False"

definition permissible_within_unique_ptr :: "type_database \<Rightarrow> qualified_name \<Rightarrow> bool" where
  "permissible_within_unique_ptr db ty =
     db_query db ty (\<lambda>x. has_container_glue x \<and>
       td_behavior x \<in> {CxxString, CxxContainerVector, CIntegerWrapper, CCharacter}) True"

definition permissible_within_shared_or_weak_ptr :: "type_database \<Rightarrow> qualified_name \<Rightarrow> bool" where
  "permissible_within_shared_or_weak_ptr db ty =
     db_query db ty (\<lambda>x. has_container_glue x \<and>
       td_behavior x \<in> {CxxString, CByValue, CByValueVecSafe, CIntegerWrapper, CCharacter}) True"

definition unique_ptr_payload_wrapper ::
    "type_database \<Rightarrow> qualified_name \<Rightarrow> qualified_name option" where
  "unique_ptr_payload_wrapper db ty = map_of (unique_ptr_payload_wrappers db) ty"

definition conflicts_with_built_in_type :: "type_database \<Rightarrow> qualified_name \<Rightarrow> bool" where
  "conflicts_with_built_in_type db ty \<longleftrightarrow> db_get db ty \<noteq> None"

definition convertible_from_strs :: "type_database \<Rightarrow> qualified_name \<Rightarrow> bool" where
  "convertible_from_strs db ty = db_query db ty (\<lambda>x. td_behavior x = CxxString) False"

definition is_string_view :: "type_database \<Rightarrow> qualified_name \<Rightarrow> bool" where
  "is_string_view db ty = db_query db ty (\<lambda>x. td_behavior x = CxxStringView) False"

definition get_moveit_safe_types :: "type_database \<Rightarrow> qualified_name list" where
  "get_moveit_safe_types db =
     filter (\<lambda>tn. case db_get db tn of
                    Some td \<Rightarrow> td_behavior td \<notin> {CxxString, CxxStringView, CxxContainerVector}
                  | None \<Rightarrow> False) (all_names db)"

section \<open>Building it\<close>

definition insert_alias :: "string \<Rightarrow> string \<Rightarrow> type_database \<Rightarrow> type_database" where
  "insert_alias alias canonical_rs_name db =
     db\<lparr>canonical_names :=
          imap_insert (new_from_cpp_name alias) (new_from_cpp_name canonical_rs_name)
            (canonical_names db)\<rparr>"

definition db_insert :: "type_details \<Rightarrow> type_database \<Rightarrow> type_database" where
  "db_insert td db =
     (let rs = to_typename td;
          db = (case extra_non_canonical_name td of
                  Some extra \<Rightarrow>
                    db\<lparr>canonical_names := imap_insert (new_from_cpp_name extra) rs (canonical_names db)\<rparr>
                | None \<Rightarrow> db);
          db = (if owns_cpp_name td then
                  db\<lparr>canonical_names :=
                       imap_insert (new_from_cpp_name (td_cpp_name td)) rs (canonical_names db)\<rparr>
                else db)
      in db\<lparr>by_rs_name := imap_insert rs td (by_rs_name db)\<rparr>)"

definition empty_database :: type_database where
  "empty_database = \<lparr>by_rs_name = [], canonical_names = [], unique_ptr_payload_wrappers = []\<rparr>"

text \<open>
  The two names a \<open>for\<close> loop over widths makes: \<^verbatim>\<open>uint{x}_t\<close> with \<^verbatim>\<open>u{x}\<close>, then \<^verbatim>\<open>int{x}_t\<close> with
  \<^verbatim>\<open>i{x}\<close>, for \<open>x\<close> two to each exponent of the range.
\<close>

definition width_names :: "nat list \<Rightarrow> (string \<times> string) list" where
  "width_names exponents =
     concat (map (\<lambda>e. let x = nat_to_string (2 ^ e) in
                        [(''uint'' @ x @ ''_t'', ''u'' @ x), (''int'' @ x @ ''_t'', ''i'' @ x)])
               exponents)"

definition insert_atom :: "string \<times> string \<Rightarrow> type_database \<Rightarrow> type_database" where
  "insert_atom = (\<lambda>(cpp_type, rust_type).
     db_insert (TypeDetails_new rust_type cpp_type CByValueVecSafe None True True))"

definition insert_atom_wrapper :: "string \<times> string \<Rightarrow> type_database \<Rightarrow> type_database" where
  "insert_atom_wrapper = (\<lambda>(cpp_type, atom) db.
     let wrapper = ''autocxx::c_'' @ atom;
         db = db_insert (sharing_cpp_name
                (TypeDetails_new wrapper cpp_type CIntegerWrapper None True True)) db
     in db\<lparr>unique_ptr_payload_wrappers :=
             imap_insert (new_from_cpp_name atom) (new_from_cpp_name wrapper)
               (unique_ptr_payload_wrappers db)\<rparr>)"

definition insert_ctype :: "string \<Rightarrow> type_database \<Rightarrow> type_database" where
  "insert_ctype cname db =
     (let concatenated_name = filter (\<lambda>c. c \<noteq> CHR '' '') cname;
          db = db_insert (TypeDetails_new (''autocxx::c_'' @ concatenated_name) cname CIntegerWrapper
                 (Some (''std::os::raw::c_'' @ concatenated_name)) True True) db
      in db_insert (TypeDetails_new (''autocxx::c_u'' @ concatenated_name) (''unsigned '' @ cname)
           CIntegerWrapper (Some (''std::os::raw::c_u'' @ concatenated_name)) True True) db)"

definition insert_128 :: "string \<times> string \<times> string \<Rightarrow> type_database \<Rightarrow> type_database" where
  "insert_128 = (\<lambda>(rs, cpp, bindgen_name).
     db_insert (without_container_glue
       (TypeDetails_new rs cpp CIntegerWrapper (Some bindgen_name) True True)))"

definition insert_character :: "string \<times> string \<times> string \<Rightarrow> type_database \<Rightarrow> type_database" where
  "insert_character = (\<lambda>(cpp, bindgen_name, rs) db.
     let details = TypeDetails_new rs cpp CCharacter (Some (last (split_str ''::'' rs))) False False;
         db = db_insert (if cpp = ''char8_t'' then without_container_glue details else details) db
     in insert_alias bindgen_name rs db)"

definition insert_containers :: "type_database \<Rightarrow> type_database" where
  "insert_containers db = fold db_insert
     [TypeDetails_new ''cxx::UniquePtr'' ''std::unique_ptr'' CxxContainerUniquePtr None False True,
      TypeDetails_new ''cxx::CxxVector'' ''std::vector'' CxxContainerVector None False True,
      TypeDetails_new ''cxx::SharedPtr'' ''std::shared_ptr'' CxxContainerSharedPtr None True True,
      TypeDetails_new ''cxx::WeakPtr'' ''std::weak_ptr'' CxxContainerSharedPtr None True True,
      TypeDetails_new ''cxx::CxxString'' ''std::string'' CxxString None True True,
      without_container_glue
        (TypeDetails_new ''autocxx::CppStringView'' ''std::string_view'' CxxStringView None True False),
      TypeDetails_new ''str'' ''rust::Str'' RustStr None True False,
      TypeDetails_new ''String'' ''rust::String'' RustString None True True,
      TypeDetails_new ''std::boxed::Box'' ''rust::Box'' RustContainerByValueSafe None False True] db"

definition insert_integers :: "type_database \<Rightarrow> type_database" where
  "insert_integers db =
     (let db = db_insert (TypeDetails_new ''i8'' ''int8_t'' CByValueVecSafe
                 (Some ''std::os::raw::c_schar'') True True) db;
          db = db_insert (TypeDetails_new ''u8'' ''uint8_t'' CByValueVecSafe
                 (Some ''std::os::raw::c_uchar'') True True) db;
          db = fold insert_atom (width_names [4..<7]) db
      in fold insert_atom_wrapper (width_names [3..<7]) db)"

definition insert_bool_pin_ctypes :: "type_database \<Rightarrow> type_database" where
  "insert_bool_pin_ctypes db =
     (let db = db_insert (TypeDetails_new ''bool'' ''bool'' CByValue None True True) db;
          db = db_insert (TypeDetails_new ''core::pin::Pin'' ''Pin'' RustByValue
                 (Some ''std::pin::Pin'') True False) db
      in fold insert_ctype [''long'', ''int'', ''short'', ''long long''] db)"

definition insert_remaining :: "type_database \<Rightarrow> type_database" where
  "insert_remaining db =
     (let db = fold insert_128 [(''autocxx::c_i128'', ''__int128'', ''i128''),
                                (''autocxx::c_u128'', ''unsigned __int128'', ''u128'')] db;
          db = fold db_insert
            [TypeDetails_new ''f32'' ''float'' CByValueVecSafe None True True,
             TypeDetails_new ''f64'' ''double'' CByValueVecSafe None True True,
             TypeDetails_new ''::std::os::raw::c_char'' ''char'' CChar None True True,
             TypeDetails_new ''usize'' ''size_t'' CByValueVecSafe None True True,
             TypeDetails_new ''autocxx::c_void'' ''void'' CVoid (Some ''std::os::raw::c_void'') False False]
            db
      in fold insert_character CXX_CHARACTER_TYPES db)"

definition create_type_database :: type_database where
  "create_type_database =
     insert_remaining (insert_bool_pin_ctypes (insert_integers (insert_containers empty_database)))"

abbreviation known_types :: type_database where
  "known_types \<equiv> create_type_database"

section \<open>Spelling a qualified name\<close>

definition to_cpp_name :: "qualified_name \<Rightarrow> string" where
  "to_cpp_name qn =
     (case special_cpp_name known_types qn of
        Some name \<Rightarrow> name
      | None \<Rightarrow> join ''::'' (segment_iter qn))"

definition to_type_path :: "qualified_name \<Rightarrow> type_path" where
  "to_type_path qn =
     (case known_type_type_path known_types qn of
        Some known_type_path \<Rightarrow> known_type_path
      | None \<Rightarrow> plain_path False (map make_ident (''output'' # segment_iter qn)))"

end
