(* ===== verification/KnownTypes.thy ===== *)
theory KnownTypes
  imports TypeDatabase
begin

text \<open>
  The database of known types evaluated, and what holds of it: every name in it resolves, an
  entry answers under its canonical name, the C++ and Rust spellings of a qualified name read
  back to the type they came from, and the wrappers a \<^verbatim>\<open>std::unique_ptr\<close> payload is given name
  the C++ type of the atom they replace.
\<close>

section \<open>Every name resolves\<close>

definition db_closed :: "type_database \<Rightarrow> bool" where
  "db_closed db \<longleftrightarrow>
     (\<forall>n c. map_of (canonical_names db) n = Some c \<longrightarrow> map_of (by_rs_name db) c \<noteq> None)"

text \<open>The contract of anything that adds to the database: no name is left pointing nowhere.\<close>

locale database_step =
  fixes step :: "'a \<Rightarrow> type_database \<Rightarrow> type_database"
  assumes step_closed: "db_closed db \<Longrightarrow> db_closed (step x db)"
begin

lemma steps_closed: "db_closed db \<Longrightarrow> db_closed (fold step xs db)"
  by (induction xs arbitrary: db) (auto intro: step_closed)

end

lemma db_insert_sel [simp]:
  "by_rs_name (db_insert td db) = imap_insert (to_typename td) td (by_rs_name db)"
  "unique_ptr_payload_wrappers (db_insert td db) = unique_ptr_payload_wrappers db"
  by (auto simp: db_insert_def Let_def split: option.splits)

lemma db_insert_canonical:
  "map_of (canonical_names (db_insert td db)) n =
     (if owns_cpp_name td \<and> n = new_from_cpp_name (td_cpp_name td) then Some (to_typename td)
      else if map_option new_from_cpp_name (extra_non_canonical_name td) = Some n
      then Some (to_typename td)
      else map_of (canonical_names db) n)"
  by (auto simp: db_insert_def Let_def split: option.splits)

interpretation entry: database_step db_insert
proof
  fix db :: type_database and td
  assume "db_closed db"
  then show "db_closed (db_insert td db)"
    by (auto simp: db_closed_def db_insert_canonical split: if_splits)
qed

lemma db_closed_wrappers [simp]: "db_closed (unique_ptr_payload_wrappers_update f db) = db_closed db"
  by (simp add: db_closed_def)

interpretation atom: database_step insert_atom
  by unfold_locales (auto simp: insert_atom_def intro: entry.step_closed split: prod.splits)

interpretation atom_wrapper: database_step insert_atom_wrapper
  by unfold_locales
     (auto simp: insert_atom_wrapper_def Let_def intro!: entry.step_closed split: prod.splits)

interpretation ctype: database_step insert_ctype
  by unfold_locales (auto simp: insert_ctype_def Let_def intro!: entry.step_closed)

interpretation wide: database_step insert_128
  by unfold_locales (auto simp: insert_128_def intro: entry.step_closed split: prod.splits)

lemma insert_alias_closed:
  "db_closed db \<Longrightarrow> map_of (by_rs_name db) (new_from_cpp_name c) \<noteq> None \<Longrightarrow>
   db_closed (insert_alias a c db)"
  by (auto simp: db_closed_def insert_alias_def)

interpretation character: database_step insert_character
proof
  fix db :: type_database and x :: "string \<times> string \<times> string"
  assume closed: "db_closed db"
  obtain cpp bindgen rs where x: "x = (cpp, bindgen, rs)" by (cases x)
  show "db_closed (insert_character x db)"
    using closed
    by (auto simp: x insert_character_def Let_def to_typename_def TypeDetails_new_def
        without_container_glue_def intro!: insert_alias_closed entry.step_closed)
qed

lemma known_types_closed: "db_closed create_type_database"
  unfolding create_type_database_def insert_remaining_def insert_bool_pin_ctypes_def
    insert_integers_def insert_containers_def Let_def
  by (intro entry.step_closed entry.steps_closed atom.steps_closed atom_wrapper.steps_closed
      ctype.steps_closed wide.steps_closed character.steps_closed)
     (simp add: db_closed_def empty_database_def)

lemma closed_resolves: "db_closed db \<Longrightarrow> tn \<in> set (all_names db) \<Longrightarrow> db_get db tn \<noteq> None"
  by (auto simp: db_closed_def db_get_def all_names_def Let_def weak_map_of_SomeI
      split: option.splits dest: weak_map_of_SomeI)

lemma pod_safety_collect_total:
  assumes "\<And>tn. tn \<in> set tns \<Longrightarrow> db_get db tn \<noteq> None"
  shows "\<exists>m. pod_safety_collect db acc tns = Some m \<and>
     (\<forall>tn. map_of m tn =
        (if tn \<in> set tns then map_option (\<lambda>td. pod_safe_behavior (td_behavior td)) (db_get db tn)
         else map_of acc tn))"
  using assms
proof (induction tns arbitrary: acc)
  case (Cons tn tns)
  then obtain td where td: "db_get db tn = Some td" by fastforce
  from Cons.IH[of "imap_insert tn (pod_safe_behavior (td_behavior td)) acc"] Cons.prems td
  show ?case by auto
qed simp

section \<open>The maps, evaluated\<close>

definition known_by_rs_name :: "(qualified_name, type_details) index_map" where
  "known_by_rs_name =
    [(QualifiedName [''cxx''] ''UniquePtr'',
        TypeDetails_new ''cxx::UniquePtr'' ''std::unique_ptr'' CxxContainerUniquePtr None False True),
     (QualifiedName [''cxx''] ''CxxVector'',
        TypeDetails_new ''cxx::CxxVector'' ''std::vector'' CxxContainerVector None False True),
     (QualifiedName [''cxx''] ''SharedPtr'',
        TypeDetails_new ''cxx::SharedPtr'' ''std::shared_ptr'' CxxContainerSharedPtr None True True),
     (QualifiedName [''cxx''] ''WeakPtr'',
        TypeDetails_new ''cxx::WeakPtr'' ''std::weak_ptr'' CxxContainerSharedPtr None True True),
     (QualifiedName [''cxx''] ''CxxString'',
        TypeDetails_new ''cxx::CxxString'' ''std::string'' CxxString None True True),
     (QualifiedName [''autocxx''] ''CppStringView'',
        without_container_glue (TypeDetails_new ''autocxx::CppStringView'' ''std::string_view'' CxxStringView None True False)),
     (QualifiedName [] ''str'',
        TypeDetails_new ''str'' ''rust::Str'' RustStr None True False),
     (QualifiedName [] ''String'',
        TypeDetails_new ''String'' ''rust::String'' RustString None True True),
     (QualifiedName [''std'', ''boxed''] ''Box'',
        TypeDetails_new ''std::boxed::Box'' ''rust::Box'' RustContainerByValueSafe None False True),
     (QualifiedName [] ''i8'',
        TypeDetails_new ''i8'' ''int8_t'' CByValueVecSafe (Some ''std::os::raw::c_schar'') True True),
     (QualifiedName [] ''u8'',
        TypeDetails_new ''u8'' ''uint8_t'' CByValueVecSafe (Some ''std::os::raw::c_uchar'') True True),
     (QualifiedName [] ''u16'',
        TypeDetails_new ''u16'' ''uint16_t'' CByValueVecSafe None True True),
     (QualifiedName [] ''i16'',
        TypeDetails_new ''i16'' ''int16_t'' CByValueVecSafe None True True),
     (QualifiedName [] ''u32'',
        TypeDetails_new ''u32'' ''uint32_t'' CByValueVecSafe None True True),
     (QualifiedName [] ''i32'',
        TypeDetails_new ''i32'' ''int32_t'' CByValueVecSafe None True True),
     (QualifiedName [] ''u64'',
        TypeDetails_new ''u64'' ''uint64_t'' CByValueVecSafe None True True),
     (QualifiedName [] ''i64'',
        TypeDetails_new ''i64'' ''int64_t'' CByValueVecSafe None True True),
     (QualifiedName [''autocxx''] ''c_u8'',
        sharing_cpp_name (TypeDetails_new ''autocxx::c_u8'' ''uint8_t'' CIntegerWrapper None True True)),
     (QualifiedName [''autocxx''] ''c_i8'',
        sharing_cpp_name (TypeDetails_new ''autocxx::c_i8'' ''int8_t'' CIntegerWrapper None True True)),
     (QualifiedName [''autocxx''] ''c_u16'',
        sharing_cpp_name (TypeDetails_new ''autocxx::c_u16'' ''uint16_t'' CIntegerWrapper None True True)),
     (QualifiedName [''autocxx''] ''c_i16'',
        sharing_cpp_name (TypeDetails_new ''autocxx::c_i16'' ''int16_t'' CIntegerWrapper None True True)),
     (QualifiedName [''autocxx''] ''c_u32'',
        sharing_cpp_name (TypeDetails_new ''autocxx::c_u32'' ''uint32_t'' CIntegerWrapper None True True)),
     (QualifiedName [''autocxx''] ''c_i32'',
        sharing_cpp_name (TypeDetails_new ''autocxx::c_i32'' ''int32_t'' CIntegerWrapper None True True)),
     (QualifiedName [''autocxx''] ''c_u64'',
        sharing_cpp_name (TypeDetails_new ''autocxx::c_u64'' ''uint64_t'' CIntegerWrapper None True True)),
     (QualifiedName [''autocxx''] ''c_i64'',
        sharing_cpp_name (TypeDetails_new ''autocxx::c_i64'' ''int64_t'' CIntegerWrapper None True True)),
     (QualifiedName [] ''bool'',
        TypeDetails_new ''bool'' ''bool'' CByValue None True True),
     (QualifiedName [''core'', ''pin''] ''Pin'',
        TypeDetails_new ''core::pin::Pin'' ''Pin'' RustByValue (Some ''std::pin::Pin'') True False),
     (QualifiedName [''autocxx''] ''c_long'',
        TypeDetails_new ''autocxx::c_long'' ''long'' CIntegerWrapper (Some ''std::os::raw::c_long'') True True),
     (QualifiedName [''autocxx''] ''c_ulong'',
        TypeDetails_new ''autocxx::c_ulong'' ''unsigned long'' CIntegerWrapper (Some ''std::os::raw::c_ulong'') True True),
     (QualifiedName [''autocxx''] ''c_int'',
        TypeDetails_new ''autocxx::c_int'' ''int'' CIntegerWrapper (Some ''std::os::raw::c_int'') True True),
     (QualifiedName [''autocxx''] ''c_uint'',
        TypeDetails_new ''autocxx::c_uint'' ''unsigned int'' CIntegerWrapper (Some ''std::os::raw::c_uint'') True True),
     (QualifiedName [''autocxx''] ''c_short'',
        TypeDetails_new ''autocxx::c_short'' ''short'' CIntegerWrapper (Some ''std::os::raw::c_short'') True True),
     (QualifiedName [''autocxx''] ''c_ushort'',
        TypeDetails_new ''autocxx::c_ushort'' ''unsigned short'' CIntegerWrapper (Some ''std::os::raw::c_ushort'') True True),
     (QualifiedName [''autocxx''] ''c_longlong'',
        TypeDetails_new ''autocxx::c_longlong'' ''long long'' CIntegerWrapper (Some ''std::os::raw::c_longlong'') True True),
     (QualifiedName [''autocxx''] ''c_ulonglong'',
        TypeDetails_new ''autocxx::c_ulonglong'' ''unsigned long long'' CIntegerWrapper (Some ''std::os::raw::c_ulonglong'') True True),
     (QualifiedName [''autocxx''] ''c_i128'',
        without_container_glue (TypeDetails_new ''autocxx::c_i128'' ''__int128'' CIntegerWrapper (Some ''i128'') True True)),
     (QualifiedName [''autocxx''] ''c_u128'',
        without_container_glue (TypeDetails_new ''autocxx::c_u128'' ''unsigned __int128'' CIntegerWrapper (Some ''u128'') True True)),
     (QualifiedName [] ''f32'',
        TypeDetails_new ''f32'' ''float'' CByValueVecSafe None True True),
     (QualifiedName [] ''f64'',
        TypeDetails_new ''f64'' ''double'' CByValueVecSafe None True True),
     (QualifiedName [''std'', ''os'', ''raw''] ''c_char'',
        TypeDetails_new ''::std::os::raw::c_char'' ''char'' CChar None True True),
     (QualifiedName [] ''usize'',
        TypeDetails_new ''usize'' ''size_t'' CByValueVecSafe None True True),
     (QualifiedName [''autocxx''] ''c_void'',
        TypeDetails_new ''autocxx::c_void'' ''void'' CVoid (Some ''std::os::raw::c_void'') False False),
     (QualifiedName [''autocxx''] ''c_char16_t'',
        TypeDetails_new ''autocxx::c_char16_t'' ''char16_t'' CCharacter (Some ''c_char16_t'') False False),
     (QualifiedName [''autocxx''] ''c_wchar_t'',
        TypeDetails_new ''autocxx::c_wchar_t'' ''wchar_t'' CCharacter (Some ''c_wchar_t'') False False),
     (QualifiedName [''autocxx''] ''c_char32_t'',
        TypeDetails_new ''autocxx::c_char32_t'' ''char32_t'' CCharacter (Some ''c_char32_t'') False False),
     (QualifiedName [''autocxx''] ''c_char8_t'',
        without_container_glue (TypeDetails_new ''autocxx::c_char8_t'' ''char8_t'' CCharacter (Some ''c_char8_t'') False False))]"

definition known_canonical_names :: "(qualified_name, qualified_name) index_map" where
  "known_canonical_names =
    [(QualifiedName [''std''] ''unique_ptr'',
        QualifiedName [''cxx''] ''UniquePtr''),
     (QualifiedName [''std''] ''vector'',
        QualifiedName [''cxx''] ''CxxVector''),
     (QualifiedName [''std''] ''shared_ptr'',
        QualifiedName [''cxx''] ''SharedPtr''),
     (QualifiedName [''std''] ''weak_ptr'',
        QualifiedName [''cxx''] ''WeakPtr''),
     (QualifiedName [''std''] ''string'',
        QualifiedName [''cxx''] ''CxxString''),
     (QualifiedName [''std''] ''string_view'',
        QualifiedName [''autocxx''] ''CppStringView''),
     (QualifiedName [''rust''] ''Str'',
        QualifiedName [] ''str''),
     (QualifiedName [''rust''] ''String'',
        QualifiedName [] ''String''),
     (QualifiedName [''rust''] ''Box'',
        QualifiedName [''std'', ''boxed''] ''Box''),
     (QualifiedName [''std'', ''os'', ''raw''] ''c_schar'',
        QualifiedName [] ''i8''),
     (QualifiedName [] ''int8_t'',
        QualifiedName [] ''i8''),
     (QualifiedName [''std'', ''os'', ''raw''] ''c_uchar'',
        QualifiedName [] ''u8''),
     (QualifiedName [] ''uint8_t'',
        QualifiedName [] ''u8''),
     (QualifiedName [] ''uint16_t'',
        QualifiedName [] ''u16''),
     (QualifiedName [] ''int16_t'',
        QualifiedName [] ''i16''),
     (QualifiedName [] ''uint32_t'',
        QualifiedName [] ''u32''),
     (QualifiedName [] ''int32_t'',
        QualifiedName [] ''i32''),
     (QualifiedName [] ''uint64_t'',
        QualifiedName [] ''u64''),
     (QualifiedName [] ''int64_t'',
        QualifiedName [] ''i64''),
     (QualifiedName [] ''bool'',
        QualifiedName [] ''bool''),
     (QualifiedName [''std'', ''pin''] ''Pin'',
        QualifiedName [''core'', ''pin''] ''Pin''),
     (QualifiedName [] ''Pin'',
        QualifiedName [''core'', ''pin''] ''Pin''),
     (QualifiedName [''std'', ''os'', ''raw''] ''c_long'',
        QualifiedName [''autocxx''] ''c_long''),
     (QualifiedName [] ''long'',
        QualifiedName [''autocxx''] ''c_long''),
     (QualifiedName [''std'', ''os'', ''raw''] ''c_ulong'',
        QualifiedName [''autocxx''] ''c_ulong''),
     (QualifiedName [] ''unsigned long'',
        QualifiedName [''autocxx''] ''c_ulong''),
     (QualifiedName [''std'', ''os'', ''raw''] ''c_int'',
        QualifiedName [''autocxx''] ''c_int''),
     (QualifiedName [] ''int'',
        QualifiedName [''autocxx''] ''c_int''),
     (QualifiedName [''std'', ''os'', ''raw''] ''c_uint'',
        QualifiedName [''autocxx''] ''c_uint''),
     (QualifiedName [] ''unsigned int'',
        QualifiedName [''autocxx''] ''c_uint''),
     (QualifiedName [''std'', ''os'', ''raw''] ''c_short'',
        QualifiedName [''autocxx''] ''c_short''),
     (QualifiedName [] ''short'',
        QualifiedName [''autocxx''] ''c_short''),
     (QualifiedName [''std'', ''os'', ''raw''] ''c_ushort'',
        QualifiedName [''autocxx''] ''c_ushort''),
     (QualifiedName [] ''unsigned short'',
        QualifiedName [''autocxx''] ''c_ushort''),
     (QualifiedName [''std'', ''os'', ''raw''] ''c_longlong'',
        QualifiedName [''autocxx''] ''c_longlong''),
     (QualifiedName [] ''long long'',
        QualifiedName [''autocxx''] ''c_longlong''),
     (QualifiedName [''std'', ''os'', ''raw''] ''c_ulonglong'',
        QualifiedName [''autocxx''] ''c_ulonglong''),
     (QualifiedName [] ''unsigned long long'',
        QualifiedName [''autocxx''] ''c_ulonglong''),
     (QualifiedName [] ''i128'',
        QualifiedName [''autocxx''] ''c_i128''),
     (QualifiedName [] ''__int128'',
        QualifiedName [''autocxx''] ''c_i128''),
     (QualifiedName [] ''u128'',
        QualifiedName [''autocxx''] ''c_u128''),
     (QualifiedName [] ''unsigned __int128'',
        QualifiedName [''autocxx''] ''c_u128''),
     (QualifiedName [] ''float'',
        QualifiedName [] ''f32''),
     (QualifiedName [] ''double'',
        QualifiedName [] ''f64''),
     (QualifiedName [] ''char'',
        QualifiedName [''std'', ''os'', ''raw''] ''c_char''),
     (QualifiedName [] ''size_t'',
        QualifiedName [] ''usize''),
     (QualifiedName [''std'', ''os'', ''raw''] ''c_void'',
        QualifiedName [''autocxx''] ''c_void''),
     (QualifiedName [] ''void'',
        QualifiedName [''autocxx''] ''c_void''),
     (QualifiedName [] ''c_char16_t'',
        QualifiedName [''autocxx''] ''c_char16_t''),
     (QualifiedName [] ''char16_t'',
        QualifiedName [''autocxx''] ''c_char16_t''),
     (QualifiedName [] ''bindgen_cchar16_t'',
        QualifiedName [''autocxx''] ''c_char16_t''),
     (QualifiedName [] ''c_wchar_t'',
        QualifiedName [''autocxx''] ''c_wchar_t''),
     (QualifiedName [] ''wchar_t'',
        QualifiedName [''autocxx''] ''c_wchar_t''),
     (QualifiedName [] ''bindgen_cwchar_t'',
        QualifiedName [''autocxx''] ''c_wchar_t''),
     (QualifiedName [] ''c_char32_t'',
        QualifiedName [''autocxx''] ''c_char32_t''),
     (QualifiedName [] ''char32_t'',
        QualifiedName [''autocxx''] ''c_char32_t''),
     (QualifiedName [] ''bindgen_cchar32_t'',
        QualifiedName [''autocxx''] ''c_char32_t''),
     (QualifiedName [] ''c_char8_t'',
        QualifiedName [''autocxx''] ''c_char8_t''),
     (QualifiedName [] ''char8_t'',
        QualifiedName [''autocxx''] ''c_char8_t''),
     (QualifiedName [] ''bindgen_cchar8_t'',
        QualifiedName [''autocxx''] ''c_char8_t'')]"

definition known_payload_wrappers :: "(qualified_name, qualified_name) index_map" where
  "known_payload_wrappers =
    [(QualifiedName [] ''u8'', QualifiedName [''autocxx''] ''c_u8''),
     (QualifiedName [] ''i8'', QualifiedName [''autocxx''] ''c_i8''),
     (QualifiedName [] ''u16'', QualifiedName [''autocxx''] ''c_u16''),
     (QualifiedName [] ''i16'', QualifiedName [''autocxx''] ''c_i16''),
     (QualifiedName [] ''u32'', QualifiedName [''autocxx''] ''c_u32''),
     (QualifiedName [] ''i32'', QualifiedName [''autocxx''] ''c_i32''),
     (QualifiedName [] ''u64'', QualifiedName [''autocxx''] ''c_u64''),
     (QualifiedName [] ''i64'', QualifiedName [''autocxx''] ''c_i64'')]"

lemma known_types_eval:
  "create_type_database =
     \<lparr>by_rs_name = known_by_rs_name, canonical_names = known_canonical_names,
      unique_ptr_payload_wrappers = known_payload_wrappers\<rparr>"
  by code_simp

text \<open>Rules that look a name up in the literal maps without visiting the rest of them.\<close>

lemma map_of_step: "map_of ((k, v) # ps) x = (if k = x then Some v else map_of ps x)"
  by simp

lemma map_of_weak_cong: "x = y \<Longrightarrow> map_of ps x = map_of ps y"
  by simp

lemmas known_maps =
  known_canonical_names_def [THEN arg_cong [of _ _ map_of], THEN fun_cong, of "QualifiedName n i" for n i]
  known_by_rs_name_def [THEN arg_cong [of _ _ map_of], THEN fun_cong, of "QualifiedName n i" for n i]
  known_payload_wrappers_def [THEN arg_cong [of _ _ map_of], THEN fun_cong, of "QualifiedName n i" for n i]
  map_of_step

lemma db_get_known:
  "db_get create_type_database ty =
     (case map_of known_canonical_names ty of
        Some c \<Rightarrow> map_of known_by_rs_name c
      | None \<Rightarrow> map_of known_by_rs_name ty)"
  by (simp add: known_types_eval db_get_def split: option.splits)

lemma TypeDetails_sel [simp]:
  "rs_name (TypeDetails_new r c b e k m) = r"
  "td_cpp_name (TypeDetails_new r c b e k m) = c"
  "td_behavior (TypeDetails_new r c b e k m) = b"
  "extra_non_canonical_name (TypeDetails_new r c b e k m) = e"
  "td_has_const_copy_constructor (TypeDetails_new r c b e k m) = k"
  "td_has_move_constructor (TypeDetails_new r c b e k m) = m"
  "owns_cpp_name (TypeDetails_new r c b e k m) = True"
  "has_container_glue (TypeDetails_new r c b e k m) = True"
  by (simp_all add: TypeDetails_new_def)

lemma TypeDetails_modified_sel [simp]:
  "rs_name (sharing_cpp_name td) = rs_name td"
  "td_cpp_name (sharing_cpp_name td) = td_cpp_name td"
  "td_behavior (sharing_cpp_name td) = td_behavior td"
  "has_container_glue (sharing_cpp_name td) = has_container_glue td"
  "rs_name (without_container_glue td) = rs_name td"
  "td_cpp_name (without_container_glue td) = td_cpp_name td"
  "td_behavior (without_container_glue td) = td_behavior td"
  "has_container_glue (without_container_glue td) = False"
  by (simp_all add: sharing_cpp_name_def without_container_glue_def)

lemma split_colon_step:
  "split_str ''::'' [] = [[]]"
  "split_str ''::'' (CHR '':'' # CHR '':'' # s) = [] # split_str ''::'' s"
  "c \<noteq> CHR '':'' \<Longrightarrow>
   split_str ''::'' (c # s) = (case split_str ''::'' s of [] \<Rightarrow> [[c]] | p # ps \<Rightarrow> (c # p) # ps)"
  by (subst split_str.simps, simp)+

lemmas name_eval = to_typename_def new_from_cpp_name_def split_colon_step Namespace_new_def
  Namespace_push_def from_type_path_def td_to_type_path_def plain_path_def from_segments_def
  make_ident_def

text \<open>
  What is checked of each entry: it is filed under its own name, that name is not redirected
  elsewhere, its Rust path reads back as that name, and its C++ spelling leads to an entry with
  the same C++ spelling.
\<close>

definition entry_ok :: "qualified_name \<times> type_details \<Rightarrow> bool" where
  "entry_ok e =
     (case e of (k, td) \<Rightarrow>
        k = to_typename td \<and> from_type_path (td_to_type_path td) = Some k \<and>
        (case map_of known_canonical_names (new_from_cpp_name (td_cpp_name td)) of
           None \<Rightarrow> False
         | Some c \<Rightarrow>
             (case map_of known_by_rs_name c of
                None \<Rightarrow> False
              | Some td' \<Rightarrow> td_cpp_name td' = td_cpp_name td)) \<and>
        (map_of known_canonical_names k = None \<or> map_of known_canonical_names k = Some k))"

lemma known_entries_ok: "list_all entry_ok known_by_rs_name"
  unfolding known_by_rs_name_def list.pred_inject
  by (intro conjI TrueI; simp add: entry_ok_def name_eval known_maps
      cong: map_of_weak_cong if_weak_cong del: map_of.simps(2))

lemma known_lookup_ok:
  assumes "db_get create_type_database qn = Some td"
  shows "entry_ok (to_typename td, td) \<and> map_of known_by_rs_name (to_typename td) = Some td"
proof -
  from assms obtain k where k: "map_of known_by_rs_name k = Some td"
    by (auto simp: db_get_known split: option.splits)
  then have "entry_ok (k, td)"
    using known_entries_ok by (auto simp: list_all_iff dest: map_of_SomeD)
  with k show ?thesis by (auto simp: entry_ok_def)
qed

lemma known_canonical_fixed:
  assumes "db_get create_type_database qn = Some td"
  shows "db_get create_type_database (to_typename td) = Some td"
  using known_lookup_ok[OF assms] by (auto simp: entry_ok_def db_get_known)

lemma known_cpp_name_resolves:
  assumes "db_get create_type_database qn = Some td"
  shows "special_cpp_name create_type_database (new_from_cpp_name (td_cpp_name td)) =
    Some (td_cpp_name td)"
  using known_lookup_ok[OF assms]
  by (auto simp: entry_ok_def db_get_known special_cpp_name_def split: option.splits)

lemma known_path_resolves:
  assumes "db_get create_type_database qn = Some td"
  shows "from_type_path (td_to_type_path td) = Some (to_typename td)"
  using known_lookup_ok[OF assms] by (simp add: entry_ok_def)

section \<open>Properties\<close>

text \<open>
  Every name the database lists, canonical or not, resolves to an entry, so the
  \<^verbatim>\<open>unwrap()\<close>s of \<^verbatim>\<open>get_pod_safe_types\<close> and \<^verbatim>\<open>get_moveit_safe_types\<close> never panic, and the
  safety table answers for exactly those names.
\<close>

theorem known_names_resolve:
  "list_all (\<lambda>tn. db_get create_type_database tn \<noteq> None) (all_names create_type_database) \<and>
   (\<exists>m. get_pod_safe_types create_type_database = Some m \<and>
        fst ` set m = set (all_names create_type_database))"
proof -
  note ok = closed_resolves[OF known_types_closed]
  from pod_safety_collect_total[of "all_names create_type_database" create_type_database "[]", OF ok]
  obtain m where m: "get_pod_safe_types create_type_database = Some m"
    "\<And>tn. map_of m tn = (if tn \<in> set (all_names create_type_database)
       then map_option (\<lambda>td. pod_safe_behavior (td_behavior td)) (db_get create_type_database tn)
       else None)"
    by (auto simp: get_pod_safe_types_def)
  have "fst ` set m = dom (map_of m)" by (simp add: dom_map_of_conv_image_fst)
  also have "\<dots> = set (all_names create_type_database)"
    using ok by (fastforce simp: m(2) dom_def split: if_splits)
  finally show ?thesis using m(1) ok by (auto simp: list_all_iff)
qed

text \<open>
  C33: the C++ spelling of a qualified name reads back. The spelling of a type the database does
  not know is parsed to that very name, and the spelling of one it does know is parsed to a name
  that is spelt the same way, whichever alias the type was met under.
\<close>

theorem cpp_name_roundtrip:
  assumes "well_spelled qn"
  shows "to_cpp_name (new_from_cpp_name (to_cpp_name qn)) = to_cpp_name qn \<and>
    (is_known_type create_type_database qn \<or> new_from_cpp_name (to_cpp_name qn) = qn)"
proof (cases "db_get create_type_database qn")
  case None
  then have "to_cpp_name qn = join ''::'' (segment_iter qn)"
    by (simp add: to_cpp_name_def special_cpp_name_def)
  then show ?thesis using new_from_cpp_name_join[OF assms] by simp
next
  case (Some td)
  then have "to_cpp_name qn = td_cpp_name td" by (simp add: to_cpp_name_def special_cpp_name_def)
  with Some known_cpp_name_resolves[OF Some] show ?thesis
    by (simp add: to_cpp_name_def is_known_type_def)
qed

lemma cpp_name_roundtrip_witness:
  "to_cpp_name (new_from_cpp_name (to_cpp_name (QualifiedName [''org'', ''lib''] ''Thing''))) =
   to_cpp_name (QualifiedName [''org'', ''lib''] ''Thing'')"
  using cpp_name_roundtrip[of "QualifiedName [''org'', ''lib''] ''Thing''"]
  by (simp add: well_spelled_def)

text \<open>
  The Rust path of a qualified name reads back: a type the header declared comes back as
  itself from under \<^verbatim>\<open>output::\<close>, and a known type as the canonical name of its entry.
\<close>

theorem type_path_roundtrip:
  "from_type_path (to_type_path qn) =
     Some (case db_get create_type_database qn of Some td \<Rightarrow> to_typename td | None \<Rightarrow> qn)"
proof (cases "db_get create_type_database qn")
  case None
  then have "to_type_path qn = plain_path False (''output'' # segment_iter qn)"
    by (simp add: to_type_path_def known_type_type_path_def make_ident_def [abs_def])
  moreover have "from_segments (segments (plain_path False (segment_iter qn))) = Some qn"
    by (cases qn) (simp add: segment_iter_def ns_segment_iter_def from_segments_plain)
  ultimately show ?thesis using None by (simp add: from_type_path_def plain_path_def)
next
  case (Some td)
  then show ?thesis
    using known_path_resolves[OF Some] by (simp add: to_type_path_def known_type_type_path_def)
qed

text \<open>
  The wrapper offered for a \<^verbatim>\<open>std::unique_ptr\<close> payload, for each of the eight fixed-width
  atoms: the atom itself cannot be one, the wrapper can, both name the same C++ type, and that
  C++ spelling still means the atom.
\<close>

theorem payload_wrappers_mirror_atoms:
  "length (unique_ptr_payload_wrappers create_type_database) = 8 \<and>
   list_all (\<lambda>(atom, wrapper).
      \<not> permissible_within_unique_ptr create_type_database atom \<and>
      permissible_within_unique_ptr create_type_database wrapper \<and>
      to_cpp_name atom = to_cpp_name wrapper \<and>
      map_option to_typename (db_get create_type_database (new_from_cpp_name (to_cpp_name wrapper)))
        = Some atom)
     (unique_ptr_payload_wrappers create_type_database)"
proof -
  have wrappers: "unique_ptr_payload_wrappers create_type_database = known_payload_wrappers"
    by (simp add: known_types_eval)
  show ?thesis
    unfolding wrappers known_payload_wrappers_def list.pred_inject
    by (intro conjI TrueI;
        simp add: db_get_known known_maps permissible_within_unique_ptr_def to_cpp_name_def
          special_cpp_name_def name_eval cong: map_of_weak_cong if_weak_cong
          del: map_of.simps(2))
qed

end
