(* ===== verification/ApiNames.thy ===== *)
theory ApiNames
  imports KnownTypes
begin

text \<open>
  The names an API carries: the C++ name bindgen reported (\<^verbatim>\<open>parse_callbacks.rs\<close>,
  \<^verbatim>\<open>conversion/mod.rs\<close>), \<^verbatim>\<open>ApiName\<close> and \<^verbatim>\<open>SubclassName\<close> with every name derived from one
  (\<^verbatim>\<open>conversion/api.rs\<close>), and the context an error is reported in
  (\<^verbatim>\<open>conversion/convert_error.rs\<close>).
\<close>

section \<open>C++ names\<close>

datatype cpp_original_name = CppOriginalName (original_name_string: string)
datatype cpp_effective_name = CppEffectiveName (effective_name_string: string)

definition is_nested :: "cpp_original_name \<Rightarrow> bool" where
  "is_nested n \<longleftrightarrow> sublist ''::'' (original_name_string n)"

definition from_final_item_of_generated_cpp_name :: "qualified_name \<Rightarrow> cpp_original_name" where
  "from_final_item_of_generated_cpp_name name = CppOriginalName (get_final_item name)"

definition to_qualified_name :: "cpp_original_name \<Rightarrow> qualified_name" where
  "to_qualified_name n = new_from_cpp_name (original_name_string n)"

definition to_effective_name :: "cpp_original_name \<Rightarrow> cpp_effective_name" where
  "to_effective_name n = CppEffectiveName (original_name_string n)"

definition for_original_name_map :: "cpp_original_name \<Rightarrow> string" where
  "for_original_name_map n = original_name_string n"

text \<open>\<open>rsplit_once("::")\<close> splits at the last occurrence of the separator.\<close>

definition enclosing_cpp_scope :: "cpp_original_name \<Rightarrow> string option" where
  "enclosing_cpp_scope n = map_option fst (split_at_last ''::'' (original_name_string n))"

definition get_final_segment_for_special_members :: "cpp_original_name \<Rightarrow> string option" where
  "get_final_segment_for_special_members n =
     map_option snd (split_at_last ''::'' (original_name_string n))"

definition validate_ident_ok_for_rust ::
    "(string \<Rightarrow> bool) \<Rightarrow> cpp_original_name \<Rightarrow> (invalid_ident_error, unit) result" where
  "validate_ident_ok_for_rust is_rust_ident label =
     validate_str_ok_for_rust is_rust_ident (original_name_string label)"

definition from_api_details :: "cpp_original_name option \<Rightarrow> qualified_name \<Rightarrow> cpp_effective_name" where
  "from_api_details original_name api_name =
     (case original_name of
        Some n \<Rightarrow> to_effective_name n
      | None \<Rightarrow> CppEffectiveName (get_final_item api_name))"

section \<open>API names\<close>

record api_name =
  an_name :: qualified_name
  an_cpp_name :: "cpp_original_name option"

definition new_from_qualified_name_and_cpp_name ::
    "qualified_name \<Rightarrow> cpp_original_name option \<Rightarrow> api_name" where
  "new_from_qualified_name_and_cpp_name name cpp_name = \<lparr>an_name = name, an_cpp_name = cpp_name\<rparr>"

definition new_from_qualified_name :: "qualified_name \<Rightarrow> api_name" where
  "new_from_qualified_name name = new_from_qualified_name_and_cpp_name name None"

definition ApiName_new :: "namespace \<Rightarrow> ident \<Rightarrow> api_name" where
  "ApiName_new ns idt = new_from_qualified_name (QualifiedName_new ns idt)"

definition ApiName_new_with_cpp_name ::
    "namespace \<Rightarrow> ident \<Rightarrow> cpp_original_name option \<Rightarrow> api_name" where
  "ApiName_new_with_cpp_name ns idt cpp_name =
     new_from_qualified_name_and_cpp_name (QualifiedName_new ns idt) cpp_name"

definition new_in_root_namespace :: "ident \<Rightarrow> api_name" where
  "new_in_root_namespace idt = ApiName_new Namespace_new idt"

definition ApiName_cpp_name :: "api_name \<Rightarrow> cpp_effective_name" where
  "ApiName_cpp_name n = from_api_details (an_cpp_name n) (an_name n)"

definition nested_cpp_spelling :: "api_name \<Rightarrow> string option" where
  "nested_cpp_spelling n =
     (case an_cpp_name n of
        Some cpp_name \<Rightarrow>
          if is_nested cpp_name
          then Some (join ''::'' (get_namespace (an_name n) @ [for_original_name_map cpp_name]))
          else None
      | None \<Rightarrow> None)"

definition cpp_spellings :: "api_name \<Rightarrow> string list" where
  "cpp_spellings n =
     to_cpp_name (an_name n) # (case nested_cpp_spelling n of Some s \<Rightarrow> [s] | None \<Rightarrow> [])"

section \<open>Subclass names\<close>

datatype subclass_name = SubclassName (subclass_api_name: api_name)

definition SUPER_FN_SUFFIX :: string where
  "SUPER_FN_SUFFIX = ''_super''"

definition SubclassName_new :: "ident \<Rightarrow> subclass_name" where
  "SubclassName_new idt = SubclassName (new_in_root_namespace idt)"

text \<open>\<open>strip_suffix("Holder").unwrap()\<close> panics on a name without the suffix.\<close>

definition from_holder_name :: "ident \<Rightarrow> subclass_name option" where
  "from_holder_name idt =
     (if suffix ''Holder'' idt then Some (SubclassName_new (take (length idt - 6) idt)) else None)"

definition SubclassName_id :: "subclass_name \<Rightarrow> ident" where
  "SubclassName_id s = get_final_item (an_name (subclass_api_name s))"

definition with_suffix :: "subclass_name \<Rightarrow> string \<Rightarrow> ident" where
  "with_suffix s sfx = make_ident (get_final_item (an_name (subclass_api_name s)) @ sfx)"

definition subclass_holder :: "subclass_name \<Rightarrow> ident" where
  "subclass_holder s = with_suffix s ''Holder''"

definition subclass_cpp :: "subclass_name \<Rightarrow> qualified_name" where
  "subclass_cpp s =
     QualifiedName_new (get_namespace (an_name (subclass_api_name s))) (with_suffix s ''Cpp'')"

definition cpp_remove_ownership :: "subclass_name \<Rightarrow> ident" where
  "cpp_remove_ownership s = with_suffix s ''Cpp_remove_ownership''"

definition remove_ownership :: "subclass_name \<Rightarrow> ident" where
  "remove_ownership s = with_suffix s ''_remove_ownership''"

definition get_trait_api_name :: "qualified_name \<Rightarrow> string \<Rightarrow> qualified_name" where
  "get_trait_api_name superclass method_name =
     QualifiedName_new (get_namespace superclass)
       (make_ident (get_final_item superclass @ ''_'' @ method_name @ ''_trait_item''))"

definition get_super_fn_name :: "namespace \<Rightarrow> string \<Rightarrow> qualified_name" where
  "get_super_fn_name superclass_namespace idt =
     QualifiedName_new superclass_namespace (make_ident (idt @ SUPER_FN_SUFFIX))"

definition with_qualified_name_suffix :: "qualified_name \<Rightarrow> string \<Rightarrow> qualified_name" where
  "with_qualified_name_suffix name sfx =
     QualifiedName_new (get_namespace name) (make_ident (get_final_item name @ ''_'' @ sfx))"

definition get_methods_trait_name :: "qualified_name \<Rightarrow> qualified_name" where
  "get_methods_trait_name superclass_name = with_qualified_name_suffix superclass_name ''methods''"

definition get_supers_trait_name :: "qualified_name \<Rightarrow> qualified_name" where
  "get_supers_trait_name superclass_name = with_qualified_name_suffix superclass_name ''supers''"

text \<open>
  The loop of \<^verbatim>\<open>get_cpp_super_fn_name\<close> pushes one more \<^verbatim>\<open>_autocxx\<close> mark each time round; the
  candidate with \<open>n\<close> marks is \<open>super_fn_candidate\<close>, and the loop looks for the first, from one
  mark up, that is not taken.
\<close>

definition super_fn_candidate :: "string \<Rightarrow> nat \<Rightarrow> string" where
  "super_fn_candidate idt n = idt @ concat (replicate n ''_autocxx'') @ SUPER_FN_SUFFIX"

definition get_cpp_super_fn_name ::
    "namespace \<Rightarrow> string \<Rightarrow> (string \<Rightarrow> bool) \<Rightarrow> qualified_name option" where
  "get_cpp_super_fn_name superclass_namespace idt is_taken =
     map_option (\<lambda>n. QualifiedName_new superclass_namespace (make_ident (super_fn_candidate idt n)))
       (first_free (super_fn_candidate idt) is_taken 1)"

interpretation super_fn: numbered_names "super_fn_candidate idt"
proof
  fix i j
  assume "super_fn_candidate idt i = super_fn_candidate idt j"
  then have "length (concat (replicate i ''_autocxx'')) = length (concat (replicate j ''_autocxx''))"
    by (simp add: super_fn_candidate_def)
  then show "i = j" by (simp add: length_concat sum_list_replicate)
qed

section \<open>Error contexts\<close>

datatype error_context =
    Item ident
  | SanitizedItem (ctx_lookup: ident) (ctx_display: ident)
  | Method (ctx_self_ty: ident) (ctx_method: ident)

definition is_declarable :: "(string \<Rightarrow> bool) \<Rightarrow> error_context \<Rightarrow> bool" where
  "is_declarable is_rust_ident ctx =
     (let declarable = (\<lambda>idt. validate_str_ok_for_rust is_rust_ident idt = Inr ()) in
      case ctx of
        Item idt \<Rightarrow> declarable idt
      | SanitizedItem lookup display \<Rightarrow> declarable display
      | Method self_ty method \<Rightarrow> declarable self_ty \<and> declarable method)"

definition sanitize_error_ident :: "ident \<Rightarrow> ident option" where
  "sanitize_error_ident idt =
     (let qn = QualifiedName_new Namespace_new idt in
      if conflicts_with_built_in_type known_types qn
      then Some (make_ident (get_final_item qn @ ''_autocxx_error''))
      else None)"

definition new_for_item :: "ident \<Rightarrow> error_context" where
  "new_for_item idt =
     (case sanitize_error_ident idt of
        None \<Rightarrow> Item idt
      | Some display \<Rightarrow> SanitizedItem idt display)"

definition new_for_displaced_item :: "ident \<Rightarrow> ident \<Rightarrow> error_context" where
  "new_for_displaced_item lookup display = SanitizedItem lookup display"

definition new_for_method :: "ident \<Rightarrow> ident \<Rightarrow> error_context" where
  "new_for_method self_ty method =
     (case sanitize_error_ident self_ty of
        None \<Rightarrow> Method self_ty
          (case sanitize_error_ident method of Some m \<Rightarrow> m | None \<Rightarrow> method)
      | Some _ \<Rightarrow> SanitizedItem self_ty (make_ident (self_ty @ ''_'' @ method)))"

definition error_context_to_string :: "error_context \<Rightarrow> string" where
  "error_context_to_string ctx =
     (case ctx of
        Item idt \<Rightarrow> idt
      | SanitizedItem lookup display \<Rightarrow> display
      | Method self_ty method \<Rightarrow> self_ty @ ''::'' @ method)"

text \<open>No built-in name ends the way a sanitized one does, so sanitizing always gets clear.\<close>

lemma known_names_unsanitized:
  "list_all (\<lambda>s. \<not> suffix ''_autocxx_error'' s)
     (map (get_final_item \<circ> fst) known_canonical_names @ map (get_final_item \<circ> fst) known_by_rs_name)"
  by (simp add: known_canonical_names_def known_by_rs_name_def suffix_to_prefix)

lemma conflict_is_listed:
  assumes "conflicts_with_built_in_type known_types qn"
  shows "get_final_item qn \<in>
    set (map (get_final_item \<circ> fst) known_canonical_names @ map (get_final_item \<circ> fst) known_by_rs_name)"
proof -
  from assms obtain v w where "(qn, v) \<in> set known_canonical_names \<or> (qn, w) \<in> set known_by_rs_name"
    by (auto simp: conflicts_with_built_in_type_def db_get_known split: option.splits dest: map_of_SomeD)
  then show ?thesis by force
qed

lemma sanitized_is_free:
  "\<not> conflicts_with_built_in_type known_types (QualifiedName ns (s @ ''_autocxx_error''))"
proof
  assume "conflicts_with_built_in_type known_types (QualifiedName ns (s @ ''_autocxx_error''))"
  from conflict_is_listed[OF this] known_names_unsanitized
  have "\<not> suffix ''_autocxx_error'' (s @ ''_autocxx_error'')"
    unfolding list_all_iff qualified_name.sel by (rule bspec[rotated])
  then show False by (simp only: suffix_def) blast
qed

lemma new_for_item_shown:
  "\<exists>display. \<not> conflicts_with_built_in_type known_types (QualifiedName [] display) \<and>
     (new_for_item idt = Item display \<or> new_for_item idt = SanitizedItem idt display)"
  using sanitized_is_free
  by (auto simp: new_for_item_def sanitize_error_ident_def Let_def QualifiedName_new_def
      Namespace_new_def make_ident_def)

text \<open>
  \<^verbatim>\<open>ConvertErrorFromCpp\<close>, with a constructor for each variant. Those that only a few passes build are
  grouped by what they are about: a type, a signature, a member function or data member, an item or a
  directive. Where a variant holds the tokens of a type, its constructor holds the type.
\<close>

datatype unrepresentable_member = Member_Array | Member_Reference | Member_Volatile | Unrepresentable

datatype type_error =
    ComplexTypedefTarget string
  | UnsupportedBuiltInType qualified_name
  | ConflictingTemplatedArgsWithTypedef qualified_name
  | UnsupportedType rust_type
  | UnknownType rust_type
  | LongDouble
  | Float128
  | VolatileTemplateArgument
  | TemplatedTypeContainingNonPathArg qualified_name
  | InvalidArrayPointee
  | CppArrayInTemplateArgument rust_type
  | InvalidPointerPointee
  | InvalidPointee rust_type
  | TypeContainingForwardDeclaration qualified_name
  | DependentQualifiedTypeOnSubstitute qualified_name qualified_name string
  | UnsupportedVaList
  | UnsupportedStdFunction
  | BindgenOpaqueBlob rust_type
  | BoxContainingNonRustType qualified_name
  | RustTypeWithAPath qualified_name
  | InvalidTypeForCppPtr qualified_name
  | InvalidTypeForCppVector qualified_name
  | ConstCxxContainerPayload qualified_name
  | GenericsWithinVector
  | TypedefTakesGenericParameters
  | TypedefToTypeInAnonymousNamespace
  | ReferringToGenericTypeParam

datatype signature_error =
    UnexpectedThisType qualified_name
  | UnacceptableParam string
  | NoInputReference string
  | MultipleInputReferences string
  | NoMutableInputReference string
  | MultipleMutableInputReferences string
  | VolatileReturn string
  | VolatileRValueReference
  | CppArrayInSignature rust_type
  | CppArrayReferenceInSignature rust_type
  | CppArrayElementNotSupported rust_type
  | UnsupportedReceiver
  | MutableReferenceToRustStr
  | StringViewOutOfCpp
  | MutableStringViewRef
  | IndirectStringView
  | StringViewWithoutUtilities
  | RValueReturn
  | RValueRefQualifiedMethod
  | UnreproducibleExceptionSpecification
  | FunctionPointerInSignature
  | ConstructorWithOnlyOneParam
  | ConstructorWithMultipleParams
  | Variadic

datatype member_error =
    FunctionBlocked
  | PrivateMethod
  | MethodOfNonAllowlistedType
  | MethodOfGenericType
  | MethodInAnonymousNamespace
  | InheritedOverloadSet string nat
  | InheritedMergedName string
  | TemplateMemberSignatureNotRust string
  | MemberFunctionTemplate nat
  | MemberFunctionTemplateOfClassTemplate nat
  | ConversionOperator string
  | CallOperator nat
  | TemplateMemberWithDependentSignature
  | RValueReferenceField
  | UnrepresentableDataMember string unrepresentable_member
  | DataMemberOfNonAllowlistedType string qualified_name

datatype item_error =
    UnexpectedForeignItem
  | UnexpectedItemInMod
  | VolatileVariable string
  | StaticDataOfUnsupportedType
  | StaticDataWithInternalLinkage string
  | StaticDataWithUnknownCppName qualified_name
  | StaticDataOfUnholdableType qualified_name
  | StaticDataHolderAlreadyTaken qualified_name
  | UnexpectedUseStatement "string option"
  | NonPublicNestedType
  | ForwardDeclaredNestedType
  | UnusedTemplateParam
  | DeriveDirectiveMatchedNothing string
  | SmartPointerDirectiveMatchedNothing string
  | DirectiveMatchedNothing string string
  | SmartPointerWithoutTypeArgument qualified_name
  | SmartPointerPayloadNotANamedType qualified_name rust_type
  | DeriveOnTypeWithNoRustDefinition string
  | DeriveDefaultOnEnum string

datatype convert_error =
    UnsafePodType string
  | Blocked qualified_name
  | DidNotGenerateAnything string
  | DidNotGenerateAnythingUsable string convert_error
  | UnknownDependentType qualified_name
  | IgnoredDependent "qualified_name list" qualified_name convert_error
  | InvalidIdent invalid_ident_error
  | DuplicateCxxBridgeName "string list"
  | DuplicateItemsFoundInParsing
  | FunctionHiddenByType
  | AbstractNestedType
  | NestedOpaqueTypedef
  | DestructorInaccessible
  | Deleted
  | DefaultedButDeleted
  | ConvertError_AssignmentOperator
  | InfinitelyRecursiveTypedef qualified_name
  | AliasTemplate nat nat
  | InstantiationOnIncompleteType qualified_name qualified_name
  | MemberOfInstantiationOnIncompleteType qualified_name string qualified_name
  | ConcreteVersionOfIgnoredTemplate qualified_name convert_error
  | TypeContainingUngeneratableTypedef qualified_name qualified_name convert_error
  | ArgumentError string convert_error
  | UnexpectedReferenceReturn rust_type
  | ParameterWasNotAPointer rust_type
  | NonInvertibleConversion
  | TypeError type_error
  | SignatureError signature_error
  | MemberError member_error
  | ItemError item_error

datatype convert_error_with_context = ConvertErrorWithContext convert_error "error_context option"

section \<open>Properties\<close>

text \<open>
  However many names the peer class has already spoken for, the search for the C++ name of a
  \<^verbatim>\<open>_super\<close> helper ends: with a name nobody has, the one with the fewest marks, in the
  superclass's namespace.
\<close>

theorem cpp_super_fn_name_free:
  assumes "finite {name. is_taken name}"
  shows "\<exists>n \<ge> 1. get_cpp_super_fn_name ns idt is_taken =
      Some (QualifiedName ns (super_fn_candidate idt n)) \<and>
    \<not> is_taken (super_fn_candidate idt n) \<and>
    (\<forall>j. 1 \<le> j \<and> j < n \<longrightarrow> is_taken (super_fn_candidate idt j))"
proof -
  from super_fn.search_ends[OF assms, of 1 idt] obtain n where n: "n \<ge> 1"
    "first_free (super_fn_candidate idt) is_taken 1 = Some n"
    "\<not> is_taken (super_fn_candidate idt n)"
    "\<forall>j. 1 \<le> j \<and> j < n \<longrightarrow> is_taken (super_fn_candidate idt j)" by blast
  then show ?thesis
    by (auto simp: get_cpp_super_fn_name_def QualifiedName_new_def make_ident_def)
qed

lemma cpp_super_fn_name_free_witness:
  "\<exists>n \<ge> 1. get_cpp_super_fn_name [] ''foo''
       (\<lambda>c. c \<in> {''foo_autocxx_super'', ''foo_autocxx_autocxx_super''}) =
     Some (QualifiedName [] (super_fn_candidate ''foo'' n))"
proof -
  have "finite {c. c \<in> {''foo_autocxx_super'', ''foo_autocxx_autocxx_super''}}" by simp
  from cpp_super_fn_name_free[OF this, of "[]" "''foo''"] show ?thesis by blast
qed

end
