(* ===== verification/FunctionWrapper.thy ===== *)
theory FunctionWrapper
  imports ApiNames
begin

text \<open>
  How a parameter or a return value is converted on its way between Rust and C++
  (\<^verbatim>\<open>conversion/analysis/fun/function_wrapper.rs\<close>): the conversions of each side, the policy
  that pairs them, the questions the analyses ask of a policy, the types the bridge and the
  wrappers spell, and the opposite conversion a subclass peer needs.
\<close>

section \<open>Pointers\<close>

record bridge_pointer =
  bp_pointee :: rust_type
  bp_mutable :: bool

definition BridgePointer_to :: "rust_type \<Rightarrow> bool \<Rightarrow> bridge_pointer" where
  "BridgePointer_to pointee mutable = \<lparr>bp_pointee = pointee, bp_mutable = mutable\<rparr>"

definition BridgePointer_from_type :: "rust_type \<Rightarrow> bridge_pointer option" where
  "BridgePointer_from_type ty =
     (case ty of
        Type_Ptr mutability elem \<Rightarrow> Some (BridgePointer_to elem (ptr_is_mut mutability))
      | _ \<Rightarrow> None)"

definition BridgePointer_ty :: "bridge_pointer \<Rightarrow> rust_type" where
  "BridgePointer_ty p = Type_Ptr (bp_mutable p) (bp_pointee p)"

section \<open>Conversions\<close>

datatype pointer_cpp_conversion =
    PtrCpp_None
  | FromPtrToMove
  | IgnoredPlacementPtrParameter
  | FromPointerToReference
  | FromReferenceToPointer
  | FromPointerToRValueReference
  | FromRValueReferenceToPointer
  | FromVolatilePointerToPointer
  | FromVolatileReferenceToPointer
  | FromPointerToVolatilePointer
  | FromPointerToVolatileReference

fun pointer_cpp_inverse :: "pointer_cpp_conversion \<Rightarrow> pointer_cpp_conversion option" where
  "pointer_cpp_inverse PtrCpp_None = Some PtrCpp_None"
| "pointer_cpp_inverse FromPointerToReference = Some FromReferenceToPointer"
| "pointer_cpp_inverse FromReferenceToPointer = Some FromPointerToReference"
| "pointer_cpp_inverse FromPointerToRValueReference = Some FromRValueReferenceToPointer"
| "pointer_cpp_inverse FromRValueReferenceToPointer = Some FromPointerToRValueReference"
| "pointer_cpp_inverse FromPtrToMove = None"
| "pointer_cpp_inverse IgnoredPlacementPtrParameter = None"
| "pointer_cpp_inverse FromVolatilePointerToPointer = None"
| "pointer_cpp_inverse FromVolatileReferenceToPointer = None"
| "pointer_cpp_inverse FromPointerToVolatilePointer = None"
| "pointer_cpp_inverse FromPointerToVolatileReference = None"

datatype pointer_rust_conversion =
    PtrRust_None
  | FromPinMaybeUninitToPtr
  | FromPinMoveRefToPtr
  | FromTypeToPtr
  | FromPlacementParamToNewReturn
  | FromReferenceWrapperToPointer
  | FromPointerToReferenceWrapper
  | FromVolatilePtrToPointer
  | FromPointerToVolatilePtr

datatype whole_cpp_conversion =
    WholeCpp_None
  | Move
  | MoveOrCopy
  | FromUniquePtrToValue
  | FromPtrToValue
  | FromValueToUniquePtr
  | FromReturnValueToPlacementPtr
  | FromRustBytesToStringView

fun whole_cpp_inverse :: "whole_cpp_conversion \<Rightarrow> whole_cpp_conversion option" where
  "whole_cpp_inverse WholeCpp_None = Some WholeCpp_None"
| "whole_cpp_inverse MoveOrCopy = Some WholeCpp_None"
| "whole_cpp_inverse FromUniquePtrToValue = Some FromValueToUniquePtr"
| "whole_cpp_inverse FromPtrToValue = Some FromValueToUniquePtr"
| "whole_cpp_inverse FromValueToUniquePtr = Some FromUniquePtrToValue"
| "whole_cpp_inverse Move = Some Move"
| "whole_cpp_inverse FromReturnValueToPlacementPtr = None"
| "whole_cpp_inverse FromRustBytesToStringView = None"

datatype whole_rust_conversion =
    WholeRust_None
  | FromStr
  | FromBytes
  | ToBoxedUpHolder subclass_name
  | FromValueParamToPtr
  | FromRValueParamToPtr

datatype forced_rust_conversion =
    Forced_Pointer pointer_rust_conversion
  | Forced_Identity

fun on_pointer :: "forced_rust_conversion \<Rightarrow> pointer_rust_conversion" where
  "on_pointer (Forced_Pointer conversion) = conversion"
| "on_pointer Forced_Identity = PtrRust_None"

fun on_whole ::
    "forced_rust_conversion \<Rightarrow> rust_type \<Rightarrow> (convert_error, whole_rust_conversion) result" where
  "on_whole Forced_Identity ty = Inr WholeRust_None"
| "on_whole (Forced_Pointer c) ty = Inl (ParameterWasNotAPointer ty)"

definition reference_return_as_pointer :: "rust_type \<Rightarrow> (convert_error, bridge_pointer) result" where
  "reference_return_as_pointer ty =
     (case (case ty of
              Type_Reference mutability elem \<Rightarrow> Some (BridgePointer_to elem mutability)
            | Type_Path tp \<Rightarrow>
                map_option (\<lambda>unwrapped. BridgePointer_to unwrapped True)
                  (extract_pinned_mutable_reference_type tp)
            | _ \<Rightarrow> BridgePointer_from_type ty) of
        Some p \<Rightarrow> Inr p
      | None \<Rightarrow> Inl (UnexpectedReferenceReturn ty))"

section \<open>Policies\<close>

datatype type_conversion_policy =
    Policy_Pointer bridge_pointer pointer_cpp_conversion pointer_rust_conversion
  | Policy_Whole rust_type whole_cpp_conversion whole_rust_conversion

definition new_unconverted :: "rust_type \<Rightarrow> type_conversion_policy" where
  "new_unconverted ty = Policy_Whole ty WholeCpp_None WholeRust_None"

fun cxxbridge_type :: "type_conversion_policy \<Rightarrow> rust_type" where
  "cxxbridge_type (Policy_Pointer pointer cpp rust) = BridgePointer_ty pointer"
| "cxxbridge_type (Policy_Whole ty cpp rust) = ty"

definition return_reference_into_wrapper ::
    "rust_type \<Rightarrow> (convert_error, type_conversion_policy) result" where
  "return_reference_into_wrapper ty =
     (case reference_return_as_pointer ty of
        Inl e \<Rightarrow> Inl e
      | Inr p \<Rightarrow> Inr (Policy_Pointer p FromReferenceToPointer FromPointerToReferenceWrapper))"

definition return_rvalue_reference ::
    "rust_type \<Rightarrow> bool \<Rightarrow> (convert_error, type_conversion_policy) result" where
  "return_rvalue_reference ty wrap =
     (case reference_return_as_pointer ty of
        Inl e \<Rightarrow> Inl e
      | Inr p \<Rightarrow> Inr (Policy_Pointer p FromRValueReferenceToPointer
                  (if wrap then FromPointerToReferenceWrapper else PtrRust_None)))"

definition new_to_unique_ptr :: "rust_type \<Rightarrow> type_conversion_policy" where
  "new_to_unique_ptr ty = Policy_Whole ty FromValueToUniquePtr WholeRust_None"

definition new_for_placement_return :: "rust_type \<Rightarrow> type_conversion_policy" where
  "new_for_placement_return ty = Policy_Whole ty FromReturnValueToPlacementPtr WholeRust_None"

definition unique_ptr_of :: "rust_type \<Rightarrow> rust_type" where
  "unique_ptr_of innerty =
     Type_Path (TypePath False False
       [PathSegment ''cxx'' PathArguments_None,
        PathSegment ''UniquePtr'' (AngleBracketed [GenericArgument_Type innerty])])"

fun pointee_was_volatile :: "type_conversion_policy \<Rightarrow> bool" where
  "pointee_was_volatile (Policy_Pointer p cpp rust) = (rust = FromVolatilePtrToPointer)"
| "pointee_was_volatile (Policy_Whole ty cpp rust) = False"

fun cpp_work_needed :: "type_conversion_policy \<Rightarrow> bool" where
  "cpp_work_needed (Policy_Pointer p cpp rust) = (cpp \<noteq> PtrCpp_None)"
| "cpp_work_needed (Policy_Whole ty cpp rust) = (cpp \<noteq> WholeCpp_None \<and> cpp \<noteq> MoveOrCopy)"

definition unconverted_rust_type :: "type_conversion_policy \<Rightarrow> rust_type" where
  "unconverted_rust_type policy =
     (case policy of
        Policy_Whole ty cpp rust \<Rightarrow>
          if cpp = FromValueToUniquePtr then unique_ptr_of ty else cxxbridge_type policy
      | _ \<Rightarrow> cxxbridge_type policy)"

text \<open>\<open>&[u8]\<close>, a slice the readers of types do not look into.\<close>

definition bytes_slice :: rust_type where
  "bytes_slice = Type_Reference False (Type_Other ''[u8]'')"

definition converted_rust_type :: "type_conversion_policy \<Rightarrow> rust_type" where
  "converted_rust_type policy =
     (case policy of
        Policy_Whole ty cpp rust \<Rightarrow>
          (case cpp of
             FromUniquePtrToValue \<Rightarrow> unique_ptr_of ty
           | FromRustBytesToStringView \<Rightarrow> bytes_slice
           | FromPtrToValue \<Rightarrow> Type_Ptr True ty
           | _ \<Rightarrow> cxxbridge_type policy)
      | _ \<Rightarrow> cxxbridge_type policy)"

fun rust_work_needed :: "type_conversion_policy \<Rightarrow> bool" where
  "rust_work_needed (Policy_Pointer p cpp rust) = (rust \<noteq> PtrRust_None)"
| "rust_work_needed (Policy_Whole ty cpp rust) = (rust \<noteq> WholeRust_None)"

fun policy_inverse :: "type_conversion_policy \<Rightarrow> type_conversion_policy option" where
  "policy_inverse (Policy_Pointer pointer cpp rust) =
     map_option (\<lambda>cpp'. Policy_Pointer pointer cpp' rust) (pointer_cpp_inverse cpp)"
| "policy_inverse (Policy_Whole ty cpp rust) =
     map_option (\<lambda>cpp'. Policy_Whole ty cpp' rust) (whole_cpp_inverse cpp)"

fun bridge_unsafe_needed :: "type_conversion_policy \<Rightarrow> bool" where
  "bridge_unsafe_needed (Policy_Pointer p cpp rust) =
     (rust \<in> {FromPlacementParamToNewReturn, FromPointerToReferenceWrapper,
              FromReferenceWrapperToPointer})"
| "bridge_unsafe_needed (Policy_Whole ty cpp rust) =
     (rust \<in> {FromValueParamToPtr, FromRValueParamToPtr})"

fun is_placement_parameter :: "type_conversion_policy \<Rightarrow> bool" where
  "is_placement_parameter (Policy_Pointer p cpp rust) = (cpp = IgnoredPlacementPtrParameter)"
| "is_placement_parameter (Policy_Whole ty cpp rust) = False"

fun populate_return_value :: "type_conversion_policy \<Rightarrow> bool" where
  "populate_return_value (Policy_Whole ty cpp rust) = (cpp \<noteq> FromReturnValueToPlacementPtr)"
| "populate_return_value (Policy_Pointer p cpp rust) = True"

fun requires_mutability :: "type_conversion_policy \<Rightarrow> bool" where
  "requires_mutability (Policy_Pointer p cpp rust) = (rust = FromPinMoveRefToPtr)"
| "requires_mutability (Policy_Whole ty cpp rust) = False"

fun is_value_param :: "type_conversion_policy \<Rightarrow> bool" where
  "is_value_param (Policy_Whole ty cpp rust) = (rust = FromValueParamToPtr)"
| "is_value_param (Policy_Pointer p cpp rust) = False"

fun takes_reference_wrapper :: "type_conversion_policy \<Rightarrow> bool" where
  "takes_reference_wrapper (Policy_Pointer p cpp rust) = (rust = FromReferenceWrapperToPointer)"
| "takes_reference_wrapper (Policy_Whole ty cpp rust) = False"

fun returns_reference_wrapper :: "type_conversion_policy \<Rightarrow> bool" where
  "returns_reference_wrapper (Policy_Pointer p cpp rust) = (rust = FromPointerToReferenceWrapper)"
| "returns_reference_wrapper (Policy_Whole ty cpp rust) = False"

section \<open>C++ functions\<close>

datatype receiver_mutability = Const | Mutable

datatype cpp_function_body =
    FunctionCall namespace cpp_effective_name
  | BaseClassMethodCall qualified_name string cpp_effective_name receiver_mutability
  | FieldRead string
  | VariableRead qualified_name
  | StaticMethodCall namespace ident cpp_effective_name
  | PlacementNew namespace ident
  | ConstructSuperclass string
  | Body_Cast
  | Body_Destructor namespace ident
  | Body_AllocUninitialized qualified_name
  | Body_FreeUninitialized qualified_name

datatype cpp_function_kind =
    CppFunction_Function
  | CppFunction_Method
  | CppFunction_Constructor
  | CppFunction_ConstMethod
  | SynthesizedConstructor

datatype cpp_exception_specification = Spec_None | Spec_Noexcept

datatype cpp_ref_qualifier = RefQualifier_None | LValue | RValue

record cpp_function =
  cf_payload :: cpp_function_body
  cf_wrapper_function_name :: ident
  cf_original_cpp_name :: cpp_effective_name
  cf_return_conversion :: "type_conversion_policy option"
  cf_argument_conversion :: "type_conversion_policy list"
  cf_kind :: cpp_function_kind
  cf_pass_obs_field :: bool
  cf_qualification :: "qualified_name option"
  cf_ref_qualifier :: cpp_ref_qualifier
  cf_calls_deprecated :: bool
  cf_is_virtual_override :: bool
  cf_exception_specification :: cpp_exception_specification

section \<open>Properties\<close>

text \<open>
  Inverting a conversion for a subclass peer changes only what C++ does: the bridge declares
  the same type and Rust does the same work, and where the opposite of the opposite exists it is
  the conversion itself, except that a by-value hand-over comes back as the plain one and a value
  reached through a pointer as one reached through a \<^verbatim>\<open>UniquePtr\<close>.
\<close>

theorem inverse_changes_only_cpp:
  assumes "policy_inverse policy = Some inverted"
  shows "cxxbridge_type inverted = cxxbridge_type policy \<and>
    rust_work_needed inverted = rust_work_needed policy \<and>
    bridge_unsafe_needed inverted = bridge_unsafe_needed policy \<and>
    (\<exists>back. policy_inverse inverted = Some back \<and> policy_inverse back = Some inverted \<and>
       (back = policy \<or> (\<exists>ty rust. policy = Policy_Whole ty MoveOrCopy rust
                                 \<or> policy = Policy_Whole ty FromPtrToValue rust)))"
proof (cases policy)
  case (Policy_Pointer p cpp rust)
  with assms show ?thesis by (cases cpp) auto
next
  case (Policy_Whole ty cpp rust)
  with assms show ?thesis by (cases cpp) auto
qed

definition sample_reference_policy :: type_conversion_policy where
  "sample_reference_policy =
     Policy_Pointer (BridgePointer_to (Type_Path (plain_path False [''Bob''])) True)
       FromPointerToReference FromReferenceWrapperToPointer"

lemma inverse_changes_only_cpp_witness:
  "\<exists>inverted. policy_inverse sample_reference_policy = Some inverted \<and>
     cxxbridge_type inverted = cxxbridge_type sample_reference_policy"
proof -
  have "policy_inverse sample_reference_policy \<noteq> None" by (simp add: sample_reference_policy_def)
  then obtain inverted where "policy_inverse sample_reference_policy = Some inverted" by blast
  with inverse_changes_only_cpp show ?thesis by blast
qed

text \<open>
  A subclass peer can be refused only for one of the six pointer conversions and two whole
  ones that have no opposite, and each of those is one for which a C++ wrapper is needed.
\<close>

theorem non_invertible_needs_cpp_work:
  "policy_inverse policy = None \<longleftrightarrow>
     cpp_work_needed policy \<and>
     (case policy of
        Policy_Pointer p cpp rust \<Rightarrow>
          cpp \<in> {FromPtrToMove, IgnoredPlacementPtrParameter, FromVolatilePointerToPointer,
                 FromVolatileReferenceToPointer, FromPointerToVolatilePointer,
                 FromPointerToVolatileReference}
      | Policy_Whole ty cpp rust \<Rightarrow>
          cpp \<in> {FromReturnValueToPlacementPtr, FromRustBytesToStringView})"
proof (cases policy)
  case (Policy_Pointer p cpp rust)
  then show ?thesis by (cases cpp) auto
next
  case (Policy_Whole ty cpp rust)
  then show ?thesis by (cases cpp) auto
qed

text \<open>
  The pointer a returned C++ reference is carried as: whichever of the three shapes the
  reference arrives in, the pointer points at the referent and is mutable exactly where the
  reference was, and no other type is mistaken for a reference.
\<close>

theorem reference_return_shapes:
  "reference_return_as_pointer (Type_Reference m t) = Inr \<lparr>bp_pointee = t, bp_mutable = m\<rparr> \<and>
   reference_return_as_pointer (Type_Ptr m t) = Inr \<lparr>bp_pointee = t, bp_mutable = m\<rparr> \<and>
   reference_return_as_pointer (Type_Path (TypePath q c
       [PathSegment ''std'' a1, PathSegment ''pin'' a2,
        PathSegment ''Pin'' (AngleBracketed [GenericArgument_Type (Type_Reference True t)])])) =
     Inr \<lparr>bp_pointee = t, bp_mutable = True\<rparr> \<and>
   (reference_return_as_pointer ty = Inl (UnexpectedReferenceReturn ty) \<longleftrightarrow>
      (case ty of
         Type_Reference _ _ \<Rightarrow> False
       | Type_Ptr _ _ \<Rightarrow> False
       | Type_Path tp \<Rightarrow> extract_pinned_mutable_reference_type tp = None
       | _ \<Rightarrow> True))"
proof -
  have "reference_return_as_pointer ty = Inl (UnexpectedReferenceReturn ty) \<longleftrightarrow>
      (case ty of
         Type_Reference _ _ \<Rightarrow> False
       | Type_Ptr _ _ \<Rightarrow> False
       | Type_Path tp \<Rightarrow> extract_pinned_mutable_reference_type tp = None
       | _ \<Rightarrow> True)"
    by (cases ty) (auto simp: reference_return_as_pointer_def BridgePointer_from_type_def split: option.splits)
  then show ?thesis
    by (simp add: reference_return_as_pointer_def BridgePointer_to_def BridgePointer_from_type_def
        ptr_is_mut_def extract_pinned_mutable_reference_type_def is_pin_def)
qed

end
