(* ===== verification/Api.thy ===== *)
theory Api
  imports FunctionWrapper
begin

text \<open>
  The items the pipeline carries (\<^verbatim>\<open>conversion/api.rs\<close>, and the analyses of
  \<^verbatim>\<open>conversion/analysis/fun/mod.rs\<close> attached to functions): one constructor per variant of
  \<^verbatim>\<open>Api\<close>. The associated types of an \<^verbatim>\<open>AnalysisPhase\<close> are the four type parameters: what is
  known of a typedef, a struct, a function and a subclass. Syntax the passes only hand on is kept
  as its tokens.
\<close>

datatype type_kind = Pod | NonPod | Opaque | Abstract

section \<open>Holders\<close>

datatype holder_surface =
    Holder_SharedPtr rust_type "qualified_name list"
  | Holder_UniquePtr rust_type "qualified_name list"
  | Holder_WeakPtr qualified_name "qualified_name list"
  | Holder_VectorOfPointers rust_type "qualified_name list"
  | Holder_CustomPtr rust_type rust_type bool "qualified_name list"
  | Holder_ConstRef rust_type "qualified_name list"

fun holder_deps :: "holder_surface \<Rightarrow> qualified_name list" where
  "holder_deps (Holder_SharedPtr payload deps) = deps"
| "holder_deps (Holder_UniquePtr payload deps) = deps"
| "holder_deps (Holder_WeakPtr shared_holder deps) = deps"
| "holder_deps (Holder_VectorOfPointers element deps) = deps"
| "holder_deps (Holder_CustomPtr payload payload_cpp payload_is_const deps) = deps"
| "holder_deps (Holder_ConstRef payload deps) = deps"

definition shim_cpp_name :: "qualified_name \<Rightarrow> string \<Rightarrow> string" where
  "shim_cpp_name holder rust_name = get_final_item holder @ ''_autocxx_'' @ rust_name"

datatype shared_ptr_shim = SharedPtr_Get | SharedPtr_Clone | SharedPtr_UseCount
datatype unique_ptr_shim = UniquePtr_Get | UniquePtr_PayloadIsNull
datatype custom_ptr_shim = CustomPtr_Get
datatype const_ref_shim = ConstRef_Get
datatype weak_ptr_shim = WeakPtr_Lock | WeakPtr_UseCount
datatype vector_shim = Vector_Len | Vector_GetUnchecked

fun shared_ptr_rust_name :: "shared_ptr_shim \<Rightarrow> string" where
  "shared_ptr_rust_name SharedPtr_Get = ''get''"
| "shared_ptr_rust_name SharedPtr_Clone = ''clone''"
| "shared_ptr_rust_name SharedPtr_UseCount = ''use_count''"

definition shared_ptr_cpp_name :: "shared_ptr_shim \<Rightarrow> qualified_name \<Rightarrow> string" where
  "shared_ptr_cpp_name shim holder = shim_cpp_name holder (shared_ptr_rust_name shim)"

fun unique_ptr_rust_name :: "unique_ptr_shim \<Rightarrow> string" where
  "unique_ptr_rust_name UniquePtr_Get = ''get''"
| "unique_ptr_rust_name UniquePtr_PayloadIsNull = ''payload_is_null''"

definition unique_ptr_cpp_name :: "unique_ptr_shim \<Rightarrow> qualified_name \<Rightarrow> string" where
  "unique_ptr_cpp_name shim holder = shim_cpp_name holder (unique_ptr_rust_name shim)"

fun custom_ptr_rust_name :: "custom_ptr_shim \<Rightarrow> string" where
  "custom_ptr_rust_name CustomPtr_Get = ''get''"

definition custom_ptr_cpp_name :: "custom_ptr_shim \<Rightarrow> qualified_name \<Rightarrow> string" where
  "custom_ptr_cpp_name shim holder = shim_cpp_name holder (custom_ptr_rust_name shim)"

fun const_ref_rust_name :: "const_ref_shim \<Rightarrow> string" where
  "const_ref_rust_name ConstRef_Get = ''get''"

definition const_ref_cpp_name :: "const_ref_shim \<Rightarrow> qualified_name \<Rightarrow> string" where
  "const_ref_cpp_name shim holder = shim_cpp_name holder (const_ref_rust_name shim)"

fun weak_ptr_rust_name :: "weak_ptr_shim \<Rightarrow> string" where
  "weak_ptr_rust_name WeakPtr_Lock = ''lock''"
| "weak_ptr_rust_name WeakPtr_UseCount = ''use_count''"

definition weak_ptr_cpp_name :: "weak_ptr_shim \<Rightarrow> qualified_name \<Rightarrow> string" where
  "weak_ptr_cpp_name shim holder = shim_cpp_name holder (weak_ptr_rust_name shim)"

fun vector_rust_name :: "vector_shim \<Rightarrow> string" where
  "vector_rust_name Vector_Len = ''len''"
| "vector_rust_name Vector_GetUnchecked = ''get_unchecked''"

definition vector_cpp_name :: "vector_shim \<Rightarrow> qualified_name \<Rightarrow> string" where
  "vector_cpp_name shim holder = shim_cpp_name holder (vector_rust_name shim)"

section \<open>Items as bindgen wrote them\<close>

text \<open>
  The pieces of a \<^verbatim>\<open>syn\<close> item the passes read; the rest of it is its tokens. A field of a tuple
  struct has no identifier.
\<close>

record item_field =
  if_ident :: "ident option"
  if_public :: bool
  if_ty :: rust_type

datatype type_param_bound = Bound_Trait type_path | Bound_Other rust_tokens
datatype where_predicate = WherePredicate_Type rust_type "type_param_bound list" | WherePredicate_Other rust_tokens

record item_struct =
  is_ident :: ident
  is_type_params :: "ident list"
  is_other_params :: nat
  is_where_clause :: "where_predicate list"
  is_fields :: "item_field list"
  is_tokens :: rust_tokens

record item_enum =
  ie_ident :: ident
  ie_variants :: "ident list"
  ie_tokens :: rust_tokens

record item_type =
  it_ident :: ident
  it_type_params :: "ident list"
  it_other_params :: nat
  it_ty :: rust_type

datatype fn_arg = FnArg_Receiver rust_tokens | FnArg_Typed rust_tokens rust_type

record struct_details =
  sd_item :: item_struct
  sd_has_rvalue_reference_fields :: bool
  sd_layout :: "(nat \<times> nat) option"

section \<open>What bindgen reports of a function\<close>

datatype cpp_visibility = Public | Protected | Private
datatype virtualness = Virtual | PureVirtual
datatype special_member_kind =
  DefaultConstructor | CopyConstructor | MoveConstructor | Destructor | AssignmentOperator
datatype explicitness = Explicitness_Deleted | Explicitness_Defaulted

datatype cast_mutability = ConstToConst | MutToConst | MutToMut

datatype trait_synthesis =
    Synth_Cast qualified_name cast_mutability
  | AllocUninitialized qualified_name
  | FreeUninitialized qualified_name

record subclass_constructor_details =
  scd_subclass :: subclass_name
  scd_is_trivial :: bool
  scd_cpp_impl :: cpp_function

datatype unsafety_needed = Unsafety_None | JustBridge | Always

record superclass_method =
  sm_name :: ident
  sm_receiver :: qualified_name
  sm_params :: "fn_arg list"
  sm_param_conversions :: "type_conversion_policy list"
  sm_ret_type :: "rust_type option"
  sm_ret_conversion :: "type_conversion_policy option"
  sm_receiver_mutability :: receiver_mutability
  sm_requires_unsafe :: unsafety_needed
  sm_has_super_helper :: bool
  sm_superclass_binding_returns_new :: bool

datatype provenance =
    Bindgen
  | SynthesizedOther
  | SynthesizedSubclassConstructor subclass_constructor_details

text \<open>\<^verbatim>\<open>MethodKind\<close> and \<^verbatim>\<open>ExceptionSpecification\<close> of bindgen's callbacks; the flags say pure virtual.\<close>

datatype cpp_method_kind =
    CppKind_Constructor
  | CppKind_Destructor
  | CppKind_VirtualDestructor bool
  | CppKind_Static
  | CppKind_Normal
  | CppKind_Virtual bool

datatype exception_specification =
    ExSpec_None
  | DynamicNone
  | Dynamic
  | MsAny
  | BasicNoexcept
  | ComputedNoexcept
  | Unevaluated
  | Uninstantiated
  | Unparsed
  | NoThrow

record func_to_convert =
  fc_provenance :: provenance
  fc_ident :: ident
  fc_doc_attrs :: "rust_tokens list"
  fc_inputs :: "fn_arg list"
  fc_variadic :: bool
  fc_output :: "rust_type option"
  fc_vis :: rust_tokens
  fc_virtualness :: "virtualness option"
  fc_cpp_vis :: cpp_visibility
  fc_special_member :: "special_member_kind option"
  fc_method_kind :: "cpp_method_kind option"
  fc_original_name :: "cpp_original_name option"
  fc_self_ty :: "qualified_name option"
  fc_synthesized_this_type :: "qualified_name option"
  fc_add_to_trait :: "trait_synthesis option"
  fc_synthetic_cpp :: "(cpp_function_body \<times> cpp_function_kind) option"
  fc_is_deleted :: "explicitness option"
  fc_deprecation :: "string option"
  fc_ref_qualifier :: cpp_ref_qualifier
  fc_exception_specification :: exception_specification

datatype typedef_kind = TypedefKind_Use rust_type | TypedefKind_Type item_type

record opaque_typedef_reason =
  otr_culprit :: qualified_name
  otr_reason :: convert_error

record rust_subclass_fn_details =
  rsf_params :: "fn_arg list"
  rsf_ret :: "rust_type option"
  rsf_cpp_impl :: cpp_function
  rsf_method_name :: ident
  rsf_superclass :: qualified_name
  rsf_receiver_mutability :: receiver_mutability
  rsf_dependencies :: "qualified_name list"
  rsf_requires_unsafe :: unsafety_needed
  rsf_cpp_super_fn_name :: "ident option"

section \<open>The items\<close>

datatype ('td, 'st, 'fn, 'sub) api =
    Api_ForwardDeclaration api_name "convert_error_with_context option"
  | Api_OpaqueTypedef api_name bool "opaque_typedef_reason option"
  | Api_ConcreteType api_name "rust_type option" string "holder_surface option"
      "qualified_name list" "qualified_name option"
  | Api_StringConstructor api_name
  | Api_Function api_name func_to_convert 'fn
  | Api_Const api_name rust_tokens
  | Api_Static api_name "qualified_name option" bool
  | Api_Typedef api_name typedef_kind "qualified_name option" 'td
  | Api_Enum api_name item_enum
  | Api_Struct api_name struct_details 'st
  | Api_CType api_name qualified_name
  | Api_IgnoredItem api_name convert_error "error_context option"
  | Api_RustType api_name rust_tokens
  | Api_RustFn api_name rust_tokens "qualified_name list"
  | Api_RustSubclassFn api_name subclass_name rust_subclass_fn_details
  | Api_Subclass subclass_name qualified_name 'sub
  | Api_SubclassTraitItem api_name superclass_method
  | Api_ExternCppType api_name "rust_tokens \<times> bool" bool

fun name_info :: "('td, 'st, 'fn, 'sub) api \<Rightarrow> api_name" where
  "name_info (Api_ForwardDeclaration name err) = name"
| "name_info (Api_OpaqueTypedef name fd reason) = name"
| "name_info (Api_ConcreteType name rs cpp hs deps ia) = name"
| "name_info (Api_StringConstructor name) = name"
| "name_info (Api_Function name fun analysis) = name"
| "name_info (Api_Const name item) = name"
| "name_info (Api_Static name cpp_ty name_is_cpp_name) = name"
| "name_info (Api_Typedef name item old_tyname analysis) = name"
| "name_info (Api_Enum name item) = name"
| "name_info (Api_Struct name details analysis) = name"
| "name_info (Api_CType name type_name) = name"
| "name_info (Api_IgnoredItem name err ctx) = name"
| "name_info (Api_RustType name path) = name"
| "name_info (Api_RustFn name details deps) = name"
| "name_info (Api_RustSubclassFn name subclass details) = name"
| "name_info (Api_Subclass name superclass analysis) = subclass_api_name name"
| "name_info (Api_SubclassTraitItem name details) = name"
| "name_info (Api_ExternCppType name details pod) = name"

definition Api_name :: "('td, 'st, 'fn, 'sub) api \<Rightarrow> qualified_name" where
  "Api_name api = an_name (name_info api)"

definition Api_cpp_name :: "('td, 'st, 'fn, 'sub) api \<Rightarrow> cpp_original_name option" where
  "Api_cpp_name api = an_cpp_name (name_info api)"

definition effective_cpp_name :: "('td, 'st, 'fn, 'sub) api \<Rightarrow> cpp_effective_name" where
  "effective_cpp_name api = ApiName_cpp_name (name_info api)"

definition discard_duplicates :: "('td, 'st, 'fn, 'sub) api \<Rightarrow> bool" where
  "discard_duplicates api =
     (case api of
        Api_IgnoredItem _ _ _ \<Rightarrow> True
      | Api_Static _ _ _ \<Rightarrow> True
      | _ \<Rightarrow> False)"

definition valid_types :: "('td, 'st, 'fn, 'sub) api \<Rightarrow> qualified_name list" where
  "valid_types api =
     (case api of
        Api_Subclass name superclass analysis \<Rightarrow>
          [Api_name api, QualifiedName_new Namespace_new (subclass_holder name), subclass_cpp name]
      | _ \<Rightarrow> [Api_name api])"

text \<open>\<open>api\<close>'s own name is always among the types it makes valid.\<close>

lemma name_in_valid_types [simp]: "Api_name api \<in> set (valid_types api)"
  by (cases api) (simp_all add: valid_types_def)

definition typedef_unchanged ::
    "api_name \<Rightarrow> typedef_kind \<Rightarrow> qualified_name option \<Rightarrow> 'td \<Rightarrow>
     (convert_error_with_context, ('td, 'st, 'fn, 'sub) api list) result" where
  "typedef_unchanged name item old_tyname analysis = Inr [Api_Typedef name item old_tyname analysis]"

definition struct_unchanged ::
    "api_name \<Rightarrow> struct_details \<Rightarrow> 'st \<Rightarrow>
     (convert_error_with_context, ('td, 'st, 'fn, 'sub) api list) result" where
  "struct_unchanged name details analysis = Inr [Api_Struct name details analysis]"

definition fun_unchanged ::
    "api_name \<Rightarrow> func_to_convert \<Rightarrow> 'fn \<Rightarrow>
     (convert_error_with_context, ('td, 'st, 'fn, 'sub) api list) result" where
  "fun_unchanged name fn analysis = Inr [Api_Function name fn analysis]"

definition enum_unchanged ::
    "api_name \<Rightarrow> item_enum \<Rightarrow>
     (convert_error_with_context, ('td, 'st, 'fn, 'sub) api list) result" where
  "enum_unchanged name item = Inr [Api_Enum name item]"

definition subclass_unchanged ::
    "subclass_name \<Rightarrow> qualified_name \<Rightarrow> 'sub \<Rightarrow>
     (convert_error_with_context, ('td, 'st, 'fn, 'sub) api list) result" where
  "subclass_unchanged name superclass analysis = Inr [Api_Subclass name superclass analysis]"

section \<open>What function analysis records\<close>

datatype method_kind =
    Normal
  | Constructor bool
  | Static
  | VirtualMethod receiver_mutability
  | PureVirtualMethod receiver_mutability

datatype trait_method_kind =
    Trait_CopyConstructor
  | Trait_MoveConstructor
  | Trait_Cast
  | Trait_Destructor
  | Trait_Alloc
  | Trait_Dealloc

record trait_impl_signature =
  tis_ty :: rust_type
  tis_trait_signature :: rust_type
  tis_unsafety :: bool

record trait_method_details =
  tmd_trait_impl :: trait_impl_signature
  tmd_avoid_self :: bool
  tmd_method_name :: ident
  tmd_parameter_reordering :: "nat list option"

datatype fn_kind =
    FnKind_Function
  | FnKind_Method method_kind qualified_name
  | FnKind_TraitMethod trait_method_kind qualified_name trait_method_details

datatype rust_rename_strategy =
    Rename_None
  | RenameInOutputMod ident
  | RenameUsingWrapperFunction

record argument_analysis =
  aa_conversion :: type_conversion_policy
  aa_name :: rust_tokens
  aa_self_type :: "(qualified_name \<times> receiver_mutability) option"
  aa_has_lifetime :: bool
  aa_is_mutable_reference :: bool
  aa_deps :: "qualified_name list"
  aa_requires_unsafe :: unsafety_needed
  aa_is_placement_return_destination :: bool

record fn_analysis =
  fa_cxxbridge_name :: ident
  fa_rust_name :: string
  fa_cpp_call_name :: "cpp_original_name option"
  fa_rust_rename_strategy :: rust_rename_strategy
  fa_params :: "fn_arg list"
  fa_kind :: fn_kind
  fa_ret_type :: "rust_type option"
  fa_param_details :: "argument_analysis list"
  fa_ret_conversion :: "type_conversion_policy option"
  fa_requires_unsafe :: unsafety_needed
  fa_vis :: rust_tokens
  fa_cpp_wrapper :: "cpp_function option"
  fa_deps :: "qualified_name list"
  fa_ignore_reason :: "(convert_error_with_context, unit) result"
  fa_externally_callable :: bool
  fa_rust_wrapper_needed :: bool
  fa_may_throw :: bool
  fa_rename_doc :: "rust_tokens list"

end
