(* ===== verification/ApiVec.thy ===== *)
theory ApiVec
  imports Api
begin

text \<open>
  The list of APIs with unique names (\<^verbatim>\<open>conversion/apivec.rs\<close>). A push that meets its own name
  keeps a type in preference to a function and files the function as a stub under a name of its
  own, moves such a stub out of anybody's way, drops what may be dropped, and otherwise replaces
  both by an ignored item. \<open>None\<close> stands for a panic.
\<close>

record ('td, 'st, 'fn, 'sub) api_vec =
  apis :: "('td, 'st, 'fn, 'sub) api list"
  names :: "qualified_name list"

definition DISPLACED_SUFFIX :: string where
  "DISPLACED_SUFFIX = ''_autocxx_hidden''"

definition is_unshadowable_type :: "('td, 'st, 'fn, 'sub) api \<Rightarrow> bool" where
  "is_unshadowable_type api =
     (case api of
        Api_Struct _ _ _ \<Rightarrow> True
      | Api_Enum _ _ \<Rightarrow> True
      | Api_ForwardDeclaration _ _ \<Rightarrow> True
      | _ \<Rightarrow> False)"

definition is_function :: "('td, 'st, 'fn, 'sub) api \<Rightarrow> bool" where
  "is_function api = (case api of Api_Function _ _ _ \<Rightarrow> True | _ \<Rightarrow> False)"

definition is_displaced_function :: "('td, 'st, 'fn, 'sub) api \<Rightarrow> bool" where
  "is_displaced_function api =
     (case api of Api_IgnoredItem _ FunctionHiddenByType _ \<Rightarrow> True | _ \<Rightarrow> False)"

definition displaced_function_name :: "('td, 'st, 'fn, 'sub) api \<Rightarrow> ident option" where
  "displaced_function_name stub =
     (case stub of
        Api_IgnoredItem _ _ (Some (SanitizedItem lookup _)) \<Rightarrow> Some lookup
      | _ \<Rightarrow> None)"

definition ApiVec_new :: "('td, 'st, 'fn, 'sub) api_vec" where
  "ApiVec_new = \<lparr>apis = [], names = []\<rparr>"

definition apivec_insert ::
    "('td, 'st, 'fn, 'sub) api_vec \<Rightarrow> ('td, 'st, 'fn, 'sub) api \<Rightarrow> ('td, 'st, 'fn, 'sub) api_vec" where
  "apivec_insert v api = \<lparr>apis = apis v @ [api], names = iset_insert (Api_name api) (names v)\<rparr>"

definition already_contains :: "('td, 'st, 'fn, 'sub) api_vec \<Rightarrow> qualified_name \<Rightarrow> bool" where
  "already_contains v name \<longleftrightarrow> name \<in> set (names v)"

definition retain ::
    "(('td, 'st, 'fn, 'sub) api \<Rightarrow> bool) \<Rightarrow> ('td, 'st, 'fn, 'sub) api_vec \<Rightarrow>
     ('td, 'st, 'fn, 'sub) api_vec" where
  "retain f v =
     (let kept = filter f (apis v)
      in \<lparr>apis = kept, names = fold iset_insert (map Api_name kept) []\<rparr>)"

definition numbered_candidate :: "qualified_name \<Rightarrow> nat \<Rightarrow> qualified_name" where
  "numbered_candidate base counter =
     QualifiedName_new (get_namespace base) (make_ident (get_final_item base @ nat_to_string counter))"

definition first_free_name ::
    "('td, 'st, 'fn, 'sub) api_vec \<Rightarrow> qualified_name \<Rightarrow> qualified_name option" where
  "first_free_name v base =
     (if \<not> already_contains v base then Some base
      else map_option (numbered_candidate base)
             (first_free (numbered_candidate base) (already_contains v) 1))"

definition displaced_stub :: "qualified_name \<Rightarrow> ident \<Rightarrow> ('td, 'st, 'fn, 'sub) api" where
  "displaced_stub filed_under lookup =
     Api_IgnoredItem (new_from_qualified_name filed_under) FunctionHiddenByType
       (Some (new_for_displaced_item lookup (get_final_item filed_under)))"

definition record_displaced_function ::
    "('td, 'st, 'fn, 'sub) api_vec \<Rightarrow> qualified_name \<Rightarrow> ('td, 'st, 'fn, 'sub) api_vec option" where
  "record_displaced_function v hidden =
     (let lookup = get_final_item hidden in
      case first_free_name v (QualifiedName_new (get_namespace hidden)
             (make_ident (lookup @ DISPLACED_SUFFIX))) of
        None \<Rightarrow> None
      | Some filed_under \<Rightarrow> Some (apivec_insert v (displaced_stub filed_under lookup)))"

definition refile_displaced_function ::
    "('td, 'st, 'fn, 'sub) api_vec \<Rightarrow> ('td, 'st, 'fn, 'sub) api \<Rightarrow>
     ('td, 'st, 'fn, 'sub) api_vec option" where
  "refile_displaced_function v stub =
     (case displaced_function_name stub of
        None \<Rightarrow> None
      | Some fname \<Rightarrow>
          record_displaced_function v (QualifiedName_new (get_namespace (Api_name stub)) fname))"

text \<open>\<open>position\<close> finds the first stub under the name; \<open>remove\<close> and \<open>shift_remove\<close> take it out.\<close>

definition take_displaced_function ::
    "('td, 'st, 'fn, 'sub) api_vec \<Rightarrow> qualified_name \<Rightarrow>
     (('td, 'st, 'fn, 'sub) api \<times> ('td, 'st, 'fn, 'sub) api_vec) option" where
  "take_displaced_function v name =
     (let is_it = (\<lambda>api. Api_name api = name \<and> is_displaced_function api) in
      case dropWhile (\<lambda>api. \<not> is_it api) (apis v) of
        [] \<Rightarrow> None
      | stub # rest \<Rightarrow>
          Some (stub, \<lparr>apis = takeWhile (\<lambda>api. \<not> is_it api) (apis v) @ rest,
                       names = removeAll (Api_name stub) (names v)\<rparr>))"

definition contains_unshadowable_type ::
    "('td, 'st, 'fn, 'sub) api_vec \<Rightarrow> qualified_name \<Rightarrow> bool" where
  "contains_unshadowable_type v name =
     list_ex (\<lambda>api. Api_name api = name \<and> is_unshadowable_type api) (apis v)"

definition contains_function :: "('td, 'st, 'fn, 'sub) api_vec \<Rightarrow> qualified_name \<Rightarrow> bool" where
  "contains_function v name = list_ex (\<lambda>api. Api_name api = name \<and> is_function api) (apis v)"

definition duplicate_item :: "qualified_name \<Rightarrow> ('td, 'st, 'fn, 'sub) api" where
  "duplicate_item name =
     Api_IgnoredItem (new_from_qualified_name name) DuplicateItemsFoundInParsing
       (Some (new_for_item (get_final_item name)))"

lemma name_of_built [simp]:
  "Api_name (duplicate_item name) = name"
  "Api_name (displaced_stub name lookup) = name"
  by (simp_all add: Api_name_def duplicate_item_def displaced_stub_def new_from_qualified_name_def
      new_from_qualified_name_and_cpp_name_def)

lemma take_displaced_length:
  "take_displaced_function v name = Some (stub, v') \<Longrightarrow> length (apis v') < length (apis v)"
  by (auto simp: take_displaced_function_def Let_def split: list.splits)
     (metis (no_types, lifting) add_Suc_right length_Cons length_append lessI takeWhile_dropWhile_id)

lemma set_fold_iset_insert [simp]: "set (fold iset_insert xs acc) = set xs \<union> set acc"
  by (induction xs arbitrary: acc) auto

lemma distinct_fold_iset_insert [simp]: "distinct (fold iset_insert xs acc) = distinct acc"
  by (induction xs arbitrary: acc) auto

function apivec_push ::
    "('td, 'st, 'fn, 'sub) api_vec \<Rightarrow> ('td, 'st, 'fn, 'sub) api \<Rightarrow>
     ('td, 'st, 'fn, 'sub) api_vec option" where
  "apivec_push v api =
     (let name = Api_name api in
      if \<not> already_contains v name then Some (apivec_insert v api)
      else if is_displaced_function api then refile_displaced_function v api
      else case take_displaced_function v name of
        Some (stub, v') \<Rightarrow>
          (case apivec_push v' api of
             None \<Rightarrow> None
           | Some v'' \<Rightarrow> refile_displaced_function v'' stub)
      | None \<Rightarrow>
          if discard_duplicates api then Some v
          else
            let incoming_hides_a_type = is_function api \<and> contains_unshadowable_type v name;
                incoming_is_the_hidden_type = is_unshadowable_type api \<and> contains_function v name
            in
            if incoming_hides_a_type \<or> incoming_is_the_hidden_type then
              record_displaced_function
                (if incoming_is_the_hidden_type
                 then apivec_insert (retain (\<lambda>stored. Api_name stored \<noteq> name) v) api
                 else v) name
            else apivec_push (retain (\<lambda>stored. Api_name stored \<noteq> name) v) (duplicate_item name))"
  by pat_completeness auto
termination
proof (relation "measure (\<lambda>(v, api). 2 * length (apis v) + (if already_contains v (Api_name api) then 1 else 0))",
       goal_cases)
  case (2 v api name)
  have "\<not> already_contains (retain (\<lambda>stored. Api_name stored \<noteq> name) v) name"
    by (auto simp: already_contains_def retain_def Let_def)
  moreover have "length (apis (retain (\<lambda>stored. Api_name stored \<noteq> name) v)) \<le> length (apis v)"
    by (simp add: retain_def Let_def)
  ultimately show ?case using 2(1,2) by simp
next
  case 3
  then show ?case by (auto dest: take_displaced_length)
qed simp

declare apivec_push.simps [simp del]

fun apivec_extend ::
    "('td, 'st, 'fn, 'sub) api_vec \<Rightarrow> ('td, 'st, 'fn, 'sub) api list \<Rightarrow>
     ('td, 'st, 'fn, 'sub) api_vec option" where
  "apivec_extend v [] = Some v"
| "apivec_extend v (api # rest) =
     (case apivec_push v api of None \<Rightarrow> None | Some v' \<Rightarrow> apivec_extend v' rest)"

definition apivec_append ::
    "('td, 'st, 'fn, 'sub) api_vec \<Rightarrow> ('td, 'st, 'fn, 'sub) api_vec \<Rightarrow>
     ('td, 'st, 'fn, 'sub) api_vec option" where
  "apivec_append v extra = apivec_extend v (apis extra)"

definition apivec_from_iter ::
    "('td, 'st, 'fn, 'sub) api list \<Rightarrow> ('td, 'st, 'fn, 'sub) api_vec option" where
  "apivec_from_iter it = apivec_extend ApiVec_new it"

text \<open>Items no name of which is taken are filed in order, with nothing displaced or replaced.\<close>

lemma extend_fresh:
  "distinct (map Api_name l) \<Longrightarrow> \<forall>api \<in> set l. \<not> already_contains v (Api_name api) \<Longrightarrow>
     apivec_extend v l = Some (fold (\<lambda>api v. apivec_insert v api) l v)"
proof (induction l arbitrary: v)
  case (Cons api l)
  have "\<forall>x \<in> set l. \<not> already_contains (apivec_insert v api) (Api_name x)"
    using Cons.prems by (auto simp: already_contains_def apivec_insert_def image_iff)
  with Cons show ?case by (simp add: apivec_push.simps)
qed simp

lemma fold_insert_apis [simp]: "apis (fold (\<lambda>api v. apivec_insert v api) l v) = apis v @ l"
  by (induction l arbitrary: v) (simp_all add: apivec_insert_def)

lemma collect_distinct:
  assumes "distinct (map Api_name l)"
  shows "\<exists>v. apivec_from_iter l = Some v \<and> apis v = l"
  using extend_fresh[OF assms, of ApiVec_new]
  by (simp add: apivec_from_iter_def already_contains_def ApiVec_new_def)

section \<open>The invariant\<close>

text \<open>
  Every API has a name of its own and the index holds exactly those names; every stub remembers
  the function it stands for.
\<close>

definition stub_ok :: "('td, 'st, 'fn, 'sub) api \<Rightarrow> bool" where
  "stub_ok api \<longleftrightarrow> \<not> is_displaced_function api \<or> displaced_function_name api \<noteq> None"

definition apivec_wf :: "('td, 'st, 'fn, 'sub) api_vec \<Rightarrow> bool" where
  "apivec_wf v \<longleftrightarrow>
     distinct (map Api_name (apis v)) \<and> distinct (names v) \<and>
     set (names v) = Api_name ` set (apis v) \<and> (\<forall>api \<in> set (apis v). stub_ok api)"

interpretation collected: named_collection apis Api_name apivec_wf
  by unfold_locales (simp add: apivec_wf_def)

named_theorems apivec_simps \<open>evaluation of the parts of a push\<close>

lemma stub_ok_built [simp]:
  "stub_ok (duplicate_item name)" "stub_ok (displaced_stub name lookup)"
  by (simp_all add: stub_ok_def is_displaced_function_def duplicate_item_def displaced_stub_def
      displaced_function_name_def new_for_displaced_item_def)

lemma names_insert [simp]: "set (names (apivec_insert v api)) = insert (Api_name api) (set (names v))"
  by (simp add: apivec_insert_def)

lemma apis_insert [simp]: "apis (apivec_insert v api) = apis v @ [api]"
  by (simp add: apivec_insert_def)

lemma apis_retain [simp]: "apis (retain f v) = filter f (apis v)"
  by (simp add: retain_def Let_def)

lemma names_retain [simp]: "set (names (retain f v)) = Api_name ` {api \<in> set (apis v). f api}"
  by (simp add: retain_def Let_def)

lemma apivec_wf_new [simp]: "apivec_wf ApiVec_new"
  by (simp add: apivec_wf_def ApiVec_new_def)

lemma apivec_wf_insert:
  "apivec_wf v \<Longrightarrow> \<not> already_contains v (Api_name api) \<Longrightarrow> stub_ok api \<Longrightarrow>
   apivec_wf (apivec_insert v api)"
  by (auto simp: apivec_wf_def apivec_insert_def already_contains_def)

lemma apivec_wf_retain: "apivec_wf v \<Longrightarrow> apivec_wf (retain f v)"
  by (auto simp: apivec_wf_def retain_def Let_def distinct_map_filter)

interpretation numbered: numbered_names "numbered_candidate base"
  by unfold_locales (simp add: numbered_candidate_def QualifiedName_new_def make_ident_def)

lemma first_free_name_fresh:
  "\<exists>n. first_free_name v base = Some n \<and> \<not> already_contains v n"
proof (cases "already_contains v base")
  case True
  have "finite {n. already_contains v n}" by (simp add: already_contains_def)
  from numbered.search_ends[OF this, of 1 base] True show ?thesis
    by (auto simp: first_free_name_def)
qed (simp add: first_free_name_def)

lemma record_displaced_ok:
  "\<exists>filed. \<not> already_contains v filed \<and>
     record_displaced_function v hidden =
       Some (apivec_insert v (displaced_stub filed (get_final_item hidden)))"
  using first_free_name_fresh[of v "QualifiedName_new (get_namespace hidden)
      (make_ident (get_final_item hidden @ DISPLACED_SUFFIX))"]
  by (auto simp: record_displaced_function_def Let_def)

lemma record_displaced_wf:
  assumes "apivec_wf v"
  shows "\<exists>v'. record_displaced_function v hidden = Some v' \<and> apivec_wf v' \<and>
     set (names v) \<subseteq> set (names v')"
  using record_displaced_ok[of v hidden] assms by (auto intro!: apivec_wf_insert)

lemma refile_wf:
  assumes "apivec_wf v" and "displaced_function_name stub \<noteq> None"
  shows "\<exists>v'. refile_displaced_function v stub = Some v' \<and> apivec_wf v' \<and>
     set (names v) \<subseteq> set (names v')"
  using assms record_displaced_wf[OF assms(1)] by (auto simp: refile_displaced_function_def)

lemma take_displaced_wf:
  assumes "apivec_wf v" and "take_displaced_function v name = Some (stub, v')"
  shows "apivec_wf v' \<and> displaced_function_name stub \<noteq> None \<and> \<not> already_contains v' name \<and>
     set (names v) = insert name (set (names v'))"
proof -
  let ?p = "\<lambda>api. \<not> (Api_name api = name \<and> is_displaced_function api)"
  from assms(2) obtain rest where rest: "dropWhile ?p (apis v) = stub # rest"
    and v': "v' = \<lparr>apis = takeWhile ?p (apis v) @ rest, names = removeAll (Api_name stub) (names v)\<rparr>"
    by (auto simp: take_displaced_function_def Let_def split: list.splits)
  have split: "apis v = takeWhile ?p (apis v) @ stub # rest"
    using rest takeWhile_dropWhile_id[of ?p "apis v"] by simp
  have stub: "Api_name stub = name" "is_displaced_function stub"
    using rest by (auto simp: dropWhile_eq_Cons_conv)
  have mem: "stub \<in> set (apis v)" by (subst split) simp
  have "stub_ok stub" using mem assms(1) by (auto simp: apivec_wf_def)
  then have known: "displaced_function_name stub \<noteq> None" using stub(2) by (simp add: stub_ok_def)
  have dist: "distinct (map Api_name (takeWhile ?p (apis v) @ stub # rest))"
    using assms(1) split by (simp add: apivec_wf_def)
  have set_apis: "set (apis v) = insert stub (set (apis v'))"
    by (subst split) (auto simp: v')
  from assms(1) have names_v: "set (names v) = Api_name ` set (apis v)" "distinct (names v)"
    by (simp_all add: apivec_wf_def)
  have fresh: "name \<notin> Api_name ` set (apis v')" using dist stub(1) by (auto simp: v')
  then have names_v': "set (names v') = Api_name ` set (apis v')"
    using names_v set_apis stub(1) by (auto simp: v')
  have "distinct (map Api_name (apis v'))" using dist by (simp add: v')
  moreover have "distinct (names v')" using names_v(2) by (simp add: v' distinct_removeAll)
  moreover have "\<forall>api \<in> set (apis v'). stub_ok api"
    using assms(1) set_apis by (simp add: apivec_wf_def)
  ultimately have "apivec_wf v'" using names_v' by (simp add: apivec_wf_def)
  moreover have "set (names v) = insert name (set (names v'))"
    using names_v(1) names_v' set_apis stub(1) by simp
  ultimately show ?thesis using known fresh names_v' by (simp add: already_contains_def)
qed

lemma apivec_push_wf:
  assumes "apivec_wf v" and "stub_ok api"
  shows "\<exists>v'. apivec_push v api = Some v' \<and> apivec_wf v' \<and>
     insert (Api_name api) (set (names v)) \<subseteq> set (names v')"
  using assms
proof (induction v api rule: apivec_push.induct)
  case (1 v api)
  let ?name = "Api_name api"
  let ?cleared = "retain (\<lambda>stored. Api_name stored \<noteq> ?name) v"
  have cleared: "apivec_wf ?cleared" "\<not> already_contains ?cleared ?name"
    using 1(3) by (auto intro: apivec_wf_retain simp: already_contains_def)
  have cleared_names: "insert ?name (set (names v)) \<subseteq> insert ?name (set (names ?cleared))"
    using 1(3) by (auto simp: apivec_wf_def)
  consider (fresh) "\<not> already_contains v ?name"
    | (stub) "already_contains v ?name" "is_displaced_function api"
    | (taken) stub v' where "already_contains v ?name" "\<not> is_displaced_function api"
        "take_displaced_function v ?name = Some (stub, v')"
    | (clash) "already_contains v ?name" "\<not> is_displaced_function api"
        "take_displaced_function v ?name = None"
    by (cases "take_displaced_function v ?name") auto
  then show ?case
  proof cases
    case fresh
    then show ?thesis using 1(3,4) by (subst apivec_push.simps) (auto intro: apivec_wf_insert)
  next
    case stub
    then have "displaced_function_name api \<noteq> None" using 1(4) by (simp add: stub_ok_def)
    from refile_wf[OF 1(3) this] stub show ?thesis
      by (subst apivec_push.simps) (auto simp: already_contains_def)
  next
    case (taken stub v')
    note kept = take_displaced_wf[OF 1(3) taken(3)]
    from 1(2)[OF refl _ taken(2) taken(3) refl] taken(1) kept 1(4)
    obtain w where w: "apivec_push v' api = Some w" "apivec_wf w"
      "insert ?name (set (names v')) \<subseteq> set (names w)" by auto
    from refile_wf[OF w(2)] kept obtain x where x: "refile_displaced_function w stub = Some x"
      "apivec_wf x" "set (names w) \<subseteq> set (names x)" by blast
    have "apivec_push v api = Some x"
      using taken w(1) x(1) by (subst apivec_push.simps) simp
    with x w kept show ?thesis by auto
  next
    case clash
    let ?hides = "is_function api \<and> contains_unshadowable_type v ?name"
    let ?hidden = "is_unshadowable_type api \<and> contains_function v ?name"
    consider (drop) "discard_duplicates api"
      | (hidden) "\<not> discard_duplicates api" "?hidden"
      | (hides) "\<not> discard_duplicates api" "\<not> ?hidden" "?hides"
      | (dup) "\<not> discard_duplicates api" "\<not> ?hidden" "\<not> ?hides" by blast
    then show ?thesis
    proof cases
      case drop
      then show ?thesis using clash 1(3)
        by (subst apivec_push.simps) (auto simp: already_contains_def)
    next
      case hidden
      have "apivec_wf (apivec_insert ?cleared api)"
        using cleared 1(4) by (rule apivec_wf_insert)
      from record_displaced_wf[OF this, of ?name] obtain w where
        w: "record_displaced_function (apivec_insert ?cleared api) ?name = Some w" "apivec_wf w"
          "insert ?name (set (names ?cleared)) \<subseteq> set (names w)" by auto
      have "apivec_push v api = Some w"
        using hidden clash w(1) by (subst apivec_push.simps) auto
      with w(2) subset_trans[OF cleared_names w(3)] show ?thesis by blast
    next
      case hides
      from record_displaced_wf[OF 1(3), of ?name] hides clash show ?thesis
        by (subst apivec_push.simps) (auto simp: already_contains_def)
    next
      case dup
      have "apivec_push v api = apivec_push ?cleared (duplicate_item ?name)"
        using clash dup by (subst apivec_push.simps) (auto simp: Let_def)
      also have "\<dots> = Some (apivec_insert ?cleared (duplicate_item ?name))"
        using cleared(2) by (subst apivec_push.simps) (simp add: Let_def)
      finally show ?thesis
        using apivec_wf_insert[OF cleared(1), of "duplicate_item ?name"] cleared(2) cleared_names
        by auto
    qed
  qed
qed

lemma apivec_extend_wf:
  assumes "apivec_wf v" and "\<forall>api \<in> set extra. stub_ok api"
  shows "\<exists>v'. apivec_extend v extra = Some v' \<and> apivec_wf v' \<and>
     set (names v) \<union> Api_name ` set extra \<subseteq> set (names v')"
  using assms
proof (induction extra arbitrary: v)
  case (Cons api extra)
  from apivec_push_wf[OF Cons.prems(1), of api] Cons.prems(2) obtain w where
    w: "apivec_push v api = Some w" "apivec_wf w" "insert (Api_name api) (set (names v)) \<subseteq> set (names w)"
    by auto
  from Cons.IH[OF w(2)] Cons.prems(2) w show ?case by auto
qed auto

section \<open>What may come to stand in a list\<close>

text \<open>
  A push adds its item and notes of its own making and nothing else, so what holds of every note and of what
  is pushed holds of the list.
\<close>

definition notes_ok :: "(('td, 'st, 'fn, 'sub) api \<Rightarrow> bool) \<Rightarrow> bool" where
  "notes_ok P \<longleftrightarrow> (\<forall>name err ctx. P (Api_IgnoredItem name err ctx))"

lemma notes_ok_built: "notes_ok P \<Longrightarrow> P (duplicate_item name)" "notes_ok P \<Longrightarrow> P (displaced_stub name lookup)"
  by (simp_all add: notes_ok_def duplicate_item_def displaced_stub_def)

lemma record_displaced_all:
  assumes "record_displaced_function v hidden = Some w" and "notes_ok P" and "list_all P (apis v)"
  shows "list_all P (apis w)"
  using assms notes_ok_built(2)[OF assms(2)]
  by (auto simp: record_displaced_function_def Let_def split: option.splits)

lemma refile_all:
  assumes "refile_displaced_function v stub = Some w" and "notes_ok P" and "list_all P (apis v)"
  shows "list_all P (apis w)"
  using assms record_displaced_all by (auto simp: refile_displaced_function_def split: option.splits)

lemma take_displaced_all:
  assumes "take_displaced_function v name = Some (stub, w)" and "list_all P (apis v)"
  shows "list_all P (apis w)"
proof -
  let ?p = "\<lambda>api. \<not> (Api_name api = name \<and> is_displaced_function api)"
  from assms(1) obtain rest where rest: "dropWhile ?p (apis v) = stub # rest"
    and w: "apis w = takeWhile ?p (apis v) @ rest"
    by (auto simp: take_displaced_function_def Let_def split: list.splits)
  have "apis v = takeWhile ?p (apis v) @ stub # rest" using rest takeWhile_dropWhile_id[of ?p "apis v"] by simp
  with assms(2) have "list_all P (takeWhile ?p (apis v) @ stub # rest)" by simp
  then show ?thesis by (simp add: w)
qed

lemma apivec_push_all:
  assumes "apivec_push v api = Some w" and "notes_ok P" and "list_all P (apis v)" and "P api"
  shows "list_all P (apis w)"
  using assms
proof (induction v api arbitrary: w rule: apivec_push.induct)
  case (1 v api)
  let ?name = "Api_name api"
  note push = 1(3)[unfolded apivec_push.simps[of v api] Let_def]
  have kept: "list_all P (filter Q (apis v))" for Q using 1(5) by (auto simp: list_all_iff)
  consider (fresh) "\<not> already_contains v ?name"
    | (stub) "already_contains v ?name" "is_displaced_function api"
    | (taken) stub v' where "already_contains v ?name" "\<not> is_displaced_function api"
        "take_displaced_function v ?name = Some (stub, v')"
    | (clash) "already_contains v ?name" "\<not> is_displaced_function api"
        "take_displaced_function v ?name = None"
    by (cases "take_displaced_function v ?name") auto
  then show ?case
  proof cases
    case (taken stub v')
    with push obtain x where x: "apivec_push v' api = Some x" "refile_displaced_function x stub = Some w"
      by (auto split: option.splits)
    from 1(2)[OF refl _ taken(2,3) refl x(1) 1(4) take_displaced_all[OF taken(3) 1(5)] 1(6)] taken(1)
    show ?thesis using refile_all[OF x(2) 1(4)] by simp
  next
    case clash
    let ?dup = "duplicate_item ?name"
    have "list_all P (apis w)" if "apivec_push (retain (\<lambda>stored. Api_name stored \<noteq> ?name) v) ?dup = Some w"
      using that kept notes_ok_built(1)[OF 1(4)]
      by (subst (asm) apivec_push.simps) (auto simp: already_contains_def Let_def split: if_splits)
    with push clash kept 1(4,5,6) show ?thesis
      by (auto split: if_splits dest: record_displaced_all[where P = P])
  qed (use push 1(4,5,6) in \<open>auto dest: refile_all\<close>)
qed

lemma apivec_extend_all:
  assumes "apivec_extend v l = Some w" and "notes_ok P" and "list_all P (apis v)" and "list_all P l"
  shows "list_all P (apis w)"
  using assms by (induction l arbitrary: v) (auto dest: apivec_push_all split: option.splits)

section \<open>Properties\<close>

text \<open>
  C1: pushing never panics and keeps every API's name its own. Whatever is pushed onto a
  well-formed list, the result is a well-formed list in which the name pushed and every name
  there was before still stand for something.
\<close>

theorem push_keeps_names_unique:
  assumes "apivec_wf v" and "stub_ok api"
  shows "\<exists>v'. apivec_push v api = Some v' \<and> distinct (map Api_name (apis v')) \<and> apivec_wf v' \<and>
    Api_name api \<in> Api_name ` set (apis v') \<and>
    Api_name ` set (apis v) \<subseteq> Api_name ` set (apis v')"
  using apivec_push_wf[OF assms] assms(1) by (auto simp: apivec_wf_def)

definition sample_name :: "string \<Rightarrow> api_name" where
  "sample_name i = new_from_qualified_name (QualifiedName [''ns''] i)"

definition sample_enum :: "string \<Rightarrow> (unit, unit, unit, unit) api" where
  "sample_enum i = Api_Enum (sample_name i) \<lparr>ie_ident = i, ie_variants = [], ie_tokens = ''''\<rparr>"

lemma push_keeps_names_unique_witness:
  "\<exists>v'. apivec_push (apivec_insert ApiVec_new (sample_enum ''A'')) (sample_enum ''A'') = Some v' \<and>
     distinct (map Api_name (apis v'))"
proof -
  have "stub_ok (sample_enum ''A'')"
    by (simp add: stub_ok_def is_displaced_function_def sample_enum_def)
  moreover from this have "apivec_wf (apivec_insert ApiVec_new (sample_enum ''A''))"
    by (intro apivec_wf_insert apivec_wf_new) (simp_all add: already_contains_def ApiVec_new_def)
  ultimately show ?thesis using push_keeps_names_unique by blast
qed

lemma take_displaced_none:
  "\<forall>api \<in> set (apis v). Api_name api = name \<longrightarrow> \<not> is_displaced_function api \<Longrightarrow>
   take_displaced_function v name = None"
proof -
  assume none: "\<forall>api \<in> set (apis v). Api_name api = name \<longrightarrow> \<not> is_displaced_function api"
  then have "dropWhile (\<lambda>api. \<not> (Api_name api = name \<and> is_displaced_function api)) (apis v) = []"
    by (auto simp: dropWhile_eq_Nil_conv)
  then show ?thesis by (simp only: take_displaced_function_def Let_def list.case)
qed

lemma record_displaced_same_names:
  assumes "set (names v) = set (names w)" and "apis v = apis w"
  shows "map_option apis (record_displaced_function v hidden) =
    map_option apis (record_displaced_function w hidden)"
proof -
  have "already_contains v = already_contains w"
    using assms(1) by (auto simp: already_contains_def)
  then show ?thesis
    using assms(2)
    by (simp add: record_displaced_function_def first_free_name_def Let_def split: option.splits)
qed

text \<open>
  A type keeps its name from a function of the same name whichever of the two arrives first.
  Both orders give the very same list: what was there, the type, and a stub for the function
  under a free name of its own.
\<close>

theorem type_outlives_function_either_order:
  assumes "apivec_wf v" and "\<not> already_contains v (Api_name ty)"
    and "is_unshadowable_type ty" and "is_function fn" and "Api_name fn = Api_name ty"
  shows "map_option apis (apivec_extend v [ty, fn]) = map_option apis (apivec_extend v [fn, ty]) \<and>
    (\<exists>filed. \<not> already_contains v filed \<and> filed \<noteq> Api_name ty \<and>
       map_option apis (apivec_extend v [ty, fn]) =
         Some (apis v @ [ty, displaced_stub filed (get_final_item (Api_name ty))]))"
proof -
  let ?n = "Api_name ty"
  have kinds: "\<not> is_displaced_function ty" "\<not> is_displaced_function fn"
    "\<not> discard_duplicates ty" "\<not> discard_duplicates fn" "\<not> is_unshadowable_type fn"
    using assms(3,4)
    by (auto simp: is_displaced_function_def discard_duplicates_def is_unshadowable_type_def
        is_function_def split: api.splits)
  have others: "Api_name api \<noteq> ?n" if "api \<in> set (apis v)" for api
    using that assms(1,2) unfolding apivec_wf_def already_contains_def by (metis imageI)
  let ?v1 = "apivec_insert v ty" and ?rest = "retain (\<lambda>stored. Api_name stored \<noteq> ?n) (apivec_insert v fn)"
  have push_ty: "apivec_push v ty = Some ?v1"
    using assms(2) by (subst apivec_push.simps) (simp add: Let_def)
  have push_fn: "apivec_push v fn = Some (apivec_insert v fn)"
    using assms(2,5) by (subst apivec_push.simps) (simp add: Let_def)
  have "take_displaced_function ?v1 ?n = None" "take_displaced_function (apivec_insert v fn) ?n = None"
    using others kinds by (auto intro!: take_displaced_none)
  then have ty_fn: "apivec_push ?v1 fn = record_displaced_function ?v1 ?n"
    and fn_ty: "apivec_push (apivec_insert v fn) ty =
      record_displaced_function (apivec_insert ?rest ty) ?n"
    using kinds assms(3,4,5)
    by (subst apivec_push.simps, simp add: Let_def already_contains_def
        contains_unshadowable_type_def contains_function_def)+
  have rest: "apis ?rest = apis v" "set (names ?rest) = set (names v)"
    using others assms(1,5) by (auto simp: apivec_wf_def filter_id_conv)
  have "map_option apis (record_displaced_function (apivec_insert ?rest ty) ?n) =
      map_option apis (record_displaced_function ?v1 ?n)"
    by (rule record_displaced_same_names) (use rest in simp_all)
  moreover obtain filed where "\<not> already_contains ?v1 filed"
    "record_displaced_function ?v1 ?n = Some (apivec_insert ?v1 (displaced_stub filed (get_final_item ?n)))"
    using record_displaced_ok by blast
  ultimately show ?thesis
    using push_ty push_fn ty_fn fn_ty
    by (auto simp: already_contains_def split: option.splits intro!: exI[of _ filed])
qed

definition sample_function :: "string \<Rightarrow> (unit, unit, unit, unit) api" where
  "sample_function i = Api_Function (sample_name i)
     \<lparr>fc_provenance = Bindgen, fc_ident = i, fc_doc_attrs = [], fc_inputs = [], fc_variadic = False,
      fc_output = None, fc_vis = '''', fc_virtualness = None, fc_cpp_vis = Public,
      fc_special_member = None, fc_method_kind = None, fc_original_name = None, fc_self_ty = None,
      fc_synthesized_this_type = None, fc_add_to_trait = None, fc_synthetic_cpp = None,
      fc_is_deleted = None, fc_deprecation = None, fc_ref_qualifier = RefQualifier_None,
      fc_exception_specification = ExSpec_None\<rparr> ()"

lemma type_outlives_function_either_order_witness:
  "map_option apis (apivec_extend ApiVec_new [sample_enum ''stat'', sample_function ''stat'']) =
   map_option apis (apivec_extend ApiVec_new [sample_function ''stat'', sample_enum ''stat''])"
proof -
  have "is_unshadowable_type (sample_enum ''stat'')" "is_function (sample_function ''stat'')"
    "Api_name (sample_function ''stat'') = Api_name (sample_enum ''stat'')"
    by (simp_all add: is_unshadowable_type_def is_function_def sample_enum_def sample_function_def
        Api_name_def)
  moreover have "\<not> already_contains ApiVec_new (Api_name (sample_enum ''stat''))"
    by (simp add: already_contains_def ApiVec_new_def)
  ultimately show ?thesis using type_outlives_function_either_order[OF apivec_wf_new] by blast
qed

text \<open>
  Collecting any sequence of items into a list never panics and leaves no name behind: each
  item's name stands for exactly one entry of the result.
\<close>

theorem collected_names_unique:
  assumes "list_all stub_ok items"
  shows "\<exists>v. apivec_from_iter items = Some v \<and> distinct (map Api_name (apis v)) \<and>
    Api_name ` set items \<subseteq> Api_name ` set (apis v)"
  using apivec_extend_wf[OF apivec_wf_new, of items] assms
  by (auto simp: apivec_from_iter_def list_all_iff apivec_wf_def)

lemma collected_names_unique_witness:
  "\<exists>v. apivec_from_iter [sample_enum ''A'', sample_enum ''B'', sample_enum ''A''] = Some v \<and>
     distinct (map Api_name (apis v))"
proof -
  have "list_all stub_ok [sample_enum ''A'', sample_enum ''B'', sample_enum ''A'']"
    by (simp add: stub_ok_def is_displaced_function_def sample_enum_def)
  from collected_names_unique[OF this] show ?thesis by blast
qed

end
