(* ===== verification/DepthFirst.thy ===== *)
theory DepthFirst imports ApiVec "HOL-Library.Multiset" begin

text \<open>
  Depth-first order over fields and bases (\<^verbatim>\<open>conversion/analysis/depth_first.rs\<close>): an iterator that
  rotates a queue of items until it finds one none of whose fields and bases are still to come, and
  panics when a whole rotation finds none. The trait \<^verbatim>\<open>HasFieldsAndBases\<close> is the pair of functions
  \<open>name\<close> and \<open>deps\<close>.
\<close>

section \<open>The iterator\<close>

datatype 'a next_item = Finished | Next 'a "'a list" | Circular

text \<open>
  One call of \<^verbatim>\<open>next\<close>. The deque is \<open>todo @ skipped\<close>: a candidate that has to wait goes from its
  front to its back, and the loop panics when the name it started from is in front again.
\<close>

fun next_loop ::
    "('a \<Rightarrow> 'n) \<Rightarrow> ('a \<Rightarrow> 'n list) \<Rightarrow> 'n list \<Rightarrow> 'n \<Rightarrow> 'a list \<Rightarrow> 'a list \<Rightarrow> 'a next_item" where
  "next_loop name deps yet_to_do first_candidate [] skipped = Finished"
| "next_loop name deps yet_to_do first_candidate (candidate # todo) skipped =
     (if \<not> list_ex (\<lambda>d. d \<in> set yet_to_do) (deps candidate) then Next candidate (todo @ skipped)
      else if name (hd (todo @ skipped @ [candidate])) = first_candidate then Circular
      else next_loop name deps yet_to_do first_candidate todo (skipped @ [candidate]))"

definition depth_first_next ::
    "('a \<Rightarrow> 'n) \<Rightarrow> ('a \<Rightarrow> 'n list) \<Rightarrow> 'n list \<Rightarrow> 'a list \<Rightarrow> 'a next_item" where
  "depth_first_next name deps yet_to_do queue =
     (case queue of
        [] \<Rightarrow> Finished
      | front # _ \<Rightarrow> next_loop name deps yet_to_do (name front) queue [])"

text \<open>Where a rotation started: the item it began with is the first of the queue or of the skipped.\<close>

abbreviation rotating :: "('a \<Rightarrow> 'n) \<Rightarrow> 'n \<Rightarrow> 'a list \<Rightarrow> 'a list \<Rightarrow> bool" where
  "rotating name first_candidate todo skipped \<equiv> name (hd (skipped @ todo)) = first_candidate"

lemma next_loop_takes_perm:
  "next_loop name deps yet first todo skipped = Next x rest \<Longrightarrow>
     mset todo + mset skipped = add_mset x (mset rest)"
proof (induction todo arbitrary: skipped)
  case (Cons c todo)
  then show ?case by (fastforce split: if_splits)
qed simp

lemma next_loop_takes_free:
  "next_loop name deps yet first todo skipped = Next x rest \<Longrightarrow> \<forall>d \<in> set (deps x). d \<notin> set yet"
proof (induction todo arbitrary: skipped)
  case (Cons c todo)
  then show ?case by (cases "list_ex (\<lambda>d. d \<in> set yet) (deps c)") (auto simp: list_ex_iff split: if_splits)
qed simp

lemma next_loop_finished:
  "rotating name first todo skipped \<Longrightarrow> todo \<noteq> [] \<Longrightarrow>
     next_loop name deps yet first todo skipped \<noteq> Finished"
proof (induction todo arbitrary: skipped)
  case (Cons c todo)
  show ?case
  proof (cases "todo = []")
    case True
    with Cons.prems show ?thesis by (auto simp: hd_append split: if_splits)
  next
    case False
    have "rotating name first todo (skipped @ [c])" using Cons.prems by (cases skipped) auto
    with Cons.IH[OF _ False] show ?thesis by simp
  qed
qed simp

lemma next_finished [simp]: "depth_first_next name deps yet queue = Finished \<longleftrightarrow> queue = []"
proof (cases queue)
  case (Cons c rest)
  then show ?thesis using next_loop_finished[where name = name and deps = deps and todo = queue and skipped = "[]"]
    by (simp add: depth_first_next_def del: next_loop.simps)
qed (simp add: depth_first_next_def)

lemma next_takes:
  assumes "depth_first_next name deps yet queue = Next x rest"
  shows "mset queue = add_mset x (mset rest)" and "\<forall>d \<in> set (deps x). d \<notin> set yet"
proof -
  from assms obtain first where "next_loop name deps yet first queue [] = Next x rest"
    by (cases queue) (auto simp: depth_first_next_def simp del: next_loop.simps)
  from next_loop_takes_perm[OF this] next_loop_takes_free[OF this]
  show "mset queue = add_mset x (mset rest)" "\<forall>d \<in> set (deps x). d \<notin> set yet" by simp_all
qed

lemma next_shorter:
  "depth_first_next name deps yet queue = Next x rest \<Longrightarrow> length rest < length queue"
  using next_takes(1)[of name deps yet queue x rest] by (metis lessI size_add_mset size_mset)

text \<open>Running the iterator to its end; \<open>None\<close> is the panic.\<close>

function depth_first_iter ::
    "('a \<Rightarrow> 'n) \<Rightarrow> ('a \<Rightarrow> 'n list) \<Rightarrow> 'n list \<Rightarrow> 'a list \<Rightarrow> 'a list option" where
  "depth_first_iter name deps yet_to_do queue =
     (case depth_first_next name deps yet_to_do queue of
        Finished \<Rightarrow> Some []
      | Circular \<Rightarrow> None
      | Next x rest \<Rightarrow>
          map_option (Cons x) (depth_first_iter name deps (removeAll (name x) yet_to_do) rest))"
  by pat_completeness auto

termination depth_first_iter
  by (relation "measure (\<lambda>(name, deps, yet, queue). length queue)") (auto intro: next_shorter)

definition fields_and_bases_first :: "('a \<Rightarrow> 'n) \<Rightarrow> ('a \<Rightarrow> 'n list) \<Rightarrow> 'a list \<Rightarrow> 'a list option" where
  "fields_and_bases_first name deps inputs =
     depth_first_iter name deps (remdups (map name inputs)) inputs"

declare depth_first_iter.simps [simp del]

section \<open>What the order is\<close>

text \<open>Each item comes after whatever it holds or inherits from that is among the items.\<close>

fun deps_first :: "('a \<Rightarrow> 'n) \<Rightarrow> ('a \<Rightarrow> 'n list) \<Rightarrow> 'n set \<Rightarrow> 'a list \<Rightarrow> bool" where
  "deps_first name deps waiting [] = True"
| "deps_first name deps waiting (x # xs) =
     (set (deps x) \<inter> waiting = {} \<and> deps_first name deps (waiting - {name x}) xs)"

lemma iter_order:
  "depth_first_iter name deps yet queue = Some order \<Longrightarrow>
     mset order = mset queue \<and> deps_first name deps (set yet) order"
proof (induction name deps yet queue arbitrary: order rule: depth_first_iter.induct)
  case (1 name deps yet queue)
  show ?case
  proof (cases "depth_first_next name deps yet queue")
    case Finished
    with "1.prems" show ?thesis by (simp add: depth_first_iter.simps)
  next
    case (Next x rest)
    from "1.prems" Next obtain order' where o: "order = x # order'"
      "depth_first_iter name deps (removeAll (name x) yet) rest = Some order'"
      by (subst (asm) depth_first_iter.simps) auto
    from "1.IH"[OF Next o(2)] next_takes[OF Next] o(1) show ?thesis by auto
  next
    case Circular
    with "1.prems" show ?thesis by (simp add: depth_first_iter.simps)
  qed
qed

lemma deps_first_take:
  assumes "deps_first name deps waiting order" and "i < length order" and "d \<in> set (deps (order ! i))"
    and "d \<in> waiting"
  shows "d \<in> name ` set (take i order)"
  using assms
proof (induction name deps waiting order arbitrary: i rule: deps_first.induct)
  case (2 name deps waiting x xs)
  show ?case
  proof (cases i)
    case 0
    with "2.prems" show ?thesis by auto
  next
    case (Suc k)
    with "2.IH"[of k] "2.prems" show ?thesis by auto
  qed
qed simp

lemma deps_first_rank:
  assumes "deps_first name deps waiting order" and "name ` set order \<subseteq> waiting"
    and "distinct (map name order)"
  shows "\<exists>rank :: 'n \<Rightarrow> nat. \<forall>x \<in> set order. \<forall>d \<in> set (deps x).
           d \<in> waiting \<longrightarrow> rank d < rank (name (x::'a))"
  using assms
proof (induction name deps waiting order rule: deps_first.induct)
  case (2 name deps waiting x xs)
  then obtain rank :: "'n \<Rightarrow> nat" where rank: "\<forall>y \<in> set xs. \<forall>d \<in> set (deps y).
      d \<in> waiting - {name x} \<longrightarrow> rank d < rank (name y)" by auto
  let ?rank = "\<lambda>n. if n = name x then 0 else Suc (rank n)"
  have "?rank d < ?rank (name y)"
    if "y \<in> set (x # xs)" "d \<in> set (deps y)" "d \<in> waiting" for y d
  proof -
    from that "2.prems"(1) have y: "y \<in> set xs" by auto
    have "name x \<notin> name ` set xs" using "2.prems"(3) by simp
    with y have "name y \<noteq> name x" by (metis imageI)
    moreover have "d = name x \<or> rank d < rank (name y)" using rank y that(2,3) by blast
    ultimately show ?thesis by auto
  qed
  then show ?case by (intro exI[of _ ?rank] ballI impI)
qed simp

text \<open>Only a queue every item of which waits for another makes a whole rotation.\<close>

lemma next_loop_circular:
  "next_loop name deps yet first todo skipped = Circular \<Longrightarrow> rotating name first todo skipped \<Longrightarrow>
     distinct (map name (skipped @ todo)) \<Longrightarrow> x \<in> set todo \<Longrightarrow> \<exists>d \<in> set (deps x). d \<in> set yet"
proof (induction todo arbitrary: skipped)
  case (Cons c todo)
  have blocked: "list_ex (\<lambda>d. d \<in> set yet) (deps c)" using Cons.prems(1) by (auto split: if_splits)
  show ?case
  proof (cases "x = c")
    case True
    with blocked show ?thesis by (auto simp: list_ex_iff)
  next
    case False
    with Cons.prems(4) have x: "x \<in> set todo" by simp
    have rot: "rotating name first todo (skipped @ [c])" using Cons.prems(2) by (cases skipped) auto
    have "name (hd (todo @ skipped @ [c])) \<noteq> first"
      using x Cons.prems(2,3) by (cases todo; cases skipped) auto
    with blocked Cons.prems(1) have "next_loop name deps yet first todo (skipped @ [c]) = Circular"
      by simp
    from Cons.IH[OF this rot _ x] Cons.prems(3) show ?thesis by auto
  qed
qed simp

lemma iter_completes:
  fixes rank :: "'n \<Rightarrow> nat"
  assumes "distinct (map name queue)" and "set yet = name ` set queue"
    and "\<forall>x \<in> set queue. \<forall>d \<in> set (deps x). d \<in> name ` set queue \<longrightarrow> rank d < rank (name x)"
  shows "depth_first_iter name deps yet queue \<noteq> None"
  using assms
proof (induction name deps yet queue rule: depth_first_iter.induct)
  case (1 name deps yet queue)
  show ?case
  proof (cases "depth_first_next name deps yet queue")
    case Finished
    then show ?thesis by (simp add: depth_first_iter.simps depth_first_next_def)
  next
    case (Next x rest)
    note perm = next_takes(1)[OF Next]
    have queue: "set queue = insert x (set rest)" using perm by (metis set_mset_add_mset_insert set_mset_mset)
    have "mset (map name queue) = add_mset (name x) (mset (map name rest))" using perm by simp
    with "1.prems"(1) have fresh: "distinct (map name rest)" "name x \<notin> name ` set rest"
      by (metis distinct.simps(2) mset.simps(2) mset_eq_imp_distinct_iff set_map)+
    have "depth_first_iter name deps (removeAll (name x) yet) rest \<noteq> None"
      using fresh "1.prems" queue by (intro "1.IH"[OF Next]) auto
    with Next show ?thesis by (subst depth_first_iter.simps) simp
  next
    case Circular
    then have "queue \<noteq> []" by (auto simp: depth_first_next_def)
    define low where "low = arg_min_list (rank \<circ> name) queue"
    have low: "low \<in> set queue" "\<forall>y \<in> set queue. rank (name low) \<le> rank (name y)"
      using \<open>queue \<noteq> []\<close> arg_min_list_in[of queue] f_arg_min_list_f[of queue "rank \<circ> name"]
      by (auto simp: low_def)
    from Circular have "next_loop name deps yet (name (hd queue)) queue [] = Circular"
      by (cases queue) (auto simp: depth_first_next_def simp del: next_loop.simps)
    from next_loop_circular[OF this _ _ low(1)] "1.prems"(1)
    obtain d where "d \<in> set (deps low)" "d \<in> set yet" by auto
    with "1.prems"(2,3) low show ?thesis by (metis imageE leD)
  qed
qed


section \<open>Over a collection whose items have names of their own\<close>

text \<open>
  The iterator tells a whole rotation by the name in front, which is sound only where names are
  unique; that is what the collections it is given promise.
\<close>

context named_collection begin

lemma order_exists:
  assumes "ok v"
  shows "fields_and_bases_first name deps (items v) \<noteq> None \<longleftrightarrow>
    (\<exists>rank :: 'n \<Rightarrow> nat. \<forall>x \<in> set (items v). \<forall>d \<in> set (deps x).
       d \<in> name ` set (items v) \<longrightarrow> rank d < rank (name x))" (is "?runs \<longleftrightarrow> ?acyclic")
proof
  assume ?runs
  then obtain order where
    "depth_first_iter name deps (remdups (map name (items v))) (items v) = Some order"
    by (auto simp: fields_and_bases_first_def)
  from iter_order[OF this] have perm: "mset order = mset (items v)"
    and order: "deps_first name deps (name ` set (items v)) order" by simp_all
  from perm have items: "set order = set (items v)" by (metis set_mset_mset)
  from perm unique[OF assms] have "distinct (map name order)"
    by (metis mset_eq_imp_distinct_iff mset_map)
  from deps_first_rank[OF order _ this] items show ?acyclic by simp
next
  assume ?acyclic
  then show ?runs using iter_completes[of name "items v"] unique[OF assms]
    by (auto simp: fields_and_bases_first_def)
qed

end

section \<open>Properties\<close>

text \<open>
  An order the iterator ends with is the items it was given, each once, and every item comes
  after the items it holds or inherits from; a name nothing here has is no constraint.
\<close>

theorem order_respects_dependencies:
  assumes "fields_and_bases_first name deps inputs = Some order"
  shows "mset order = mset inputs \<and>
    (\<forall>i < length order. \<forall>d \<in> set (deps (order ! i)).
       d \<in> name ` set inputs \<longrightarrow> d \<in> name ` set (take i order))"
proof -
  from assms have "depth_first_iter name deps (remdups (map name inputs)) inputs = Some order"
    by (simp add: fields_and_bases_first_def)
  from iter_order[OF this] deps_first_take[of name deps "name ` set inputs" order]
  show ?thesis by simp
qed

definition sample_holdings :: "(string \<times> string list) list" where
  "sample_holdings = [(''a'', []), (''b'', [''a'', ''c'']), (''c'', [''a''])]"

lemma sample_order:
  "fields_and_bases_first fst snd sample_holdings =
     Some [(''a'', []), (''c'', [''a'']), (''b'', [''a'', ''c''])]"
  by (simp add: fields_and_bases_first_def sample_holdings_def depth_first_iter.simps
      depth_first_next_def)

lemma order_respects_dependencies_witness:
  "mset [(''a'', []), (''c'', [''a'']), (''b'', [''a'', ''c''])] = mset sample_holdings"
  using order_respects_dependencies[OF sample_order] by blast

text \<open>
  C25: the panic means what it says. Over a list of APIs each with a name of its own, the iterator
  runs to its end exactly when no item holds or inherits from itself by any chain; whatever the
  items' fields and bases, it neither panics without a circle nor runs for ever with one.
\<close>

theorem runs_iff_no_circle:
  assumes "apivec_wf v"
  shows "fields_and_bases_first Api_name deps (apis v) \<noteq> None \<longleftrightarrow>
    (\<exists>rank :: qualified_name \<Rightarrow> nat. \<forall>x \<in> set (apis v). \<forall>d \<in> set (deps x).
       d \<in> Api_name ` set (apis v) \<longrightarrow> rank d < rank (Api_name x))"
  using assms by (rule collected.order_exists)

lemma runs_iff_no_circle_witness:
  "fields_and_bases_first Api_name (\<lambda>x. [Api_name x])
     [sample_enum ''E'' :: (unit, unit, unit, unit) api] = None"
  using runs_iff_no_circle[of "\<lparr>apis = [sample_enum ''E''], names = [Api_name (sample_enum ''E'')]\<rparr>"
      "\<lambda>x. [Api_name x]"]
  by (simp add: apivec_wf_def sample_enum_def stub_ok_def is_displaced_function_def)

end
