(* ===== verification/Pod.thy ===== *)
theory Pod imports DepthFirst begin

text \<open>
  What the type analyses record of a struct and of a typedef (\<^verbatim>\<open>analysis/pod/mod.rs\<close>,
  \<^verbatim>\<open>analysis/tdef.rs\<close>, the \<^verbatim>\<open>DataMember\<close> and \<^verbatim>\<open>UsingDeclaration\<close> of \<^verbatim>\<open>parse_callbacks.rs\<close>), where
  each typedef points, and what the first phase of function analysis depends on. A \<^verbatim>\<open>HashSet\<close> that
  is an \<^verbatim>\<open>IndexSet\<close> is a list in insertion order.
\<close>

section \<open>Structs\<close>

text \<open>\<^verbatim>\<open>TypeKind\<close> of the type converter, which is not the \<open>type_kind\<close> of a struct.\<close>

datatype converted_kind =
    Kind_Regular
  | Kind_Pointer
  | Kind_SubclassHolder ident
  | Kind_Reference
  | Kind_RValueReference
  | Kind_MutableReference

text \<open>What a class holds that it cannot destroy: the container and what it is made of.\<close>

record undestroyable_member =
  um_held :: string
  um_argument :: qualified_name

record field_info =
  fi_name :: "string option"
  fi_ty :: rust_type
  fi_type_kind :: converted_kind
  fi_bindgen_opaque_data :: bool
  fi_is_const :: bool
  fi_is_volatile :: bool
  fi_holds_std_array :: bool
  fi_has_default_initializer :: bool

record data_member =
  dm_name :: "string option"
  dm_cpp_name :: "string option"
  dm_is_public :: bool
  dm_is_const :: bool
  dm_is_volatile :: bool
  dm_is_bitfield :: bool
  dm_has_default_member_initializer :: bool

record using_declaration =
  ud_name :: string
  ud_source_scope :: "qualified_name option"
  ud_visibility :: cpp_visibility

record pod_analysis =
  pa_kind :: type_kind
  pa_bases :: "qualified_name list"
  pa_public_bases :: "qualified_name list"
  pa_has_unnamed_base :: bool
  pa_virtual_bases :: "qualified_name list"
  pa_using_declarations :: "using_declaration list"
  pa_castable_bases :: "qualified_name list"
  pa_field_deps :: "qualified_name list"
  pa_field_definition_deps :: "qualified_name list"
  pa_field_info :: "field_info list"
  pa_bitfields :: "data_member list"
  pa_num_generics :: nat
  pa_in_anonymous_namespace :: bool
  pa_all_fields_converted :: bool

section \<open>Typedefs\<close>

record typedef_analysis =
  ta_kind :: typedef_kind
  ta_target_kind :: converted_kind
  ta_target_is_const :: bool
  ta_target_is_std_array :: bool
  ta_deps :: "qualified_name list"

text \<open>
  A path with no segment is where \<^verbatim>\<open>from_type_path\<close> panics; \<open>None\<close> as a whole is that panic.
\<close>

fun typedef_targets_loop ::
    "(typedef_analysis, 'st, 'fn, 'sub) api list \<Rightarrow> (qualified_name, qualified_name) index_map \<Rightarrow>
     (qualified_name, qualified_name) index_map option" where
  "typedef_targets_loop [] targets = Some targets"
| "typedef_targets_loop (Api_Typedef name item old_tyname analysis # rest) targets =
     (case (case ta_kind analysis of TypedefKind_Type t \<Rightarrow> it_ty t | TypedefKind_Use ty \<Rightarrow> ty) of
        Type_Path typ \<Rightarrow>
          (case from_type_path typ of
             None \<Rightarrow> None
           | Some target \<Rightarrow> typedef_targets_loop rest (imap_insert (an_name name) target targets))
      | _ \<Rightarrow> typedef_targets_loop rest targets)"
| "typedef_targets_loop (api # rest) targets = typedef_targets_loop rest targets"

definition typedef_targets ::
    "(typedef_analysis, 'st, 'fn, 'sub) api_vec \<Rightarrow> (qualified_name, qualified_name) index_map option" where
  "typedef_targets v = typedef_targets_loop (apis v) []"

fun resolve_steps ::
    "nat \<Rightarrow> (qualified_name, qualified_name) index_map \<Rightarrow> qualified_name \<Rightarrow> qualified_name" where
  "resolve_steps 0 targets name = name"
| "resolve_steps (Suc n) targets name =
     (case map_of targets name of
        Some target \<Rightarrow> resolve_steps n targets target
      | None \<Rightarrow> name)"

definition resolve_typedefs ::
    "(qualified_name, qualified_name) index_map \<Rightarrow> qualified_name \<Rightarrow> qualified_name" where
  "resolve_typedefs targets name = resolve_steps (length targets) targets name"

section \<open>Function analysis phases\<close>

type_synonym fn_pre_phase1 = "(typedef_analysis, pod_analysis, fn_analysis, unit) api"

definition field_and_base_deps :: "fn_pre_phase1 \<Rightarrow> qualified_name list" where
  "field_and_base_deps api =
     (case api of
        Api_Struct name details analysis \<Rightarrow> pa_field_definition_deps analysis @ pa_bases analysis
      | _ \<Rightarrow> [])"

section \<open>Typedef chains\<close>

text \<open>A chain that follows some measure down ends within as many steps as there are typedefs.\<close>

fun chain_names :: "nat \<Rightarrow> (qualified_name, qualified_name) index_map \<Rightarrow> qualified_name \<Rightarrow> qualified_name list" where
  "chain_names 0 targets name = []"
| "chain_names (Suc n) targets name =
     (case map_of targets name of Some target \<Rightarrow> name # chain_names n targets target | None \<Rightarrow> [])"

lemma chain_names_aliases: "set (chain_names n targets name) \<subseteq> set (map fst targets)"
proof (induction n arbitrary: name)
  case (Suc n)
  show ?case
  proof (cases "map_of targets name")
    case (Some target)
    then have "name \<in> set (map fst targets)" by (force dest: map_of_SomeD)
    with Some Suc.IH[of target] show ?thesis by simp
  qed simp
qed simp

lemma chain_names_decreasing:
  assumes "\<forall>a b. map_of targets a = Some b \<longrightarrow> rank b < (rank a :: nat)"
  shows "\<forall>x \<in> set (chain_names n targets name). rank x \<le> rank name"
proof (induction n arbitrary: name)
  case (Suc n)
  show ?case
  proof (cases "map_of targets name")
    case (Some target)
    with assms have "rank target < rank name" by blast
    with Some Suc.IH[of target] show ?thesis by fastforce
  qed simp
qed simp

lemma chain_names_distinct:
  assumes "\<forall>a b. map_of targets a = Some b \<longrightarrow> rank b < (rank a :: nat)"
  shows "distinct (chain_names n targets name)"
proof (induction n arbitrary: name)
  case (Suc n)
  show ?case
  proof (cases "map_of targets name")
    case (Some target)
    with assms have "rank target < rank name" by blast
    with chain_names_decreasing[OF assms, of n target]
    have "name \<notin> set (chain_names n targets target)" by auto
    with Some Suc.IH show ?thesis by simp
  qed simp
qed simp

lemma chain_names_full:
  "map_of targets (resolve_steps n targets name) \<noteq> None \<Longrightarrow>
     length (chain_names (Suc n) targets name) = Suc n"
proof (induction n arbitrary: name)
  case (Suc n)
  show ?case
  proof (cases "map_of targets name")
    case (Some target)
    with Suc.prems have "map_of targets (resolve_steps n targets target) \<noteq> None" by simp
    from Suc.IH[OF this] Some show ?thesis by simp
  next
    case None
    with Suc.prems show ?thesis by simp
  qed
qed auto

text \<open>
  A base named by a typedef is asked about by the class the typedef finally names: where no
  chain of typedefs comes back to itself, as in C++, the number of steps \<^verbatim>\<open>resolve_typedefs\<close> allows
  itself is enough, and what it answers with is no typedef.
\<close>

theorem resolved_is_no_alias:
  assumes "\<forall>a b. map_of targets a = Some b \<longrightarrow> rank b < (rank a :: nat)"
  shows "map_of targets (resolve_typedefs targets name) = None"
proof (rule ccontr)
  let ?names = "chain_names (Suc (length targets)) targets name"
  assume "map_of targets (resolve_typedefs targets name) \<noteq> None"
  then have "length ?names = Suc (length targets)"
    by (intro chain_names_full) (simp add: resolve_typedefs_def)
  then have "card (set ?names) = Suc (length targets)"
    using chain_names_distinct[OF assms] by (simp only: distinct_card)
  moreover have "card (set ?names) \<le> card (set (map fst targets))"
    by (rule card_mono[OF _ chain_names_aliases]) simp
  moreover have "card (set (map fst targets)) \<le> length targets" using card_length[of "map fst targets"] by simp
  ultimately show False by simp
qed

lemma resolved_is_no_alias_witness:
  "resolve_typedefs [(QualifiedName [] ''A'', QualifiedName [] ''B''),
                     (QualifiedName [] ''B'', QualifiedName [] ''C'')] (QualifiedName [] ''A'') =
     QualifiedName [] ''C'' \<and>
   map_of [(QualifiedName [] ''A'', QualifiedName [] ''B''),
           (QualifiedName [] ''B'', QualifiedName [] ''C'')] (QualifiedName [] ''C'') = None"
  using resolved_is_no_alias[of "[(QualifiedName [] ''A'', QualifiedName [] ''B''),
      (QualifiedName [] ''B'', QualifiedName [] ''C'')]"
      "\<lambda>q. if q = QualifiedName [] ''A'' then 2 else if q = QualifiedName [] ''B'' then 1 else 0"
      "QualifiedName [] ''A''"]
  by (simp add: resolve_typedefs_def numeral_2_eq_2)

end
