(* ===== verification/Config.thy ===== *)
theory Config
  imports ApiNames
begin

text \<open>
  What an \<^verbatim>\<open>include_cpp!\<close> block asks for (\<^verbatim>\<open>parser/src/config.rs\<close>): the allowlist and the
  lists of directives, each request with the flag that says whether anything answered to it, the
  queries the conversion makes of them, and the names a directive claims. The flags are
  \<^verbatim>\<open>Cell\<close>s written through a shared reference, so a query here returns the answer and the list
  as the query leaves it. The hash of the block is an argument.
\<close>

datatype unsafe_policy = AllFunctionsSafe | AllFunctionsUnsafe | ReferencesWrappedAllFunctionsSafe

definition requires_cpprefs :: "unsafe_policy \<Rightarrow> bool" where
  "requires_cpprefs p \<longleftrightarrow> p = ReferencesWrappedAllFunctionsSafe"

section \<open>Names a directive claims\<close>

definition bindgen_spellings :: "string \<Rightarrow> string list" where
  "bindgen_spellings item =
     (let segs = split_str ''::'' item in
      map (\<lambda>k. let nested = join ''_'' (drop k segs) in
                if k = 0 then nested else join ''::'' (take k segs) @ ''::'' @ nested)
          (rev [0..<length segs]))"

definition name_matches_directive :: "string \<Rightarrow> string \<Rightarrow> bool" where
  "name_matches_directive cpp_name directive =
     (let candidates = bindgen_spellings cpp_name in
      list_ex (\<lambda>spelling.
         list_ex (\<lambda>candidate. candidate = spelling \<or> suffix (''::'' @ spelling) candidate) candidates)
        (bindgen_spellings directive))"

definition function_name_matches_directive :: "string \<Rightarrow> string \<Rightarrow> bool" where
  "function_name_matches_directive cpp_name directive \<longleftrightarrow>
     cpp_name = directive \<or> suffix (''::'' @ directive) cpp_name"

section \<open>Directive lists\<close>

record directive_request =
  dr_text :: string
  dr_matched :: bool

type_synonym directive_list = "directive_request list"

definition directive_push :: "directive_list \<Rightarrow> string \<Rightarrow> directive_list" where
  "directive_push l request = l @ [\<lparr>dr_text = request, dr_matched = False\<rparr>]"

definition directive_iter :: "directive_list \<Rightarrow> string list" where
  "directive_iter l = map dr_text l"

text \<open>The loop of \<^verbatim>\<open>matches\<close>, with the answer so far.\<close>

fun matches_loop :: "(string \<Rightarrow> bool) \<Rightarrow> bool \<Rightarrow> directive_list \<Rightarrow> bool \<times> directive_list" where
  "matches_loop is_match matched_any [] = (matched_any, [])"
| "matches_loop is_match matched_any (request # rest) =
     (if is_match (dr_text request)
      then (let (m, l) = matches_loop is_match True rest in (m, request\<lparr>dr_matched := True\<rparr> # l))
      else (let (m, l) = matches_loop is_match matched_any rest in (m, request # l)))"

definition directive_matches :: "(string \<Rightarrow> bool) \<Rightarrow> directive_list \<Rightarrow> bool \<times> directive_list" where
  "directive_matches is_match l = matches_loop is_match False l"

definition clear_matches :: "directive_list \<Rightarrow> directive_list" where
  "clear_matches l = map (\<lambda>request. request\<lparr>dr_matched := False\<rparr>) l"

definition unmatched :: "directive_list \<Rightarrow> string list" where
  "unmatched l = map dr_text (filter (\<lambda>request. \<not> dr_matched request) l)"

section \<open>The allowlist\<close>

datatype allowlist_entry = AllowlistEntry_Item string | AllowlistEntry_Namespace string

definition to_bindgen_items :: "allowlist_entry \<Rightarrow> string list" where
  "to_bindgen_items entry =
     (case entry of
        AllowlistEntry_Item i \<Rightarrow> bindgen_spellings i
      | AllowlistEntry_Namespace ns \<Rightarrow> [ns @ ''::.*''])"

datatype allowlist =
    Unspecified "allowlist_entry list"
  | All
  | Specific "allowlist_entry list"

datatype allowlist_err = ConflictingGenerateAndGenerateAll

fun allowlist_push :: "allowlist \<Rightarrow> allowlist_entry \<Rightarrow> (allowlist_err, allowlist) result" where
  "allowlist_push (Unspecified uncommitted_list) item = Inr (Specific (uncommitted_list @ [item]))"
| "allowlist_push All item = Inl ConflictingGenerateAndGenerateAll"
| "allowlist_push (Specific list) item = Inr (Specific (list @ [item]))"

definition allowlist_set_all :: "allowlist \<Rightarrow> (allowlist_err, allowlist) result" where
  "allowlist_set_all a =
     (case a of Specific _ \<Rightarrow> Inl ConflictingGenerateAndGenerateAll | _ \<Rightarrow> Inr All)"

section \<open>The configuration\<close>

record subclass_config =
  sc_superclass :: string
  sc_subclass :: ident

record rust_fun =
  rf_path :: rust_tokens
  rf_ident :: ident
  rf_has_receiver :: bool

record include_cpp_config =
  inclusions :: "string list"
  policy :: unsafe_policy
  parse_only :: bool
  exclude_impls :: bool
  prettify :: bool
  pod_requests :: directive_list
  cfg_allowlist :: allowlist
  blocklist :: directive_list
  constructor_blocklist :: directive_list
  function_blocklist :: directive_list
  instantiable :: directive_list
  smart_pointers :: directive_list
  exclude_utilities :: bool
  mod_name :: "ident option"
  rust_types :: "ident list list"
  subclasses :: "subclass_config list"
  extern_rust_funs :: "rust_fun list"
  concretes :: "(string, ident) index_map"
  externs :: "(string, rust_tokens \<times> bool) index_map"
  opaquelist :: directive_list
  throws_list :: directive_list
  enum_styles :: "(string, rust_tokens) index_map"
  derives :: "(string, rust_tokens list) index_map"

definition get_mod_name :: "include_cpp_config \<Rightarrow> ident" where
  "get_mod_name config = (case mod_name config of Some n \<Rightarrow> n | None \<Rightarrow> ''ffi'')"

definition must_generate_list :: "include_cpp_config \<Rightarrow> string list" where
  "must_generate_list config =
     (case cfg_allowlist config of
        Specific items \<Rightarrow>
          List.map_filter (\<lambda>i. case i of AllowlistEntry_Item s \<Rightarrow> Some s
                                      | AllowlistEntry_Namespace _ \<Rightarrow> None) items
          @ directive_iter (pod_requests config)
      | _ \<Rightarrow> directive_iter (pod_requests config))"

fun hex_digits :: "nat \<Rightarrow> string" where
  "hex_digits n =
     (let d = (\<lambda>k. if k < 10 then digit_char k else char_of (87 + k)) in
      if n < 16 then [d n] else hex_digits (n div 16) @ [d (n mod 16)])"

declare hex_digits.simps [simp del]

definition uniquify_name_per_mod ::
    "(include_cpp_config \<Rightarrow> nat) \<Rightarrow> include_cpp_config \<Rightarrow> string \<Rightarrow> string" where
  "uniquify_name_per_mod get_hash config name = name @ ''_0x'' @ hex_digits (get_hash config)"

definition get_makestring_name :: "(include_cpp_config \<Rightarrow> nat) \<Rightarrow> include_cpp_config \<Rightarrow> string" where
  "get_makestring_name get_hash config = uniquify_name_per_mod get_hash config ''autocxx_make_string''"

definition active_utilities :: "(include_cpp_config \<Rightarrow> nat) \<Rightarrow> include_cpp_config \<Rightarrow> string list" where
  "active_utilities get_hash config =
     (if exclude_utilities config then [] else [get_makestring_name get_hash config])"

text \<open>\<open>unreachable!()\<close> on an allowlist nobody has settled is the outer \<open>None\<close>.\<close>

definition bindgen_allowlist ::
    "(include_cpp_config \<Rightarrow> nat) \<Rightarrow> include_cpp_config \<Rightarrow> string list option option" where
  "bindgen_allowlist get_hash config =
     (case cfg_allowlist config of
        All \<Rightarrow> Some None
      | Specific items \<Rightarrow>
          Some (Some
            (concat (map to_bindgen_items items)
             @ concat (map bindgen_spellings (directive_iter (pod_requests config)))
             @ active_utilities get_hash config
             @ concat (map (\<lambda>sc. [sc_subclass sc @ ''Cpp'', sc_superclass sc]) (subclasses config))))
      | Unspecified _ \<Rightarrow> None)"

definition is_subclass_or_superclass :: "include_cpp_config \<Rightarrow> string \<Rightarrow> bool" where
  "is_subclass_or_superclass config cpp_name =
     list_ex (\<lambda>item. cpp_name = item)
       (concat (map (\<lambda>sc. [sc_subclass sc, sc_superclass sc]) (subclasses config)))"

definition is_subclass_holder :: "include_cpp_config \<Rightarrow> string \<Rightarrow> bool" where
  "is_subclass_holder config idt = list_ex (\<lambda>sc. sc_subclass sc @ ''Holder'' = idt) (subclasses config)"

definition is_subclass_cpp :: "include_cpp_config \<Rightarrow> string \<Rightarrow> bool" where
  "is_subclass_cpp config idt = list_ex (\<lambda>sc. sc_subclass sc @ ''Cpp'' = idt) (subclasses config)"

definition is_rust_type_name :: "include_cpp_config \<Rightarrow> string \<Rightarrow> bool" where
  "is_rust_type_name config possible_ty = list_ex (\<lambda>rt. last rt = possible_ty) (rust_types config)"

definition is_rust_type :: "include_cpp_config \<Rightarrow> ident \<Rightarrow> bool" where
  "is_rust_type config idt \<longleftrightarrow> is_rust_type_name config idt \<or> is_subclass_holder config idt"

definition is_rust_fun :: "include_cpp_config \<Rightarrow> string \<Rightarrow> bool" where
  "is_rust_fun config possible_fun = list_ex (\<lambda>fn. rf_ident fn = possible_fun) (extern_rust_funs config)"

definition is_concrete_type :: "include_cpp_config \<Rightarrow> string \<Rightarrow> bool" where
  "is_concrete_type config cpp_name = list_ex (\<lambda>(k, val). val = cpp_name) (concretes config)"

definition is_on_allowlist ::
    "(include_cpp_config \<Rightarrow> nat) \<Rightarrow> include_cpp_config \<Rightarrow> string \<Rightarrow> bool option" where
  "is_on_allowlist get_hash config cpp_name =
     (if cpp_name \<in> set (active_utilities get_hash config)
         \<or> is_subclass_or_superclass config cpp_name
         \<or> is_subclass_holder config cpp_name
         \<or> is_subclass_cpp config cpp_name
         \<or> is_rust_fun config cpp_name
         \<or> is_rust_type_name config cpp_name
         \<or> is_concrete_type config cpp_name
      then Some True
      else case cfg_allowlist config of
        Unspecified _ \<Rightarrow> None
      | All \<Rightarrow> Some True
      | Specific items \<Rightarrow>
          Some (list_ex (\<lambda>entry. case entry of
                   AllowlistEntry_Item i \<Rightarrow> i = cpp_name
                 | AllowlistEntry_Namespace ns \<Rightarrow> prefix ns cpp_name) items))"

definition is_on_blocklist :: "include_cpp_config \<Rightarrow> string \<Rightarrow> bool \<times> include_cpp_config" where
  "is_on_blocklist config cpp_name =
     (let (m, l) = directive_matches (\<lambda>request. request = cpp_name) (blocklist config)
      in (m, config\<lparr>blocklist := l\<rparr>))"

definition is_on_constructor_blocklist ::
    "include_cpp_config \<Rightarrow> string \<Rightarrow> bool \<times> include_cpp_config" where
  "is_on_constructor_blocklist config cpp_name =
     (let (m, l) = directive_matches (\<lambda>request. request = cpp_name) (constructor_blocklist config)
      in (m, config\<lparr>constructor_blocklist := l\<rparr>))"

definition is_on_function_blocklist ::
    "include_cpp_config \<Rightarrow> string \<Rightarrow> bool \<times> include_cpp_config" where
  "is_on_function_blocklist config cpp_name =
     (let (m, l) = directive_matches (\<lambda>request. function_name_matches_directive cpp_name request)
                     (function_blocklist config)
      in (m, config\<lparr>function_blocklist := l\<rparr>))"

definition is_instantiable :: "include_cpp_config \<Rightarrow> string \<Rightarrow> bool \<times> include_cpp_config" where
  "is_instantiable config cpp_name =
     (let (m, l) = directive_matches (\<lambda>request. request = cpp_name) (instantiable config)
      in (m, config\<lparr>instantiable := l\<rparr>))"

definition is_smart_pointer_template :: "include_cpp_config \<Rightarrow> string \<Rightarrow> bool" where
  "is_smart_pointer_template config cpp_name =
     list_ex (\<lambda>entry. name_matches_directive cpp_name entry) (directive_iter (smart_pointers config))"

definition is_on_throws_list :: "include_cpp_config \<Rightarrow> string \<Rightarrow> bool \<times> include_cpp_config" where
  "is_on_throws_list config cpp_name =
     (let (m, l) = directive_matches (\<lambda>entry. function_name_matches_directive cpp_name entry)
                     (throws_list config)
      in (m, config\<lparr>throws_list := l\<rparr>))"

definition note_type_named :: "include_cpp_config \<Rightarrow> string \<Rightarrow> include_cpp_config" where
  "note_type_named config cpp_name =
     (let config = snd (is_on_blocklist config cpp_name)
      in snd (is_on_constructor_blocklist config cpp_name))"

definition note_alias_named :: "include_cpp_config \<Rightarrow> string \<Rightarrow> include_cpp_config" where
  "note_alias_named config cpp_name =
     (let config = note_type_named config cpp_name
      in snd (is_instantiable config cpp_name))"

text \<open>\<open>superclasses\<close> collects into a set; the order of its iteration is that of the subclasses here.\<close>

definition superclasses :: "include_cpp_config \<Rightarrow> string list" where
  "superclasses config = fold iset_insert (map sc_superclass (subclasses config)) []"

definition get_rs_filename :: "include_cpp_config \<Rightarrow> string" where
  "get_rs_filename config =
     ''autocxx-'' @ (case mod_name config of Some idt \<Rightarrow> idt | None \<Rightarrow> ''ffi-default'') @ ''-gen.rs''"

definition name_matching_directives :: "include_cpp_config \<Rightarrow> (string \<times> directive_list) list" where
  "name_matching_directives config =
     [(''throws'', throws_list config),
      (''block'', blocklist config),
      (''block_constructors'', constructor_blocklist config),
      (''block_functions'', function_blocklist config),
      (''instantiable'', instantiable config)]"

definition unmatched_directives :: "include_cpp_config \<Rightarrow> (string \<times> string) list" where
  "unmatched_directives config =
     concat (map (\<lambda>(directive, list). map (\<lambda>request. (directive, request)) (unmatched list))
               (name_matching_directives config))"

definition clear_directive_matches :: "include_cpp_config \<Rightarrow> include_cpp_config" where
  "clear_directive_matches config =
     config\<lparr>throws_list := clear_matches (throws_list config),
            blocklist := clear_matches (blocklist config),
            constructor_blocklist := clear_matches (constructor_blocklist config),
            function_blocklist := clear_matches (function_blocklist config),
            instantiable := clear_matches (instantiable config)\<rparr>"

definition confirm_complete :: "include_cpp_config \<Rightarrow> include_cpp_config" where
  "confirm_complete config =
     (case cfg_allowlist config of
        Unspecified _ \<Rightarrow> config\<lparr>cfg_allowlist := Specific []\<rparr>
      | _ \<Rightarrow> config)"

definition replace_included_headers :: "include_cpp_config \<Rightarrow> string \<Rightarrow> include_cpp_config" where
  "replace_included_headers config replacement = config\<lparr>inclusions := [replacement]\<rparr>"

section \<open>Nested names\<close>

text \<open>\<^verbatim>\<open>NestedCppNames\<close> of \<^verbatim>\<open>conversion/api.rs\<close>; \<open>any\<close> stops at the first spelling that is listed.\<close>

definition nested_cpp_names :: "api_name list \<Rightarrow> (qualified_name, string) index_map" where
  "nested_cpp_names ns =
     fold (\<lambda>name m. case nested_cpp_spelling name of
                      Some spelling \<Rightarrow> imap_insert (an_name name) spelling m
                    | None \<Rightarrow> m) ns []"

definition nested_spellings :: "(qualified_name, string) index_map \<Rightarrow> qualified_name \<Rightarrow> string list" where
  "nested_spellings m name =
     to_cpp_name name # (case map_of m name of Some s \<Rightarrow> [s] | None \<Rightarrow> [])"

fun any_option :: "('a \<Rightarrow> bool option) \<Rightarrow> 'a list \<Rightarrow> bool option" where
  "any_option p [] = Some False"
| "any_option p (x # xs) =
     (case p x of None \<Rightarrow> None | Some True \<Rightarrow> Some True | Some False \<Rightarrow> any_option p xs)"

definition nested_is_on_allowlist ::
    "(include_cpp_config \<Rightarrow> nat) \<Rightarrow> include_cpp_config \<Rightarrow> (qualified_name, string) index_map \<Rightarrow>
     qualified_name \<Rightarrow> bool option" where
  "nested_is_on_allowlist get_hash config m name =
     any_option (is_on_allowlist get_hash config) (nested_spellings m name)"

section \<open>Lemmas\<close>

lemma matches_loop_spec:
  "matches_loop p m l =
     (m \<or> list_ex (\<lambda>r. p (dr_text r)) l,
      map (\<lambda>r. if p (dr_text r) then r\<lparr>dr_matched := True\<rparr> else r) l)"
  by (induction l arbitrary: m) auto

lemma directive_matches_spec:
  "directive_matches p l =
     (list_ex (\<lambda>r. p (dr_text r)) l,
      map (\<lambda>r. if p (dr_text r) then r\<lparr>dr_matched := True\<rparr> else r) l)"
  by (simp add: directive_matches_def matches_loop_spec)

lemma fold_matches_spec:
  "fold (\<lambda>p l. snd (directive_matches p l)) ps l =
     map (\<lambda>r. if list_ex (\<lambda>p. p (dr_text r)) ps then r\<lparr>dr_matched := True\<rparr> else r) l"
  by (induction ps arbitrary: l) (auto simp: directive_matches_spec)

lemma spelling_in:
  assumes "k < length segs" and "segs = split_str ''::'' item"
  shows "(if k = 0 then join ''_'' (drop k segs)
          else join ''::'' (take k segs) @ ''::'' @ join ''_'' (drop k segs)) \<in> set (bindgen_spellings item)"
  using assms by (auto simp: bindgen_spellings_def Let_def)

lemma join_append:
  "xs \<noteq> [] \<Longrightarrow> ys \<noteq> [] \<Longrightarrow> join sep (xs @ ys) = join sep xs @ sep @ join sep ys"
proof (induction xs)
  case (Cons a xs)
  then show ?case by (cases xs) (simp_all add: join_Cons)
qed simp

text \<open>The name bindgen gives an item whose segments from the \<open>k\<close>-th on are nested.\<close>

definition flattened :: "nat \<Rightarrow> string list \<Rightarrow> string" where
  "flattened k segs = join ''::'' (take k segs @ [join ''_'' (drop k segs)])"

lemma flattened_in_spellings:
  assumes "k < length segs" and "segs = split_str ''::'' item"
  shows "flattened k segs \<in> set (bindgen_spellings item)"
proof (cases "k = 0")
  case False
  then have "take k segs \<noteq> []" using assms(1) by auto
  then show ?thesis
    using spelling_in[OF assms] False by (simp add: flattened_def join_append)
qed (use spelling_in[OF assms] in \<open>simp add: flattened_def\<close>)

lemma flattened_last: "segs \<noteq> [] \<Longrightarrow> flattened (length segs - 1) segs = join ''::'' segs"
  by (cases segs rule: rev_cases) (simp_all add: flattened_def)

lemma item_in_spellings: "item \<in> set (bindgen_spellings item)"
  using flattened_in_spellings[OF _ refl, of "length (split_str ''::'' item) - 1" item]
  using flattened_last[OF split_str_nonempty, of "''::''" item] by (simp add: join_split)

lemma flattened_suffix:
  assumes "j \<le> k" and "k < length segs"
  shows "flattened (k - j) (drop j segs) = flattened k segs \<or>
    suffix (''::'' @ flattened (k - j) (drop j segs)) (flattened k segs)"
proof (cases "j = 0")
  case False
  have front: "take j segs \<noteq> []" using False assms by auto
  have "take k segs = take j segs @ take (k - j) (drop j segs)"
    using assms(1) by (metis le_add_diff_inverse take_add)
  then have "flattened k segs = join ''::'' (take j segs @ (take (k - j) (drop j segs) @ [join ''_'' (drop k segs)]))"
    by (simp add: flattened_def)
  also have "\<dots> = join ''::'' (take j segs) @ ''::'' @ flattened (k - j) (drop j segs)"
    using front assms(1) by (subst join_append) (simp_all add: flattened_def)
  finally show ?thesis by (simp add: suffix_def)
qed simp

section \<open>Properties\<close>

text \<open>
  A directive claims a nested name whichever way it is written. Take the segments of a C++
  name, of which those from the \<open>k\<close>-th on are classes nested in one another, so that bindgen
  flattens them into one: a directive naming the item as C++ does, with any number of its
  namespaces left off, claims the name bindgen reports.
\<close>

theorem directive_claims_nested_name:
  assumes "j \<le> k" and "k < length segs" and "\<forall>s \<in> set segs. CHR '':'' \<notin> set s"
  shows "name_matches_directive (flattened k segs) (join ''::'' (drop j segs))"
proof -
  let ?flat = "take k segs @ [join ''_'' (drop k segs)]"
  have no_colon: "CHR '':'' \<notin> set (join ''_'' xs)" if "\<forall>s \<in> set xs. CHR '':'' \<notin> set s" for xs
    using that by (induction "''_''" xs rule: join.induct) auto
  have plain: "\<forall>s \<in> set ?flat. hd ''::'' \<notin> set s"
    using assms(3) no_colon[of "drop k segs"] by (auto dest: in_set_takeD in_set_dropD)
  have flat: "split_str ''::'' (flattened k segs) = ?flat"
    unfolding flattened_def by (rule split_join) (use plain in auto)
  have dir: "split_str ''::'' (join ''::'' (drop j segs)) = drop j segs"
    by (rule split_join) (use assms in \<open>auto dest: in_set_dropD\<close>)
  have "flattened (length ?flat - 1) ?flat = flattened k segs"
    using assms(2) by (simp add: flattened_def)
  then have candidate: "flattened k segs \<in> set (bindgen_spellings (flattened k segs))"
    using flattened_in_spellings[OF _ flat[symmetric], of "length ?flat - 1"] by simp
  have spelling: "flattened (k - j) (drop j segs) \<in> set (bindgen_spellings (join ''::'' (drop j segs)))"
    using flattened_in_spellings[OF _ dir[symmetric], of "k - j"] assms(1,2) by simp
  show ?thesis
    using candidate spelling flattened_suffix[OF assms(1,2)]
    unfolding name_matches_directive_def Let_def list_ex_iff by metis
qed

lemma directive_claims_nested_name_witness:
  "name_matches_directive ''ns::Outer_MyPtr'' ''Outer::MyPtr''"
proof -
  have "name_matches_directive (flattened 1 [''ns'', ''Outer'', ''MyPtr''])
      (join ''::'' (drop 1 [''ns'', ''Outer'', ''MyPtr'']))"
    by (rule directive_claims_nested_name) simp_all
  then show ?thesis by (simp add: flattened_def numeral_eq_Suc)
qed

text \<open>
  The requests reported as matching nothing are exactly the ones nothing matched. Clear the
  flags, ask any sequence of questions, and what is unmatched is each request, in the order
  written, that no question matched; a question never hides one request behind another.
\<close>

theorem unmatched_is_what_nothing_matched:
  "unmatched (fold (\<lambda>p l. snd (directive_matches p l)) queries (clear_matches l)) =
     filter (\<lambda>text. \<not> list_ex (\<lambda>p. p text) queries) (directive_iter l) \<and>
   fst (directive_matches p l) = list_ex p (directive_iter l)"
proof -
  have "map dr_text (filter (\<lambda>r. \<not> dr_matched r)
      (map ((\<lambda>r. if list_ex (\<lambda>p. p (dr_text r)) queries then r\<lparr>dr_matched := True\<rparr> else r) \<circ>
        (\<lambda>r. r\<lparr>dr_matched := False\<rparr>)) l)) =
    filter (\<lambda>text. \<not> list_ex (\<lambda>p. p text) queries) (map dr_text l)"
    by (induction l) auto
  then show ?thesis
    unfolding fold_matches_spec
    by (simp add: clear_matches_def unmatched_def directive_iter_def directive_matches_spec
        list_ex_iff)
qed

text \<open>The two requests a block can make of its allowlist.\<close>

datatype allowlist_op = Op_Generate allowlist_entry | Op_GenerateAll

fun run_allowlist :: "allowlist_op list \<Rightarrow> allowlist \<Rightarrow> (allowlist_err, allowlist) result" where
  "run_allowlist [] a = Inr a"
| "run_allowlist (op # ops) a =
     (case (case op of Op_Generate e \<Rightarrow> allowlist_push a e | Op_GenerateAll \<Rightarrow> allowlist_set_all a) of
        Inl e \<Rightarrow> Inl e
      | Inr a' \<Rightarrow> run_allowlist ops a')"

definition generated :: "allowlist_op list \<Rightarrow> allowlist_entry list" where
  "generated ops = List.map_filter (\<lambda>op. case op of Op_Generate e \<Rightarrow> Some e | Op_GenerateAll \<Rightarrow> None) ops"

lemma run_allowlist_specific:
  "run_allowlist ops (Specific l) =
     (if Op_GenerateAll \<in> set ops then Inl ConflictingGenerateAndGenerateAll
      else Inr (Specific (l @ generated ops)))"
  by (induction ops arbitrary: l)
     (auto simp: generated_def map_filter_simps allowlist_set_all_def split: allowlist_op.splits)

lemma run_allowlist_all:
  "run_allowlist ops All =
     (if generated ops \<noteq> [] then Inl ConflictingGenerateAndGenerateAll else Inr All)"
  by (induction ops)
     (auto simp: generated_def map_filter_simps allowlist_set_all_def split: allowlist_op.splits)

text \<open>
  An allowlist ends as what the block asked for. A block that mixes \<^verbatim>\<open>generate_all!\<close> with
  \<^verbatim>\<open>generate!\<close> or \<^verbatim>\<open>generate_ns!\<close> is refused in whatever order they come; otherwise the
  allowlist is everything, or exactly the entries in the order written, or still unsettled when
  nothing was asked.
\<close>

theorem allowlist_outcome:
  "run_allowlist ops (Unspecified []) =
     (if ops = [] then Inr (Unspecified [])
      else if Op_GenerateAll \<in> set ops \<and> generated ops \<noteq> [] then Inl ConflictingGenerateAndGenerateAll
      else if Op_GenerateAll \<in> set ops then Inr All
      else Inr (Specific (generated ops)))"
proof (cases ops)
  case (Cons op rest)
  then show ?thesis
    by (cases op)
       (auto simp: run_allowlist_specific run_allowlist_all allowlist_set_all_def generated_def
         map_filter_simps split: allowlist_op.splits)
qed simp

text \<open>
  What was named with \<^verbatim>\<open>generate!\<close> or \<^verbatim>\<open>generate_pod!\<close> is handed to bindgen as written, and
  what was named with \<^verbatim>\<open>generate!\<close> is on the allowlist the APIs are filtered by, so no name the
  user insists on is filtered out by either list.
\<close>

theorem requested_items_are_allowed:
  assumes "cfg_allowlist config = Specific items" and "AllowlistEntry_Item item \<in> set items"
  shows "is_on_allowlist get_hash config item = Some True \<and> item \<in> set (must_generate_list config) \<and>
    (\<exists>l. bindgen_allowlist get_hash config = Some (Some l) \<and> item \<in> set l)"
proof -
  from assms have "item \<in> set (must_generate_list config)"
    by (force simp: must_generate_list_def map_filter_def)
  moreover have "item \<in> set (concat (map to_bindgen_items items))"
    using assms(2) item_in_spellings by (force simp: to_bindgen_items_def)
  moreover have "is_on_allowlist get_hash config item = Some True"
    using assms by (auto simp: is_on_allowlist_def list_ex_iff intro!: bexI[of _ "AllowlistEntry_Item item"])
  ultimately show ?thesis using assms(1) by (simp add: bindgen_allowlist_def)
qed

text \<open>
  \<^verbatim>\<open>generate_ns!\<close> names a namespace by a bare prefix. The pattern given to bindgen stops at the
  namespace, but the filter applied to what bindgen reports does not: it also lets through names
  of another namespace, or of no namespace, that merely begin with the same letters.
\<close>

definition ns_only_config :: include_cpp_config where
  "ns_only_config =
     \<lparr>inclusions = [], policy = AllFunctionsSafe, parse_only = False, exclude_impls = False,
      prettify = False, pod_requests = [],
      cfg_allowlist = Specific [AllowlistEntry_Namespace ''gfx''], blocklist = [],
      constructor_blocklist = [], function_blocklist = [], instantiable = [], smart_pointers = [],
      exclude_utilities = True, mod_name = None, rust_types = [], subclasses = [],
      extern_rust_funs = [], concretes = [], externs = [], opaquelist = [], throws_list = [],
      enum_styles = [], derives = []\<rparr>"

theorem namespace_filter_overreaches:
  "is_on_allowlist get_hash ns_only_config ''gfx::Shape'' = Some True \<and>
   is_on_allowlist get_hash ns_only_config ''gfxdriver::Secret'' = Some True \<and>
   bindgen_allowlist get_hash ns_only_config = Some (Some [''gfx::.*''])"
  by (simp add: is_on_allowlist_def bindgen_allowlist_def ns_only_config_def active_utilities_def
      is_subclass_or_superclass_def is_subclass_holder_def is_subclass_cpp_def is_rust_fun_def
      is_rust_type_name_def is_concrete_type_def to_bindgen_items_def directive_iter_def)

lemma requested_items_are_allowed_witness:
  "is_on_allowlist (\<lambda>_. 255) (ns_only_config\<lparr>cfg_allowlist := Specific [AllowlistEntry_Item ''a::B'']\<rparr>)
     ''a::B'' = Some True"
  using requested_items_are_allowed[of "ns_only_config\<lparr>cfg_allowlist := Specific [AllowlistEntry_Item ''a::B'']\<rparr>"
      "[AllowlistEntry_Item ''a::B'']" "''a::B''" "\<lambda>_. 255"]
  by simp

end
