(* ===== verification/MemberLookup.thy ===== *)
theory MemberLookup imports Pod Config begin

text \<open>
  Where the members of a class come from: base classes, what a \<^verbatim>\<open>using Base::foo;\<close> imports, and what
  C++ member name lookup finds (\<^verbatim>\<open>Ancestry\<close>, \<^verbatim>\<open>reached_exactly_once\<close>, \<^verbatim>\<open>look_up_member\<close> and the passes
  over them in \<^verbatim>\<open>analysis/fun/mod.rs\<close>). An \<^verbatim>\<open>IndexMap\<close> or \<^verbatim>\<open>IndexSet\<close> is its list in insertion order.
\<close>

section \<open>What a class says of its bases\<close>

record ancestry =
  anc_bases :: "qualified_name list"
  anc_public_bases :: "qualified_name list"
  anc_has_unnamed_base :: bool

datatype inheritance = Inheritance_Any | Inheritance_Public

definition ancestry_bases :: "ancestry \<Rightarrow> inheritance \<Rightarrow> qualified_name list" where
  "ancestry_bases here inheritance =
     (case inheritance of
        Inheritance_Any \<Rightarrow> anc_bases here
      | Inheritance_Public \<Rightarrow> anc_public_bases here)"

type_synonym ancestry_map = "(qualified_name, ancestry) index_map"

type_synonym 'sub pod_apis = "(typedef_analysis, pod_analysis, unit, 'sub) api list"

definition build_ancestry :: "('td, pod_analysis, 'fn, 'sub) api list \<Rightarrow> ancestry_map" where
  "build_ancestry l =
     fold (\<lambda>api m. case api of
             Api_Struct name details analysis \<Rightarrow>
               imap_insert (an_name name)
                 \<lparr>anc_bases = pa_bases analysis, anc_public_bases = pa_public_bases analysis,
                  anc_has_unnamed_base = pa_has_unnamed_base analysis\<rparr> m
           | _ \<Rightarrow> m) l []"

section \<open>How often a base is reached\<close>

datatype paths = No_Path | One_Path | Unusable

text \<open>The loop over the bases, which stops at the first that settles the answer.\<close>

fun join_paths :: "paths \<Rightarrow> paths list \<Rightarrow> paths" where
  "join_paths found [] = found"
| "join_paths found (through_here # rest) =
     (case (found, through_here) of
        (Unusable, _) \<Rightarrow> Unusable
      | (_, Unusable) \<Rightarrow> Unusable
      | (No_Path, other) \<Rightarrow> join_paths other rest
      | (other, No_Path) \<Rightarrow> join_paths other rest
      | (One_Path, One_Path) \<Rightarrow> Unusable)"

fun walk_paths :: "ancestry_map \<Rightarrow> qualified_name \<Rightarrow> inheritance \<Rightarrow> nat \<Rightarrow> qualified_name \<Rightarrow> paths" where
  "walk_paths m ancestor inheritance 0 derived = No_Path"
| "walk_paths m ancestor inheritance (Suc depth) derived =
     (case map_of m derived of
        None \<Rightarrow> No_Path
      | Some here \<Rightarrow>
          if anc_has_unnamed_base here then Unusable
          else join_paths No_Path
                 (map (\<lambda>b. if b = ancestor then One_Path else walk_paths m ancestor inheritance depth b)
                   (ancestry_bases here inheritance)))"

definition reached_exactly_once ::
    "ancestry_map \<Rightarrow> qualified_name \<Rightarrow> qualified_name \<Rightarrow> inheritance \<Rightarrow> bool" where
  "reached_exactly_once m derived ancestor inheritance \<longleftrightarrow>
     walk_paths m ancestor inheritance (length m) derived = One_Path"

section \<open>Member name lookup\<close>

datatype member_lookup = Nothing | Found qualified_name | Ambiguous

fun join_lookups :: "member_lookup \<Rightarrow> member_lookup list \<Rightarrow> member_lookup" where
  "join_lookups found [] = found"
| "join_lookups found (through_here # rest) =
     (case (found, through_here) of
        (Ambiguous, _) \<Rightarrow> Ambiguous
      | (_, Ambiguous) \<Rightarrow> Ambiguous
      | (Nothing, other) \<Rightarrow> join_lookups other rest
      | (other, Nothing) \<Rightarrow> join_lookups other rest
      | (Found one, Found other) \<Rightarrow>
          if one = other then join_lookups (Found one) rest else Ambiguous)"

type_synonym declared_names = "(qualified_name, string list) index_map"

definition declares_name :: "declared_names \<Rightarrow> string list \<Rightarrow> string \<Rightarrow> qualified_name \<Rightarrow> bool" where
  "declares_name declared flat_scope name cls \<longleftrightarrow>
     (case map_of declared cls of Some ns \<Rightarrow> name \<in> set ns | None \<Rightarrow> False) \<or>
     QualifiedName_to_string cls @ ''_'' @ name \<in> set flat_scope"

fun walk_lookup ::
    "ancestry_map \<Rightarrow> declared_names \<Rightarrow> string list \<Rightarrow> string \<Rightarrow> nat \<Rightarrow> qualified_name \<Rightarrow> member_lookup" where
  "walk_lookup m declared flat_scope name 0 cls = Ambiguous"
| "walk_lookup m declared flat_scope name (Suc depth) cls =
     (if declares_name declared flat_scope name cls then Found cls
      else case map_of m cls of
        None \<Rightarrow> Nothing
      | Some here \<Rightarrow>
          if anc_has_unnamed_base here then Ambiguous
          else join_lookups Nothing
                 (map (walk_lookup m declared flat_scope name depth) (anc_bases here)))"

definition look_up_member ::
    "ancestry_map \<Rightarrow> declared_names \<Rightarrow> string list \<Rightarrow> qualified_name \<Rightarrow> string \<Rightarrow> member_lookup" where
  "look_up_member m declared flat_scope cls name =
     walk_lookup m declared flat_scope name (length m + 1) cls"

section \<open>Paths up the ancestry\<close>

definition bases_by :: "ancestry_map \<Rightarrow> inheritance \<Rightarrow> qualified_name \<Rightarrow> qualified_name set" where
  "bases_by m inheritance c =
     (case map_of m c of Some here \<Rightarrow> set (ancestry_bases here inheritance) | None \<Rightarrow> {})"

definition has_unnamed :: "ancestry_map \<Rightarrow> qualified_name \<Rightarrow> bool" where
  "has_unnamed m c \<longleftrightarrow> (case map_of m c of Some here \<Rightarrow> anc_has_unnamed_base here | None \<Rightarrow> False)"

text \<open>A path lists the classes above the derived one, each a base of the one before it.\<close>

fun inherits_via ::
    "('a \<Rightarrow> 'a set) \<Rightarrow> 'a \<Rightarrow> 'a list \<Rightarrow> 'a \<Rightarrow> bool" where
  "inherits_via bs derived [] ancestor \<longleftrightarrow> False"
| "inherits_via bs derived (b # p) ancestor \<longleftrightarrow>
     b \<in> bs derived \<and> (if p = [] then b = ancestor else inherits_via bs b p ancestor)"

definition ancestry_ok :: "(qualified_name \<Rightarrow> nat) \<Rightarrow> ancestry_map \<Rightarrow> bool" where
  "ancestry_ok rank m \<longleftrightarrow>
     list_all (\<lambda>(c, here). distinct (anc_bases here) \<and> distinct (anc_public_bases here) \<and>
       list_all (\<lambda>b. rank b < rank c) (anc_bases here @ anc_public_bases here)) m"

lemma ancestry_okD:
  assumes "ancestry_ok rank m" and "map_of m c = Some here"
  shows "distinct (ancestry_bases here inheritance)"
    and "b \<in> set (ancestry_bases here inheritance) \<Longrightarrow> rank b < rank c"
  using assms(1) map_of_SomeD[OF assms(2)]
  by (auto simp: ancestry_ok_def list_all_iff ancestry_bases_def split: inheritance.splits)

lemma bases_below: "ancestry_ok rank m \<Longrightarrow> b \<in> bases_by m inheritance c \<Longrightarrow> rank b < rank c"
  by (auto simp: bases_by_def split: option.splits dest: ancestry_okD(2))

lemma inherits_below:
  assumes "ancestry_ok rank m"
  shows "inherits_via (bases_by m inheritance) derived p ancestor \<Longrightarrow> rank ancestor < rank derived"
proof (induction p arbitrary: derived)
  case (Cons b p)
  with bases_below[OF assms, of b inheritance derived] show ?case
    by (auto split: if_splits dest: less_trans)
qed simp

text \<open>How deep a walk may go: the classes no higher up than where it starts.\<close>

abbreviation classes_below :: "(qualified_name \<Rightarrow> nat) \<Rightarrow> ancestry_map \<Rightarrow> qualified_name \<Rightarrow> qualified_name set" where
  "classes_below rank m c \<equiv> {k \<in> fst ` set m. rank k \<le> rank c}"

lemma classes_below_bound: "card (classes_below rank m c) \<le> length m"
proof -
  have "card (classes_below rank m c) \<le> card (fst ` set m)" by (intro card_mono) auto
  also have "\<dots> \<le> length m" by (metis card_length length_map list.set_map)
  finally show ?thesis .
qed

lemma classes_below_base:
  assumes "ancestry_ok rank m" and "map_of m c = Some here" and "b \<in> set (ancestry_bases here inheritance)"
  shows "card (classes_below rank m b) < card (classes_below rank m c)"
proof (intro psubset_card_mono psubsetI)
  have "rank b < rank c" by (rule ancestry_okD(2)[OF assms])
  then show "classes_below rank m b \<subseteq> classes_below rank m c" by auto
  have "c \<in> fst ` set m" using map_of_SomeD[OF assms(2)] by (force intro: rev_image_eqI)
  with \<open>rank b < rank c\<close> have "c \<in> classes_below rank m c" "c \<notin> classes_below rank m b" by auto
  then show "classes_below rank m b \<noteq> classes_below rank m c" by blast
qed simp

lemma join_paths_eq:
  "found \<noteq> Unusable \<Longrightarrow>
     join_paths found ps =
       (if Unusable \<in> set ps then Unusable
        else let n = count_list ps One_Path + (if found = One_Path then 1 else 0) in
             if n = 0 then No_Path else if n = 1 then One_Path else Unusable)"
proof (induction ps arbitrary: found)
  case Nil
  then show ?case by (cases found) auto
next
  case (Cons p ps)
  then show ?case by (cases found; cases p) (auto simp: Let_def)
qed

text \<open>The paths to an ancestor, and whether a class in sight has a base nobody named.\<close>

abbreviation paths_to ::
    "ancestry_map \<Rightarrow> inheritance \<Rightarrow> qualified_name \<Rightarrow> qualified_name \<Rightarrow> qualified_name list set" where
  "paths_to m inheritance ancestor derived \<equiv> {p. inherits_via (bases_by m inheritance) derived p ancestor}"

definition in_sight :: "ancestry_map \<Rightarrow> inheritance \<Rightarrow> (qualified_name \<Rightarrow> bool) \<Rightarrow> qualified_name \<Rightarrow> qualified_name \<Rightarrow> bool" where
  "in_sight m inheritance past = (\<lambda>x y. past x \<and> y \<in> bases_by m inheritance x)\<^sup>*\<^sup>*"

definition obscured :: "ancestry_map \<Rightarrow> inheritance \<Rightarrow> (qualified_name \<Rightarrow> bool) \<Rightarrow> qualified_name \<Rightarrow> bool" where
  "obscured m inheritance past c \<longleftrightarrow> (\<exists>x. in_sight m inheritance past c x \<and> past x \<and> has_unnamed m x)"

lemma in_sight_unfold:
  "in_sight m inheritance past c x \<longleftrightarrow>
     c = x \<or> (past c \<and> (\<exists>b \<in> bases_by m inheritance c. in_sight m inheritance past b x))"
  unfolding in_sight_def
proof
  let ?step = "\<lambda>x y. past x \<and> y \<in> bases_by m inheritance x"
  assume "?step\<^sup>*\<^sup>* c x"
  then show "c = x \<or> (past c \<and> (\<exists>b \<in> bases_by m inheritance c. ?step\<^sup>*\<^sup>* b x))"
    by (cases rule: converse_rtranclpE) blast+
qed (blast intro: converse_rtranclp_into_rtranclp)

lemma obscured_unfold:
  "obscured m inheritance past c \<longleftrightarrow>
     past c \<and> (has_unnamed m c \<or> (\<exists>b \<in> bases_by m inheritance c. obscured m inheritance past b))"
  unfolding obscured_def by (subst in_sight_unfold) auto

section \<open>Paths are counted\<close>

lemma paths_to_unfold:
  assumes "ancestry_ok rank m"
  shows "paths_to m inheritance ancestor derived =
     (\<Union>b \<in> bases_by m inheritance derived.
        if b = ancestor then {[b]} else (#) b ` paths_to m inheritance ancestor b)" (is "?l = ?r")
proof (rule set_eqI)
  fix p
  have above: "\<not> inherits_via (bases_by m inheritance) ancestor q ancestor" for q
    using inherits_below[OF assms] by blast
  show "p \<in> ?l \<longleftrightarrow> p \<in> ?r"
  proof (cases p)
    case (Cons b q)
    show ?thesis
    proof (cases "b = ancestor")
      case True
      with above[of q] Cons show ?thesis by auto
    next
      case False
      have "p \<in> ?r \<longleftrightarrow> b \<in> bases_by m inheritance derived \<and> q \<in> paths_to m inheritance ancestor b"
        using False Cons by (auto split: if_splits intro!: bexI[of _ b])
      moreover have "p \<in> ?l \<longleftrightarrow> b \<in> bases_by m inheritance derived \<and> q \<in> paths_to m inheritance ancestor b"
        using False Cons by (cases q) auto
      ultimately show ?thesis by blast
    qed
  qed (auto split: if_splits)
qed

lemma paths_finite:
  assumes ok: "ancestry_ok rank m"
  shows "finite (paths_to m inheritance ancestor derived)"
proof (induction "rank derived" arbitrary: derived rule: less_induct)
  case less
  have "finite (bases_by m inheritance derived)" by (auto simp: bases_by_def split: option.splits)
  moreover have "finite (paths_to m inheritance ancestor b)" if "b \<in> bases_by m inheritance derived" for b
    using less bases_below[OF ok that] by blast
  ultimately show ?case by (subst paths_to_unfold[OF ok]) auto
qed

definition paths_through :: "ancestry_map \<Rightarrow> inheritance \<Rightarrow> qualified_name \<Rightarrow> qualified_name \<Rightarrow> nat" where
  "paths_through m inheritance ancestor b =
     (if b = ancestor then 1 else card (paths_to m inheritance ancestor b))"

lemma paths_counted:
  assumes ok: "ancestry_ok rank m" and here: "map_of m derived = Some here"
  shows "card (paths_to m inheritance ancestor derived) =
     sum_list (map (paths_through m inheritance ancestor) (ancestry_bases here inheritance))"
proof -
  let ?through = "\<lambda>b. if b = ancestor then {[b]} else (#) b ` paths_to m inheritance ancestor b"
  have bs: "bases_by m inheritance derived = set (ancestry_bases here inheritance)"
    using here by (simp add: bases_by_def)
  have "card (\<Union>b \<in> bases_by m inheritance derived. ?through b) = (\<Sum>b \<in> bases_by m inheritance derived. card (?through b))"
    using paths_finite[OF ok] by (intro card_UN_disjoint) (auto simp: bs split: if_splits)
  also have "\<dots> = (\<Sum>b \<in> bases_by m inheritance derived. paths_through m inheritance ancestor b)"
    by (intro sum.cong) (auto simp: paths_through_def card_image)
  also have "\<dots> = sum_list (map (paths_through m inheritance ancestor) (ancestry_bases here inheritance))"
    unfolding bs using ancestry_okD(1)[OF ok here] by (simp add: sum_list_distinct_conv_sum_set)
  finally show ?thesis by (subst paths_to_unfold[OF ok])
qed

text \<open>What is joined, from what each base answers.\<close>

lemma join_counts:
  assumes "\<And>b. b \<in> set bs \<Longrightarrow>
      answer b = (if bad b then Unusable else if n b = 0 then No_Path else if n b = 1 then One_Path else Unusable)"
  shows "join_paths No_Path (map answer bs) =
      (if \<exists>b \<in> set bs. bad b then Unusable
       else if sum_list (map n bs) = 0 then No_Path
       else if sum_list (map n bs) = (1::nat) then One_Path else Unusable)"
proof (cases "\<exists>b \<in> set bs. bad b \<or> n b \<ge> 2")
  case True
  then obtain b where b: "b \<in> set bs" "bad b \<or> n b \<ge> 2" by blast
  then have "Unusable \<in> set (map answer bs)" using assms[OF b(1)] by (auto intro: rev_image_eqI)
  moreover have "n b \<le> sum_list (map n bs)" using b(1) by (simp add: member_le_sum_list)
  ultimately show ?thesis using b by (auto simp: join_paths_eq)
next
  case False
  then have one: "answer b = (if n b = 0 then No_Path else One_Path) \<and> n b \<le> 1" if "b \<in> set bs" for b
    using assms[OF that] that by (auto simp: not_le less_2_cases_iff)
  then have "count_list (map answer bs) One_Path = sum_list (map n bs)" "Unusable \<notin> set (map answer bs)"
    by (induction bs) (force simp: le_Suc_eq)+
  with False show ?thesis by (auto simp: join_paths_eq Let_def)
qed

lemma walk_counts:
  assumes ok: "ancestry_ok rank m"
  shows "card (classes_below rank m derived) \<le> depth \<Longrightarrow>
     walk_paths m ancestor inheritance depth derived =
       (if has_unnamed m derived \<or>
           (\<exists>b \<in> bases_by m inheritance derived. obscured m inheritance (\<lambda>c. c \<noteq> ancestor) b) then Unusable
        else let n = card (paths_to m inheritance ancestor derived) in
             if n = 0 then No_Path else if n = 1 then One_Path else Unusable)"
proof (induction depth arbitrary: derived)
  case 0
  have "map_of m derived = None"
  proof (rule ccontr)
    assume "map_of m derived \<noteq> None"
    then have "derived \<in> classes_below rank m derived" by (auto simp: map_of_eq_None_iff)
    with 0 show False by (auto simp: card_eq_0_iff)
  qed
  then show ?case
    by (subst paths_to_unfold[OF ok]) (simp add: has_unnamed_def bases_by_def)
next
  case (Suc depth)
  show ?case
  proof (cases "map_of m derived")
    case None
    then show ?thesis by (subst paths_to_unfold[OF ok]) (simp add: has_unnamed_def bases_by_def)
  next
    case (Some here)
    let ?bad = "obscured m inheritance (\<lambda>c. c \<noteq> ancestor)"
    let ?n = "paths_through m inheritance ancestor"
    have bs: "bases_by m inheritance derived = set (ancestry_bases here inheritance)"
      using Some by (simp add: bases_by_def)
    have "join_paths No_Path (map (\<lambda>b. if b = ancestor then One_Path else walk_paths m ancestor inheritance depth b)
        (ancestry_bases here inheritance)) =
      (if \<exists>b \<in> set (ancestry_bases here inheritance). ?bad b then Unusable
       else if sum_list (map ?n (ancestry_bases here inheritance)) = 0 then No_Path
       else if sum_list (map ?n (ancestry_bases here inheritance)) = 1 then One_Path else Unusable)"
    proof (rule join_counts)
      fix b assume b: "b \<in> set (ancestry_bases here inheritance)"
      have "card (classes_below rank m b) \<le> depth"
        using classes_below_base[OF ok Some b] Suc.prems by simp
      note Suc.IH[OF this]
      moreover have "?bad b \<longleftrightarrow> b \<noteq> ancestor \<and> (has_unnamed m b \<or> (\<exists>x \<in> bases_by m inheritance b. ?bad x))"
        by (subst obscured_unfold) simp
      ultimately show "(if b = ancestor then One_Path else walk_paths m ancestor inheritance depth b) =
          (if ?bad b then Unusable else if ?n b = 0 then No_Path else if ?n b = 1 then One_Path else Unusable)"
        by (simp add: paths_through_def Let_def)
    qed
    with Some bs paths_counted[OF ok Some, of inheritance ancestor] show ?thesis by (simp add: has_unnamed_def Let_def)
  qed
qed

lemma reached_exactly_once_iff:
  assumes ok: "ancestry_ok rank m"
  shows "reached_exactly_once m derived ancestor inheritance \<longleftrightarrow>
     (\<exists>!p. inherits_via (bases_by m inheritance) derived p ancestor) \<and>
     \<not> has_unnamed m derived \<and>
     \<not> (\<exists>b \<in> bases_by m inheritance derived. obscured m inheritance (\<lambda>c. c \<noteq> ancestor) b)"
proof -
  have "card (paths_to m inheritance ancestor derived) = 1 \<longleftrightarrow>
      (\<exists>!p. inherits_via (bases_by m inheritance) derived p ancestor)"
    by (simp add: card_1_singleton_iff set_eq_iff) metis
  then show ?thesis
    using walk_counts[OF ok classes_below_bound, where derived = derived and ancestor = ancestor and inheritance = inheritance]
    by (auto simp: reached_exactly_once_def Let_def)
qed

section \<open>Lookups are joined\<close>

lemma join_lookups_eq:
  "found \<noteq> Ambiguous \<Longrightarrow>
     join_lookups found ls =
       (let cs = {c. found = Found c \<or> Found c \<in> set ls} in
        if Ambiguous \<in> set ls \<or> (\<exists>c \<in> cs. \<exists>d \<in> cs. c \<noteq> d) then Ambiguous
        else if cs = {} then Nothing else Found (the_elem cs))"
proof (induction ls arbitrary: found)
  case Nil
  then show ?case by (cases found) auto
next
  case (Cons l ls)
  show ?case
  proof (cases l)
    case Ambiguous
    with Cons.prems show ?thesis by (cases found) auto
  next
    case Nothing
    have "join_lookups found (l # ls) = join_lookups found ls" using Nothing Cons.prems by (cases found) auto
    moreover have "Found c \<in> set (l # ls) \<longleftrightarrow> Found c \<in> set ls" "Ambiguous \<in> set (l # ls) \<longleftrightarrow> Ambiguous \<in> set ls" for c
      using Nothing by auto
    ultimately show ?thesis using Cons.IH[OF Cons.prems] by simp
  next
    case (Found d)
    show ?thesis
    proof (cases "found = Nothing \<or> found = Found d")
      case True
      then have "join_lookups found (l # ls) = join_lookups (Found d) ls" using Found by auto
      moreover have "{c. found = Found c \<or> Found c \<in> set (l # ls)} = {c. Found d = Found c \<or> Found c \<in> set ls}"
        using True Found by auto
      moreover have "Ambiguous \<in> set (l # ls) \<longleftrightarrow> Ambiguous \<in> set ls" using Found by simp
      ultimately show ?thesis using Cons.IH[of "Found d"] by simp
    next
      case False
      then obtain e where "found = Found e" "e \<noteq> d" using Cons.prems by (cases found) auto
      then show ?thesis using Found by (auto simp: Let_def)
    qed
  qed
qed

text \<open>The classes a lookup sees: those that declare the name with nothing below them that does.\<close>

definition visible ::
    "ancestry_map \<Rightarrow> (qualified_name \<Rightarrow> bool) \<Rightarrow> qualified_name \<Rightarrow> qualified_name set" where
  "visible m declares c = {x. in_sight m Inheritance_Any (\<lambda>y. \<not> declares y) c x \<and> declares x}"

lemma visible_declared: "declares c \<Longrightarrow> visible m declares c = {c}"
  unfolding visible_def by (subst in_sight_unfold) auto

lemma visible_undeclared:
  "\<not> declares c \<Longrightarrow> visible m declares c = (\<Union>b \<in> bases_by m Inheritance_Any c. visible m declares b)"
  unfolding visible_def by (subst in_sight_unfold) auto

lemma two_members: "(\<exists>c \<in> S. \<exists>d \<in> S. c \<noteq> d) \<longleftrightarrow> S \<noteq> {} \<and> (\<nexists>c. S = {c})"
proof
  assume a: "S \<noteq> {} \<and> (\<nexists>c. S = {c})"
  then obtain c where "c \<in> S" by blast
  with a show "\<exists>c \<in> S. \<exists>d \<in> S. c \<noteq> d" by blast
qed blast

lemma join_visible:
  assumes "\<And>b. b \<in> set bs \<Longrightarrow>
      answer b = (if bad b then Ambiguous
                  else if v b = {} then Nothing
                  else if \<exists>c. v b = {c} then Found (the_elem (v b)) else Ambiguous)"
  shows "join_lookups Nothing (map answer bs) =
      (let cs = (\<Union>b \<in> set bs. v b) in
       if \<exists>b \<in> set bs. bad b then Ambiguous
       else if cs = {} then Nothing
       else if \<exists>c. cs = {c} then Found (the_elem cs) else Ambiguous)"
proof (cases "\<exists>b \<in> set bs. answer b = Ambiguous")
  case True
  then obtain b where b: "b \<in> set bs" "answer b = Ambiguous" by blast
  then have "Ambiguous \<in> set (map answer bs)" by force
  then have l: "join_lookups Nothing (map answer bs) = Ambiguous" by (simp add: join_lookups_eq)
  have "bad b \<or> (v b \<noteq> {} \<and> (\<nexists>c. v b = {c}))" using assms[OF b(1)] b(2) by (auto split: if_splits)
  moreover have "v b \<subseteq> (\<Union>b \<in> set bs. v b)" using b(1) by blast
  ultimately show ?thesis using l b(1) by (auto simp: Let_def subset_singleton_iff)
next
  case False
  have one: "\<not> bad b \<and> (v b = {} \<and> answer b = Nothing \<or> (\<exists>c. v b = {c} \<and> answer b = Found c))" if "b \<in> set bs" for b
    using assms[OF that] False that by (auto split: if_splits)
  have cs: "(\<Union>b \<in> set bs. v b) = {c. Found c \<in> set (map answer bs)}" (is "?u = ?f")
  proof (intro equalityI subsetI)
    fix c assume "c \<in> ?u"
    then obtain b where b: "b \<in> set bs" "c \<in> v b" by blast
    with one[OF b(1)] have "answer b = Found c" by auto
    with b(1) show "c \<in> ?f" by force
  next
    fix c assume "c \<in> ?f"
    then obtain b where b: "b \<in> set bs" "answer b = Found c" by auto
    with one[OF b(1)] show "c \<in> ?u" by auto
  qed
  have "Ambiguous \<notin> set (map answer bs)" using False by auto
  then have "join_lookups Nothing (map answer bs) =
      (if \<exists>c \<in> ?f. \<exists>d \<in> ?f. c \<noteq> d then Ambiguous else if ?f = {} then Nothing else Found (the_elem ?f))"
    using join_lookups_eq[of Nothing "map answer bs"] by (simp add: Let_def)
  moreover have "\<not> (\<exists>b \<in> set bs. bad b)" using one by blast
  ultimately show ?thesis unfolding cs Let_def two_members[of ?f]
    by (cases "?f = {}"; cases "\<exists>c. ?f = {c}") simp_all
qed

lemma found_members:
  assumes "l = (if b then Ambiguous else if S = {} then Nothing
      else if \<exists>c. S = {c} then Found (the_elem S) else Ambiguous)"
  shows "l = Found c \<longleftrightarrow> \<not> b \<and> S = {c}" and "l = Nothing \<longleftrightarrow> \<not> b \<and> S = {}"
  unfolding assms by (auto split: if_splits)

lemma walk_sees:
  fixes declared :: declared_names and flat_scope :: "string list" and name :: string
  assumes ok: "ancestry_ok rank m"
  defines "decl \<equiv> declares_name declared flat_scope name"
  shows "card (classes_below rank m cls) < depth \<Longrightarrow>
     walk_lookup m declared flat_scope name depth cls =
       (if obscured m Inheritance_Any (\<lambda>c. \<not> decl c) cls then Ambiguous
        else if visible m decl cls = {} then Nothing
        else if \<exists>c. visible m decl cls = {c} then Found (the_elem (visible m decl cls))
        else Ambiguous)"
proof (induction depth arbitrary: cls)
  case (Suc depth)
  let ?bad = "obscured m Inheritance_Any (\<lambda>c. \<not> decl c)"
  show ?case
  proof (cases "decl cls")
    case True
    moreover from True have "\<not> ?bad cls" by (subst obscured_unfold) simp
    ultimately show ?thesis using visible_declared[of decl cls m] by (simp add: decl_def)
  next
    case False
    then have bad: "?bad cls \<longleftrightarrow> has_unnamed m cls \<or> (\<exists>b \<in> bases_by m Inheritance_Any cls. ?bad b)"
      by (subst obscured_unfold) simp
    note vis = visible_undeclared[of decl cls m, OF False]
    show ?thesis
    proof (cases "map_of m cls")
      case None
      with False bad vis show ?thesis by (simp add: decl_def has_unnamed_def bases_by_def)
    next
      case (Some here)
      have bs: "bases_by m Inheritance_Any cls = set (anc_bases here)"
        using Some by (simp add: bases_by_def ancestry_bases_def)
      have "join_lookups Nothing (map (walk_lookup m declared flat_scope name depth) (anc_bases here)) =
          (let cs = (\<Union>b \<in> set (anc_bases here). visible m decl b) in
           if \<exists>b \<in> set (anc_bases here). ?bad b then Ambiguous
           else if cs = {} then Nothing
           else if \<exists>c. cs = {c} then Found (the_elem cs) else Ambiguous)"
      proof (rule join_visible)
        fix b assume "b \<in> set (anc_bases here)"
        then have "card (classes_below rank m b) < depth"
          using classes_below_base[OF ok Some, of b Inheritance_Any] Suc.prems by (simp add: ancestry_bases_def)
        from Suc.IH[OF this] show "walk_lookup m declared flat_scope name depth b =
          (if ?bad b then Ambiguous else if visible m decl b = {} then Nothing
           else if \<exists>c. visible m decl b = {c} then Found (the_elem (visible m decl b)) else Ambiguous)" .
      qed
      with Some bs bad vis False show ?thesis by (simp add: has_unnamed_def decl_def Let_def)
    qed
  qed
qed simp

lemma look_up_member_iff:
  fixes declared :: declared_names and flat_scope :: "string list" and name :: string
  assumes ok: "ancestry_ok rank m"
  defines "decl \<equiv> declares_name declared flat_scope name"
  shows "look_up_member m declared flat_scope cls name = Found c \<longleftrightarrow>
       \<not> obscured m Inheritance_Any (\<lambda>c. \<not> decl c) cls \<and> visible m decl cls = {c}"
    and "look_up_member m declared flat_scope cls name = Nothing \<longleftrightarrow>
       \<not> obscured m Inheritance_Any (\<lambda>c. \<not> decl c) cls \<and> visible m decl cls = {}"
proof -
  let ?v = "visible m decl cls"
  have "card (classes_below rank m cls) < length m + 1" using classes_below_bound[of m rank cls] by simp
  note e = walk_sees[OF ok this, of declared flat_scope name, folded decl_def look_up_member_def]
  from found_members[OF e]
  show "look_up_member m declared flat_scope cls name = Found c \<longleftrightarrow>
       \<not> obscured m Inheritance_Any (\<lambda>c. \<not> decl c) cls \<and> ?v = {c}"
    and "look_up_member m declared flat_scope cls name = Nothing \<longleftrightarrow>
       \<not> obscured m Inheritance_Any (\<lambda>c. \<not> decl c) cls \<and> ?v = {}" .
qed

end
