(* ===== verification/Constructors.thy ===== *)
theory Constructors imports Pod begin

text \<open>
  Which special member functions C++ gives a class
  (\<^verbatim>\<open>analysis/fun/implicit_constructors.rs\<close>): what the header declares, what C++'s rules add or
  withdraw from the bases and fields of the class, and why a constructor is missing. Structs are
  visited fields and bases first, so the answers for them are on hand; \<open>None\<close> is a panic. The
  database of known types is the argument \<open>db\<close>.
\<close>

section \<open>What is found of one member\<close>

datatype special_member_found =
    NotPresent
  | Implicit
  | Explicit cpp_visibility

definition callable_any :: "special_member_found \<Rightarrow> bool" where
  "callable_any found \<longleftrightarrow> found = Explicit Public \<or> found = Implicit"

definition callable_subclass :: "special_member_found \<Rightarrow> bool" where
  "callable_subclass found \<longleftrightarrow>
     found = Explicit Public \<or> found = Explicit Protected \<or> found = Implicit"

definition member_exists :: "special_member_found \<Rightarrow> bool" where
  "member_exists found = (case found of Explicit _ \<Rightarrow> True | Implicit \<Rightarrow> True | NotPresent \<Rightarrow> False)"

definition exists_implicit :: "special_member_found \<Rightarrow> bool" where
  "exists_implicit found \<longleftrightarrow> found = Implicit"

definition exists_explicit :: "special_member_found \<Rightarrow> bool" where
  "exists_explicit found = (case found of Explicit _ \<Rightarrow> True | _ \<Rightarrow> False)"

fun special_member_to_string :: "special_member_kind \<Rightarrow> string" where
  "special_member_to_string DefaultConstructor = ''default constructor''"
| "special_member_to_string CopyConstructor = ''copy constructor''"
| "special_member_to_string MoveConstructor = ''move constructor''"
| "special_member_to_string Destructor = ''destructor''"
| "special_member_to_string AssignmentOperator = ''assignment operator''"

section \<open>Why a member is missing\<close>

datatype why_no_special_member =
    DependenciesNotUnderstood "string list"
  | DeclaredOpaque
  | DependencyLacksIt string special_member_kind
  | ReferenceField "string option"
  | ConstField "string option"
  | RvalueReferenceField
  | MoveConstructorDeclared
  | ImplicitCopyConstructorIsNonConst string

definition describe :: "why_no_special_member \<Rightarrow> special_member_kind \<Rightarrow> string" where
  "describe why m =
     (case why of
        DependenciesNotUnderstood nms \<Rightarrow>
          (if nms = []
      then ''autocxx has not given this type a '' @ special_member_to_string m @
        '': it could not work out all of this class's members, and so cannot tell which special '' @
        ''member functions C++ declares for it. Any constructor which the C++ source declares '' @
        ''explicitly is still available.''
      else ''autocxx has not given this type a '' @ special_member_to_string m @
        '': it does not understand '' @ join '', '' nms @ '', which this class has as a base or a '' @
        ''field, and so cannot tell which special member functions C++ declares for it. Naming '' @
        ''the offending type in a `generate!` directive may be enough to work it out. Any '' @
        ''constructor which the C++ source declares explicitly is still available.'')
      | DeclaredOpaque \<Rightarrow>
          (''autocxx has not given this type a '' @ special_member_to_string m @
     '': it was declared opaque, so its members are not visible here and C++'s rules for which '' @
     ''special member functions it declares cannot be run. Any constructor which the C++ source '' @
     ''declares explicitly is still available.'')
      | DependencyLacksIt dependency lacking \<Rightarrow>
          (''C++ gives this type no '' @ special_member_to_string m @ '', because its '' @ dependency @
     '' has no accessible '' @ special_member_to_string lacking @ ''.'')
      | ReferenceField (Some field) \<Rightarrow>
          (''C++ gives this type no '' @ special_member_to_string m @ '', because its field `'' @ field @
     ''` is a reference with no default member initializer, leaving an implicitly declared '' @
     ''constructor nothing to bind it to. A constructor written out in the C++ source can bind '' @
     ''it in its member initializer list.'')
      | ReferenceField None \<Rightarrow>
          (''C++ gives this type no '' @ special_member_to_string m @ '', because it has a reference '' @
     ''field with no default member initializer, leaving an implicitly declared constructor '' @
     ''nothing to bind it to. A constructor written out in the C++ source can bind it in its '' @
     ''member initializer list.'')
      | ConstField (Some field) \<Rightarrow>
          (''autocxx has not given this type a '' @ special_member_to_string m @
     '', because its field `'' @ field @ ''` is `const`, has no default member initializer, and '' @
     ''so an implicitly declared constructor would have no way to give it its one and only '' @
     ''value. C++ still declares one if the field is of a class type with a default constructor '' @
     ''of its own; autocxx cannot see that, and assumes not. A constructor written out in the '' @
     ''C++ source can initialize the field in its member initializer list.'')
      | ConstField None \<Rightarrow>
          (''autocxx has not given this type a '' @ special_member_to_string m @
     '', because it has a `const` field with no default member initializer, and so an '' @
     ''implicitly declared constructor would have no way to give it its one and only value. C++ '' @
     ''still declares one if the field is of a class type with a default constructor of its '' @
     ''own; autocxx cannot see that, and assumes not. A constructor written out in the C++ '' @
     ''source can initialize the field in its member initializer list.'')
      | RvalueReferenceField \<Rightarrow>
          (''C++ gives this type no '' @ special_member_to_string m @
     '', because it has a field of rvalue reference (`&&`) type.'')
      | MoveConstructorDeclared \<Rightarrow>
          (''C++ gives this type no '' @ special_member_to_string m @
     '', because it declares a move constructor, which withdraws the copy constructor C++ would '' @
     ''otherwise have declared implicitly.'')
      | ImplicitCopyConstructorIsNonConst dependency \<Rightarrow>
          (''autocxx has not given this type a '' @ special_member_to_string m @
     ''. C++ declares one, but as `T(T&)` rather than `T(const T&)`, because its '' @ dependency @
     '' has no copy constructor accepting a const source - and a constructor which copies from '' @
     ''a mutable lvalue is not something autocxx can synthesize or expose as CopyNew. A copy '' @
     ''constructor written out in the C++ source is still available.''))"

record why_no_constructors =
  why_default_constructor :: "why_no_special_member option"
  why_copy_constructor :: "why_no_special_member option"
  why_move_constructor :: "why_no_special_member option"

definition no_reasons :: why_no_constructors where
  "no_reasons = \<lparr>why_default_constructor = None, why_copy_constructor = None,
                 why_move_constructor = None\<rparr>"

definition describe_base :: "qualified_name \<Rightarrow> string" where
  "describe_base base = ''base class `'' @ to_cpp_name base @ ''`''"

definition describe_field :: "field_info \<Rightarrow> qualified_name option \<Rightarrow> string" where
  "describe_field field ty =
     (let qualifier = (if fi_is_const field
                       then if fi_is_volatile field then ''`const volatile` '' else ''`const` ''
                       else if fi_is_volatile field then ''`volatile` '' else '''')
      in case (fi_name field, ty) of
           (Some name, Some tp) \<Rightarrow>
             qualifier @ ''field `'' @ name @ ''` of type `'' @ to_cpp_name tp @ ''`''
         | (Some name, None) \<Rightarrow> qualifier @ ''field `'' @ name @ ''`''
         | (None, Some tp) \<Rightarrow> qualifier @ ''field of type `'' @ to_cpp_name tp @ ''`''
         | (None, None) \<Rightarrow> ''a '' @ qualifier @ ''field'')"

section \<open>What is found of a class\<close>

record items_found =
  mem_default_constructor :: special_member_found
  mem_destructor :: special_member_found
  mem_const_copy_constructor :: special_member_found
  mem_non_const_copy_constructor :: special_member_found
  mem_move_constructor :: special_member_found
  mem_const_move_constructor :: "special_member_found option"
  mem_destructor_is_trivial :: bool
  mem_name :: "api_name option"
  mem_why_no_constructors :: why_no_constructors

definition implicit_default_constructor_needed :: "items_found \<Rightarrow> bool" where
  "implicit_default_constructor_needed items = exists_implicit (mem_default_constructor items)"

definition no_explicit_copy_constructor :: "items_found \<Rightarrow> bool" where
  "no_explicit_copy_constructor items \<longleftrightarrow>
     \<not> (exists_explicit (mem_const_copy_constructor items) \<or>
        exists_explicit (mem_non_const_copy_constructor items))"

definition implicit_const_copy_constructor_needed :: "items_found \<Rightarrow> bool" where
  "implicit_const_copy_constructor_needed items \<longleftrightarrow>
     exists_implicit (mem_const_copy_constructor items) \<and> no_explicit_copy_constructor items"

definition implicit_move_constructor_needed :: "items_found \<Rightarrow> bool" where
  "implicit_move_constructor_needed items = exists_implicit (mem_move_constructor items)"

definition implicit_destructor_needed :: "items_found \<Rightarrow> bool" where
  "implicit_destructor_needed items = exists_implicit (mem_destructor items)"

section \<open>What the header declares\<close>

datatype explicit_kind =
    ExplicitKind_DefaultConstructor
  | ConstCopyConstructor
  | NonConstCopyConstructor
  | ExplicitKind_MoveConstructor
  | OtherConstructor
  | ExplicitKind_Destructor
  | ConstCopyAssignmentOperator
  | NonConstCopyAssignmentOperator
  | MoveAssignmentOperator

datatype explicit_found =
    UserDefined cpp_visibility
  | Found_Defaulted cpp_visibility
  | Found_Deleted
  | Multiple

definition is_defaulted :: "explicit_found option \<Rightarrow> bool" where
  "is_defaulted expl = (case expl of Some (Found_Defaulted _) \<Rightarrow> True | _ \<Rightarrow> False)"

definition found_as_declared :: "explicit_found option \<Rightarrow> special_member_found" where
  "found_as_declared expl =
     (case expl of Some (Found_Defaulted vis) \<Rightarrow> Explicit vis | _ \<Rightarrow> Implicit)"

definition found_only_if_defaulted :: "explicit_found option \<Rightarrow> special_member_found" where
  "found_only_if_defaulted expl =
     (case expl of Some (Found_Defaulted vis) \<Rightarrow> Explicit vis | _ \<Rightarrow> NotPresent)"

definition found_if_user_defined :: "explicit_found option \<Rightarrow> special_member_found" where
  "found_if_user_defined expl =
     (case expl of Some (UserDefined vis) \<Rightarrow> Explicit vis | _ \<Rightarrow> NotPresent)"

type_synonym explicit_map = "(qualified_name \<times> explicit_kind, explicit_found) index_map"

record explicit_items =
  ei_explicits :: explicit_map
  ei_unknown_types :: "qualified_name list"
  ei_const_move_constructors :: "qualified_name list"
  ei_const_volatile_copy_constructors :: "qualified_name list"

definition merge_fun ::
    "qualified_name \<Rightarrow> explicit_kind \<Rightarrow> func_to_convert \<Rightarrow> explicit_map \<Rightarrow> explicit_map" where
  "merge_fun ty kind fn result =
     imap_insert (ty, kind)
       (case map_of result (ty, kind) of
          Some _ \<Rightarrow> Multiple
        | None \<Rightarrow>
            (case fc_is_deleted fn of
               Some Explicitness_Deleted \<Rightarrow> Found_Deleted
             | Some Explicitness_Defaulted \<Rightarrow> Found_Defaulted (fc_cpp_vis fn)
             | None \<Rightarrow> UserDefined (fc_cpp_vis fn)))
       result"

text \<open>The type of the second parameter, where bindgen puts the source of a copy or a move.\<close>

definition source_path :: "fn_arg list \<Rightarrow> type_path option" where
  "source_path inputs =
     (case inputs of
        _ # FnArg_Typed _ (Type_Path typ) # _ \<Rightarrow> Some typ
      | _ \<Rightarrow> None)"

definition assignment_operator_kind :: "fn_arg list \<Rightarrow> explicit_kind" where
  "assignment_operator_kind inputs =
     (case source_path inputs of
        None \<Rightarrow> ConstCopyAssignmentOperator
      | Some typ \<Rightarrow>
          if unwrap_reference typ True \<noteq> None then MoveAssignmentOperator
          else case unwrap_reference typ False of
                 Some (mutability, elem) \<Rightarrow>
                   if ptr_is_mut mutability then NonConstCopyAssignmentOperator
                   else ConstCopyAssignmentOperator
               | None \<Rightarrow> ConstCopyAssignmentOperator)"

definition source_is_const_rvalue_reference :: "fn_arg list \<Rightarrow> bool" where
  "source_is_const_rvalue_reference inputs =
     (case source_path inputs of
        None \<Rightarrow> False
      | Some typ \<Rightarrow>
          (case unwrap_reference typ True of
             Some (mutability, elem) \<Rightarrow> \<not> ptr_is_mut mutability
           | None \<Rightarrow> False))"

definition source_is_const_volatile_reference :: "fn_arg list \<Rightarrow> bool" where
  "source_is_const_volatile_reference inputs =
     (case source_path inputs of
        None \<Rightarrow> False
      | Some typ \<Rightarrow>
          (case unwrap_reference typ False of
             Some (mutability, elem) \<Rightarrow> \<not> ptr_is_mut mutability \<and> is_volatile_qualified elem
           | None \<Rightarrow> False))"

text \<open>An assignment operator counts only where nothing but being one was held against it.\<close>

definition only_ignored_as_assignment :: "fn_analysis \<Rightarrow> bool" where
  "only_ignored_as_assignment analysis =
     (case fa_ignore_reason analysis of
        Inr _ \<Rightarrow> True
      | Inl (ConvertErrorWithContext ConvertError_AssignmentOperator _) \<Rightarrow> True
      | _ \<Rightarrow> False)"

fun find_explicit_item :: "fn_pre_phase1 \<Rightarrow> explicit_items \<Rightarrow> explicit_items" where
  "find_explicit_item (Api_Function name fn analysis) items =
     (case fa_kind analysis of
        FnKind_Method m impl_for \<Rightarrow>
          if fc_special_member fn = Some AssignmentOperator then
            if only_ignored_as_assignment analysis then
              items\<lparr>ei_explicits := merge_fun impl_for (assignment_operator_kind (fc_inputs fn)) fn
                                     (ei_explicits items)\<rparr>
            else items\<lparr>ei_unknown_types := iset_insert impl_for (ei_unknown_types items)\<rparr>
          else
            (case (case m of
                     Constructor True \<Rightarrow> Some ExplicitKind_DefaultConstructor
                   | Constructor False \<Rightarrow>
                       if fc_special_member fn = Some CopyConstructor then Some NonConstCopyConstructor
                       else Some OtherConstructor
                   | _ \<Rightarrow> None) of
               Some kind \<Rightarrow> items\<lparr>ei_explicits := merge_fun impl_for kind fn (ei_explicits items)\<rparr>
             | None \<Rightarrow> items)
      | FnKind_TraitMethod Trait_Destructor impl_for _ \<Rightarrow>
          items\<lparr>ei_explicits := merge_fun impl_for ExplicitKind_Destructor fn (ei_explicits items)\<rparr>
      | FnKind_TraitMethod Trait_CopyConstructor impl_for _ \<Rightarrow>
          items\<lparr>ei_const_volatile_copy_constructors :=
                  (if source_is_const_volatile_reference (fc_inputs fn)
                   then iset_insert impl_for (ei_const_volatile_copy_constructors items)
                   else ei_const_volatile_copy_constructors items),
                ei_explicits := merge_fun impl_for ConstCopyConstructor fn (ei_explicits items)\<rparr>
      | FnKind_TraitMethod Trait_MoveConstructor impl_for _ \<Rightarrow>
          items\<lparr>ei_const_move_constructors :=
                  (if source_is_const_rvalue_reference (fc_inputs fn)
                   then iset_insert impl_for (ei_const_move_constructors items)
                   else ei_const_move_constructors items),
                ei_explicits := merge_fun impl_for ExplicitKind_MoveConstructor fn (ei_explicits items)\<rparr>
      | _ \<Rightarrow> items)"
| "find_explicit_item _ items = items"

definition no_explicit_items :: explicit_items where
  "no_explicit_items = \<lparr>ei_explicits = [], ei_unknown_types = [], ei_const_move_constructors = [],
                        ei_const_volatile_copy_constructors = []\<rparr>"

type_synonym fn_pre_phase1_apis = "(typedef_analysis, pod_analysis, fn_analysis, unit) api_vec"

definition find_explicit_items :: "fn_pre_phase1_apis \<Rightarrow> explicit_items" where
  "find_explicit_items v = fold find_explicit_item (apis v) no_explicit_items"

section \<open>What is known of the types a class is made of\<close>

definition known_type_items_found :: "known_type_constructor_details \<Rightarrow> items_found" where
  "known_type_items_found details =
     (let exists_public = Explicit Public;
          exists_public_if = (\<lambda>b. if b then exists_public else NotPresent)
      in \<lparr>mem_default_constructor = exists_public,
          mem_destructor = exists_public,
          mem_const_copy_constructor = exists_public_if (has_const_copy_constructor details),
          mem_non_const_copy_constructor = NotPresent,
          mem_move_constructor = exists_public_if (has_move_constructor details),
          mem_const_move_constructor = None,
          mem_destructor_is_trivial = kt_destructor_is_trivial details,
          mem_name = None,
          mem_why_no_constructors = no_reasons\<rparr>)"

text \<open>The stand-ins for an enum, a pointer field and a reference field.\<close>

definition scalar_items_found :: "special_member_found \<Rightarrow> api_name \<Rightarrow> items_found" where
  "scalar_items_found default_found name =
     \<lparr>mem_default_constructor = default_found,
      mem_destructor = Implicit,
      mem_const_copy_constructor = Implicit,
      mem_non_const_copy_constructor = NotPresent,
      mem_move_constructor = Implicit,
      mem_const_move_constructor = None,
      mem_destructor_is_trivial = True,
      mem_name = Some name,
      mem_why_no_constructors = no_reasons\<rparr>"

definition enum_items_found :: "api_name \<Rightarrow> items_found" where
  "enum_items_found name = scalar_items_found NotPresent name"

definition pointer_items_found :: "api_name \<Rightarrow> items_found" where
  "pointer_items_found name = scalar_items_found Implicit name"

definition reference_items_found :: "api_name \<Rightarrow> items_found" where
  "reference_items_found name = scalar_items_found NotPresent name"

text \<open>Everything the visit of one struct looks up; \<open>cs_found\<close> is what earlier visits concluded.\<close>

record constructor_search =
  cs_db :: type_database
  cs_enums :: "qualified_name list"
  cs_typedefs :: "(qualified_name, qualified_name) index_map"
  cs_explicit :: explicit_items
  cs_found :: "(qualified_name, items_found) index_map"

definition get_items_found ::
    "constructor_search \<Rightarrow> api_name \<Rightarrow> qualified_name \<Rightarrow> items_found option" where
  "get_items_found cs name qn =
     (if qn \<in> set (cs_enums cs) then Some (enum_items_found name)
      else case get_constructor_details (cs_db cs) qn of
        Some details \<Rightarrow> Some (known_type_items_found details)
      | None \<Rightarrow> map_of (cs_found cs) qn)"

definition get_base_items_found ::
    "constructor_search \<Rightarrow> api_name \<Rightarrow> qualified_name \<Rightarrow> items_found option" where
  "get_base_items_found cs name qn = get_items_found cs name (resolve_typedefs (cs_typedefs cs) qn)"

text \<open>The inner \<open>None\<close> is a field of no nameable type, the outer one the panic on an empty path.\<close>

definition field_type_name :: "field_info \<Rightarrow> qualified_name option option" where
  "field_type_name field =
     (case array_element_type (fi_ty field) of
        Type_Path typ \<Rightarrow> map_option Some (from_type_path typ)
      | _ \<Rightarrow> Some None)"

text \<open>
  Every field is asked for its type's name once, in order, so the panic of any of them is the
  panic of the visit; afterwards a field travels with the answer.
\<close>

definition named_fields :: "field_info list \<Rightarrow> (field_info \<times> qualified_name option) list option" where
  "named_fields infos = those (map (\<lambda>f. map_option (Pair f) (field_type_name f)) infos)"

fun bases_items_found ::
    "constructor_search \<Rightarrow> api_name \<Rightarrow> qualified_name list \<Rightarrow> (string \<times> items_found) list" where
  "bases_items_found cs name [] = []"
| "bases_items_found cs name (base # bases) =
     (case get_base_items_found cs name base of
        Some found \<Rightarrow> (describe_base base, found) # bases_items_found cs name bases
      | None \<Rightarrow> [])"

definition is_regular_kind :: "converted_kind \<Rightarrow> bool" where
  "is_regular_kind kind =
     (case kind of Kind_Regular \<Rightarrow> True | Kind_SubclassHolder _ \<Rightarrow> True | _ \<Rightarrow> False)"

definition is_reference_kind :: "converted_kind \<Rightarrow> bool" where
  "is_reference_kind kind =
     (case kind of
        Kind_Reference \<Rightarrow> True
      | Kind_MutableReference \<Rightarrow> True
      | Kind_RValueReference \<Rightarrow> True
      | _ \<Rightarrow> False)"

definition held_items_found ::
    "constructor_search \<Rightarrow> api_name \<Rightarrow> field_info \<Rightarrow> qualified_name option \<Rightarrow> items_found option" where
  "held_items_found cs name field ty =
     (case fi_type_kind field of
        Kind_Pointer \<Rightarrow> Some (pointer_items_found name)
      | Kind_Reference \<Rightarrow> Some (reference_items_found name)
      | Kind_MutableReference \<Rightarrow> Some (reference_items_found name)
      | Kind_RValueReference \<Rightarrow> Some (reference_items_found name)
      | _ \<Rightarrow> (case ty of Some tp \<Rightarrow> get_items_found cs name tp | None \<Rightarrow> None))"

text \<open>What a field can do, which is not always what its type can do.\<close>

definition credit_initializer :: "field_info \<Rightarrow> items_found \<Rightarrow> items_found" where
  "credit_initializer field items =
     (if fi_has_default_initializer field then items\<lparr>mem_default_constructor := Implicit\<rparr> else items)"

definition answer_for_const :: "field_info \<Rightarrow> items_found \<Rightarrow> items_found" where
  "answer_for_const field items =
     (if fi_is_const field then
        items\<lparr>mem_move_constructor :=
                (case mem_const_move_constructor items of
                   Some found \<Rightarrow> found
                 | None \<Rightarrow> mem_const_copy_constructor items),
              mem_non_const_copy_constructor := NotPresent\<rparr>
      else items)"

definition volatile_member_of_class_type ::
    "constructor_search \<Rightarrow> field_info \<Rightarrow> qualified_name option \<Rightarrow> bool" where
  "volatile_member_of_class_type cs field ty \<longleftrightarrow>
     fi_is_volatile field \<and> is_regular_kind (fi_type_kind field) \<and>
     (fi_holds_std_array field \<or>
      \<not> (case ty of
           Some tp \<Rightarrow> tp \<in> set (cs_enums cs) \<or> copyable_from_volatile (cs_db cs) tp
         | None \<Rightarrow> False))"

definition answer_for_volatile ::
    "constructor_search \<Rightarrow> field_info \<Rightarrow> qualified_name option \<Rightarrow> items_found \<Rightarrow> items_found" where
  "answer_for_volatile cs field ty items =
     (if volatile_member_of_class_type cs field ty then
        items\<lparr>mem_const_copy_constructor :=
                (if fi_holds_std_array field \<or>
                    \<not> (case ty of
                         Some tp \<Rightarrow> tp \<in> set (ei_const_volatile_copy_constructors (cs_explicit cs))
                       | None \<Rightarrow> False)
                 then NotPresent else mem_const_copy_constructor items),
              mem_non_const_copy_constructor := NotPresent,
              mem_move_constructor := NotPresent\<rparr>
      else items)"

definition field_items_found ::
    "constructor_search \<Rightarrow> api_name \<Rightarrow> field_info \<times> qualified_name option \<Rightarrow>
     (string \<times> items_found) option" where
  "field_items_found cs name = (\<lambda>(field, ty).
     map_option
       (\<lambda>items. (describe_field field ty,
          answer_for_volatile cs field ty (answer_for_const field (credit_initializer field items))))
       (held_items_found cs name field ty))"

definition fields_items_found ::
    "constructor_search \<Rightarrow> api_name \<Rightarrow> (field_info \<times> qualified_name option) list \<Rightarrow>
     (string \<times> items_found) list" where
  "fields_items_found cs name infos = List.map_filter (field_items_found cs name) infos"

definition unknown_dependencies ::
    "constructor_search \<Rightarrow> api_name \<Rightarrow> qualified_name list \<Rightarrow>
     (field_info \<times> qualified_name option) list \<Rightarrow> string list" where
  "unknown_dependencies cs name bases infos =
     (let name_of = (\<lambda>qn. ''`'' @ to_cpp_name qn @ ''`'')
      in map name_of (filter (\<lambda>base. get_base_items_found cs name base = None) bases) @
         List.map_filter
           (\<lambda>(field, ty).
              if is_regular_kind (fi_type_kind field) then
                case ty of
                  None \<Rightarrow> Some (describe_field field None)
                | Some tp \<Rightarrow>
                    if get_items_found cs name tp = None then Some (name_of tp) else None
              else None)
           infos)"

text \<open>The requirements of one rule, as members each with whether it is met.\<close>

fun first_dependency_lacking ::
    "(string \<times> items_found) list \<Rightarrow> (items_found \<Rightarrow> (special_member_kind \<times> bool) list) \<Rightarrow>
     why_no_special_member option" where
  "first_dependency_lacking [] requirements = None"
| "first_dependency_lacking ((dependency, items) # rest) requirements =
     (case List.find (\<lambda>(m, met). \<not> met) (requirements items) of
        Some (m, _) \<Rightarrow> Some (DependencyLacksIt dependency m)
      | None \<Rightarrow> first_dependency_lacking rest requirements)"

text \<open>\<open>or_else\<close> of the source: the first answer there is.\<close>

definition or_else :: "'a option \<Rightarrow> 'a option \<Rightarrow> 'a option" where
  "or_else a b = (case a of None \<Rightarrow> b | Some _ \<Rightarrow> a)"


section \<open>C++'s rules for one class\<close>

type_synonym parts = "(string \<times> items_found) list"
type_synonym find_explicit = "explicit_kind \<Rightarrow> explicit_found option"

definition first_lacking ::
    "parts \<Rightarrow> parts \<Rightarrow> (items_found \<Rightarrow> (special_member_kind \<times> bool) list) \<Rightarrow>
     (items_found \<Rightarrow> (special_member_kind \<times> bool) list) \<Rightarrow> why_no_special_member option" where
  "first_lacking bases infos of_base of_field =
     or_else (first_dependency_lacking bases of_base) (first_dependency_lacking infos of_field)"

definition reference_field :: "field_info list \<Rightarrow> why_no_special_member option" where
  "reference_field infos =
     map_option (\<lambda>f. ReferenceField (fi_name f))
       (List.find (\<lambda>f. \<not> fi_has_default_initializer f \<and> is_reference_kind (fi_type_kind f)) infos)"

definition const_field :: "field_info list \<Rightarrow> data_member list \<Rightarrow> why_no_special_member option" where
  "const_field infos bitfields =
     (case map fi_name (filter (\<lambda>f. fi_is_const f \<and> \<not> fi_has_default_initializer f) infos) @
           map dm_name (filter (\<lambda>b. dm_is_const b \<and> \<not> dm_has_default_member_initializer b) bitfields) of
        [] \<Rightarrow> None
      | field # _ \<Rightarrow> Some (ConstField field))"

definition declares_constructor :: "explicit_map \<Rightarrow> qualified_name \<Rightarrow> bool" where
  "declares_constructor explicits name =
     list_ex (\<lambda>((ty, kind), _). ty = name \<and>
                kind \<in> {ConstCopyConstructor, NonConstCopyConstructor, ExplicitKind_MoveConstructor,
                         OtherConstructor}) explicits"

definition default_constructor_found ::
    "find_explicit \<Rightarrow> bool \<Rightarrow> bool \<Rightarrow> why_no_special_member option \<Rightarrow>
     why_no_special_member option \<Rightarrow> parts \<Rightarrow> parts \<Rightarrow>
     special_member_found \<times> why_no_special_member option" where
  "default_constructor_found declared declares has_rvalue_reference_fields reference const bases infos =
     (let expl = declared ExplicitKind_DefaultConstructor;
          have_defaulted = (is_defaulted expl \<or> (expl = None \<and> \<not> declares))
      in if have_defaulted then
           let blocker =
                 (if has_rvalue_reference_fields then Some RvalueReferenceField
                  else case reference of
                    Some r \<Rightarrow> Some r
                  | None \<Rightarrow>
                      (case const of
                         Some c \<Rightarrow> Some c
                       | None \<Rightarrow>
                           first_lacking bases infos
                             (\<lambda>items. [(Destructor, callable_subclass (mem_destructor items)),
                                       (DefaultConstructor,
                                        callable_subclass (mem_default_constructor items))])
                             (\<lambda>items. [(Destructor, callable_any (mem_destructor items)),
                                       (DefaultConstructor,
                                        callable_any (mem_default_constructor items))])))
           in case blocker of
                None \<Rightarrow> (found_as_declared expl, None)
              | Some why \<Rightarrow> (NotPresent, Some why)
         else (found_if_user_defined expl, None))"

definition destructor_found :: "find_explicit \<Rightarrow> parts \<Rightarrow> parts \<Rightarrow> special_member_found" where
  "destructor_found declared bases infos =
     (let expl = declared ExplicitKind_Destructor
      in if expl = None \<or> is_defaulted expl then
           if list_all (\<lambda>(_, items). callable_subclass (mem_destructor items)) bases \<and>
              list_all (\<lambda>(_, items). callable_any (mem_destructor items)) infos
           then found_as_declared expl
           else NotPresent
         else found_if_user_defined expl)"

definition copyable_base :: "items_found \<Rightarrow> bool" where
  "copyable_base items \<longleftrightarrow> callable_subclass (mem_const_copy_constructor items) \<or>
     callable_subclass (mem_non_const_copy_constructor items)"

definition copyable_field :: "items_found \<Rightarrow> bool" where
  "copyable_field items \<longleftrightarrow> callable_any (mem_const_copy_constructor items) \<or>
     callable_any (mem_non_const_copy_constructor items)"

definition copy_constructors_found ::
    "find_explicit \<Rightarrow> bool \<Rightarrow> parts \<Rightarrow> parts \<Rightarrow>
     special_member_found \<times> special_member_found \<times> why_no_special_member option" where
  "copy_constructors_found declared has_rvalue_reference_fields bases infos =
     (let explicit_const = declared ConstCopyConstructor;
          explicit_non_const = declared NonConstCopyConstructor;
          explicit_move = declared ExplicitKind_MoveConstructor;
          copy_is_defaulted = (is_defaulted explicit_const \<or> is_defaulted explicit_non_const);
          have_defaulted = ((explicit_const = None \<or> is_defaulted explicit_const) \<and>
                            (explicit_non_const = None \<or> is_defaulted explicit_non_const))
      in if have_defaulted then
           let blocker =
                 (if has_rvalue_reference_fields then Some RvalueReferenceField
                  else if \<not> copy_is_defaulted \<and> explicit_move \<noteq> None then Some MoveConstructorDeclared
                  else first_lacking bases infos
                         (\<lambda>items. [(Destructor, callable_subclass (mem_destructor items)),
                                   (CopyConstructor, copyable_base items)])
                         (\<lambda>items. [(Destructor, callable_any (mem_destructor items)),
                                   (CopyConstructor, copyable_field items)]))
           in case blocker of
                Some why \<Rightarrow> (NotPresent, NotPresent, Some why)
              | None \<Rightarrow>
                  if copy_is_defaulted then
                    (found_only_if_defaulted explicit_const, found_only_if_defaulted explicit_non_const, None)
                  else
                    (case List.find (\<lambda>(_, items). \<not> member_exists (mem_const_copy_constructor items))
                            (bases @ infos) of
                       None \<Rightarrow> (Implicit, NotPresent, None)
                     | Some (dependency, _) \<Rightarrow>
                         (NotPresent, Implicit, Some (ImplicitCopyConstructorIsNonConst dependency)))
         else (found_if_user_defined explicit_const, found_if_user_defined explicit_non_const, None))"

definition move_constructor_found ::
    "find_explicit \<Rightarrow> parts \<Rightarrow> parts \<Rightarrow> special_member_found \<times> why_no_special_member option" where
  "move_constructor_found declared bases infos =
     (let expl = declared ExplicitKind_MoveConstructor;
          have_defaulted =
            (is_defaulted expl \<or>
             \<not> (expl \<noteq> None \<or> declared ConstCopyConstructor \<noteq> None \<or> declared NonConstCopyConstructor \<noteq> None \<or>
                declared ConstCopyAssignmentOperator \<noteq> None \<or> declared NonConstCopyAssignmentOperator \<noteq> None \<or>
                declared MoveAssignmentOperator \<noteq> None \<or> declared ExplicitKind_Destructor \<noteq> None))
      in if have_defaulted then
           case first_lacking bases infos
                  (\<lambda>items. [(Destructor, callable_subclass (mem_destructor items)),
                            (MoveConstructor, callable_subclass (mem_move_constructor items))])
                  (\<lambda>items. [(MoveConstructor, callable_any (mem_move_constructor items))]) of
             None \<Rightarrow> (found_as_declared expl, None)
           | Some why \<Rightarrow> (NotPresent, Some why)
         else (found_if_user_defined expl, None))"

text \<open>A class whose bases and fields are all understood.\<close>

definition understood_items_found ::
    "constructor_search \<Rightarrow> api_name \<Rightarrow> find_explicit \<Rightarrow> struct_details \<Rightarrow> pod_analysis \<Rightarrow> parts \<Rightarrow>
     parts \<Rightarrow> items_found" where
  "understood_items_found cs name declared details analysis bases infos =
     (let (default_ctor, why_default) =
            default_constructor_found declared (declares_constructor (ei_explicits (cs_explicit cs)) (an_name name))
              (sd_has_rvalue_reference_fields details) (reference_field (pa_field_info analysis))
              (const_field (pa_field_info analysis) (pa_bitfields analysis)) bases infos;
          dtor = destructor_found declared bases infos;
          (const_copy, non_const_copy, why_copy) =
            copy_constructors_found declared (sd_has_rvalue_reference_fields details) bases infos;
          (move_ctor, why_move) = move_constructor_found declared bases infos
      in \<lparr>mem_default_constructor = default_ctor,
          mem_destructor = dtor,
          mem_const_copy_constructor = const_copy,
          mem_non_const_copy_constructor = non_const_copy,
          mem_move_constructor = move_ctor,
          mem_const_move_constructor =
            (if an_name name \<in> set (ei_const_move_constructors (cs_explicit cs)) then Some move_ctor else None),
          mem_destructor_is_trivial =
            (exists_implicit dtor \<and> list_all (\<lambda>(_, items). mem_destructor_is_trivial items) (bases @ infos)),
          mem_name = Some name,
          mem_why_no_constructors =
            \<lparr>why_default_constructor = why_default, why_copy_constructor = why_copy,
             why_move_constructor = why_move\<rparr>\<rparr>)"

text \<open>
  A class that is opaque or has a base or field nothing is known of: only what the header declares
  outright, and the one optimistic answer, its destructor.
\<close>

definition is_explicit :: "find_explicit \<Rightarrow> explicit_kind \<Rightarrow> special_member_found" where
  "is_explicit declared kind =
     (case declared kind of
        None \<Rightarrow> NotPresent
      | Some (UserDefined vis) \<Rightarrow> Explicit vis
      | Some _ \<Rightarrow> NotPresent)"

definition declared_destructor :: "find_explicit \<Rightarrow> special_member_found" where
  "declared_destructor declared =
     (case declared ExplicitKind_Destructor of
        None \<Rightarrow> Implicit
      | Some Multiple \<Rightarrow> Explicit Public
      | Some Found_Deleted \<Rightarrow> NotPresent
      | Some (UserDefined vis) \<Rightarrow> Explicit vis
      | Some (Found_Defaulted vis) \<Rightarrow> Explicit vis)"

definition explicit_items_found ::
    "constructor_search \<Rightarrow> api_name \<Rightarrow> find_explicit \<Rightarrow> why_no_special_member \<Rightarrow> items_found" where
  "explicit_items_found cs name declared reason =
     (let why = (\<lambda>found. if found = NotPresent then Some reason else None)
      in \<lparr>mem_default_constructor = is_explicit declared ExplicitKind_DefaultConstructor,
          mem_destructor = declared_destructor declared,
          mem_const_copy_constructor = is_explicit declared ConstCopyConstructor,
          mem_non_const_copy_constructor = is_explicit declared NonConstCopyConstructor,
          mem_move_constructor = is_explicit declared ExplicitKind_MoveConstructor,
          mem_const_move_constructor =
            (if an_name name \<in> set (ei_const_move_constructors (cs_explicit cs))
             then Some (is_explicit declared ExplicitKind_MoveConstructor) else None),
          mem_destructor_is_trivial = False,
          mem_name = Some name,
          mem_why_no_constructors =
            \<lparr>why_default_constructor = why (is_explicit declared ExplicitKind_DefaultConstructor),
             why_copy_constructor =
               (case why (is_explicit declared ConstCopyConstructor) of
                  Some _ \<Rightarrow> why (is_explicit declared NonConstCopyConstructor)
                | None \<Rightarrow> None),
             why_move_constructor = why (is_explicit declared ExplicitKind_MoveConstructor)\<rparr>\<rparr>)"

definition struct_items_found ::
    "constructor_search \<Rightarrow> api_name \<Rightarrow> struct_details \<Rightarrow> pod_analysis \<Rightarrow>
     (field_info \<times> qualified_name option) list \<Rightarrow> items_found" where
  "struct_items_found cs name details analysis named =
     (let declared = (\<lambda>kind. map_of (ei_explicits (cs_explicit cs)) (an_name name, kind));
          bases = bases_items_found cs name (pa_bases analysis);
          infos = fields_items_found cs name named
      in if pa_kind analysis = Opaque \<or> pa_has_unnamed_base analysis \<or>
            length bases \<noteq> length (pa_bases analysis) \<or> length infos \<noteq> length (pa_field_info analysis) \<or>
            an_name name \<in> set (ei_unknown_types (cs_explicit cs))
         then explicit_items_found cs name declared
                (if pa_kind analysis = Opaque then DeclaredOpaque
                 else DependenciesNotUnderstood (unknown_dependencies cs name (pa_bases analysis) named))
         else understood_items_found cs name declared details analysis bases infos)"

section \<open>The search\<close>

definition visit_struct :: "fn_pre_phase1 \<Rightarrow> constructor_search \<Rightarrow> constructor_search option" where
  "visit_struct api cs =
     (case api of
        Api_Struct name details analysis \<Rightarrow>
          if pa_num_generics analysis = 0 \<and> \<not> pa_in_anonymous_namespace analysis then
            case named_fields (pa_field_info analysis) of
              None \<Rightarrow> None
            | Some named \<Rightarrow>
                if map_of (cs_found cs) (an_name name) \<noteq> None then None
                else Some (cs\<lparr>cs_found := imap_insert (an_name name)
                                           (struct_items_found cs name details analysis named)
                                           (cs_found cs)\<rparr>)
          else Some cs
      | _ \<Rightarrow> Some cs)"

fun visit_structs :: "fn_pre_phase1 list \<Rightarrow> constructor_search \<Rightarrow> constructor_search option" where
  "visit_structs [] cs = Some cs"
| "visit_structs (api # order) cs =
     (case visit_struct api cs of None \<Rightarrow> None | Some cs' \<Rightarrow> visit_structs order cs')"

definition concrete_items_found :: "api_name \<Rightarrow> items_found" where
  "concrete_items_found name =
     \<lparr>mem_default_constructor = Implicit,
      mem_destructor = Implicit,
      mem_const_copy_constructor = NotPresent,
      mem_non_const_copy_constructor = NotPresent,
      mem_move_constructor = NotPresent,
      mem_const_move_constructor = None,
      mem_destructor_is_trivial = False,
      mem_name = Some name,
      mem_why_no_constructors = no_reasons\<rparr>"

definition visit_concrete ::
    "qualified_name list \<Rightarrow> fn_pre_phase1 \<Rightarrow> (qualified_name, items_found) index_map \<Rightarrow>
     (qualified_name, items_found) index_map" where
  "visit_concrete concretes api found =
     (case api of
        Api_ConcreteType name rs_definition cpp_definition holder deps alias \<Rightarrow>
          if an_name name \<in> set concretes
          then imap_insert (an_name name) (concrete_items_found name) found
          else found
      | _ \<Rightarrow> found)"

definition enum_names :: "fn_pre_phase1_apis \<Rightarrow> qualified_name list" where
  "enum_names v = List.map_filter
     (\<lambda>api. case api of Api_Enum name item \<Rightarrow> Some (an_name name) | _ \<Rightarrow> None) (apis v)"

definition find_constructors_present ::
    "type_database \<Rightarrow> fn_pre_phase1_apis \<Rightarrow> qualified_name list \<Rightarrow>
     (qualified_name, items_found) index_map option" where
  "find_constructors_present db v instantiable_concrete_types =
     (case typedef_targets v of
        None \<Rightarrow> None
      | Some targets \<Rightarrow>
          (case fields_and_bases_first Api_name field_and_base_deps (apis v) of
             None \<Rightarrow> None
           | Some order \<Rightarrow>
               map_option
                 (\<lambda>cs. fold (visit_concrete instantiable_concrete_types) (apis v) (cs_found cs))
                 (visit_structs order
                    \<lparr>cs_db = db, cs_enums = enum_names v, cs_typedefs = targets,
                     cs_explicit = find_explicit_items v, cs_found = []\<rparr>)))"

section \<open>Members declared and then deleted\<close>

definition defaulted_member ::
    "(qualified_name, items_found) index_map \<Rightarrow> func_to_convert \<Rightarrow> fn_analysis \<Rightarrow>
     special_member_found option \<times> error_context option" where
  "defaulted_member found fn analysis =
     (case fa_kind analysis of
        FnKind_Method (Constructor True) impl_for \<Rightarrow>
          (map_option mem_default_constructor (map_of found impl_for),
           Some (new_for_method (get_final_item impl_for) (make_ident (fa_rust_name analysis))))
      | FnKind_Method (Constructor False) impl_for \<Rightarrow>
          if fc_special_member fn = Some CopyConstructor then
            (map_option mem_non_const_copy_constructor (map_of found impl_for),
             Some (new_for_method (get_final_item impl_for) (make_ident (fa_rust_name analysis))))
          else (None, None)
      | FnKind_TraitMethod kind impl_for details \<Rightarrow>
          (case map_of found impl_for of
             None \<Rightarrow> None
           | Some i \<Rightarrow>
               (case kind of
                  Trait_Destructor \<Rightarrow> Some (mem_destructor i)
                | Trait_CopyConstructor \<Rightarrow> Some (mem_const_copy_constructor i)
                | Trait_MoveConstructor \<Rightarrow> Some (mem_move_constructor i)
                | _ \<Rightarrow> None), None)
      | _ \<Rightarrow> (None, None))"

definition discard_if_deleted ::
    "(qualified_name, items_found) index_map \<Rightarrow> fn_pre_phase1 \<Rightarrow> fn_pre_phase1" where
  "discard_if_deleted found api =
     (case api of
        Api_Function name fn analysis \<Rightarrow>
          if fc_is_deleted fn \<noteq> Some Explicitness_Defaulted \<or> isl (fa_ignore_reason analysis)
          then api
          else (case defaulted_member found fn analysis of
                  (Some NotPresent, ctx) \<Rightarrow>
                    Api_Function name fn (analysis\<lparr>fa_ignore_reason :=
                      Inl (ConvertErrorWithContext DefaultedButDeleted ctx)\<rparr>)
                | _ \<Rightarrow> api)
      | _ \<Rightarrow> api)"

definition discard_deleted_defaulted_members ::
    "fn_pre_phase1_apis \<Rightarrow> (qualified_name, items_found) index_map \<Rightarrow> fn_pre_phase1_apis option" where
  "discard_deleted_defaulted_members v found =
     apivec_from_iter (map (discard_if_deleted found) (apis v))"


section \<open>Facts the properties share\<close>

named_theorems constructor_simps \<open>what the adjustments to a field's answers leave alone\<close>

lemma known_items [simp]:
  "mem_destructor_is_trivial (known_type_items_found d) = kt_destructor_is_trivial d"
  by (simp add: known_type_items_found_def Let_def)

lemma adjusted_triviality [constructor_simps]:
  "mem_destructor_is_trivial (credit_initializer f items) = mem_destructor_is_trivial items"
  "mem_destructor_is_trivial (answer_for_const f items) = mem_destructor_is_trivial items"
  "mem_destructor_is_trivial (answer_for_volatile cs f ty items) = mem_destructor_is_trivial items"
  "mem_destructor (credit_initializer f items) = mem_destructor items"
  "mem_destructor (answer_for_const f items) = mem_destructor items"
  "mem_destructor (answer_for_volatile cs f ty items) = mem_destructor items"
  by (simp_all add: credit_initializer_def answer_for_const_def answer_for_volatile_def)

lemma struct_items_name [simp]: "mem_name (struct_items_found cs name details analysis named) = Some name"
  by (simp add: struct_items_found_def understood_items_found_def explicit_items_found_def Let_def
      split: prod.splits)

lemma visit_struct_cases:
  assumes "visit_struct api cs = Some cs'"
  obtains (same) "cs' = cs"
  | (found) name details analysis named where "api = Api_Struct name details analysis"
      "named_fields (pa_field_info analysis) = Some named"
      "cs' = cs\<lparr>cs_found := imap_insert (an_name name)
                (struct_items_found cs name details analysis named) (cs_found cs)\<rparr>"
  using assms by (cases api) (auto simp: visit_struct_def split: if_splits option.splits)

lemma visit_structs_invariant:
  assumes "visit_structs order cs = Some cs'" and "P cs"
    and "\<And>api cs cs'. api \<in> set order \<Longrightarrow> P cs \<Longrightarrow> visit_struct api cs = Some cs' \<Longrightarrow> P cs'"
  shows "P cs'"
  using assms
proof (induction order arbitrary: cs)
  case (Cons api order)
  then obtain cs1 where step: "visit_struct api cs = Some cs1" "visit_structs order cs1 = Some cs'"
    by (auto split: option.splits)
  have "P cs1" using Cons.prems(2,3) step(1) by (meson list.set_intros(1))
  from Cons.IH[OF step(2) this] Cons.prems(3) show ?case by (meson list.set_intros(2))
qed simp

text \<open>The part of a search that no visit changes.\<close>

abbreviation same_search :: "constructor_search \<Rightarrow> constructor_search \<Rightarrow> bool" where
  "same_search cs cs' \<equiv> cs'\<lparr>cs_found := cs_found cs\<rparr> = cs"

abbreviation initial_search ::
    "type_database \<Rightarrow> fn_pre_phase1_apis \<Rightarrow> (qualified_name, qualified_name) index_map \<Rightarrow>
     constructor_search" where
  "initial_search db v targets \<equiv> \<lparr>cs_db = db, cs_enums = enum_names v, cs_typedefs = targets,
     cs_explicit = find_explicit_items v, cs_found = []\<rparr>"

lemma visit_concrete_get:
  "map_of (fold (visit_concrete concretes) l found) qn = Some items \<Longrightarrow>
     map_of found qn = Some items \<or> (\<exists>name. items = concrete_items_found name \<and> an_name name = qn \<and>
       qn \<in> set concretes \<and> (\<exists>api \<in> set l. name_info api = name))"
proof (induction l arbitrary: found)
  case (Cons api l)
  from Cons.IH[of "visit_concrete concretes api found"] Cons.prems show ?case
    by (cases api) (auto simp: visit_concrete_def split: if_splits)
qed simp

text \<open>
  What holds of every answer a visit gives, where the answers before it already satisfy it, holds of
  every answer of the search but those for concrete types.
\<close>

lemma find_constructors_invariant:
  assumes "find_constructors_present db v concretes = Some found" and "typedef_targets v = Some targets"
    and "map_of found qn = Some items"
    and step: "\<And>cs name details analysis named.
       same_search (initial_search db v targets) (cs\<lparr>cs_found := []\<rparr>) \<Longrightarrow>
       Api_Struct name details analysis \<in> set (apis v) \<Longrightarrow>
       named_fields (pa_field_info analysis) = Some named \<Longrightarrow>
       (\<forall>q i. map_of (cs_found cs) q = Some i \<longrightarrow> Q q i) \<Longrightarrow>
       Q (an_name name) (struct_items_found cs name details analysis named)"
    and concrete: "\<And>name. an_name name \<in> set concretes \<Longrightarrow>
       an_name name \<in> Api_name ` set (apis v) \<Longrightarrow> Q (an_name name) (concrete_items_found name)"
  shows "Q qn items"
proof -
  from assms(1,2) obtain order cs where order: "fields_and_bases_first Api_name field_and_base_deps (apis v) = Some order"
    and cs: "visit_structs order (initial_search db v targets) = Some cs"
    and found: "found = fold (visit_concrete concretes) (apis v) (cs_found cs)"
    by (auto simp: find_constructors_present_def split: option.splits)
  from order iter_order[of Api_name field_and_base_deps "remdups (map Api_name (apis v))" "apis v" order]
  have items: "set order = set (apis v)"
    by (metis fields_and_bases_first_def set_mset_mset)
  let ?P = "\<lambda>cs. cs\<lparr>cs_found := []\<rparr> = initial_search db v targets \<and>
                 (\<forall>q i. map_of (cs_found cs) q = Some i \<longrightarrow> Q q i)"
  have "?P cs"
  proof (rule visit_structs_invariant[OF cs, of ?P])
    show "?P (initial_search db v targets)" by simp
  next
    fix api cs1 cs2
    assume api: "api \<in> set order" and P: "?P cs1" and visit: "visit_struct api cs1 = Some cs2"
    from visit show "?P cs2"
    proof (cases rule: visit_struct_cases)
      case same
      with P show ?thesis by simp
    next
      case (found name details analysis named)
      have "Q (an_name name) (struct_items_found cs1 name details analysis named)"
        using P api items found by (intro step) auto
      with P found show ?thesis by auto
    qed
  qed
  with assms(3) concrete show ?thesis
    by (auto simp: found Api_name_def dest!: visit_concrete_get)
qed

text \<open>
  An answer is filed under the name of the class it is about and says which item that is, so
  whatever has to be generated for an implicit member has the item's full name at hand.
\<close>

theorem constructors_found_are_named:
  assumes "find_constructors_present db v concretes = Some found" and "map_of found qn = Some items"
  shows "\<exists>name. mem_name items = Some name \<and> an_name name = qn \<and> qn \<in> Api_name ` set (apis v)"
proof -
  from assms(1) obtain targets where targets: "typedef_targets v = Some targets"
    by (auto simp: find_constructors_present_def split: option.splits)
  show ?thesis
    by (rule find_constructors_invariant[OF assms(1) targets assms(2)])
       (force simp: Api_name_def concrete_items_found_def)+
qed

section \<open>Trivial destruction\<close>

text \<open>
  C++'s own definition, over what the header declares: an enum; a type known to be trivial; a class
  which declares no destructor, all of whose bases and all of whose fields held by value are
  trivially destroyed. A field that is a pointer or a reference owns nothing.
\<close>

definition declares_destructor :: "fn_pre_phase1_apis \<Rightarrow> qualified_name \<Rightarrow> bool" where
  "declares_destructor v qn \<longleftrightarrow>
     map_of (ei_explicits (find_explicit_items v)) (qn, ExplicitKind_Destructor) \<noteq> None"

inductive trivially_destroyed ::
    "type_database \<Rightarrow> fn_pre_phase1_apis \<Rightarrow> (qualified_name, qualified_name) index_map \<Rightarrow>
     qualified_name \<Rightarrow> bool" for db v targets where
  enum_type: "qn \<in> set (enum_names v) \<Longrightarrow> trivially_destroyed db v targets qn"
| known_type: "get_constructor_details db qn = Some d \<Longrightarrow> kt_destructor_is_trivial d \<Longrightarrow>
    trivially_destroyed db v targets qn"
| class_type: "Api_Struct name details analysis \<in> set (apis v) \<Longrightarrow>
    pa_kind analysis \<noteq> Opaque \<Longrightarrow> \<not> pa_has_unnamed_base analysis \<Longrightarrow>
    \<not> declares_destructor v (an_name name) \<Longrightarrow>
    \<forall>base \<in> set (pa_bases analysis). trivially_destroyed db v targets (resolve_typedefs targets base) \<Longrightarrow>
    \<forall>f \<in> set (pa_field_info analysis). is_regular_kind (fi_type_kind f) \<longrightarrow>
      (\<exists>tp. field_type_name f = Some (Some tp) \<and> trivially_destroyed db v targets tp) \<Longrightarrow>
    trivially_destroyed db v targets (an_name name)"

lemma bases_items_complete:
  "length (bases_items_found cs name bases) = length bases \<Longrightarrow> base \<in> set bases \<Longrightarrow>
     \<exists>items. get_base_items_found cs name base = Some items \<and>
             (describe_base base, items) \<in> set (bases_items_found cs name bases)"
  by (induction bases) (auto split: option.splits)

lemma map_filter_complete:
  "length (List.map_filter f xs) = length xs \<Longrightarrow> x \<in> set xs \<Longrightarrow>
     \<exists>y. f x = Some y \<and> y \<in> set (List.map_filter f xs)"
proof (induction xs)
  case (Cons a xs)
  have "length (List.map_filter f xs) \<le> length xs" by (simp add: map_filter_def)
  with Cons show ?case by (cases "f a") (auto simp: map_filter_simps)
qed simp

lemma named_fields_elements:
  assumes "named_fields infos = Some named" and "f \<in> set infos"
  shows "\<exists>ty. field_type_name f = Some ty \<and> (f, ty) \<in> set named"
  using assms unfolding named_fields_def
  by (induction infos arbitrary: named) (auto split: option.splits)

lemma named_fields_length: "named_fields infos = Some named \<Longrightarrow> length named = length infos"
  unfolding named_fields_def by (induction infos arbitrary: named) (auto split: option.splits)

lemma get_items_trivial:
  assumes "get_items_found cs name qn = Some items" and "mem_destructor_is_trivial items"
    and "cs_enums cs = enum_names v" and "cs_db cs = db"
    and "\<forall>q i. map_of (cs_found cs) q = Some i \<longrightarrow> mem_destructor_is_trivial i \<longrightarrow>
           trivially_destroyed db v targets q"
  shows "trivially_destroyed db v targets qn"
  using assms by (auto simp: get_items_found_def split: if_splits option.splits
      intro: trivially_destroyed.enum_type trivially_destroyed.known_type)

text \<open>What is called trivial on the way is so already, class by class in the order of the walk.\<close>

lemma trivial_answers_are_true:
  assumes "find_constructors_present db v concretes = Some found" and "typedef_targets v = Some targets"
    and "map_of found qn = Some items" and "mem_destructor_is_trivial items"
  shows "trivially_destroyed db v targets qn"
proof -
  let ?Q = "\<lambda>q i. mem_destructor_is_trivial i \<longrightarrow> trivially_destroyed db v targets q"
  have "?Q qn items"
  proof (rule find_constructors_invariant[OF assms(1-3), of ?Q])
    fix cs name details analysis named
    assume cs: "same_search (initial_search db v targets) (cs\<lparr>cs_found := []\<rparr>)"
      and struct: "Api_Struct name details analysis \<in> set (apis v)"
      and named: "named_fields (pa_field_info analysis) = Some named"
      and earlier: "\<forall>q i. map_of (cs_found cs) q = Some i \<longrightarrow> ?Q q i"
    from cs have fixed: "cs_db cs = db" "cs_enums cs = enum_names v" "cs_typedefs cs = targets"
      "cs_explicit cs = find_explicit_items v" by (cases cs; simp)+
    show "?Q (an_name name) (struct_items_found cs name details analysis named)"
    proof
      assume trivial: "mem_destructor_is_trivial (struct_items_found cs name details analysis named)"
      let ?bases = "bases_items_found cs name (pa_bases analysis)"
      let ?infos = "fields_items_found cs name named"
      let ?declared = "\<lambda>kind. map_of (ei_explicits (cs_explicit cs)) (an_name name, kind)"
      from trivial have understood: "pa_kind analysis \<noteq> Opaque" "\<not> pa_has_unnamed_base analysis"
        "length ?bases = length (pa_bases analysis)" "length ?infos = length (pa_field_info analysis)"
        and items: "mem_destructor_is_trivial
          (understood_items_found cs name ?declared details analysis ?bases ?infos)"
        by (simp_all add: struct_items_found_def explicit_items_found_def Let_def split: if_splits)
      from items have parts: "destructor_found ?declared ?bases ?infos = Implicit"
        "list_all (\<lambda>(_, items). mem_destructor_is_trivial items) (?bases @ ?infos)"
        by (simp_all add: understood_items_found_def Let_def exists_implicit_def split: prod.splits)
      from parts(1) have "\<not> declares_destructor v (an_name name)"
        by (auto simp: destructor_found_def Let_def declares_destructor_def fixed found_as_declared_def
            found_if_user_defined_def is_defaulted_def split: if_splits option.splits explicit_found.splits)
      moreover have "trivially_destroyed db v targets (resolve_typedefs targets base)"
        if "base \<in> set (pa_bases analysis)" for base
      proof -
        from bases_items_complete[OF understood(3) that] obtain items where
          "get_base_items_found cs name base = Some items" "(describe_base base, items) \<in> set ?bases" by blast
        with parts(2) earlier fixed show ?thesis
          by (intro get_items_trivial[of cs name _ items])
             (auto simp: get_base_items_found_def list_all_iff)
      qed
      moreover have "\<exists>tp. field_type_name f = Some (Some tp) \<and> trivially_destroyed db v targets tp"
        if "f \<in> set (pa_field_info analysis)" "is_regular_kind (fi_type_kind f)" for f
      proof -
        from named_fields_elements[OF named that(1)] obtain ty where
          ty: "field_type_name f = Some ty" "(f, ty) \<in> set named" by blast
        have "length ?infos = length named" using understood(4) named_fields_length[OF named] by simp
        from map_filter_complete[OF this[unfolded fields_items_found_def] ty(2)]
        obtain d i where i: "field_items_found cs name (f, ty) = Some (d, i)" "(d, i) \<in> set ?infos"
          by (auto simp: fields_items_found_def)
        from i(1) that(2) obtain tp held where held: "ty = Some tp" "get_items_found cs name tp = Some held"
          "mem_destructor_is_trivial i = mem_destructor_is_trivial held"
          by (auto simp: field_items_found_def held_items_found_def is_regular_kind_def constructor_simps
              split: converted_kind.splits option.splits)
        with i(2) parts(2) earlier fixed have "trivially_destroyed db v targets tp"
          by (intro get_items_trivial[of cs name _ held]) (auto simp: list_all_iff)
        with ty(1) held(1) show ?thesis by blast
      qed
      ultimately show "trivially_destroyed db v targets (an_name name)"
        using struct understood(1,2) by (intro trivially_destroyed.class_type) auto
    qed
  qed (simp add: concrete_items_found_def)
  with assms(4) show ?thesis by blast
qed


section \<open>Running to the end\<close>

definition fields_nameable :: "fn_pre_phase1 \<Rightarrow> bool" where
  "fields_nameable api =
     (case api of
        Api_Struct name details analysis \<Rightarrow>
          pa_num_generics analysis = 0 \<and> \<not> pa_in_anonymous_namespace analysis \<longrightarrow>
          named_fields (pa_field_info analysis) \<noteq> None
      | _ \<Rightarrow> True)"

lemma visit_struct_succeeds:
  assumes "map_of (cs_found cs) (Api_name api) = None"
  shows "visit_struct api cs \<noteq> None \<longleftrightarrow> fields_nameable api"
  using assms
  by (cases api) (auto simp: visit_struct_def fields_nameable_def Api_name_def split: option.splits)

lemma visit_struct_dom:
  "visit_struct api cs = Some cs' \<Longrightarrow> q \<noteq> Api_name api \<Longrightarrow>
     map_of (cs_found cs') q = map_of (cs_found cs) q"
  by (erule visit_struct_cases) (auto simp: Api_name_def)

lemma visit_structs_succeed:
  assumes "distinct (map Api_name order)" and "\<forall>api \<in> set order. map_of (cs_found cs) (Api_name api) = None"
  shows "visit_structs order cs \<noteq> None \<longleftrightarrow> (\<forall>api \<in> set order. fields_nameable api)"
  using assms
proof (induction order arbitrary: cs)
  case (Cons api order)
  note first = visit_struct_succeeds[of cs api]
  show ?case
  proof (cases "visit_struct api cs")
    case None
    with first Cons.prems show ?thesis by auto
  next
    case (Some cs')
    have "map_of (cs_found cs') (Api_name x) = None" if "x \<in> set order" for x
    proof -
      from that Cons.prems(1) have "Api_name x \<noteq> Api_name api" by (auto simp: image_iff)
      with visit_struct_dom[OF Some] Cons.prems(2) that show ?thesis by simp
    qed
    with Cons.IH[of cs'] Cons.prems(1) Some first Cons.prems(2) show ?thesis by auto
  qed
qed simp

text \<open>
  C36: what can stop the analysis is in its input and nowhere else. Over a list of APIs each with
  a name of its own it returns exactly when every path it has to read names something and no class
  holds or inherits from itself; the assertion against a struct visited twice never fires.
\<close>

theorem constructors_analysis_returns:
  assumes "apivec_wf v"
  shows "find_constructors_present db v concretes \<noteq> None \<longleftrightarrow>
    typedef_targets v \<noteq> None \<and> (\<forall>api \<in> set (apis v). fields_nameable api) \<and>
    (\<exists>rank :: qualified_name \<Rightarrow> nat. \<forall>x \<in> set (apis v). \<forall>d \<in> set (field_and_base_deps x).
       d \<in> Api_name ` set (apis v) \<longrightarrow> rank d < rank (Api_name x))"
proof (cases "typedef_targets v")
  case (Some targets)
  show ?thesis
  proof (cases "fields_and_bases_first Api_name field_and_base_deps (apis v)")
    case None
    with collected.order_exists[OF assms, of field_and_base_deps] Some show ?thesis
      by (simp add: find_constructors_present_def)
  next
    case order: (Some order)
    from order iter_order[of Api_name field_and_base_deps "remdups (map Api_name (apis v))" "apis v" order]
    have "mset order = mset (apis v)" by (simp add: fields_and_bases_first_def)
    moreover from this collected.unique[OF assms] have "distinct (map Api_name order)"
      by (metis mset_eq_imp_distinct_iff mset_map)
    ultimately have "visit_structs order (initial_search db v targets) \<noteq> None \<longleftrightarrow>
        (\<forall>api \<in> set (apis v). fields_nameable api)"
      by (subst visit_structs_succeed) (auto dest: mset_eq_setD)
    with order Some collected.order_exists[OF assms, of field_and_base_deps] show ?thesis
      by (simp add: find_constructors_present_def)
  qed
qed (simp add: find_constructors_present_def)

section \<open>Reasons\<close>

fun member_of :: "special_member_kind \<Rightarrow> items_found \<Rightarrow> bool" where
  "member_of Destructor items = callable_any (mem_destructor items)"
| "member_of DefaultConstructor items = callable_any (mem_default_constructor items)"
| "member_of CopyConstructor items = copyable_field items"
| "member_of MoveConstructor items = callable_any (mem_move_constructor items)"
| "member_of AssignmentOperator items = False"

lemma callable_any_subclass: "callable_any found \<Longrightarrow> callable_subclass found"
  by (auto simp: callable_any_def callable_subclass_def)

lemma find_sound: "List.find P xs = Some x \<Longrightarrow> x \<in> set xs \<and> P x"
  by (metis find_Some_iff nth_mem)

lemma first_dependency_lacking_sound:
  "first_dependency_lacking parts requirements = Some why \<Longrightarrow>
     \<exists>dependency items m. why = DependencyLacksIt dependency m \<and> (dependency, items) \<in> set parts \<and>
       (m, False) \<in> set (requirements items)"
proof (induction parts requirements rule: first_dependency_lacking.induct)
  case (2 dependency items rest requirements)
  show ?case
  proof (cases "List.find (\<lambda>(m, met). \<not> met) (requirements items)")
    case None
    with 2 show ?thesis by fastforce
  next
    case (Some found)
    from find_sound[OF this] have "found \<in> set (requirements items)" "\<not> snd found" by auto
    with 2(2) Some show ?thesis by (cases found) auto
  qed
qed simp

lemma first_lacking_sound:
  assumes "first_lacking bases infos of_base of_field = Some (DependencyLacksIt dependency m)"
    and "\<And>items. (m, False) \<in> set (of_base items) \<Longrightarrow> \<not> member_of m items"
    and "\<And>items. (m, False) \<in> set (of_field items) \<Longrightarrow> \<not> member_of m items"
  shows "\<exists>items. (dependency, items) \<in> set (bases @ infos) \<and> \<not> member_of m items"
  using assms first_dependency_lacking_sound[of bases of_base] first_dependency_lacking_sound[of infos of_field]
  by (fastforce simp: first_lacking_def or_else_def split: option.splits)

lemma first_lacking_shape:
  "first_lacking bases infos of_base of_field = Some why \<Longrightarrow> \<exists>dependency m. why = DependencyLacksIt dependency m"
  using first_dependency_lacking_sound[of bases of_base why] first_dependency_lacking_sound[of infos of_field why]
  by (auto simp: first_lacking_def or_else_def split: option.splits)

lemma base_lacks:
  "\<not> callable_subclass (mem_destructor items) \<Longrightarrow> \<not> member_of Destructor items"
  "\<not> callable_subclass (mem_default_constructor items) \<Longrightarrow> \<not> member_of DefaultConstructor items"
  "\<not> callable_subclass (mem_move_constructor items) \<Longrightarrow> \<not> member_of MoveConstructor items"
  "\<not> copyable_base items \<Longrightarrow> \<not> member_of CopyConstructor items"
  by (auto simp: copyable_base_def copyable_field_def dest: callable_any_subclass)

text \<open>What the reason given for a member says of the bases and fields.\<close>

definition reason_holds :: "parts \<Rightarrow> why_no_special_member option \<Rightarrow> bool" where
  "reason_holds parts why =
     (case why of
        Some (DependencyLacksIt dependency m) \<Rightarrow>
          list_ex (\<lambda>(d, items). d = dependency \<and> \<not> member_of m items) parts
      | Some (ImplicitCopyConstructorIsNonConst dependency) \<Rightarrow>
          list_ex (\<lambda>(d, items). d = dependency \<and> \<not> member_exists (mem_const_copy_constructor items)) parts
      | _ \<Rightarrow> True)"

lemma reason_holds_None [simp]: "reason_holds parts None"
  by (simp add: reason_holds_def)

lemma first_lacking_reason:
  assumes "first_lacking bases infos of_base of_field = Some why"
    and "\<And>m items. (m, False) \<in> set (of_base items) \<Longrightarrow> \<not> member_of m items"
    and "\<And>m items. (m, False) \<in> set (of_field items) \<Longrightarrow> \<not> member_of m items"
  shows "reason_holds (bases @ infos) (Some why)"
proof -
  from first_lacking_shape[OF assms(1)] obtain d m where why: "why = DependencyLacksIt d m" by blast
  from first_lacking_sound[OF assms(1)[unfolded why]] assms(2,3) show ?thesis
    by (fastforce simp: why reason_holds_def list_ex_iff)
qed

lemma default_constructor_reason:
  assumes "default_constructor_found declared declares rv reference const bases infos = (found, why)"
    and "reason_holds (bases @ infos) reference" and "reason_holds (bases @ infos) const"
  shows "reason_holds (bases @ infos) why \<and> (why \<noteq> None \<longrightarrow> found = NotPresent)"
proof (cases "first_lacking bases infos
        (\<lambda>items. [(Destructor, callable_subclass (mem_destructor items)),
                  (DefaultConstructor, callable_subclass (mem_default_constructor items))])
        (\<lambda>items. [(Destructor, callable_any (mem_destructor items)),
                  (DefaultConstructor, callable_any (mem_default_constructor items))])")
  case None
  with assms show ?thesis
    by (auto simp: default_constructor_found_def Let_def reason_holds_def split: if_splits option.splits)
next
  case (Some lacking)
  have "reason_holds (bases @ infos) (Some lacking)"
    by (rule first_lacking_reason[OF Some]) (use base_lacks in auto)
  with assms Some show ?thesis
    by (auto simp: default_constructor_found_def Let_def split: if_splits option.splits)
       (auto simp: reason_holds_def)
qed

lemma copy_constructors_reason:
  assumes "copy_constructors_found declared rv bases infos = (const_copy, non_const_copy, why)"
  shows "reason_holds (bases @ infos) why \<and> (why \<noteq> None \<longrightarrow> const_copy = NotPresent)"
proof (cases "first_lacking bases infos
        (\<lambda>items. [(Destructor, callable_subclass (mem_destructor items)), (CopyConstructor, copyable_base items)])
        (\<lambda>items. [(Destructor, callable_any (mem_destructor items)), (CopyConstructor, copyable_field items)])")
  case None
  with assms show ?thesis
    by (auto simp: copy_constructors_found_def Let_def reason_holds_def list_ex_iff
        split: if_splits option.splits dest!: find_sound) force+
next
  case (Some lacking)
  have "reason_holds (bases @ infos) (Some lacking)"
    by (rule first_lacking_reason[OF Some]) (use base_lacks in auto)
  with assms Some show ?thesis
    by (auto simp: copy_constructors_found_def Let_def split: if_splits option.splits)
       (auto simp: reason_holds_def)
qed

lemma move_constructor_reason:
  assumes "move_constructor_found declared bases infos = (found, why)"
  shows "reason_holds (bases @ infos) why \<and> (why \<noteq> None \<longrightarrow> found = NotPresent)"
proof (cases "first_lacking bases infos
        (\<lambda>items. [(Destructor, callable_subclass (mem_destructor items)),
                  (MoveConstructor, callable_subclass (mem_move_constructor items))])
        (\<lambda>items. [(MoveConstructor, callable_any (mem_move_constructor items))])")
  case None
  with assms show ?thesis
    by (auto simp: move_constructor_found_def Let_def reason_holds_def split: if_splits option.splits)
next
  case (Some lacking)
  have "reason_holds (bases @ infos) (Some lacking)"
    by (rule first_lacking_reason[OF Some]) (use base_lacks in auto)
  with assms Some show ?thesis
    by (auto simp: move_constructor_found_def Let_def split: if_splits option.splits)
qed


lemma first_lacking_None:
  "first_lacking bases infos of_base of_field = None \<longleftrightarrow>
     list_all (\<lambda>(_, i). list_all snd (of_base i)) bases \<and>
     list_all (\<lambda>(_, i). list_all snd (of_field i)) infos"
proof -
  have none: "List.find (\<lambda>(m, met). \<not> met) l = None \<longleftrightarrow> list_all snd l" for l :: "(special_member_kind \<times> bool) list"
    by (induction l) auto
  have one: "first_dependency_lacking parts requirements = None \<longleftrightarrow>
      list_all (\<lambda>(_, i). list_all snd (requirements i)) parts" for parts requirements
    by (induction parts requirements rule: first_dependency_lacking.induct)
       (auto simp: none[symmetric] split: option.splits)
  show ?thesis using one[of bases of_base] one[of infos of_field]
    by (cases "first_dependency_lacking bases of_base") (auto simp: first_lacking_def or_else_def)
qed

lemma declared_never_implicit [simp]:
  "found_only_if_defaulted expl \<noteq> Implicit" "found_if_user_defined expl \<noteq> Implicit"
  by (auto simp: found_only_if_defaulted_def found_if_user_defined_def
      split: option.splits explicit_found.splits)

text \<open>
  When C++ declares a copy constructor of its own accord and does not delete it: nothing that copies or moves is
  declared, be it a constructor or the move assignment operator, and every part can be destroyed and copied.
\<close>

definition implicit_copy_in_cpp :: "find_explicit \<Rightarrow> bool \<Rightarrow> parts \<Rightarrow> parts \<Rightarrow> bool" where
  "implicit_copy_in_cpp declared rv bases infos \<longleftrightarrow>
     list_all (\<lambda>kind. declared kind = None)
       [ConstCopyConstructor, NonConstCopyConstructor, ExplicitKind_MoveConstructor, MoveAssignmentOperator] \<and> \<not> rv \<and>
     list_all (\<lambda>(_, i). callable_subclass (mem_destructor i) \<and> copyable_base i) bases \<and>
     list_all (\<lambda>(_, i). callable_any (mem_destructor i) \<and> copyable_field i) infos"

lemma copy_implicit_iff:
  assumes "copy_constructors_found declared rv bases infos = (const_copy, non_const_copy, why)"
  shows "const_copy = Implicit \<longleftrightarrow> implicit_copy_in_cpp (declared(MoveAssignmentOperator := None)) rv bases infos \<and>
      list_all (\<lambda>(_, i). member_exists (mem_const_copy_constructor i)) (bases @ infos)"
    and "non_const_copy = Implicit \<longleftrightarrow> implicit_copy_in_cpp (declared(MoveAssignmentOperator := None)) rv bases infos \<and>
      \<not> list_all (\<lambda>(_, i). member_exists (mem_const_copy_constructor i)) (bases @ infos)"
proof -
  have "(const_copy = Implicit \<longleftrightarrow> implicit_copy_in_cpp (declared(MoveAssignmentOperator := None)) rv bases infos \<and>
      list_all (\<lambda>(_, i). member_exists (mem_const_copy_constructor i)) (bases @ infos)) \<and>
    (non_const_copy = Implicit \<longleftrightarrow> implicit_copy_in_cpp (declared(MoveAssignmentOperator := None)) rv bases infos \<and>
      \<not> list_all (\<lambda>(_, i). member_exists (mem_const_copy_constructor i)) (bases @ infos))"
  proof (cases "declared ConstCopyConstructor = None \<and> declared NonConstCopyConstructor = None")
    case True
    let ?lacking = "first_lacking bases infos
          (\<lambda>items. [(Destructor, callable_subclass (mem_destructor items)), (CopyConstructor, copyable_base items)])
          (\<lambda>items. [(Destructor, callable_any (mem_destructor items)), (CopyConstructor, copyable_field items)])"
    let ?found = "List.find (\<lambda>(_, items). \<not> member_exists (mem_const_copy_constructor items)) (bases @ infos)"
    have const: "?found = None \<longleftrightarrow> list_all (\<lambda>(_, i). member_exists (mem_const_copy_constructor i)) (bases @ infos)"
      by (auto simp: find_None_iff list_all_iff)
    from True assms show ?thesis using first_lacking_None[of bases infos
          "\<lambda>items. [(Destructor, callable_subclass (mem_destructor items)), (CopyConstructor, copyable_base items)]"
          "\<lambda>items. [(Destructor, callable_any (mem_destructor items)), (CopyConstructor, copyable_field items)]"]
      unfolding implicit_copy_in_cpp_def const[symmetric]
      by (cases ?lacking; cases ?found)
         (auto simp: copy_constructors_found_def Let_def is_defaulted_def split: if_splits option.splits)
  next
    case False
    then have "const_copy \<noteq> Implicit" "non_const_copy \<noteq> Implicit"
      using assms by (auto simp: copy_constructors_found_def Let_def is_defaulted_def
          split: if_splits option.splits explicit_found.splits)
    with False show ?thesis by (auto simp: implicit_copy_in_cpp_def)
  qed
  then show "const_copy = Implicit \<longleftrightarrow> implicit_copy_in_cpp (declared(MoveAssignmentOperator := None)) rv bases infos \<and>
      list_all (\<lambda>(_, i). member_exists (mem_const_copy_constructor i)) (bases @ infos)"
    "non_const_copy = Implicit \<longleftrightarrow> implicit_copy_in_cpp (declared(MoveAssignmentOperator := None)) rv bases infos \<and>
      \<not> list_all (\<lambda>(_, i). member_exists (mem_const_copy_constructor i)) (bases @ infos)" by simp_all
qed

lemma without_move_assignment:
  "implicit_copy_in_cpp (declared(MoveAssignmentOperator := None)) rv bases infos \<longleftrightarrow>
     implicit_copy_in_cpp declared rv bases infos \<or>
     (\<exists>operator. declared MoveAssignmentOperator = Some operator \<and>
        implicit_copy_in_cpp (declared(MoveAssignmentOperator := None)) rv bases infos)"
  by (cases "declared MoveAssignmentOperator") (auto simp: implicit_copy_in_cpp_def)

lemma understood_default [simp]:
  "mem_default_constructor (understood_items_found cs name declared details analysis bases infos) =
     fst (default_constructor_found declared (declares_constructor (ei_explicits (cs_explicit cs)) (an_name name))
            (sd_has_rvalue_reference_fields details) (reference_field (pa_field_info analysis))
            (const_field (pa_field_info analysis) (pa_bitfields analysis)) bases infos)"
  by (simp add: understood_items_found_def Let_def split: prod.splits)



text \<open>
  The note left for a missing constructor is true. Where one is given the constructor is
  missing; and where it blames a base class or a field, the class has a part of that
  description which outside code cannot use in the way the note says.
\<close>

theorem reasons_are_true:
  fixes cs name details analysis and declared :: find_explicit and bases infos :: parts
  defines "items \<equiv> understood_items_found cs name declared details analysis bases infos"
  shows "(why_default_constructor (mem_why_no_constructors items) = None \<or>
      mem_default_constructor items = NotPresent) \<and>
    (why_copy_constructor (mem_why_no_constructors items) = None \<or>
      mem_const_copy_constructor items = NotPresent) \<and>
    (why_move_constructor (mem_why_no_constructors items) = None \<or>
      mem_move_constructor items = NotPresent) \<and>
    list_all (\<lambda>why. reason_holds (bases @ infos) (why (mem_why_no_constructors items)))
      [why_default_constructor, why_copy_constructor, why_move_constructor]"
proof -
  let ?default = "default_constructor_found declared
    (declares_constructor (ei_explicits (cs_explicit cs)) (an_name name))
    (sd_has_rvalue_reference_fields details) (reference_field (pa_field_info analysis))
    (const_field (pa_field_info analysis) (pa_bitfields analysis)) bases infos"
  let ?copy = "copy_constructors_found declared (sd_has_rvalue_reference_fields details) bases infos"
  let ?move = "move_constructor_found declared bases infos"
  have plain: "reason_holds (bases @ infos) (reference_field (pa_field_info analysis))"
    "reason_holds (bases @ infos) (const_field (pa_field_info analysis) (pa_bitfields analysis))"
    by (auto simp: reason_holds_def reference_field_def const_field_def split: option.splits list.splits)
  obtain d wd c n wc m wm where eqs: "?default = (d, wd)" "?copy = (c, n, wc)" "?move = (m, wm)"
    by (metis surj_pair)
  from default_constructor_reason[OF eqs(1) plain] copy_constructors_reason[OF eqs(2)]
    move_constructor_reason[OF eqs(3)]
  have "wd = None \<or> d = NotPresent" "wc = None \<or> c = NotPresent" "wm = None \<or> m = NotPresent"
    and "reason_holds (bases @ infos) wd" "reason_holds (bases @ infos) wc" "reason_holds (bases @ infos) wm"
    by blast+
  then show ?thesis by (simp add: items_def understood_items_found_def Let_def eqs)
qed

section \<open>Withdrawing what is deleted\<close>

lemma discard_keeps_name [simp]: "Api_name (discard_if_deleted found api) = Api_name api"
  by (cases api) (auto simp: discard_if_deleted_def Api_name_def split: prod.splits option.splits
      special_member_found.splits)

text \<open>The special members of a class C++ is found to delete, each told by the kind of function it came in as.\<close>

definition deleted_member :: "(qualified_name, items_found) index_map \<Rightarrow> func_to_convert \<Rightarrow> fn_kind \<Rightarrow> bool" where
  "deleted_member found fn kind \<longleftrightarrow>
     (\<exists>cls items. map_of found cls = Some items \<and>
        (kind = FnKind_Method (Constructor True) cls \<and> mem_default_constructor items = NotPresent \<or>
         kind = FnKind_Method (Constructor False) cls \<and> fc_special_member fn = Some CopyConstructor \<and>
           mem_non_const_copy_constructor items = NotPresent \<or>
         (\<exists>details. kind = FnKind_TraitMethod Trait_Destructor cls details) \<and> mem_destructor items = NotPresent \<or>
         (\<exists>details. kind = FnKind_TraitMethod Trait_CopyConstructor cls details) \<and>
           mem_const_copy_constructor items = NotPresent \<or>
         (\<exists>details. kind = FnKind_TraitMethod Trait_MoveConstructor cls details) \<and>
           mem_move_constructor items = NotPresent))"

definition offers_deleted :: "(qualified_name, items_found) index_map \<Rightarrow> fn_pre_phase1 \<Rightarrow> bool" where
  "offers_deleted found api =
     (case api of
        Api_Function name fn analysis \<Rightarrow>
          fc_is_deleted fn = Some Explicitness_Defaulted \<and> fa_ignore_reason analysis = Inr () \<and>
          deleted_member found fn (fa_kind analysis)
      | _ \<Rightarrow> False)"

text \<open>The same function, ignored because C++ deletes it.\<close>

definition withdrawn :: "fn_pre_phase1 \<Rightarrow> fn_pre_phase1 \<Rightarrow> bool" where
  "withdrawn api api' \<longleftrightarrow>
     (\<exists>name fn analysis ctx. api = Api_Function name fn analysis \<and>
        api' = Api_Function name fn (analysis\<lparr>fa_ignore_reason := Inl (ConvertErrorWithContext DefaultedButDeleted ctx)\<rparr>))"

lemma defaulted_member_deleted:
  "fst (defaulted_member found fn analysis) = Some NotPresent \<longleftrightarrow> deleted_member found fn (fa_kind analysis)"
proof (cases "fa_kind analysis")
  case (FnKind_Method way cls)
  show ?thesis
  proof (cases way)
    case (Constructor is_default)
    with FnKind_Method show ?thesis
      by (cases is_default; cases "map_of found cls") (simp_all add: defaulted_member_def deleted_member_def)
  qed (simp_all add: FnKind_Method defaulted_member_def deleted_member_def)
next
  case (FnKind_TraitMethod kind cls details)
  then show ?thesis
    by (cases "map_of found cls"; cases kind) (auto simp: defaulted_member_def deleted_member_def)
qed (simp add: defaulted_member_def deleted_member_def)

lemma discard_step:
  "if offers_deleted found api then withdrawn api (discard_if_deleted found api) else discard_if_deleted found api = api"
proof (cases api)
  case (Api_Function name fn analysis)
  obtain m ctx where m: "defaulted_member found fn analysis = (m, ctx)" by fastforce
  have offers: "offers_deleted found api \<longleftrightarrow> fc_is_deleted fn = Some Explicitness_Defaulted \<and>
      fa_ignore_reason analysis = Inr () \<and> m = Some NotPresent"
    using defaulted_member_deleted[of found fn analysis] by (simp add: Api_Function m offers_deleted_def)
  show ?thesis
  proof (cases "offers_deleted found api")
    case True
    then show ?thesis unfolding offers by (auto simp: Api_Function m offers discard_if_deleted_def withdrawn_def)
  next
    case False
    have "discard_if_deleted found api = api"
    proof (cases "fa_ignore_reason analysis")
      case (Inr u)
      with False[unfolded offers] m Api_Function show ?thesis
        by (auto simp: discard_if_deleted_def split: option.splits special_member_found.splits)
    qed (simp add: Api_Function discard_if_deleted_def)
    with False show ?thesis by simp
  qed
qed (simp_all add: offers_deleted_def discard_if_deleted_def)

lemma withdrawn_offers_nothing: "withdrawn api api' \<Longrightarrow> \<not> offers_deleted found api'"
  by (auto simp: withdrawn_def offers_deleted_def)

text \<open>
  C37: after the withdrawal no function a header wrote \<^verbatim>\<open>= default\<close> for is still offered where C++
  deletes it: a default constructor, a copy from a source that may change, and, where the class implements the
  traits, a destructor, a copy and a move, each by what was found of that member of its class. Item by item, in
  whatever order they come, exactly such a function is marked as ignored for being deleted, in place and under its
  name, and nothing else changes.
\<close>

theorem no_deleted_member_is_offered:
  assumes "apivec_wf v"
  shows "\<exists>v'. discard_deleted_defaulted_members v found = Some v' \<and>
    map Api_name (apis v') = map Api_name (apis v) \<and>
    \<not> list_ex (offers_deleted found) (apis v') \<and>
    list_all2 (\<lambda>api api'. if offers_deleted found api then withdrawn api api' else api' = api) (apis v) (apis v')"
proof -
  let ?l = "map (discard_if_deleted found) (apis v)"
  have names: "map Api_name ?l = map Api_name (apis v)" by (simp add: comp_def)
  have "distinct (map Api_name ?l)" unfolding names by (rule collected.unique[OF assms])
  from collect_distinct[OF this] obtain v' where
    v': "discard_deleted_defaulted_members v found = Some v'" "apis v' = ?l"
    by (auto simp: discard_deleted_defaulted_members_def)
  moreover have "\<not> offers_deleted found (discard_if_deleted found api)" for api
    using discard_step[of found api] withdrawn_offers_nothing by (auto split: if_splits)
  then have "\<not> list_ex (offers_deleted found) ?l" by (auto simp: list_ex_iff)
  moreover have "list_all2 (\<lambda>api api'. if offers_deleted found api then withdrawn api api' else api' = api) (apis v) ?l"
    using discard_step[of found] by (auto simp: list_all2_conv_all_nth)
  ultimately show ?thesis using names by auto
qed

section \<open>An enum for a field\<close>

text \<open>
  A field of enum type costs its class the default constructor. The stand-in for an enum has no
  default constructor, so a class declaring no constructor whose one field is an enum with no
  initializer is found to have none, and the note left says C++ gives it none; C++ gives it one,
  which leaves the field uninitialized as it does for an integer or a pointer.
\<close>

theorem enum_field_withdraws_default_constructor:
  "default_constructor_found (\<lambda>_. None) False False None None []
     [(describe_field field (Some tp), credit_initializer field (enum_items_found name))] =
   (if fi_has_default_initializer field then (Implicit, None)
    else (NotPresent, Some (DependencyLacksIt (describe_field field (Some tp)) DefaultConstructor)))"
  by (simp add: default_constructor_found_def is_defaulted_def found_as_declared_def enum_items_found_def
      scalar_items_found_def credit_initializer_def first_lacking_def or_else_def callable_any_def Let_def)


section \<open>An example\<close>

text \<open>\<^verbatim>\<open>enum E\<close> and \<^verbatim>\<open>struct S { int *p; }; struct D : S { E e = ...; ~D(); };\<close> in namespace \<^verbatim>\<open>ns\<close>.\<close>

definition sample_field :: "string \<Rightarrow> rust_type \<Rightarrow> converted_kind \<Rightarrow> bool \<Rightarrow> field_info" where
  "sample_field name ty kind initialized =
     \<lparr>fi_name = Some name, fi_ty = ty, fi_type_kind = kind, fi_bindgen_opaque_data = False,
      fi_is_const = False, fi_is_volatile = False, fi_holds_std_array = False,
      fi_has_default_initializer = initialized\<rparr>"

definition sample_pod :: "qualified_name list \<Rightarrow> qualified_name list \<Rightarrow> field_info list \<Rightarrow> pod_analysis" where
  "sample_pod bases deps infos =
     \<lparr>pa_kind = NonPod, pa_bases = bases, pa_public_bases = bases, pa_has_unnamed_base = False,
      pa_virtual_bases = [], pa_using_declarations = [], pa_castable_bases = [], pa_field_deps = deps,
      pa_field_definition_deps = deps, pa_field_info = infos, pa_bitfields = [], pa_num_generics = 0,
      pa_in_anonymous_namespace = False, pa_all_fields_converted = True\<rparr>"

definition sample_details :: "string \<Rightarrow> struct_details" where
  "sample_details name =
     \<lparr>sd_item = \<lparr>is_ident = name, is_type_params = [], is_other_params = 0, is_where_clause = [], is_fields = [], is_tokens = ''''\<rparr>,
      sd_has_rvalue_reference_fields = False, sd_layout = None\<rparr>"

definition sample_destructor :: "string \<Rightarrow> explicitness option \<Rightarrow> fn_pre_phase1" where
  "sample_destructor ty deleted =
     Api_Function (sample_name (ty @ ''_destructor''))
       \<lparr>fc_provenance = Bindgen, fc_ident = ty @ ''_destructor'', fc_doc_attrs = [], fc_inputs = [],
        fc_variadic = False, fc_output = None, fc_vis = ''pub'', fc_virtualness = None,
        fc_cpp_vis = Public, fc_special_member = Some Destructor, fc_method_kind = None,
        fc_original_name = None, fc_self_ty = Some (QualifiedName [''ns''] ty),
        fc_synthesized_this_type = None, fc_add_to_trait = None, fc_synthetic_cpp = None,
        fc_is_deleted = deleted, fc_deprecation = None, fc_ref_qualifier = RefQualifier_None,
        fc_exception_specification = ExSpec_None\<rparr>
       \<lparr>fa_cxxbridge_name = ''drop'', fa_rust_name = ''drop'', fa_cpp_call_name = None,
        fa_rust_rename_strategy = Rename_None, fa_params = [],
        fa_kind = FnKind_TraitMethod Trait_Destructor (QualifiedName [''ns''] ty)
          \<lparr>tmd_trait_impl = \<lparr>tis_ty = Type_Path (plain_path False [''output'', ''ns'', ty]),
             tis_trait_signature = Type_Path (plain_path False [''Drop'']), tis_unsafety = False\<rparr>,
           tmd_avoid_self = False, tmd_method_name = ''drop'',
           tmd_parameter_reordering = None\<rparr>,
        fa_ret_type = None, fa_param_details = [], fa_ret_conversion = None,
        fa_requires_unsafe = Unsafety_None, fa_vis = ''pub'', fa_cpp_wrapper = None, fa_deps = [],
        fa_ignore_reason = Inr (), fa_externally_callable = True, fa_rust_wrapper_needed = False,
        fa_may_throw = False, fa_rename_doc = []\<rparr>"

definition sample_classes :: fn_pre_phase1_apis where
  "sample_classes =
     (let items =
        [Api_Struct (sample_name ''D'') (sample_details ''D'')
           (sample_pod [QualifiedName [''ns''] ''S''] [QualifiedName [''ns''] ''E'']
              [sample_field ''e'' (Type_Path (plain_path False [''root'', ''ns'', ''E''])) Kind_Regular True]),
         Api_Struct (sample_name ''S'') (sample_details ''S'')
           (sample_pod [] [] [sample_field ''p'' (Type_Ptr True (Type_Path (plain_path False [''i32'']))) Kind_Pointer False]),
         Api_Enum (sample_name ''E'') \<lparr>ie_ident = ''E'', ie_variants = [], ie_tokens = ''''\<rparr>,
         sample_destructor ''D'' (Some Explicitness_Defaulted)]
      in \<lparr>apis = items, names = map Api_name items\<rparr>)"

lemmas sample_simps = sample_classes_def sample_destructor_def sample_details_def sample_pod_def
  sample_field_def sample_name_def new_from_qualified_name_def new_from_qualified_name_and_cpp_name_def

lemmas search_simps = find_constructors_present_def typedef_targets_def Api_name_def
  fields_and_bases_first_def depth_first_iter.simps depth_first_next_def field_and_base_deps_def
  visit_struct_def named_fields_def field_type_name_def plain_path_def from_type_path_def
  from_segments_def Namespace_new_def Namespace_push_def struct_items_found_def
  get_base_items_found_def resolve_typedefs_def get_items_found_def enum_names_def map_filter_def
  get_constructor_details_def db_get_def empty_database_def fields_items_found_def
  field_items_found_def held_items_found_def is_regular_kind_def find_explicit_items_def
  no_explicit_items_def merge_fun_def visit_concrete_def Let_def

lemmas rule_simps = understood_items_found_def Let_def default_constructor_found_def
  copy_constructors_found_def move_constructor_found_def destructor_found_def first_lacking_def
  or_else_def reference_field_def const_field_def is_defaulted_def declares_constructor_def
  credit_initializer_def answer_for_const_def answer_for_volatile_def
  volatile_member_of_class_type_def is_regular_kind_def is_reference_kind_def enum_items_found_def
  pointer_items_found_def scalar_items_found_def callable_any_def callable_subclass_def
  copyable_base_def copyable_field_def exists_implicit_def found_as_declared_def
  found_if_user_defined_def member_exists_def

lemma sample_answers:
  "\<exists>s d. find_constructors_present empty_database sample_classes [] =
       Some [(QualifiedName [''ns''] ''S'', s), (QualifiedName [''ns''] ''D'', d)] \<and>
     mem_destructor_is_trivial s \<and> \<not> mem_destructor_is_trivial d \<and>
     mem_move_constructor s = Implicit \<and> mem_move_constructor d = NotPresent \<and>
     mem_default_constructor d = Implicit"
  by (simp add: sample_simps search_simps, simp add: rule_simps)

lemma sample_wf: "apivec_wf sample_classes"
  by (simp add: apivec_wf_def sample_simps Api_name_def stub_ok_def is_displaced_function_def Let_def)

lemma sample_targets: "typedef_targets sample_classes = Some []"
  by (simp add: typedef_targets_def sample_simps Let_def)

lemma constructors_found_are_named_witness:
  "\<exists>found s name. find_constructors_present empty_database sample_classes [] = Some found \<and>
     map_of found (QualifiedName [''ns''] ''S'') = Some s \<and> mem_name s = Some name \<and>
     an_name name = QualifiedName [''ns''] ''S''"
proof -
  from sample_answers obtain s d where found: "find_constructors_present empty_database sample_classes [] =
       Some [(QualifiedName [''ns''] ''S'', s), (QualifiedName [''ns''] ''D'', d)]" by blast
  from constructors_found_are_named[OF found, of "QualifiedName [''ns''] ''S''" s] found
  show ?thesis by auto
qed


lemma constructors_analysis_returns_witness: "list_all fields_nameable (apis sample_classes)"
proof -
  have "find_constructors_present empty_database sample_classes [] \<noteq> None" using sample_answers by auto
  with constructors_analysis_returns[OF sample_wf, of empty_database "[]"] show ?thesis
    by (simp add: list_all_iff)
qed

lemma no_deleted_member_is_offered_witness:
  "\<exists>found v'. offers_deleted found (sample_destructor ''D'' (Some Explicitness_Defaulted)) \<and>
     discard_deleted_defaulted_members sample_classes found = Some v' \<and>
     \<not> list_ex (offers_deleted found) (apis v')"
proof -
  let ?found = "[(QualifiedName [''ns''] ''D'',
                  (concrete_items_found (sample_name ''D''))\<lparr>mem_destructor := NotPresent\<rparr>)]"
  have "offers_deleted ?found (sample_destructor ''D'' (Some Explicitness_Defaulted))"
    by (simp add: offers_deleted_def sample_destructor_def deleted_member_def)
  with no_deleted_member_is_offered[OF sample_wf, of ?found] show ?thesis by blast
qed

end
