(* ===== verification/Deps.thy ===== *)
theory Deps imports Constructors begin

text \<open>
  What function analysis leaves for every class (\<^verbatim>\<open>analysis/fun/mod.rs\<close>) and which items an item
  depends on in each phase (\<^verbatim>\<open>analysis/deps.rs\<close>).
\<close>

section \<open>The records of the later phases\<close>

record public_constructors =
  pc_move_constructor :: bool
  pc_destructor :: bool
  pc_destructor_inaccessible :: bool
  pc_why_no_constructors :: why_no_constructors
  pc_destructor_omitted_as_trivial :: bool
  pc_abstract_without_virtual_destructor :: bool
  pc_undestroyable_member :: "undestroyable_member option"

definition from_items_found ::
    "items_found \<Rightarrow> bool \<Rightarrow> undestroyable_member option \<Rightarrow> public_constructors" where
  "from_items_found items destructor_omitted_as_trivial undestroyable_member =
     \<lparr>pc_move_constructor = callable_any (mem_move_constructor items),
      pc_destructor = callable_any (mem_destructor items),
      pc_destructor_inaccessible = (\<not> callable_any (mem_destructor items)),
      pc_why_no_constructors = mem_why_no_constructors items,
      pc_destructor_omitted_as_trivial = destructor_omitted_as_trivial,
      pc_abstract_without_virtual_destructor = False,
      pc_undestroyable_member = undestroyable_member\<rparr>"

record pod_and_constructor_analysis =
  pca_pod :: pod_analysis
  pca_constructors :: public_constructors

record subclass_analysis =
  sa_superclass_destructor_visibility :: "cpp_visibility option"
  sa_superclass_destructor_virtual :: bool

record pod_and_dep_analysis =
  pda_pod :: pod_analysis
  pda_constructor_and_allocator_deps :: "qualified_name list"
  pda_constructors :: public_constructors

type_synonym fn_pre_phase2 = "(typedef_analysis, pod_and_constructor_analysis, fn_analysis, unit) api"
type_synonym fn_pre_phase3 =
  "(typedef_analysis, pod_and_constructor_analysis, fn_analysis, subclass_analysis) api"
type_synonym fn_phase = "(typedef_analysis, pod_and_dep_analysis, fn_analysis, subclass_analysis) api"
type_synonym fn_phase_apis =
  "(typedef_analysis, pod_and_dep_analysis, fn_analysis, subclass_analysis) api_vec"

section \<open>Dependencies\<close>

definition option_list :: "'a option \<Rightarrow> 'a list" where
  "option_list x = (case x of None \<Rightarrow> [] | Some a \<Rightarrow> [a])"

definition surface_deps :: "holder_surface option \<Rightarrow> qualified_name list" where
  "surface_deps surface = (case surface of None \<Rightarrow> [] | Some s \<Rightarrow> holder_deps s)"

definition pre_phase1_deps :: "fn_pre_phase1 \<Rightarrow> qualified_name list" where
  "pre_phase1_deps api =
     (case api of
        Api_Typedef name item old_tyname analysis \<Rightarrow> option_list old_tyname @ ta_deps analysis
      | Api_Struct name details analysis \<Rightarrow> pa_field_deps analysis @ pa_bases analysis
      | Api_Function name fn analysis \<Rightarrow> fa_deps analysis
      | Api_Subclass name superclass analysis \<Rightarrow> [superclass]
      | Api_RustSubclassFn name subclass details \<Rightarrow> rsf_dependencies details
      | Api_RustFn name details deps \<Rightarrow> deps
      | Api_Static name cpp_ty name_is_cpp_name \<Rightarrow> option_list cpp_ty
      | Api_ConcreteType name rs_definition cpp_definition holder deps alias \<Rightarrow> surface_deps holder @ deps
      | _ \<Rightarrow> [])"

definition deps :: "fn_phase \<Rightarrow> qualified_name list" where
  "deps api =
     (case api of
        Api_Typedef name item old_tyname analysis \<Rightarrow> option_list old_tyname @ ta_deps analysis
      | Api_Struct name details analysis \<Rightarrow>
          if pa_kind (pda_pod analysis) = Pod then
            pa_field_deps (pda_pod analysis) @ pa_bases (pda_pod analysis) @
            pda_constructor_and_allocator_deps analysis
          else pda_constructor_and_allocator_deps analysis
      | Api_Function name fn analysis \<Rightarrow> fa_deps analysis
      | Api_Subclass name superclass analysis \<Rightarrow> [superclass]
      | Api_RustSubclassFn name subclass details \<Rightarrow> rsf_dependencies details
      | Api_RustFn name details deps \<Rightarrow> deps
      | Api_Static name cpp_ty name_is_cpp_name \<Rightarrow> option_list cpp_ty
      | Api_ConcreteType name rs_definition cpp_definition holder deps alias \<Rightarrow> surface_deps holder @ deps
      | _ \<Rightarrow> [])"

lemma ignored_item_deps [simp]: "deps (Api_IgnoredItem name err ctx) = []"
  by (simp add: deps_def)

end
