(* ===== verification/ErrorReporter.thy ===== *)
theory ErrorReporter
  imports ApiVec
begin

text \<open>
  Running a conversion over every API and noting what goes wrong
  (\<^verbatim>\<open>conversion/error_reporter.rs\<close>). A conversion is a function into a result; a failure
  becomes an ignored item under the name the API had.
\<close>

text \<open>
  \<open>eprintln!\<close> apart, an error with no context leaves the list as it was. The outer option is the
  panic of a push.
\<close>

definition report_any_error ::
    "namespace \<Rightarrow> ('td, 'st, 'fn, 'sub) api_vec \<Rightarrow> (convert_error_with_context, 't) result \<Rightarrow>
     (('td, 'st, 'fn, 'sub) api_vec \<times> 't option) option" where
  "report_any_error ns v outcome =
     (case outcome of
        Inr result \<Rightarrow> Some (v, Some result)
      | Inl (ConvertErrorWithContext err None) \<Rightarrow> Some (v, None)
      | Inl (ConvertErrorWithContext err (Some ctx)) \<Rightarrow>
          (let idt = (case ctx of
                        Item i \<Rightarrow> i
                      | SanitizedItem lookup display \<Rightarrow> display
                      | Method self_ty method \<Rightarrow> self_ty);
               name = new_from_qualified_name (QualifiedName_new ns idt)
           in case apivec_push v (Api_IgnoredItem name err (Some ctx)) of
                None \<Rightarrow> None
              | Some v' \<Rightarrow> Some (v', None)))"

definition api_or_error ::
    "api_name \<Rightarrow> (convert_error_with_context, ('td, 'st, 'fn, 'sub) api list) result \<Rightarrow>
     ('td, 'st, 'fn, 'sub) api list" where
  "api_or_error name outcome =
     (case outcome of
        Inr opt \<Rightarrow> opt
      | Inl (ConvertErrorWithContext err ctx) \<Rightarrow> [Api_IgnoredItem name err ctx])"

text \<open>The five conversions of \<^verbatim>\<open>convert_apis\<close>, from one phase's analyses to the next's.\<close>

record ('td, 'st, 'fn, 'sub, 'td2, 'st2, 'fn2, 'sub2) conversions =
  func_conversion :: "api_name \<Rightarrow> func_to_convert \<Rightarrow> 'fn \<Rightarrow>
    (convert_error_with_context, ('td2, 'st2, 'fn2, 'sub2) api list) result"
  struct_conversion :: "api_name \<Rightarrow> struct_details \<Rightarrow> 'st \<Rightarrow>
    (convert_error_with_context, ('td2, 'st2, 'fn2, 'sub2) api list) result"
  enum_conversion :: "api_name \<Rightarrow> item_enum \<Rightarrow>
    (convert_error_with_context, ('td2, 'st2, 'fn2, 'sub2) api list) result"
  typedef_conversion :: "api_name \<Rightarrow> typedef_kind \<Rightarrow> qualified_name option \<Rightarrow> 'td \<Rightarrow>
    (convert_error_with_context, ('td2, 'st2, 'fn2, 'sub2) api list) result"
  subclass_conversion :: "subclass_name \<Rightarrow> qualified_name \<Rightarrow> 'sub \<Rightarrow>
    (convert_error_with_context, ('td2, 'st2, 'fn2, 'sub2) api list) result"

fun convert_one_api ::
    "('td, 'st, 'fn, 'sub, 'td2, 'st2, 'fn2, 'sub2) conversions \<Rightarrow> ('td, 'st, 'fn, 'sub) api \<Rightarrow>
     (convert_error_with_context, ('td2, 'st2, 'fn2, 'sub2) api list) result" where
  "convert_one_api cv (Api_ConcreteType name rs cpp hs deps ia) =
     Inr [Api_ConcreteType name rs cpp hs deps ia]"
| "convert_one_api cv (Api_ForwardDeclaration name err) = Inr [Api_ForwardDeclaration name err]"
| "convert_one_api cv (Api_OpaqueTypedef name fd reason) = Inr [Api_OpaqueTypedef name fd reason]"
| "convert_one_api cv (Api_StringConstructor name) = Inr [Api_StringConstructor name]"
| "convert_one_api cv (Api_Const name item) = Inr [Api_Const name item]"
| "convert_one_api cv (Api_Static name cpp_ty is_cpp) = Inr [Api_Static name cpp_ty is_cpp]"
| "convert_one_api cv (Api_CType name type_name) = Inr [Api_CType name type_name]"
| "convert_one_api cv (Api_RustType name path) = Inr [Api_RustType name path]"
| "convert_one_api cv (Api_RustFn name details deps) = Inr [Api_RustFn name details deps]"
| "convert_one_api cv (Api_RustSubclassFn name subclass details) =
     Inr [Api_RustSubclassFn name subclass details]"
| "convert_one_api cv (Api_IgnoredItem name err ctx) = Inr [Api_IgnoredItem name err ctx]"
| "convert_one_api cv (Api_SubclassTraitItem name details) = Inr [Api_SubclassTraitItem name details]"
| "convert_one_api cv (Api_ExternCppType name details pod) = Inr [Api_ExternCppType name details pod]"
| "convert_one_api cv (Api_Enum name item) = enum_conversion cv name item"
| "convert_one_api cv (Api_Typedef name item old_tyname analysis) =
     typedef_conversion cv name item old_tyname analysis"
| "convert_one_api cv (Api_Function name fn analysis) = func_conversion cv name fn analysis"
| "convert_one_api cv (Api_Struct name details analysis) = struct_conversion cv name details analysis"
| "convert_one_api cv (Api_Subclass name superclass analysis) =
     subclass_conversion cv name superclass analysis"

definition converted_apis ::
    "('td, 'st, 'fn, 'sub, 'td2, 'st2, 'fn2, 'sub2) conversions \<Rightarrow> ('td, 'st, 'fn, 'sub) api list \<Rightarrow>
     ('td2, 'st2, 'fn2, 'sub2) api list" where
  "converted_apis cv items =
     concat (map (\<lambda>api. api_or_error (name_info api) (convert_one_api cv api)) items)"

definition convert_apis ::
    "('td, 'st, 'fn, 'sub, 'td2, 'st2, 'fn2, 'sub2) conversions \<Rightarrow> ('td, 'st, 'fn, 'sub) api_vec \<Rightarrow>
     ('td2, 'st2, 'fn2, 'sub2) api_vec \<Rightarrow> ('td2, 'st2, 'fn2, 'sub2) api_vec option" where
  "convert_apis cv in_apis out_apis = apivec_extend out_apis (converted_apis cv (apis in_apis))"

definition convert_item_apis ::
    "(('td, 'st, 'fn, 'sub) api \<Rightarrow> (convert_error, ('td2, 'st2, 'fn2, 'sub2) api list) result) \<Rightarrow>
     ('td, 'st, 'fn, 'sub) api_vec \<Rightarrow> ('td2, 'st2, 'fn2, 'sub2) api_vec \<Rightarrow>
     ('td2, 'st2, 'fn2, 'sub2) api_vec option" where
  "convert_item_apis fn in_apis out_apis =
     apivec_extend out_apis
       (concat (map (\<lambda>api.
          api_or_error (name_info api)
            (case fn api of
               Inr converted \<Rightarrow> Inr converted
             | Inl e \<Rightarrow> Inl (ConvertErrorWithContext e (Some (new_for_item (get_final_item (Api_name api)))))))
        (apis in_apis)))"

section \<open>Passes that accept or refuse\<close>

text \<open>A pass that only accepts or refuses items keeps them in place.\<close>

definition checked ::
    "(('td, 'st, 'fn, 'sub) api \<Rightarrow> (convert_error, ('td, 'st, 'fn, 'sub) api list) result) \<Rightarrow>
     ('td, 'st, 'fn, 'sub) api \<Rightarrow> ('td, 'st, 'fn, 'sub) api" where
  "checked fn api =
     (case fn api of
        Inr _ \<Rightarrow> api
      | Inl e \<Rightarrow> Api_IgnoredItem (name_info api) e (Some (new_for_item (get_final_item (Api_name api)))))"

lemma Api_name_checked [simp]: "Api_name (checked fn api) = Api_name api"
  by (simp add: checked_def Api_name_def split: sum.splits)

lemma map_name_checked: "map Api_name (map (checked fn) l) = map Api_name l"
  by simp

lemma checking_pass:
  assumes "distinct (map Api_name (apis v))"
    and "\<And>api. api \<in> set (apis v) \<Longrightarrow> fn api = Inr [api] \<or> (\<exists>e. fn api = Inl e)"
  obtains v' where "convert_item_apis fn v ApiVec_new = Some v'" "apis v' = map (checked fn) (apis v)"
proof -
  have "concat (map (\<lambda>api. api_or_error (name_info api)
      (case fn api of
         Inr converted \<Rightarrow> Inr converted
       | Inl e \<Rightarrow> Inl (ConvertErrorWithContext e (Some (new_for_item (get_final_item (Api_name api)))))))
      l) = map (checked fn) l" if "set l \<subseteq> set (apis v)" for l
    using that
  proof (induction l)
    case (Cons api l)
    with assms(2)[of api] show ?case by (auto simp: api_or_error_def checked_def)
  qed simp
  from this[of "apis v"] have "convert_item_apis fn v ApiVec_new = apivec_from_iter (map (checked fn) (apis v))"
    by (simp add: convert_item_apis_def apivec_from_iter_def)
  moreover from assms(1) have "distinct (map Api_name (map (checked fn) (apis v)))"
    by (simp only: map_name_checked)
  ultimately show thesis using collect_distinct that by metis
qed

lemma checked_name_info [simp]: "name_info (checked fn api) = name_info api"
  by (simp add: checked_def split: sum.splits)

section \<open>Properties\<close>

text \<open>What the conversion for the kind of an item says of it; items of the other kinds have none.\<close>

definition hook_result ::
    "('td, 'st, 'fn, 'sub, 'td2, 'st2, 'fn2, 'sub2) conversions \<Rightarrow> ('td, 'st, 'fn, 'sub) api \<Rightarrow>
     (convert_error_with_context, ('td2, 'st2, 'fn2, 'sub2) api list) result option" where
  "hook_result cv api =
     (case api of
        Api_Function name fn analysis \<Rightarrow> Some (func_conversion cv name fn analysis)
      | Api_Struct name details analysis \<Rightarrow> Some (struct_conversion cv name details analysis)
      | Api_Enum name item \<Rightarrow> Some (enum_conversion cv name item)
      | Api_Typedef name item old_tyname analysis \<Rightarrow> Some (typedef_conversion cv name item old_tyname analysis)
      | Api_Subclass name superclass analysis \<Rightarrow> Some (subclass_conversion cv name superclass analysis)
      | _ \<Rightarrow> None)"

text \<open>
  What should come of an item: what its conversion makes of it, a note of what the conversion fails with under the
  item's own name, or, where no conversion is for it, the item as it is, seen as one of the next phase.
\<close>

definition becomes ::
    "('td, 'st, 'fn, 'sub, 'td2, 'st2, 'fn2, 'sub2) conversions \<Rightarrow> ('td, 'st, 'fn, 'sub) api \<Rightarrow>
     ('td2, 'st2, 'fn2, 'sub2) api list \<Rightarrow> bool" where
  "becomes cv api items \<longleftrightarrow>
     (case hook_result cv api of
        Some (Inr converted) \<Rightarrow> items = converted
      | Some (Inl (ConvertErrorWithContext err ctx)) \<Rightarrow> items = [Api_IgnoredItem (name_info api) err ctx]
      | None \<Rightarrow> (\<exists>td st fn sub. items = [map_api td st fn sub api]))"

lemma becomes_converted: "becomes cv api items \<longleftrightarrow> items = api_or_error (name_info api) (convert_one_api cv api)"
  by (cases api) (auto simp: becomes_def hook_result_def api_or_error_def split: sum.splits convert_error_with_context.splits)

lemma all_become:
  "list_all2 (becomes cv) items produced \<longleftrightarrow>
     produced = map (\<lambda>api. api_or_error (name_info api) (convert_one_api cv api)) items"
  by (induction items arbitrary: produced) (auto simp: becomes_converted list_all2_Cons1)

text \<open>
  C10: a conversion pass loses no name. Whatever the conversions of the items succeed or fail at, the pass does not
  panic and the list it builds has unique names. Every name there was in the output stays in it. Of the items that
  came in, each that has no conversion for its kind, and each whose conversion fails, still has its name stand for
  something, and of one whose conversion succeeds every name the conversion made does: a name can only be given up
  by the conversion itself. Where no two of the names meet the output is, in order, what there was and what comes of
  each item, which is the item itself where no conversion is for it. The conversions, and the items, make no note of
  a hidden function that forgot the function.
\<close>

theorem conversion_pass_loses_no_name:
  assumes "apivec_wf out_apis"
    and "\<And>api items item. api \<in> set (apis in_apis) \<Longrightarrow> becomes cv api items \<Longrightarrow> item \<in> set items \<Longrightarrow> stub_ok item"
  shows "\<exists>v. convert_apis cv in_apis out_apis = Some v \<and> distinct (map Api_name (apis v)) \<and>
    Api_name ` set (apis out_apis) \<subseteq> Api_name ` set (apis v) \<and>
    (\<forall>api \<in> set (apis in_apis).
       case hook_result cv api of
         Some (Inr converted) \<Rightarrow> Api_name ` set converted \<subseteq> Api_name ` set (apis v)
       | _ \<Rightarrow> Api_name api \<in> Api_name ` set (apis v)) \<and>
    (\<forall>produced. list_all2 (becomes cv) (apis in_apis) produced \<longrightarrow>
       distinct (map Api_name (apis out_apis @ concat produced)) \<longrightarrow> apis v = apis out_apis @ concat produced)"
proof -
  let ?made = "converted_apis cv (apis in_apis)"
  have "\<forall>api \<in> set ?made. stub_ok api"
    using assms(2) by (auto simp: converted_apis_def becomes_converted)
  from apivec_extend_wf[OF assms(1) this] obtain v where v:
    "convert_apis cv in_apis out_apis = Some v" "apivec_wf v"
    "set (names out_apis) \<union> Api_name ` set ?made \<subseteq> set (names v)"
    unfolding convert_apis_def by blast
  have names: "Api_name ` set (apis v) = set (names v)" "Api_name ` set (apis out_apis) = set (names out_apis)"
    "distinct (map Api_name (apis v))"
    using v(2) assms(1) by (simp_all add: apivec_wf_def)
  have own: "case hook_result cv api of
         Some (Inr converted) \<Rightarrow> Api_name ` set converted \<subseteq> Api_name ` set (apis v)
       | _ \<Rightarrow> Api_name api \<in> Api_name ` set (apis v)" if "api \<in> set (apis in_apis)" for api
  proof -
    from that have "Api_name ` set (api_or_error (name_info api) (convert_one_api cv api)) \<subseteq> Api_name ` set (apis v)"
      using v(3) by (auto simp: names(1) converted_apis_def)
    note made = this
    show ?thesis
    proof (cases "convert_one_api cv api")
      case (Inl e)
      obtain err ctx where "e = ConvertErrorWithContext err ctx" by (cases e)
      with Inl made show ?thesis by (cases api) (auto simp: hook_result_def api_or_error_def Api_name_def)
    next
      case (Inr converted)
      with made show ?thesis by (cases api) (auto simp: hook_result_def api_or_error_def Api_name_def)
    qed
  qed
  have "apis v = apis out_apis @ concat produced"
    if "list_all2 (becomes cv) (apis in_apis) produced" "distinct (map Api_name (apis out_apis @ concat produced))" for produced
  proof -
    from that have p: "concat produced = ?made" by (simp add: all_become converted_apis_def)
    with that(2) have fresh: "distinct (map Api_name ?made)"
      "\<forall>api \<in> set ?made. \<not> already_contains out_apis (Api_name api)"
      using names(2) by (auto simp: already_contains_def)
    from extend_fresh[OF fresh] v(1) p show ?thesis by (auto simp: convert_apis_def)
  qed
  with v own names show ?thesis by (intro exI[of _ v] conjI) auto
qed

text \<open>The conversions of a pass that refuses every enum and leaves everything else alone.\<close>

definition refuse_enums ::
    "(unit, unit, unit, unit, unit, unit, unit, unit) conversions" where
  "refuse_enums =
     \<lparr>func_conversion = fun_unchanged, struct_conversion = struct_unchanged,
      enum_conversion = (\<lambda>name item.
        Inl (ConvertErrorWithContext AbstractNestedType (Some (new_for_item (ie_ident item))))),
      typedef_conversion = typedef_unchanged, subclass_conversion = subclass_unchanged\<rparr>"

lemma conversion_pass_loses_no_name_witness:
  "\<exists>v. convert_apis refuse_enums
       \<lparr>apis = [sample_enum ''A'', Api_CType (ApiName_new [] ''B'') (QualifiedName [] ''int'')],
        names = [QualifiedName [''ns''] ''A'', QualifiedName [] ''B'']\<rparr> ApiVec_new = Some v \<and>
     map Api_name (apis v) = [QualifiedName [''ns''] ''A'', QualifiedName [] ''B'']"
proof -
  let ?items = "[sample_enum ''A'', Api_CType (ApiName_new [] ''B'') (QualifiedName [] ''int'')]"
  let ?v = "\<lparr>apis = ?items, names = [QualifiedName [''ns''] ''A'', QualifiedName [] ''B'']\<rparr>"
  have "stub_ok item" if "api \<in> set (apis ?v)" "becomes refuse_enums api items" "item \<in> set items" for api items item
    using that by (auto simp: becomes_converted refuse_enums_def sample_enum_def api_or_error_def stub_ok_def is_displaced_function_def)
  from conversion_pass_loses_no_name[of ApiVec_new ?v refuse_enums, OF apivec_wf_new this] obtain v where v:
    "convert_apis refuse_enums ?v ApiVec_new = Some v"
    "\<And>produced. list_all2 (becomes refuse_enums) ?items produced \<Longrightarrow>
       distinct (map Api_name (concat produced)) \<Longrightarrow> apis v = concat produced"
    unfolding ApiVec_new_def by force
  let ?produced = "map (\<lambda>api. api_or_error (name_info api) (convert_one_api refuse_enums api)) ?items"
  have names: "an_name (sample_name ''A'') = QualifiedName [''ns''] ''A''" "an_name (ApiName_new [] ''B'') = QualifiedName [] ''B''"
    by code_simp+
  then have made: "map Api_name (concat ?produced) = [QualifiedName [''ns''] ''A'', QualifiedName [] ''B'']"
    by (simp add: refuse_enums_def sample_enum_def api_or_error_def Api_name_def)
  have "list_all2 (becomes refuse_enums) ?items ?produced" by (simp only: all_become)
  from v(2)[OF this] have "apis v = concat ?produced" unfolding made by simp
  with made v(1) show ?thesis by (intro exI[of _ v]) simp
qed

text \<open>
  Noting an error on the way. A success is handed through and changes nothing; an error about
  an item leaves a well-formed list which still holds every name it did and in which the name
  the error is shown under stands for something, and that name is never a built-in type's.
\<close>

theorem reported_error_leaves_a_note:
  fixes v :: "('td, 'st, 'fn, 'sub) api_vec"
  assumes "apivec_wf v" and "err \<noteq> FunctionHiddenByType"
  shows "report_any_error ns v (Inr x) = Some (v, Some x) \<and>
    (\<exists>v' display. report_any_error ns v
           (Inl (ConvertErrorWithContext err (Some (new_for_item idt)))) = Some (v', None :: 't option) \<and>
         apivec_wf v' \<and> QualifiedName ns display \<in> Api_name ` set (apis v') \<and>
         Api_name ` set (apis v) \<subseteq> Api_name ` set (apis v') \<and>
         \<not> conflicts_with_built_in_type known_types (QualifiedName [] display))"
proof -
  obtain display where display: "\<not> conflicts_with_built_in_type known_types (QualifiedName [] display)"
    and shown: "new_for_item idt = Item display \<or> new_for_item idt = SanitizedItem idt display"
    using new_for_item_shown by blast
  define item :: "('td, 'st, 'fn, 'sub) api" where "item = Api_IgnoredItem (new_from_qualified_name (QualifiedName_new ns display)) err
       (Some (new_for_item idt))"
  have "stub_ok item"
    using assms(2) by (auto simp: stub_ok_def is_displaced_function_def item_def split: convert_error.splits)
  from apivec_push_wf[OF assms(1) this] obtain v' where v': "apivec_push v item = Some v'" "apivec_wf v'"
    "insert (Api_name item) (set (names v)) \<subseteq> set (names v')" by blast
  have "Api_name item = QualifiedName ns display"
    by (simp add: item_def Api_name_def new_from_qualified_name_def
        new_from_qualified_name_and_cpp_name_def QualifiedName_new_def)
  moreover have "report_any_error ns v
      (Inl (ConvertErrorWithContext err (Some (new_for_item idt)))) = Some (v', None :: 't option)"
    using shown v'(1) by (auto simp: report_any_error_def item_def Let_def)
  moreover have "report_any_error ns v (Inr x) = Some (v, Some x)"
    by (simp add: report_any_error_def)
  moreover have "Api_name ` set (apis v) = set (names v)" "Api_name ` set (apis v') = set (names v')"
    using assms(1) v'(2) by (simp_all add: apivec_wf_def)
  ultimately show ?thesis
    using v'(2,3) display by (intro conjI exI[of _ v'] exI[of _ display]) simp_all
qed

lemma reported_error_leaves_a_note_witness:
  "\<exists>v'. report_any_error [] (ApiVec_new :: (unit, unit, unit, unit) api_vec)
      (Inl (ConvertErrorWithContext Deleted (Some (new_for_item ''u8'')))) =
    Some (v', None :: nat option) \<and> apivec_wf v'"
proof -
  have "Deleted \<noteq> FunctionHiddenByType" by simp
  from reported_error_leaves_a_note[OF apivec_wf_new this, of "[]" "0 :: nat" "''u8''"]
  show ?thesis by (elim conjE exE) (intro exI conjI)
qed

end
