(* ===== verification/BridgeNames.thy ===== *)
theory BridgeNames imports Deps ErrorReporter begin

text \<open>
  The names of the flat \<^verbatim>\<open>cxx::bridge\<close> mod: one for every type (\<^verbatim>\<open>analysis/bridge_type_names.rs\<close>),
  the final checks on all of them (\<^verbatim>\<open>analysis/name_check.rs\<close>), and the two trackers that name
  functions (\<^verbatim>\<open>analysis/fun/bridge_name_tracker.rs\<close>, \<^verbatim>\<open>analysis/fun/overload_tracker.rs\<close>). Whether
  \<^verbatim>\<open>syn\<close> takes an identifier is the argument \<open>is_rust_ident\<close>.
\<close>

section \<open>Names of types in the bridge\<close>

definition CXX_RESERVED_NAMES :: "string list" where
  "CXX_RESERVED_NAMES =
     [''Box'', ''UniquePtr'', ''SharedPtr'', ''WeakPtr'', ''Vec'', ''CxxVector'', ''str'', ''bool'',
      ''c_char'', ''u8'', ''u16'', ''u32'', ''u64'', ''usize'', ''i8'', ''i16'', ''i32'', ''i64'',
      ''isize'', ''f32'', ''f64'', ''CxxString'', ''String'']"

definition declares_bridge_type :: "fn_phase \<Rightarrow> bool" where
  "declares_bridge_type api =
     (case api of
        Api_Struct _ _ _ \<Rightarrow> True
      | Api_Enum _ _ \<Rightarrow> True
      | Api_ForwardDeclaration _ _ \<Rightarrow> True
      | Api_OpaqueTypedef _ _ _ \<Rightarrow> True
      | Api_ConcreteType _ _ _ _ _ _ \<Rightarrow> True
      | Api_ExternCppType _ _ _ \<Rightarrow> True
      | _ \<Rightarrow> False)"

definition fixed_bridge_names :: "fn_phase \<Rightarrow> string list" where
  "fixed_bridge_names api =
     (case api of
        Api_Function name fn analysis \<Rightarrow> [fa_cxxbridge_name analysis]
      | Api_CType name _ \<Rightarrow> [get_final_item (an_name name)]
      | Api_RustType name _ \<Rightarrow> [get_final_item (an_name name)]
      | Api_RustFn name _ _ \<Rightarrow> [get_final_item (an_name name)]
      | Api_RustSubclassFn name _ _ \<Rightarrow> [get_final_item (an_name name)]
      | Api_StringConstructor name \<Rightarrow> [get_final_item (an_name name)]
      | Api_Subclass name superclass analysis \<Rightarrow>
          [get_final_item (an_name (subclass_api_name name)), subclass_holder name,
           get_final_item (subclass_cpp name)]
      | _ \<Rightarrow> [])"

fun collapse_loop :: "string \<Rightarrow> string \<Rightarrow> string" where
  "collapse_loop out [] = out"
| "collapse_loop out (c # cs) =
     (if c = CHR ''_'' \<and> suffix ''_'' out then collapse_loop out cs else collapse_loop (out @ [c]) cs)"

definition collapse_underscore_runs :: "string \<Rightarrow> string" where
  "collapse_underscore_runs idt = collapse_loop [] idt"

definition bridge_candidate :: "string \<Rightarrow> nat \<Rightarrow> string" where
  "bridge_candidate stem counter =
     collapse_underscore_runs (stem @ ''_autocxx'' @ nat_to_string counter)"

text \<open>
  The numbered search stops at the first candidate that is either no identifier, which is an error,
  or not taken. \<open>None\<close> stands for a search that never ends.
\<close>

definition allocate ::
    "(string \<Rightarrow> bool) \<Rightarrow> qualified_name \<Rightarrow> string list \<Rightarrow>
     ((invalid_ident_error, string) result \<times> string list) option" where
  "allocate is_rust_ident name taken =
     (let preferred = get_final_item name in
      if preferred \<notin> set taken then Some (Inr preferred, iset_insert preferred taken)
      else
        let qualified = collapse_underscore_runs (join ''_'' (ns_segment_iter name @ [get_final_item name]));
            qualified_ok = (validate_ident_ok_for_cxx is_rust_ident qualified = Inr ())
        in
        if qualified_ok \<and> qualified \<notin> set taken then Some (Inr qualified, iset_insert qualified taken)
        else
          let candidate = bridge_candidate (if qualified_ok then qualified else preferred) in
          map_option
            (\<lambda>counter.
               case validate_ident_ok_for_cxx is_rust_ident (candidate counter) of
                 Inl e \<Rightarrow> (Inl e, taken)
               | Inr _ \<Rightarrow> (Inr (candidate counter), iset_insert (candidate counter) taken))
            (first_free candidate
               (\<lambda>c. validate_ident_ok_for_cxx is_rust_ident c = Inr () \<and> c \<in> set taken) 1))"

record bridge_type_names =
  btn_names :: "(qualified_name, ident) index_map"
  btn_unnameable :: "(qualified_name, invalid_ident_error) index_map"
  btn_taken :: "string list"

definition name_bridge_type ::
    "(string \<Rightarrow> bool) \<Rightarrow> fn_phase \<Rightarrow> bridge_type_names \<Rightarrow> bridge_type_names option" where
  "name_bridge_type is_rust_ident api b =
     map_option
       (\<lambda>(outcome, taken).
          case outcome of
            Inr chosen \<Rightarrow> b\<lparr>btn_names := imap_insert (Api_name api) (make_ident chosen) (btn_names b),
                            btn_taken := taken\<rparr>
          | Inl e \<Rightarrow> b\<lparr>btn_unnameable := imap_insert (Api_name api) e (btn_unnameable b),
                       btn_taken := taken\<rparr>)
       (allocate is_rust_ident (Api_name api) (btn_taken b))"

fun name_bridge_types ::
    "(string \<Rightarrow> bool) \<Rightarrow> fn_phase list \<Rightarrow> bridge_type_names \<Rightarrow> bridge_type_names option" where
  "name_bridge_types is_rust_ident [] b = Some b"
| "name_bridge_types is_rust_ident (api # rest) b =
     (case name_bridge_type is_rust_ident api b of
        None \<Rightarrow> None
      | Some b' \<Rightarrow> name_bridge_types is_rust_ident rest b')"

definition spoken_for :: "fn_phase_apis \<Rightarrow> string list" where
  "spoken_for v = remdups (CXX_RESERVED_NAMES @ concat (map fixed_bridge_names (apis v)))"

definition BridgeTypeNames_new ::
    "(string \<Rightarrow> bool) \<Rightarrow> fn_phase_apis \<Rightarrow> bridge_type_names option" where
  "BridgeTypeNames_new is_rust_ident v =
     name_bridge_types is_rust_ident (filter declares_bridge_type (apis v))
       \<lparr>btn_names = [], btn_unnameable = [], btn_taken = spoken_for v\<rparr>"

definition btn_get :: "bridge_type_names \<Rightarrow> qualified_name \<Rightarrow> ident" where
  "btn_get b name =
     (case map_of (btn_names b) name of Some idt \<Rightarrow> idt | None \<Rightarrow> get_final_item name)"

section \<open>The final checks on names\<close>

fun validate_all_segments_ok_for_cxx ::
    "(string \<Rightarrow> bool) \<Rightarrow> string list \<Rightarrow> (convert_error, unit) result" where
  "validate_all_segments_ok_for_cxx is_rust_ident [] = Inr ()"
| "validate_all_segments_ok_for_cxx is_rust_ident (seg # segs) =
     (case validate_ident_ok_for_cxx is_rust_ident seg of
        Inl e \<Rightarrow> Inl (InvalidIdent e)
      | Inr _ \<Rightarrow> validate_all_segments_ok_for_cxx is_rust_ident segs)"

definition validate_names :: "(string \<Rightarrow> bool) \<Rightarrow> string list list \<Rightarrow> fn_phase \<Rightarrow>
    (convert_error, fn_phase list) result" where
  "validate_names is_rust_ident segss api =
     (case validate_all_segments_ok_for_cxx is_rust_ident (concat segss) of
        Inl e \<Rightarrow> Inl e
      | Inr _ \<Rightarrow> Inr [api])"

definition checked_as_item :: "fn_phase \<Rightarrow> bool" where
  "checked_as_item api =
     (case api of
        Api_Typedef _ _ _ _ \<Rightarrow> True
      | Api_ForwardDeclaration _ _ \<Rightarrow> True
      | Api_OpaqueTypedef _ _ _ \<Rightarrow> True
      | Api_Const _ _ \<Rightarrow> True
      | Api_Static _ _ _ \<Rightarrow> True
      | Api_Enum _ _ \<Rightarrow> True
      | Api_Struct _ _ _ \<Rightarrow> True
      | _ \<Rightarrow> False)"

definition check_segments :: "(string \<Rightarrow> bool) \<Rightarrow> fn_phase \<Rightarrow> (convert_error, fn_phase list) result" where
  "check_segments is_rust_ident api =
     (if checked_as_item api then
        validate_names is_rust_ident
          [segment_iter (Api_name api),
           (case Api_cpp_name api of
              Some cpp_name \<Rightarrow> segment_iter (to_qualified_name cpp_name)
            | None \<Rightarrow> [])] api
      else case api of
        Api_Subclass name superclass analysis \<Rightarrow>
          validate_names is_rust_ident
            [segment_iter (an_name (subclass_api_name name)), segment_iter superclass] api
      | Api_Function name fn analysis \<Rightarrow> validate_names is_rust_ident [segment_iter (an_name name)] api
      | _ \<Rightarrow> Inr [api])"

definition bridge_name :: "bridge_type_names \<Rightarrow> fn_phase \<Rightarrow> ident option" where
  "bridge_name b api =
     (if declares_bridge_type api then Some (btn_get b (Api_name api))
      else case fixed_bridge_names api of [] \<Rightarrow> None | name # _ \<Rightarrow> Some (make_ident name))"

definition names_found :: "bridge_type_names \<Rightarrow> fn_phase list \<Rightarrow> ident \<Rightarrow> string list" where
  "names_found b l name =
     map (\<lambda>api. QualifiedName_to_string (Api_name api)) (filter (\<lambda>api. bridge_name b api = Some name) l)"

definition check_bridge_name ::
    "bridge_type_names \<Rightarrow> fn_phase list \<Rightarrow> fn_phase \<Rightarrow> (convert_error, fn_phase list) result" where
  "check_bridge_name b l api =
     (case map_of (btn_unnameable b) (Api_name api) of
        Some e \<Rightarrow> Inl (InvalidIdent e)
      | None \<Rightarrow>
          (case bridge_name b api of
             None \<Rightarrow> Inr [api]
           | Some name \<Rightarrow>
               if length (names_found b l name) > 1 then Inl (DuplicateCxxBridgeName (names_found b l name))
               else Inr [api]))"

definition check_names ::
    "(string \<Rightarrow> bool) \<Rightarrow> fn_phase_apis \<Rightarrow> (fn_phase_apis \<times> bridge_type_names) option" where
  "check_names is_rust_ident v =
     (case convert_item_apis (check_segments is_rust_ident) v ApiVec_new of
        None \<Rightarrow> None
      | Some intermediate \<Rightarrow>
          (case BridgeTypeNames_new is_rust_ident intermediate of
             None \<Rightarrow> None
           | Some b \<Rightarrow>
               map_option (\<lambda>results. (results, b))
                 (convert_item_apis (check_bridge_name b (apis intermediate)) intermediate ApiVec_new)))"

section \<open>Names of functions in the bridge\<close>

type_synonym bridge_name_tracker = "(string, nat) index_map"

definition count_of :: "('k, nat) index_map \<Rightarrow> 'k \<Rightarrow> nat" where
  "count_of m k = (case map_of m k of Some n \<Rightarrow> n | None \<Rightarrow> 0)"

definition bridge_prefix :: "string option \<Rightarrow> string \<Rightarrow> namespace \<Rightarrow> string" where
  "bridge_prefix type_name found_name ns = join ''_'' (ns @ option_list type_name @ [found_name])"

definition renamed_new :: "string \<Rightarrow> string" where
  "renamed_new found_name = (if found_name = ''new'' then ''new_autocxx'' else found_name)"

definition get_unique_cxx_bridge_name ::
    "bridge_name_tracker \<Rightarrow> string option \<Rightarrow> string \<Rightarrow> namespace \<Rightarrow> string \<times> bridge_name_tracker" where
  "get_unique_cxx_bridge_name tracker type_name found ns =
     (let found_name = renamed_new found; count = count_of tracker found_name in
      if count = 0 then (found_name, imap_insert found_name (count + 1) tracker)
      else
        let prefix = bridge_prefix type_name found_name ns; count = count_of tracker prefix in
        if count = 0 then (prefix, imap_insert prefix (count + 1) tracker)
        else (prefix @ ''_autocxx'' @ nat_to_string count, imap_insert prefix (count + 1) tracker))"

section \<open>Overloads\<close>

record scope_names =
  offsets :: "(string, nat) index_map"
  assigned :: "string list"
  declarations :: "(string, nat) index_map"

record overload_tracker =
  fn_names :: scope_names
  method_names_by_type :: "(string, scope_names) index_map"
  reserved_fn_names :: "string list"
  reserved_method_names_by_type :: "(string, string list) index_map"

definition empty_scope :: scope_names where
  "empty_scope = \<lparr>offsets = [], assigned = [], declarations = []\<rparr>"

definition OverloadTracker_default :: overload_tracker where
  "OverloadTracker_default =
     \<lparr>fn_names = empty_scope, method_names_by_type = [], reserved_fn_names = [],
      reserved_method_names_by_type = []\<rparr>"

definition reserved_in :: "overload_tracker \<Rightarrow> string option \<Rightarrow> string list" where
  "reserved_in t type_name =
     (case type_name of
        None \<Rightarrow> reserved_fn_names t
      | Some ty \<Rightarrow>
          (case map_of (reserved_method_names_by_type t) ty of Some l \<Rightarrow> l | None \<Rightarrow> []))"

definition reserve :: "overload_tracker \<Rightarrow> string option \<Rightarrow> string \<Rightarrow> overload_tracker" where
  "reserve t type_name name =
     (case type_name of
        Some ty \<Rightarrow>
          t\<lparr>reserved_method_names_by_type :=
              imap_insert ty (iset_insert name (reserved_in t type_name)) (reserved_method_names_by_type t)\<rparr>
      | None \<Rightarrow> t\<lparr>reserved_fn_names := iset_insert name (reserved_fn_names t)\<rparr>)"

definition scope_of :: "overload_tracker \<Rightarrow> string option \<Rightarrow> scope_names" where
  "scope_of t type_name =
     (case type_name of
        None \<Rightarrow> fn_names t
      | Some ty \<Rightarrow> (case map_of (method_names_by_type t) ty of Some s \<Rightarrow> s | None \<Rightarrow> empty_scope))"

definition put_scope :: "overload_tracker \<Rightarrow> string option \<Rightarrow> scope_names \<Rightarrow> overload_tracker" where
  "put_scope t type_name s =
     (case type_name of
        None \<Rightarrow> t\<lparr>fn_names := s\<rparr>
      | Some ty \<Rightarrow> t\<lparr>method_names_by_type := imap_insert ty s (method_names_by_type t)\<rparr>)"

text \<open>The name, the ordinal and the scope after; \<open>None\<close> stands for a search that never ends.\<close>

definition get_name_in_scope ::
    "scope_names \<Rightarrow> string list \<Rightarrow> string \<Rightarrow> string option \<Rightarrow>
     ((string \<times> nat option) \<times> scope_names) option" where
  "get_name_in_scope scope reserved_names cpp_method_name original_name =
     (let declaration_ordinal = map_option (count_of (declarations scope)) original_name;
          scope = (case original_name of
                     Some original \<Rightarrow>
                       scope\<lparr>declarations := imap_insert original (count_of (declarations scope) original + 1)
                                              (declarations scope)\<rparr>
                   | None \<Rightarrow> scope);
          this_offset = count_of (offsets scope) cpp_method_name;
          scope = scope\<lparr>offsets := imap_insert cpp_method_name (this_offset + 1) (offsets scope)\<rparr>
      in
      if this_offset = 0 \<and> cpp_method_name \<notin> set (assigned scope) then
        Some ((cpp_method_name, None),
              scope\<lparr>assigned := iset_insert cpp_method_name (assigned scope)\<rparr>)
      else
        map_option
          (\<lambda>n. let candidate = cpp_method_name @ nat_to_string n
                in ((candidate, declaration_ordinal),
                    scope\<lparr>assigned := iset_insert candidate (assigned scope)\<rparr>))
          (first_free (\<lambda>n. cpp_method_name @ nat_to_string n)
             (\<lambda>c. c \<in> set reserved_names \<or> c \<in> set (assigned scope)) (max this_offset 1)))"

definition get_name ::
    "overload_tracker \<Rightarrow> string option \<Rightarrow> string \<Rightarrow> string option \<Rightarrow>
     ((string \<times> nat option) \<times> overload_tracker) option" where
  "get_name t type_name cpp_method_name original_name =
     map_option (\<lambda>(answer, scope). (answer, put_scope t type_name scope))
       (get_name_in_scope (scope_of t type_name) (reserved_in t type_name) cpp_method_name original_name)"

definition get_function_real_name ::
    "overload_tracker \<Rightarrow> string \<Rightarrow> string option \<Rightarrow> ((string \<times> nat option) \<times> overload_tracker) option" where
  "get_function_real_name t found_name original_name = get_name t None found_name original_name"

definition get_method_real_name ::
    "overload_tracker \<Rightarrow> string \<Rightarrow> string \<Rightarrow> string option \<Rightarrow>
     ((string \<times> nat option) \<times> overload_tracker) option" where
  "get_method_real_name t type_name found_name original_name = get_name t (Some type_name) found_name original_name"

section \<open>Names given to types\<close>

lemma collapse_loop_append: "collapse_loop out (xs @ ys) = collapse_loop (collapse_loop out xs) ys"
  by (induction xs arbitrary: out) auto

lemma collapse_loop_plain: "CHR ''_'' \<notin> set ys \<Longrightarrow> collapse_loop out ys = out @ ys"
  by (induction ys arbitrary: out) auto

lemma underscore_not_digit: "CHR ''_'' \<notin> set (nat_to_string n)"
  using nat_to_string_digits[of n] by (auto simp: is_digit_def)

lemma bridge_candidate_eq:
  "bridge_candidate stem n = collapse_underscore_runs (stem @ ''_autocxx'') @ nat_to_string n"
  by (simp add: bridge_candidate_def collapse_underscore_runs_def collapse_loop_append
      collapse_loop_plain underscore_not_digit flip: append_assoc)

interpretation bridge_numbers: numbered_names "bridge_candidate stem"
  by unfold_locales (simp add: bridge_candidate_eq)

text \<open>A name given is new, and all that is taken afterwards is it and what was.\<close>

lemma allocate_gives:
  obtains (named) chosen where "allocate is_rust_ident name taken = Some (Inr chosen, iset_insert chosen taken)"
      "chosen \<notin> set taken"
    | (unnameable) e where "allocate is_rust_ident name taken = Some (Inl e, taken)"
proof -
  define ok where "ok s \<longleftrightarrow> validate_ident_ok_for_cxx is_rust_ident s = Inr ()" for s
  define preferred where "preferred = get_final_item name"
  define q where "q = collapse_underscore_runs (join ''_'' (ns_segment_iter name @ [preferred]))"
  define stem where "stem = (if ok q then q else preferred)"
  have "finite {c. ok c \<and> c \<in> set taken}" by simp
  from bridge_numbers.search_ends[OF this, of 1 stem] obtain k where
    k: "first_free (bridge_candidate stem) (\<lambda>c. ok c \<and> c \<in> set taken) 1 = Some k"
      "ok (bridge_candidate stem k) \<Longrightarrow> bridge_candidate stem k \<notin> set taken" by auto
  have allocate: "allocate is_rust_ident name taken =
    (if preferred \<notin> set taken then Some (Inr preferred, iset_insert preferred taken)
     else if ok q \<and> q \<notin> set taken then Some (Inr q, iset_insert q taken)
     else Some (case validate_ident_ok_for_cxx is_rust_ident (bridge_candidate stem k) of
                  Inl e \<Rightarrow> (Inl e, taken)
                | Inr _ \<Rightarrow> (Inr (bridge_candidate stem k), iset_insert (bridge_candidate stem k) taken)))"
    unfolding allocate_def Let_def preferred_def[symmetric] q_def[symmetric] ok_def[symmetric]
      stem_def[symmetric] k(1) by simp
  consider "preferred \<notin> set taken" | "preferred \<in> set taken" "ok q" "q \<notin> set taken"
    | "preferred \<in> set taken" "\<not> (ok q \<and> q \<notin> set taken)" by blast
  then show thesis
  proof cases
    case 3
    show thesis
    proof (cases "validate_ident_ok_for_cxx is_rust_ident (bridge_candidate stem k)")
      case (Inl e)
      with 3 allocate have "allocate is_rust_ident name taken = Some (Inl e, taken)" by auto
      then show thesis by (rule unnameable)
    next
      case (Inr u)
      with k(2) have "bridge_candidate stem k \<notin> set taken" by (simp add: ok_def)
      from 3 allocate Inr have "allocate is_rust_ident name taken =
          Some (Inr (bridge_candidate stem k), iset_insert (bridge_candidate stem k) taken)" by auto
      then show thesis using \<open>bridge_candidate stem k \<notin> set taken\<close> by (rule named)
    qed
  qed (use allocate named in simp_all)
qed

lemma snd_update_fresh:
  assumes "distinct (map snd m)" and "v \<notin> set (map snd m)"
  shows "distinct (map snd (imap_insert k v m))"
    and "set (map snd (imap_insert k v m)) \<subseteq> insert v (set (map snd m))"
proof -
  show vals: "set (map snd (imap_insert k v m)) \<subseteq> insert v (set (map snd m))" for m
    by (induction m) auto
  from assms show "distinct (map snd (imap_insert k v m))"
  proof (induction m)
    case (Cons p m)
    with vals[of m] show ?case by (cases p) auto
  qed simp
qed

text \<open>Over a list of types, from any names already given.\<close>

abbreviation names_apart :: "string list \<Rightarrow> bridge_type_names \<Rightarrow> bool" where
  "names_apart before b \<equiv> distinct (map snd (btn_names b)) \<and>
     set (map snd (btn_names b)) \<subseteq> set (btn_taken b) - set before \<and> set before \<subseteq> set (btn_taken b)"

lemma name_bridge_type_step:
  assumes "names_apart before b"
  obtains b' where "name_bridge_type is_rust_ident api b = Some b'" "names_apart before b'"
    "fst ` set (btn_names b') \<union> fst ` set (btn_unnameable b') =
       insert (Api_name api) (fst ` set (btn_names b) \<union> fst ` set (btn_unnameable b))"
proof -
  have keys: "fst ` set (imap_insert k v m) = insert k (fst ` set m)" for k v and m :: "('c \<times> 'd) list"
    using dom_update[of k v m] by (auto simp: dom_map_of_conv_image_fst)
  show thesis
  proof (cases is_rust_ident "Api_name api" "btn_taken b" rule: allocate_gives)
    case (named chosen)
    have "chosen \<notin> set (map snd (btn_names b))" using assms named(2) by auto
    note fresh = snd_update_fresh[OF conjunct1[OF assms] this, of "Api_name api"]
    have "set (map snd (imap_insert (Api_name api) chosen (btn_names b))) \<subseteq>
        set (iset_insert chosen (btn_taken b)) - set before"
      using fresh(2) assms named(2) unfolding set_iset_insert by blast
    moreover have "set before \<subseteq> set (iset_insert chosen (btn_taken b))" using assms by auto
    moreover note fresh(1)
    ultimately have apart: "names_apart before
        (b\<lparr>btn_names := imap_insert (Api_name api) (make_ident chosen) (btn_names b),
           btn_taken := iset_insert chosen (btn_taken b)\<rparr>)" by (simp add: make_ident_def)
    show thesis
      by (rule that[of "b\<lparr>btn_names := imap_insert (Api_name api) (make_ident chosen) (btn_names b),
              btn_taken := iset_insert chosen (btn_taken b)\<rparr>"])
        (use named apart in \<open>simp_all add: name_bridge_type_def keys\<close>)
  next
    case (unnameable e)
    show thesis
      by (rule that[of "b\<lparr>btn_unnameable := imap_insert (Api_name api) e (btn_unnameable b),
              btn_taken := btn_taken b\<rparr>"])
        (use unnameable assms in \<open>auto simp: name_bridge_type_def keys\<close>)
  qed
qed

lemma name_bridge_types_all:
  assumes "names_apart before b"
  shows "\<exists>b'. name_bridge_types is_rust_ident l b = Some b' \<and> names_apart before b' \<and>
    fst ` set (btn_names b') \<union> fst ` set (btn_unnameable b') =
      Api_name ` set l \<union> (fst ` set (btn_names b) \<union> fst ` set (btn_unnameable b))"
  using assms
proof (induction l arbitrary: b)
  case (Cons api l)
  obtain b' where step: "name_bridge_type is_rust_ident api b = Some b'" "names_apart before b'"
    "fst ` set (btn_names b') \<union> fst ` set (btn_unnameable b') =
       insert (Api_name api) (fst ` set (btn_names b) \<union> fst ` set (btn_unnameable b))"
    using Cons.prems by (rule name_bridge_type_step)
  from Cons.IH[OF step(2)] step(1,3) show ?case by auto
qed simp

section \<open>Names given to functions\<close>

text \<open>A name of a scope is new to it, and a numbered one is not a name reserved there.\<close>

interpretation overload_numbers: numbered_names "\<lambda>n. cpp_method_name @ nat_to_string n"
  by unfold_locales simp

lemma get_name_in_scope_gives:
  obtains name ordinal scope' where
    "get_name_in_scope scope reserved_names cpp original = Some ((name, ordinal), scope')"
    "name \<notin> set (assigned scope)" "set (assigned scope') = insert name (set (assigned scope))"
    "name = cpp \<and> ordinal = None \<or> name \<notin> set reserved_names \<and> (\<exists>n \<ge> 1. name = cpp @ nat_to_string n)"
proof -
  let ?search = "first_free (\<lambda>n. cpp @ nat_to_string n)
      (\<lambda>c. c \<in> set reserved_names \<or> c \<in> set (assigned scope)) (max (count_of (offsets scope) cpp) 1)"
  have "finite {c. c \<in> set reserved_names \<or> c \<in> set (assigned scope)}" by simp
  from overload_numbers.search_ends[OF this, of "max (count_of (offsets scope) cpp) 1" cpp]
  obtain k where k: "?search = Some k" "k \<ge> 1" "cpp @ nat_to_string k \<notin> set reserved_names"
    "cpp @ nat_to_string k \<notin> set (assigned scope)" by auto
  define s where "s = (case original of
      Some orig \<Rightarrow> scope\<lparr>declarations := imap_insert orig (count_of (declarations scope) orig + 1) (declarations scope)\<rparr>
    | None \<Rightarrow> scope)"
  have s: "offsets s = offsets scope" "assigned s = assigned scope" by (simp_all add: s_def split: option.splits)
  let ?s = "s\<lparr>offsets := imap_insert cpp (count_of (offsets scope) cpp + 1) (offsets scope)\<rparr>"
  have "get_name_in_scope scope reserved_names cpp original =
    (if count_of (offsets scope) cpp = 0 \<and> cpp \<notin> set (assigned scope)
     then Some ((cpp, None), ?s\<lparr>assigned := iset_insert cpp (assigned scope)\<rparr>)
     else map_option (\<lambda>n. ((cpp @ nat_to_string n, map_option (count_of (declarations scope)) original),
                ?s\<lparr>assigned := iset_insert (cpp @ nat_to_string n) (assigned scope)\<rparr>)) ?search)"
    unfolding get_name_in_scope_def Let_def s_def[symmetric] by (simp add: s)
  then have given: "get_name_in_scope scope reserved_names cpp original =
    (if count_of (offsets scope) cpp = 0 \<and> cpp \<notin> set (assigned scope)
     then Some ((cpp, None), ?s\<lparr>assigned := iset_insert cpp (assigned scope)\<rparr>)
     else Some ((cpp @ nat_to_string k, map_option (count_of (declarations scope)) original),
                ?s\<lparr>assigned := iset_insert (cpp @ nat_to_string k) (assigned scope)\<rparr>))"
    by (simp only: k(1) option.map)
  show thesis
  proof (cases "count_of (offsets scope) cpp = 0 \<and> cpp \<notin> set (assigned scope)")
    case True
    with given show thesis
      by (intro that[of cpp None "?s\<lparr>assigned := iset_insert cpp (assigned scope)\<rparr>"]) auto
  next
    case False
    with given k show thesis
      by (intro that[of "cpp @ nat_to_string k" "map_option (count_of (declarations scope)) original"
            "?s\<lparr>assigned := iset_insert (cpp @ nat_to_string k) (assigned scope)\<rparr>"]) auto
  qed
qed

lemma scope_of_put [simp]: "scope_of (put_scope t ty s) ty' = (if ty' = ty then s else scope_of t ty')"
  by (auto simp: scope_of_def put_scope_def split: option.splits)

lemma reserved_in_put [simp]: "reserved_in (put_scope t ty s) ty' = reserved_in t ty'"
  by (simp add: reserved_in_def put_scope_def split: option.splits)

lemma scope_of_reserve [simp]: "scope_of (reserve t ty n) ty' = scope_of t ty'"
  by (simp add: scope_of_def reserve_def split: option.splits)

lemma reserved_in_reserve [simp]:
  "set (reserved_in (reserve t ty n) ty') = (if ty' = ty then insert n (set (reserved_in t ty)) else set (reserved_in t ty'))"
  by (auto simp: reserved_in_def reserve_def split: option.splits)

text \<open>
  The requests of a whole analysis: the type whose method is named, or none for a free function,
  the name found and the name of the C++ declaration.
\<close>

type_synonym naming_request = "string option \<times> string \<times> string option"

fun name_requests ::
    "overload_tracker \<Rightarrow> naming_request list \<Rightarrow> (string list \<times> overload_tracker) option" where
  "name_requests t [] = Some ([], t)"
| "name_requests t ((ty, found, original) # rest) =
     (case (case ty of None \<Rightarrow> get_function_real_name t found original
                     | Some self_ty \<Rightarrow> get_method_real_name t self_ty found original) of
        None \<Rightarrow> None
      | Some ((name, ordinal), t') \<Rightarrow>
          map_option (\<lambda>(given, t''). (name # given, t'')) (name_requests t' rest))"

definition reserve_all :: "(string option \<times> string) list \<Rightarrow> overload_tracker" where
  "reserve_all reserved = fold (\<lambda>(ty, n) t. reserve t ty n) reserved OverloadTracker_default"

text \<open>What a request may be answered with.\<close>

definition answers :: "string list \<Rightarrow> string \<Rightarrow> string \<Rightarrow> bool" where
  "answers reserved found name \<longleftrightarrow>
     name = found \<or> name \<notin> set reserved \<and> (\<exists>n \<ge> 1. name = found @ nat_to_string n)"

lemma request_step:
  obtains name ordinal scope' where
    "name_requests t ((ty, found, original) # rest) =
       map_option (\<lambda>(given, t''). (name # given, t'')) (name_requests (put_scope t ty scope') rest)"
    "name \<notin> set (assigned (scope_of t ty))"
    "set (assigned scope') = insert name (set (assigned (scope_of t ty)))"
    "answers (reserved_in t ty) found name"
proof (rule get_name_in_scope_gives[of "scope_of t ty" "reserved_in t ty" found original])
  fix name ordinal scope'
  assume 1: "get_name_in_scope (scope_of t ty) (reserved_in t ty) found original =
      Some ((name, ordinal), scope')" "name \<notin> set (assigned (scope_of t ty))"
    "set (assigned scope') = insert name (set (assigned (scope_of t ty)))"
    "name = found \<and> ordinal = None \<or>
     name \<notin> set (reserved_in t ty) \<and> (\<exists>n \<ge> 1. name = found @ nat_to_string n)"
  have "(case ty of None \<Rightarrow> get_function_real_name t found original
          | Some self_ty \<Rightarrow> get_method_real_name t self_ty found original) =
        Some ((name, ordinal), put_scope t ty scope')"
    using 1(1) by (cases ty) (simp_all add: get_function_real_name_def get_method_real_name_def get_name_def)
  with 1 show thesis by (intro that[of name scope']) (auto simp: answers_def)
qed

lemma name_requests_all:
  "\<exists>given t'. name_requests t requests = Some (given, t') \<and> length given = length requests \<and>
     distinct (zip (map fst requests) given) \<and>
     (\<forall>(ty, name) \<in> set (zip (map fst requests) given). name \<notin> set (assigned (scope_of t ty))) \<and>
     list_all2 (\<lambda>(ty, found, original). answers (reserved_in t ty) found) requests given"
proof (induction requests arbitrary: t)
  case (Cons request rest)
  obtain ty found original where r: "request = (ty, found, original)" by (cases request)
  obtain name scope' where step:
    "name_requests t ((ty, found, original) # rest) =
       map_option (\<lambda>(given, t''). (name # given, t'')) (name_requests (put_scope t ty scope') rest)"
    "name \<notin> set (assigned (scope_of t ty))"
    "set (assigned scope') = insert name (set (assigned (scope_of t ty)))"
    "answers (reserved_in t ty) found name" by (rule request_step)
  from Cons.IH[of "put_scope t ty scope'"] obtain given t' where rest:
    "name_requests (put_scope t ty scope') rest = Some (given, t')" "length given = length rest"
    "distinct (zip (map fst rest) given)"
    "\<forall>(ty', n) \<in> set (zip (map fst rest) given). n \<notin> set (assigned (scope_of (put_scope t ty scope') ty'))"
    "list_all2 (\<lambda>(ty', found, original). answers (reserved_in t ty') found) rest given"
    by auto
  have fresh: "(ty, name) \<notin> set (zip (map fst rest) given)" using rest(4) step(3) by fastforce
  have kept: "\<forall>(ty', n) \<in> set (zip (map fst rest) given). n \<notin> set (assigned (scope_of t ty'))"
    using rest(4) step(3) by (fastforce split: if_splits)
  show ?case using step(1,2,4) rest fresh kept
    by (intro exI[of _ "name # given"] exI[of _ t']) (simp add: r)
qed simp

lemma reserve_all_scopes [simp]: "scope_of (reserve_all reserved) ty = empty_scope"
proof -
  have "scope_of (fold (\<lambda>(ty, n) t. reserve t ty n) reserved t) ty = scope_of t ty" for t
    by (induction reserved arbitrary: t) auto
  then show ?thesis by (simp add: reserve_all_def OverloadTracker_default_def scope_of_def split: option.splits)
qed

lemma reserve_all_reserved: "set (reserved_in (reserve_all reserved) ty) = {n. (ty, n) \<in> set reserved}"
proof -
  have "set (reserved_in (fold (\<lambda>(ty, n) t. reserve t ty n) reserved t) ty) =
    {n. (ty, n) \<in> set reserved} \<union> set (reserved_in t ty)" for t
    by (induction reserved arbitrary: t) (auto split: if_splits)
  then show ?thesis by (simp add: reserve_all_def OverloadTracker_default_def reserved_in_def split: option.splits)
qed

text \<open>
  C18: naming overloads. Whatever names are reserved and whatever functions and methods then ask in
  whatever order, every search for a number ends, no two functions of one scope get one name, and
  each gets the name it asked for or that name with a number of 1 or more behind it, which is then
  not a name reserved in the scope.
\<close>

theorem overloads_get_names_of_their_own:
  "\<exists>given t. name_requests (reserve_all reserved) requests = Some (given, t) \<and>
     length given = length requests \<and> distinct (zip (map fst requests) given) \<and>
     list_all2 (\<lambda>(ty, found, original) name. name = found \<or>
        (ty, name) \<notin> set reserved \<and> (\<exists>n \<ge> 1. name = found @ nat_to_string n)) requests given"
proof -
  from name_requests_all[of "reserve_all reserved" requests] obtain given t where g:
    "name_requests (reserve_all reserved) requests = Some (given, t)" "length given = length requests"
    "distinct (zip (map fst requests) given)"
    "list_all2 (\<lambda>(ty, found, original). answers (reserved_in (reserve_all reserved) ty) found) requests given"
    by blast
  have "list_all2 (\<lambda>(ty, found, original) name. name = found \<or>
        (ty, name) \<notin> set reserved \<and> (\<exists>n \<ge> 1. name = found @ nat_to_string n)) requests given"
    by (rule list_all2_mono[OF g(4)]) (auto simp: answers_def reserve_all_reserved)
  with g show ?thesis by blast
qed

lemma bridge_types_named:
  obtains b where "BridgeTypeNames_new is_rust_ident v = Some b" "names_apart (spoken_for v) b"
    "fst ` set (btn_names b) \<union> fst ` set (btn_unnameable b) = Api_name ` set (filter declares_bridge_type (apis v))"
proof -
  have "names_apart (spoken_for v) \<lparr>btn_names = [], btn_unnameable = [], btn_taken = spoken_for v\<rparr>" by simp
  from name_bridge_types_all[OF this, of is_rust_ident "filter declares_bridge_type (apis v)"] show thesis
    by (elim exE conjE) (rule that; simp add: BridgeTypeNames_new_def)
qed

text \<open>
  Naming types. Naming always ends; no two types get one name, no name given is one that is
  spoken for (cxx's own types, functions, items the bridge names otherwise), and every item that
  declares a type in the bridge is either named or noted as impossible to name.
\<close>

theorem bridge_types_named_apart:
  "\<exists>b. BridgeTypeNames_new is_rust_ident v = Some b \<and> distinct (map snd (btn_names b)) \<and>
     set (map snd (btn_names b)) \<inter> set (spoken_for v) = {} \<and>
     fst ` set (btn_names b) \<union> fst ` set (btn_unnameable b) =
       Api_name ` set (filter declares_bridge_type (apis v))"
proof (rule bridge_types_named[of is_rust_ident v])
  fix b
  assume b: "BridgeTypeNames_new is_rust_ident v = Some b" "names_apart (spoken_for v) b"
    "fst ` set (btn_names b) \<union> fst ` set (btn_unnameable b) =
       Api_name ` set (filter declares_bridge_type (apis v))"
  from b(2) have "set (map snd (btn_names b)) \<inter> set (spoken_for v) = {}" by blast
  with b show ?thesis by blast
qed

section \<open>The tracker of function names\<close>

text \<open>What looks as if the tracker had numbered it: \<open>p @ ''_autocxx'' @ digits\<close>.\<close>

definition numbered_form :: "string \<Rightarrow> bool" where
  "numbered_form k \<longleftrightarrow>
     takeWhile is_digit (rev k) \<noteq> [] \<and> prefix (rev ''_autocxx'') (dropWhile is_digit (rev k))"

definition issue :: "string \<times> nat \<Rightarrow> string" where
  "issue = (\<lambda>(key, n). if n = 0 then key else key @ ''_autocxx'' @ nat_to_string n)"

lemma rev_numbered:
  "takeWhile is_digit (rev (k @ ''_autocxx'' @ nat_to_string n)) = rev (nat_to_string n)"
  "dropWhile is_digit (rev (k @ ''_autocxx'' @ nat_to_string n)) = rev ''_autocxx'' @ rev k"
  using nat_to_string_digits[of n]
  by (simp_all add: takeWhile_append dropWhile_append is_digit_def)

lemma numbered_form_issue: "n \<noteq> 0 \<Longrightarrow> numbered_form (issue (k, n))"
  using rev_numbered[of k n] by (simp add: issue_def numbered_form_def)

lemma issue_inj:
  assumes "issue (k, m) = issue (k', n)" and "\<not> numbered_form k" and "\<not> numbered_form k'"
  shows "k = k' \<and> m = n"
proof (cases "m = 0 \<or> n = 0")
  case True
  with assms numbered_form_issue[of n k'] numbered_form_issue[of m k] show ?thesis
    by (auto simp: issue_def split: if_splits)
next
  case False
  with assms(1) have eq: "k @ ''_autocxx'' @ nat_to_string m = k' @ ''_autocxx'' @ nat_to_string n"
    by (simp add: issue_def)
  have "rev (nat_to_string m) = rev (nat_to_string n)" using eq rev_numbered(1) by metis
  with eq show ?thesis by simp
qed

type_synonym bridge_request = "string option \<times> string \<times> namespace"

fun bridge_names_for :: "bridge_name_tracker \<Rightarrow> bridge_request list \<Rightarrow> string list" where
  "bridge_names_for tracker [] = []"
| "bridge_names_for tracker ((ty, found, ns) # rest) =
     (let (name, tracker') = get_unique_cxx_bridge_name tracker ty found ns
      in name # bridge_names_for tracker' rest)"

definition unnumbered :: "bridge_request \<Rightarrow> bool" where
  "unnumbered = (\<lambda>(ty, found, ns). \<not> numbered_form (renamed_new found) \<and>
     \<not> numbered_form (bridge_prefix ty (renamed_new found) ns))"

text \<open>Each name issued is that of a key at the number the key had reached.\<close>

lemma count_of_insert [simp]: "count_of (imap_insert k n m) k' = (if k' = k then n else count_of m k')"
  by (simp add: count_of_def)

lemma request_issues:
  assumes "unnumbered (ty, found, ns)"
  obtains key where "\<not> numbered_form key"
    "get_unique_cxx_bridge_name tracker ty found ns =
       (issue (key, count_of tracker key), imap_insert key (count_of tracker key + 1) tracker)"
proof (cases "count_of tracker (renamed_new found) = 0")
  case True
  with assms show thesis
    by (intro that[of "renamed_new found"])
      (auto simp: get_unique_cxx_bridge_name_def unnumbered_def issue_def Let_def)
next
  case False
  with assms show thesis
    by (intro that[of "bridge_prefix ty (renamed_new found) ns"])
      (auto simp: get_unique_cxx_bridge_name_def unnumbered_def issue_def Let_def)
qed

lemma bridge_names_fresh:
  assumes "list_all unnumbered requests"
  shows "distinct (bridge_names_for tracker requests) \<and>
    (\<forall>name \<in> set (bridge_names_for tracker requests). \<exists>key n.
       \<not> numbered_form key \<and> n \<ge> count_of tracker key \<and> name = issue (key, n))"
  using assms
proof (induction requests arbitrary: tracker)
  case (Cons request rest)
  obtain ty found ns where r: "request = (ty, found, ns)" by (cases request)
  with Cons.prems have "unnumbered (ty, found, ns)" by simp
  then obtain key where key: "\<not> numbered_form key" "get_unique_cxx_bridge_name tracker ty found ns =
      (issue (key, count_of tracker key), imap_insert key (count_of tracker key + 1) tracker)"
    by (rule request_issues)
  let ?tracker = "imap_insert key (count_of tracker key + 1) tracker"
  let ?rest = "bridge_names_for ?tracker rest"
  have IH: "distinct ?rest" "\<forall>name \<in> set ?rest. \<exists>key n.
      \<not> numbered_form key \<and> n \<ge> count_of ?tracker key \<and> name = issue (key, n)"
    using Cons.IH[of ?tracker] Cons.prems by simp_all
  have "issue (key, count_of tracker key) \<notin> set ?rest"
  proof
    assume "issue (key, count_of tracker key) \<in> set ?rest"
    with IH(2) obtain key' n where "\<not> numbered_form key'" "n \<ge> count_of ?tracker key'"
      "issue (key, count_of tracker key) = issue (key', n)" by blast
    with issue_inj[OF this(3) key(1) this(1)] show False by (auto split: if_splits)
  qed
  moreover have "\<exists>key' n. \<not> numbered_form key' \<and> n \<ge> count_of tracker key' \<and> name = issue (key', n)"
    if later: "name \<in> set ?rest" for name
  proof -
    from IH(2) later obtain key' n where "\<not> numbered_form key'" "n \<ge> count_of ?tracker key'"
      "name = issue (key', n)" by blast
    moreover from this(2) have "n \<ge> count_of tracker key'" by (simp split: if_splits)
    ultimately show ?thesis by blast
  qed
  ultimately show ?case using IH(1) key by (auto simp: r)
qed simp

text \<open>
  Functions get names of their own in the bridge, provided nothing they are called looks like a
  name the tracker numbered itself.
\<close>

theorem bridge_functions_named_apart:
  assumes "list_all unnumbered requests"
  shows "distinct (bridge_names_for [] requests)"
  using bridge_names_fresh[OF assms] by blast

lemma bridge_functions_named_apart_witness:
  "distinct (bridge_names_for [] [(Some ''A'', ''new'', []), (Some ''A'', ''new'', []), (Some ''A'', ''new'', [])])"
proof -
  have "list_all unnumbered [(Some ''A'', ''new'', []), (Some ''A'', ''new'', []), (Some ''A'', ''new'', [])]"
    by (simp add: unnumbered_def numbered_form_def renamed_new_def bridge_prefix_def option_list_def
        is_digit_def)
  then show ?thesis by (rule bridge_functions_named_apart)
qed

text \<open>
  The proviso is needed: with \<^verbatim>\<open>do\<close> declared twice, the second is issued the name of a third
  function which is called \<^verbatim>\<open>do_autocxx1\<close>, and that one is given it too.
\<close>

theorem numbered_name_issued_twice:
  "bridge_names_for [] [(None, ''do'', []), (None, ''do'', []), (None, ''do_autocxx1'', [])] =
     [''do'', ''do_autocxx1'', ''do_autocxx1'']"
  by code_simp

section \<open>The final checks\<close>

lemma length_filter_mono:
  "(\<And>x. P x \<Longrightarrow> Q x) \<Longrightarrow> length (filter P l) \<le> length (filter Q l)"
  by (induction l) (auto simp: le_SucI)

lemma distinct_answers:
  "(\<And>n. length (filter (\<lambda>x. f x = Some n) l) \<le> 1) \<Longrightarrow> distinct (filter (\<lambda>a. a \<noteq> None) (map f l))"
proof (induction l)
  case (Cons x l)
  have "length (filter (\<lambda>y. f y = Some n) l) \<le> 1" for n
    using Cons.prems[of n] by (simp split: if_splits)
  note IH = Cons.IH[OF this]
  show ?case
  proof (cases "f x")
    case (Some n)
    with Cons.prems[of n] have "filter (\<lambda>y. f y = Some n) l = []" by simp
    with Some have "f x \<notin> f ` set l" by (auto simp: filter_empty_conv)
    with IH show ?thesis by auto
  qed (use IH in simp)
qed simp

lemma bridge_name_ignored [simp]: "bridge_name b (Api_IgnoredItem name e ctx) = None"
  by (simp add: bridge_name_def declares_bridge_type_def fixed_bridge_names_def)

lemma checked_names_distinct:
  "distinct (filter (\<lambda>a. a \<noteq> None) (map (bridge_name b) (map (checked (check_bridge_name b l)) l)))"
  unfolding map_map
proof (rule distinct_answers)
  fix n
  let ?checked = "checked (check_bridge_name b l)"
  have kept: "?checked x = x \<and> length (names_found b l n) \<le> 1" if "bridge_name b (?checked x) = Some n" for x
    using that by (auto simp: checked_def check_bridge_name_def split: sum.splits option.splits if_splits)
  show "length (filter (\<lambda>x. (bridge_name b \<circ> ?checked) x = Some n) l) \<le> 1"
  proof (cases "\<exists>x \<in> set l. bridge_name b (?checked x) = Some n")
    case True
    then have "length (names_found b l n) \<le> 1" using kept by blast
    moreover have "length (filter (\<lambda>x. bridge_name b (?checked x) = Some n) l) \<le>
        length (filter (\<lambda>x. bridge_name b x = Some n) l)"
      using kept by (intro length_filter_mono) metis
    ultimately show ?thesis by (simp add: names_found_def)
  next
    case False
    then have "filter (\<lambda>x. (bridge_name b \<circ> ?checked) x = Some n) l = []" by (auto simp: filter_empty_conv)
    then show ?thesis by simp
  qed
qed

text \<open>What may have become of an item: itself, or a note of its name that says why it went.\<close>

abbreviation kept_or_noted :: "fn_phase \<Rightarrow> fn_phase \<Rightarrow> bool" where
  "kept_or_noted api api' \<equiv> api' = api \<or>
     (\<exists>e. api' = Api_IgnoredItem (name_info api) e (Some (new_for_item (get_final_item (Api_name api)))))"

lemma checked_kept_or_noted: "kept_or_noted api (checked fn api)"
  by (simp add: checked_def split: sum.splits)

lemma checked_twice: "kept_or_noted api (checked g (checked f api))"
  using checked_kept_or_noted[where api = api and fn = f]
    checked_kept_or_noted[where api = "checked f api" and fn = g]
  by auto

lemma check_names_runs:
  assumes "distinct (map Api_name (apis v))"
  obtains results b l where "check_names is_rust_ident v = Some (results, b)"
    "apis results = map (checked (check_bridge_name b l)) l" "l = map (checked (check_segments is_rust_ident)) (apis v)"
proof -
  let ?f = "check_segments is_rust_ident"
  have "?f api = Inr [api] \<or> (\<exists>e. ?f api = Inl e)" for api
    by (auto simp: check_segments_def validate_names_def split: api.split sum.splits)
  with assms obtain v1 where v1: "convert_item_apis ?f v ApiVec_new = Some v1"
    "apis v1 = map (checked ?f) (apis v)" by (rule checking_pass)
  then have v1': "distinct (map Api_name (apis v1))" using assms by (simp only: map_name_checked)
  obtain b where b: "BridgeTypeNames_new is_rust_ident v1 = Some b" by (rule bridge_types_named)
  let ?g = "check_bridge_name b (apis v1)"
  have "?g api = Inr [api] \<or> (\<exists>e. ?g api = Inl e)" for api
    by (auto simp: check_bridge_name_def split: option.splits)
  with v1' obtain v2 where v2: "convert_item_apis ?g v1 ApiVec_new = Some v2"
    "apis v2 = map (checked ?g) (apis v1)" by (rule checking_pass)
  from v1(1) b v2(1) have "check_names is_rust_ident v = Some (v2, b)" by (simp add: check_names_def)
  from that[OF this v2(2) v1(2)] show thesis .
qed

text \<open>
  C19: the last check on names. From any list of APIs with names of their own it does not panic, each
  item is kept as it was or noted under its name with the error, and no two of the items left have
  one name in the bridge.
\<close>

theorem checked_bridge_names_unique:
  assumes "apivec_wf v"
  shows "\<exists>results b. check_names is_rust_ident v = Some (results, b) \<and>
    list_all2 kept_or_noted (apis v) (apis results) \<and>
    distinct (filter (\<lambda>a. a \<noteq> None) (map (bridge_name b) (apis results)))"
proof -
  obtain results b l where run: "check_names is_rust_ident v = Some (results, b)"
    "apis results = map (checked (check_bridge_name b l)) l" "l = map (checked (check_segments is_rust_ident)) (apis v)"
    using collected.unique[OF assms] by (rule check_names_runs)
  have "list_all2 kept_or_noted (apis v) (apis results)"
    using checked_twice by (auto simp: run(2,3) list_all2_map2 intro!: list.rel_refl_strong)
  moreover have "distinct (filter (\<lambda>a. a \<noteq> None) (map (bridge_name b) (apis results)))"
    unfolding run(2) by (rule checked_names_distinct)
  ultimately show ?thesis using run(1) by blast
qed

text \<open>Two Rust types of one name, which the bridge can hold only one of.\<close>

definition rival :: "string \<Rightarrow> fn_phase" where
  "rival ns = Api_RustType (new_from_qualified_name (QualifiedName [ns] ''T'')) ''T''"

lemma checked_bridge_names_unique_witness:
  "\<exists>results b. check_names (\<lambda>s. True)
        (apivec_insert (apivec_insert ApiVec_new (rival ''a'')) (rival ''b'')) = Some (results, b) \<and>
      distinct (filter (\<lambda>a. a \<noteq> None) (map (bridge_name b) (apis results)))"
proof -
  have "Api_name (rival ns) = QualifiedName [ns] ''T''" "stub_ok (rival ns)" for ns
    by (simp_all add: rival_def Api_name_def stub_ok_def is_displaced_function_def
        new_from_qualified_name_def new_from_qualified_name_and_cpp_name_def)
  then have "apivec_wf (apivec_insert (apivec_insert ApiVec_new (rival ''a'')) (rival ''b''))"
    by (simp add: apivec_wf_def apivec_insert_def ApiVec_new_def iset_insert_def)
  from checked_bridge_names_unique[OF this, of "\<lambda>s. True"] show ?thesis by blast
qed

end
