(* ===== verification/MemberImports.thy ===== *)
theory MemberImports imports MemberLookup BridgeNames Constructors begin

text \<open>
  The members a class is given because a base has them: those a \<^verbatim>\<open>using Base::foo;\<close> names
  (\<^verbatim>\<open>build_using_declarations_by_base\<close>, \<^verbatim>\<open>add_using_declaration_imports\<close>) and those it inherits publicly
  (\<^verbatim>\<open>add_inherited_member_imports\<close>), both in \<^verbatim>\<open>analysis/fun/mod.rs\<close>. What the two passes decide is
  modelled: the functions they hand to the analysis, and the notes left where nothing could be imported.
\<close>

section \<open>Methods by class and C++ name\<close>

definition cpp_call_name :: "api_name \<Rightarrow> string" where
  "cpp_call_name name = effective_name_string (ApiName_cpp_name name)"

definition method_named :: "('td, 'st, fn_analysis, 'sub) api \<Rightarrow> (qualified_name \<times> string) option" where
  "method_named api =
     (case api of
        Api_Function name fn analysis \<Rightarrow>
          (case fa_kind analysis of
             FnKind_Method method_kind impl_for \<Rightarrow> Some (impl_for, cpp_call_name name)
           | _ \<Rightarrow> None)
      | _ \<Rightarrow> None)"

definition methods_counted :: "('td, 'st, fn_analysis, 'sub) api list \<Rightarrow> (qualified_name \<times> string, nat) index_map" where
  "methods_counted l =
     fold (\<lambda>api m. case method_named api of
             Some key \<Rightarrow> imap_insert key ((case map_of m key of Some n \<Rightarrow> n | None \<Rightarrow> 0) + 1) m
           | None \<Rightarrow> m) l []"

definition calls_ordinarily :: "method_kind \<Rightarrow> bool" where
  "calls_ordinarily kind \<longleftrightarrow> (case kind of Constructor _ \<Rightarrow> False | Static \<Rightarrow> False | _ \<Rightarrow> True)"

section \<open>The imported function\<close>

definition import_member_into ::
    "qualified_name \<Rightarrow> cpp_visibility \<Rightarrow> api_name \<Rightarrow> func_to_convert \<Rightarrow>
     (qualified_name \<times> string \<times> receiver_mutability) option \<Rightarrow> api_name \<times> func_to_convert" where
  "import_member_into importer visibility base_method fn through_base =
     (ApiName_new_with_cpp_name (get_namespace importer)
        (make_ident (get_final_item importer @ ''_'' @ get_final_item (an_name base_method)))
        (an_cpp_name base_method),
      fn\<lparr>fc_provenance := SynthesizedOther,
         fc_cpp_vis := visibility,
         fc_self_ty := Some importer,
         fc_synthesized_this_type := Some importer,
         fc_virtualness := None,
         fc_special_member := None,
         fc_synthetic_cpp := Some
           (case through_base of
              Some (base, base_cpp_spelling, receiver_mutability) \<Rightarrow>
                BaseClassMethodCall base base_cpp_spelling (ApiName_cpp_name base_method) receiver_mutability
            | None \<Rightarrow> FunctionCall Namespace_new (ApiName_cpp_name base_method),
            CppFunction_Method)\<rparr>)"

section \<open>Using-declarations\<close>

record imported_member =
  im_importer :: qualified_name
  im_name :: string
  im_visibility :: cpp_visibility

definition using_declarations_written ::
    "('td, pod_analysis, 'fn, 'sub) api list \<Rightarrow> (qualified_name \<times> string, using_declaration list) index_map" where
  "using_declarations_written l =
     fold (\<lambda>api m. case api of
             Api_Struct name details analysis \<Rightarrow>
               fold (\<lambda>u m. if ud_name u = get_final_item (an_name name) then m
                           else imap_push (an_name name, ud_name u) u m)
                 (pa_using_declarations analysis) m
           | _ \<Rightarrow> m) l []"

definition importing_declaration ::
    "ancestry_map \<Rightarrow> (qualified_name \<times> string, using_declaration list) index_map \<Rightarrow> qualified_name \<Rightarrow> string \<Rightarrow>
     using_declaration list \<Rightarrow> (qualified_name \<times> imported_member) option" where
  "importing_declaration ancestry written_by importer name written =
     (case written of
        [u] \<Rightarrow>
          (case ud_source_scope u of
             Some base \<Rightarrow>
               if reached_exactly_once ancestry importer base Inheritance_Any \<and> map_of written_by (base, name) = None
               then Some (base, \<lparr>im_importer = importer, im_name = name, im_visibility = ud_visibility u\<rparr>)
               else None
           | None \<Rightarrow> None)
      | _ \<Rightarrow> None)"

definition build_using_declarations_by_base ::
    "('td, pod_analysis, 'fn, 'sub) api list \<Rightarrow> ancestry_map \<Rightarrow> (qualified_name, imported_member list) index_map" where
  "build_using_declarations_by_base l ancestry =
     (let written_by = using_declarations_written l in
      fold (\<lambda>((importer, name), written) by_base.
              case importing_declaration ancestry written_by importer name written of
                Some (base, imported) \<Rightarrow> imap_push base imported by_base
              | None \<Rightarrow> by_base) written_by [])"

definition is_function_blocked :: "fn_analysis \<Rightarrow> bool" where
  "is_function_blocked analysis \<longleftrightarrow>
     (case fa_ignore_reason analysis of
        Inl (ConvertErrorWithContext (MemberError FunctionBlocked) _) \<Rightarrow> True
      | _ \<Rightarrow> False)"

definition imports_of ::
    "(qualified_name, imported_member list) index_map \<Rightarrow> (qualified_name \<times> string) list \<Rightarrow>
     (qualified_name \<times> string, nat) index_map \<Rightarrow> ('td, 'st, fn_analysis, 'sub) api \<Rightarrow>
     (qualified_name \<times> api_name \<times> func_to_convert) list" where
  "imports_of by_base declared members_named api =
     (case api of
        Api_Function name fn analysis \<Rightarrow>
          (case fa_kind analysis of
             FnKind_Method method_kind base \<Rightarrow>
               if \<not> calls_ordinarily method_kind \<or> is_function_blocked analysis
                  \<or> map_of members_named (base, cpp_call_name name) \<noteq> Some 1 then []
               else List.map_filter
                      (\<lambda>imported.
                         if im_name imported = cpp_call_name name
                            \<and> (im_importer imported, cpp_call_name name) \<notin> set declared
                         then Some (im_importer imported,
                                import_member_into (im_importer imported) (im_visibility imported) name fn None)
                         else None)
                      (case map_of by_base base of Some ms \<Rightarrow> ms | None \<Rightarrow> [])
           | _ \<Rightarrow> [])
      | _ \<Rightarrow> [])"

definition using_declaration_imports ::
    "(qualified_name, imported_member list) index_map \<Rightarrow> ('td, 'st, fn_analysis, 'sub) api list \<Rightarrow>
     (qualified_name \<times> api_name \<times> func_to_convert) list" where
  "using_declaration_imports by_base l =
     (if by_base = [] then []
      else concat (map (imports_of by_base (List.map_filter method_named l) (methods_counted l)) l))"

section \<open>Inherited members\<close>

record import_context =
  ic_ancestry :: ancestry_map
  ic_importers :: "qualified_name list"
  ic_declared_names :: declared_names
  ic_member_functions :: "(qualified_name \<times> string, nat) index_map"
  ic_merged_names :: "(qualified_name \<times> string) list"
  ic_flat_scope :: "string list"
  ic_nameable_classes :: "(qualified_name, string) index_map"

text \<open>The classes that might import something; \<open>None\<close> is the allowlist's panic.\<close>

definition may_import ::
    "(include_cpp_config \<Rightarrow> nat) \<Rightarrow> include_cpp_config \<Rightarrow> (qualified_name, string) index_map \<Rightarrow> ancestry_map \<Rightarrow>
     qualified_name list \<Rightarrow> qualified_name list \<Rightarrow> qualified_name \<Rightarrow> bool option" where
  "may_import get_hash config nested ancestry generic_types anonymous_types name =
     (case map_of ancestry name of
        None \<Rightarrow> Some False
      | Some here \<Rightarrow>
          if anc_public_bases here = [] then Some False
          else map_option
                 (\<lambda>listed. listed \<and> name \<notin> set generic_types \<and> name \<notin> set anonymous_types
                    \<and> is_cxx_acceptable_receiver known_types name)
                 (nested_is_on_allowlist get_hash config nested name))"

definition struct_names :: "('td, 'st, 'fn, 'sub) api list \<Rightarrow> qualified_name list" where
  "struct_names l = List.map_filter (\<lambda>api. case api of Api_Struct name details analysis \<Rightarrow> Some (an_name name) | _ \<Rightarrow> None) l"

definition classes_by_cpp_scope ::
    "('td, 'st, 'fn, 'sub) api list \<Rightarrow> (namespace \<times> string, qualified_name) index_map" where
  "classes_by_cpp_scope l =
     fold (\<lambda>api m. case api of
             Api_Struct name details analysis \<Rightarrow>
               imap_insert (get_namespace (an_name name), cpp_call_name name) (an_name name) m
           | _ \<Rightarrow> m) l []"

definition names_added :: "qualified_name \<Rightarrow> string list \<Rightarrow> declared_names \<Rightarrow> declared_names" where
  "names_added cls ns m =
     imap_insert cls (fold iset_insert ns (case map_of m cls of Some old \<Rightarrow> old | None \<Rightarrow> [])) m"

definition member_spellings :: "string \<Rightarrow> string list" where
  "member_spellings member =
     member # (if suffix ''_'' member then [butlast member] else [])"

definition struct_member_names :: "pod_analysis \<Rightarrow> string list" where
  "struct_member_names analysis =
     concat (map member_spellings
       (List.map_filter fi_name (pa_field_info analysis) @ List.map_filter dm_name (pa_bitfields analysis)))
     @ map ud_name (pa_using_declarations analysis)"

definition enclosing_class ::
    "(namespace \<times> string, qualified_name) index_map \<Rightarrow> api_name \<Rightarrow> qualified_name option" where
  "enclosing_class classes name =
     Option.bind (Option.bind (an_cpp_name name) enclosing_cpp_scope)
       (\<lambda>cpp_scope. map_of classes (get_namespace (an_name name), cpp_scope))"

definition note_declared ::
    "qualified_name list \<Rightarrow> (namespace \<times> string, qualified_name) index_map \<Rightarrow>
     ('td, pod_analysis, fn_analysis, 'sub) api \<Rightarrow> declared_names \<Rightarrow> declared_names" where
  "note_declared scoped_enums classes api m =
     (case api of
        Api_Function name fn analysis \<Rightarrow>
          (case method_named api of Some (cls, cpp_name) \<Rightarrow> names_added cls [cpp_name] m | None \<Rightarrow> m)
      | Api_Struct name details analysis \<Rightarrow> names_added (an_name name) (struct_member_names analysis) m
      | Api_Enum name item \<Rightarrow>
          if an_name name \<in> set scoped_enums then m
          else (case enclosing_class classes name of
                  Some cls \<Rightarrow> names_added cls (ie_variants item) m
                | None \<Rightarrow> m)
      | _ \<Rightarrow> m)"

definition merged_names :: "('td, pod_analysis, 'fn, 'sub) api list \<Rightarrow> (qualified_name \<times> string) list" where
  "merged_names l =
     fold iset_insert
       (concat (map (\<lambda>api. case api of
           Api_Struct name details analysis \<Rightarrow> map (\<lambda>u. (an_name name, ud_name u)) (pa_using_declarations analysis)
         | _ \<Rightarrow> []) l)) []"

definition flat_scope :: "('td, 'st, 'fn, 'sub) api list \<Rightarrow> string list" where
  "flat_scope l =
     map (\<lambda>api. QualifiedName_to_string (Api_name api))
       (filter (\<lambda>api. case Api_cpp_name api of None \<Rightarrow> True | Some n \<Rightarrow> is_nested n) l)"

definition nameable_classes :: "('td, 'st, 'fn, 'sub) api list \<Rightarrow> (qualified_name, string) index_map" where
  "nameable_classes l =
     fold (\<lambda>api m. case api of
             Api_Struct name details analysis \<Rightarrow>
               (case an_cpp_name name of
                  Some cpp_name \<Rightarrow>
                    imap_insert (an_name name)
                      (join ''::'' (get_namespace (an_name name) @ [for_original_name_map cpp_name])) m
                | None \<Rightarrow> m)
           | _ \<Rightarrow> m) l []"

definition import_context_of ::
    "ancestry_map \<Rightarrow> qualified_name list \<Rightarrow> qualified_name list \<Rightarrow>
     ('td, pod_analysis, fn_analysis, 'sub) api list \<Rightarrow> import_context" where
  "import_context_of ancestry importers scoped_enums l =
     \<lparr>ic_ancestry = ancestry,
      ic_importers = importers,
      ic_declared_names = fold (note_declared scoped_enums (classes_by_cpp_scope l)) l [],
      ic_member_functions = methods_counted l,
      ic_merged_names = merged_names l,
      ic_flat_scope = flat_scope l,
      ic_nameable_classes = nameable_classes l\<rparr>"


section \<open>What is imported, and what is declined with a note\<close>

record base_member =
  bm_name :: api_name
  bm_fn :: func_to_convert
  bm_base :: qualified_name
  bm_receiver :: receiver_mutability

text \<open>A public member function the header declares, that is not ignored but for its class.\<close>

definition inheritable :: "('td, 'st, fn_analysis, 'sub) api \<Rightarrow> base_member option" where
  "inheritable api =
     (case api of
        Api_Function name fn analysis \<Rightarrow>
          (case fa_kind analysis of
             FnKind_Method method_kind base \<Rightarrow>
               if \<not> calls_ordinarily method_kind \<or> fc_cpp_vis fn \<noteq> Public \<or> fc_provenance fn \<noteq> Bindgen then None
               else (case fa_param_details analysis of
                       [] \<Rightarrow> None
                     | param # _ \<Rightarrow>
                         (case aa_self_type param of
                            None \<Rightarrow> None
                          | Some (_, receiver_mutability) \<Rightarrow>
                              (case fa_ignore_reason analysis of
                                 Inl (ConvertErrorWithContext (MemberError MethodOfNonAllowlistedType) _) \<Rightarrow>
                                   Some \<lparr>bm_name = name, bm_fn = fn, bm_base = base, bm_receiver = receiver_mutability\<rparr>
                               | Inl _ \<Rightarrow> None
                               | Inr _ \<Rightarrow>
                                   Some \<lparr>bm_name = name, bm_fn = fn, bm_base = base, bm_receiver = receiver_mutability\<rparr>)))
           | _ \<Rightarrow> None)
      | _ \<Rightarrow> None)"

type_synonym declined_note = "qualified_name \<times> string \<times> cpp_original_name \<times> convert_error"

record import_state =
  ims_imports :: "(api_name \<times> func_to_convert) list"
  ims_declined :: "declined_note list"
  ims_noted :: "(qualified_name \<times> cpp_original_name) list"

text \<open>Whether C++ lookup in a class would reach the member, on one public subobject.\<close>

definition resolves_to ::
    "import_context \<Rightarrow> string \<Rightarrow> qualified_name \<Rightarrow> qualified_name \<Rightarrow> bool" where
  "resolves_to c cpp_name base derived \<longleftrightarrow>
     derived \<noteq> base
     \<and> reached_exactly_once (ic_ancestry c) derived base Inheritance_Any
     \<and> reached_exactly_once (ic_ancestry c) derived base Inheritance_Public
     \<and> look_up_member (ic_ancestry c) (ic_declared_names c) (ic_flat_scope c) derived cpp_name = Found base"

definition import_into ::
    "import_context \<Rightarrow> base_member \<Rightarrow> string \<Rightarrow> nat \<Rightarrow> qualified_name \<Rightarrow> import_state \<Rightarrow> import_state" where
  "import_into c member base_cpp_spelling declared derived s =
     (let name = bm_name member; base = bm_base member;
          merged = ((base, cpp_call_name name) \<in> set (ic_merged_names c)) in
      if \<not> resolves_to c (cpp_call_name name) base derived then s
      else if merged \<or> declared \<noteq> 1 then
        (case an_cpp_name name of
           None \<Rightarrow> s
         | Some cpp_name \<Rightarrow>
             if (derived, cpp_name) \<in> set (ims_noted s) then s
             else s\<lparr>ims_noted := iset_insert (derived, cpp_name) (ims_noted s),
                    ims_declined := ims_declined s @
                      [(derived, get_final_item (an_name name), cpp_name,
                        MemberError (if merged then InheritedMergedName base_cpp_spelling
                                     else InheritedOverloadSet base_cpp_spelling declared))]\<rparr>)
      else s\<lparr>ims_imports := ims_imports s @
               [import_member_into derived Public name (bm_fn member)
                  (Some (base, base_cpp_spelling, bm_receiver member))]\<rparr>)"

definition import_member :: "import_context \<Rightarrow> ('td, 'st, fn_analysis, 'sub) api \<Rightarrow> import_state \<Rightarrow> import_state" where
  "import_member c api s =
     (case inheritable api of
        None \<Rightarrow> s
      | Some member \<Rightarrow>
          (case map_of (ic_nameable_classes c) (bm_base member) of
             None \<Rightarrow> s
           | Some base_cpp_spelling \<Rightarrow>
               (case map_of (ic_member_functions c) (bm_base member, cpp_call_name (bm_name member)) of
                  None \<Rightarrow> s
                | Some declared \<Rightarrow>
                    fold (import_into c member base_cpp_spelling declared) (ic_importers c) s)))"

definition inherited_imports ::
    "(include_cpp_config \<Rightarrow> nat) \<Rightarrow> include_cpp_config \<Rightarrow> (qualified_name, string) index_map \<Rightarrow> ancestry_map \<Rightarrow>
     qualified_name list \<Rightarrow> qualified_name list \<Rightarrow> qualified_name list \<Rightarrow>
     ('td, pod_analysis, fn_analysis, 'sub) api list \<Rightarrow> import_state option" where
  "inherited_imports get_hash config nested ancestry generic_types anonymous_types scoped_enums l =
     map_option
       (\<lambda>importers.
          if importers = [] then \<lparr>ims_imports = [], ims_declined = [], ims_noted = []\<rparr>
          else fold (import_member (import_context_of ancestry importers scoped_enums l)) l
                 \<lparr>ims_imports = [], ims_declined = [], ims_noted = []\<rparr>)
       (filter_option (may_import get_hash config nested ancestry generic_types anonymous_types) (struct_names l))"

section \<open>The notes\<close>

definition ideal_rust_name :: "(string \<Rightarrow> bool) \<Rightarrow> string \<Rightarrow> cpp_original_name option \<Rightarrow> string" where
  "ideal_rust_name is_rust_ident initial_rust_name cpp_original_name =
     (case cpp_original_name of
        None \<Rightarrow> initial_rust_name
      | Some n \<Rightarrow>
          if suffix ''_'' initial_rust_name then initial_rust_name
          else if validate_ident_ok_for_rust is_rust_ident n \<noteq> Inr () then original_name_string n @ ''_''
          else original_name_string n)"

definition note_rust_name :: "(string \<Rightarrow> bool) \<Rightarrow> cpp_original_name \<Rightarrow> string option" where
  "note_rust_name is_rust_ident cpp_name =
     (let spelling = original_name_string cpp_name in
      if \<not> is_rust_ident spelling \<and> \<not> is_rust_ident (spelling @ ''_'') then None
      else let name = ideal_rust_name is_rust_ident spelling (Some cpp_name) in
           if is_rust_ident name then Some name else None)"

definition error_context_for_method :: "qualified_name list \<Rightarrow> qualified_name \<Rightarrow> string \<Rightarrow> error_context" where
  "error_context_for_method generic_types self_ty rust_name =
     (if self_ty \<in> set generic_types then new_for_item (make_ident rust_name)
      else new_for_method (get_final_item self_ty) (make_ident rust_name))"

type_synonym overload_trackers = "(namespace, overload_tracker) index_map"

definition get_overload_name ::
    "overload_trackers \<Rightarrow> namespace \<Rightarrow> string \<Rightarrow> string \<Rightarrow> string option \<Rightarrow>
     ((string \<times> nat option) \<times> overload_trackers) option" where
  "get_overload_name trackers ns type_ident rust_name cpp_declared_name =
     map_option (\<lambda>(answer, t). (answer, imap_insert ns t trackers))
       (get_method_real_name (case map_of trackers ns of Some t \<Rightarrow> t | None \<Rightarrow> OverloadTracker_default)
          type_ident rust_name cpp_declared_name)"

definition note_candidate :: "string \<Rightarrow> nat \<Rightarrow> string" where
  "note_candidate stem n = (if n = 0 then stem else stem @ nat_to_string n)"

fun add_declined_notes ::
    "(string \<Rightarrow> bool) \<Rightarrow> qualified_name list \<Rightarrow> declined_note list \<Rightarrow> qualified_name list \<Rightarrow> overload_trackers \<Rightarrow>
     ('td, 'st, 'fn, 'sub) api_vec \<Rightarrow> (('td, 'st, 'fn, 'sub) api_vec \<times> overload_trackers) option" where
  "add_declined_notes is_rust_ident generic_types [] taken trackers results = Some (results, trackers)"
| "add_declined_notes is_rust_ident generic_types ((derived, base_method_ident, cpp_name, err) # rest)
       taken trackers results =
     (case note_rust_name is_rust_ident cpp_name of
        None \<Rightarrow> add_declined_notes is_rust_ident generic_types rest taken trackers results
      | Some rust_name \<Rightarrow>
          (let stem = get_final_item derived @ ''_'' @ base_method_ident;
               ns = get_namespace derived in
           Option.bind
             (first_free (note_candidate stem) (\<lambda>c. QualifiedName_new ns (make_ident c) \<in> set taken) 0) (\<lambda>n.
           Option.bind (get_overload_name trackers ns (get_final_item derived) rust_name None)
             (\<lambda>((rust_name, _), trackers).
           let idt = make_ident (note_candidate stem n);
               ctx = error_context_for_method generic_types derived rust_name in
           Option.bind
             (apivec_push results
                (Api_IgnoredItem (ApiName_new_with_cpp_name ns idt (Some cpp_name)) err (Some ctx)))
             (\<lambda>results.
                add_declined_notes is_rust_ident generic_types rest
                  (iset_insert (QualifiedName_new ns idt) taken) trackers results)))))"


section \<open>What the maps hold\<close>

lemma map_of_counted:
  "map_of (methods_counted l) key =
     (let n = length (filter (\<lambda>api. method_named api = Some key) l) in if n = 0 then None else Some n)"
proof (induction l rule: rev_induct)
  case (snoc api l)
  have step: "methods_counted (l @ [api]) =
      (case method_named api of
         Some k \<Rightarrow> imap_insert k ((case map_of (methods_counted l) k of Some n \<Rightarrow> n | None \<Rightarrow> 0) + 1) (methods_counted l)
       | None \<Rightarrow> methods_counted l)"
    unfolding methods_counted_def by (cases "method_named api") simp_all
  show ?case unfolding step using snoc.IH
    by (cases "method_named api") (auto simp: Let_def split: if_splits)
qed (simp add: methods_counted_def)

lemma counted_one:
  "map_of (methods_counted l) key = Some 1 \<longleftrightarrow> length (filter (\<lambda>api. method_named api = Some key) l) = 1"
  by (simp add: map_of_counted Let_def)

section \<open>Inherited members, as the loop collects them\<close>

definition inherits_into :: "import_context \<Rightarrow> base_member \<Rightarrow> nat \<Rightarrow> qualified_name \<Rightarrow> bool" where
  "inherits_into c member declared derived \<longleftrightarrow>
     resolves_to c (cpp_call_name (bm_name member)) (bm_base member) derived \<and>
     (bm_base member, cpp_call_name (bm_name member)) \<notin> set (ic_merged_names c) \<and> declared = 1"

definition imported :: "base_member \<Rightarrow> string \<Rightarrow> qualified_name \<Rightarrow> api_name \<times> func_to_convert" where
  "imported member base_cpp_spelling derived =
     import_member_into derived Public (bm_name member) (bm_fn member)
       (Some (bm_base member, base_cpp_spelling, bm_receiver member))"

definition imports_from :: "import_context \<Rightarrow> ('td, 'st, fn_analysis, 'sub) api \<Rightarrow> (api_name \<times> func_to_convert) list" where
  "imports_from c api =
     (case inheritable api of
        None \<Rightarrow> []
      | Some member \<Rightarrow>
          (case map_of (ic_nameable_classes c) (bm_base member) of
             None \<Rightarrow> []
           | Some spelling \<Rightarrow>
               (case map_of (ic_member_functions c) (bm_base member, cpp_call_name (bm_name member)) of
                  None \<Rightarrow> []
                | Some declared \<Rightarrow>
                    map (imported member spelling) (filter (inherits_into c member declared) (ic_importers c)))))"

lemma import_into_imports:
  "ims_imports (import_into c member spelling declared derived s) =
     ims_imports s @ (if inherits_into c member declared derived then [imported member spelling derived] else [])"
  by (simp add: import_into_def inherits_into_def imported_def Let_def split: option.splits)

lemma fold_import_into:
  "ims_imports (fold (import_into c member spelling declared) ds s) =
     ims_imports s @ map (imported member spelling) (filter (inherits_into c member declared) ds)"
  by (induction ds arbitrary: s) (simp_all add: import_into_imports)

lemma import_member_imports:
  "ims_imports (import_member c api s) = ims_imports s @ imports_from c api"
  by (simp add: import_member_def imports_from_def fold_import_into split: option.splits)

lemma all_imports:
  "ims_imports (fold (import_member c) l s) = ims_imports s @ concat (map (imports_from c) l)"
  by (induction l arbitrary: s) (simp_all add: import_member_imports)

lemma no_importers: "ic_importers c = [] \<Longrightarrow> imports_from c api = []"
  by (simp add: imports_from_def split: option.splits)

text \<open>The importers, and the context the loop runs in.\<close>

abbreviation importing ::
    "(include_cpp_config \<Rightarrow> nat) \<Rightarrow> include_cpp_config \<Rightarrow> (qualified_name, string) index_map \<Rightarrow> ancestry_map \<Rightarrow>
     qualified_name list \<Rightarrow> qualified_name list \<Rightarrow> ('td, 'st, 'fn, 'sub) api list \<Rightarrow> qualified_name list" where
  "importing get_hash config nested ancestry generic_types anonymous_types l \<equiv>
     filter (\<lambda>name. may_import get_hash config nested ancestry generic_types anonymous_types name = Some True)
       (struct_names l)"

lemma inherited_imports_collected:
  assumes "inherited_imports get_hash config nested ancestry generic_types anonymous_types scoped_enums l = Some s"
  shows "ims_imports s = concat (map (imports_from
      (import_context_of ancestry (importing get_hash config nested ancestry generic_types anonymous_types l)
         scoped_enums l)) l)"
proof -
  let ?may = "may_import get_hash config nested ancestry generic_types anonymous_types"
  from assms obtain importers where f: "filter_option ?may (struct_names l) = Some importers"
    and s: "s = (if importers = [] then \<lparr>ims_imports = [], ims_declined = [], ims_noted = []\<rparr>
      else fold (import_member (import_context_of ancestry importers scoped_enums l)) l
             \<lparr>ims_imports = [], ims_declined = [], ims_noted = []\<rparr>)"
    by (auto simp: inherited_imports_def)
  have i: "importers = importing get_hash config nested ancestry generic_types anonymous_types l"
    by (rule filter_option_members[OF f])
  show ?thesis
  proof (cases "importers = []")
    case True
    then have "concat (map (imports_from (import_context_of ancestry importers scoped_enums l)) l) = []"
      by (induction l) (simp_all add: no_importers import_context_of_def)
    then show ?thesis using s True i by simp
  next
    case False
    then show ?thesis using s i by (simp add: all_imports)
  qed
qed


section \<open>The C++ rule\<close>

text \<open>Every class on the way up to the base has only bases bindgen could name.\<close>

definition all_bases_named :: "ancestry_map \<Rightarrow> inheritance \<Rightarrow> qualified_name \<Rightarrow> qualified_name \<Rightarrow> bool" where
  "all_bases_named m inheritance base derived \<longleftrightarrow>
     \<not> has_unnamed m derived \<and>
     \<not> (\<exists>b \<in> bases_by m inheritance derived. obscured m inheritance (\<lambda>c. c \<noteq> base) b)"

text \<open>
  Calling the name on a derived object calls the base's: the base is one subobject, it is reached over
  public bases, and lookup sees its declaration and no other.
\<close>

definition inherits_member :: "ancestry_map \<Rightarrow> (qualified_name \<Rightarrow> bool) \<Rightarrow> qualified_name \<Rightarrow> qualified_name \<Rightarrow> bool" where
  "inherits_member m declares base derived \<longleftrightarrow>
     derived \<noteq> base \<and>
     (\<forall>inheritance \<in> {Inheritance_Any, Inheritance_Public}.
        (\<exists>!p. inherits_via (bases_by m inheritance) derived p base) \<and> all_bases_named m inheritance base derived) \<and>
     \<not> obscured m Inheritance_Any (\<lambda>c. \<not> declares c) derived \<and> visible m declares derived = {base}"

abbreviation declares_in :: "import_context \<Rightarrow> string \<Rightarrow> qualified_name \<Rightarrow> bool" where
  "declares_in c \<equiv> declares_name (ic_declared_names c) (ic_flat_scope c)"

lemma resolves_to_iff:
  assumes "ancestry_ok rank (ic_ancestry c)"
  shows "resolves_to c name base derived \<longleftrightarrow> inherits_member (ic_ancestry c) (declares_in c name) base derived"
  unfolding resolves_to_def inherits_member_def all_bases_named_def
    reached_exactly_once_iff[OF assms] look_up_member_iff(1)[OF assms] by auto

lemma inheritable_method:
  "inheritable api = Some member \<Longrightarrow> method_named api = Some (bm_base member, cpp_call_name (bm_name member))"
  by (auto simp: inheritable_def method_named_def split: api.splits fn_kind.splits if_splits list.splits option.splits
      sum.splits convert_error_with_context.splits convert_error.splits member_error.splits)

lemma imports_from_iff:
  assumes "ancestry_ok rank (ic_ancestry c)" and "ic_member_functions c = methods_counted l"
  shows "x \<in> set (imports_from c api) \<longleftrightarrow>
     (\<exists>member spelling derived. inheritable api = Some member \<and>
        map_of (ic_nameable_classes c) (bm_base member) = Some spelling \<and> derived \<in> set (ic_importers c) \<and>
        inherits_member (ic_ancestry c) (declares_in c (cpp_call_name (bm_name member))) (bm_base member) derived \<and>
        (bm_base member, cpp_call_name (bm_name member)) \<notin> set (ic_merged_names c) \<and>
        length (filter (\<lambda>a. method_named a = Some (bm_base member, cpp_call_name (bm_name member))) l) = 1 \<and>
        x = imported member spelling derived)"
proof (cases "inheritable api")
  case (Some member)
  let ?key = "(bm_base member, cpp_call_name (bm_name member))"
  show ?thesis
  proof (cases "map_of (ic_nameable_classes c) (bm_base member)")
    case (Some spelling)
    with \<open>inheritable api = Some member\<close> show ?thesis
      by (auto simp: imports_from_def assms(2) inherits_into_def resolves_to_iff[OF assms(1)] map_of_counted Let_def)
  qed (simp add: imports_from_def Some)
qed (simp add: imports_from_def)



section \<open>One import for a name\<close>

lemma distinct_concat_keys:
  assumes "distinct l" and "\<And>a. a \<in> set l \<Longrightarrow> distinct (map k (f a))"
    and "\<And>a b x. a \<in> set l \<Longrightarrow> b \<in> set l \<Longrightarrow> x \<in> k ` set (f a) \<Longrightarrow> x \<in> k ` set (f b) \<Longrightarrow> a = b"
  shows "distinct (map k (concat (map f l)))"
  using assms
proof (induction l)
  case (Cons a l)
  have "x \<notin> k ` set (f b)" if "x \<in> k ` set (f a)" "b \<in> set l" for x b
    using Cons.prems(1) Cons.prems(3)[of a b x] that by auto
  then have "k ` set (f a) \<inter> set (map k (concat (map f l))) = {}" by fastforce
  moreover have "distinct (map k (concat (map f l)))"
    using Cons.prems by (intro Cons.IH) auto
  moreover have "distinct (map k (f a))" using Cons.prems(2) by simp
  ultimately show ?case by simp
qed simp

text \<open>What the C++ shim of an import calls, on which class.\<close>

definition shim_call :: "api_name \<times> func_to_convert \<Rightarrow> qualified_name option \<times> string option" where
  "shim_call = (\<lambda>(name, fn).
     (fc_self_ty fn,
      case fc_synthetic_cpp fn of
        Some (BaseClassMethodCall base spelling method receiver, kind) \<Rightarrow> Some (effective_name_string method)
      | _ \<Rightarrow> None))"

lemma shim_call_imported:
  "shim_call (imported member spelling derived) = (Some derived, Some (cpp_call_name (bm_name member)))"
  by (simp add: shim_call_def imported_def import_member_into_def cpp_call_name_def)

lemma only_one:
  assumes "length (filter p l) = 1" and "a \<in> set l" "p a" and "b \<in> set l" "p b"
  shows "a = b"
proof -
  from assms(1) obtain z where "filter p l = [z]" by (auto simp: length_Suc_conv)
  moreover have "a \<in> set (filter p l)" "b \<in> set (filter p l)" using assms by simp_all
  ultimately show ?thesis by simp
qed

lemma map_filter_keys:
  assumes "\<And>a. f a = None \<or> f a = Some (k a)"
  shows "List.map_filter f l = map k (filter (\<lambda>a. f a \<noteq> None) l)"
proof (induction l)
  case (Cons a l)
  then show ?case using assms[of a] by (auto simp: List.map_filter_simps)
qed (simp add: List.map_filter_simps)

lemma struct_names_filter:
  "struct_names l = map Api_name (filter (\<lambda>api. case api of Api_Struct _ _ _ \<Rightarrow> True | _ \<Rightarrow> False) l)"
proof -
  let ?f = "\<lambda>api. case api of Api_Struct name details analysis \<Rightarrow> Some (an_name name) | _ \<Rightarrow> None"
  have "struct_names l = map Api_name (filter (\<lambda>a. ?f a \<noteq> None) l)"
    unfolding struct_names_def
  proof (rule map_filter_keys)
    fix api :: "('a, 'b, 'c, 'd) api"
    show "?f api = None \<or> ?f api = Some (Api_name api)" by (cases api) (simp_all add: Api_name_def)
  qed
  also have "(\<lambda>a. ?f a \<noteq> None) = (\<lambda>api. case api of Api_Struct _ _ _ \<Rightarrow> True | _ \<Rightarrow> False)"
    by (rule ext) (simp split: api.split)
  finally show ?thesis .
qed

lemma struct_names_distinct: "distinct (map Api_name l) \<Longrightarrow> distinct (struct_names l)"
  unfolding struct_names_filter by (rule distinct_map_filter)

text \<open>
  No class is given two members of one name. Among all functions handed on for inherited members,
  no two have the same class call a member of the same C++ name, and none is handed on for a class that
  declares that name itself.
\<close>

theorem one_inherited_member_per_name:
  assumes run: "inherited_imports get_hash config nested ancestry generic_types anonymous_types scoped_enums l = Some s"
    and ok: "ancestry_ok rank ancestry" and names: "distinct (map Api_name l)"
  shows "distinct (map shim_call (ims_imports s)) \<and>
     list_all (\<lambda>x. case shim_call x of
         (Some derived, Some name) \<Rightarrow>
           \<not> declares_name (fold (note_declared scoped_enums (classes_by_cpp_scope l)) l []) (flat_scope l) name derived
       | _ \<Rightarrow> False) (ims_imports s)"
proof -
  define c where "c = import_context_of ancestry
      (importing get_hash config nested ancestry generic_types anonymous_types l) scoped_enums l"
  have c: "ic_ancestry c = ancestry" "ic_member_functions c = methods_counted l"
    "declares_in c = declares_name (fold (note_declared scoped_enums (classes_by_cpp_scope l)) l []) (flat_scope l)"
    by (simp_all add: c_def import_context_of_def)
  have all: "ims_imports s = concat (map (imports_from c) l)"
    unfolding c_def by (rule inherited_imports_collected[OF run])
  note from_iff = imports_from_iff[of rank c l, unfolded c(1), OF ok c(2)]
  have key: "\<exists>member derived. inheritable api = Some member \<and> shim_call x = (Some derived, Some (cpp_call_name (bm_name member))) \<and>
      inherits_member ancestry (declares_in c (cpp_call_name (bm_name member))) (bm_base member) derived \<and>
      length (filter (\<lambda>a. method_named a = Some (bm_base member, cpp_call_name (bm_name member))) l) = 1"
    if "x \<in> set (imports_from c api)" for x api
    using that unfolding from_iff by (auto simp: shim_call_imported)
  have apart: "distinct (map shim_call (ims_imports s))"
    unfolding all
  proof (rule distinct_concat_keys)
    show "distinct l" using names by (simp add: distinct_map)
    show "distinct (map shim_call (imports_from c api))" for api
    proof -
      have "distinct (ic_importers c)" using struct_names_distinct[OF names] by (simp add: c_def import_context_of_def)
      moreover have "shim_call \<circ> imported m sp = (\<lambda>d. (Some d, Some (cpp_call_name (bm_name m))))" for m sp
        by (simp add: comp_def shim_call_imported)
      ultimately show ?thesis
        by (simp add: imports_from_def distinct_map[of "\<lambda>d. (Some d, _)"] inj_on_def split: option.splits)
    qed
    fix a b x
    assume a: "a \<in> set l" "x \<in> shim_call ` set (imports_from c a)"
      and b: "b \<in> set l" "x \<in> shim_call ` set (imports_from c b)"
    from key a(2) obtain m d where m: "inheritable a = Some m" "x = (Some d, Some (cpp_call_name (bm_name m)))"
      "inherits_member ancestry (declares_in c (cpp_call_name (bm_name m))) (bm_base m) d"
      "length (filter (\<lambda>a. method_named a = Some (bm_base m, cpp_call_name (bm_name m))) l) = 1" by blast
    from key b(2) obtain m' d' where m': "inheritable b = Some m'" "x = (Some d', Some (cpp_call_name (bm_name m')))"
      "inherits_member ancestry (declares_in c (cpp_call_name (bm_name m'))) (bm_base m') d'" by blast
    from m(2) m'(2) have e: "cpp_call_name (bm_name m) = cpp_call_name (bm_name m')" "d = d'" by simp_all
    with m(3) m'(3) have "bm_base m = bm_base m'" by (auto simp: inherits_member_def)
    with e inheritable_method[OF m(1)] inheritable_method[OF m'(1)]
    show "a = b" by (intro only_one[OF m(4)] a(1) b(1)) simp_all
  qed
  have "\<not> declares derived" if "inherits_member ancestry declares base derived" for declares base derived
    using that visible_declared[of declares derived ancestry] by (auto simp: inherits_member_def)
  then have "case shim_call x of (Some derived, Some name) \<Rightarrow> \<not> declares_in c name derived | _ \<Rightarrow> False"
    if "x \<in> set (ims_imports s)" for x
    using key[of x] that by (fastforce simp: all)
  then show ?thesis
    unfolding list_all_iff c(3)[symmetric] by (intro conjI apart ballI)
qed

section \<open>Using-declarations\<close>

text \<open>The declarations a class writes for a name, its own constructor's aside.\<close>

definition written_for :: "('td, pod_analysis, 'fn, 'sub) api list \<Rightarrow> qualified_name \<Rightarrow> string \<Rightarrow> using_declaration list" where
  "written_for l cls name =
     (if name = get_final_item cls then []
      else concat (map (\<lambda>api. case api of
             Api_Struct n details analysis \<Rightarrow>
               if an_name n = cls then filter (\<lambda>u. ud_name u = name) (pa_using_declarations analysis) else []
           | _ \<Rightarrow> []) l))"

lemma written_for_snoc:
  "written_for (l @ [api]) cls name =
     written_for l cls name @
     (case api of
        Api_Struct n details analysis \<Rightarrow>
          if an_name n = cls \<and> name \<noteq> get_final_item cls
          then filter (\<lambda>u. ud_name u = name) (pa_using_declarations analysis) else []
      | _ \<Rightarrow> [])"
  by (cases api) (simp_all add: written_for_def)

abbreviation as_written :: "'a list \<Rightarrow> 'a list option" where
  "as_written us \<equiv> (if us = [] then None else Some us)"

lemma fold_written:
  "map_of (fold (\<lambda>u m. if ud_name u = get_final_item cls then m else imap_push (cls, ud_name u) u m) us m) (cls', name) =
     (if cls' = cls \<and> name \<noteq> get_final_item cls
      then as_written ((case map_of m (cls', name) of Some ws \<Rightarrow> ws | None \<Rightarrow> []) @ filter (\<lambda>u. ud_name u = name) us)
      else map_of m (cls', name))"
  if "map_of m (cls', name) \<noteq> Some []"
  using that
proof (induction us arbitrary: m)
  case (Cons u us)
  have "map_of (if ud_name u = get_final_item cls then m else imap_push (cls, ud_name u) u m) (cls', name) \<noteq> Some []"
    using Cons.prems by (simp add: map_of_imap_push)
  note Cons.IH[OF this]
  then show ?case by (simp add: map_of_imap_push split: option.split)
qed (auto split: option.split)

lemma map_of_written: "map_of (using_declarations_written l) (cls, name) = as_written (written_for l cls name)"
proof (induction l rule: rev_induct)
  case Nil
  show ?case by (simp add: using_declarations_written_def written_for_def)
next
  case (snoc api l)
  show ?case
  proof (cases "\<exists>n details analysis. api = Api_Struct n details analysis")
    case True
    then obtain n details analysis where api: "api = Api_Struct n details analysis" by blast
    have step: "using_declarations_written (l @ [api]) =
        fold (\<lambda>u m. if ud_name u = get_final_item (an_name n) then m else imap_push (an_name n, ud_name u) u m)
          (pa_using_declarations analysis) (using_declarations_written l)"
      by (simp add: using_declarations_written_def api)
    have "map_of (using_declarations_written l) (cls, name) \<noteq> Some []" by (simp add: snoc.IH)
    note fold_written[OF this, of "an_name n" "pa_using_declarations analysis"]
    then show ?thesis unfolding step written_for_snoc by (auto simp: snoc.IH api)
  next
    case False
    then show ?thesis using snoc.IH
      by (cases api) (simp_all add: using_declarations_written_def written_for_snoc)
  qed
qed

lemma written_wf: "imap_wf (using_declarations_written l)"
proof -
  have inner: "imap_wf m \<Longrightarrow>
      imap_wf (fold (\<lambda>u m. if ud_name u = get_final_item cls then m else imap_push (cls, ud_name u) u m) us m)"
    for cls us and m :: "(qualified_name \<times> string, using_declaration list) index_map"
    by (induction us arbitrary: m) (simp_all add: imap_push_def)
  show ?thesis
    by (induction l rule: rev_induct) (auto simp: using_declarations_written_def inner split: api.split)
qed

lemma fold_push_members:
  "im \<in> set (case map_of (fold (\<lambda>x m. case f x of Some (b, i) \<Rightarrow> imap_push b i m | None \<Rightarrow> m) xs m) base of
               Some ms \<Rightarrow> ms | None \<Rightarrow> []) \<longleftrightarrow>
     im \<in> set (case map_of m base of Some ms \<Rightarrow> ms | None \<Rightarrow> []) \<or> (\<exists>x \<in> set xs. f x = Some (base, im))"
proof (induction xs arbitrary: m)
  case (Cons x xs)
  have push: "im \<in> set (case map_of (imap_push b i m) base of Some ms \<Rightarrow> ms | None \<Rightarrow> []) \<longleftrightarrow>
      im \<in> set (case map_of m base of Some ms \<Rightarrow> ms | None \<Rightarrow> []) \<or> b = base \<and> i = im" for b i
    by (auto simp: map_of_imap_push split: option.split)
  show ?case
  proof (cases "f x")
    case None
    with Cons.IH[of m] show ?thesis by simp
  next
    case (Some p)
    obtain b i where p: "p = (b, i)" by (cases p)
    from Cons.IH[of "imap_push b i m"] Some p show ?thesis unfolding push by auto
  qed
qed simp

lemma importing_declaration_iff:
  "importing_declaration ancestry (using_declarations_written l) importer name written = Some (base, im) \<longleftrightarrow>
     (\<exists>u. written = [u] \<and> ud_source_scope u = Some base \<and>
        reached_exactly_once ancestry importer base Inheritance_Any \<and> written_for l base name = [] \<and>
        im = \<lparr>im_importer = importer, im_name = name, im_visibility = ud_visibility u\<rparr>)"
proof (cases "\<exists>u. written = [u]")
  case True
  then obtain u where "written = [u]" by blast
  then show ?thesis by (auto simp: importing_declaration_def map_of_written split: option.splits)
next
  case False
  then show ?thesis by (auto simp: importing_declaration_def split: list.splits)
qed

lemma by_base_members:
  "im \<in> set (case map_of (build_using_declarations_by_base l ancestry) base of Some ms \<Rightarrow> ms | None \<Rightarrow> []) \<longleftrightarrow>
     (\<exists>u. written_for l (im_importer im) (im_name im) = [u] \<and> ud_source_scope u = Some base \<and>
        im_visibility im = ud_visibility u \<and> reached_exactly_once ancestry (im_importer im) base Inheritance_Any \<and>
        written_for l base (im_name im) = [])"
proof -
  let ?w = "using_declarations_written l"
  let ?f = "\<lambda>((importer, name), written). importing_declaration ancestry ?w importer name written"
  have fold: "build_using_declarations_by_base l ancestry =
      fold (\<lambda>x m. case ?f x of Some (b, i) \<Rightarrow> imap_push b i m | None \<Rightarrow> m) ?w []"
    by (simp add: build_using_declarations_by_base_def split_def Let_def)
  have "im \<in> set (case map_of (build_using_declarations_by_base l ancestry) base of Some ms \<Rightarrow> ms | None \<Rightarrow> []) \<longleftrightarrow>
      (\<exists>x \<in> set ?w. ?f x = Some (base, im))"
    unfolding fold fold_push_members by simp
  also have "\<dots> \<longleftrightarrow> (\<exists>importer name written. written_for l importer name = written \<and> written \<noteq> [] \<and>
      importing_declaration ancestry ?w importer name written = Some (base, im))"
  proof -
    have "((importer, name), written) \<in> set ?w \<longleftrightarrow> written_for l importer name = written \<and> written \<noteq> []"
      for importer name written
    proof -
      have "((importer, name), written) \<in> set ?w \<longleftrightarrow> map_of ?w (importer, name) = Some written"
        by (simp add: map_of_eq_Some_iff[OF written_wf])
      then show ?thesis by (auto simp: map_of_written)
    qed
    then show ?thesis by (simp add: Bex_def split_paired_Ex)
  qed
  also have "\<dots> \<longleftrightarrow> (\<exists>u. written_for l (im_importer im) (im_name im) = [u] \<and> ud_source_scope u = Some base \<and>
        im_visibility im = ud_visibility u \<and> reached_exactly_once ancestry (im_importer im) base Inheritance_Any \<and>
        written_for l base (im_name im) = [])"
    unfolding importing_declaration_iff
  proof (intro iffI; elim exE conjE)
    fix u assume u: "written_for l (im_importer im) (im_name im) = [u]" "ud_source_scope u = Some base"
      "im_visibility im = ud_visibility u" "reached_exactly_once ancestry (im_importer im) base Inheritance_Any"
      "written_for l base (im_name im) = []"
    then show "\<exists>importer name written. written_for l importer name = written \<and> written \<noteq> [] \<and>
        (\<exists>u. written = [u] \<and> ud_source_scope u = Some base \<and>
          reached_exactly_once ancestry importer base Inheritance_Any \<and> written_for l base name = [] \<and>
          im = \<lparr>im_importer = importer, im_name = name, im_visibility = ud_visibility u\<rparr>)"
      by (intro exI[of _ "im_importer im"] exI[of _ "im_name im"] exI[of _ "[u]"] conjI exI[of _ u]) simp_all
  qed auto
  finally show ?thesis .
qed


lemma by_base_imports:
  "(\<exists>im \<in> set (case map_of (build_using_declarations_by_base l ancestry) base of Some ms \<Rightarrow> ms | None \<Rightarrow> []).
       im_name im = name \<and> im_importer im = importer \<and> P (im_visibility im)) \<longleftrightarrow>
     (\<exists>u. written_for l importer name = [u] \<and> ud_source_scope u = Some base \<and>
        reached_exactly_once ancestry importer base Inheritance_Any \<and> written_for l base name = [] \<and>
        P (ud_visibility u))"
proof (intro iffI; elim exE bexE conjE)
  fix u assume u: "written_for l importer name = [u]" "ud_source_scope u = Some base"
    "reached_exactly_once ancestry importer base Inheritance_Any" "written_for l base name = []" "P (ud_visibility u)"
  let ?im = "\<lparr>im_importer = importer, im_name = name, im_visibility = ud_visibility u\<rparr>"
  from u have "?im \<in> set (case map_of (build_using_declarations_by_base l ancestry) base of Some ms \<Rightarrow> ms | None \<Rightarrow> [])"
    unfolding by_base_members by simp
  with u(5) show "\<exists>im \<in> set (case map_of (build_using_declarations_by_base l ancestry) base of Some ms \<Rightarrow> ms | None \<Rightarrow> []).
       im_name im = name \<and> im_importer im = importer \<and> P (im_visibility im)" by (intro bexI[of _ ?im]) simp_all
next
  fix im assume im: "im \<in> set (case map_of (build_using_declarations_by_base l ancestry) base of Some ms \<Rightarrow> ms | None \<Rightarrow> [])"
    "im_name im = name" "im_importer im = importer" "P (im_visibility im)"
  from im(1) show "\<exists>u. written_for l importer name = [u] \<and> ud_source_scope u = Some base \<and>
      reached_exactly_once ancestry importer base Inheritance_Any \<and> written_for l base name = [] \<and> P (ud_visibility u)"
    unfolding by_base_members using im(2-4) by auto
qed

text \<open>
  C35: a using-declaration brings in what C++ would call. Whatever the order of classes and functions,
  a function is handed on for a class exactly when the class writes one using-declaration of its name,
  which names the function's class; that class is one subobject of it, writes no using-declaration of
  the name itself and declares the one function under it; the function is an ordinary one nobody
  blocked; and the class declares no method of that name.
\<close>

theorem using_declarations_import_exactly:
  assumes "ancestry_ok rank ancestry"
  shows "(importer, x) \<in> set (using_declaration_imports (build_using_declarations_by_base classes ancestry) l) \<longleftrightarrow>
     (\<exists>name fn analysis kind base u.
        Api_Function name fn analysis \<in> set l \<and> fa_kind analysis = FnKind_Method kind base \<and>
        calls_ordinarily kind \<and> \<not> is_function_blocked analysis \<and>
        written_for classes importer (cpp_call_name name) = [u] \<and> ud_source_scope u = Some base \<and>
        (\<exists>!p. inherits_via (bases_by ancestry Inheritance_Any) importer p base) \<and>
        all_bases_named ancestry Inheritance_Any base importer \<and>
        written_for classes base (cpp_call_name name) = [] \<and>
        length (filter (\<lambda>a. method_named a = Some (base, cpp_call_name name)) l) = 1 \<and>
        \<not> (\<exists>a \<in> set l. method_named a = Some (importer, cpp_call_name name)) \<and>
        x = import_member_into importer (ud_visibility u) name fn None)" (is "?l \<longleftrightarrow> ?r")
proof -
  let ?by_base = "build_using_declarations_by_base classes ancestry"
  let ?imports = "imports_of ?by_base (List.map_filter method_named l) (methods_counted l)"
  have declared: "k \<in> set (List.map_filter method_named l) \<longleftrightarrow> (\<exists>a \<in> set l. method_named a = Some k)" for k
    by (force simp: List.map_filter_def)
  have one: "(importer, x) \<in> set (?imports api) \<longleftrightarrow>
      (\<exists>name fn analysis kind base. api = Api_Function name fn analysis \<and>
        fa_kind analysis = FnKind_Method kind base \<and>
        calls_ordinarily kind \<and> \<not> is_function_blocked analysis \<and>
        length (filter (\<lambda>a. method_named a = Some (base, cpp_call_name name)) l) = 1 \<and>
        \<not> (\<exists>a \<in> set l. method_named a = Some (importer, cpp_call_name name)) \<and>
        (\<exists>im \<in> set (case map_of ?by_base base of Some ms \<Rightarrow> ms | None \<Rightarrow> []).
           im_name im = cpp_call_name name \<and> im_importer im = importer \<and>
           x = import_member_into importer (im_visibility im) name fn None))" for api
  proof (cases "\<exists>name fn analysis kind base. api = Api_Function name fn analysis \<and> fa_kind analysis = FnKind_Method kind base")
    case True
    then obtain name fn analysis kind base where api: "api = Api_Function name fn analysis"
      "fa_kind analysis = FnKind_Method kind base" by blast
    have members: "(importer, x) \<in> set (List.map_filter g ms) \<longleftrightarrow> (\<exists>im \<in> set ms. g im = Some (importer, x))" for g and ms :: "imported_member list"
      by (force simp: List.map_filter_def)
    show ?thesis
      by (auto simp: imports_of_def api members counted_one[unfolded One_nat_def] declared split: if_splits)
  next
    case False
    then have "?imports api = []" by (cases api) (simp_all add: imports_of_def split: fn_kind.split)
    with False show ?thesis by auto
  qed
  note brought = by_base_imports[where P = "\<lambda>v. x = import_member_into importer v name fn None" for name fn]
  have "?l \<longleftrightarrow> (\<exists>api \<in> set l. (importer, x) \<in> set (?imports api))"
    by (auto simp: using_declaration_imports_def imports_of_def split: api.splits fn_kind.splits)
  also have "\<dots> \<longleftrightarrow> ?r"
    unfolding one brought reached_exactly_once_iff[OF assms] all_bases_named_def by blast
  finally show ?thesis .
qed

section \<open>Notes are given names\<close>

interpretation note_names: numbered_names "note_candidate stem"
proof
  fix i j
  assume "note_candidate stem i = note_candidate stem j"
  then show "i = j"
    by (auto simp: note_candidate_def nat_to_string_nonempty split: if_splits)
qed

lemma note_name_found:
  "\<exists>n. first_free (note_candidate stem) (\<lambda>c. QualifiedName_new ns (make_ident c) \<in> set taken) 0 = Some n \<and>
     QualifiedName_new ns (make_ident (note_candidate stem n)) \<notin> set taken"
proof -
  have "{c. QualifiedName_new ns (make_ident c) \<in> set taken} \<subseteq> get_final_item ` set taken"
    by (force simp: QualifiedName_new_def make_ident_def image_iff)
  then have "finite {c. QualifiedName_new ns (make_ident c) \<in> set taken}" by (rule finite_subset) simp
  from note_names.search_ends[OF this, of 0 stem] show ?thesis by blast
qed

lemma overload_name_found: "\<exists>r. get_overload_name trackers ns type_ident rust_name cpp_declared_name = Some r"
proof -
  have "\<exists>r. get_name_in_scope sc reserved_names n orig = Some r" for sc reserved_names n orig
    using get_name_in_scope_gives[of sc reserved_names n orig] by blast
  then show ?thesis by (force simp: get_overload_name_def get_method_real_name_def get_name_def)
qed

lemma add_declined_notes_runs:
  assumes "list_all (\<lambda>(derived, item, cpp_name, err). err \<noteq> FunctionHiddenByType) declined" and "apivec_wf results"
  shows "\<exists>results' trackers'. add_declined_notes is_rust_ident generic_types declined taken trackers results =
       Some (results', trackers') \<and> apivec_wf results' \<and>
     set (names results) \<subseteq> set (names results')"
  using assms
proof (induction declined arbitrary: taken trackers results)
  case (Cons d declined)
  obtain derived item cpp_name err where d: "d = (derived, item, cpp_name, err)" by (cases d)
  show ?case
  proof (cases "note_rust_name is_rust_ident cpp_name")
    case None
    with Cons d show ?thesis by simp
  next
    case (Some rust_name)
    let ?stem = "get_final_item derived @ ''_'' @ item"
    obtain n where n: "first_free (note_candidate ?stem)
        (\<lambda>c. QualifiedName_new (get_namespace derived) (make_ident c) \<in> set taken) 0 = Some n"
      using note_name_found by blast
    obtain answer k trackers' where t: "get_overload_name trackers (get_namespace derived) (get_final_item derived) rust_name None =
        Some ((answer, k), trackers')"
      using overload_name_found by (metis surj_pair)
    let ?api = "Api_IgnoredItem (ApiName_new_with_cpp_name (get_namespace derived)
        (make_ident (note_candidate ?stem n)) (Some cpp_name)) err
        (Some (error_context_for_method generic_types derived answer))"
    have "stub_ok ?api" using Cons.prems(1) d
      by (simp add: stub_ok_def is_displaced_function_def split: convert_error.split)
    from apivec_push_wf[OF Cons.prems(2) this] obtain results' where
      r: "apivec_push results ?api = Some results'" "apivec_wf results'"
      "set (names results) \<subseteq> set (names results')" by auto
    have "list_all (\<lambda>(derived, item, cpp_name, err). err \<noteq> FunctionHiddenByType) declined"
      using Cons.prems(1) by simp
    from Cons.IH[OF this r(2)] r(1,3) Some n t d show ?thesis
      by (fastforce simp: Let_def)
  qed
qed auto


definition declined_ok :: "import_state \<Rightarrow> bool" where
  "declined_ok s \<longleftrightarrow>
     distinct (map (\<lambda>(derived, item, cpp_name, err). (derived, cpp_name)) (ims_declined s)) \<and>
     (\<lambda>(derived, item, cpp_name, err). (derived, cpp_name)) ` set (ims_declined s) = set (ims_noted s) \<and>
     list_all (\<lambda>(derived, item, cpp_name, err). err \<noteq> FunctionHiddenByType) (ims_declined s)"

lemma import_into_declined: "declined_ok s \<Longrightarrow> declined_ok (import_into c member spelling declared derived s)"
  by (auto simp: declined_ok_def import_into_def Let_def split: option.splits)

lemma import_member_declined: "declined_ok s \<Longrightarrow> declined_ok (import_member c api s)"
proof -
  assume "declined_ok s"
  moreover have "declined_ok s \<Longrightarrow> declined_ok (fold (import_into c member spelling declared) ds s)"
    for member spelling declared ds s
    by (induction ds arbitrary: s) (simp_all add: import_into_declined)
  ultimately show ?thesis by (simp add: import_member_def split: option.split)
qed

lemma inherited_declined:
  assumes "inherited_imports get_hash config nested ancestry generic_types anonymous_types scoped_enums l = Some s"
  shows "declined_ok s"
proof -
  have fold: "declined_ok s \<Longrightarrow> declined_ok (fold (import_member c) l s)" for c s
    by (induction l arbitrary: s) (simp_all add: import_member_declined)
  have start: "declined_ok \<lparr>ims_imports = [], ims_declined = [], ims_noted = []\<rparr>" by (simp add: declined_ok_def)
  show ?thesis using assms fold[OF start] start by (auto simp: inherited_imports_def split: if_splits)
qed

text \<open>
  A name that is not inherited is noted once. Each class gets at most one note for each C++ name it
  cannot inherit; adding the notes, whatever names are taken, never searches for ever and never panics,
  keeps the names of the list unique and loses none.
\<close>

theorem declined_names_are_noted:
  assumes "inherited_imports get_hash config nested ancestry generic_types anonymous_types scoped_enums l = Some s"
    and "apivec_wf results"
  shows "distinct (map (\<lambda>(derived, item, cpp_name, err). (derived, cpp_name)) (ims_declined s)) \<and>
     (\<exists>results' trackers'. add_declined_notes is_rust_ident generic_types (ims_declined s) taken trackers results =
          Some (results', trackers') \<and> apivec_wf results' \<and> set (names results) \<subseteq> set (names results'))"
  using inherited_declined[OF assms(1)] add_declined_notes_runs[OF _ assms(2)] by (simp add: declined_ok_def)

section \<open>A base, a class derived from it and a class that says so itself\<close>

definition member_name :: "string \<Rightarrow> string \<Rightarrow> api_name" where
  "member_name item cpp = \<lparr>an_name = QualifiedName [''ns''] item, an_cpp_name = Some (CppOriginalName cpp)\<rparr>"

definition sample_members :: "fn_pre_phase1 list" where
  "sample_members =
     (let B = QualifiedName [''ns''] ''B'';
          param = \<lparr>aa_conversion = Policy_Whole (Type_Path (plain_path False [''ns'', ''B''])) WholeCpp_None WholeRust_None,
                   aa_name = ''self'', aa_self_type = Some (B, Const), aa_has_lifetime = True,
                   aa_is_mutable_reference = False, aa_deps = [B], aa_requires_unsafe = Unsafety_None,
                   aa_is_placement_return_destination = False\<rparr>;
          using_f = \<lparr>ud_name = ''f'', ud_source_scope = Some B, ud_visibility = Public\<rparr> in
      [Api_Struct (member_name ''B'' ''B'') (sample_details ''B'') (sample_pod [] [] []),
       Api_Struct (member_name ''D'' ''D'') (sample_details ''D'') (sample_pod [B] [] []),
       Api_Struct (member_name ''U'' ''U'') (sample_details ''U'')
         ((sample_pod [B] [] [])\<lparr>pa_using_declarations := [using_f]\<rparr>),
       (case sample_destructor ''B'' None of
          Api_Function name fn analysis \<Rightarrow>
            Api_Function (member_name ''B_f'' ''f'')
              (fn\<lparr>fc_cpp_vis := Public, fc_provenance := Bindgen\<rparr>)
              (analysis\<lparr>fa_kind := FnKind_Method Normal B, fa_param_details := [param], fa_ignore_reason := Inr ()\<rparr>)
        | api \<Rightarrow> api)])"

definition sample_ranks :: "qualified_name \<Rightarrow> nat" where
  "sample_ranks n = (if get_final_item n = ''B'' then 0 else 1)"

definition everything :: include_cpp_config where
  "everything = ns_only_config\<lparr>cfg_allowlist := All\<rparr>"

lemma sample_members_ok:
  "ancestry_ok sample_ranks (build_ancestry sample_members)" "distinct (map Api_name sample_members)"
  by code_simp+


abbreviation sample_class_name :: "string \<Rightarrow> qualified_name" where
  "sample_class_name \<equiv> QualifiedName [''ns'']"

lemma sample_receivers:
  "is_cxx_acceptable_receiver known_types (sample_class_name ''D'')"
  "is_cxx_acceptable_receiver known_types (sample_class_name ''U'')"
  unfolding is_cxx_acceptable_receiver_def db_get_known by code_simp+

lemma sample_listed:
  "nested_is_on_allowlist (\<lambda>_. 0) everything [] (sample_class_name ''D'') = Some True"
  "nested_is_on_allowlist (\<lambda>_. 0) everything [] (sample_class_name ''U'') = Some True"
  by (simp_all add: nested_is_on_allowlist_def nested_spellings_def is_on_allowlist_def everything_def)

lemma sample_structs:
  "struct_names sample_members = [sample_class_name ''B'', sample_class_name ''D'', sample_class_name ''U'']"
  "map_of (build_ancestry sample_members) (sample_class_name ''B'') =
     Some \<lparr>anc_bases = [], anc_public_bases = [], anc_has_unnamed_base = False\<rparr>"
  "map_of (build_ancestry sample_members) (sample_class_name ''D'') =
     Some \<lparr>anc_bases = [sample_class_name ''B''], anc_public_bases = [sample_class_name ''B''], anc_has_unnamed_base = False\<rparr>"
  "map_of (build_ancestry sample_members) (sample_class_name ''U'') =
     Some \<lparr>anc_bases = [sample_class_name ''B''], anc_public_bases = [sample_class_name ''B''], anc_has_unnamed_base = False\<rparr>"
  by code_simp+

lemma sample_importers:
  "filter_option (may_import (\<lambda>_. 0) everything [] (build_ancestry sample_members) [] []) (struct_names sample_members) =
     Some [sample_class_name ''D'', sample_class_name ''U'']"
  by (simp add: sample_structs may_import_def sample_receivers sample_listed)

definition sample_state :: import_state where
  "sample_state = fold (import_member (import_context_of (build_ancestry sample_members)
       [sample_class_name ''D'', sample_class_name ''U''] [] sample_members)) sample_members
     \<lparr>ims_imports = [], ims_declined = [], ims_noted = []\<rparr>"

lemma sample_run:
  "inherited_imports (\<lambda>_. 0) everything [] (build_ancestry sample_members) [] [] [] sample_members = Some sample_state"
  by (simp add: inherited_imports_def sample_importers sample_state_def)

lemma sample_imported: "map shim_call (ims_imports sample_state) = [(Some (sample_class_name ''D''), Some ''f'')]"
  by code_simp

text \<open>\<open>D\<close> is given \<open>f\<close>; \<open>U\<close>, whose using-declaration the other pass reads, is not.\<close>

lemma one_inherited_member_per_name_witness:
  "distinct (map shim_call (ims_imports sample_state)) \<and>
   list_all (\<lambda>x. case shim_call x of
       (Some derived, Some name) \<Rightarrow>
         \<not> declares_name (fold (note_declared [] (classes_by_cpp_scope sample_members)) sample_members [])
              (flat_scope sample_members) name derived
     | _ \<Rightarrow> False) (ims_imports sample_state)"
  by (rule one_inherited_member_per_name[OF sample_run sample_members_ok])


lemma using_declarations_import_exactly_witness:
  "\<exists>x. (sample_class_name ''U'', x) \<in> set (using_declaration_imports
       (build_using_declarations_by_base sample_members (build_ancestry sample_members)) sample_members) \<and>
     (\<exists>!p. inherits_via (bases_by (build_ancestry sample_members) Inheritance_Any) (sample_class_name ''U'') p
        (sample_class_name ''B''))"
proof -
  let ?imports = "using_declaration_imports
       (build_using_declarations_by_base sample_members (build_ancestry sample_members)) sample_members"
  have "map fst ?imports = [sample_class_name ''U'']" by code_simp
  then obtain x where x: "(sample_class_name ''U'', x) \<in> set ?imports" by (cases ?imports) auto
  have source: "ud_source_scope u = Some (sample_class_name ''B'')"
    if "written_for sample_members (sample_class_name ''U'') n = [u]" for n u
    using that by (auto simp: written_for_def sample_members_def sample_pod_def sample_destructor_def member_name_def Let_def split: if_splits)
  from x obtain name fn analysis kind base u where
    "written_for sample_members (sample_class_name ''U'') (cpp_call_name name) = [u]" "ud_source_scope u = Some base"
    and p: "\<exists>!p. inherits_via (bases_by (build_ancestry sample_members) Inheritance_Any) (sample_class_name ''U'') p base"
    unfolding using_declarations_import_exactly[OF sample_members_ok(1)] by (elim exE conjE)
  with source have "base = sample_class_name ''B''" by simp
  with x p show ?thesis by (intro exI[of _ x] conjI) simp_all
qed

lemma declined_names_are_noted_witness:
  "\<exists>results' trackers'. add_declined_notes (\<lambda>_. True) [] (ims_declined sample_state) [] []
       (ApiVec_new :: (unit, unit, unit, unit) api_vec) = Some (results', trackers')"
  using declined_names_are_noted[OF sample_run apivec_wf_new] by blast


end
