(* ===== verification/CppTypes.thy ===== *)
theory CppTypes imports Api begin

text \<open>
  How a type is spelled in C++ (\<^verbatim>\<open>codegen_cpp/type_to_cpp.rs\<close>): the map from the names bindgen flattened
  to the names C++ gave, the aliases that make a hidden type nameable, and the spelling of whole types.
\<close>

section \<open>The map of names\<close>

definition UNSHADOWING_SUFFIX :: string where
  "UNSHADOWING_SUFFIX = ''_autocxx_unshadowed''"

record unshadowing_alias =
  ua_tag :: string
  ua_original_cpp_name :: string
  ua_alias :: string

record cpp_name_map =
  cnm_original_names :: "(qualified_name, cpp_original_name) index_map"
  cnm_unshadowing_aliases :: "(qualified_name, unshadowing_alias) index_map"

definition is_union :: "item_struct \<Rightarrow> bool" where
  "is_union item \<longleftrightarrow>
     list_ex (\<lambda>f. case if_ty f of
        Type_Path tp \<Rightarrow> segments tp \<noteq> [] \<and> seg_ident (last (segments tp)) = ''__BindgenUnionField''
      | _ \<Rightarrow> False) (is_fields item)"

definition unaliased_cpp_name :: "(qualified_name, cpp_original_name) index_map \<Rightarrow> qualified_name \<Rightarrow> string" where
  "unaliased_cpp_name original_names qual_name =
     (case map_of original_names qual_name of
        Some cpp_name \<Rightarrow> join ''::'' (get_namespace qual_name @ [for_original_name_map cpp_name])
      | None \<Rightarrow> to_cpp_name qual_name)"

definition get_mut_string :: "bool \<Rightarrow> string" where
  "get_mut_string mutable = (if mutable then '''' else ''const '')"

definition shadowed_tag :: "('td, 'st, 'fn, 'sub) api \<Rightarrow> string option" where
  "shadowed_tag api =
     (case api of
        Api_Struct name details analysis \<Rightarrow> Some (if is_union (sd_item details) then ''union'' else ''struct'')
      | Api_ForwardDeclaration name err \<Rightarrow> Some ''struct''
      | Api_Enum name item \<Rightarrow> Some ''enum''
      | _ \<Rightarrow> None)"

definition original_cpp_names :: "('td, 'st, 'fn, 'sub) api list \<Rightarrow> (qualified_name, cpp_original_name) index_map" where
  "original_cpp_names l =
     fold (\<lambda>api m. case Api_cpp_name api of Some n \<Rightarrow> imap_insert (Api_name api) n m | None \<Rightarrow> m) l []"

definition CppNameMap_new_from_apis ::
    "('td, 'st, 'fn, 'sub) api list \<Rightarrow> qualified_name list \<Rightarrow> cpp_name_map" where
  "CppNameMap_new_from_apis l shadowed_types =
     (let original_names = original_cpp_names l in
      \<lparr>cnm_original_names = original_names,
       cnm_unshadowing_aliases =
         fold (\<lambda>api m.
                 if Api_name api \<notin> set shadowed_types then m
                 else case shadowed_tag api of
                        None \<Rightarrow> m
                      | Some tag \<Rightarrow>
                          imap_insert (Api_name api)
                            \<lparr>ua_tag = tag, ua_original_cpp_name = unaliased_cpp_name original_names (Api_name api),
                             ua_alias = get_final_item (Api_name api) @ UNSHADOWING_SUFFIX\<rparr> m) l []\<rparr>)"

definition new_for_analysis :: "('td, 'st, 'fn, 'sub) api list \<Rightarrow> cpp_name_map" where
  "new_for_analysis l = CppNameMap_new_from_apis l []"

definition unshadowing_alias_of :: "cpp_name_map \<Rightarrow> qualified_name \<Rightarrow> string option" where
  "unshadowing_alias_of m qual_name = map_option ua_alias (map_of (cnm_unshadowing_aliases m) qual_name)"

definition cpp_map :: "cpp_name_map \<Rightarrow> qualified_name \<Rightarrow> string" where
  "cpp_map m qual_name =
     (case map_of (cnm_unshadowing_aliases m) qual_name of
        Some a \<Rightarrow> join ''::'' (get_namespace qual_name @ [ua_alias a])
      | None \<Rightarrow> unaliased_cpp_name (cnm_original_names m) qual_name)"

definition cpp_map_final_item :: "cpp_name_map \<Rightarrow> qualified_name \<Rightarrow> string" where
  "cpp_map_final_item m qual_name =
     (case map_of (cnm_unshadowing_aliases m) qual_name of
        Some a \<Rightarrow> ua_alias a
      | None \<Rightarrow>
          (case map_of (cnm_original_names m) qual_name of
             Some n \<Rightarrow>
               (case get_final_segment_for_special_members n of Some s \<Rightarrow> s | None \<Rightarrow> get_final_item qual_name)
           | None \<Rightarrow> get_final_item qual_name))"

section \<open>Whole types\<close>

text \<open>\<open>None\<close> is a panic. Collecting results stops at the first error.\<close>

fun collect_spellings :: "(convert_error, string) result option list \<Rightarrow> (convert_error, string list) result option" where
  "collect_spellings [] = Some (Inr [])"
| "collect_spellings (x # xs) =
     (case x of
        None \<Rightarrow> None
      | Some (Inl e) \<Rightarrow> Some (Inl e)
      | Some (Inr s) \<Rightarrow> map_option (map_sum id ((#) s)) (collect_spellings xs))"

definition qualified_spelling :: "string \<Rightarrow> rust_type \<Rightarrow> string \<Rightarrow> string" where
  "qualified_spelling qualifier inner inner_cpp =
     (case inner of
        Type_Ptr _ _ \<Rightarrow> inner_cpp @ '' '' @ qualifier
      | _ \<Rightarrow> qualifier @ '' '' @ inner_cpp)"

definition is_str_path :: "rust_type \<Rightarrow> bool" where
  "is_str_path ty \<longleftrightarrow>
     (case ty of
        Type_Path (TypePath q colon [PathSegment idt PathArguments_None]) \<Rightarrow> \<not> colon \<and> idt = ''str''
      | _ \<Rightarrow> False)"

definition argument_types :: "path_arguments \<Rightarrow> rust_type option list option" where
  "argument_types a =
     (case a of
        AngleBracketed args \<Rightarrow>
          Some (map (\<lambda>x. case x of GenericArgument_Type ty \<Rightarrow> Some ty | GenericArgument_Other _ \<Rightarrow> None) args)
      | _ \<Rightarrow> None)"

definition pointee_says_const :: "rust_type \<Rightarrow> bool" where
  "pointee_says_const elem \<longleftrightarrow> (case elem of Type_Path inner \<Rightarrow> unwrap_const inner \<noteq> None | _ \<Rightarrow> False)"

lemma argument_types_size:
  assumes "argument_types a = Some tys" and "Some ty \<in> set tys"
  shows "size ty < size a"
proof -
  from assms obtain args where a: "a = AngleBracketed args" "GenericArgument_Type ty \<in> set args"
    by (auto simp: argument_types_def split: path_arguments.splits generic_argument.splits)
  then have "size (GenericArgument_Type ty) \<le> size_list size args"
    by (intro size_list_estimation'[OF a(2)]) simp
  with a(1) show ?thesis by simp
qed

lemma last_arguments_size:
  assumes "segments tp \<noteq> []" and "argument_types (seg_arguments (last (segments tp))) = Some tys" and "Some ty \<in> set tys"
  shows "size ty < size tp"
proof (cases tp)
  case (TypePath q c segs)
  have "size ty < size (seg_arguments (last segs))"
    using argument_types_size[OF assms(2,3)] TypePath by simp
  also have "\<dots> < size (last segs)" by (cases "last segs") simp
  also have "\<dots> \<le> size_list size segs"
    using size_list_estimation'[of "last segs" segs "size (last segs)" size] assms(1) TypePath by simp
  finally show ?thesis using TypePath by simp
qed

text \<open>The arguments of the last segment, with nothing for those that are no types.\<close>

definition last_arguments :: "type_path \<Rightarrow> rust_type option list option" where
  "last_arguments tp = (if segments tp = [] then None else argument_types (seg_arguments (last (segments tp))))"

lemma last_arguments_less: "last_arguments tp = Some tys \<Longrightarrow> Some ty \<in> set tys \<Longrightarrow> size ty < size tp"
  by (auto simp: last_arguments_def intro: last_arguments_size split: if_splits)

function type_to_cpp :: "cpp_name_map \<Rightarrow> rust_type \<Rightarrow> (convert_error, string) result option" where
  "type_to_cpp m (Type_Path typ) =
     (case unwrap_const typ of
        Some inner \<Rightarrow> map_option (map_sum id (qualified_spelling ''const'' inner)) (type_to_cpp m inner)
      | None \<Rightarrow>
     (case unwrap_volatile typ of
        Some inner \<Rightarrow> map_option (map_sum id (qualified_spelling ''volatile'' inner)) (type_to_cpp m inner)
      | None \<Rightarrow>
     (case from_type_path typ of
        None \<Rightarrow> None
      | Some qual_name \<Rightarrow>
          (let root = cpp_map m qual_name in
           if root = ''Pin'' then
             (case last_arguments typ of
                Some (Some gat # _) \<Rightarrow> type_to_cpp m gat
              | _ \<Rightarrow> None)
           else
             (case last_arguments typ of
                None \<Rightarrow> Some (Inr root)
              | Some args \<Rightarrow>
                  map_option (map_sum id (\<lambda>results. root @ ''<'' @ join '', '' results @ ''>''))
                    (collect_spellings
                       (map (\<lambda>x. case x of Some gat \<Rightarrow> type_to_cpp m gat | None \<Rightarrow> Some (Inr '''')) args)))))))"
| "type_to_cpp m (Type_Reference mutability elem) =
     (if is_str_path elem then Some (Inr ''rust::Str'')
      else map_option (map_sum id (\<lambda>s. get_mut_string mutability @ s @ ''&'')) (type_to_cpp m elem))"
| "type_to_cpp m (Type_Ptr mutability elem) =
     map_option
       (map_sum id (\<lambda>s. (if pointee_says_const elem then '''' else get_mut_string (ptr_is_mut mutability)) @ s @ ''*''))
       (type_to_cpp m elem)"
| "type_to_cpp m (Type_Array elem len) =
     (case len of
        Len_Other _ \<Rightarrow> Some (Inl (TypeError (UnsupportedType (Type_Array elem len))))
      | Len_Int n \<Rightarrow>
          map_option (map_sum id (\<lambda>s. ''std::array<'' @ s @ '', '' @ nat_to_string n @ ''>'')) (type_to_cpp m elem))"
| "type_to_cpp m (Type_FnPtr args ret) = Some (Inl (TypeError (UnsupportedType (Type_FnPtr args ret))))"
| "type_to_cpp m (Type_Paren ty) = Some (Inl (TypeError (UnsupportedType (Type_Paren ty))))"
| "type_to_cpp m (Type_Group ty) = Some (Inl (TypeError (UnsupportedType (Type_Group ty))))"
| "type_to_cpp m (Type_Other tokens) = Some (Inl (TypeError (UnsupportedType (Type_Other tokens))))"
  by pat_completeness auto
termination
  by (relation "measure (size \<circ> snd)")
     (auto dest: unwrap_marker_size last_arguments_less intro: less_SucI)

section \<open>What a spelling means\<close>

datatype cpp_type =
    CT_Named string "cpp_type list option"
  | CT_Array cpp_type nat
  | CT_Const cpp_type
  | CT_Volatile cpp_type
  | CT_Ptr cpp_type
  | CT_Ref cpp_type
  | CT_Blank

text \<open>
  The C++ grammar of these spellings: specifiers, which a qualifier goes in front of, and declarators,
  which are read from the left, so that a qualifier after a star is the pointer's.
\<close>

definition unqualified :: "cpp_type \<Rightarrow> bool" where
  "unqualified t \<longleftrightarrow> (case t of CT_Named _ _ \<Rightarrow> True | CT_Array _ _ \<Rightarrow> True | _ \<Rightarrow> False)"

inductive specifies :: "string \<Rightarrow> cpp_type \<Rightarrow> bool" and spells :: "string \<Rightarrow> cpp_type \<Rightarrow> bool" where
  named: "specifies n (CT_Named n None)"
| template: "list_all2 spells ss ts \<Longrightarrow> specifies (n @ ''<'' @ join '', '' ss @ ''>'') (CT_Named n (Some ts))"
| array: "spells s t \<Longrightarrow> specifies (''std::array<'' @ s @ '', '' @ nat_to_string k @ ''>'') (CT_Array t k)"
| const_before: "specifies s t \<Longrightarrow> unqualified t \<Longrightarrow> specifies (''const '' @ s) (CT_Const t)"
| volatile_before: "specifies s t \<Longrightarrow> unqualified t \<Longrightarrow> specifies (''volatile '' @ s) (CT_Volatile t)"
| specifier: "specifies s t \<Longrightarrow> spells s t"
| blank: "spells '''' CT_Blank"
| pointer: "spells s t \<Longrightarrow> spells (s @ ''*'') (CT_Ptr t)"
| reference: "spells s t \<Longrightarrow> spells (s @ ''&'') (CT_Ref t)"
| const_after: "spells s (CT_Ptr t) \<Longrightarrow> spells (s @ '' const'') (CT_Const (CT_Ptr t))"
| volatile_after: "spells s (CT_Ptr t) \<Longrightarrow> spells (s @ '' volatile'') (CT_Volatile (CT_Ptr t))"

text \<open>What the Rust type stands for; a pointee that is marked is not made \<open>const\<close> twice.\<close>

definition made_const :: "bool \<Rightarrow> cpp_type \<Rightarrow> cpp_type" where
  "made_const mutable t = (if mutable then t else case t of CT_Const u \<Rightarrow> t | _ \<Rightarrow> CT_Const t)"

function denotes :: "cpp_name_map \<Rightarrow> rust_type \<Rightarrow> cpp_type" where
  "denotes m (Type_Path typ) =
     (case unwrap_const typ of
        Some inner \<Rightarrow> CT_Const (denotes m inner)
      | None \<Rightarrow>
     (case unwrap_volatile typ of
        Some inner \<Rightarrow> CT_Volatile (denotes m inner)
      | None \<Rightarrow>
     (case from_type_path typ of
        None \<Rightarrow> CT_Blank
      | Some qual_name \<Rightarrow>
          if cpp_map m qual_name = ''Pin'' then
            (case last_arguments typ of Some (Some gat # _) \<Rightarrow> denotes m gat | _ \<Rightarrow> CT_Blank)
          else CT_Named (cpp_map m qual_name)
                 (map_option (map (\<lambda>x. case x of Some gat \<Rightarrow> denotes m gat | None \<Rightarrow> CT_Blank)) (last_arguments typ)))))"
| "denotes m (Type_Reference mutability elem) =
     (if is_str_path elem then CT_Named ''rust::Str'' None else CT_Ref (made_const mutability (denotes m elem)))"
| "denotes m (Type_Ptr mutability elem) = CT_Ptr (made_const mutability (denotes m elem))"
| "denotes m (Type_Array elem len) = (case len of Len_Int n \<Rightarrow> CT_Array (denotes m elem) n | Len_Other _ \<Rightarrow> CT_Blank)"
| "denotes m (Type_FnPtr args ret) = CT_Blank"
| "denotes m (Type_Paren ty) = CT_Blank"
| "denotes m (Type_Group ty) = CT_Blank"
| "denotes m (Type_Other tokens) = CT_Blank"
  by pat_completeness auto
termination
  by (relation "measure (size \<circ> snd)")
     (auto dest: unwrap_marker_size last_arguments_less intro: less_SucI split: option.splits)

text \<open>
  The types whose qualifiers are where bindgen puts them: a marker is on a pointer or on a plain name,
  and a \<open>const\<close> pointee or referent that is not a plain name carries the marker as well.
\<close>

definition is_pointer :: "rust_type \<Rightarrow> bool" where
  "is_pointer ty \<longleftrightarrow> (case ty of Type_Ptr _ _ \<Rightarrow> True | _ \<Rightarrow> False)"

function qualified_plainly :: "cpp_name_map \<Rightarrow> rust_type \<Rightarrow> bool" where
  "qualified_plainly m (Type_Path typ) =
     (case unwrap_const typ of
        Some inner \<Rightarrow> qualified_plainly m inner \<and> (is_pointer inner \<or> unqualified (denotes m inner))
      | None \<Rightarrow>
     (case unwrap_volatile typ of
        Some inner \<Rightarrow> qualified_plainly m inner \<and> (is_pointer inner \<or> unqualified (denotes m inner))
      | None \<Rightarrow>
          (case last_arguments typ of
             Some args \<Rightarrow> list_all (\<lambda>x. case x of Some gat \<Rightarrow> qualified_plainly m gat | None \<Rightarrow> True) args
           | None \<Rightarrow> True)))"
| "qualified_plainly m (Type_Reference mutability elem) =
     (is_str_path elem \<or> qualified_plainly m elem \<and> (mutability \<or> unqualified (denotes m elem)))"
| "qualified_plainly m (Type_Ptr mutability elem) =
     (qualified_plainly m elem \<and> (mutability \<or> pointee_says_const elem \<or> unqualified (denotes m elem)))"
| "qualified_plainly m (Type_Array elem len) = qualified_plainly m elem"
| "qualified_plainly m (Type_FnPtr args ret) = True"
| "qualified_plainly m (Type_Paren ty) = True"
| "qualified_plainly m (Type_Group ty) = True"
| "qualified_plainly m (Type_Other tokens) = True"
  by pat_completeness auto
termination
  by (relation "measure (size \<circ> snd)")
     (auto dest: unwrap_marker_size last_arguments_less intro: less_SucI split: option.splits)

section \<open>A spelling means what the type stands for\<close>

definition spelled_as :: "string \<Rightarrow> cpp_type \<Rightarrow> bool" where
  "spelled_as s t \<longleftrightarrow> spells s t \<and> (unqualified t \<longrightarrow> specifies s t)"

lemma spelled_as_specifies: "specifies s t \<Longrightarrow> spelled_as s t"
  by (simp add: spelled_as_def specifier)

lemma spelled_as_spells: "spells s t \<Longrightarrow> \<not> unqualified t \<Longrightarrow> spelled_as s t"
  by (simp add: spelled_as_def)

lemma not_unqualified [simp]:
  "\<not> unqualified (CT_Const t)" "\<not> unqualified (CT_Volatile t)" "\<not> unqualified (CT_Ptr t)"
  "\<not> unqualified (CT_Ref t)" "\<not> unqualified CT_Blank"
  by (simp_all add: unqualified_def)

lemma qualified_const:
  assumes "spelled_as s (denotes m inner)" and "is_pointer inner \<or> unqualified (denotes m inner)"
  shows "spelled_as (qualified_spelling ''const'' inner s) (CT_Const (denotes m inner))"
proof (cases "is_pointer inner")
  case True
  with assms show ?thesis
    by (auto simp: is_pointer_def spelled_as_def qualified_spelling_def intro: const_after
        split: rust_type.splits)
next
  case False
  with assms have "specifies (''const '' @ s) (CT_Const (denotes m inner))"
    by (intro const_before) (auto simp: spelled_as_def)
  with False show ?thesis
    by (auto simp: is_pointer_def qualified_spelling_def intro!: spelled_as_specifies split: rust_type.splits)
qed

lemma qualified_volatile:
  assumes "spelled_as s (denotes m inner)" and "is_pointer inner \<or> unqualified (denotes m inner)"
  shows "spelled_as (qualified_spelling ''volatile'' inner s) (CT_Volatile (denotes m inner))"
proof (cases "is_pointer inner")
  case True
  with assms show ?thesis
    by (auto simp: is_pointer_def spelled_as_def qualified_spelling_def intro: volatile_after
        split: rust_type.splits)
next
  case False
  with assms have "specifies (''volatile '' @ s) (CT_Volatile (denotes m inner))"
    by (intro volatile_before) (auto simp: spelled_as_def)
  with False show ?thesis
    by (auto simp: is_pointer_def qualified_spelling_def intro!: spelled_as_specifies split: rust_type.splits)
qed

lemma map_sum_Inr_iff: "map_sum id f x = Inr y \<longleftrightarrow> (\<exists>z. x = Inr z \<and> y = f z)"
  by (cases x) auto

lemma collect_spellings_all:
  assumes "collect_spellings xs = Some (Inr ss)"
  shows "list_all2 (\<lambda>x s. x = Some (Inr s)) xs ss"
  using assms
  by (induction xs arbitrary: ss) (auto split: option.splits sum.splits simp: map_sum_Inr_iff)

lemma made_const_spelling:
  assumes "spelled_as s t" and "mutable \<or> unqualified t"
  shows "spells (get_mut_string mutable @ s) (made_const mutable t)"
  using assms const_before[of s t]
  by (auto simp: made_const_def get_mut_string_def spelled_as_def unqualified_def intro: specifier split: cpp_type.splits)

lemma made_const_reference:
  "spelled_as s t \<Longrightarrow> mutable \<or> unqualified t \<Longrightarrow>
   spelled_as (get_mut_string mutable @ s @ ''&'') (CT_Ref (made_const mutable t))"
  using reference[OF made_const_spelling, of s t mutable] by (simp add: spelled_as_def)

lemma marked_pointee:
  "pointee_says_const elem \<Longrightarrow> made_const mutable (denotes m elem) = denotes m elem"
  by (auto simp: pointee_says_const_def made_const_def split: rust_type.splits)

lemma pointer_spelling:
  assumes "spelled_as s (denotes m elem)" and "mutable \<or> pointee_says_const elem \<or> unqualified (denotes m elem)"
  shows "spelled_as ((if pointee_says_const elem then '''' else get_mut_string mutable) @ s @ ''*'')
           (CT_Ptr (made_const mutable (denotes m elem)))"
proof (cases "pointee_says_const elem")
  case True
  with assms show ?thesis by (simp add: marked_pointee spelled_as_def pointer)
next
  case False
  with assms pointer[OF made_const_spelling, of s "denotes m elem" mutable] show ?thesis
    by (simp add: spelled_as_def)
qed

lemma template_spelling:
  assumes "collect_spellings (map f xs) = Some (Inr ss)"
    and "\<And>x s. x \<in> set xs \<Longrightarrow> f x = Some (Inr s) \<Longrightarrow> spells s (g x)"
  shows "spelled_as (n @ ''<'' @ join '', '' ss @ ''>'') (CT_Named n (Some (map g xs)))"
proof -
  have "list_all2 spells ss (map g xs)"
    using collect_spellings_all[OF assms(1)] assms(2)
    by (fastforce simp: list_all2_conv_all_nth)
  then show ?thesis by (intro spelled_as_specifies template)
qed

lemma type_to_cpp_spelled:
  "type_to_cpp m ty = Some (Inr s) \<Longrightarrow> qualified_plainly m ty \<Longrightarrow> spelled_as s (denotes m ty)"
proof (induction m ty arbitrary: s rule: type_to_cpp.induct)
  case (1 m tp)
  show ?case
  proof (cases "unwrap_const tp")
    case (Some inner)
    with 1 show ?thesis by (auto simp: map_sum_Inr_iff intro!: qualified_const)
  next
    case nc: None
    show ?thesis
    proof (cases "unwrap_volatile tp")
      case (Some inner)
      with 1 nc show ?thesis by (auto simp: map_sum_Inr_iff intro!: qualified_volatile)
    next
      case nv: None
      with 1 nc obtain q where q: "from_type_path tp = Some q" by (auto split: option.splits)
      show ?thesis
      proof (cases "cpp_map m q = ''Pin''")
        case True
        with "1.prems"(1) nc nv q obtain gat rest where g: "last_arguments tp = Some (Some gat # rest)"
          "type_to_cpp m gat = Some (Inr s)"
          by (auto simp: Let_def split: option.splits list.splits)
        then have "spelled_as s (denotes m gat)"
          using "1.IH"(1)[OF nc nv q refl True g(1) refl refl g(2)] "1.prems"(2) nc nv by simp
        then show ?thesis using g nc nv q True by simp
      next
        case np: False
        show ?thesis
        proof (cases "last_arguments tp")
          case None
          with "1.prems"(1) nc nv q np show ?thesis by (simp add: Let_def named spelled_as_specifies)
        next
          case (Some args)
          with "1.prems"(1) nc nv q np obtain ss where ss: "s = cpp_map m q @ ''<'' @ join '', '' ss @ ''>''"
            "collect_spellings (map (\<lambda>x. case x of Some gat \<Rightarrow> type_to_cpp m gat | None \<Rightarrow> Some (Inr '''')) args)
               = Some (Inr ss)"
            by (auto simp: Let_def map_sum_Inr_iff)
          have "spelled_as s (CT_Named (cpp_map m q)
              (Some (map (\<lambda>x. case x of Some gat \<Rightarrow> denotes m gat | None \<Rightarrow> CT_Blank) args)))"
            unfolding ss(1)
          proof (rule template_spelling[OF ss(2)])
            fix x r
            assume x: "x \<in> set args"
              "(case x of Some gat \<Rightarrow> type_to_cpp m gat | None \<Rightarrow> Some (Inr '''')) = Some (Inr r)"
            show "spells r (case x of Some gat \<Rightarrow> denotes m gat | None \<Rightarrow> CT_Blank)"
            proof (cases x)
              case None
              with x show ?thesis by (simp add: blank)
            next
              case (Some gat)
              have "qualified_plainly m gat"
                using "1.prems"(2) nc nv \<open>last_arguments tp = Some args\<close> x(1) Some by (auto simp: list_all_iff)
              then show ?thesis
                using "1.IH"(2)[OF nc nv q refl np \<open>last_arguments tp = Some args\<close> x(1) Some] x(2) Some
                by (simp add: spelled_as_def)
            qed
          qed
          then show ?thesis using Some nc nv q np by simp
        qed
      qed
    qed
  qed
next
  case (2 m mutability elem)
  then show ?case
    by (auto simp: map_sum_Inr_iff intro: spelled_as_specifies named made_const_reference split: if_splits)
next
  case (3 m mutability elem)
  from "3.prems"(1) obtain z where z: "type_to_cpp m elem = Some (Inr z)"
    "s = (if pointee_says_const elem then '''' else get_mut_string mutability) @ z @ ''*''"
    by (auto simp: map_sum_Inr_iff ptr_is_mut_def)
  with 3 show ?case unfolding z(2) denotes.simps by (intro pointer_spelling) simp_all
next
  case (4 m elem len)
  from "4.prems"(1) obtain n z where z: "len = Len_Int n" "type_to_cpp m elem = Some (Inr z)"
    "s = ''std::array<'' @ z @ '', '' @ nat_to_string n @ ''>''"
    by (auto simp: map_sum_Inr_iff split: array_length.splits)
  with 4 have "spells z (denotes m elem)" by (simp add: spelled_as_def)
  then show ?case by (simp only: z denotes.simps array_length.case) (intro spelled_as_specifies array)
qed simp_all

text \<open>
  The condition is needed. A \<^verbatim>\<open>*const\<close> whose pointee is a pointer without the marker writes its \<open>const\<close> in front
  of everything, where C++ gives it to the innermost name.
\<close>

lemma unmarked_const_lands_inside:
  assumes "type_to_cpp m (Type_Path typ) = Some (Inr s)" and "unwrap_const typ = None"
    and "unqualified (denotes m (Type_Path typ))" and "qualified_plainly m (Type_Path typ)"
  shows "type_to_cpp m (Type_Ptr False (Type_Ptr True (Type_Path typ))) = Some (Inr (''const '' @ s @ ''**''))"
    and "spells (''const '' @ s @ ''**'') (CT_Ptr (CT_Ptr (CT_Const (denotes m (Type_Path typ)))))"
    and "denotes m (Type_Ptr False (Type_Ptr True (Type_Path typ))) = CT_Ptr (CT_Const (CT_Ptr (denotes m (Type_Path typ))))"
    and "\<not> qualified_plainly m (Type_Ptr False (Type_Ptr True (Type_Path typ)))"
proof -
  have "specifies s (denotes m (Type_Path typ))"
    using type_to_cpp_spelled[OF assms(1,4)] assms(3) by (simp add: spelled_as_def)
  from pointer[OF pointer[OF specifier[OF const_before[OF this assms(3)]]]]
  show "spells (''const '' @ s @ ''**'') (CT_Ptr (CT_Ptr (CT_Const (denotes m (Type_Path typ)))))" by simp
qed (use assms in \<open>simp_all add: pointee_says_const_def get_mut_string_def ptr_is_mut_def made_const_def unqualified_def del: type_to_cpp.simps(1) denotes.simps(1) qualified_plainly.simps(1)\<close>)

section \<open>Properties\<close>

text \<open>
  C22: read back by the C++ grammar, what \<open>type_to_cpp\<close> writes is the type the Rust one stands for: a
  qualifier lands on what bindgen marked, on a pointer after it and on anything else in front of it,
  \<open>const\<close> is said once where the pointer and its pointee both say it, and a pinned type is spelled as
  what it pins, arguments of templates and elements of arrays included. That is for types qualified the way
  bindgen qualifies them, \<open>qualified_plainly\<close>: a marker is on a pointer or on a plain name, and what a
  \<^verbatim>\<open>*const\<close> or a shared reference leads to is a plain name or, for a \<^verbatim>\<open>*const\<close>, carries the \<open>const\<close> marker.
\<close>

theorem spelling_means_the_type:
  assumes "type_to_cpp m ty = Some (Inr s)" and "qualified_plainly m ty"
  shows "spells s (denotes m ty)"
  using type_to_cpp_spelled[OF assms] by (simp add: spelled_as_def)

definition nested_pointers :: rust_type where
  "nested_pointers =
     Type_Ptr False
       (Type_Path (TypePath False False [PathSegment ''__bindgen_marker_Const''
          (AngleBracketed [GenericArgument_Type
             (Type_Ptr False (Type_Path (plain_path False [''ns'', ''Outer_Inner''])))])]))"

definition nested_names :: cpp_name_map where
  "nested_names =
     \<lparr>cnm_original_names = [], cnm_unshadowing_aliases =
       [(QualifiedName [''ns''] ''Outer_Inner'',
         \<lparr>ua_tag = ''struct'', ua_original_cpp_name = ''ns::Outer::Inner'', ua_alias = ''Outer_Inner_alias''\<rparr>)]\<rparr>"

lemma nested_pointers_spelled:
  "type_to_cpp nested_names nested_pointers = Some (Inr ''const ns::Outer_Inner_alias* const*'')"
  "qualified_plainly nested_names nested_pointers"
  by code_simp+

lemma spelling_means_the_type_witness:
  "spells ''const ns::Outer_Inner_alias* const*'' (denotes nested_names nested_pointers)"
  by (rule spelling_means_the_type[OF nested_pointers_spelled])

end
