(* ===== verification/ParseCallbacks.thy ===== *)
theory ParseCallbacks imports Pod begin

text \<open>
  What bindgen reports of a header (\<^verbatim>\<open>parse_callbacks.rs\<close>): the callbacks as events that fill the
  results, the index built from them once the parse is over, and the questions the passes ask of it. An
  item is known by the number bindgen gave it. Where a walk over the modules would never end, or a
  lookup panics because no root module was reported, the value is \<open>None\<close>; the inner option is what the
  code returns.
\<close>

section \<open>Names given by their source\<close>

definition from_type_name_for_constructor :: "string \<Rightarrow> cpp_original_name" where
  "from_type_name_for_constructor name = CppOriginalName name"

definition from_data_member_name :: "string \<Rightarrow> cpp_original_name" where
  "from_data_member_name name = CppOriginalName name"

definition from_template_member_function_name :: "string \<Rightarrow> cpp_original_name" where
  "from_template_member_function_name name = CppOriginalName name"

definition from_member_function_template_name :: "string \<Rightarrow> cpp_original_name" where
  "from_member_function_template_name name = CppOriginalName name"

definition to_string_for_rust_name :: "cpp_original_name \<Rightarrow> string" where
  "to_string_for_rust_name n = original_name_string n"

definition for_validation :: "cpp_original_name \<Rightarrow> string" where
  "for_validation n = original_name_string n"

definition diagnostic_display_name :: "cpp_original_name \<Rightarrow> string" where
  "diagnostic_display_name n = original_name_string n"

definition from_function_without_a_reported_cpp_name :: "string \<Rightarrow> cpp_original_name option" where
  "from_function_without_a_reported_cpp_name name =
     (if sublist ''::'' name then None else Some (CppOriginalName name))"

definition does_not_match_cxxbridge_name :: "cpp_original_name \<Rightarrow> ident \<Rightarrow> bool" where
  "does_not_match_cxxbridge_name n cxxbridge_name \<longleftrightarrow> cxxbridge_name \<noteq> original_name_string n"

section \<open>What is reported\<close>

type_synonym discovered_item_id = nat

record alias_template_params =
  atp_declared :: nat
  atp_type_params :: nat

record template_member_signature =
  tms_arguments :: "string list"
  tms_return_type :: "string option"
  tms_is_variadic :: bool

record template_member_function =
  tmf_name :: string
  tmf_kind :: cpp_method_kind
  tmf_is_const :: bool
  tmf_visibility :: cpp_visibility
  tmf_special_member :: "special_member_kind option"
  tmf_explicitness :: "explicitness option"
  tmf_deprecation :: "string option"
  tmf_ref_qualifier :: cpp_ref_qualifier
  tmf_signature :: "template_member_signature option"

record member_function_template =
  mft_name :: string
  mft_kind :: cpp_method_kind
  mft_visibility :: cpp_visibility
  mft_template_parameters :: nat

record conversion_function =
  cvf_target_type :: string
  cvf_visibility :: cpp_visibility

record call_operator =
  co_parameters :: nat
  co_visibility :: cpp_visibility

record exception_specifications =
  es_declared :: exception_specification
  es_canonical :: exception_specification

record base_class =
  bc_name :: qualified_name
  bc_is_virtual :: bool
  bc_is_public :: bool

record base_classes =
  bcs_named :: "base_class list"
  bcs_any_unnamed :: bool
  bcs_any_virtual :: bool

record reported_base =
  rb_base :: discovered_item_id
  rb_is_virtual :: bool
  rb_is_public :: bool

record unindexed_results =
  upc_original_names :: "(discovered_item_id, cpp_original_name) index_map"
  upc_virtuals :: "(discovered_item_id, virtualness) index_map"
  upc_root_mod :: "discovered_item_id option"
  upc_visibility :: "(discovered_item_id, cpp_visibility) index_map"
  upc_special_member_kinds :: "(discovered_item_id, special_member_kind) index_map"
  upc_method_kinds :: "(discovered_item_id, cpp_method_kind) index_map"
  upc_alias_templates :: "(discovered_item_id, alias_template_params) index_map"
  upc_explicitness :: "(discovered_item_id, explicitness) index_map"
  upc_discards_template_param :: "discovered_item_id list"
  upc_scoped_enums :: "discovered_item_id list"
  upc_names :: "(discovered_item_id, string) index_map"
  upc_mods_for_items :: "(discovered_item_id, discovered_item_id) index_map"
  upc_bases :: "(discovered_item_id, reported_base list) index_map"
  upc_data_members :: "(discovered_item_id, data_member list) index_map"
  upc_deprecations :: "(discovered_item_id, string) index_map"
  upc_exception_specifications :: "(discovered_item_id, exception_specifications) index_map"
  upc_using_declarations :: "(discovered_item_id, using_declaration list) index_map"
  upc_template_member_functions :: "(discovered_item_id, template_member_function list) index_map"
  upc_member_function_templates :: "(discovered_item_id, member_function_template list) index_map"
  upc_conversion_functions :: "(discovered_item_id, conversion_function list) index_map"
  upc_call_operators :: "(discovered_item_id, call_operator list) index_map"
  upc_layouts :: "(discovered_item_id, nat \<times> nat) index_map"

definition unindexed_default :: unindexed_results where
  "unindexed_default =
     \<lparr>upc_original_names = [], upc_virtuals = [], upc_root_mod = None, upc_visibility = [],
      upc_special_member_kinds = [], upc_method_kinds = [], upc_alias_templates = [], upc_explicitness = [],
      upc_discards_template_param = [], upc_scoped_enums = [], upc_names = [], upc_mods_for_items = [],
      upc_bases = [], upc_data_members = [], upc_deprecations = [], upc_exception_specifications = [],
      upc_using_declarations = [], upc_template_member_functions = [], upc_member_function_templates = [],
      upc_conversion_functions = [], upc_call_operators = [], upc_layouts = []\<rparr>"

section \<open>The callbacks\<close>

datatype item_kind = ItemKind_Function | ItemKind_Other

definition generated_name_override :: "item_kind \<Rightarrow> string \<Rightarrow> string option" where
  "generated_name_override kind name =
     (case kind of ItemKind_Function \<Rightarrow> Some (name @ ''_bindgen_original'') | ItemKind_Other \<Rightarrow> None)"

datatype discovered_item =
    DiscoveredItem_Struct string
  | DiscoveredItem_Union string
  | DiscoveredItem_Enum string
  | DiscoveredItem_Alias string
  | DiscoveredItem_Function string
  | DiscoveredItem_Mod string "discovered_item_id option"
  | DiscoveredItem_Other

definition denote_cpp_name ::
    "discovered_item_id \<Rightarrow> string option \<Rightarrow> discovered_item_id option \<Rightarrow> unindexed_results \<Rightarrow> unindexed_results" where
  "denote_cpp_name item_id original_name namespace_mod r =
     (let r = (case original_name of
                 Some n \<Rightarrow> r\<lparr>upc_original_names :=
                     imap_insert item_id (CppOriginalName (strip_bindgen_original_suffix n)) (upc_original_names r)\<rparr>
               | None \<Rightarrow> r)
      in case namespace_mod of
           Some m \<Rightarrow> r\<lparr>upc_mods_for_items := imap_insert item_id m (upc_mods_for_items r)\<rparr>
         | None \<Rightarrow> r)"

definition note_name :: "discovered_item_id \<Rightarrow> string \<Rightarrow> unindexed_results \<Rightarrow> unindexed_results" where
  "note_name item_id final_name r = r\<lparr>upc_names := imap_insert item_id final_name (upc_names r)\<rparr>"

fun new_item_found :: "discovered_item_id \<Rightarrow> discovered_item \<Rightarrow> unindexed_results \<Rightarrow> unindexed_results" where
  "new_item_found item_id (DiscoveredItem_Function final_name) r =
     note_name item_id (strip_bindgen_original_suffix final_name) r"
| "new_item_found item_id (DiscoveredItem_Struct final_name) r = note_name item_id final_name r"
| "new_item_found item_id (DiscoveredItem_Union final_name) r = note_name item_id final_name r"
| "new_item_found item_id (DiscoveredItem_Enum final_name) r = note_name item_id final_name r"
| "new_item_found item_id (DiscoveredItem_Alias final_name) r = note_name item_id final_name r"
| "new_item_found item_id (DiscoveredItem_Mod final_name parent_id) r =
     (let r = note_name item_id final_name r in
      case parent_id of
        Some parent \<Rightarrow> r\<lparr>upc_mods_for_items := imap_insert item_id parent (upc_mods_for_items r)\<rparr>
      | None \<Rightarrow> r\<lparr>upc_root_mod := Some item_id\<rparr>)"
| "new_item_found item_id DiscoveredItem_Other r = r"

definition denote_visibility :: "discovered_item_id \<Rightarrow> cpp_visibility \<Rightarrow> unindexed_results \<Rightarrow> unindexed_results" where
  "denote_visibility item_id v r =
     (if v \<noteq> Public then r\<lparr>upc_visibility := imap_insert item_id v (upc_visibility r)\<rparr> else r)"

definition denote_using_declaration ::
    "discovered_item_id \<Rightarrow> string \<Rightarrow> string option \<Rightarrow> cpp_visibility \<Rightarrow> unindexed_results \<Rightarrow> unindexed_results" where
  "denote_using_declaration parent name source_scope v r =
     r\<lparr>upc_using_declarations := imap_push parent
         \<lparr>ud_name = name, ud_source_scope = map_option new_from_cpp_name source_scope, ud_visibility = v\<rparr>
         (upc_using_declarations r)\<rparr>"

definition denote_base_class ::
    "discovered_item_id \<Rightarrow> discovered_item_id \<Rightarrow> bool \<Rightarrow> cpp_visibility \<Rightarrow> unindexed_results \<Rightarrow> unindexed_results" where
  "denote_base_class derived base is_virtual v r =
     r\<lparr>upc_bases := imap_push derived
         \<lparr>rb_base = base, rb_is_virtual = is_virtual, rb_is_public = (v = Public)\<rparr> (upc_bases r)\<rparr>"

definition denote_template_member_function ::
    "discovered_item_id \<Rightarrow> template_member_function \<Rightarrow> unindexed_results \<Rightarrow> unindexed_results" where
  "denote_template_member_function parent member r =
     r\<lparr>upc_template_member_functions := imap_push parent
         (member\<lparr>tmf_name := strip_bindgen_original_suffix (tmf_name member)\<rparr>)
         (upc_template_member_functions r)\<rparr>"

text \<open>bindgen answers \<open>None\<close> where it could not ask clang for an initializer.\<close>

definition denote_data_member ::
    "discovered_item_id \<Rightarrow> string option \<Rightarrow> string option \<Rightarrow> bool \<Rightarrow> bool \<Rightarrow> bool \<Rightarrow> nat option \<Rightarrow> bool option \<Rightarrow>
     unindexed_results \<Rightarrow> unindexed_results" where
  "denote_data_member parent name cpp_name is_public is_const is_volatile bitfield_width has_initializer r =
     r\<lparr>upc_data_members := imap_push parent
         \<lparr>dm_name = name, dm_cpp_name = cpp_name, dm_is_public = is_public, dm_is_const = is_const,
          dm_is_volatile = is_volatile, dm_is_bitfield = (bitfield_width \<noteq> None),
          dm_has_default_member_initializer = (case has_initializer of Some b \<Rightarrow> b | None \<Rightarrow> False)\<rparr>
         (upc_data_members r)\<rparr>"

text \<open>Every callback that changes the results, as an event.\<close>

datatype bindgen_event =
    Ev_CppName discovered_item_id "string option" "discovered_item_id option"
  | Ev_Virtualness discovered_item_id virtualness
  | Ev_NewItem discovered_item_id discovered_item
  | Ev_Visibility discovered_item_id cpp_visibility
  | Ev_SpecialMember discovered_item_id special_member_kind
  | Ev_Explicit discovered_item_id explicitness
  | Ev_MethodKind discovered_item_id cpp_method_kind
  | Ev_Layout discovered_item_id "nat \<times> nat"
  | Ev_ExceptionSpecification discovered_item_id exception_specifications
  | Ev_UsingDeclaration discovered_item_id string "string option" cpp_visibility
  | Ev_Deprecation discovered_item_id string
  | Ev_AliasTemplate discovered_item_id nat nat
  | Ev_DiscardsTemplateParam discovered_item_id
  | Ev_ScopedEnum discovered_item_id
  | Ev_BaseClass discovered_item_id discovered_item_id bool cpp_visibility
  | Ev_TemplateMemberFunction discovered_item_id template_member_function
  | Ev_MemberFunctionTemplate discovered_item_id member_function_template
  | Ev_ConversionFunction discovered_item_id conversion_function
  | Ev_CallOperator discovered_item_id call_operator
  | Ev_DataMember discovered_item_id "string option" "string option" bool bool bool "nat option" "bool option"

fun callback :: "bindgen_event \<Rightarrow> unindexed_results \<Rightarrow> unindexed_results" where
  "callback (Ev_CppName item_id original_name namespace_mod) r = denote_cpp_name item_id original_name namespace_mod r"
| "callback (Ev_Virtualness item_id v) r = r\<lparr>upc_virtuals := imap_insert item_id v (upc_virtuals r)\<rparr>"
| "callback (Ev_NewItem item_id item) r = new_item_found item_id item r"
| "callback (Ev_Visibility item_id v) r = denote_visibility item_id v r"
| "callback (Ev_SpecialMember item_id kind) r =
     r\<lparr>upc_special_member_kinds := imap_insert item_id kind (upc_special_member_kinds r)\<rparr>"
| "callback (Ev_Explicit item_id e) r = r\<lparr>upc_explicitness := imap_insert item_id e (upc_explicitness r)\<rparr>"
| "callback (Ev_MethodKind item_id kind) r = r\<lparr>upc_method_kinds := imap_insert item_id kind (upc_method_kinds r)\<rparr>"
| "callback (Ev_Layout item_id layout) r = r\<lparr>upc_layouts := imap_insert item_id layout (upc_layouts r)\<rparr>"
| "callback (Ev_ExceptionSpecification item_id specifications) r =
     r\<lparr>upc_exception_specifications := imap_insert item_id specifications (upc_exception_specifications r)\<rparr>"
| "callback (Ev_UsingDeclaration parent name source_scope v) r =
     denote_using_declaration parent name source_scope v r"
| "callback (Ev_Deprecation item_id d) r = r\<lparr>upc_deprecations := imap_insert item_id d (upc_deprecations r)\<rparr>"
| "callback (Ev_AliasTemplate item_id declared type_params) r =
     r\<lparr>upc_alias_templates :=
         imap_insert item_id \<lparr>atp_declared = declared, atp_type_params = type_params\<rparr> (upc_alias_templates r)\<rparr>"
| "callback (Ev_DiscardsTemplateParam item_id) r =
     r\<lparr>upc_discards_template_param := iset_insert item_id (upc_discards_template_param r)\<rparr>"
| "callback (Ev_ScopedEnum item_id) r = r\<lparr>upc_scoped_enums := iset_insert item_id (upc_scoped_enums r)\<rparr>"
| "callback (Ev_BaseClass derived base is_virtual v) r = denote_base_class derived base is_virtual v r"
| "callback (Ev_TemplateMemberFunction parent member) r = denote_template_member_function parent member r"
| "callback (Ev_MemberFunctionTemplate parent member) r =
     r\<lparr>upc_member_function_templates := imap_push parent member (upc_member_function_templates r)\<rparr>"
| "callback (Ev_ConversionFunction parent function) r =
     r\<lparr>upc_conversion_functions := imap_push parent function (upc_conversion_functions r)\<rparr>"
| "callback (Ev_CallOperator parent operator) r =
     r\<lparr>upc_call_operators := imap_push parent operator (upc_call_operators r)\<rparr>"
| "callback (Ev_DataMember parent name cpp_name is_public is_const is_volatile bitfield_width init) r =
     denote_data_member parent name cpp_name is_public is_const is_volatile bitfield_width init r"

section \<open>The index\<close>

partial_function (option) enclosing_segments ::
    "unindexed_results \<Rightarrow> discovered_item_id \<Rightarrow> discovered_item_id \<Rightarrow> string list \<Rightarrow> string list option option" where
  [code]: "enclosing_segments r root parent segs =
     (if parent = root then Some (Some segs)
      else case map_of (upc_names r) parent of
             None \<Rightarrow> Some None
           | Some name \<Rightarrow>
               (case map_of (upc_mods_for_items r) parent of
                  None \<Rightarrow> Some None
                | Some outer \<Rightarrow> enclosing_segments r root outer (segs @ [name])))"

definition qualified_name_of :: "unindexed_results \<Rightarrow> discovered_item_id \<Rightarrow> qualified_name option option" where
  "qualified_name_of r item_id =
     (case (map_of (upc_names r) item_id, upc_root_mod r, map_of (upc_mods_for_items r) item_id) of
        (Some name, Some root, Some parent) \<Rightarrow>
          map_option (map_option (\<lambda>segs.
              QualifiedName_new (fold (\<lambda>segment ns. Namespace_push ns segment) (rev segs) Namespace_new)
                (make_ident name)))
            (enclosing_segments r root parent [])
      | _ \<Rightarrow> Some None)"

type_synonym name_and_parent = "discovered_item_id \<times> string"

record parse_callback_results =
  pcr_results :: unindexed_results
  pcr_exception_specifications_are_part_of_the_type :: bool
  pcr_index :: "(name_and_parent, discovered_item_id) index_map"
  pcr_bases :: "(qualified_name, base_classes) index_map"
  pcr_using_declarations :: "(qualified_name, using_declaration list) index_map"
  pcr_template_member_functions :: "(qualified_name, template_member_function list) index_map"
  pcr_member_function_templates :: "(qualified_name, member_function_template list) index_map"
  pcr_conversion_functions :: "(qualified_name, conversion_function list) index_map"
  pcr_call_operators :: "(qualified_name, call_operator list) index_map"

definition specification_was_dropped :: "unindexed_results \<Rightarrow> bool" where
  "specification_was_dropped r \<longleftrightarrow>
     list_ex (\<lambda>(item_id, specifications).
         es_declared specifications \<in> {BasicNoexcept, DynamicNone, NoThrow} \<and>
         es_canonical specifications = ExSpec_None) (upc_exception_specifications r)"

definition index_item ::
    "unindexed_results \<Rightarrow> discovered_item_id \<times> discovered_item_id \<Rightarrow>
     (name_and_parent, discovered_item_id) index_map \<Rightarrow> (name_and_parent, discovered_item_id) index_map" where
  "index_item r = (\<lambda>(item_id, parent) m.
     case map_of (upc_names r) item_id of Some name \<Rightarrow> imap_insert (parent, name) item_id m | None \<Rightarrow> m)"

definition names_by_parent :: "unindexed_results \<Rightarrow> (name_and_parent, discovered_item_id) index_map" where
  "names_by_parent r = fold (index_item r) (upc_mods_for_items r) []"

fun collect_bases :: "unindexed_results \<Rightarrow> reported_base list \<Rightarrow> base_classes \<Rightarrow> base_classes option" where
  "collect_bases r [] bases = Some bases"
| "collect_bases r (base # rest) bases =
     (let bases = bases\<lparr>bcs_any_virtual := bcs_any_virtual bases \<or> rb_is_virtual base\<rparr> in
      case qualified_name_of r (rb_base base) of
        None \<Rightarrow> None
      | Some None \<Rightarrow> collect_bases r rest (bases\<lparr>bcs_any_unnamed := True\<rparr>)
      | Some (Some name) \<Rightarrow>
          collect_bases r rest (bases\<lparr>bcs_named := bcs_named bases @
            [\<lparr>bc_name = name, bc_is_virtual = rb_is_virtual base, bc_is_public = rb_is_public base\<rparr>]\<rparr>))"

fun index_bases ::
    "unindexed_results \<Rightarrow> (discovered_item_id, reported_base list) index_map \<Rightarrow>
     (qualified_name, base_classes) index_map \<Rightarrow> (qualified_name, base_classes) index_map option" where
  "index_bases r [] m = Some m"
| "index_bases r ((derived, reported_bases) # rest) m =
     (case collect_bases r reported_bases \<lparr>bcs_named = [], bcs_any_unnamed = False, bcs_any_virtual = False\<rparr> of
        None \<Rightarrow> None
      | Some bases \<Rightarrow>
          (case qualified_name_of r derived of
             None \<Rightarrow> None
           | Some None \<Rightarrow> index_bases r rest m
           | Some (Some name) \<Rightarrow> index_bases r rest (imap_insert name bases m)))"

fun by_qualified_name ::
    "unindexed_results \<Rightarrow> (discovered_item_id, 'a) index_map \<Rightarrow> (qualified_name, 'a) index_map \<Rightarrow>
     (qualified_name, 'a) index_map option" where
  "by_qualified_name r [] m = Some m"
| "by_qualified_name r ((item_id, v) # rest) m =
     (case qualified_name_of r item_id of
        None \<Rightarrow> None
      | Some None \<Rightarrow> by_qualified_name r rest m
      | Some (Some name) \<Rightarrow> by_qualified_name r rest (imap_insert name v m))"

definition index_results :: "unindexed_results \<Rightarrow> bool \<Rightarrow> parse_callback_results option" where
  "index_results r arguments_say_specifications_are_part_of_the_type =
     Option.bind (index_bases r (upc_bases r) []) (\<lambda>bases.
     Option.bind (by_qualified_name r (upc_using_declarations r) []) (\<lambda>using_declarations.
     Option.bind (by_qualified_name r (upc_template_member_functions r) []) (\<lambda>template_member_functions.
     Option.bind (by_qualified_name r (upc_member_function_templates r) []) (\<lambda>member_function_templates.
     Option.bind (by_qualified_name r (upc_conversion_functions r) []) (\<lambda>conversion_functions.
     Option.bind (by_qualified_name r (upc_call_operators r) []) (\<lambda>call_operators.
       Some \<lparr>pcr_results = r,
             pcr_exception_specifications_are_part_of_the_type =
               (arguments_say_specifications_are_part_of_the_type \<and> \<not> specification_was_dropped r),
             pcr_index = names_by_parent r, pcr_bases = bases, pcr_using_declarations = using_declarations,
             pcr_template_member_functions = template_member_functions,
             pcr_member_function_templates = member_function_templates,
             pcr_conversion_functions = conversion_functions, pcr_call_operators = call_operators\<rparr>))))))"

definition resolve_exception_specification :: "exception_specifications \<Rightarrow> bool \<Rightarrow> exception_specification" where
  "resolve_exception_specification specifications part_of_the_type =
     (if es_declared specifications = ComputedNoexcept \<and> part_of_the_type then es_canonical specifications
      else es_declared specifications)"

section \<open>The questions\<close>

definition get_item_by_parentage :: "parse_callback_results \<Rightarrow> name_and_parent \<Rightarrow> discovered_item_id option" where
  "get_item_by_parentage p search_key = map_of (pcr_index p) search_key"

fun mod_id_by_inner_namespace ::
    "parse_callback_results \<Rightarrow> discovered_item_id \<Rightarrow> string list \<Rightarrow> discovered_item_id option" where
  "mod_id_by_inner_namespace p parent [] = Some parent"
| "mod_id_by_inner_namespace p parent (child_mod_name # ns) =
     (case get_item_by_parentage p (parent, child_mod_name) of
        None \<Rightarrow> None
      | Some child_mod_id \<Rightarrow> mod_id_by_inner_namespace p child_mod_id ns)"

definition mod_id_by_namespace :: "parse_callback_results \<Rightarrow> namespace \<Rightarrow> discovered_item_id option option" where
  "mod_id_by_namespace p ns =
     map_option (\<lambda>root. mod_id_by_inner_namespace p root ns) (upc_root_mod (pcr_results p))"

definition id_by_name :: "parse_callback_results \<Rightarrow> qualified_name \<Rightarrow> discovered_item_id option option" where
  "id_by_name p name =
     map_option (\<lambda>parent. Option.bind parent (\<lambda>parent. get_item_by_parentage p (parent, get_final_item name)))
       (mod_id_by_namespace p (get_namespace name))"

definition looked_up ::
    "parse_callback_results \<Rightarrow> (unindexed_results \<Rightarrow> (discovered_item_id, 'a) index_map) \<Rightarrow> qualified_name \<Rightarrow>
     'a option option" where
  "looked_up p table name =
     map_option (\<lambda>item_id. Option.bind item_id (map_of (table (pcr_results p)))) (id_by_name p name)"

definition get_fn_original_name :: "parse_callback_results \<Rightarrow> qualified_name \<Rightarrow> cpp_original_name option option" where
  "get_fn_original_name p name = looked_up p upc_original_names name"

definition get_original_name :: "parse_callback_results \<Rightarrow> qualified_name \<Rightarrow> cpp_original_name option option" where
  "get_original_name p name = looked_up p upc_original_names name"

definition get_virtualness :: "parse_callback_results \<Rightarrow> qualified_name \<Rightarrow> virtualness option option" where
  "get_virtualness p name = looked_up p upc_virtuals name"

definition get_cpp_visibility :: "parse_callback_results \<Rightarrow> qualified_name \<Rightarrow> cpp_visibility option" where
  "get_cpp_visibility p name =
     map_option (\<lambda>v. case v of Some v \<Rightarrow> v | None \<Rightarrow> Public) (looked_up p upc_visibility name)"

definition get_special_member_kind ::
    "parse_callback_results \<Rightarrow> qualified_name \<Rightarrow> special_member_kind option option" where
  "get_special_member_kind p name = looked_up p upc_special_member_kinds name"

definition get_method_kind :: "parse_callback_results \<Rightarrow> qualified_name \<Rightarrow> cpp_method_kind option option" where
  "get_method_kind p name = looked_up p upc_method_kinds name"

definition get_exception_specification ::
    "parse_callback_results \<Rightarrow> qualified_name \<Rightarrow> exception_specification option" where
  "get_exception_specification p name =
     map_option
       (\<lambda>s. case s of
              Some specifications \<Rightarrow>
                resolve_exception_specification specifications (pcr_exception_specifications_are_part_of_the_type p)
            | None \<Rightarrow> ExSpec_None)
       (looked_up p upc_exception_specifications name)"

definition get_deprecation :: "parse_callback_results \<Rightarrow> qualified_name \<Rightarrow> string option option" where
  "get_deprecation p name = looked_up p upc_deprecations name"

definition get_deleted_or_defaulted :: "parse_callback_results \<Rightarrow> qualified_name \<Rightarrow> explicitness option option" where
  "get_deleted_or_defaulted p name = looked_up p upc_explicitness name"

definition alias_template_params_of ::
    "parse_callback_results \<Rightarrow> qualified_name \<Rightarrow> alias_template_params option option" where
  "alias_template_params_of p name = looked_up p upc_alias_templates name"

definition data_members :: "parse_callback_results \<Rightarrow> qualified_name \<Rightarrow> data_member list option option" where
  "data_members p name = looked_up p upc_data_members name"

definition get_layout :: "parse_callback_results \<Rightarrow> qualified_name \<Rightarrow> (nat \<times> nat) option option" where
  "get_layout p name = looked_up p upc_layouts name"

definition discards_template_param :: "parse_callback_results \<Rightarrow> qualified_name \<Rightarrow> bool option" where
  "discards_template_param p name =
     map_option (\<lambda>item_id. case item_id of Some item_id \<Rightarrow> item_id \<in> set (upc_discards_template_param (pcr_results p)) | None \<Rightarrow> False)
       (id_by_name p name)"

definition is_scoped_enum :: "parse_callback_results \<Rightarrow> qualified_name \<Rightarrow> bool option" where
  "is_scoped_enum p name =
     map_option (\<lambda>item_id. case item_id of Some item_id \<Rightarrow> item_id \<in> set (upc_scoped_enums (pcr_results p)) | None \<Rightarrow> False)
       (id_by_name p name)"

definition get_bases :: "parse_callback_results \<Rightarrow> qualified_name \<Rightarrow> base_classes option" where
  "get_bases p name = map_of (pcr_bases p) name"

definition types_inheriting_virtually :: "parse_callback_results \<Rightarrow> qualified_name list" where
  "types_inheriting_virtually p = map fst (filter (\<lambda>(name, bases). bcs_any_virtual bases) (pcr_bases p))"

definition types_with_bases :: "parse_callback_results \<Rightarrow> qualified_name list" where
  "types_with_bases p =
     map fst (filter (\<lambda>(name, bases). bcs_named bases \<noteq> [] \<or> bcs_any_unnamed bases) (pcr_bases p))"

definition or_empty :: "'a list option \<Rightarrow> 'a list" where
  "or_empty v = (case v of Some xs \<Rightarrow> xs | None \<Rightarrow> [])"

definition get_using_declarations :: "parse_callback_results \<Rightarrow> qualified_name \<Rightarrow> using_declaration list" where
  "get_using_declarations p name = or_empty (map_of (pcr_using_declarations p) name)"

definition get_template_member_functions ::
    "parse_callback_results \<Rightarrow> qualified_name \<Rightarrow> template_member_function list" where
  "get_template_member_functions p name = or_empty (map_of (pcr_template_member_functions p) name)"

definition get_member_function_templates ::
    "parse_callback_results \<Rightarrow> qualified_name \<Rightarrow> member_function_template list" where
  "get_member_function_templates p name = or_empty (map_of (pcr_member_function_templates p) name)"

definition get_conversion_functions :: "parse_callback_results \<Rightarrow> qualified_name \<Rightarrow> conversion_function list" where
  "get_conversion_functions p name = or_empty (map_of (pcr_conversion_functions p) name)"

definition get_call_operators :: "parse_callback_results \<Rightarrow> qualified_name \<Rightarrow> call_operator list" where
  "get_call_operators p name = or_empty (map_of (pcr_call_operators p) name)"

section \<open>The order of the reports\<close>

text \<open>
  The order bindgen's code generation gives its reports: the root module first and once, a module after
  the one it is in, and an item placed in a module already reported. The set is that of the modules.
\<close>

fun places_items :: "bindgen_event \<Rightarrow> bool" where
  "places_items (Ev_CppName i n m) = True"
| "places_items (Ev_NewItem i item) = True"
| "places_items ev = False"

fun is_mod_item :: "discovered_item \<Rightarrow> bool" where
  "is_mod_item (DiscoveredItem_Mod n p) = True"
| "is_mod_item item = False"

inductive reported_in_order :: "discovered_item_id set \<Rightarrow> unindexed_results \<Rightarrow> bool" where
  nothing_yet: "reported_in_order {} unindexed_default"
| root_mod: "reported_in_order {} r \<Longrightarrow>
    reported_in_order {i} (callback (Ev_NewItem i (DiscoveredItem_Mod n None)) r)"
| inner_mod: "reported_in_order mods r \<Longrightarrow> parent \<in> mods \<Longrightarrow> i \<notin> mods \<Longrightarrow>
    reported_in_order (insert i mods) (callback (Ev_NewItem i (DiscoveredItem_Mod n (Some parent))) r)"
| found: "reported_in_order mods r \<Longrightarrow> i \<notin> mods \<Longrightarrow> \<not> is_mod_item item \<Longrightarrow>
    reported_in_order mods (callback (Ev_NewItem i item) r)"
| placed: "reported_in_order mods r \<Longrightarrow> i \<notin> mods \<Longrightarrow> (\<And>m. namespace_mod = Some m \<Longrightarrow> m \<in> mods) \<Longrightarrow>
    reported_in_order mods (callback (Ev_CppName i n namespace_mod) r)"
| told: "reported_in_order mods r \<Longrightarrow> \<not> places_items ev \<Longrightarrow> reported_in_order mods (callback ev r)"

text \<open>What the order keeps: enclosing modules go down in some rank, and only the root is in none.\<close>

definition well_placed :: "discovered_item_id set \<Rightarrow> unindexed_results \<Rightarrow> bool" where
  "well_placed mods r \<longleftrightarrow>
     imap_wf (upc_mods_for_items r) \<and>
     (\<forall>i p. map_of (upc_mods_for_items r) i = Some p \<longrightarrow> p \<in> mods) \<and>
     (\<exists>rank :: nat \<Rightarrow> nat. \<forall>i p. map_of (upc_mods_for_items r) i = Some p \<longrightarrow> rank p < rank i) \<and>
     (mods = {} \<longleftrightarrow> upc_root_mod r = None) \<and>
     (\<forall>root. upc_root_mod r = Some root \<longrightarrow> root \<in> mods \<and> map_of (upc_mods_for_items r) root = None) \<and>
     (\<forall>m \<in> mods. map_of (upc_names r) m \<noteq> None \<and>
        (upc_root_mod r \<noteq> Some m \<longrightarrow> map_of (upc_mods_for_items r) m \<noteq> None))"

lemma callback_told:
  "\<not> places_items ev \<Longrightarrow>
   upc_mods_for_items (callback ev r) = upc_mods_for_items r \<and>
   upc_names (callback ev r) = upc_names r \<and> upc_root_mod (callback ev r) = upc_root_mod r"
  by (cases ev) (simp_all add: denote_visibility_def denote_using_declaration_def denote_base_class_def
      denote_template_member_function_def denote_data_member_def)

lemma new_item_found_fields:
  "\<not> is_mod_item item \<Longrightarrow>
   upc_mods_for_items (new_item_found i item r) = upc_mods_for_items r \<and>
   upc_root_mod (new_item_found i item r) = upc_root_mod r \<and>
   (\<forall>m. m \<noteq> i \<longrightarrow> map_of (upc_names (new_item_found i item r)) m = map_of (upc_names r) m)"
  by (cases item) (simp_all add: note_name_def)

text \<open>An item in no module's place may be put into one: it encloses nothing, so it may rank above it.\<close>

lemma rank_extended:
  assumes "\<forall>i p. m i = Some p \<longrightarrow> rank p < (rank i :: nat)" and "\<forall>j p. m j = Some p \<longrightarrow> p \<noteq> i"
    and "parent \<noteq> i"
  shows "\<exists>rank' :: _ \<Rightarrow> nat. \<forall>j p. (m(i \<mapsto> parent)) j = Some p \<longrightarrow> rank' p < rank' j"
proof (intro exI allI impI)
  fix j p
  assume "(m(i \<mapsto> parent)) j = Some p"
  with assms show "(rank(i := Suc (rank parent))) p < (rank(i := Suc (rank parent))) j"
    by (auto split: if_splits)
qed

lemma well_placed_insert:
  assumes "well_placed mods r" and "parent \<in> mods" and "i \<notin> mods"
    and "upc_mods_for_items r' = imap_insert i parent (upc_mods_for_items r)"
    and "upc_root_mod r' = upc_root_mod r"
    and "\<forall>m. m \<noteq> i \<longrightarrow> map_of (upc_names r') m = map_of (upc_names r) m"
  shows "well_placed mods r'" and "map_of (upc_names r') i \<noteq> None \<Longrightarrow> well_placed (insert i mods) r'"
proof -
  from assms(1) obtain rank :: "nat \<Rightarrow> nat" where
    rank: "\<forall>i p. map_of (upc_mods_for_items r) i = Some p \<longrightarrow> rank p < rank i"
    by (auto simp: well_placed_def)
  have "\<forall>j p. map_of (upc_mods_for_items r) j = Some p \<longrightarrow> p \<noteq> i"
    using assms(1,3) unfolding well_placed_def by blast
  moreover have "parent \<noteq> i" using assms(2,3) by blast
  ultimately have rank': "\<exists>rank' :: nat \<Rightarrow> nat.
      \<forall>j p. map_of (upc_mods_for_items r') j = Some p \<longrightarrow> rank' p < rank' j"
    using rank_extended[OF rank, of i parent] by (simp add: assms(4) update_conv')
  have root: "upc_root_mod r \<noteq> Some i" using assms(1,3) by (auto simp: well_placed_def)
  show "well_placed mods r'"
    unfolding well_placed_def assms(4,5) using rank' assms root unfolding well_placed_def by auto
  then show "well_placed (insert i mods) r'" if "map_of (upc_names r') i \<noteq> None"
    using that assms root unfolding well_placed_def by auto
qed

lemma well_placed_same:
  assumes "well_placed mods r" and "upc_mods_for_items r' = upc_mods_for_items r"
    and "upc_root_mod r' = upc_root_mod r"
    and "\<forall>m \<in> mods. map_of (upc_names r') m = map_of (upc_names r) m"
  shows "well_placed mods r'"
  using assms unfolding well_placed_def by (simp del: map_of_eq_Some_iff)

lemma in_order_well_placed: "reported_in_order mods r \<Longrightarrow> well_placed mods r"
proof (induction rule: reported_in_order.induct)
  case nothing_yet
  show ?case by (simp add: well_placed_def unindexed_default_def)
next
  case (root_mod r i n)
  then have "map_of (upc_mods_for_items r) = Map.empty" by (intro ext) (auto simp: well_placed_def)
  then have "upc_mods_for_items r = []" by simp
  then show ?case by (simp add: well_placed_def note_name_def)
next
  case (inner_mod mods r parent i n)
  show ?case
    by (rule well_placed_insert(2)[OF inner_mod.IH inner_mod.hyps(2,3)]) (simp_all add: note_name_def)
next
  case (found mods r i item)
  show ?case
    by (rule well_placed_same[OF found.IH]) (use found.hyps new_item_found_fields[of item i r] in auto)
next
  case (placed mods r i namespace_mod n)
  show ?case
  proof (cases namespace_mod)
    case None
    show ?thesis
      by (rule well_placed_same[OF placed.IH]) (simp_all add: None denote_cpp_name_def split: option.splits)
  next
    case (Some m)
    show ?thesis
      by (rule well_placed_insert(1)[OF placed.IH placed.hyps(3)[OF Some] placed.hyps(2)])
         (simp_all add: Some denote_cpp_name_def split: option.splits)
  qed
next
  case (told mods r ev)
  show ?case by (rule well_placed_same[OF told.IH]) (simp_all add: callback_told[OF told.hyps(2)])
qed

section \<open>Walks over the modules\<close>

fun located :: "unindexed_results \<Rightarrow> discovered_item_id \<Rightarrow> string list \<Rightarrow> discovered_item_id \<Rightarrow> bool" where
  "located r root [] i \<longleftrightarrow> i = root"
| "located r root (segment # outer) i \<longleftrightarrow>
     i \<noteq> root \<and> map_of (upc_names r) i = Some segment \<and>
     (\<exists>p. map_of (upc_mods_for_items r) i = Some p \<and> located r root outer p)"

definition walk_result :: "unindexed_results \<Rightarrow> discovered_item_id \<Rightarrow> discovered_item_id \<Rightarrow> string list \<Rightarrow>
    string list option \<Rightarrow> bool" where
  "walk_result r root i segs res \<longleftrightarrow>
     (case res of Some out \<Rightarrow> \<exists>ms. out = segs @ ms \<and> located r root ms i | None \<Rightarrow> \<nexists>ms. located r root ms i)"

lemma not_located:
  assumes "i \<noteq> root" and "map_of (upc_names r) i = None \<or> map_of (upc_mods_for_items r) i = None"
  shows "\<not> located r root ms i"
  using assms by (cases ms) auto

lemma located_step:
  assumes "i \<noteq> root" and "map_of (upc_names r) i = Some name" and "map_of (upc_mods_for_items r) i = Some outer"
  shows "located r root ms i \<longleftrightarrow> (\<exists>rest. ms = name # rest \<and> located r root rest outer)"
  using assms by (cases ms) auto

lemma enclosing_segments_sound:
  assumes "enclosing_segments r root i segs = Some res"
  shows "walk_result r root i segs res"
proof (rule enclosing_segments.raw_induct[OF _ assms, of walk_result])
  fix walk r root i segs res
  assume IH: "\<And>r root i segs res. walk r root i segs = Some res \<Longrightarrow> walk_result r root i segs res"
  assume body: "(if i = root then Some (Some segs)
      else case map_of (upc_names r) i of
             None \<Rightarrow> Some None
           | Some name \<Rightarrow>
               (case map_of (upc_mods_for_items r) i of
                  None \<Rightarrow> Some None
                | Some outer \<Rightarrow> walk r root outer (segs @ [name]))) = Some res"
  show "walk_result r root i segs res"
  proof (cases "i = root \<or> map_of (upc_names r) i = None \<or> map_of (upc_mods_for_items r) i = None")
    case True
    then show ?thesis
    proof (cases "i = root")
      case True
      with body show ?thesis by (auto simp: walk_result_def intro!: exI[of _ "[]"])
    next
      case False
      with True body not_located[OF False] show ?thesis
        by (auto simp: walk_result_def split: option.splits)
    qed
  next
    case False
    then obtain name outer where at: "i \<noteq> root" "map_of (upc_names r) i = Some name"
      "map_of (upc_mods_for_items r) i = Some outer" by auto
    with body have "walk r root outer (segs @ [name]) = Some res" by simp
    from IH[OF this] show ?thesis
      unfolding walk_result_def located_step[OF at] by (cases res) auto
  qed
qed

lemma enclosing_segments_complete:
  "located r root ms i \<Longrightarrow> enclosing_segments r root i segs = Some (Some (segs @ ms))"
proof (induction ms arbitrary: i segs)
  case Nil
  then show ?case by (subst enclosing_segments.simps) simp
next
  case (Cons s ms)
  then show ?case by (subst enclosing_segments.simps) auto
qed

lemma walk_ends:
  fixes rank :: "discovered_item_id \<Rightarrow> nat"
  assumes "\<forall>i p. map_of (upc_mods_for_items r) i = Some p \<longrightarrow> rank p < rank i"
  shows "enclosing_segments r root i segs \<noteq> None"
proof (induction i arbitrary: segs rule: measure_induct_rule[of rank])
  case (less i)
  show ?case
    by (subst enclosing_segments.simps) (use less assms in \<open>auto split: option.splits\<close>)
qed

lemma push_all: "fold (\<lambda>segment ns. Namespace_push ns segment) segs ns = ns @ segs"
  by (induction segs arbitrary: ns) (simp_all add: Namespace_push_def)

lemma qualified_name_of_iff:
  "qualified_name_of r i = Some (Some q) \<longleftrightarrow>
     (\<exists>root parent. upc_root_mod r = Some root \<and> map_of (upc_names r) i = Some (get_final_item q) \<and>
        map_of (upc_mods_for_items r) i = Some parent \<and> located r root (rev (get_namespace q)) parent)"
proof
  assume "qualified_name_of r i = Some (Some q)"
  then obtain name root parent segs where at: "map_of (upc_names r) i = Some name" "upc_root_mod r = Some root"
    "map_of (upc_mods_for_items r) i = Some parent"
    and walk: "enclosing_segments r root parent [] = Some (Some segs)"
    and q: "q = QualifiedName (rev segs) name"
    by (auto simp: qualified_name_of_def push_all QualifiedName_new_def Namespace_new_def make_ident_def
        split: option.splits)
  from enclosing_segments_sound[OF walk] have "located r root segs parent" by (simp add: walk_result_def)
  with at q show "\<exists>root parent. upc_root_mod r = Some root \<and> map_of (upc_names r) i = Some (get_final_item q) \<and>
        map_of (upc_mods_for_items r) i = Some parent \<and> located r root (rev (get_namespace q)) parent" by auto
next
  assume "\<exists>root parent. upc_root_mod r = Some root \<and> map_of (upc_names r) i = Some (get_final_item q) \<and>
        map_of (upc_mods_for_items r) i = Some parent \<and> located r root (rev (get_namespace q)) parent"
  then show "qualified_name_of r i = Some (Some q)"
    using enclosing_segments_complete[of r _ "rev (get_namespace q)" _ "[]"]
    by (cases q) (auto simp: qualified_name_of_def push_all QualifiedName_new_def Namespace_new_def make_ident_def)
qed

lemma naming_ends:
  assumes "well_placed mods r"
  shows "qualified_name_of r i \<noteq> None"
  using assms walk_ends[of r] by (auto simp: well_placed_def qualified_name_of_def split: option.splits)

section \<open>Indexing ends\<close>

lemma by_qualified_name_ends:
  assumes "\<And>i. qualified_name_of r i \<noteq> None"
  shows "\<exists>m'. by_qualified_name r entries m = Some m'"
proof (induction entries arbitrary: m)
  case (Cons e entries)
  obtain i v where e: "e = (i, v)" by (cases e)
  from assms[of i] obtain n where "qualified_name_of r i = Some n" by auto
  with Cons.IH e show ?case by (cases n) auto
qed simp

lemma collect_bases_ends:
  assumes "\<And>i. qualified_name_of r i \<noteq> None"
  shows "\<exists>b. collect_bases r reported_bases bases = Some b"
proof (induction reported_bases arbitrary: bases)
  case (Cons base rest)
  from assms[of "rb_base base"] obtain n where "qualified_name_of r (rb_base base) = Some n" by auto
  with Cons.IH show ?case by (cases n) (auto simp: Let_def)
qed simp

lemma index_bases_ends:
  assumes "\<And>i. qualified_name_of r i \<noteq> None"
  shows "\<exists>m'. index_bases r entries m = Some m'"
proof (induction entries arbitrary: m)
  case (Cons e entries)
  obtain i v where e: "e = (i, v)" by (cases e)
  from assms[of i] obtain n where "qualified_name_of r i = Some n" by auto
  moreover from collect_bases_ends[OF assms] obtain b where
    "collect_bases r v \<lparr>bcs_named = [], bcs_any_unnamed = False, bcs_any_virtual = False\<rparr> = Some b" by blast
  ultimately show ?case using Cons.IH e by (cases n) auto
qed simp

section \<open>The index and the names\<close>

lemma names_by_parent_entries:
  "map_of (fold (index_item r) entries m) (p, s) = Some i \<Longrightarrow>
     (i, p) \<in> set entries \<and> map_of (upc_names r) i = Some s \<or> map_of m (p, s) = Some i"
proof (induction entries arbitrary: m)
  case (Cons e entries)
  from Cons.IH[of "index_item r e m"] Cons.prems show ?case
    by (cases e) (auto simp: index_item_def split: option.splits if_splits)
qed simp

lemma names_by_parent_kept:
  "map_of m k \<noteq> None \<Longrightarrow> map_of (fold (index_item r) entries m) k \<noteq> None"
proof (induction entries arbitrary: m)
  case (Cons e entries)
  from Cons.prems have "map_of (index_item r e m) k \<noteq> None"
    by (cases e) (auto simp: index_item_def split: option.splits)
  from Cons.IH[OF this] show ?case by simp
qed simp

lemma names_by_parent_present:
  "(i, p) \<in> set entries \<Longrightarrow> map_of (upc_names r) i = Some s \<Longrightarrow>
   map_of (fold (index_item r) entries m) (p, s) \<noteq> None"
proof (induction entries arbitrary: m)
  case (Cons e entries)
  show ?case
  proof (cases "e = (i, p)")
    case True
    with Cons.prems(2) have "map_of (index_item r e m) (p, s) \<noteq> None" by (simp add: index_item_def)
    from names_by_parent_kept[OF this] show ?thesis by simp
  next
    case False
    with Cons show ?thesis by simp
  qed
qed simp

lemma names_by_parent_sound:
  assumes "imap_wf (upc_mods_for_items r)" and "map_of (names_by_parent r) (p, s) = Some i"
  shows "map_of (upc_mods_for_items r) i = Some p" and "map_of (upc_names r) i = Some s"
  using names_by_parent_entries[of r "upc_mods_for_items r" "[]" p s i] assms
  by (auto simp: names_by_parent_def)

lemma names_by_parent_complete:
  assumes "map_of (upc_mods_for_items r) i = Some p" and "map_of (upc_names r) i = Some s"
  obtains j where "map_of (names_by_parent r) (p, s) = Some j"
  using names_by_parent_present[OF map_of_SomeD[OF assms(1)] assms(2), of "[]"]
  by (auto simp: names_by_parent_def)

lemma index_results_index:
  assumes "index_results r b = Some p"
  shows "pcr_results p = r" and "pcr_index p = names_by_parent r"
  using assms by (auto simp: index_results_def bind_eq_Some_conv)

text \<open>No item of a module has the name of a module that is in it too.\<close>

definition modules_unambiguous :: "discovered_item_id set \<Rightarrow> unindexed_results \<Rightarrow> bool" where
  "modules_unambiguous mods r \<longleftrightarrow>
     (\<forall>m \<in> mods. \<forall>j p. map_of (upc_mods_for_items r) m = Some p \<and> map_of (upc_mods_for_items r) j = Some p \<and>
        map_of (upc_names r) j = map_of (upc_names r) m \<longrightarrow> j = m)"

lemma mod_id_snoc:
  "mod_id_by_inner_namespace p parent (ns @ [s]) =
     Option.bind (mod_id_by_inner_namespace p parent ns) (\<lambda>m. get_item_by_parentage p (m, s))"
  by (induction ns arbitrary: parent) (auto split: option.splits)

lemma found_is_located:
  assumes "well_placed mods r" and "upc_root_mod r = Some root" and "pcr_index p = names_by_parent r"
    and "mod_id_by_inner_namespace p root ns = Some i"
  shows "located r root (rev ns) i"
  using assms(4)
proof (induction ns arbitrary: i rule: rev_induct)
  case (snoc s ns)
  then obtain m where m: "mod_id_by_inner_namespace p root ns = Some m" "map_of (names_by_parent r) (m, s) = Some i"
    by (auto simp: mod_id_snoc get_item_by_parentage_def assms(3) bind_eq_Some_conv)
  moreover have "imap_wf (upc_mods_for_items r)" "map_of (upc_mods_for_items r) root = None"
    using assms(1,2) by (auto simp: well_placed_def)
  ultimately show ?case
    using names_by_parent_sound[of r m s i] snoc.IH[of m] by auto
qed simp

lemma located_is_found:
  assumes "well_placed mods r" and "upc_root_mod r = Some root" and "pcr_index p = names_by_parent r"
    and "modules_unambiguous mods r" and "i \<in> mods" and "located r root ms i"
  shows "mod_id_by_inner_namespace p root (rev ms) = Some i"
  using assms(5,6)
proof (induction ms arbitrary: i)
  case (Cons s ms)
  then obtain m where m: "map_of (upc_names r) i = Some s" "map_of (upc_mods_for_items r) i = Some m"
    "located r root ms m" by auto
  from m(2) assms(1) have "m \<in> mods" by (auto simp: well_placed_def)
  with Cons.IH m(3) have found: "mod_id_by_inner_namespace p root (rev ms) = Some m" by blast
  from names_by_parent_complete[OF m(2,1)] obtain j where j: "map_of (names_by_parent r) (m, s) = Some j" .
  have "imap_wf (upc_mods_for_items r)" using assms(1) by (simp add: well_placed_def)
  from names_by_parent_sound[OF this j] m Cons.prems(1) assms(4) have "j = i"
    unfolding modules_unambiguous_def by metis
  with j found show ?case by (simp add: mod_id_snoc get_item_by_parentage_def assms(3))
qed simp

lemma name_of_id_by_name:
  assumes "well_placed mods r" and "index_results r b = Some p" and "id_by_name p q = Some (Some i)"
  shows "qualified_name_of r i = Some (Some q)"
proof -
  from assms(3) index_results_index[OF assms(2)] obtain root m where m: "upc_root_mod r = Some root"
    "mod_id_by_inner_namespace p root (get_namespace q) = Some m"
    "map_of (names_by_parent r) (m, get_final_item q) = Some i"
    by (auto simp: id_by_name_def mod_id_by_namespace_def get_item_by_parentage_def bind_eq_Some_conv)
  have "imap_wf (upc_mods_for_items r)" using assms(1) by (simp add: well_placed_def)
  from names_by_parent_sound[OF this m(3)] found_is_located[OF assms(1) m(1) _ m(2)]
    index_results_index[OF assms(2)] m(1)
  show ?thesis by (auto simp: qualified_name_of_iff)
qed

lemma id_of_qualified_name:
  assumes "well_placed mods r" and "modules_unambiguous mods r" and "index_results r b = Some p"
    and "qualified_name_of r i = Some (Some q)"
  shows "\<exists>j. id_by_name p q = Some (Some j)"
proof -
  from assms(4) obtain root parent where at: "upc_root_mod r = Some root"
    "map_of (upc_names r) i = Some (get_final_item q)" "map_of (upc_mods_for_items r) i = Some parent"
    "located r root (rev (get_namespace q)) parent" by (auto simp: qualified_name_of_iff)
  have "parent \<in> mods" using assms(1) at(3) by (auto simp: well_placed_def)
  from located_is_found[OF assms(1) at(1) index_results_index(2)[OF assms(3)] assms(2) this at(4)]
  have "mod_id_by_inner_namespace p root (get_namespace q) = Some parent" by simp
  moreover obtain j where "map_of (names_by_parent r) (parent, get_final_item q) = Some j"
    using names_by_parent_complete[OF at(3,2)] .
  ultimately show ?thesis
    using index_results_index[OF assms(3)] at(1)
    by (auto simp: id_by_name_def mod_id_by_namespace_def get_item_by_parentage_def)
qed

section \<open>Properties\<close>

text \<open>
  C23: from whatever bindgen reports in its order, the root module before all and each module before what
  is in it, the index is built, no walk over the modules goes on for ever, and looking a name up is the
  inverse of naming an item: what is found under a name is named so, and a name some item has is found,
  unless an item has the name of a module beside it.
\<close>

theorem lookup_inverts_naming:
  assumes "reported_in_order mods r"
  shows "\<exists>p. index_results r part_of_the_type = Some p \<and>
    (\<forall>q i. id_by_name p q = Some (Some i) \<longrightarrow> qualified_name_of r i = Some (Some q)) \<and>
    (modules_unambiguous mods r \<longrightarrow>
      (\<forall>q. (\<exists>i. id_by_name p q = Some (Some i)) \<longleftrightarrow> (\<exists>i. qualified_name_of r i = Some (Some q))))"
proof -
  have placed: "well_placed mods r" by (rule in_order_well_placed[OF assms])
  note ends = naming_ends[OF placed]
  from index_bases_ends[OF ends] by_qualified_name_ends[OF ends]
  obtain p where p: "index_results r part_of_the_type = Some p"
    unfolding index_results_def by (metis bind.bind_lunit)
  with name_of_id_by_name[OF placed p] id_of_qualified_name[OF placed _ p] show ?thesis by blast
qed

text \<open>A root, a namespace, a class in it and a function renamed by \<open>generated_name_override\<close>.\<close>

definition sample_reports :: "bindgen_event list" where
  "sample_reports =
     [Ev_NewItem 0 (DiscoveredItem_Mod ''root'' None), Ev_NewItem 1 (DiscoveredItem_Mod ''ns'' (Some 0)),
      Ev_NewItem 2 (DiscoveredItem_Struct ''Outer_Inner''), Ev_CppName 2 (Some ''Outer::Inner'') (Some 1),
      Ev_NewItem 3 (DiscoveredItem_Function ''f_bindgen_original''), Ev_CppName 3 (Some ''f_bindgen_original'') (Some 1)]"

lemma sample_reported: "reported_in_order {1, 0} (fold callback sample_reports unindexed_default)"
  unfolding sample_reports_def fold.simps comp_def id_def
  by (intro placed found inner_mod root_mod nothing_yet) auto

lemma sample_unambiguous: "modules_unambiguous {1, 0} (fold callback sample_reports unindexed_default)"
proof -
  have "upc_mods_for_items (fold callback sample_reports unindexed_default) = [(1, 0), (2, 1), (3, 1)]"
    "upc_names (fold callback sample_reports unindexed_default) =
       [(0, ''root''), (1, ''ns''), (2, ''Outer_Inner''), (3, ''f'')]"
    by code_simp+
  then show ?thesis by (auto simp: modules_unambiguous_def split: if_splits)
qed

lemma lookup_inverts_naming_witness:
  "\<exists>p i. index_results (fold callback sample_reports unindexed_default) True = Some p \<and>
     id_by_name p (QualifiedName [''ns''] ''f'') = Some (Some i)"
proof -
  have "qualified_name_of (fold callback sample_reports unindexed_default) 3 =
      Some (Some (QualifiedName [''ns''] ''f''))" by code_simp
  with lookup_inverts_naming[OF sample_reported, of True] sample_unambiguous show ?thesis by blast
qed

end
