(* ===== verification/TypeConverter.thy ===== *)
theory TypeConverter imports CppTypes ParseCallbacks Config ApiVec begin

text \<open>
  What the type converter knows (\<^verbatim>\<open>analysis/type_converter.rs\<close>): its state, how it is filled from the list of
  APIs, how a chain of typedefs is followed, and which types may not be destroyed. The conversion itself
  is in \<open>ConvertType\<close>. The inner types a template demands of its arguments are read here as well
  (\<^verbatim>\<open>conversion/inner_type_traits.rs\<close>). \<open>None\<close> is a panic, or a walk for which the fuel it is given
  does not suffice.
\<close>

section \<open>Inner types demanded of template arguments\<close>

definition INNER_TYPE_TRAIT_PREFIX :: string where
  "INNER_TYPE_TRAIT_PREFIX = ''__bindgen_has_inner_type_''"

definition inner_type_trait_named :: "type_path \<Rightarrow> ident option" where
  "inner_type_trait_named path =
     (if leading_colon path then None
      else let named = (\<lambda>seg. if seg_arguments seg = PathArguments_None \<and> prefix INNER_TYPE_TRAIT_PREFIX (seg_ident seg)
                              then Some (seg_ident seg) else None)
           in case segments path of
                [seg] \<Rightarrow> named seg
              | [first, seg] \<Rightarrow>
                  if seg_ident first \<noteq> ''root'' \<or> seg_arguments first \<noteq> PathArguments_None then None else named seg
              | _ \<Rightarrow> None)"

text \<open>\<open>trim_start_matches\<close> takes the prefix off as often as it is there.\<close>

function trim_start_matches :: "string \<Rightarrow> string \<Rightarrow> string" where
  "trim_start_matches pat s =
     (if pat \<noteq> [] \<and> prefix pat s then trim_start_matches pat (drop (length pat) s) else s)"
  by pat_completeness auto
termination
  by (relation "measure (\<lambda>(pat, s). length s)") (auto simp: prefix_def)

definition inner_type_looked_up :: "ident \<Rightarrow> string" where
  "inner_type_looked_up trait_name = trim_start_matches INNER_TYPE_TRAIT_PREFIX trait_name"

definition plain_ident :: "type_path \<Rightarrow> ident option" where
  "plain_ident path =
     (case segments path of
        [seg] \<Rightarrow> if \<not> leading_colon path \<and> seg_arguments seg = PathArguments_None then Some (seg_ident seg) else None
      | _ \<Rightarrow> None)"

fun position_of :: "'a \<Rightarrow> 'a list \<Rightarrow> nat option" where
  "position_of x [] = None"
| "position_of x (y # ys) = (if x = y then Some 0 else map_option Suc (position_of x ys))"

definition inner_types_of_bounds :: "type_param_bound list \<Rightarrow> string list" where
  "inner_types_of_bounds bounds =
     List.map_filter (\<lambda>b. case b of
         Bound_Trait path \<Rightarrow> map_option inner_type_looked_up (inner_type_trait_named path)
       | Bound_Other _ \<Rightarrow> None) bounds"

definition add_predicate :: "ident list \<Rightarrow> where_predicate \<Rightarrow> string list list \<Rightarrow> string list list" where
  "add_predicate params predicate required =
     (case predicate of
        WherePredicate_Type (Type_Path bounded) bounds \<Rightarrow>
          (case Option.bind (plain_ident bounded) (\<lambda>idt. position_of idt params) of
             Some position \<Rightarrow> required[position := required ! position @ inner_types_of_bounds bounds]
           | None \<Rightarrow> required)
      | _ \<Rightarrow> required)"

definition inner_types_required_of_params :: "item_struct \<Rightarrow> string list list" where
  "inner_types_required_of_params item =
     fold (add_predicate (is_type_params item)) (is_where_clause item)
       (replicate (length (is_type_params item)) [])"

section \<open>The state\<close>

record typedef_target_info =
  tti_ty :: rust_type
  tti_kind :: converted_kind
  tti_is_const :: bool
  tti_is_std_array :: bool

record target_facts =
  tf_is_const :: bool
  tf_is_std_array :: bool

type_synonym unanalyzed_api = "(unit, unit, unit, unit) api"

record 'a annotated =
  ann_ty :: 'a
  ann_types_encountered :: "qualified_name list"
  ann_extra_apis :: "(unit, unit, unit, unit) api_vec"
  ann_kind :: converted_kind
  ann_is_const :: bool
  ann_has_volatile_pointee :: bool
  ann_is_std_array :: bool

definition Annotated_new ::
    "'a \<Rightarrow> qualified_name list \<Rightarrow> (unit, unit, unit, unit) api_vec \<Rightarrow> converted_kind \<Rightarrow> 'a annotated" where
  "Annotated_new ty types_encountered extra_apis kind =
     \<lparr>ann_ty = ty, ann_types_encountered = types_encountered, ann_extra_apis = extra_apis, ann_kind = kind,
      ann_is_const = False, ann_has_volatile_pointee = False, ann_is_std_array = False\<rparr>"

definition marked_volatile_pointee_if :: "bool \<Rightarrow> 'a annotated \<Rightarrow> 'a annotated" where
  "marked_volatile_pointee_if has_volatile_pointee a = a\<lparr>ann_has_volatile_pointee := has_volatile_pointee\<rparr>"

definition marked_const :: "'a annotated \<Rightarrow> 'a annotated" where
  "marked_const a = a\<lparr>ann_is_const := True\<rparr>"

definition marked_const_if :: "bool \<Rightarrow> 'a annotated \<Rightarrow> 'a annotated" where
  "marked_const_if is_const a = (if is_const then marked_const a else a)"

definition marked_std_array :: "'a annotated \<Rightarrow> 'a annotated" where
  "marked_std_array a = a\<lparr>ann_is_std_array := True\<rparr>"

definition marked_std_array_if :: "bool \<Rightarrow> 'a annotated \<Rightarrow> 'a annotated" where
  "marked_std_array_if is_std_array a = (if is_std_array then marked_std_array a else a)"

definition marked_from :: "target_facts \<Rightarrow> 'a annotated \<Rightarrow> 'a annotated" where
  "marked_from facts a = marked_std_array_if (tf_is_std_array facts) (marked_const_if (tf_is_const facts) a)"

definition annotated_map :: "('a \<Rightarrow> 'b) \<Rightarrow> 'a annotated \<Rightarrow> 'b annotated" where
  "annotated_map fn a =
     \<lparr>ann_ty = fn (ann_ty a), ann_types_encountered = ann_types_encountered a,
      ann_extra_apis = ann_extra_apis a, ann_kind = ann_kind a, ann_is_const = ann_is_const a,
      ann_has_volatile_pointee = ann_has_volatile_pointee a, ann_is_std_array = ann_is_std_array a\<rparr>"

datatype type_conversion_context =
    WithinReference bool
  | WithinStructField "ident list"
  | WithinContainer
  | WithinTypedef
  | OuterType

definition allow_instantiation_of_forward_declaration :: "type_conversion_context \<Rightarrow> bool" where
  "allow_instantiation_of_forward_declaration ctx =
     (case ctx of WithinReference _ \<Rightarrow> True | WithinTypedef \<Rightarrow> True | _ \<Rightarrow> False)"

definition within_struct_field :: "type_conversion_context \<Rightarrow> bool" where
  "within_struct_field ctx =
     (case ctx of WithinStructField _ \<Rightarrow> True | WithinReference b \<Rightarrow> b | _ \<Rightarrow> False)"

definition behind_reference :: "type_conversion_context \<Rightarrow> type_conversion_context" where
  "behind_reference ctx = WithinReference (within_struct_field ctx)"

definition allowed_generic_type :: "type_conversion_context \<Rightarrow> ident \<Rightarrow> bool" where
  "allowed_generic_type ctx idt =
     (case ctx of WithinStructField struct_type_params \<Rightarrow> idt \<notin> set struct_type_params | _ \<Rightarrow> True)"

record type_converter =
  tc_types_found :: "qualified_name list"
  tc_typedefs :: "(qualified_name, typedef_target_info) index_map"
  tc_concrete_templates :: "(string, qualified_name) index_map"
  tc_forward_declarations :: "(qualified_name, opaque_typedef_reason option) index_map"
  tc_instantiations_on_incomplete_types :: "(qualified_name, qualified_name) index_map"
  tc_classes_we_may_not_destroy :: "(qualified_name, undestroyable_member) index_map"
  tc_concrete_definitions :: "(qualified_name, rust_type) index_map"
  tc_alias_targets :: "(qualified_name, rust_type) index_map"
  tc_inner_types_required :: "(qualified_name, string list list) index_map"
  tc_ignored_types :: "(qualified_name, convert_error) index_map"
  tc_deferred_surfaces :: "(qualified_name, holder_surface) index_map"
  tc_config :: include_cpp_config
  tc_original_name_map :: cpp_name_map

section \<open>Reading the list of APIs\<close>

definition collect_map :: "('a \<Rightarrow> ('k \<times> 'v) option) \<Rightarrow> 'a list \<Rightarrow> ('k, 'v) index_map" where
  "collect_map f xs = fold (\<lambda>x m. case f x of Some (k, v) \<Rightarrow> imap_insert k v m | None \<Rightarrow> m) xs []"

definition typedef_analysis_target :: "typedef_analysis \<Rightarrow> typedef_target_info option" where
  "typedef_analysis_target a =
     Some \<lparr>tti_ty = (case ta_kind a of TypedefKind_Type ty \<Rightarrow> it_ty ty | TypedefKind_Use ty \<Rightarrow> ty),
           tti_kind = ta_target_kind a, tti_is_const = ta_target_is_const a,
           tti_is_std_array = ta_target_is_std_array a\<rparr>"

definition no_target :: "unit \<Rightarrow> typedef_target_info option" where
  "no_target u = None"

definition find_typedefs ::
    "('td \<Rightarrow> typedef_target_info option) \<Rightarrow> ('td, 'st, 'fn, 'sub) api list \<Rightarrow>
     (qualified_name, typedef_target_info) index_map" where
  "find_typedefs get_target l =
     collect_map (\<lambda>api. case api of
         Api_Typedef name item old_tyname analysis \<Rightarrow> map_option (\<lambda>target. (Api_name api, target)) (get_target analysis)
       | _ \<Rightarrow> None) l"

definition find_concrete_templates :: "('td, 'st, 'fn, 'sub) api list \<Rightarrow> (string, qualified_name) index_map" where
  "find_concrete_templates l =
     collect_map (\<lambda>api. case api of
         Api_ConcreteType name rs cpp_definition surface deps incomplete \<Rightarrow> Some (cpp_definition, Api_name api)
       | _ \<Rightarrow> None) l"

definition find_incomplete_types ::
    "('td, 'st, 'fn, 'sub) api list \<Rightarrow> (qualified_name, opaque_typedef_reason option) index_map" where
  "find_incomplete_types l =
     collect_map (\<lambda>api. case api of
         Api_ForwardDeclaration name err \<Rightarrow> Some (Api_name api, None)
       | Api_OpaqueTypedef name forward_declaration reason \<Rightarrow>
           if forward_declaration then Some (Api_name api, reason) else None
       | _ \<Rightarrow> None) l"

definition find_alias_targets :: "('td, 'st, 'fn, 'sub) api list \<Rightarrow> (qualified_name, rust_type) index_map" where
  "find_alias_targets l =
     collect_map (\<lambda>api. case api of
         Api_Typedef name (TypedefKind_Type ity) old_tyname analysis \<Rightarrow> Some (Api_name api, it_ty ity)
       | Api_Typedef name (TypedefKind_Use ty) old_tyname analysis \<Rightarrow> Some (Api_name api, ty)
       | _ \<Rightarrow> None) l"

definition find_inner_types_required ::
    "('td, 'st, 'fn, 'sub) api list \<Rightarrow> (qualified_name, string list list) index_map" where
  "find_inner_types_required l =
     collect_map (\<lambda>api. case api of
         Api_Struct name details analysis \<Rightarrow>
           (let required = inner_types_required_of_params (sd_item details) in
            if list_ex (\<lambda>inner_types. inner_types \<noteq> []) required then Some (Api_name api, required) else None)
       | _ \<Rightarrow> None) l"

definition find_instantiations_on_incomplete_types ::
    "('td, 'st, 'fn, 'sub) api list \<Rightarrow> (qualified_name, qualified_name) index_map" where
  "find_instantiations_on_incomplete_types l =
     collect_map (\<lambda>api. case api of
         Api_ConcreteType name rs cpp surface deps (Some argument) \<Rightarrow> Some (Api_name api, argument)
       | _ \<Rightarrow> None) l"

definition find_concrete_definitions :: "('td, 'st, 'fn, 'sub) api list \<Rightarrow> (qualified_name, rust_type) index_map" where
  "find_concrete_definitions l =
     collect_map (\<lambda>api. case api of
         Api_ConcreteType name (Some rs_definition) cpp surface deps incomplete \<Rightarrow> Some (Api_name api, rs_definition)
       | _ \<Rightarrow> None) l"

definition find_ignored_types :: "('td, 'st, 'fn, 'sub) api list \<Rightarrow> (qualified_name, convert_error) index_map" where
  "find_ignored_types l =
     collect_map (\<lambda>api. case api of Api_IgnoredItem name err ctx \<Rightarrow> Some (Api_name api, err) | _ \<Rightarrow> None) l"

definition is_type_api :: "('td, 'st, 'fn, 'sub) api \<Rightarrow> bool" where
  "is_type_api api =
     (case api of
        Api_ForwardDeclaration _ _ \<Rightarrow> True
      | Api_OpaqueTypedef _ _ _ \<Rightarrow> True
      | Api_ConcreteType _ _ _ _ _ _ \<Rightarrow> True
      | Api_Typedef _ _ _ _ \<Rightarrow> True
      | Api_Enum _ _ \<Rightarrow> True
      | Api_Struct _ _ _ \<Rightarrow> True
      | Api_Subclass _ _ _ \<Rightarrow> True
      | Api_ExternCppType _ _ _ \<Rightarrow> True
      | Api_RustType _ _ \<Rightarrow> True
      | _ \<Rightarrow> False)"

definition find_types :: "('td, 'st, 'fn, 'sub) api list \<Rightarrow> qualified_name list" where
  "find_types l = fold iset_insert (map Api_name (filter is_type_api l)) []"

section \<open>Arguments of paths\<close>

definition type_arguments :: "path_arguments \<Rightarrow> rust_type list" where
  "type_arguments a =
     (case a of
        AngleBracketed args \<Rightarrow>
          List.map_filter (\<lambda>x. case x of GenericArgument_Type ty \<Rightarrow> Some ty | GenericArgument_Other _ \<Rightarrow> None) args
      | _ \<Rightarrow> [])"

definition all_type_arguments :: "type_path \<Rightarrow> rust_type list" where
  "all_type_arguments typ = concat (map (\<lambda>seg. type_arguments (seg_arguments seg)) (segments typ))"

definition last_segment_arguments :: "type_path \<Rightarrow> path_arguments" where
  "last_segment_arguments typ = (if segments typ = [] then PathArguments_None else seg_arguments (last (segments typ)))"

definition direct_generic_args :: "type_path \<Rightarrow> rust_type list" where
  "direct_generic_args typ = type_arguments (last_segment_arguments typ)"

definition sole_pointer_generic_arg :: "type_path \<Rightarrow> rust_type option" where
  "sole_pointer_generic_arg typ =
     (case last_segment_arguments typ of
        AngleBracketed [GenericArgument_Type (Type_Ptr m elem)] \<Rightarrow> Some (Type_Ptr m elem)
      | _ \<Rightarrow> None)"

definition set_last_arguments :: "path_arguments \<Rightarrow> type_path \<Rightarrow> type_path" where
  "set_last_arguments a typ =
     (if segments typ = [] then typ
      else TypePath (has_qself typ) (leading_colon typ)
             (butlast (segments typ) @ [PathSegment (seg_ident (last (segments typ))) a]))"

definition sibling_shared_ptr :: "type_path \<Rightarrow> type_path" where
  "sibling_shared_ptr typ =
     (let sibling = to_type_path (new_from_cpp_name ''std::shared_ptr'') in
      if segments typ = [] then sibling else set_last_arguments (last_segment_arguments typ) sibling)"

section \<open>What may not be destroyed\<close>

text \<open>\<open>find_map\<close> over a function that may fail, and one over a function with a state of its own.\<close>

fun find_map_opt :: "('a \<Rightarrow> 'b option option) \<Rightarrow> 'a list \<Rightarrow> 'b option option" where
  "find_map_opt f [] = Some None"
| "find_map_opt f (x # xs) =
     (case f x of None \<Rightarrow> None | Some (Some y) \<Rightarrow> Some (Some y) | Some None \<Rightarrow> find_map_opt f xs)"

fun find_map_seen :: "('a \<Rightarrow> 's \<Rightarrow> ('b option \<times> 's) option) \<Rightarrow> 'a list \<Rightarrow> 's \<Rightarrow> ('b option \<times> 's) option" where
  "find_map_seen f [] seen = Some (None, seen)"
| "find_map_seen f (x # xs) seen =
     (case f x seen of
        None \<Rightarrow> None
      | Some (Some y, seen) \<Rightarrow> Some (Some y, seen)
      | Some (None, seen) \<Rightarrow> find_map_seen f xs seen)"

fun destruction_blocked_by ::
    "nat \<Rightarrow> type_converter \<Rightarrow> rust_type \<Rightarrow> (qualified_name, undestroyable_member) index_map \<Rightarrow>
     qualified_name list \<Rightarrow> bool \<Rightarrow> (qualified_name option \<times> qualified_name list) option" where
  "destruction_blocked_by 0 me ty found seen outermost = None"
| "destruction_blocked_by (Suc n) me ty found seen outermost =
     (case unqualified_array_element_type ty of
        Type_Path typ \<Rightarrow>
          (case unwrap_volatile typ of
             Some inner \<Rightarrow> destruction_blocked_by n me inner found seen outermost
           | None \<Rightarrow>
          (case from_type_path typ of
             None \<Rightarrow> None
           | Some qn \<Rightarrow>
               if \<not> outermost \<and> map_of (tc_forward_declarations me) qn \<noteq> None then Some (Some qn, seen)
               else (case map_of (tc_instantiations_on_incomplete_types me) qn of
                 Some argument \<Rightarrow> Some (Some argument, seen)
               | None \<Rightarrow>
               (case map_of found qn of
                 Some member \<Rightarrow> Some (Some (um_argument member), seen)
               | None \<Rightarrow>
               (case find_map_opt
                       (\<lambda>inner. map_option fst (destruction_blocked_by n me inner found [] False))
                       (all_type_arguments typ) of
                 None \<Rightarrow> None
               | Some (Some blocked_argument) \<Rightarrow> Some (Some blocked_argument, seen)
               | Some None \<Rightarrow>
                   if qn \<in> set seen then Some (None, seen)
                   else let seen = iset_insert qn seen in
                   (case (case map_of (tc_concrete_definitions me) qn of
                            Some definition \<Rightarrow> destruction_blocked_by n me definition found seen outermost
                          | None \<Rightarrow> Some (None, seen)) of
                      None \<Rightarrow> None
                    | Some (Some argument, seen) \<Rightarrow> Some (Some argument, seen)
                    | Some (None, seen) \<Rightarrow>
                        (case map_of (tc_alias_targets me) qn of
                           Some target \<Rightarrow> destruction_blocked_by n me target found seen outermost
                         | None \<Rightarrow> Some (None, seen))))))))
      | _ \<Rightarrow> Some (None, seen))"

definition member_culprit ::
    "nat \<Rightarrow> type_converter \<Rightarrow> (qualified_name, undestroyable_member) index_map \<Rightarrow> item_field \<Rightarrow>
     undestroyable_member option option" where
  "member_culprit n me found field =
     map_option (\<lambda>(argument, seen). map_option (\<lambda>argument.
         \<lparr>um_held = (case if_ident field of
                      Some idt \<Rightarrow> ''its member `'' @ idt @ ''`''
                    | None \<Rightarrow> ''an unnamed member of it''),
          um_argument = argument\<rparr>) argument)
       (destruction_blocked_by n me (if_ty field) found [] True)"

definition base_culprit ::
    "nat \<Rightarrow> type_converter \<Rightarrow> (qualified_name, undestroyable_member) index_map \<Rightarrow> base_class \<Rightarrow>
     undestroyable_member option option" where
  "base_culprit n me found base =
     map_option (\<lambda>(argument, seen). map_option (\<lambda>argument.
         \<lparr>um_held = ''its base class `'' @ to_cpp_name (bc_name base) @ ''`'', um_argument = argument\<rparr>) argument)
       (destruction_blocked_by n me (Type_Path (to_type_path (bc_name base))) found [] True)"

definition struct_culprit ::
    "nat \<Rightarrow> type_converter \<Rightarrow> parse_callback_results \<Rightarrow> (qualified_name, undestroyable_member) index_map \<Rightarrow>
     qualified_name \<Rightarrow> struct_details \<Rightarrow> undestroyable_member option option" where
  "struct_culprit n me p found name details =
     (case find_map_opt (member_culprit n me found) (is_fields (sd_item details)) of
        None \<Rightarrow> None
      | Some (Some culprit) \<Rightarrow> Some (Some culprit)
      | Some None \<Rightarrow>
          (case get_bases p name of
             None \<Rightarrow> Some None
           | Some bases \<Rightarrow> find_map_opt (base_culprit n me found) (bcs_named bases)))"

definition user_provided_destructors :: "('td, 'st, 'fn, 'sub) api list \<Rightarrow> qualified_name list" where
  "user_provided_destructors l =
     fold iset_insert
       (List.map_filter (\<lambda>api. case api of
            Api_Function name fn analysis \<Rightarrow>
              if fc_special_member fn = Some Destructor \<and> fc_is_deleted fn = None then fc_self_ty fn else None
          | _ \<Rightarrow> None) l) []"

fun undestroyable_pass ::
    "nat \<Rightarrow> type_converter \<Rightarrow> parse_callback_results \<Rightarrow> qualified_name list \<Rightarrow> ('td, 'st, 'fn, 'sub) api list \<Rightarrow>
     (qualified_name, undestroyable_member) index_map \<times> bool \<Rightarrow>
     ((qualified_name, undestroyable_member) index_map \<times> bool) option" where
  "undestroyable_pass n me p user_provided [] (found, added) = Some (found, added)"
| "undestroyable_pass n me p user_provided (api # rest) (found, added) =
     (case api of
        Api_Struct name details analysis \<Rightarrow>
          if an_name name \<in> set user_provided \<or> map_of found (an_name name) \<noteq> None
          then undestroyable_pass n me p user_provided rest (found, added)
          else (case struct_culprit n me p found (an_name name) details of
                  None \<Rightarrow> None
                | Some (Some culprit) \<Rightarrow>
                    undestroyable_pass n me p user_provided rest (imap_insert (an_name name) culprit found, True)
                | Some None \<Rightarrow> undestroyable_pass n me p user_provided rest (found, added))
      | _ \<Rightarrow> undestroyable_pass n me p user_provided rest (found, added))"

definition find_classes_we_may_not_destroy ::
    "nat \<Rightarrow> type_converter \<Rightarrow> ('td, 'st, 'fn, 'sub) api list \<Rightarrow> parse_callback_results \<Rightarrow>
     (qualified_name, undestroyable_member) index_map option" where
  "find_classes_we_may_not_destroy n me l p =
     run_rounds (\<lambda>found. undestroyable_pass n me p (user_provided_destructors l) l (found, False)) []"

definition TypeConverter_new ::
    "nat \<Rightarrow> include_cpp_config \<Rightarrow> ('td \<Rightarrow> typedef_target_info option) \<Rightarrow> ('td, 'st, 'fn, 'sub) api_vec \<Rightarrow>
     parse_callback_results \<Rightarrow> type_converter option" where
  "TypeConverter_new n config get_target v p =
     (let l = apis v;
          me = \<lparr>tc_types_found = find_types l, tc_typedefs = find_typedefs get_target l,
                tc_concrete_templates = find_concrete_templates l,
                tc_forward_declarations = find_incomplete_types l,
                tc_instantiations_on_incomplete_types = find_instantiations_on_incomplete_types l,
                tc_classes_we_may_not_destroy = [], tc_concrete_definitions = find_concrete_definitions l,
                tc_alias_targets = find_alias_targets l, tc_inner_types_required = find_inner_types_required l,
                tc_ignored_types = find_ignored_types l, tc_deferred_surfaces = [], tc_config = config,
                tc_original_name_map = new_for_analysis l\<rparr>
      in map_option (\<lambda>classes. me\<lparr>tc_classes_we_may_not_destroy := classes\<rparr>)
           (find_classes_we_may_not_destroy n me l p))"

end
