(* ===== verification/ConvertType.thy ===== *)
theory ConvertType imports TypeConverter begin

text \<open>
  The conversion of a type bindgen wrote to the type the bridge names (\<^verbatim>\<open>analysis/type_converter.rs\<close>).
  A step threads the converter through: it gives an error or a value with the converter as it is left,
  or \<open>None\<close>, which is a panic or the fuel having run out. The recursion of \<^verbatim>\<open>convert_type\<close> goes through
  typedefs, so it is driven by fuel, one unit for each nested call; every other function here takes
  the conversion it recurses to as its argument \<open>conv\<close>. What \<^verbatim>\<open>syn\<close> takes for an identifier is the
  argument \<open>ok\<close>.
\<close>

section \<open>Steps\<close>

type_synonym 'a conv = "type_converter \<Rightarrow> ((convert_error, 'a) result \<times> type_converter) option"
type_synonym converts = "rust_type \<Rightarrow> namespace \<Rightarrow> type_conversion_context \<Rightarrow> rust_type annotated conv"

definition tc_return :: "'a \<Rightarrow> 'a conv" where
  "tc_return x = (\<lambda>me. Some (Inr x, me))"

definition tc_throw :: "convert_error \<Rightarrow> 'a conv" where
  "tc_throw e = (\<lambda>me. Some (Inl e, me))"

definition tc_bind :: "'a conv \<Rightarrow> ('a \<Rightarrow> 'b conv) \<Rightarrow> 'b conv" where
  "tc_bind m f = (\<lambda>me. case m me of
     None \<Rightarrow> None
   | Some (Inl e, me) \<Rightarrow> Some (Inl e, me)
   | Some (Inr x, me) \<Rightarrow> f x me)"

definition tc_get :: "(type_converter \<Rightarrow> 'a) \<Rightarrow> 'a conv" where
  "tc_get f = (\<lambda>me. Some (Inr (f me), me))"

definition tc_modify :: "(type_converter \<Rightarrow> type_converter) \<Rightarrow> unit conv" where
  "tc_modify f = (\<lambda>me. Some (Inr (), f me))"

definition tc_unwrap :: "'a option \<Rightarrow> 'a conv" where
  "tc_unwrap x = (\<lambda>me. case x of None \<Rightarrow> None | Some y \<Rightarrow> Some (Inr y, me))"

definition tc_result :: "(convert_error, 'a) result option \<Rightarrow> 'a conv" where
  "tc_result r = (\<lambda>me. case r of None \<Rightarrow> None | Some r \<Rightarrow> Some (r, me))"

definition tc_when :: "bool \<Rightarrow> convert_error \<Rightarrow> unit conv" where
  "tc_when b e = (if b then tc_throw e else tc_return ())"

section \<open>Typedefs\<close>

definition path_targets :: "(qualified_name, typedef_target_info) index_map \<Rightarrow> qualified_name set" where
  "path_targets typedefs =
     {q. \<exists>target \<in> set (map snd typedefs). \<exists>typ. tti_ty target = Type_Path typ \<and> from_type_path typ = Some q}"

lemma finite_path_targets [simp]: "finite (path_targets typedefs)"
proof -
  have "path_targets typedefs \<subseteq>
      (\<lambda>target. the (case tti_ty target of Type_Path typ \<Rightarrow> from_type_path typ | _ \<Rightarrow> None)) ` set (map snd typedefs)"
    by (force simp: path_targets_def image_def)
  then show ?thesis by (rule finite_subset) simp
qed

lemma path_target_listed:
  "map_of typedefs tn = Some target \<Longrightarrow> tti_ty target = Type_Path typ \<Longrightarrow> from_type_path typ = Some q \<Longrightarrow>
   q \<in> path_targets typedefs"
  by (force simp: path_targets_def dest: map_of_SomeD)

function resolve_typedef_loop ::
    "(qualified_name, typedef_target_info) index_map \<Rightarrow> qualified_name list \<Rightarrow> qualified_name \<Rightarrow>
     typedef_target_info option \<Rightarrow> (convert_error, typedef_target_info option) result option" where
  "resolve_typedef_loop typedefs encountered tn previous_typ =
     (case map_of typedefs tn of
        None \<Rightarrow> Some (Inr previous_typ)
      | Some r \<Rightarrow>
          (case tti_ty r of
             Type_Path typ \<Rightarrow>
               (case from_type_path typ of
                  None \<Rightarrow> None
                | Some new_tn \<Rightarrow>
                    if new_tn \<in> set encountered then Some (Inl (InfinitelyRecursiveTypedef tn))
                    else if list_ex (\<lambda>seg. prefix ''_bindgen_mod'' (seg_ident seg)) (segments typ)
                    then Some (Inl (TypeError TypedefToTypeInAnonymousNamespace))
                    else resolve_typedef_loop typedefs (iset_insert new_tn encountered) new_tn (Some r))
           | _ \<Rightarrow> Some (Inr (Some r))))"
  by pat_completeness auto
termination
  by (relation "measure (\<lambda>(typedefs, encountered, tn, previous). card (path_targets typedefs - set encountered))")
     (auto intro!: psubset_card_mono dest: path_target_listed)

declare resolve_typedef_loop.simps [simp del]

definition resolve_typedef :: "qualified_name \<Rightarrow> typedef_target_info option conv" where
  "resolve_typedef tn = (\<lambda>me. tc_result (resolve_typedef_loop (tc_typedefs me) [] tn None) me)"

definition tc_is_on_blocklist :: "string \<Rightarrow> bool conv" where
  "tc_is_on_blocklist name = (\<lambda>me. case is_on_blocklist (tc_config me) name of
     (blocked, config) \<Rightarrow> Some (Inr blocked, me\<lparr>tc_config := config\<rparr>))"

text \<open>The \<^verbatim>\<open>while\<close> of \<open>resolve_through_unnameable_alias\<close>; the blocklist remembers what it is asked.\<close>

function unnameable_alias_loop ::
    "(string \<Rightarrow> bool) \<Rightarrow> (qualified_name, rust_type) index_map \<Rightarrow> (qualified_name, convert_error) index_map \<Rightarrow>
     qualified_name list \<Rightarrow> qualified_name \<Rightarrow> include_cpp_config \<Rightarrow>
     ((convert_error, rust_type option) result \<times> include_cpp_config) option" where
  "unnameable_alias_loop ok alias_targets ignored seen tn config =
     (if tn \<in> set seen then Some (Inr None, config)
      else case map_of alias_targets tn of
        None \<Rightarrow>
          Some (case map_of ignored tn of Some reason \<Rightarrow> Inl reason | None \<Rightarrow> Inr None, config)
      | Some target \<Rightarrow>
          (case target of
             Type_Path target_tp \<Rightarrow>
               (case from_type_path target_tp of
                  None \<Rightarrow> None
                | Some target_tn \<Rightarrow>
                    if validate_ok_for_cxx ok target_tn = Inr () then Some (Inr (Some target), config)
                    else case is_on_blocklist config (to_cpp_name target_tn) of
                      (blocked, config) \<Rightarrow>
                        if blocked then Some (Inl (Blocked target_tn), config)
                        else unnameable_alias_loop ok alias_targets ignored (iset_insert tn seen) target_tn config)
           | _ \<Rightarrow> Some (Inr (Some target), config)))"
  by pat_completeness auto
termination
proof (relation "measure (\<lambda>(ok, alias_targets, ignored, seen, tn, config).
    card (set (map fst alias_targets) - set seen))", goal_cases)
  case (2 ok alias_targets ignored seen tn config target)
  then have "tn \<in> set (map fst alias_targets)" by (force dest: map_of_SomeD)
  with 2(1) have "set (map fst alias_targets) - set (iset_insert tn seen) \<subset> set (map fst alias_targets) - set seen"
    by auto
  from psubset_card_mono[OF _ this] show ?case by simp
qed simp

declare unnameable_alias_loop.simps [simp del]

definition resolve_through_unnameable_alias ::
    "(string \<Rightarrow> bool) \<Rightarrow> qualified_name \<Rightarrow> rust_type option conv" where
  "resolve_through_unnameable_alias ok tn = (\<lambda>me.
     case unnameable_alias_loop ok (tc_alias_targets me) (tc_ignored_types me) [] tn (tc_config me) of
       None \<Rightarrow> None
     | Some (r, config) \<Rightarrow> Some (r, me\<lparr>tc_config := config\<rparr>))"

definition function_pointer ::
    "type_path \<Rightarrow> type_conversion_context \<Rightarrow> (convert_error, rust_type annotated) result option" where
  "function_pointer typ ctx =
     (case unwrap_function_pointer typ of
        None \<Rightarrow> None
      | Some _ \<Rightarrow>
          Some (if within_struct_field ctx then Inr (Annotated_new (Type_Path typ) [] ApiVec_new Kind_Pointer)
                else Inl (SignatureError FunctionPointerInSignature)))"

section \<open>Refusals\<close>

definition instantiation_on_incomplete_type_error :: "type_converter \<Rightarrow> qualified_name \<Rightarrow> convert_error option" where
  "instantiation_on_incomplete_type_error me qn =
     map_option (\<lambda>arg. InstantiationOnIncompleteType qn arg) (map_of (tc_instantiations_on_incomplete_types me) qn)"

definition undestroyable_member_error :: "type_converter \<Rightarrow> qualified_name \<Rightarrow> convert_error option" where
  "undestroyable_member_error me qn =
     map_option (\<lambda>member. MemberOfInstantiationOnIncompleteType qn (um_held member) (um_argument member))
       (map_of (tc_classes_we_may_not_destroy me) qn)"

definition undestroyable_member_of :: "type_converter \<Rightarrow> qualified_name \<Rightarrow> undestroyable_member option" where
  "undestroyable_member_of me qn = map_of (tc_classes_we_may_not_destroy me) qn"

definition incomplete_type_error :: "type_converter \<Rightarrow> qualified_name \<Rightarrow> convert_error" where
  "incomplete_type_error me qn =
     (case map_of (tc_forward_declarations me) qn of
        Some (Some reason) \<Rightarrow> TypeContainingUngeneratableTypedef qn (otr_culprit reason) (otr_reason reason)
      | _ \<Rightarrow> TypeError (TypeContainingForwardDeclaration qn))"

definition is_rust_str :: "rust_type \<Rightarrow> bool" where
  "is_rust_str ty \<longleftrightarrow>
     (case ty of
        Type_Reference False (Type_Path p) \<Rightarrow> \<not> has_qself p \<and> plain_ident p = Some ''str''
      | _ \<Rightarrow> False)"

definition check_array_referent :: "rust_type annotated \<Rightarrow> type_conversion_context \<Rightarrow> unit conv" where
  "check_array_referent elem ctx =
     tc_when ((case ann_ty elem of Type_Array _ _ \<Rightarrow> True | _ \<Rightarrow> False) \<and> \<not> ann_is_std_array elem \<and>
              \<not> within_struct_field ctx)
       (SignatureError (CppArrayReferenceInSignature (ann_ty elem)))"

definition ensure_pointee_is_valid :: "rust_type \<Rightarrow> type_conversion_context \<Rightarrow> unit conv" where
  "ensure_pointee_is_valid pointee ctx =
     (case pointee of
        Type_Path _ \<Rightarrow> tc_return ()
      | Type_Array _ _ \<Rightarrow> tc_throw (TypeError InvalidArrayPointee)
      | Type_Ptr _ _ \<Rightarrow>
          (case ctx of
             WithinStructField _ \<Rightarrow> tc_return ()
           | WithinTypedef \<Rightarrow> tc_return ()
           | _ \<Rightarrow> tc_throw (TypeError InvalidPointerPointee))
      | _ \<Rightarrow> tc_throw (TypeError (InvalidPointee pointee)))"

section \<open>Pointers, references and arrays\<close>

definition convert_reference ::
    "converts \<Rightarrow> bool \<Rightarrow> rust_type \<Rightarrow> namespace \<Rightarrow> type_conversion_context \<Rightarrow> rust_type annotated conv" where
  "convert_reference conv mutability elem ns ctx =
     tc_bind (conv elem ns (behind_reference ctx)) (\<lambda>innerty.
     tc_bind (check_array_referent innerty ctx) (\<lambda>_.
     tc_return (Annotated_new (Type_Reference mutability (ann_ty innerty)) (ann_types_encountered innerty)
                  (ann_extra_apis innerty) Kind_Reference)))"

definition convert_array ::
    "converts \<Rightarrow> rust_type \<Rightarrow> array_length \<Rightarrow> namespace \<Rightarrow> type_conversion_context \<Rightarrow> rust_type annotated conv" where
  "convert_array conv elem len ns ctx =
     tc_bind (conv elem ns (behind_reference ctx)) (\<lambda>innerty.
     tc_return (marked_const_if (ann_is_const innerty)
       (Annotated_new (Type_Array (ann_ty innerty) len) (ann_types_encountered innerty)
          (ann_extra_apis innerty) Kind_Regular)))"

definition convert_ptr ::
    "converts \<Rightarrow> bool \<Rightarrow> rust_type \<Rightarrow> namespace \<Rightarrow> type_conversion_context \<Rightarrow> rust_type annotated conv" where
  "convert_ptr conv mutability elem ns ctx =
     tc_bind (ensure_pointee_is_valid elem ctx) (\<lambda>_.
     tc_bind (conv elem ns (behind_reference ctx)) (\<lambda>innerty.
     tc_return (marked_volatile_pointee_if (is_volatile_qualified elem)
       (Annotated_new (Type_Ptr mutability (ann_ty innerty)) (ann_types_encountered innerty)
          (ann_extra_apis innerty) Kind_Pointer))))"

definition pinned_mutable :: "rust_type \<Rightarrow> rust_type" where
  "pinned_mutable elem =
     Type_Path (TypePath False True
       [PathSegment ''core'' PathArguments_None, PathSegment ''pin'' PathArguments_None,
        PathSegment ''Pin'' (AngleBracketed [GenericArgument_Type (Type_Reference True elem)])])"

definition convert_lvalue_reference ::
    "converts \<Rightarrow> bool \<Rightarrow> rust_type \<Rightarrow> namespace \<Rightarrow> type_conversion_context \<Rightarrow> rust_type annotated conv" where
  "convert_lvalue_reference conv mutability referent ns ctx =
     (let mutable = ptr_is_mut mutability in
      tc_bind (conv referent ns (behind_reference ctx)) (\<lambda>elem.
      tc_bind (tc_get (\<lambda>me. policy (tc_config me))) (\<lambda>unsafe_policy.
      tc_bind (tc_when (mutable \<and> \<not> within_struct_field ctx \<and> is_rust_str (ann_ty elem) \<and>
                        \<not> requires_cpprefs unsafe_policy) (SignatureError MutableReferenceToRustStr)) (\<lambda>_.
      tc_bind (check_array_referent elem ctx) (\<lambda>_.
      tc_return
        ((annotated_map (\<lambda>elem. if mutable then pinned_mutable elem else Type_Reference False elem) elem)
           \<lparr>ann_kind := (if mutable then Kind_MutableReference else Kind_Reference),
            ann_has_volatile_pointee := is_volatile_qualified referent,
            ann_is_std_array := False\<rparr>))))))"

definition convert_rvalue_reference ::
    "converts \<Rightarrow> bool \<Rightarrow> rust_type \<Rightarrow> namespace \<Rightarrow> type_conversion_context \<Rightarrow> rust_type annotated conv" where
  "convert_rvalue_reference conv mutability referent ns ctx =
     tc_bind (ensure_pointee_is_valid referent ctx) (\<lambda>_.
     tc_bind (conv referent ns (behind_reference ctx)) (\<lambda>innerty.
     tc_return (marked_volatile_pointee_if (is_volatile_qualified referent)
       (Annotated_new (Type_Ptr mutability (ann_ty innerty)) (ann_types_encountered innerty)
          (ann_extra_apis innerty) Kind_RValueReference))))"

section \<open>Concrete types\<close>

definition is_ascii_alphanumeric :: "char \<Rightarrow> bool" where
  "is_ascii_alphanumeric c \<longleftrightarrow>
     is_digit c \<or> (65 \<le> (of_char c :: nat) \<and> (of_char c :: nat) \<le> 90) \<or>
     (97 \<le> (of_char c :: nat) \<and> (of_char c :: nat) \<le> 122)"

definition concrete_type_ident :: "string \<Rightarrow> string" where
  "concrete_type_ident cpp_definition =
     (let idt = map (\<lambda>c. if is_ascii_alphanumeric c \<or> c = CHR ''_'' then c else CHR ''_'') cpp_definition
                  @ ''_AutocxxConcrete''
      in join ''_'' (filter (\<lambda>s. s \<noteq> []) (split_str ''_'' idt)))"

fun first_unsatisfied :: "rust_type list \<Rightarrow> string list list \<Rightarrow> (qualified_name \<times> string) option option" where
  "first_unsatisfied (Type_Path argument # arguments) (demanded # required) =
     (case from_type_path argument of
        None \<Rightarrow> None
      | Some argument \<Rightarrow>
          (case find (\<lambda>inner_type. substitute_declares_inner_type known_types argument inner_type = Some False)
                  demanded of
             Some inner_type \<Rightarrow> Some (Some (argument, inner_type))
           | None \<Rightarrow> first_unsatisfied arguments required))"
| "first_unsatisfied (_ # arguments) (_ # required) = first_unsatisfied arguments required"
| "first_unsatisfied _ _ = Some None"

definition unsatisfiable_inner_type :: "type_converter \<Rightarrow> rust_type \<Rightarrow> (qualified_name \<times> string) option option" where
  "unsatisfiable_inner_type me rs_definition =
     (case rs_definition of
        Type_Path typ \<Rightarrow>
          Option.bind (from_type_path typ) (\<lambda>qn.
            case map_of (tc_inner_types_required me) qn of
              None \<Rightarrow> Some None
            | Some required \<Rightarrow> first_unsatisfied (direct_generic_args typ) required)
      | _ \<Rightarrow> Some None)"

fun incompleteness_of_argument ::
    "nat \<Rightarrow> type_converter \<Rightarrow> rust_type \<Rightarrow> qualified_name list \<Rightarrow>
     (qualified_name option \<times> qualified_name list) option" where
  "incompleteness_of_argument 0 me arg seen = None"
| "incompleteness_of_argument (Suc n) me arg seen =
     (case arg of
        Type_Path typ \<Rightarrow>
          (case from_type_path typ of
             None \<Rightarrow> None
           | Some qn \<Rightarrow>
               if map_of (tc_forward_declarations me) qn \<noteq> None then Some (Some qn, seen)
               else (case map_of (tc_instantiations_on_incomplete_types me) qn of
                 Some argument \<Rightarrow> Some (Some argument, seen)
               | None \<Rightarrow>
                   (case (case map_of (tc_alias_targets me) qn of
                            Some target \<Rightarrow>
                              if qn \<in> set seen then Some (None, seen)
                              else incompleteness_of_argument n me target (iset_insert qn seen)
                          | None \<Rightarrow> Some (None, seen)) of
                      None \<Rightarrow> None
                    | Some (Some found, seen) \<Rightarrow> Some (Some found, seen)
                    | Some (None, seen) \<Rightarrow>
                        find_map_seen (incompleteness_of_argument n me) (all_type_arguments typ) seen)))
      | _ \<Rightarrow> Some (None, seen))"

definition incomplete_argument_within ::
    "nat \<Rightarrow> type_converter \<Rightarrow> rust_type \<Rightarrow> qualified_name list \<Rightarrow>
     (qualified_name option \<times> qualified_name list) option" where
  "incomplete_argument_within n me ty seen =
     (case ty of
        Type_Path typ \<Rightarrow> find_map_seen (incompleteness_of_argument n me) (all_type_arguments typ) seen
      | _ \<Rightarrow> Some (None, seen))"

definition incomplete_argument_of :: "nat \<Rightarrow> type_converter \<Rightarrow> rust_type \<Rightarrow> qualified_name option option" where
  "incomplete_argument_of n me rs_definition = map_option fst (incomplete_argument_within n me rs_definition [])"

definition concrete_api ::
    "qualified_name \<Rightarrow> rust_type \<Rightarrow> string \<Rightarrow> qualified_name option \<Rightarrow> unanalyzed_api" where
  "concrete_api tn rs_definition cpp_definition incomplete_argument =
     Api_ConcreteType (new_from_qualified_name tn) (Some rs_definition) cpp_definition None [] incomplete_argument"

definition synthetic_name :: "(string, qualified_name) index_map \<Rightarrow> string \<Rightarrow> qualified_name" where
  "synthetic_name concrete_templates cpp_definition =
     (let synthetic_ident = concrete_type_ident cpp_definition;
          synthetic_ident = (if synthetic_ident \<in> set (map (get_final_item \<circ> snd) concrete_templates)
                             then ''AutocxxConcrete'' @ nat_to_string (length concrete_templates)
                             else synthetic_ident)
      in QualifiedName_new Namespace_new (make_ident synthetic_ident))"

text \<open>What \<open>get_templated_typename\<close> does once the instantiation may be made and has its C++ spelling.\<close>

definition find_or_make_concrete ::
    "nat \<Rightarrow> rust_type \<Rightarrow> string \<Rightarrow> (qualified_name \<times> unanalyzed_api option) conv" where
  "find_or_make_concrete n rs_definition cpp_definition = (\<lambda>me.
     case map_of (tc_concrete_templates me) cpp_definition of
       Some tn \<Rightarrow> Some (Inr (tn, None), me)
     | None \<Rightarrow>
         (let tn = synthetic_name (tc_concrete_templates me) cpp_definition in
          case incomplete_argument_of n me rs_definition of
            None \<Rightarrow> None
          | Some incomplete_argument \<Rightarrow>
              (let me = (case incomplete_argument of
                           Some argument \<Rightarrow> me\<lparr>tc_instantiations_on_incomplete_types :=
                               imap_insert tn argument (tc_instantiations_on_incomplete_types me)\<rparr>
                         | None \<Rightarrow> me)
               in Some (Inr (tn, Some (concrete_api tn rs_definition cpp_definition incomplete_argument)),
                        me\<lparr>tc_concrete_templates := imap_insert cpp_definition tn (tc_concrete_templates me)\<rparr>))))"

definition get_templated_typename ::
    "nat \<Rightarrow> rust_type \<Rightarrow> (qualified_name \<times> unanalyzed_api option) conv" where
  "get_templated_typename n rs_definition =
     tc_bind (tc_when (mentions_cpp_array rs_definition)
                (TypeError (CppArrayInTemplateArgument rs_definition))) (\<lambda>_.
     tc_bind (\<lambda>me. tc_unwrap (unsatisfiable_inner_type me rs_definition) me) (\<lambda>unsatisfiable.
     tc_bind (case unsatisfiable of
                None \<Rightarrow> tc_return ()
              | Some (argument, inner_type) \<Rightarrow>
                  tc_bind (tc_unwrap (case rs_definition of Type_Path typ \<Rightarrow> from_type_path typ | _ \<Rightarrow> None))
                    (\<lambda>instantiation. tc_throw
                       (TypeError (DependentQualifiedTypeOnSubstitute instantiation argument inner_type)))) (\<lambda>_.
     tc_bind (\<lambda>me. tc_result (type_to_cpp (tc_original_name_map me) rs_definition) me) (\<lambda>cpp_definition.
     find_or_make_concrete n rs_definition cpp_definition))))"

text \<open>A pushed API may meet its own name, which is the collection's business.\<close>

definition with_surface :: "holder_surface option \<Rightarrow> unanalyzed_api \<Rightarrow> unanalyzed_api option" where
  "with_surface surface api =
     (case api of
        Api_ConcreteType name rs_definition cpp_definition old deps incomplete_argument \<Rightarrow>
          Some (Api_ConcreteType name rs_definition cpp_definition surface [] incomplete_argument)
      | _ \<Rightarrow> None)"

definition defer_surface :: "qualified_name \<Rightarrow> holder_surface option \<Rightarrow> unit conv" where
  "defer_surface tn surface =
     (case surface of
        None \<Rightarrow> tc_return ()
      | Some surface \<Rightarrow> tc_modify (\<lambda>me.
          if map_of (tc_deferred_surfaces me) tn \<noteq> None then me
          else me\<lparr>tc_deferred_surfaces := imap_insert tn surface (tc_deferred_surfaces me)\<rparr>))"

definition manufacture_holder ::
    "nat \<Rightarrow> type_path \<Rightarrow> holder_surface option \<Rightarrow> (unit, unit, unit, unit) api_vec \<Rightarrow>
     (qualified_name \<times> (unit, unit, unit, unit) api_vec) conv" where
  "manufacture_holder n typ surface extra_apis =
     tc_bind (get_templated_typename n (Type_Path typ)) (\<lambda>(new_tn, api).
       case Option.bind api (with_surface surface) of
         Some api \<Rightarrow> tc_bind (tc_unwrap (apivec_push extra_apis api)) (\<lambda>extra_apis. tc_return (new_tn, extra_apis))
       | None \<Rightarrow> tc_bind (defer_surface new_tn surface) (\<lambda>_. tc_return (new_tn, extra_apis)))"

definition lower_to_holder ::
    "nat \<Rightarrow> type_path \<Rightarrow> holder_surface option \<Rightarrow> qualified_name list \<Rightarrow> (unit, unit, unit, unit) api_vec \<Rightarrow> bool \<Rightarrow>
     rust_type annotated conv" where
  "lower_to_holder n typ surface deps extra_apis target_is_const =
     tc_bind (manufacture_holder n typ surface extra_apis) (\<lambda>(new_tn, extra_apis).
     tc_return (marked_const_if target_is_const
       (Annotated_new (Type_Path (to_type_path new_tn)) (iset_insert new_tn deps) extra_apis Kind_Regular)))"

definition take_deferred_surfaces ::
    "type_converter \<Rightarrow> (qualified_name, holder_surface) index_map \<times> type_converter" where
  "take_deferred_surfaces me = (tc_deferred_surfaces me, me\<lparr>tc_deferred_surfaces := []\<rparr>)"

section \<open>Holders and their surfaces\<close>

definition arg_is_const_qualified :: "type_path \<Rightarrow> bool conv" where
  "arg_is_const_qualified arg =
     (if unwrap_const arg \<noteq> None then tc_return True
      else tc_bind (tc_unwrap (from_type_path arg)) (\<lambda>qn.
           tc_bind (resolve_typedef qn) (\<lambda>target.
           tc_return (case target of Some target \<Rightarrow> tti_is_const target | None \<Rightarrow> False))))"

fun any_const_qualified :: "rust_type list \<Rightarrow> bool conv" where
  "any_const_qualified [] = tc_return False"
| "any_const_qualified (arg # args) =
     (case arg of
        Type_Path inner \<Rightarrow>
          tc_bind (arg_is_const_qualified inner) (\<lambda>b. if b then tc_return True else any_const_qualified args)
      | _ \<Rightarrow> any_const_qualified args)"

definition generic_args_are_const_qualified :: "type_path \<Rightarrow> bool conv" where
  "generic_args_are_const_qualified typ = any_const_qualified (direct_generic_args typ)"

definition convert_const_payload ::
    "converts \<Rightarrow> type_path \<Rightarrow> namespace \<Rightarrow> rust_type annotated option conv" where
  "convert_const_payload conv typ ns =
     (case last_segment_arguments typ of
        AngleBracketed [GenericArgument_Type (Type_Path payload)] \<Rightarrow>
          tc_bind (case unwrap_const payload of
                     Some inner \<Rightarrow> tc_return (Some inner)
                   | None \<Rightarrow> tc_bind (arg_is_const_qualified payload) (\<lambda>b.
                               tc_return (if b then Some (Type_Path payload) else None))) (\<lambda>payload.
            case payload of
              None \<Rightarrow> tc_return None
            | Some payload \<Rightarrow> tc_bind (conv payload ns WithinContainer) (\<lambda>a. tc_return (Some a)))
      | _ \<Rightarrow> tc_return None)"

definition const_smart_pointer_surface ::
    "nat \<Rightarrow> converts \<Rightarrow> qualified_name \<Rightarrow> type_path \<Rightarrow> namespace \<Rightarrow> (unit, unit, unit, unit) api_vec \<Rightarrow>
     (holder_surface option \<times> (unit, unit, unit, unit) api_vec) conv" where
  "const_smart_pointer_surface n conv tn typ ns extra_apis =
     tc_bind (convert_const_payload conv typ ns) (\<lambda>payload.
       case payload of
         None \<Rightarrow> tc_return (None, extra_apis)
       | Some payload \<Rightarrow>
           tc_bind (tc_unwrap (apivec_append extra_apis (ann_extra_apis payload))) (\<lambda>extra_apis.
             let ty = ann_ty payload; deps = ann_types_encountered payload; cpp_name = to_cpp_name tn in
             if cpp_name = ''std::shared_ptr'' then tc_return (Some (Holder_SharedPtr ty deps), extra_apis)
             else if cpp_name = ''std::unique_ptr'' then tc_return (Some (Holder_UniquePtr ty deps), extra_apis)
             else if cpp_name = ''std::weak_ptr'' then
               tc_bind (manufacture_holder n (sibling_shared_ptr typ) (Some (Holder_SharedPtr ty deps)) extra_apis)
                 (\<lambda>(shared_holder, extra_apis).
                   tc_return (Some (Holder_WeakPtr shared_holder [shared_holder]), extra_apis))
             else tc_return (None, extra_apis)))"

definition custom_ptr_surface ::
    "converts \<Rightarrow> qualified_name \<Rightarrow> type_path \<Rightarrow> namespace \<Rightarrow> (unit, unit, unit, unit) api_vec \<Rightarrow>
     (holder_surface \<times> (unit, unit, unit, unit) api_vec) conv" where
  "custom_ptr_surface conv tn typ ns extra_apis =
     (case direct_generic_args typ of
        [] \<Rightarrow> tc_throw (ItemError (SmartPointerWithoutTypeArgument tn))
      | Type_Path argument # _ \<Rightarrow>
          tc_bind (arg_is_const_qualified argument) (\<lambda>payload_is_const.
            case (case unwrap_const argument of Some inner \<Rightarrow> inner | None \<Rightarrow> Type_Path argument) of
              Type_Path stripped \<Rightarrow>
                tc_bind (conv (Type_Path stripped) ns WithinContainer) (\<lambda>payload.
                tc_bind (tc_unwrap (apivec_append extra_apis (ann_extra_apis payload))) (\<lambda>extra_apis.
                tc_return (Holder_CustomPtr (ann_ty payload) (Type_Path argument) payload_is_const
                             (ann_types_encountered payload), extra_apis)))
            | stripped \<Rightarrow> tc_throw (ItemError (SmartPointerPayloadNotANamedType tn stripped)))
      | argument # _ \<Rightarrow> tc_throw (ItemError (SmartPointerPayloadNotANamedType tn argument)))"

section \<open>Payloads of the containers cxx knows\<close>

definition payload_name :: "generic_argument \<Rightarrow> qualified_name option option" where
  "payload_name arg =
     (case arg of
        GenericArgument_Type (Type_Path payload) \<Rightarrow> map_option Some (from_type_path payload)
      | _ \<Rightarrow> Some None)"

definition payload_names_as_written :: "generic_argument list \<Rightarrow> qualified_name option list option" where
  "payload_names_as_written args = those (map payload_name args)"

text \<open>A payload is compared with the name at its own position, \<open>None\<close> past the end.\<close>

definition payload_was_written_verbatim :: "generic_argument \<Rightarrow> qualified_name option \<Rightarrow> bool option" where
  "payload_was_written_verbatim arg as_written =
     (case (arg, as_written) of
        (GenericArgument_Type (Type_Path payload), Some written) \<Rightarrow>
          map_option (\<lambda>name. written = name) (from_type_path payload)
      | _ \<Rightarrow> Some False)"

definition written_at :: "qualified_name option list \<Rightarrow> nat \<Rightarrow> qualified_name option" where
  "written_at as_written index = (if index < length as_written then as_written ! index else None)"

fun rename_unique_ptr_payloads ::
    "nat \<Rightarrow> generic_argument list \<Rightarrow> qualified_name option list \<Rightarrow> qualified_name list \<Rightarrow>
     (generic_argument list \<times> qualified_name list) option" where
  "rename_unique_ptr_payloads index [] as_written deps = Some ([], deps)"
| "rename_unique_ptr_payloads index (arg # args) as_written deps =
     (case payload_was_written_verbatim arg (written_at as_written index) of
        None \<Rightarrow> None
      | Some verbatim \<Rightarrow>
          (let (arg, deps) =
             (case arg of
                GenericArgument_Type (Type_Path payload) \<Rightarrow>
                  (case Option.bind (from_type_path payload) (unique_ptr_payload_wrapper known_types) of
                     Some wrapper \<Rightarrow>
                       if verbatim
                       then (GenericArgument_Type (Type_Path (to_type_path wrapper)), iset_insert wrapper deps)
                       else (arg, deps)
                   | None \<Rightarrow> (arg, deps))
              | _ \<Rightarrow> (arg, deps))
           in map_option (\<lambda>(args, deps). (arg # args, deps))
                (rename_unique_ptr_payloads (Suc index) args as_written deps)))"

fun refuse_aliased_atom_payload ::
    "nat \<Rightarrow> generic_argument list \<Rightarrow> qualified_name option list \<Rightarrow> (convert_error, unit) result option" where
  "refuse_aliased_atom_payload index [] as_written = Some (Inr ())"
| "refuse_aliased_atom_payload index (arg # args) as_written =
     (case payload_was_written_verbatim arg (written_at as_written index) of
        None \<Rightarrow> None
      | Some True \<Rightarrow> refuse_aliased_atom_payload (Suc index) args as_written
      | Some False \<Rightarrow>
          (case arg of
             GenericArgument_Type (Type_Path payload) \<Rightarrow>
               (case from_type_path payload of
                  None \<Rightarrow> None
                | Some name \<Rightarrow>
                    if \<not> permissible_within_unique_ptr known_types name
                    then Some (Inl (TypeError (InvalidTypeForCppPtr name)))
                    else refuse_aliased_atom_payload (Suc index) args as_written)
           | _ \<Rightarrow> refuse_aliased_atom_payload (Suc index) args as_written))"

definition payload_incomplete :: "type_converter \<Rightarrow> qualified_name \<Rightarrow> convert_error option" where
  "payload_incomplete me inner_qn =
     (if map_of (tc_forward_declarations me) inner_qn \<noteq> None then Some (incomplete_type_error me inner_qn)
      else case instantiation_on_incomplete_type_error me inner_qn of
        Some err \<Rightarrow> Some err
      | None \<Rightarrow> undestroyable_member_error me inner_qn)"

definition has_bracketed_arguments :: "type_path \<Rightarrow> bool" where
  "has_bracketed_arguments typ \<longleftrightarrow> last_segment_arguments typ \<noteq> PathArguments_None"

text \<open>What is wrong with one payload; \<open>rust::Box\<close> settles the kind at its first one.\<close>

definition cpp_payload_error :: "cxx_generic_type \<Rightarrow> type_path \<Rightarrow> qualified_name \<Rightarrow> convert_error option" where
  "cpp_payload_error generic_behavior typ inner_qn =
     (case generic_behavior of
        CppUniquePtr \<Rightarrow>
          if \<not> permissible_within_unique_ptr known_types inner_qn
          then Some (TypeError (InvalidTypeForCppPtr inner_qn)) else None
      | CppSharedPtr \<Rightarrow>
          if \<not> permissible_within_shared_or_weak_ptr known_types inner_qn
          then Some (TypeError (InvalidTypeForCppPtr inner_qn)) else None
      | CppVector \<Rightarrow>
          if \<not> permissible_within_vector known_types inner_qn
          then Some (TypeError (InvalidTypeForCppVector inner_qn))
          else if has_bracketed_arguments typ then Some (TypeError GenericsWithinVector)
          else None
      | _ \<Rightarrow> None)"

definition rust_payload_kind :: "include_cpp_config \<Rightarrow> qualified_name \<Rightarrow> (convert_error, converted_kind) result" where
  "rust_payload_kind config inner_qn =
     (if get_namespace inner_qn \<noteq> [] then Inl (TypeError (RustTypeWithAPath inner_qn))
      else if \<not> is_rust_type config (get_final_item inner_qn)
      then Inl (TypeError (BoxContainingNonRustType inner_qn))
      else if is_subclass_holder config (get_final_item inner_qn)
      then Inr (Kind_SubclassHolder (get_final_item inner_qn))
      else Inr Kind_Regular)"

fun confirm_inner_type_is_acceptable_generic_payload ::
    "type_converter \<Rightarrow> generic_argument list \<Rightarrow> qualified_name \<Rightarrow> cxx_generic_type \<Rightarrow> bool \<Rightarrow>
     (convert_error, converted_kind) result option" where
  "confirm_inner_type_is_acceptable_generic_payload me [] desc generic_behavior forward_declarations_ok =
     Some (Inr Kind_Regular)"
| "confirm_inner_type_is_acceptable_generic_payload me (arg # path_args) desc generic_behavior
     forward_declarations_ok =
     (case arg of
        GenericArgument_Type (Type_Path typ) \<Rightarrow>
          (case from_type_path typ of
             None \<Rightarrow> None
           | Some inner_qn \<Rightarrow>
               (case (if forward_declarations_ok then None else payload_incomplete me inner_qn) of
                  Some err \<Rightarrow> Some (Inl err)
                | None \<Rightarrow>
                    if generic_behavior = Generic_Rust then Some (rust_payload_kind (tc_config me) inner_qn)
                    else case cpp_payload_error generic_behavior typ inner_qn of
                      Some err \<Rightarrow> Some (Inl err)
                    | None \<Rightarrow> confirm_inner_type_is_acceptable_generic_payload me path_args desc
                                generic_behavior forward_declarations_ok))
      | _ \<Rightarrow> Some (Inl (TypeError (TemplatedTypeContainingNonPathArg desc))))"

fun convert_punctuated_from ::
    "converts \<Rightarrow> generic_argument list \<Rightarrow> namespace \<Rightarrow> type_conversion_context \<Rightarrow>
     generic_argument list \<Rightarrow> qualified_name list \<Rightarrow> (unit, unit, unit, unit) api_vec \<Rightarrow>
     generic_argument list annotated conv" where
  "convert_punctuated_from conv [] ns ctx new_pun types_encountered extra_apis =
     tc_return (Annotated_new new_pun types_encountered extra_apis Kind_Regular)"
| "convert_punctuated_from conv (arg # pun) ns ctx new_pun types_encountered extra_apis =
     (case arg of
        GenericArgument_Type t \<Rightarrow>
          tc_bind (conv t ns ctx) (\<lambda>innerty.
          tc_bind (tc_unwrap (apivec_append extra_apis (ann_extra_apis innerty))) (\<lambda>extra_apis.
          convert_punctuated_from conv pun ns ctx (new_pun @ [GenericArgument_Type (ann_ty innerty)])
            (fold iset_insert (ann_types_encountered innerty) types_encountered) extra_apis))
      | _ \<Rightarrow> convert_punctuated_from conv pun ns ctx (new_pun @ [arg]) types_encountered extra_apis)"

definition convert_punctuated ::
    "converts \<Rightarrow> generic_argument list \<Rightarrow> namespace \<Rightarrow> type_conversion_context \<Rightarrow> generic_argument list annotated conv" where
  "convert_punctuated conv pun ns ctx = convert_punctuated_from conv pun ns ctx [] [] ApiVec_new"

section \<open>Paths\<close>

text \<open>A path that starts neither at the root nor at a known type is taken from the namespace it is in.\<close>

definition qualify_path :: "type_path \<Rightarrow> namespace \<Rightarrow> type_path conv" where
  "qualify_path typ ns =
     (case segments typ of
        [] \<Rightarrow> (\<lambda>me. None)
      | first_seg # _ \<Rightarrow>
          if seg_ident first_seg = ''root'' \<or> seg_ident first_seg = ''output'' then tc_return typ
          else tc_bind (tc_unwrap (from_type_path typ)) (\<lambda>ty.
            if is_known_type known_types ty then tc_return typ
            else if length (segments typ) > 1 then tc_throw (TypeError (UnsupportedBuiltInType ty))
            else tc_bind (tc_get tc_types_found) (\<lambda>types_found.
              if ty \<in> set types_found then tc_return typ
              else tc_return (TypePath (has_qself typ) (leading_colon typ)
                     (map (\<lambda>s. PathSegment (make_ident s) PathArguments_None) (''output'' # ns) @ segments typ)))))"

text \<open>A typedef is either the path it resolved to, with its name, or a type converted outright.\<close>

datatype resolved_typedef = Resolved_Path type_path qualified_name | Resolved_Converted "rust_type annotated"

definition extend_types :: "qualified_name list \<Rightarrow> 'a annotated \<Rightarrow> 'a annotated" where
  "extend_types deps a = a\<lparr>ann_types_encountered := fold iset_insert deps (ann_types_encountered a)\<rparr>"

definition resolve_typedef_target ::
    "converts \<Rightarrow> type_path \<Rightarrow> qualified_name \<Rightarrow> namespace \<Rightarrow> type_conversion_context \<Rightarrow> qualified_name list \<Rightarrow>
     target_facts \<Rightarrow> (resolved_typedef \<times> qualified_name list) conv" where
  "resolve_typedef_target conv typ original_tn ns ctx deps target =
     tc_bind (resolve_typedef original_tn) (\<lambda>resolved.
       case resolved of
         None \<Rightarrow> tc_return (Resolved_Path typ original_tn, deps)
       | Some info \<Rightarrow>
           (case tti_ty info of
              Type_Path resolved_tp \<Rightarrow>
                (case function_pointer resolved_tp ctx of
                   Some r \<Rightarrow>
                     tc_bind (tc_result (Some r)) (\<lambda>annotated.
                     tc_return (Resolved_Converted (marked_const_if (tf_is_const target) (extend_types deps annotated)), []))
                 | None \<Rightarrow>
                     if extract_pinned_mutable_reference_type resolved_tp \<noteq> None
                     then tc_return (Resolved_Converted
                            (Annotated_new (Type_Path resolved_tp) deps ApiVec_new Kind_MutableReference), [])
                     else tc_bind (tc_unwrap (from_type_path resolved_tp)) (\<lambda>resolved_tn.
                          tc_return (Resolved_Path resolved_tp resolved_tn, iset_insert resolved_tn deps)))
            | Type_Ptr m elem \<Rightarrow>
                tc_bind (convert_ptr conv m elem ns ctx) (\<lambda>annotated.
                let annotated = extend_types deps annotated;
                    annotated = (if tti_kind info = Kind_RValueReference
                                 then annotated\<lparr>ann_kind := Kind_RValueReference\<rparr> else annotated)
                in tc_return (Resolved_Converted (marked_const_if (tf_is_const target) annotated), []))
            | other \<Rightarrow>
                tc_return (Resolved_Converted (marked_from target
                  (Annotated_new other deps ApiVec_new
                     (case other of Type_Reference True _ \<Rightarrow> Kind_MutableReference
                      | Type_Reference False _ \<Rightarrow> Kind_Reference
                      | _ \<Rightarrow> Kind_Regular))), [])))"

text \<open>One level into a container's arguments: through a pointer, or out of the \<open>const\<close> marker.\<close>

definition payload_behind :: "rust_type \<Rightarrow> rust_type" where
  "payload_behind arg =
     (case arg of
        Type_Ptr m elem \<Rightarrow> elem
      | Type_Path p \<Rightarrow> (case unwrap_const p of Some inner \<Rightarrow> inner | None \<Rightarrow> arg)
      | _ \<Rightarrow> arg)"

fun refuse_string_views :: "rust_type list \<Rightarrow> unit conv" where
  "refuse_string_views [] = tc_return ()"
| "refuse_string_views (arg # args) =
     (case payload_behind arg of
        Type_Path p \<Rightarrow>
          tc_bind (tc_unwrap (from_type_path p)) (\<lambda>tn.
          tc_bind (resolve_typedef tn) (\<lambda>resolved.
          tc_bind (case resolved of
                     Some info \<Rightarrow> (case tti_ty info of
                         Type_Path target \<Rightarrow> tc_unwrap (from_type_path target) | _ \<Rightarrow> tc_return tn)
                   | None \<Rightarrow> tc_return tn) (\<lambda>tn.
          tc_bind (tc_when (is_string_view known_types tn) (SignatureError StringViewOutOfCpp)) (\<lambda>_.
          refuse_string_views args))))
      | _ \<Rightarrow> refuse_string_views args)"

definition substitute_known :: "qualified_name \<Rightarrow> type_path \<Rightarrow> type_path" where
  "substitute_known tn typ =
     (case consider_substitution known_types tn of
        Some substitute_type \<Rightarrow>
          (if segments typ = [] then substitute_type
           else set_last_arguments (last_segment_arguments typ) substitute_type)
      | None \<Rightarrow>
          (case segments typ of
             first_seg # rest \<Rightarrow>
               if seg_ident first_seg = ''root''
               then TypePath (has_qself typ) (leading_colon typ)
                      (PathSegment (make_ident ''output'') (seg_arguments first_seg) # rest)
               else typ
           | [] \<Rightarrow> typ))"

definition has_generic_args :: "type_path \<Rightarrow> bool" where
  "has_generic_args typ \<longleftrightarrow> last_segment_arguments typ \<notin> {PathArguments_None, AngleBracketed []}"

text \<open>A container cxx knows: its payloads are converted, renamed and checked.\<close>

definition convert_container ::
    "converts \<Rightarrow> type_path \<Rightarrow> qualified_name \<Rightarrow> cxx_generic_type \<Rightarrow> bool \<Rightarrow> namespace \<Rightarrow> qualified_name list \<Rightarrow>
     target_facts \<Rightarrow> rust_type annotated conv" where
  "convert_container conv typ tn generic_behavior payload_is_const ns deps target =
     (case last_segment_arguments typ of
        AngleBracketed args \<Rightarrow>
          tc_bind (tc_when payload_is_const (TypeError (ConstCxxContainerPayload tn))) (\<lambda>_.
          tc_bind (tc_unwrap (payload_names_as_written args)) (\<lambda>payloads_as_written.
          tc_bind (convert_punctuated conv args ns WithinContainer) (\<lambda>innerty.
          tc_bind (if generic_behavior = CppUniquePtr
                   then tc_unwrap (rename_unique_ptr_payloads 0 (ann_ty innerty) payloads_as_written deps)
                   else tc_return (ann_ty innerty, deps)) (\<lambda>(args, deps).
          tc_bind (if generic_behavior = CppSharedPtr
                   then tc_result (refuse_aliased_atom_payload 0 args payloads_as_written)
                   else tc_return ()) (\<lambda>_.
          tc_bind (tc_unwrap (apivec_append ApiVec_new (ann_extra_apis innerty))) (\<lambda>extra_apis.
          tc_bind (\<lambda>me. tc_result (confirm_inner_type_is_acceptable_generic_payload me args tn
                             generic_behavior (generic_behavior = Generic_Rust)) me) (\<lambda>kind.
          tc_return (marked_from target
            (Annotated_new (Type_Path (set_last_arguments (AngleBracketed args) typ))
               (fold iset_insert (ann_types_encountered innerty) deps) extra_apis kind)))))))))
      | _ \<Rightarrow> tc_throw (TypeError (TemplatedTypeContainingNonPathArg tn)))"

definition refers_to_generic_param :: "type_conversion_context \<Rightarrow> type_path \<Rightarrow> bool" where
  "refers_to_generic_param ctx typ \<longleftrightarrow>
     list_ex (\<lambda>arg. case arg of
         Type_Path p \<Rightarrow> length (segments p) = 1 \<and> \<not> allowed_generic_type ctx (seg_ident (last (segments p)))
       | _ \<Rightarrow> False) (all_type_arguments typ)"

text \<open>A template cxx knows nothing of: a concrete type is made for the instantiation.\<close>

definition convert_instantiation ::
    "nat \<Rightarrow> converts \<Rightarrow> type_path \<Rightarrow> qualified_name \<Rightarrow> namespace \<Rightarrow> type_conversion_context \<Rightarrow> qualified_name list \<Rightarrow>
     target_facts \<Rightarrow> rust_type annotated conv" where
  "convert_instantiation n conv typ tn ns ctx deps target =
     tc_bind (tc_when (refers_to_generic_param ctx typ) (TypeError ReferringToGenericTypeParam)) (\<lambda>_.
     tc_bind (tc_unwrap (from_type_path typ)) (\<lambda>qn.
     tc_bind (tc_get (\<lambda>me. map_of (tc_ignored_types me) qn)) (\<lambda>ignored.
     tc_bind (case ignored of
                Some reason \<Rightarrow> tc_throw (ConcreteVersionOfIgnoredTemplate qn reason)
              | None \<Rightarrow> tc_return ()) (\<lambda>_.
     tc_bind (tc_when (mentions_long_double (Type_Path typ)) (TypeError LongDouble)) (\<lambda>_.
     tc_bind (tc_when (mentions_float128 (Type_Path typ)) (TypeError Float128)) (\<lambda>_.
     tc_bind (tc_when (mentions_volatile (Type_Path typ)) (TypeError VolatileTemplateArgument)) (\<lambda>_.
     tc_bind (tc_get (\<lambda>me. is_smart_pointer_template (tc_config me) (to_cpp_name tn))) (\<lambda>is_smart_pointer.
     if is_smart_pointer then
       tc_bind (custom_ptr_surface conv tn typ ns ApiVec_new) (\<lambda>(surface, extra_apis).
       lower_to_holder n typ (Some surface) deps extra_apis (tf_is_const target))
     else
       tc_bind (get_templated_typename n (Type_Path typ)) (\<lambda>(new_tn, api).
       tc_bind (tc_unwrap (apivec_extend ApiVec_new (case api of Some api \<Rightarrow> [api] | None \<Rightarrow> []))) (\<lambda>extra_apis.
       tc_return (marked_from target
         (Annotated_new (Type_Path (to_type_path new_tn)) (iset_insert new_tn deps) extra_apis Kind_Regular))))))))))))"

section \<open>The conversion\<close>

text \<open>What becomes of a path once typedefs are behind it.\<close>

definition convert_resolved_path ::
    "nat \<Rightarrow> converts \<Rightarrow> type_path \<Rightarrow> qualified_name \<Rightarrow> namespace \<Rightarrow> type_conversion_context \<Rightarrow> qualified_name list \<Rightarrow>
     target_facts \<Rightarrow> rust_type annotated conv" where
  "convert_resolved_path n conv typ tn ns ctx deps target =
     (let generic_behavior = cxx_generic_behavior known_types tn in
      tc_bind (tc_when (generic_behavior \<noteq> Generic_Not \<and> mentions_volatile (Type_Path typ))
                 (TypeError VolatileTemplateArgument)) (\<lambda>_.
      tc_bind (if generic_behavior \<noteq> Generic_Not then refuse_string_views (direct_generic_args typ)
               else tc_return ()) (\<lambda>_.
      tc_bind (if generic_behavior \<noteq> Generic_Not then generic_args_are_const_qualified typ
               else tc_return False) (\<lambda>payload_is_const.
      if generic_behavior \<in> {CppUniquePtr, CppSharedPtr} \<and> payload_is_const then
        tc_bind (const_smart_pointer_surface n conv tn typ ns ApiVec_new) (\<lambda>(surface, extra_apis).
        lower_to_holder n typ surface deps extra_apis (tf_is_const target))
      else case (if generic_behavior = CppVector then sole_pointer_generic_arg typ else None) of
        Some element \<Rightarrow>
          tc_bind (conv element ns WithinContainer) (\<lambda>element.
          lower_to_holder n typ (Some (Holder_VectorOfPointers (ann_ty element) (ann_types_encountered element)))
            deps (ann_extra_apis element) (tf_is_const target))
      | None \<Rightarrow>
          (let typ = substitute_known tn typ in
           if \<not> has_generic_args typ then
             tc_return (marked_from target (Annotated_new (Type_Path typ) deps ApiVec_new Kind_Regular))
           else if generic_behavior \<noteq> Generic_Not then
             convert_container conv typ tn generic_behavior payload_is_const ns deps target
           else convert_instantiation n conv typ tn ns ctx deps target)))))"

definition convert_type_path_which_is_not_a_reference ::
    "(string \<Rightarrow> bool) \<Rightarrow> nat \<Rightarrow> converts \<Rightarrow> type_path \<Rightarrow> namespace \<Rightarrow> type_conversion_context \<Rightarrow>
     rust_type annotated conv" where
  "convert_type_path_which_is_not_a_reference ok n conv typ ns ctx =
     tc_bind (qualify_path typ ns) (\<lambda>typ.
     tc_bind (tc_unwrap (from_type_path typ)) (\<lambda>original_tn.
     tc_bind (tc_when (is_va_list original_tn) (TypeError UnsupportedVaList)) (\<lambda>_.
     tc_bind (tc_is_on_blocklist (to_cpp_name original_tn)) (\<lambda>blocked.
     tc_bind (tc_when blocked (Blocked original_tn)) (\<lambda>_.
     case validate_ok_for_cxx ok original_tn of
       Inl e \<Rightarrow>
         tc_bind (resolve_through_unnameable_alias ok original_tn) (\<lambda>target.
           case target of
             None \<Rightarrow> tc_throw (InvalidIdent e)
           | Some target \<Rightarrow> conv target (get_namespace original_tn) ctx)
     | Inr _ \<Rightarrow>
         (let deps = iset_insert original_tn [] in
          tc_bind (resolve_typedef original_tn) (\<lambda>resolved.
          let target = (case resolved of
                          Some target \<Rightarrow> \<lparr>tf_is_const = tti_is_const target, tf_is_std_array = tti_is_std_array target\<rparr>
                        | None \<Rightarrow> \<lparr>tf_is_const = False, tf_is_std_array = False\<rparr>) in
          tc_bind (resolve_typedef_target conv typ original_tn ns ctx deps target) (\<lambda>(resolved, deps).
            case resolved of
              Resolved_Converted annotated \<Rightarrow> tc_return annotated
            | Resolved_Path typ tn \<Rightarrow> convert_resolved_path n conv typ tn ns ctx deps target))))))))"

definition refuse_incomplete :: "type_conversion_context \<Rightarrow> qualified_name \<Rightarrow> unit conv" where
  "refuse_incomplete ctx qn = (\<lambda>me.
     if allow_instantiation_of_forward_declaration ctx then Some (Inr (), me)
     else if map_of (tc_forward_declarations me) qn \<noteq> None then Some (Inl (incomplete_type_error me qn), me)
     else if within_struct_field ctx then Some (Inr (), me)
     else case instantiation_on_incomplete_type_error me qn of
       Some err \<Rightarrow> Some (Inl err, me)
     | None \<Rightarrow>
         (case undestroyable_member_error me qn of
            Some err \<Rightarrow> Some (Inl err, me)
          | None \<Rightarrow> Some (Inr (), me)))"

definition convert_path_which_is_not_a_reference ::
    "(string \<Rightarrow> bool) \<Rightarrow> nat \<Rightarrow> converts \<Rightarrow> type_path \<Rightarrow> namespace \<Rightarrow> type_conversion_context \<Rightarrow>
     rust_type annotated conv" where
  "convert_path_which_is_not_a_reference ok n conv typ ns ctx =
     tc_bind (convert_type_path_which_is_not_a_reference ok n conv typ ns ctx) (\<lambda>newp.
       case ann_ty newp of
         Type_Path newpp \<Rightarrow>
           tc_bind (tc_unwrap (from_type_path newpp)) (\<lambda>qn.
           tc_bind (refuse_incomplete ctx qn) (\<lambda>_.
           tc_return
             (if should_dereference_in_cpp known_types qn
              then Annotated_new (Type_Reference False (Type_Path (plain_path False [''str''])))
                     (ann_types_encountered newp) (ann_extra_apis newp) Kind_Reference
              else newp)))
       | _ \<Rightarrow> tc_return newp)"

definition convert_type_path ::
    "(string \<Rightarrow> bool) \<Rightarrow> nat \<Rightarrow> converts \<Rightarrow> type_path \<Rightarrow> namespace \<Rightarrow> type_conversion_context \<Rightarrow>
     rust_type annotated conv" where
  "convert_type_path ok n conv typ ns ctx =
     (case function_pointer typ ctx of
        Some r \<Rightarrow> tc_result (Some r)
      | None \<Rightarrow>
     (case unwrap_const typ of
        Some ty \<Rightarrow> tc_bind (conv ty ns ctx) (\<lambda>a. tc_return (marked_const a))
      | None \<Rightarrow>
     (case unwrap_volatile typ of
        Some ty \<Rightarrow> conv ty ns ctx
      | None \<Rightarrow>
     (case unwrap_has_opaque typ of
        Some ty \<Rightarrow>
          if \<not> within_struct_field ctx then tc_throw (TypeError (BindgenOpaqueBlob ty)) else conv ty ns ctx
      | None \<Rightarrow>
     (case unwrap_long_double typ of
        Some ty \<Rightarrow> if \<not> within_struct_field ctx then tc_throw (TypeError LongDouble) else conv ty ns ctx
      | None \<Rightarrow>
     (case unwrap_float128 typ of
        Some ty \<Rightarrow> if \<not> within_struct_field ctx then tc_throw (TypeError Float128) else conv ty ns ctx
      | None \<Rightarrow>
     (case unwrap_bitfield typ of
        Some ty \<Rightarrow> conv ty ns ctx
      | None \<Rightarrow>
     (case unwrap_std_array typ of
        Some ty \<Rightarrow> tc_bind (conv ty ns ctx) (\<lambda>a. tc_return (marked_std_array a))
      | None \<Rightarrow>
     (case unwrap_reference typ False of
        Some (m, elem) \<Rightarrow> convert_lvalue_reference conv m elem ns ctx
      | None \<Rightarrow>
     (case unwrap_reference typ True of
        Some (m, elem) \<Rightarrow> convert_rvalue_reference conv m elem ns ctx
      | None \<Rightarrow> convert_path_which_is_not_a_reference ok n conv typ ns ctx))))))))))"

definition convert_type_step :: "(string \<Rightarrow> bool) \<Rightarrow> nat \<Rightarrow> converts \<Rightarrow> converts" where
  "convert_type_step ok n conv ty ns ctx =
     (case ty of
        Type_Path p \<Rightarrow> convert_type_path ok n conv p ns ctx
      | Type_Reference m elem \<Rightarrow> convert_reference conv m elem ns ctx
      | Type_Array elem len \<Rightarrow> convert_array conv elem len ns ctx
      | Type_Ptr m elem \<Rightarrow> convert_ptr conv m elem ns ctx
      | _ \<Rightarrow> tc_throw (TypeError (UnknownType ty)))"

fun convert_type :: "(string \<Rightarrow> bool) \<Rightarrow> nat \<Rightarrow> converts" where
  "convert_type ok 0 = (\<lambda>ty ns ctx me. None)"
| "convert_type ok (Suc n) = convert_type_step ok n (convert_type ok n)"

text \<open>\<open>Box\<close> is transparent here.\<close>

definition convert_boxed_type :: "(string \<Rightarrow> bool) \<Rightarrow> nat \<Rightarrow> converts" where
  "convert_boxed_type ok n ty ns ctx =
     tc_bind (convert_type ok n ty ns ctx) (\<lambda>a. tc_return (annotated_map id a))"

section \<open>What conversion leaves for the list of APIs\<close>

definition add_analysis :: "unanalyzed_api \<Rightarrow> ('td, 'st, 'fn, 'sub) api option" where
  "add_analysis api =
     (case api of
        Api_ConcreteType name rs cpp surface deps incomplete \<Rightarrow> Some (Api_ConcreteType name rs cpp surface deps incomplete)
      | Api_IgnoredItem name err ctx \<Rightarrow> Some (Api_IgnoredItem name err ctx)
      | _ \<Rightarrow> None)"

text \<open>Each holder takes the surface remembered for it out of the map.\<close>

fun attach_surfaces ::
    "(qualified_name, holder_surface) index_map \<Rightarrow> ('td, 'st, 'fn, 'sub) api list \<Rightarrow> ('td, 'st, 'fn, 'sub) api list" where
  "attach_surfaces surfaces [] = []"
| "attach_surfaces surfaces (api # l) =
     (case api of
        Api_ConcreteType name rs cpp None deps incomplete \<Rightarrow>
          Api_ConcreteType name rs cpp (map_of surfaces (an_name name)) deps incomplete
            # attach_surfaces (AList.delete (an_name name) surfaces) l
      | _ \<Rightarrow> api # attach_surfaces surfaces l)"

definition attach_deferred_holder_surfaces ::
    "type_converter \<Rightarrow> ('td, 'st, 'fn, 'sub) api_vec \<Rightarrow> (('td, 'st, 'fn, 'sub) api_vec \<times> type_converter) option" where
  "attach_deferred_holder_surfaces me v =
     (case take_deferred_surfaces me of
        (surfaces, me) \<Rightarrow>
          if surfaces = [] then Some (v, me)
          else map_option (\<lambda>v. (v, me)) (apivec_from_iter (attach_surfaces surfaces (apis v))))"

end
