(* ===== verification/StatefulPasses.thy ===== *)
theory StatefulPasses imports ErrorReporter begin

text \<open>
  Passes whose conversions share a state (\<^verbatim>\<open>conversion/error_reporter.rs\<close>): the closures given to
  \<^verbatim>\<open>convert_apis\<close> capture the type converter and a list of further APIs and change both as they go from
  item to item. A conversion takes the state and gives its outcome with the state it leaves, or \<open>None\<close>,
  which is a panic.
\<close>

section \<open>Going through the items\<close>

type_synonym ('a, 'b, 's) item_conversion =
  "'a \<Rightarrow> 's \<Rightarrow> ((convert_error_with_context, 'b list) result \<times> 's) option"

fun outcomes ::
    "(('td, 'st, 'fn, 'sub) api, ('td2, 'st2, 'fn2, 'sub2) api, 's) item_conversion \<Rightarrow>
     ('td, 'st, 'fn, 'sub) api list \<Rightarrow> 's \<Rightarrow> (('td2, 'st2, 'fn2, 'sub2) api list \<times> 's) option" where
  "outcomes conv [] s = Some ([], s)"
| "outcomes conv (api # rest) s =
     (case conv api s of
        None \<Rightarrow> None
      | Some (outcome, s) \<Rightarrow>
          (case outcomes conv rest s of
             None \<Rightarrow> None
           | Some (l, s) \<Rightarrow> Some (api_or_error (name_info api) outcome @ l, s)))"

definition pass_with ::
    "(('td, 'st, 'fn, 'sub) api, ('td2, 'st2, 'fn2, 'sub2) api, 's) item_conversion \<Rightarrow>
     ('td, 'st, 'fn, 'sub) api_vec \<Rightarrow> ('td2, 'st2, 'fn2, 'sub2) api_vec \<Rightarrow> 's \<Rightarrow>
     (('td2, 'st2, 'fn2, 'sub2) api_vec \<times> 's) option" where
  "pass_with conv in_apis out_apis s =
     (case outcomes conv (apis in_apis) s of
        None \<Rightarrow> None
      | Some (l, s) \<Rightarrow> map_option (\<lambda>v. (v, s)) (apivec_extend out_apis l))"

text \<open>The five conversions, as \<open>conversions\<close> has them, with the state.\<close>

record ('td, 'st, 'fn, 'sub, 'td2, 'st2, 'fn2, 'sub2, 's) stateful_conversions =
  func_with :: "api_name \<Rightarrow> func_to_convert \<Rightarrow> 'fn \<Rightarrow> 's \<Rightarrow>
    ((convert_error_with_context, ('td2, 'st2, 'fn2, 'sub2) api list) result \<times> 's) option"
  struct_with :: "api_name \<Rightarrow> struct_details \<Rightarrow> 'st \<Rightarrow> 's \<Rightarrow>
    ((convert_error_with_context, ('td2, 'st2, 'fn2, 'sub2) api list) result \<times> 's) option"
  enum_with :: "api_name \<Rightarrow> item_enum \<Rightarrow> 's \<Rightarrow>
    ((convert_error_with_context, ('td2, 'st2, 'fn2, 'sub2) api list) result \<times> 's) option"
  typedef_with :: "api_name \<Rightarrow> typedef_kind \<Rightarrow> qualified_name option \<Rightarrow> 'td \<Rightarrow> 's \<Rightarrow>
    ((convert_error_with_context, ('td2, 'st2, 'fn2, 'sub2) api list) result \<times> 's) option"
  subclass_with :: "subclass_name \<Rightarrow> qualified_name \<Rightarrow> 'sub \<Rightarrow> 's \<Rightarrow>
    ((convert_error_with_context, ('td2, 'st2, 'fn2, 'sub2) api list) result \<times> 's) option"

text \<open>Every other item is handed through.\<close>

definition convert_one_api_with ::
    "('td, 'st, 'fn, 'sub, 'td2, 'st2, 'fn2, 'sub2, 's) stateful_conversions \<Rightarrow>
     (('td, 'st, 'fn, 'sub) api, ('td2, 'st2, 'fn2, 'sub2) api, 's) item_conversion" where
  "convert_one_api_with cv api s =
     (case api of
        Api_Function name fn analysis \<Rightarrow> func_with cv name fn analysis s
      | Api_Struct name details analysis \<Rightarrow> struct_with cv name details analysis s
      | Api_Enum name item \<Rightarrow> enum_with cv name item s
      | Api_Typedef name item old_tyname analysis \<Rightarrow> typedef_with cv name item old_tyname analysis s
      | Api_Subclass name superclass analysis \<Rightarrow> subclass_with cv name superclass analysis s
      | Api_ConcreteType name rs cpp hs deps ia \<Rightarrow> Some (Inr [Api_ConcreteType name rs cpp hs deps ia], s)
      | Api_ForwardDeclaration name err \<Rightarrow> Some (Inr [Api_ForwardDeclaration name err], s)
      | Api_OpaqueTypedef name fd reason \<Rightarrow> Some (Inr [Api_OpaqueTypedef name fd reason], s)
      | Api_StringConstructor name \<Rightarrow> Some (Inr [Api_StringConstructor name], s)
      | Api_Const name item \<Rightarrow> Some (Inr [Api_Const name item], s)
      | Api_Static name cpp_ty is_cpp \<Rightarrow> Some (Inr [Api_Static name cpp_ty is_cpp], s)
      | Api_CType name type_name \<Rightarrow> Some (Inr [Api_CType name type_name], s)
      | Api_RustType name path \<Rightarrow> Some (Inr [Api_RustType name path], s)
      | Api_RustFn name details deps \<Rightarrow> Some (Inr [Api_RustFn name details deps], s)
      | Api_RustSubclassFn name subclass details \<Rightarrow> Some (Inr [Api_RustSubclassFn name subclass details], s)
      | Api_IgnoredItem name err ctx \<Rightarrow> Some (Inr [Api_IgnoredItem name err ctx], s)
      | Api_SubclassTraitItem name details \<Rightarrow> Some (Inr [Api_SubclassTraitItem name details], s)
      | Api_ExternCppType name details pod \<Rightarrow> Some (Inr [Api_ExternCppType name details pod], s))"

definition convert_apis_with where
  "convert_apis_with cv = pass_with (convert_one_api_with cv)"

text \<open>A conversion that changes nothing of the state.\<close>

definition keeping :: "(convert_error_with_context, 'b list) result \<Rightarrow> 's \<Rightarrow>
    ((convert_error_with_context, 'b list) result \<times> 's) option" where
  "keeping outcome s = Some (outcome, s)"

definition item_conversion_with ::
    "(('td, 'st, 'fn, 'sub) api \<Rightarrow> 's \<Rightarrow> ((convert_error, ('td2, 'st2, 'fn2, 'sub2) api list) result \<times> 's) option) \<Rightarrow>
     (('td, 'st, 'fn, 'sub) api, ('td2, 'st2, 'fn2, 'sub2) api, 's) item_conversion" where
  "item_conversion_with fn api s =
     map_option
       (\<lambda>(r, s). (case r of
            Inr converted \<Rightarrow> Inr converted
          | Inl e \<Rightarrow> Inl (ConvertErrorWithContext e (Some (new_for_item (get_final_item (Api_name api))))), s))
       (fn api s)"

definition convert_item_apis_with where
  "convert_item_apis_with fn = pass_with (item_conversion_with fn)"

section \<open>The contract of a pass\<close>

text \<open>
  A conversion that gives one item for each it is given, under the same name, and keeps its state good. A
  failure is noted under that name too, so the pass over a list with unique names leaves the names as they
  are, in their order, and none of its pushes can meet another.
\<close>

locale one_for_one_pass =
  fixes conv :: "('td, 'st, 'fn, 'sub) api \<Rightarrow> 's \<Rightarrow>
      ((convert_error_with_context, ('td2, 'st2, 'fn2, 'sub2) api list) result \<times> 's) option"
    and good :: "'s \<Rightarrow> bool"
  assumes keeps: "good s \<Longrightarrow> conv api s = Some (outcome, s') \<Longrightarrow>
      good s' \<and> (\<forall>l. outcome = Inr l \<longrightarrow> map Api_name l = [Api_name api])"
begin

lemma outcomes_keep:
  assumes "good s" and "outcomes conv l s = Some (l', s')"
  shows "good s' \<and> map Api_name l' = map Api_name l"
  using assms
proof (induction l arbitrary: s l')
  case (Cons api rest)
  from Cons.prems(2) obtain outcome s1 l1 where step: "conv api s = Some (outcome, s1)"
    and rest: "outcomes conv rest s1 = Some (l1, s')" and l': "l' = api_or_error (name_info api) outcome @ l1"
    by (auto split: option.splits prod.splits)
  from keeps[OF Cons.prems(1) step] have kept: "good s1" "\<forall>l. outcome = Inr l \<longrightarrow> map Api_name l = [Api_name api]"
    by simp_all
  then have "map Api_name (api_or_error (name_info api) outcome) = [Api_name api]"
    by (auto simp: api_or_error_def Api_name_def split: sum.splits convert_error_with_context.splits)
  with Cons.IH[OF kept(1) rest] show ?case by (simp add: l')
qed simp

lemma pass_keeps_names:
  assumes "distinct (map Api_name (apis v))" and "good s" and "pass_with conv v ApiVec_new s = Some (w, s')"
  shows "good s' \<and> map Api_name (apis w) = map Api_name (apis v) \<and>
    outcomes conv (apis v) s = Some (apis w, s')"
proof -
  from assms(3) obtain l where l: "outcomes conv (apis v) s = Some (l, s')" "apivec_from_iter l = Some w"
    by (auto simp: pass_with_def apivec_from_iter_def split: option.splits)
  from outcomes_keep[OF assms(2) l(1)] have names: "good s'" "map Api_name l = map Api_name (apis v)" by simp_all
  with assms(1) collect_distinct[of l] l(2) have "apis w = l" by auto
  with names l(1) show ?thesis by simp
qed

end

text \<open>What holds of all that any outcome may yield holds of all that comes out.\<close>

lemma outcomes_all:
  assumes "\<And>api s outcome s'. api \<in> set l \<Longrightarrow> conv api s = Some (outcome, s') \<Longrightarrow>
      list_all P (api_or_error (name_info api) outcome)"
    and "outcomes conv l s = Some (l', s')"
  shows "list_all P l'"
  using assms
proof (induction l arbitrary: s l')
  case (Cons api rest)
  from Cons.prems(2) obtain outcome s1 l1 where step: "conv api s = Some (outcome, s1)"
    and rest: "outcomes conv rest s1 = Some (l1, s')" and l': "l' = api_or_error (name_info api) outcome @ l1"
    by (auto split: option.splits prod.splits)
  have "list_all P l1" by (rule Cons.IH[OF _ rest]) (rule Cons.prems(1), simp)
  with Cons.prems(1)[OF _ step] l' show ?case by simp
qed simp

end
