(* ===== verification/TypedefTargets.thy ===== *)
theory TypedefTargets imports ConvertType StatefulPasses begin

text \<open>
  The first pass of the conversion (\<^verbatim>\<open>convert_typedef_targets\<close> of \<^verbatim>\<open>analysis/tdef.rs\<close>): where each typedef
  points, with the checks every item goes through (\<^verbatim>\<open>check_for_fatal_attrs\<close> of \<^verbatim>\<open>conversion/mod.rs\<close>).
  The pass keeps the type converter and the APIs the converter adds as its state. The fuel \<open>n\<close> and what
  \<^verbatim>\<open>syn\<close> takes for an identifier, \<open>ok\<close>, are those of \<open>convert_type\<close>.
\<close>

section \<open>Attributes nothing can be done about\<close>

definition item_context :: "qualified_name \<Rightarrow> error_context option" where
  "item_context name = Some (new_for_item (get_final_item name))"

definition fatal :: "convert_error \<Rightarrow> qualified_name \<Rightarrow> (convert_error_with_context, 'a) result" where
  "fatal e name = Inl (ConvertErrorWithContext e (item_context name))"

definition check_for_fatal_attrs ::
    "parse_callback_results \<Rightarrow> qualified_name \<Rightarrow> (convert_error_with_context, unit) result option" where
  "check_for_fatal_attrs p name =
     (if is_va_list name then Some (fatal (TypeError UnsupportedVaList) name)
      else if is_std_function name then Some (fatal (TypeError UnsupportedStdFunction) name)
      else case discards_template_param p name of
        None \<Rightarrow> None
      | Some True \<Rightarrow> Some (fatal (ItemError UnusedTemplateParam) name)
      | Some False \<Rightarrow>
          (case get_cpp_visibility p name of
             None \<Rightarrow> None
           | Some Public \<Rightarrow> Some (Inr ())
           | Some _ \<Rightarrow> Some (fatal (ItemError NonPublicNestedType) name)))"

section \<open>One typedef\<close>

type_synonym conversion_state = "type_converter \<times> (unit, unit, unit, unit) api_vec"

definition effective_is_nested :: "cpp_effective_name \<Rightarrow> bool" where
  "effective_is_nested n \<longleftrightarrow> sublist ''::'' (effective_name_string n)"

text \<open>A target bindgen wrote as bytes leaves the name behind, which is enough for an opaque type.\<close>

definition blob_stand_in ::
    "api_name \<Rightarrow> convert_error \<Rightarrow> conversion_state \<Rightarrow>
     (typedef_analysis, unit, unit, unit) api \<times> conversion_state" where
  "blob_stand_in name err = (\<lambda>(me, extra_apis).
     case is_instantiable (tc_config me) (to_cpp_name (an_name name)) of
       (asked, config) \<Rightarrow>
         (Api_OpaqueTypedef name (\<not> asked) (Some \<lparr>otr_culprit = an_name name, otr_reason = err\<rparr>),
          (me\<lparr>tc_config := config\<rparr>, extra_apis)))"

definition names_itself :: "api_name \<Rightarrow> rust_type \<Rightarrow> bool option" where
  "names_itself name ty =
     (case ty of
        Type_Path typ \<Rightarrow> map_option (\<lambda>qn. qn = an_name name) (from_type_path typ)
      | _ \<Rightarrow> Some False)"

definition typedef_api ::
    "api_name \<Rightarrow> item_type \<Rightarrow> qualified_name option \<Rightarrow> rust_type \<Rightarrow> converted_kind \<Rightarrow> bool \<Rightarrow> bool \<Rightarrow>
     qualified_name list \<Rightarrow> (typedef_analysis, unit, unit, unit) api" where
  "typedef_api name ity old_tyname ty kind is_const is_std_array deps =
     Api_Typedef name (TypedefKind_Type ity) old_tyname
       \<lparr>ta_kind = TypedefKind_Type (ity\<lparr>it_ty := ty\<rparr>), ta_target_kind = kind, ta_target_is_const = is_const,
        ta_target_is_std_array = is_std_array, ta_deps = deps\<rparr>"

text \<open>The \<^verbatim>\<open>match\<close> on what the type converter made of the target.\<close>

definition typedef_of_conversion ::
    "api_name \<Rightarrow> item_type \<Rightarrow> qualified_name option \<Rightarrow> (convert_error, rust_type annotated) result \<Rightarrow> conversion_state \<Rightarrow>
     ((convert_error_with_context, (typedef_analysis, unit, unit, unit) api) result \<times> conversion_state) option" where
  "typedef_of_conversion name ity old_tyname converted = (\<lambda>(me, extra_apis).
     case converted of
       Inl err \<Rightarrow>
         if (case err of TypeError (BindgenOpaqueBlob _) \<Rightarrow> True | _ \<Rightarrow> False) \<and>
            \<not> effective_is_nested (ApiName_cpp_name name)
         then Some (apfst Inr (blob_stand_in name err (me, extra_apis)))
         else Some (fatal err (an_name name), (me, extra_apis))
     | Inr final_type \<Rightarrow>
         (case names_itself name (ann_ty final_type) of
            None \<Rightarrow> None
          | Some True \<Rightarrow> Some (fatal (InfinitelyRecursiveTypedef (an_name name)) (an_name name), (me, extra_apis))
          | Some False \<Rightarrow>
              map_option
                (\<lambda>extra_apis.
                   (Inr (typedef_api name ity old_tyname (ann_ty final_type) (ann_kind final_type)
                      (ann_is_const final_type) (ann_is_std_array final_type) (ann_types_encountered final_type)),
                    (me, extra_apis)))
                (apivec_append extra_apis (ann_extra_apis final_type))))"

definition get_replacement_typedef ::
    "(string \<Rightarrow> bool) \<Rightarrow> nat \<Rightarrow> parse_callback_results \<Rightarrow> api_name \<Rightarrow> item_type \<Rightarrow> qualified_name option \<Rightarrow>
     conversion_state \<Rightarrow>
     ((convert_error_with_context, (typedef_analysis, unit, unit, unit) api) result \<times> conversion_state) option" where
  "get_replacement_typedef ok n p name ity old_tyname = (\<lambda>(me, extra_apis).
     if it_type_params ity \<noteq> [] \<or> it_other_params ity \<noteq> 0
     then Some (fatal (TypeError TypedefTakesGenericParameters) (an_name name), (me, extra_apis))
     else case check_for_fatal_attrs p (an_name name) of
       None \<Rightarrow> None
     | Some (Inl e) \<Rightarrow> Some (Inl e, (me, extra_apis))
     | Some (Inr _) \<Rightarrow>
     (case alias_template_params_of p (an_name name) of
        None \<Rightarrow> None
      | Some params \<Rightarrow>
          (case (case params of
                   Some params \<Rightarrow> if atp_declared params > atp_type_params params then Some params else None
                 | None \<Rightarrow> None) of
             Some params \<Rightarrow>
               Some (fatal (AliasTemplate (atp_declared params) (atp_type_params params)) (an_name name), (me, extra_apis))
           | None \<Rightarrow>
               if (case it_ty ity of Type_Path typ \<Rightarrow> unwrap_function_pointer typ \<noteq> None | _ \<Rightarrow> False)
               then Some (Inr (typedef_api name ity old_tyname (it_ty ity) Kind_Pointer False False []),
                          (me, extra_apis))
               else case convert_type ok n (it_ty ity) (get_namespace (an_name name)) WithinTypedef me of
                 None \<Rightarrow> None
               | Some (converted, me) \<Rightarrow> typedef_of_conversion name ity old_tyname converted (me, extra_apis))))"

definition convert_typedef ::
    "(string \<Rightarrow> bool) \<Rightarrow> nat \<Rightarrow> parse_callback_results \<Rightarrow> api_name \<Rightarrow> typedef_kind \<Rightarrow> qualified_name option \<Rightarrow>
     unit \<Rightarrow> conversion_state \<Rightarrow>
     ((convert_error_with_context, (typedef_analysis, unit, unit, unit) api list) result \<times> conversion_state) option" where
  "convert_typedef ok n p name item old_tyname u s =
     (case item of
        TypedefKind_Type ity \<Rightarrow>
          map_option (apfst (map_sum id (\<lambda>api. [api]))) (get_replacement_typedef ok n p name ity old_tyname s)
      | TypedefKind_Use ty \<Rightarrow>
          Some (Inr [Api_Typedef name item old_tyname
            \<lparr>ta_kind = item, ta_target_kind = Kind_Regular, ta_target_is_const = False,
             ta_target_is_std_array = False, ta_deps = []\<rparr>], s))"

section \<open>Typedefs to alias templates\<close>

definition is_alias_template :: "('td, 'st, 'fn, 'sub) api \<Rightarrow> bool" where
  "is_alias_template api \<longleftrightarrow>
     (case api of
        Api_IgnoredItem name err ctx \<Rightarrow>
          (case err of ItemError UnusedTemplateParam \<Rightarrow> True | AliasTemplate _ _ \<Rightarrow> True | _ \<Rightarrow> False)
      | _ \<Rightarrow> False)"

definition alias_templates :: "('td, 'st, 'fn, 'sub) api list \<Rightarrow> qualified_name list" where
  "alias_templates l = map Api_name (filter is_alias_template l)"

definition wants_arguments :: "qualified_name list \<Rightarrow> (typedef_analysis, 'st, 'fn, 'sub) api \<Rightarrow> bool" where
  "wants_arguments templates api \<longleftrightarrow>
     (case api of
        Api_Typedef name item old_tyname analysis \<Rightarrow> set templates \<inter> set (ta_deps analysis) \<noteq> {}
      | _ \<Rightarrow> False)"

definition ignore_typedef :: "qualified_name list \<Rightarrow> (typedef_analysis, 'st, 'fn, 'sub) api \<Rightarrow> (typedef_analysis, 'st, 'fn, 'sub) api" where
  "ignore_typedef templates api =
     (if wants_arguments templates api
      then Api_IgnoredItem (name_info api) (ItemError UnusedTemplateParam) (item_context (Api_name api))
      else api)"

definition ignore_round ::
    "(typedef_analysis, 'st, 'fn, 'sub) api_vec \<Rightarrow> ((typedef_analysis, 'st, 'fn, 'sub) api_vec \<times> bool) option" where
  "ignore_round v =
     (let templates = alias_templates (apis v) in
      map_option (\<lambda>v'. (v', list_ex (wants_arguments templates) (apis v)))
        (apivec_from_iter (map (ignore_typedef templates) (apis v))))"

definition ignore_typedefs_to_alias_templates ::
    "(typedef_analysis, 'st, 'fn, 'sub) api_vec \<Rightarrow> (typedef_analysis, 'st, 'fn, 'sub) api_vec option" where
  "ignore_typedefs_to_alias_templates v = run_rounds ignore_round v"

section \<open>The pass\<close>

definition typedef_conversions ::
    "(string \<Rightarrow> bool) \<Rightarrow> nat \<Rightarrow> parse_callback_results \<Rightarrow>
     (unit, unit, unit, unit, typedef_analysis, unit, unit, unit, conversion_state) stateful_conversions" where
  "typedef_conversions ok n p =
     \<lparr>func_with = (\<lambda>name fn a. keeping (fun_unchanged name fn a)),
      struct_with = (\<lambda>name details a. keeping (struct_unchanged name details a)),
      enum_with = (\<lambda>name item. keeping (enum_unchanged name item)),
      typedef_with = convert_typedef ok n p,
      subclass_with = (\<lambda>name superclass a. keeping (subclass_unchanged name superclass a))\<rparr>"

text \<open>Two steps every pass that owns a converter ends with.\<close>

definition add_extra_apis ::
    "('td, 'st, 'fn, 'sub) api_vec \<Rightarrow> (unit, unit, unit, unit) api list \<Rightarrow> ('td, 'st, 'fn, 'sub) api_vec option" where
  "add_extra_apis v l = Option.bind (those (map add_analysis l)) (apivec_extend v)"

definition convert_typedef_targets ::
    "(string \<Rightarrow> bool) \<Rightarrow> nat \<Rightarrow> include_cpp_config \<Rightarrow> (unit, unit, unit, unit) api_vec \<Rightarrow> parse_callback_results \<Rightarrow>
     ((typedef_analysis, unit, unit, unit) api_vec \<times> include_cpp_config) option" where
  "convert_typedef_targets ok n config v p =
     Option.bind (TypeConverter_new n config no_target v p) (\<lambda>me.
     Option.bind (convert_apis_with (typedef_conversions ok n p) v ApiVec_new (me, ApiVec_new))
       (\<lambda>(results, (me, extra_apis)).
     Option.bind (add_extra_apis results (apis extra_apis)) (\<lambda>results.
     Option.bind (attach_deferred_holder_surfaces me results) (\<lambda>(results, me).
     map_option (\<lambda>results. (results, tc_config me)) (ignore_typedefs_to_alias_templates results)))))"

section \<open>One item for each\<close>

lemma typedef_of_conversion_named:
  "typedef_of_conversion name ity old_tyname converted s = Some (Inr api, s') \<Longrightarrow> name_info api = name"
  by (auto simp: typedef_of_conversion_def fatal_def blob_stand_in_def typedef_api_def
      split: sum.splits prod.splits option.splits bool.splits if_splits)

lemma replacement_named:
  "get_replacement_typedef ok n p name ity old_tyname s = Some (Inr api, s') \<Longrightarrow> name_info api = name"
  by (auto simp: get_replacement_typedef_def fatal_def typedef_api_def dest: typedef_of_conversion_named
      split: prod.splits if_splits option.splits sum.splits)

lemma convert_typedef_named:
  "convert_typedef ok n p name item old_tyname u s = Some (Inr l, s') \<Longrightarrow> map Api_name l = [an_name name]"
  by (cases item) (auto simp: convert_typedef_def Api_name_def map_sum_Inr_iff dest!: replacement_named)

interpretation typedef_pass: one_for_one_pass "convert_one_api_with (typedef_conversions ok n p)" "\<lambda>_. True"
proof
  fix api :: "(unit, unit, unit, unit) api" and s s' :: conversion_state and outcome
  assume "convert_one_api_with (typedef_conversions ok n p) api s = Some (outcome, s')"
  then show "True \<and> (\<forall>l. outcome = Inr l \<longrightarrow> map Api_name l = [Api_name api])"
    by (auto simp: convert_one_api_with_def typedef_conversions_def keeping_def fun_unchanged_def
        struct_unchanged_def enum_unchanged_def subclass_unchanged_def Api_name_def
        dest!: convert_typedef_named split: api.splits)
qed

section \<open>Typedefs that still want arguments\<close>

text \<open>An alias template, or a typedef that depends on one by a chain of typedefs.\<close>

inductive erased :: "(typedef_analysis, 'st, 'fn, 'sub) api list \<Rightarrow> qualified_name \<Rightarrow> bool" for l where
  template: "api \<in> set l \<Longrightarrow> is_alias_template api \<Longrightarrow> erased l (Api_name api)"
| alias_of: "Api_Typedef name item old_tyname analysis \<in> set l \<Longrightarrow> dep \<in> set (ta_deps analysis) \<Longrightarrow>
    erased l dep \<Longrightarrow> erased l (an_name name)"

definition erased_item :: "(typedef_analysis, 'st, 'fn, 'sub) api list \<Rightarrow> (typedef_analysis, 'st, 'fn, 'sub) api \<Rightarrow> bool" where
  "erased_item l api \<longleftrightarrow>
     (case api of
        Api_Typedef name item old_tyname analysis \<Rightarrow> (\<exists>dep \<in> set (ta_deps analysis). erased l dep)
      | _ \<Rightarrow> False)"

definition as_ignored :: "(typedef_analysis, 'st, 'fn, 'sub) api \<Rightarrow> (typedef_analysis, 'st, 'fn, 'sub) api" where
  "as_ignored api = Api_IgnoredItem (name_info api) (ItemError UnusedTemplateParam) (item_context (Api_name api))"

lemma as_ignored_simps [simp]:
  "Api_name (as_ignored api) = Api_name api" "is_alias_template (as_ignored api)"
  "\<not> wants_arguments templates (as_ignored api)" "\<not> erased_item l (as_ignored api)"
  by (simp_all add: as_ignored_def Api_name_def is_alias_template_def wants_arguments_def erased_item_def)

lemma ignore_typedef_eq: "ignore_typedef templates api = (if wants_arguments templates api then as_ignored api else api)"
  by (simp add: ignore_typedef_def as_ignored_def)

lemma ignore_typedef_name [simp]: "Api_name (ignore_typedef templates api) = Api_name api"
  by (simp add: ignore_typedef_eq)

text \<open>
  What every round keeps: the items of \<open>l\<close> in their places, some of those that are erased ignored.
\<close>

definition ignored_some where
  "ignored_some l v \<longleftrightarrow> apivec_wf v \<and>
     list_all2 (\<lambda>api api'. api' = api \<or> erased_item l api \<and> api' = as_ignored api) l (apis v)"

definition typedefs_left :: "(typedef_analysis, 'st, 'fn, 'sub) api_vec \<Rightarrow> nat" where
  "typedefs_left v = length (filter (\<lambda>api. case api of Api_Typedef _ _ _ _ \<Rightarrow> True | _ \<Rightarrow> False) (apis v))"

lemma ignored_someD:
  assumes "ignored_some l v" and "api' \<in> set (apis v)"
  obtains api where "api \<in> set l" "api' = api \<or> erased_item l api \<and> api' = as_ignored api"
  using assms unfolding ignored_some_def list_all2_conv_all_nth in_set_conv_nth by metis

lemma ignored_some_image:
  assumes "ignored_some l v" and "api \<in> set l"
  obtains api' where "api' \<in> set (apis v)" "api' = api \<or> erased_item l api \<and> api' = as_ignored api"
  using assms unfolding ignored_some_def list_all2_conv_all_nth in_set_conv_nth by metis

lemma templates_are_erased:
  assumes "ignored_some l v" and "t \<in> set (alias_templates (apis v))"
  shows "erased l t"
proof -
  from assms(2) obtain api' where api': "api' \<in> set (apis v)" "is_alias_template api'" "t = Api_name api'"
    by (auto simp: alias_templates_def)
  from ignored_someD[OF assms(1) api'(1)] obtain api where api: "api \<in> set l"
    "api' = api \<or> erased_item l api \<and> api' = as_ignored api" .
  show ?thesis
  proof (cases "api' = api")
    case True
    with api api' show ?thesis by (auto intro: erased.template)
  next
    case False
    with api(2) have "erased_item l api" "t = Api_name api" by (auto simp: api'(3))
    with api(1) show ?thesis
      by (auto simp: erased_item_def Api_name_def intro: erased.alias_of split: api.splits)
  qed
qed

lemma wanting_is_erased:
  assumes "ignored_some l v" and "wants_arguments (alias_templates (apis v)) api"
  shows "erased_item l api"
  using assms(2) templates_are_erased[OF assms(1)]
  by (auto simp: wants_arguments_def erased_item_def split: api.splits)

lemma ignore_round_step:
  assumes "ignored_some l v"
  shows "\<exists>v'. ignore_round v = Some (v', list_ex (wants_arguments (alias_templates (apis v))) (apis v)) \<and>
    apis v' = map (ignore_typedef (alias_templates (apis v))) (apis v) \<and> ignored_some l v'"
proof -
  let ?t = "alias_templates (apis v)"
  let ?m = "map (ignore_typedef ?t) (apis v)"
  from assms have wf: "apivec_wf v" by (simp add: ignored_some_def)
  then have "\<forall>api \<in> set ?m. stub_ok api"
    by (auto simp: apivec_wf_def ignore_typedef_eq as_ignored_def stub_ok_def is_displaced_function_def)
  from apivec_extend_wf[OF apivec_wf_new this] obtain v' where v': "apivec_from_iter ?m = Some v'" "apivec_wf v'"
    by (auto simp: apivec_from_iter_def)
  have "distinct (map Api_name ?m)" using wf by (simp add: apivec_wf_def comp_def)
  with collect_distinct[of ?m] v'(1) have apis: "apis v' = ?m" by auto
  have "list_all2 (\<lambda>api api'. api' = api \<or> erased_item l api \<and> api' = as_ignored api) l ?m"
    using assms wanting_is_erased[OF assms]
    by (auto simp: ignored_some_def ignore_typedef_eq list_all2_conv_all_nth)
  with v' apis show ?thesis by (auto simp: ignore_round_def Let_def ignored_some_def)
qed

lemma typedefs_left_less:
  assumes "apis v' = map (ignore_typedef t) (apis v)" and "list_ex (wants_arguments t) (apis v)"
  shows "typedefs_left v' < typedefs_left v"
proof -
  let ?is_tdef = "\<lambda>api. case api of Api_Typedef _ _ _ _ \<Rightarrow> True | _ \<Rightarrow> False"
  have each: "wants_arguments t api \<Longrightarrow> ?is_tdef api \<and> \<not> ?is_tdef (ignore_typedef t api)"
    "?is_tdef (ignore_typedef t api) \<Longrightarrow> ?is_tdef api" for api :: "(typedef_analysis, 'a, 'b, 'c) api"
    by (auto simp: ignore_typedef_eq wants_arguments_def as_ignored_def split: api.splits if_splits)
  have le: "length (filter ?is_tdef (map (ignore_typedef t) l)) \<le> length (filter ?is_tdef l)"
    for l :: "(typedef_analysis, 'a, 'b, 'c) api list"
    by (induction l) (auto dest: each(2))
  have "length (filter ?is_tdef (map (ignore_typedef t) l)) < length (filter ?is_tdef l)"
    if "list_ex (wants_arguments t) l" for l :: "(typedef_analysis, 'a, 'b, 'c) api list"
    using that
  proof (induction l)
    case (Cons api l)
    show ?case
    proof (cases "wants_arguments t api")
      case True
      with each(1) le[of l] show ?thesis by fastforce
    next
      case False
      with Cons show ?thesis by (auto dest: each(2))
    qed
  qed simp
  with assms show ?thesis by (simp add: typedefs_left_def)
qed

interpretation ignoring: converging_rounds ignore_round "ignored_some l" typedefs_left
proof
  fix v assume "ignored_some l v"
  from ignore_round_step[OF this] typedefs_left_less
  show "\<exists>v' again. ignore_round v = Some (v', again) \<and> ignored_some l v' \<and>
      (again \<longrightarrow> typedefs_left v' < typedefs_left v)" by blast
qed

lemma erased_are_templates:
  assumes "ignored_some l v" and "\<not> list_ex (wants_arguments (alias_templates (apis v))) (apis v)" and "erased l q"
  shows "q \<in> set (alias_templates (apis v))"
  using assms(3)
proof induction
  case (template api)
  from ignored_some_image[OF assms(1) template(1)] obtain api' where api': "api' \<in> set (apis v)"
    "api' = api \<or> erased_item l api \<and> api' = as_ignored api" .
  from this(2) template(2) have "is_alias_template api'" "Api_name api = Api_name api'" by auto
  with api'(1) show ?case by (auto simp: alias_templates_def)
next
  case (alias_of name item old_tyname analysis dep)
  let ?api = "Api_Typedef name item old_tyname analysis"
  from ignored_some_image[OF assms(1) alias_of(1)] obtain api' where api': "api' \<in> set (apis v)"
    "api' = ?api \<or> erased_item l ?api \<and> api' = as_ignored ?api" .
  from alias_of have "wants_arguments (alias_templates (apis v)) ?api" by (auto simp: wants_arguments_def)
  with api' assms(2) have "api' = as_ignored ?api" by (auto simp: list_ex_iff)
  then have "is_alias_template api'" "an_name name = Api_name api'" by (simp, simp add: Api_name_def as_ignored_def)
  with api'(1) show ?case by (auto simp: alias_templates_def)
qed

section \<open>Properties\<close>

text \<open>
  C29: ignoring the typedefs that still want template arguments ends, and ignores exactly those which
  depend, by a chain of typedefs of any length, on an alias template: each is replaced by a note under its
  own name, everything else stays as it is and in its place.
\<close>

theorem ignores_exactly_the_erased:
  fixes v :: "(typedef_analysis, 'st, 'fn, 'sub) api_vec"
  assumes "apivec_wf v"
  shows "\<exists>v'. ignore_typedefs_to_alias_templates v = Some v' \<and>
    apis v' = map (\<lambda>api. if erased_item (apis v) api then as_ignored api else api) (apis v)"
proof -
  have "ignored_some (apis v) v" using assms by (simp add: ignored_some_def list_all2_refl)
  from ignoring.rounds_end[OF this] obtain w v' where w: "ignored_some (apis v) w" "ignore_round w = Some (v', False)"
    and v': "ignore_typedefs_to_alias_templates v = Some v'"
    by (auto simp: ignore_typedefs_to_alias_templates_def)
  from ignore_round_step[OF w(1)] w(2) have settled: "\<not> list_ex (wants_arguments (alias_templates (apis w))) (apis w)"
    and "apis v' = map (ignore_typedef (alias_templates (apis w))) (apis w)" by auto
  then have "apis v' = apis w" by (simp add: ignore_typedef_eq list_ex_iff map_idI)
  moreover have "apis w ! i = (if erased_item (apis v) (apis v ! i) then as_ignored (apis v ! i) else apis v ! i)"
    if "i < length (apis v)" for i
  proof (cases "apis w ! i = apis v ! i")
    case True
    have i: "apis w ! i \<in> set (apis w)" using w(1) that by (auto simp: ignored_some_def list_all2_conv_all_nth)
    have "\<not> erased_item (apis v) (apis v ! i)"
    proof
      assume "erased_item (apis v) (apis v ! i)"
      with erased_are_templates[OF w(1) settled] have "wants_arguments (alias_templates (apis w)) (apis w ! i)"
        by (auto simp: True erased_item_def wants_arguments_def split: api.splits)
      with settled i show False by (auto simp: list_ex_iff)
    qed
    with True show ?thesis by simp
  next
    case False
    with w(1) that show ?thesis by (auto simp: ignored_some_def list_all2_conv_all_nth)
  qed
  ultimately have "apis v' = map (\<lambda>api. if erased_item (apis v) api then as_ignored api else api) (apis v)"
    using w(1) by (intro nth_equalityI) (auto simp: ignored_some_def list_all2_conv_all_nth)
  with v' show ?thesis by blast
qed

text \<open>An alias template \<open>A\<close>, a typedef \<open>B\<close> of it, \<open>C\<close> of \<open>B\<close>, and \<open>D\<close> of none of these.\<close>

definition sample_typedef :: "string \<Rightarrow> string list \<Rightarrow> (typedef_analysis, unit, unit, unit) api" where
  "sample_typedef name deps =
     Api_Typedef (new_from_qualified_name (QualifiedName [] name)) (TypedefKind_Use (Type_Other ''t'')) None
       \<lparr>ta_kind = TypedefKind_Use (Type_Other ''t''), ta_target_kind = Kind_Regular, ta_target_is_const = False,
        ta_target_is_std_array = False, ta_deps = map (QualifiedName []) deps\<rparr>"

definition sample_template :: "(typedef_analysis, unit, unit, unit) api" where
  "sample_template = Api_IgnoredItem (new_from_qualified_name (QualifiedName [] ''A'')) (AliasTemplate 1 0) None"

definition sample_chain_of_typedefs :: "(typedef_analysis, unit, unit, unit) api_vec" where
  "sample_chain_of_typedefs =
     \<lparr>apis = [sample_typedef ''C'' [''B''], sample_typedef ''B'' [''A''], sample_template, sample_typedef ''D'' [''int'']],
      names = map (QualifiedName []) [''C'', ''B'', ''A'', ''D'']\<rparr>"

lemma sample_typedefs_wf: "apivec_wf sample_chain_of_typedefs"
  by (simp add: apivec_wf_def sample_chain_of_typedefs_def sample_typedef_def sample_template_def Api_name_def
      new_from_qualified_name_def new_from_qualified_name_and_cpp_name_def stub_ok_def is_displaced_function_def)

lemma sample_erased:
  fixes l defines "l \<equiv> apis sample_chain_of_typedefs"
  shows "erased l (QualifiedName [] ''A'')" and "erased l (QualifiedName [] ''B'')"
    and "\<not> erased l (QualifiedName [] ''int'')"
proof -
  note defs = l_def sample_chain_of_typedefs_def sample_typedef_def sample_template_def Api_name_def
    new_from_qualified_name_def new_from_qualified_name_and_cpp_name_def is_alias_template_def
  have "Api_name sample_template = QualifiedName [] ''A''" by (simp add: defs)
  with erased.template[of sample_template l] show A: "erased l (QualifiedName [] ''A'')" by (simp add: defs)
  have "sample_typedef ''B'' [''A''] \<in> set l" by (simp add: l_def sample_chain_of_typedefs_def)
  from erased.alias_of[OF this[unfolded sample_typedef_def] _ A] show "erased l (QualifiedName [] ''B'')"
    by (simp add: defs)
  have "erased l q \<Longrightarrow> q \<noteq> QualifiedName [] ''int''" for q
    by (induction rule: erased.induct) (auto simp: defs)
  then show "\<not> erased l (QualifiedName [] ''int'')" by blast
qed

lemma ignores_exactly_the_erased_witness:
  "\<exists>v'. ignore_typedefs_to_alias_templates sample_chain_of_typedefs = Some v' \<and>
     apis v' = [as_ignored (sample_typedef ''C'' [''B'']), as_ignored (sample_typedef ''B'' [''A'']),
                sample_template, sample_typedef ''D'' [''int'']]"
  using ignores_exactly_the_erased[OF sample_typedefs_wf] sample_erased
  by (simp add: sample_chain_of_typedefs_def erased_item_def sample_typedef_def sample_template_def)

end
