(* ===== verification/StructOrder.thy ===== *)
theory StructOrder imports Pod begin

text \<open>
  The fields a struct's fitness for POD rests on, and the order in which structs are looked at, so
  that each comes after what it holds (\<^verbatim>\<open>get_field_dependencies\<close> and \<^verbatim>\<open>structs_in_dependency_order\<close> of
  \<^verbatim>\<open>analysis/pod/byvalue_checker.rs\<close>).
\<close>

section \<open>The fields a verdict rests on\<close>

record field_dependency =
  fdep_field :: "string option"
  fdep_ty :: qualified_name

text \<open>\<open>None\<close> is the panic of \<^verbatim>\<open>from_type_path\<close> on a path with no segment.\<close>

definition field_dependency_of :: "item_field \<Rightarrow> field_dependency list option" where
  "field_dependency_of f =
     (if case if_ident f of Some idt \<Rightarrow> prefix ''__bindgen_padding_'' idt | None \<Rightarrow> False then Some []
      else
        let field_ty = strip_layout_markers (if_ty f);
            field_is_array = (case field_ty of Type_Array _ _ \<Rightarrow> True | _ \<Rightarrow> False)
        in case unqualified_array_element_type field_ty of
             Type_Path p \<Rightarrow>
               if unwrap_bitfield p \<noteq> None then Some []
               else if unwrap_function_pointer p \<noteq> None then Some []
               else if field_is_array \<and> unwrap_has_opaque p \<noteq> None then Some []
               else map_option (\<lambda>ty. [\<lparr>fdep_field = if_ident f, fdep_ty = ty\<rparr>]) (from_type_path p)
           | _ \<Rightarrow> Some [])"

fun collect_options :: "'a list option list \<Rightarrow> 'a list option" where
  "collect_options [] = Some []"
| "collect_options (x # xs) =
     (case x of
        None \<Rightarrow> None
      | Some l \<Rightarrow> map_option (\<lambda>rest. l @ rest) (collect_options xs))"

definition get_field_dependencies :: "item_struct \<Rightarrow> field_dependency list option" where
  "get_field_dependencies def = collect_options (map field_dependency_of (is_fields def))"

definition has_vtable :: "item_struct \<Rightarrow> bool" where
  "has_vtable def \<longleftrightarrow> list_ex (\<lambda>f. if_ident f = Some ''vtable_'') (is_fields def)"

definition bases_are_opaque_bytes :: "item_struct \<Rightarrow> bool" where
  "bases_are_opaque_bytes def \<longleftrightarrow> list_ex (\<lambda>f. if_ident f = Some ''__bindgen_bases'') (is_fields def)"

section \<open>The order of the structs\<close>

datatype progress = Unseen | UnderWay | Ordered

text \<open>In the loop below only an unseen position makes the stack grow, and it is not unseen afterwards.\<close>

lemma count_update_other:
  "i < length xs \<Longrightarrow> xs ! i \<noteq> a \<Longrightarrow> b \<noteq> a \<Longrightarrow> count_list (xs[i := b]) a = count_list xs a"
  by (induction xs arbitrary: i) (auto split: nat.splits)

lemma count_update_first:
  "i < length xs \<Longrightarrow> xs ! i = a \<Longrightarrow> b \<noteq> a \<Longrightarrow> count_list (xs[i := b]) a < count_list xs a"
  by (induction xs arbitrary: i) (auto split: nat.splits)

lemma count_update_le:
  "i < length xs \<Longrightarrow> b \<noteq> a \<Longrightarrow> count_list (xs[i := b]) a \<le> count_list xs a"
  by (metis count_update_first count_update_other le_refl less_imp_le)

text \<open>The explicit stack, its top first; \<open>dependencies\<close> answers with positions in the list of structs.\<close>

function order_loop ::
    "(nat \<Rightarrow> nat list option) \<Rightarrow> (nat \<times> bool) list \<Rightarrow> progress list \<Rightarrow> nat list \<Rightarrow>
     (progress list \<times> nat list) option" where
  "order_loop dependencies [] progress order = Some (progress, order)"
| "order_loop dependencies ((position, coming_back_up) # stack) progress order =
     (if position \<ge> length progress then None
      else if coming_back_up then
        order_loop dependencies stack (progress[position := Ordered]) (order @ [position])
      else if progress ! position \<noteq> Unseen then order_loop dependencies stack progress order
      else case dependencies position of
        None \<Rightarrow> None
      | Some ds \<Rightarrow>
          let progress = progress[position := UnderWay] in
          order_loop dependencies
            (rev (map (\<lambda>d. (d, False)) (filter (\<lambda>d. progress ! d = Unseen) ds)) @ (position, True) # stack)
            progress order)"
  by pat_completeness auto

termination
proof (relation "inv_image (less_than <*lex*> less_than)
         (\<lambda>(dependencies, stack, progress, order). (count_list progress Unseen, length stack))", goal_cases)
  case (2 dependencies position coming_back_up stack progress order)
  then have "count_list (progress[position := Ordered]) Unseen \<le> count_list progress Unseen"
    by (intro count_update_le) auto
  then show ?case by auto
next
  case (4 dependencies position coming_back_up stack progress order ds progress')
  then have "count_list (progress[position := UnderWay]) Unseen < count_list progress Unseen"
    by (intro count_update_first) auto
  then show ?case using 4 by auto
qed auto

fun order_from ::
    "(nat \<Rightarrow> nat list option) \<Rightarrow> nat list \<Rightarrow> progress list \<Rightarrow> nat list \<Rightarrow>
     (progress list \<times> nat list) option" where
  "order_from dependencies [] progress order = Some (progress, order)"
| "order_from dependencies (root # roots) progress order =
     (if progress ! root \<noteq> Unseen then order_from dependencies roots progress order
      else case order_loop dependencies [(root, False)] progress order of
        None \<Rightarrow> None
      | Some (progress, order) \<Rightarrow> order_from dependencies roots progress order)"

definition struct_items :: "('td, 'st, 'fn, 'sub) api list \<Rightarrow> (qualified_name \<times> item_struct) list" where
  "struct_items l =
     concat (map (\<lambda>api. case api of
                    Api_Struct name details analysis \<Rightarrow> [(Api_name api, sd_item details)]
                  | _ \<Rightarrow> []) l)"

definition struct_positions :: "(qualified_name \<times> item_struct) list \<Rightarrow> (qualified_name, nat) index_map" where
  "struct_positions structs =
     fold (\<lambda>(position, name). imap_insert name position) (enumerate 0 (map fst structs)) []"

definition dependency_positions :: "(qualified_name \<times> item_struct) list \<Rightarrow> nat \<Rightarrow> nat list option" where
  "dependency_positions structs position =
     map_option (\<lambda>fields. List.map_filter (\<lambda>field. map_of (struct_positions structs) (fdep_ty field)) fields)
       (get_field_dependencies (snd (structs ! position)))"

definition structs_in_dependency_order ::
    "('td, 'st, 'fn, 'sub) api list \<Rightarrow> (item_struct \<times> namespace) list option" where
  "structs_in_dependency_order l =
     (let structs = struct_items l in
      map_option
        (\<lambda>(progress, order). map (\<lambda>position. (snd (structs ! position), get_namespace (fst (structs ! position)))) order)
        (order_from (dependency_positions structs) [0 ..< length structs]
           (replicate (length structs) Unseen) []))"

section \<open>The order, proved\<close>

definition visits_ok :: "nat \<Rightarrow> (nat \<times> bool) list \<Rightarrow> progress list \<Rightarrow> nat list \<Rightarrow> bool" where
  "visits_ok n stack progress order \<longleftrightarrow>
     length progress = n \<and> distinct order \<and> set order = {i. i < n \<and> progress ! i = Ordered} \<and>
     (\<forall>x \<in> set stack. fst x < n) \<and>
     {i. (i, True) \<in> set stack} = {i. i < n \<and> progress ! i = UnderWay} \<and>
     distinct (map fst (filter snd stack))"

lemma under_way_on_stack:
  assumes "visits_ok n stack progress order" and "i < n" and "progress ! i = UnderWay"
  shows "(i, True) \<in> set stack"
proof -
  have "{i. (i, True) \<in> set stack} = {i. i < n \<and> progress ! i = UnderWay}"
    using assms(1) by (simp add: visits_ok_def)
  with assms(2,3) show ?thesis by blast
qed

lemma ordered_in_order:
  "visits_ok n stack progress order \<Longrightarrow> i < n \<Longrightarrow> progress ! i = Ordered \<Longrightarrow> i \<in> set order"
  by (simp add: visits_ok_def)

definition bounded_answers :: "nat \<Rightarrow> (nat \<Rightarrow> nat list option) \<Rightarrow> bool" where
  "bounded_answers n dependencies \<longleftrightarrow>
     (\<forall>i < n. \<exists>ds. dependencies i = Some ds \<and> (\<forall>d \<in> set ds. d < n))"

lemma visits_come_back:
  assumes "visits_ok n ((i, True) # stack) progress order"
  shows "visits_ok n stack (progress[i := Ordered]) (order @ [i])"
proof -
  have i: "i < n" "length progress = n" "progress ! i = UnderWay"
    using assms by (auto simp: visits_ok_def)
  moreover have "(i, True) \<notin> set stack" using assms by (force simp: visits_ok_def)
  ultimately show ?thesis using assms
    by (auto simp: visits_ok_def nth_list_update split: if_splits)
qed

lemma visits_skip:
  "visits_ok n ((i, False) # stack) progress order \<Longrightarrow> visits_ok n stack progress order"
  by (auto simp: visits_ok_def)

lemma visits_go_down:
  assumes "visits_ok n ((i, False) # stack) progress order" and "progress ! i = Unseen"
    and "\<forall>d \<in> set ds. d < n"
  shows "visits_ok n (rev (map (\<lambda>d. (d, False)) (filter P ds)) @ (i, True) # stack) (progress[i := UnderWay]) order"
proof -
  have i: "i < n" "length progress = n" using assms(1) by (auto simp: visits_ok_def)
  have "{k. (k, True) \<in> set stack} = {k. k < n \<and> progress ! k = UnderWay}"
    using assms(1) by (simp add: visits_ok_def)
  then have "(i, True) \<in> set stack \<Longrightarrow> progress ! i = UnderWay" by blast
  then have new: "(i, True) \<notin> set stack" using assms(2) by auto
  have "filter snd (rev (map (\<lambda>d. (d, False)) (filter P ds))) = []" by (auto simp: filter_empty_conv)
  then show ?thesis using assms i new
    by (auto simp: visits_ok_def nth_list_update split: if_splits)
qed

lemma order_loop_visits:
  assumes "visits_ok n stack progress order" and "bounded_answers n dependencies"
  shows "\<exists>progress' order'. order_loop dependencies stack progress order = Some (progress', order') \<and>
     visits_ok n [] progress' order' \<and>
     (\<forall>i < n. progress ! i \<noteq> Unseen \<or> i \<in> fst ` set stack \<longrightarrow> progress' ! i \<noteq> Unseen)"
  using assms
proof (induction dependencies stack progress order rule: order_loop.induct)
  case (1 dependencies progress order)
  then show ?case by auto
next
  case (2 dependencies i up stack progress order)
  then have i: "\<not> i \<ge> length progress" by (auto simp: visits_ok_def)
  consider (up) "up" | (seen) "\<not> up" "progress ! i \<noteq> Unseen" | (down) "\<not> up" "progress ! i = Unseen" by blast
  then show ?case
  proof cases
    case up
    with 2(4) have "visits_ok n stack (progress[i := Ordered]) (order @ [i])"
      by (intro visits_come_back) simp
    from 2(1)[OF i up this 2(5)] obtain progress' order' where
      r: "order_loop dependencies stack (progress[i := Ordered]) (order @ [i]) = Some (progress', order')"
      "visits_ok n [] progress' order'"
      "\<forall>k < n. progress[i := Ordered] ! k \<noteq> Unseen \<or> k \<in> fst ` set stack \<longrightarrow> progress' ! k \<noteq> Unseen" by blast
    have "\<forall>k < n. progress ! k \<noteq> Unseen \<or> k \<in> fst ` set ((i, up) # stack) \<longrightarrow> progress' ! k \<noteq> Unseen"
      using r(3) i by (auto simp: nth_list_update split: if_splits)
    with r up i show ?thesis by auto
  next
    case seen
    with 2(4) have "visits_ok n stack progress order" by (auto intro: visits_skip)
    from 2(2)[OF i seen this 2(5)] seen i show ?thesis by auto
  next
    case down
    have n: "i < n" using 2(4) by (auto simp: visits_ok_def)
    with 2(5) obtain ds where ds: "dependencies i = Some ds" "\<forall>d \<in> set ds. d < n"
      by (auto simp: bounded_answers_def)
    let ?p = "progress[i := UnderWay]"
    let ?s = "rev (map (\<lambda>d. (d, False)) (filter (\<lambda>d. ?p ! d = Unseen) ds)) @ (i, True) # stack"
    have "visits_ok n ?s ?p order" using 2(4) down ds by (intro visits_go_down) auto
    from 2(3)[OF i down(1) _ ds(1) refl this 2(5)] down obtain progress' order' where
      r: "order_loop dependencies ?s ?p order = Some (progress', order')" "visits_ok n [] progress' order'"
      "\<forall>k < n. ?p ! k \<noteq> Unseen \<or> k \<in> fst ` set ?s \<longrightarrow> progress' ! k \<noteq> Unseen" by blast
    have "\<forall>k < n. progress ! k \<noteq> Unseen \<or> k \<in> fst ` set ((i, up) # stack) \<longrightarrow> progress' ! k \<noteq> Unseen"
      using r(3) i by (auto simp: nth_list_update split: if_splits)
    with r(1,2) down i ds show ?thesis by (auto simp: Let_def)
  qed
qed

lemma order_from_visits:
  assumes "visits_ok n [] progress order" and "bounded_answers n dependencies" and "\<forall>r \<in> set roots. r < n"
  shows "\<exists>progress' order'. order_from dependencies roots progress order = Some (progress', order') \<and>
     visits_ok n [] progress' order' \<and>
     (\<forall>i < n. progress ! i \<noteq> Unseen \<or> i \<in> set roots \<longrightarrow> progress' ! i \<noteq> Unseen)"
  using assms
proof (induction dependencies roots progress order rule: order_from.induct)
  case (2 dependencies root roots progress order)
  show ?case
  proof (cases "progress ! root = Unseen")
    case True
    have "visits_ok n [(root, False)] progress order" using 2(3,5) by (auto simp: visits_ok_def)
    from order_loop_visits[OF this 2(4)] obtain p o' where
      p: "order_loop dependencies [(root, False)] progress order = Some (p, o')" "visits_ok n [] p o'"
      "\<forall>i < n. progress ! i \<noteq> Unseen \<or> i = root \<longrightarrow> p ! i \<noteq> Unseen" by auto
    have "\<not> progress ! root \<noteq> Unseen" using True by simp
    from 2(2)[OF this p(1) refl p(2) 2(4)] 2(5) obtain p' o'' where
      "order_from dependencies roots p o' = Some (p', o'')" "visits_ok n [] p' o''"
      "\<forall>i < n. p ! i \<noteq> Unseen \<or> i \<in> set roots \<longrightarrow> p' ! i \<noteq> Unseen" by auto
    with p True show ?thesis by auto
  next
    case False
    with 2(1)[OF False 2(3,4)] 2(5) show ?thesis by auto
  qed
qed auto

lemma order_is_permutation:
  assumes "bounded_answers n dependencies"
  shows "\<exists>progress order. order_from dependencies [0 ..< n] (replicate n Unseen) [] = Some (progress, order) \<and>
     distinct order \<and> set order = {0 ..< n}"
proof -
  have "visits_ok n [] (replicate n Unseen) []" by (auto simp: visits_ok_def)
  from order_from_visits[OF this assms, of "[0 ..< n]"] obtain p o' where
    r: "order_from dependencies [0 ..< n] (replicate n Unseen) [] = Some (p, o')" "visits_ok n [] p o'"
    "\<forall>i < n. p ! i \<noteq> Unseen" by auto
  have "p ! i = Ordered" if "i < n" for i
    using r(2,3) that by (cases "p ! i") (auto simp: visits_ok_def)
  with r show ?thesis by (auto simp: visits_ok_def)
qed


text \<open>
  Where nothing holds itself, what an item on the stack waits for is above it or ordered already, and
  ranks fall towards the top.
\<close>

fun deps_met :: "(nat \<Rightarrow> nat set) \<Rightarrow> (nat \<Rightarrow> nat) \<Rightarrow> nat set \<Rightarrow> nat set \<Rightarrow> (nat \<times> bool) list \<Rightarrow> bool" where
  "deps_met ds rank ordered nearer [] = True"
| "deps_met ds rank ordered nearer ((i, up) # stack) =
     ((up \<longrightarrow> ds i \<subseteq> nearer \<union> ordered \<and> (\<forall>j \<in> nearer. rank j < rank i)) \<and>
      deps_met ds rank ordered (insert i nearer) stack)"

lemma met_ordered:
  "deps_met ds rank ordered (insert i nearer) stack \<Longrightarrow> deps_met ds rank (insert i ordered) nearer stack"
proof (induction stack arbitrary: nearer)
  case (Cons x stack)
  then show ?case by (cases x) (auto simp: insert_commute)
qed simp

lemma met_more:
  "deps_met ds rank ordered nearer stack \<Longrightarrow> \<forall>j \<in> extra. \<exists>a \<in> nearer. rank j < rank a \<Longrightarrow>
     deps_met ds rank ordered (nearer \<union> extra) stack"
proof (induction stack arbitrary: nearer)
  case (Cons x stack)
  obtain i up where x: "x = (i, up)" by (cases x)
  have "deps_met ds rank ordered (insert i nearer \<union> extra) stack"
    using Cons.IH[of "insert i nearer"] Cons.prems x by auto
  moreover have "\<forall>j \<in> nearer \<union> extra. rank j < rank i" if "\<forall>j \<in> nearer. rank j < rank i"
    using that Cons.prems(2) less_trans by blast
  ultimately show ?case using Cons.prems(1) x by auto
qed simp

lemma met_above:
  "deps_met ds rank ordered nearer stack \<Longrightarrow> (k, True) \<in> set stack \<Longrightarrow> a \<in> nearer \<Longrightarrow> rank a < rank k"
proof (induction stack arbitrary: nearer)
  case (Cons x stack)
  then show ?case by (cases x) auto
qed simp

lemma met_pushed:
  "deps_met ds rank ordered nearer (map (\<lambda>d. (d, False)) l @ stack) =
     deps_met ds rank ordered (nearer \<union> set l) stack"
  by (induction l arbitrary: nearer) (simp_all add: insert_commute)

fun in_order :: "(nat \<Rightarrow> nat set) \<Rightarrow> nat set \<Rightarrow> nat list \<Rightarrow> bool" where
  "in_order ds before [] = True"
| "in_order ds before (i # is) = (ds i \<subseteq> before \<and> in_order ds (insert i before) is)"

lemma in_order_snoc [simp]:
  "in_order ds before (is @ [i]) \<longleftrightarrow> in_order ds before is \<and> ds i \<subseteq> before \<union> set is"
  by (induction "is" arbitrary: before) auto

abbreviation dep_set :: "(nat \<Rightarrow> nat list option) \<Rightarrow> nat \<Rightarrow> nat set" where
  "dep_set dependencies \<equiv> \<lambda>i. set (the (dependencies i))"

lemma order_loop_in_order:
  assumes "visits_ok n stack progress order" and "bounded_answers n dependencies"
    and "\<forall>i < n. \<forall>d \<in> dep_set dependencies i. rank d < rank i"
    and "deps_met (dep_set dependencies) rank (set order) {} stack" and "in_order (dep_set dependencies) {} order"
    and "order_loop dependencies stack progress order = Some (progress', order')"
  shows "in_order (dep_set dependencies) {} order'"
  using assms
proof (induction dependencies stack progress order rule: order_loop.induct)
  case (1 dependencies progress order)
  then show ?case by auto
next
  case (2 dependencies i up stack progress order)
  then have i: "\<not> i \<ge> length progress" and n: "i < n" by (auto simp: visits_ok_def)
  consider (up) "up" | (seen) "\<not> up" "progress ! i \<noteq> Unseen" | (down) "\<not> up" "progress ! i = Unseen" by blast
  then show ?case
  proof cases
    case up
    with 2(4) have v: "visits_ok n stack (progress[i := Ordered]) (order @ [i])"
      by (intro visits_come_back) simp
    have "deps_met (dep_set dependencies) rank (set (order @ [i])) {} stack" using 2(7) up by (auto intro!: met_ordered)
    moreover have "in_order (dep_set dependencies) {} (order @ [i])" using 2(7,8) up by auto
    ultimately show ?thesis using 2(1)[OF i up v 2(5,6)] 2(9) up i by simp
  next
    case seen
    with 2(4) have v: "visits_ok n stack progress order" by (auto intro: visits_skip)
    have met: "deps_met (dep_set dependencies) rank (set order) {i} stack" using 2(7) by simp
    have "progress ! i \<noteq> UnderWay"
    proof
      assume "progress ! i = UnderWay"
      with under_way_on_stack[OF v n] have "(i, True) \<in> set stack" .
      with met_above[OF met] show False by blast
    qed
    with seen have "progress ! i = Ordered" by (cases "progress ! i") simp_all
    with ordered_in_order[OF v n] have "insert i (set order) = set order" by blast
    with met_ordered[OF met] have "deps_met (dep_set dependencies) rank (set order) {} stack" by simp
    with 2(2)[OF i seen v 2(5,6)] 2(8,9) seen i show ?thesis by simp
  next
    case down
    from 2(5) n obtain l where l: "dependencies i = Some l" "\<forall>d \<in> set l. d < n"
      by (auto simp: bounded_answers_def)
    let ?p = "progress[i := UnderWay]"
    let ?new = "rev (filter (\<lambda>d. ?p ! d = Unseen) l)"
    let ?s = "rev (map (\<lambda>d. (d, False)) (filter (\<lambda>d. ?p ! d = Unseen) l)) @ (i, True) # stack"
    have v: "visits_ok n ?s ?p order" using 2(4) down l by (intro visits_go_down) auto
    have met: "deps_met (dep_set dependencies) rank (set order) {i} stack" using 2(7) by simp
    have falls: "rank d < rank i" if "d \<in> set l" for d using 2(6) n l that by auto
    have waits: "d \<in> set ?new \<union> set order" if d: "d \<in> set l" for d
    proof (cases "?p ! d")
      case UnderWay
      have "d \<noteq> i" using falls[OF d] by auto
      moreover have "(d, True) \<in> set ?s" using under_way_on_stack[OF v _ UnderWay] l(2) d by blast
      ultimately have "(d, True) \<in> set stack" by auto
      with met_above[OF met] have "rank i < rank d" by blast
      with falls[OF d] show ?thesis by simp
    next
      case Ordered
      with ordered_in_order[OF v] l(2) d show ?thesis by blast
    qed (use d in simp)
    have "deps_met (dep_set dependencies) rank (set order) ({i} \<union> set ?new) stack"
      using met falls by (intro met_more) auto
    then have "deps_met (dep_set dependencies) rank (set order) {} ?s"
      using waits falls l by (auto simp: rev_map met_pushed Un_commute)
    with 2(3)[OF i down(1) _ l(1) refl v 2(5,6)] 2(8,9) down i l show ?thesis by (simp add: Let_def)
  qed
qed

lemma order_from_in_order:
  fixes rank :: "nat \<Rightarrow> nat"
  assumes "visits_ok n [] progress order" and "bounded_answers n dependencies" and "\<forall>r \<in> set roots. r < n"
    and "\<forall>i < n. \<forall>d \<in> dep_set dependencies i. rank d < rank i" and "in_order (dep_set dependencies) {} order"
    and "order_from dependencies roots progress order = Some (progress', order')"
  shows "in_order (dep_set dependencies) {} order'"
  using assms
proof (induction dependencies roots progress order rule: order_from.induct)
  case (2 dependencies root roots progress order)
  show ?case
  proof (cases "progress ! root = Unseen")
    case True
    have v: "visits_ok n [(root, False)] progress order" using 2(3,5) by (auto simp: visits_ok_def)
    from order_loop_visits[OF v 2(4)] obtain p o' where
      p: "order_loop dependencies [(root, False)] progress order = Some (p, o')" "visits_ok n [] p o'" by blast
    have "\<not> progress ! root \<noteq> Unseen" using True by simp
    moreover have "in_order (dep_set dependencies) {} o'"
      using order_loop_in_order[OF v 2(4,6) _ 2(7) p(1)] by simp
    ultimately show ?thesis using 2(2)[OF _ p(1) refl p(2) 2(4) _ 2(6)] 2(5,8) p(1) by simp
  next
    case False
    with 2(1)[OF False 2(3,4) _ 2(6,7)] 2(5,8) show ?thesis by simp
  qed
qed auto


lemma set_map_filter: "set (List.map_filter f xs) = {y. \<exists>x \<in> set xs. f x = Some y}"
  by (induction xs) (auto split: option.splits)

lemma fold_positions:
  "distinct (map snd ps) \<Longrightarrow> (p, n) \<in> set ps \<Longrightarrow>
     map_of (fold (\<lambda>(position, name). imap_insert name position) ps m) n = Some p"
  "n \<notin> snd ` set ps \<Longrightarrow>
     map_of (fold (\<lambda>(position, name). imap_insert name position) ps m) n = map_of m n"
proof (induction ps arbitrary: m)
  case (Cons x ps)
  {
    case 1
    show ?case
    proof (cases "x = (p, n)")
      case True
      with 1 have "n \<notin> snd ` set ps" by auto
      with Cons.IH(2) True show ?thesis by simp
    next
      case False
      with 1 Cons.IH(1) show ?thesis by simp
    qed
  next
    case 2
    with Cons.IH(2) show ?case by (simp add: case_prod_unfold)
  }
qed simp_all

lemma position_of:
  assumes "distinct (map fst structs)"
  shows "map_of (struct_positions structs) n = Some i \<longleftrightarrow> i < length structs \<and> fst (structs ! i) = n"
proof
  assume found: "map_of (struct_positions structs) n = Some i"
  show "i < length structs \<and> fst (structs ! i) = n"
  proof (cases "n \<in> fst ` set structs")
    case True
    then obtain j where j: "j < length structs" "fst (structs ! j) = n"
      by (metis image_iff in_set_conv_nth)
    then have "(j, n) \<in> set (enumerate 0 (map fst structs))" by (auto simp: in_set_enumerate_eq)
    with found j show ?thesis using assms fold_positions(1)[of "enumerate 0 (map fst structs)" j n "[]"]
      by (simp add: struct_positions_def)
  next
    case False
    then have "n \<notin> snd ` set (enumerate 0 (map fst structs))"
      by (metis list.set_map map_snd_enumerate)
    with found fold_positions(2)[of n "enumerate 0 (map fst structs)" "[]"] show ?thesis
      by (simp add: struct_positions_def)
  qed
next
  assume i: "i < length structs \<and> fst (structs ! i) = n"
  then have "(i, n) \<in> set (enumerate 0 (map fst structs))" by (auto simp: in_set_enumerate_eq)
  then show "map_of (struct_positions structs) n = Some i"
    using assms fold_positions(1)[of "enumerate 0 (map fst structs)" i n "[]"]
    by (simp add: struct_positions_def)
qed

abbreviation fields_of :: "item_struct \<Rightarrow> field_dependency list" where
  "fields_of def \<equiv> the (get_field_dependencies def)"

text \<open>Every struct is preceded by those of \<open>structs\<close> it holds.\<close>

fun held_first ::
    "qualified_name set \<Rightarrow> qualified_name set \<Rightarrow> (qualified_name \<times> item_struct) list \<Rightarrow> bool" where
  "held_first all before [] = True"
| "held_first all before ((name, def) # rest) =
     ((\<forall>f \<in> set (fields_of def). fdep_ty f \<in> all \<longrightarrow> fdep_ty f \<in> before) \<and>
      held_first all (insert name before) rest)"

definition held_below :: "(qualified_name \<Rightarrow> nat) \<Rightarrow> (qualified_name \<times> item_struct) list \<Rightarrow> bool" where
  "held_below rank structs \<longleftrightarrow>
     list_all (\<lambda>(name, def). list_all (\<lambda>f. fdep_ty f \<in> fst ` set structs \<longrightarrow> rank (fdep_ty f) < rank name)
       (fields_of def)) structs"

lemma positions_held_first:
  assumes "in_order (dep_set (dependency_positions structs)) before is"
    and "\<forall>i \<in> set is. i < length structs" and "distinct (map fst structs)"
    and "\<forall>s \<in> set structs. get_field_dependencies (snd s) \<noteq> None"
  shows "held_first (fst ` set structs) ((\<lambda>i. fst (structs ! i)) ` before) (map (\<lambda>i. structs ! i) is)"
  using assms(1,2)
proof (induction "is" arbitrary: before)
  case (Cons i "is")
  let ?name = "\<lambda>i. fst (structs ! i)"
  have rest: "held_first (fst ` set structs) (?name ` insert i before) (map (\<lambda>i. structs ! i) is)"
    using Cons.prems by (intro Cons.IH) auto
  have i: "i < length structs" using Cons.prems by simp
  then obtain fs where fs: "get_field_dependencies (snd (structs ! i)) = Some fs"
    using assms(4) nth_mem by blast
  have "fdep_ty f \<in> ?name ` before" if f: "f \<in> set fs" "fdep_ty f \<in> fst ` set structs" for f
  proof -
    from f(2) obtain j where j: "j < length structs" "fst (structs ! j) = fdep_ty f"
      by (metis image_iff in_set_conv_nth)
    with position_of[OF assms(3)] have "map_of (struct_positions structs) (fdep_ty f) = Some j" by blast
    with f(1) fs have "j \<in> dep_set (dependency_positions structs) i"
      by (auto simp: dependency_positions_def set_map_filter image_iff intro!: bexI[of _ f])
    with Cons.prems(1) j(2) show ?thesis by (auto intro: image_eqI[of _ _ j])
  qed
  with rest fs show ?case by (cases "structs ! i") auto
qed simp

lemma ordered_structs:
  assumes "distinct (map fst structs)"
    and "\<forall>s \<in> set structs. get_field_dependencies (snd s) \<noteq> None"
  shows "\<exists>progress order. order_from (dependency_positions structs) [0 ..< length structs]
       (replicate (length structs) Unseen) [] = Some (progress, order) \<and>
     mset (map (\<lambda>i. structs ! i) order) = mset structs \<and>
     (\<forall>rank. held_below rank structs \<longrightarrow> held_first (fst ` set structs) {} (map (\<lambda>i. structs ! i) order))"
proof -
  let ?n = "length structs"
  have bounded: "bounded_answers ?n (dependency_positions structs)"
    unfolding bounded_answers_def
  proof (intro allI impI)
    fix i assume "i < ?n"
    then obtain fs where "get_field_dependencies (snd (structs ! i)) = Some fs" using assms(2) nth_mem by blast
    then show "\<exists>ds. dependency_positions structs i = Some ds \<and> (\<forall>d \<in> set ds. d < ?n)"
      using position_of[OF assms(1)] by (auto simp: dependency_positions_def set_map_filter)
  qed
  from order_is_permutation[OF this] obtain p o' where
    r: "order_from (dependency_positions structs) [0 ..< ?n] (replicate ?n Unseen) [] = Some (p, o')"
    and perm: "distinct o'" "set o' = {0 ..< ?n}" by blast
  then have "mset o' = mset [0 ..< ?n]" by (metis distinct_upt set_eq_iff_mset_eq_distinct set_upt)
  then have "mset (map (\<lambda>i. structs ! i) o') = mset structs"
    by (metis mset_map map_nth)
  moreover have "held_first (fst ` set structs) {} (map (\<lambda>i. structs ! i) o')" if rank: "held_below rank structs" for rank
  proof -
    have "\<forall>i < ?n. \<forall>d \<in> dep_set (dependency_positions structs) i. rank (fst (structs ! d)) < rank (fst (structs ! i))"
    proof (intro allI impI ballI)
      fix i d assume i: "i < ?n" and d: "d \<in> dep_set (dependency_positions structs) i"
      from i obtain fs where fs: "get_field_dependencies (snd (structs ! i)) = Some fs" using assms(2) nth_mem by blast
      with d obtain f where f: "f \<in> set fs" "map_of (struct_positions structs) (fdep_ty f) = Some d"
        by (auto simp: dependency_positions_def set_map_filter)
      with position_of[OF assms(1)] have "d < ?n" "fst (structs ! d) = fdep_ty f" by blast+
      moreover have "\<forall>g \<in> set (fields_of (snd (structs ! i))).
          fdep_ty g \<in> fst ` set structs \<longrightarrow> rank (fdep_ty g) < rank (fst (structs ! i))"
        using bspec[OF iffD1[OF list_all_iff rank[unfolded held_below_def]] nth_mem[OF i]]
        by (simp add: list_all_iff case_prod_unfold)
      moreover have "fst (structs ! d) \<in> fst ` set structs" using \<open>d < ?n\<close> by simp
      ultimately show "rank (fst (structs ! d)) < rank (fst (structs ! i))"
        using f(1) fs by simp
    qed
    moreover have "visits_ok ?n [] (replicate ?n Unseen) []" by (auto simp: visits_ok_def)
    ultimately have "in_order (dep_set (dependency_positions structs)) {} o'"
      using order_from_in_order[of ?n "replicate ?n Unseen" "[]" "dependency_positions structs" "[0 ..< ?n]"
        "\<lambda>i. rank (fst (structs ! i))" p o'] bounded r by simp
    from positions_held_first[OF this _ assms] perm(2) show ?thesis by simp
  qed
  ultimately show ?thesis using r by blast
qed

text \<open>
  The order in which structs are looked at. However they are nested, ordering ends; it takes each
  struct once, and where no struct holds itself by any chain of fields, each comes after every struct
  it holds a field of.
\<close>

theorem structs_come_after_what_they_hold:
  assumes "distinct (map fst (struct_items l))"
    and "list_all (\<lambda>s. get_field_dependencies (snd s) \<noteq> None) (struct_items l)"
  shows "\<exists>structs. structs_in_dependency_order l = Some (map (\<lambda>(name, def). (def, get_namespace name)) structs) \<and>
     mset structs = mset (struct_items l) \<and>
     ((\<exists>rank. held_below rank (struct_items l)) \<longrightarrow> held_first (fst ` set (struct_items l)) {} structs)"
proof -
  from ordered_structs[OF assms(1)] assms(2) obtain p o' where
    r: "order_from (dependency_positions (struct_items l)) [0 ..< length (struct_items l)]
       (replicate (length (struct_items l)) Unseen) [] = Some (p, o')"
    "mset (map (\<lambda>i. struct_items l ! i) o') = mset (struct_items l)"
    "\<forall>rank. held_below rank (struct_items l) \<longrightarrow>
       held_first (fst ` set (struct_items l)) {} (map (\<lambda>i. struct_items l ! i) o')"
    by (auto simp: list_all_iff)
  then show ?thesis
    by (intro exI[of _ "map (\<lambda>i. struct_items l ! i) o'"])
      (auto simp: structs_in_dependency_order_def Let_def case_prod_unfold)
qed


end
