(* ===== verification/ByValue.thy ===== *)
theory ByValue imports StructOrder Config begin

text \<open>
  Which types may be held by value in Rust (\<^verbatim>\<open>analysis/pod/byvalue_checker.rs\<close>): what is decided of each, and the requests for POD types that follow. Of the
  callback results the checker reads three sets and the members of a type; the record
  \<open>reported\<close> holds them. The \<^verbatim>\<open>HashMap\<close>s here are only looked up in, so their order plays no part.
\<close>

section \<open>The state of the checker\<close>

datatype pod_state =
    UnsafeToBePod string
  | SafeToBePod
  | IsPod
  | IsAlias qualified_name

record pod_details =
  pd_state :: pod_state
  pd_dependent_structs :: "qualified_name list"

definition pod_details_new :: "pod_state \<Rightarrow> pod_details" where
  "pod_details_new s = \<lparr>pd_state = s, pd_dependent_structs = []\<rparr>"

type_synonym pod_results = "(qualified_name, pod_details) index_map"

record by_value_checker =
  bvc_results :: pod_results
  bvc_virtually_inherited :: "qualified_name list"
  bvc_has_bases :: "qualified_name list"
  bvc_volatile_bitfields :: "qualified_name list"

record reported =
  rep_types_inheriting_virtually :: "qualified_name list"
  rep_types_with_bases :: "qualified_name list"
  rep_data_members :: "(qualified_name, data_member list) index_map"

definition ByValueChecker_new :: "type_database \<Rightarrow> by_value_checker option" where
  "ByValueChecker_new db =
     map_option
       (\<lambda>safe. \<lparr>bvc_results =
            fold (\<lambda>(tn, by_value_safe) results.
                    let safety = (if by_value_safe then IsPod
                                  else UnsafeToBePod (''type '' @ QualifiedName_to_string tn @ '' is not safe for POD''))
                    in imap_insert tn (pod_details_new safety) results) safe [],
          bvc_virtually_inherited = [], bvc_has_bases = [], bvc_volatile_bitfields = []\<rparr>)
       (get_pod_safe_types db)"

section \<open>Refusals\<close>

definition could_not_be_pod :: "qualified_name \<Rightarrow> string \<Rightarrow> string" where
  "could_not_be_pod tyname why =
     ''Type '' @ QualifiedName_to_string tyname @ '' could not be POD because '' @ why"

definition names_base_field :: "string \<Rightarrow> bool" where
  "names_base_field field \<longleftrightarrow>
     field = ''_base'' \<or>
     (prefix ''_base_'' field \<and> drop 6 field \<noteq> [] \<and> list_all is_digit (drop 6 field))"

definition marker_detail :: "string \<Rightarrow> string option" where
  "marker_detail item =
     (if item = ''__bindgen_marker_Opaque'' then
        Some ''of a type autocxx could not name - a class template instantiation, usually - so bindgen wrote it as a blob of bytes of the right size and alignment instead. A blob is not a type Rust can hold by value''
      else if item = ''__bindgen_marker_Reference'' \<or> item = ''__bindgen_marker_RValueReference'' then
        Some ''a C++ reference, which autocxx has no POD field type for: bindgen writes a raw pointer, and a public Rust field of one would let safe code point the reference wherever it liked''
      else if prefix ''__bindgen_'' item then
        Some ''of a kind bindgen could only write under a marker of its own, which autocxx has no Rust type for''
      else None)"

definition marker_field_reason ::
    "qualified_name \<Rightarrow> field_dependency \<Rightarrow> qualified_name list \<Rightarrow> string option" where
  "marker_field_reason tyname dependency has_bases =
     (let is_base = (tyname \<in> set has_bases \<and>
            (case fdep_field dependency of Some field \<Rightarrow> names_base_field field | None \<Rightarrow> False));
          subject = (if is_base then ''one of its base classes is''
                     else case fdep_field dependency of
                       Some field \<Rightarrow> ''its member `'' @ field @ ''` is''
                     | None \<Rightarrow> ''one of its members is'')
      in map_option
           (\<lambda>detail. could_not_be_pod tyname (subject @ '' '' @ detail @ ''. `generate!` still binds ''
              @ QualifiedName_to_string tyname @ ''; only holding it by value is out.''))
           (marker_detail (get_final_item (fdep_ty dependency))))"

text \<open>What one field makes of the verdict; \<open>None\<close> leaves it as it is, and the loop goes on.\<close>

definition field_refusal ::
    "pod_results \<Rightarrow> qualified_name list \<Rightarrow> qualified_name \<Rightarrow> field_dependency \<Rightarrow> string option" where
  "field_refusal results has_bases tyname dependency =
     (let ty_id = fdep_ty dependency; item = get_final_item ty_id in
      case map_of results ty_id of
        None \<Rightarrow>
          if item = ''__BindgenUnionField'' then Some (could_not_be_pod tyname ''it is a union'')
          else if item = ''__bindgen_marker_Volatile'' then
            Some (could_not_be_pod tyname ''it has a `volatile` member. Rust has no volatile type, only volatile reads and writes, so a Rust field of one would be accessed as if the qualifier were not there. Add a C++ accessor which performs the volatile access, and bind that.'')
          else if item \<in> {''__bindgen_marker_LongDouble'', ''__bindgen_marker_Float128''} then
            (let cpp = (if item = ''__bindgen_marker_LongDouble'' then ''long double'' else ''__float128'')
             in Some (could_not_be_pod tyname (''it has a `'' @ cpp @ ''` member, which Rust has no type for - see the error for a `'' @ cpp @ ''` in a signature'')))
          else
            Some (case marker_field_reason tyname dependency has_bases of
                    Some reason \<Rightarrow> reason
                  | None \<Rightarrow> could_not_be_pod tyname
                      (''its dependent type '' @ QualifiedName_to_string ty_id @ '' isn't known''))
      | Some deets \<Rightarrow>
          (case pd_state deets of
             UnsafeToBePod reason \<Rightarrow>
               Some (could_not_be_pod tyname (''its dependent type '' @ QualifiedName_to_string ty_id
                 @ '' isn't safe to be POD. Because: '' @ reason))
           | _ \<Rightarrow> None))"

fun walk_fields ::
    "pod_results \<Rightarrow> qualified_name list \<Rightarrow> qualified_name \<Rightarrow> field_dependency list \<Rightarrow> pod_state \<Rightarrow> pod_state" where
  "walk_fields results has_bases tyname [] problem = problem"
| "walk_fields results has_bases tyname (dependency # rest) problem =
     (case field_refusal results has_bases tyname dependency of
        Some reason \<Rightarrow> UnsafeToBePod reason
      | None \<Rightarrow> walk_fields results has_bases tyname rest problem)"

text \<open>What overrides whatever the fields made of it.\<close>

definition overall_problem :: "by_value_checker \<Rightarrow> qualified_name \<Rightarrow> item_struct \<Rightarrow> pod_state \<Rightarrow> pod_state" where
  "overall_problem c tyname def problem =
     (let problem = (if has_vtable def
                     then UnsafeToBePod (could_not_be_pod tyname ''it has virtual functions.'')
                     else problem);
          problem = (if tyname \<in> set (bvc_has_bases c) \<and> bases_are_opaque_bytes def
                     then UnsafeToBePod (could_not_be_pod tyname ''the C++ compiler leaves its base classes less room than fields of their own types would take up, so the bases have no Rust type.'')
                     else problem)
      in if tyname \<in> set (bvc_virtually_inherited c)
         then UnsafeToBePod (could_not_be_pod tyname ''it inherits a base class virtually.'')
         else problem)"

definition initial_problem :: "by_value_checker \<Rightarrow> qualified_name \<Rightarrow> pod_state" where
  "initial_problem c tyname =
     (if tyname \<in> set (bvc_volatile_bitfields c)
      then UnsafeToBePod (could_not_be_pod tyname ''it has a `volatile` bitfield. Rust has no volatile type, only volatile reads and writes, so the accessors would read and write the bits as if the qualifier were not there. Add a C++ accessor which performs the volatile access, and bind that.'')
      else SafeToBePod)"

definition ingest_struct :: "item_struct \<times> namespace \<Rightarrow> by_value_checker \<Rightarrow> by_value_checker option" where
  "ingest_struct = (\<lambda>(def, ns) c.
     (let tyname = QualifiedName_new ns (is_ident def) in
      map_option
        (\<lambda>fieldlist.
           let problem = walk_fields (bvc_results c) (bvc_has_bases c) tyname fieldlist (initial_problem c tyname)
           in c\<lparr>bvc_results := imap_insert tyname
                  \<lparr>pd_state = overall_problem c tyname def problem,
                   pd_dependent_structs = map fdep_ty fieldlist\<rparr> (bvc_results c)\<rparr>)
        (get_field_dependencies def)))"

fun ingest_structs :: "(item_struct \<times> namespace) list \<Rightarrow> by_value_checker \<Rightarrow> by_value_checker option" where
  "ingest_structs [] c = Some c"
| "ingest_structs (s # rest) c =
     (case ingest_struct s c of None \<Rightarrow> None | Some c \<Rightarrow> ingest_structs rest c)"

definition ingest_nonpod_type :: "qualified_name \<Rightarrow> pod_results \<Rightarrow> pod_results" where
  "ingest_nonpod_type tyname results =
     imap_insert tyname
       (pod_details_new (UnsafeToBePod
          (''Type '' @ QualifiedName_to_string tyname @ '' is a typedef to a complex type''))) results"

section \<open>What is no struct\<close>

text \<open>The inner option is a target that is no path; the outer one a panic.\<close>

definition alias_target :: "type_database \<Rightarrow> rust_type \<Rightarrow> qualified_name option option" where
  "alias_target db ty =
     (case ty of
        Type_Path typ \<Rightarrow>
          (case from_type_path typ of
             None \<Rightarrow> None
           | Some target_tn \<Rightarrow>
               (case consider_substitution db target_tn of
                  Some typ \<Rightarrow> map_option Some (from_type_path typ)
                | None \<Rightarrow> Some (Some target_tn)))
      | _ \<Rightarrow> Some None)"

definition ingest_other ::
    "type_database \<Rightarrow> (typedef_analysis, 'st, 'fn, 'sub) api \<Rightarrow> pod_results \<Rightarrow> pod_results option" where
  "ingest_other db api results =
     (case api of
        Api_Typedef name item old_tyname analysis \<Rightarrow>
          (let ty = (case ta_kind analysis of TypedefKind_Type t \<Rightarrow> it_ty t | TypedefKind_Use ty \<Rightarrow> ty) in
           map_option
             (\<lambda>typedef_target.
                if is_pointer_like ty then imap_insert (Api_name api) (pod_details_new IsPod) results
                else case typedef_target of
                  Some target \<Rightarrow> imap_insert (Api_name api) (pod_details_new (IsAlias target)) results
                | None \<Rightarrow> ingest_nonpod_type (Api_name api) results)
             (alias_target db ty))
      | Api_Enum name item \<Rightarrow> Some (imap_insert (Api_name api) (pod_details_new IsPod) results)
      | Api_ExternCppType name details True \<Rightarrow> Some (imap_insert (Api_name api) (pod_details_new IsPod) results)
      | _ \<Rightarrow> Some results)"

fun ingest_others ::
    "type_database \<Rightarrow> (typedef_analysis, 'st, 'fn, 'sub) api list \<Rightarrow> pod_results \<Rightarrow> pod_results option" where
  "ingest_others db [] results = Some results"
| "ingest_others db (api # rest) results =
     (case ingest_other db api results of None \<Rightarrow> None | Some results \<Rightarrow> ingest_others db rest results)"


section \<open>Requests\<close>

definition unsettled_state :: "pod_state \<Rightarrow> bool" where
  "unsettled_state s \<longleftrightarrow> (case s of SafeToBePod \<Rightarrow> True | IsAlias _ \<Rightarrow> True | _ \<Rightarrow> False)"

abbreviation unsettled_count :: "pod_results \<Rightarrow> nat" where
  "unsettled_count results \<equiv> length (filter (\<lambda>(k, d). unsettled_state (pd_state d)) results)"

lemma settling_counts_down:
  "map_of results k = Some d \<Longrightarrow> unsettled_state (pd_state d) \<Longrightarrow> \<not> unsettled_state (pd_state d') \<Longrightarrow>
     unsettled_count (imap_insert k d' results) < unsettled_count results"
  by (induction results) (auto split: if_splits)

abbreviation not_awaiting :: "pod_results \<Rightarrow> qualified_name list \<Rightarrow> nat" where
  "not_awaiting results awaiting \<equiv> length (filter (\<lambda>(k, d). k \<notin> set awaiting) results)"

lemma awaiting_counts_down:
  "map_of results k = Some d \<Longrightarrow> k \<notin> set awaiting \<Longrightarrow>
     not_awaiting results (iset_insert k awaiting) < not_awaiting results awaiting"
proof (induction results)
  case (Cons x results)
  have "length (filter (\<lambda>(k', d). k' \<noteq> k \<and> k' \<notin> set awaiting) l)
      \<le> length (filter (\<lambda>(k', d). k' \<notin> set awaiting) l)" for l :: pod_results
    by (induction l) auto
  with Cons show ?case by (cases x) (auto simp: less_Suc_eq_le split: if_splits)
qed simp

text \<open>The requests are a stack, the next one first.\<close>

function satisfy_requests ::
    "pod_results \<Rightarrow> qualified_name list \<Rightarrow> qualified_name list \<Rightarrow> (string, pod_results) result" where
  "satisfy_requests results [] awaiting = Inr results"
| "satisfy_requests results (ty_id # requests) awaiting =
     (case map_of results ty_id of
        None \<Rightarrow> Inl (''Unable to make '' @ QualifiedName_to_string ty_id
                       @ '' POD because we never saw a struct definition'')
      | Some deets \<Rightarrow>
          (case pd_state deets of
             UnsafeToBePod error_msg \<Rightarrow> Inl error_msg
           | IsPod \<Rightarrow> satisfy_requests results requests awaiting
           | SafeToBePod \<Rightarrow>
               satisfy_requests (imap_insert ty_id (deets\<lparr>pd_state := IsPod\<rparr>) results)
                 (rev (pd_dependent_structs deets) @ requests) awaiting
           | IsAlias alias_ty \<Rightarrow>
               (case map_of results alias_ty of
                  None \<Rightarrow> Inl (''Unable to make '' @ QualifiedName_to_string ty_id
                    @ '' POD because it is a typedef to '' @ QualifiedName_to_string alias_ty
                    @ '', which we know nothing about'')
                | Some target \<Rightarrow>
                    (case pd_state target of
                       IsPod \<Rightarrow>
                         satisfy_requests (imap_insert ty_id (deets\<lparr>pd_state := IsPod\<rparr>) results)
                           (ty_id # requests) awaiting
                     | UnsafeToBePod reason \<Rightarrow>
                         satisfy_requests
                           (imap_insert ty_id (deets\<lparr>pd_state := UnsafeToBePod (could_not_be_pod ty_id
                              (''it is a typedef to '' @ QualifiedName_to_string alias_ty
                                 @ ''. Because: '' @ reason))\<rparr>) results)
                           (ty_id # requests) awaiting
                     | _ \<Rightarrow>
                         if ty_id \<in> set awaiting then
                           Inl (''Unable to make '' @ QualifiedName_to_string ty_id
                             @ '' POD because it is part of a circular chain of typedefs'')
                         else satisfy_requests results (alias_ty # ty_id # requests) (iset_insert ty_id awaiting)))))"
  by pat_completeness auto
termination
proof (relation "inv_image (less_than <*lex*> less_than <*lex*> less_than)
         (\<lambda>(results, requests, awaiting).
            (unsettled_count results, not_awaiting results awaiting, length requests))", goal_cases)
  case (2 results ty_id requests awaiting deets)
  then show ?case using settling_counts_down[of results ty_id deets] by (simp add: unsettled_state_def)
next
  case (4 results ty_id requests awaiting deets alias_ty target reason)
  then show ?case using settling_counts_down[of results ty_id deets] by (simp add: unsettled_state_def)
next
  case (5 results ty_id requests awaiting deets alias_ty target)
  then show ?case using awaiting_counts_down[of results ty_id deets awaiting] by simp
next
  case (6 results ty_id requests awaiting deets alias_ty target)
  then show ?case using settling_counts_down[of results ty_id deets] by (simp add: unsettled_state_def)
next
  case (7 results ty_id requests awaiting deets alias_ty target x)
  then show ?case using awaiting_counts_down[of results ty_id deets awaiting] by simp
qed auto

declare satisfy_requests.simps(2) [simp del]

section \<open>The whole check\<close>

definition names_by_spelling :: "('td, 'st, 'fn, 'sub) api list \<Rightarrow> (string, qualified_name) index_map" where
  "names_by_spelling l =
     fold (\<lambda>api m. fold (\<lambda>spelling. imap_insert spelling (Api_name api)) (cpp_spellings (name_info api)) m) l []"

definition pod_request_names ::
    "('td, 'st, 'fn, 'sub) api list \<Rightarrow> include_cpp_config \<Rightarrow> qualified_name list" where
  "pod_request_names l config =
     map (\<lambda>ty. case map_of (names_by_spelling l) ty of Some name \<Rightarrow> name | None \<Rightarrow> new_from_cpp_name ty)
       (directive_iter (pod_requests config))"

definition has_volatile_bitfield :: "reported \<Rightarrow> qualified_name \<Rightarrow> bool" where
  "has_volatile_bitfield rep name =
     list_ex (\<lambda>m. dm_is_bitfield m \<and> dm_is_volatile m)
       (case map_of (rep_data_members rep) name of Some ms \<Rightarrow> ms | None \<Rightarrow> [])"

definition blocklist_types :: "include_cpp_config \<Rightarrow> pod_results \<Rightarrow> pod_results" where
  "blocklist_types config results =
     fold (\<lambda>blocklisted results.
             let tn = new_from_cpp_name blocklisted in
             imap_insert tn (pod_details_new
               (UnsafeToBePod (''type '' @ QualifiedName_to_string tn @ '' is on the blocklist''))) results)
       (directive_iter (blocklist config)) results"

text \<open>The checker before any request is looked at.\<close>

definition ingest_apis ::
    "type_database \<Rightarrow> (typedef_analysis, 'st, 'fn, 'sub) api list \<Rightarrow> include_cpp_config \<Rightarrow> reported \<Rightarrow>
     by_value_checker option" where
  "ingest_apis db l config rep =
     Option.bind (ByValueChecker_new db) (\<lambda>c.
     Option.bind (ingest_others db l (blocklist_types config (bvc_results c))) (\<lambda>results.
     Option.bind (structs_in_dependency_order l) (\<lambda>order.
       ingest_structs order
         \<lparr>bvc_results = results,
          bvc_virtually_inherited = rep_types_inheriting_virtually rep,
          bvc_has_bases = rep_types_with_bases rep,
          bvc_volatile_bitfields = filter (has_volatile_bitfield rep) (map Api_name l)\<rparr>)))"

definition new_from_apis ::
    "type_database \<Rightarrow> (typedef_analysis, 'st, 'fn, 'sub) api list \<Rightarrow> include_cpp_config \<Rightarrow> reported \<Rightarrow>
     (convert_error, by_value_checker) result option" where
  "new_from_apis db l config rep =
     map_option
       (\<lambda>c. case satisfy_requests (bvc_results c) (rev (pod_request_names l config)) [] of
              Inl message \<Rightarrow> Inl (UnsafePodType message)
            | Inr results \<Rightarrow> Inr (c\<lparr>bvc_results := results\<rparr>))
       (ingest_apis db l config rep)"

definition is_pod :: "by_value_checker \<Rightarrow> qualified_name \<Rightarrow> bool" where
  "is_pod c ty_id \<longleftrightarrow>
     (case map_of (bvc_results c) ty_id of Some deets \<Rightarrow> pd_state deets = IsPod | None \<Rightarrow> False)"



section \<open>The verdict\<close>

definition well_named :: "qualified_name \<times> item_struct \<Rightarrow> bool" where
  "well_named = (\<lambda>(name, def). is_ident def = get_final_item name)"

definition as_ingested :: "qualified_name \<times> item_struct \<Rightarrow> item_struct \<times> namespace" where
  "as_ingested = (\<lambda>(name, def). (def, get_namespace name))"

lemma name_ingested: "well_named (name, def) \<Longrightarrow> QualifiedName_new (get_namespace name) (is_ident def) = name"
  by (cases name) (simp add: well_named_def QualifiedName_new_def)

text \<open>What speaks against a struct apart from its fields.\<close>

definition own_fault :: "by_value_checker \<Rightarrow> qualified_name \<Rightarrow> item_struct \<Rightarrow> bool" where
  "own_fault c name def \<longleftrightarrow>
     name \<in> set (bvc_volatile_bitfields c) \<or> has_vtable def \<or>
     name \<in> set (bvc_has_bases c) \<and> bases_are_opaque_bytes def \<or>
     name \<in> set (bvc_virtually_inherited c)"

lemma own_fault_update [simp]: "own_fault (c\<lparr>bvc_results := r\<rparr>) = own_fault c"
  by (simp add: own_fault_def fun_eq_iff)

definition refused :: "pod_results \<Rightarrow> qualified_name \<Rightarrow> bool" where
  "refused results ty =
     (case map_of results ty of
        None \<Rightarrow> True
      | Some d \<Rightarrow> (case pd_state d of UnsafeToBePod _ \<Rightarrow> True | _ \<Rightarrow> False))"

lemma field_refusal_iff: "field_refusal results has_bases name f \<noteq> None \<longleftrightarrow> refused results (fdep_ty f)"
  by (auto simp: field_refusal_def refused_def Let_def split: option.splits pod_state.splits)

lemma walk_fields_safe:
  "walk_fields results has_bases name fs problem = SafeToBePod \<longleftrightarrow>
     problem = SafeToBePod \<and> (\<forall>f \<in> set fs. \<not> refused results (fdep_ty f))"
proof (induction fs)
  case (Cons f fs)
  then show ?case using field_refusal_iff[of results has_bases name f]
    by (cases "field_refusal results has_bases name f") auto
qed simp

lemma walk_fields_final:
  "problem = SafeToBePod \<or> (\<exists>r. problem = UnsafeToBePod r) \<Longrightarrow>
     walk_fields results has_bases name fs problem = SafeToBePod \<or>
     (\<exists>r. walk_fields results has_bases name fs problem = UnsafeToBePod r)"
  by (induction fs) (auto split: option.splits)

lemma overall_problem_cases:
  "if has_vtable def \<or> name \<in> set (bvc_has_bases c) \<and> bases_are_opaque_bytes def \<or> name \<in> set (bvc_virtually_inherited c)
   then \<exists>r. overall_problem c name def problem = UnsafeToBePod r
   else overall_problem c name def problem = problem"
  by (auto simp: overall_problem_def Let_def)

lemma ingest_struct_gives:
  assumes "well_named (name, def)" and "get_field_dependencies def = Some fs"
  shows "\<exists>s. ingest_struct (as_ingested (name, def)) c = Some (c\<lparr>bvc_results :=
       imap_insert name \<lparr>pd_state = s, pd_dependent_structs = map fdep_ty fs\<rparr> (bvc_results c)\<rparr>) \<and>
     (s = SafeToBePod \<longleftrightarrow> \<not> own_fault c name def \<and> (\<forall>f \<in> set fs. \<not> refused (bvc_results c) (fdep_ty f))) \<and>
     (s = SafeToBePod \<or> (\<exists>r. s = UnsafeToBePod r))"
proof -
  let ?w = "walk_fields (bvc_results c) (bvc_has_bases c) name fs (initial_problem c name)"
  have w: "?w = SafeToBePod \<longleftrightarrow> name \<notin> set (bvc_volatile_bitfields c) \<and> (\<forall>f \<in> set fs. \<not> refused (bvc_results c) (fdep_ty f))"
    by (simp add: walk_fields_safe initial_problem_def)
  have f: "?w = SafeToBePod \<or> (\<exists>r. ?w = UnsafeToBePod r)"
    by (rule walk_fields_final) (simp add: initial_problem_def)
  let ?s = "overall_problem c name def ?w"
  have "?s = SafeToBePod \<longleftrightarrow> \<not> own_fault c name def \<and> (\<forall>f \<in> set fs. \<not> refused (bvc_results c) (fdep_ty f))"
    using overall_problem_cases[of def name c ?w] w by (auto simp: own_fault_def split: if_splits)
  moreover have "?s = SafeToBePod \<or> (\<exists>r. ?s = UnsafeToBePod r)"
    using overall_problem_cases[of def name c ?w] f by (auto split: if_splits)
  moreover have "ingest_struct (as_ingested (name, def)) c = Some (c\<lparr>bvc_results :=
       imap_insert name \<lparr>pd_state = ?s, pd_dependent_structs = map fdep_ty fs\<rparr> (bvc_results c)\<rparr>)"
    using assms(2) name_ingested[OF assms(1)] by (simp add: ingest_struct_def as_ingested_def Let_def)
  ultimately show ?thesis by blast
qed

lemma ingest_structs_snoc:
  "ingest_structs (l @ [s]) c = Option.bind (ingest_structs l c) (ingest_struct s)"
  by (induction l arbitrary: c) (auto split: option.splits)

text \<open>
  The rule: a struct is unfit for its own faults, for a field of a type outside the list that is
  unknown or refused, or for a field of a struct that is unfit.
\<close>

inductive unfit ::
    "by_value_checker \<Rightarrow> (qualified_name \<times> item_struct) set \<Rightarrow> qualified_name \<Rightarrow> bool"
  for c structs where
  own: "(name, def) \<in> structs \<Longrightarrow> own_fault c name def \<Longrightarrow> unfit c structs name"
| outside: "(name, def) \<in> structs \<Longrightarrow> f \<in> set (fields_of def) \<Longrightarrow> fdep_ty f \<notin> fst ` structs \<Longrightarrow>
    refused (bvc_results c) (fdep_ty f) \<Longrightarrow> unfit c structs name"
| held: "(name, def) \<in> structs \<Longrightarrow> f \<in> set (fields_of def) \<Longrightarrow> fdep_ty f \<in> fst ` structs \<Longrightarrow>
    unfit c structs (fdep_ty f) \<Longrightarrow> unfit c structs name"

lemma unfit_iff:
  assumes "inj_on fst structs" and "(name, def) \<in> structs"
  shows "unfit c structs name \<longleftrightarrow> own_fault c name def \<or>
    (\<exists>f \<in> set (fields_of def). if fdep_ty f \<in> fst ` structs then unfit c structs (fdep_ty f)
                               else refused (bvc_results c) (fdep_ty f))"
proof -
  have same: "d = def" if "(name, d) \<in> structs" for d
    using assms that by (auto dest!: inj_onD[of fst structs "(name, d)" "(name, def)"])
  show ?thesis
  proof
    assume "unfit c structs name"
    then show "own_fault c name def \<or> (\<exists>f \<in> set (fields_of def).
        if fdep_ty f \<in> fst ` structs then unfit c structs (fdep_ty f) else refused (bvc_results c) (fdep_ty f))"
      by cases (use same in auto)
  next
    assume "own_fault c name def \<or> (\<exists>f \<in> set (fields_of def).
        if fdep_ty f \<in> fst ` structs then unfit c structs (fdep_ty f) else refused (bvc_results c) (fdep_ty f))"
    then show "unfit c structs name"
      using assms(2) by (auto intro: unfit.intros split: if_splits)
  qed
qed

lemma held_first_snoc:
  "held_first all before (l @ [(name, def)]) \<longleftrightarrow> held_first all before l \<and>
     (\<forall>f \<in> set (fields_of def). fdep_ty f \<in> all \<longrightarrow> fdep_ty f \<in> before \<union> fst ` set l)"
proof (induction l arbitrary: before)
  case (Cons x l)
  then show ?case by (cases x) auto
qed simp

definition verdict_on :: "by_value_checker \<Rightarrow> (qualified_name \<times> item_struct) set \<Rightarrow> pod_results \<Rightarrow>
    qualified_name \<times> item_struct \<Rightarrow> bool" where
  "verdict_on c structs results = (\<lambda>(name, def).
     \<exists>d. map_of results name = Some d \<and> pd_dependent_structs d = map fdep_ty (fields_of def) \<and>
       (if unfit c structs name then \<exists>reason. pd_state d = UnsafeToBePod reason else pd_state d = SafeToBePod))"

lemma verdict_refused: "verdict_on c structs results (name, def) \<Longrightarrow> refused results name \<longleftrightarrow> unfit c structs name"
  by (auto simp: verdict_on_def refused_def split: if_splits)

lemma ingested_by_the_rule:
  assumes "inj_on fst structs" and "set l \<subseteq> structs" and "distinct (map fst l)"
    and "list_all well_named l" and "list_all (\<lambda>s. get_field_dependencies (snd s) \<noteq> None) l"
    and "held_first (fst ` structs) {} l"
  shows "\<exists>results. ingest_structs (map as_ingested l) c = Some (c\<lparr>bvc_results := results\<rparr>) \<and>
     list_all (verdict_on c structs results) l \<and>
     (\<forall>n. n \<notin> fst ` set l \<longrightarrow> map_of results n = map_of (bvc_results c) n)"
  using assms(2-)
proof (induction l rule: rev_induct)
  case Nil
  then show ?case by (intro exI[of _ "bvc_results c"]) simp
next
  case (snoc s l)
  obtain name def where s: "s = (name, def)" by (cases s)
  from snoc.prems s have first: "held_first (fst ` structs) {} l"
    "\<forall>f \<in> set (fields_of def). fdep_ty f \<in> fst ` structs \<longrightarrow> fdep_ty f \<in> fst ` set l"
    by (auto simp: held_first_snoc)
  from snoc.prems(1-4) first(1) have "\<exists>results. ingest_structs (map as_ingested l) c = Some (c\<lparr>bvc_results := results\<rparr>) \<and>
     list_all (verdict_on c structs results) l \<and>
     (\<forall>n. n \<notin> fst ` set l \<longrightarrow> map_of results n = map_of (bvc_results c) n)"
    by (intro snoc.IH) simp_all
  then obtain results where IH: "ingest_structs (map as_ingested l) c = Some (c\<lparr>bvc_results := results\<rparr>)"
    "list_all (verdict_on c structs results) l" "\<forall>n. n \<notin> fst ` set l \<longrightarrow> map_of results n = map_of (bvc_results c) n"
    by blast
  from snoc.prems(4) s obtain fs where fs: "get_field_dependencies def = Some fs" by auto
  have wn: "well_named (name, def)" using snoc.prems(3) s by simp
  from ingest_struct_gives[OF wn fs, of "c\<lparr>bvc_results := results\<rparr>"] s obtain st where
    st: "ingest_struct (as_ingested s) (c\<lparr>bvc_results := results\<rparr>) = Some (c\<lparr>bvc_results :=
       imap_insert name \<lparr>pd_state = st, pd_dependent_structs = map fdep_ty fs\<rparr> results\<rparr>)"
    and safe: "st = SafeToBePod \<longleftrightarrow> \<not> own_fault c name def \<and> (\<forall>f \<in> set fs. \<not> refused results (fdep_ty f))"
    and final: "st = SafeToBePod \<or> (\<exists>r. st = UnsafeToBePod r)"
    by (simp add: own_fault_def) blast
  have refused_iff: "refused results (fdep_ty f) \<longleftrightarrow>
      (if fdep_ty f \<in> fst ` structs then unfit c structs (fdep_ty f) else refused (bvc_results c) (fdep_ty f))"
    if f: "f \<in> set fs" for f
  proof (cases "fdep_ty f \<in> fst ` structs")
    case True
    with f first(2) fs obtain d where "(fdep_ty f, d) \<in> set l" by auto
    with IH(2) have "verdict_on c structs results (fdep_ty f, d)" unfolding list_all_iff by blast
    from verdict_refused[OF this] True show ?thesis by simp
  next
    case False
    then have "fdep_ty f \<notin> fst ` set l" using snoc.prems(1) by auto
    with IH(3) False show ?thesis by (simp add: refused_def)
  qed
  have "(name, def) \<in> structs" using snoc.prems(1) s by simp
  from unfit_iff[OF assms(1) this, of c] fs have "unfit c structs name \<longleftrightarrow> own_fault c name def \<or>
      (\<exists>f \<in> set fs. refused results (fdep_ty f))" using refused_iff by simp
  with safe final have st': "if unfit c structs name then \<exists>r. st = UnsafeToBePod r else st = SafeToBePod" by auto
  let ?r = "imap_insert name \<lparr>pd_state = st, pd_dependent_structs = map fdep_ty fs\<rparr> results"
  have new: "name \<notin> fst ` set l" using snoc.prems(2) s by simp
  have "verdict_on c structs ?r t" if t: "t \<in> set l" for t
  proof -
    from IH(2) t have "verdict_on c structs results t" by (simp only: list_all_iff)
    moreover from new t have "fst t \<noteq> name" by blast
    ultimately show ?thesis by (cases t) (simp add: verdict_on_def)
  qed
  moreover have "verdict_on c structs ?r (name, def)" using st' fs by (simp add: verdict_on_def)
  ultimately have "list_all (verdict_on c structs ?r) (l @ [s])" using s by (simp add: list_all_iff)
  then show ?case using IH st s
    by (intro exI[of _ ?r]) (simp add: ingest_structs_snoc)
qed


text \<open>
  C6: what is decided of each struct does not depend on where it is defined. Where nothing holds
  itself, ordering and looking at the structs ends without a panic, and each is refused exactly where
  the rule finds it unfit; every other one is fit to be made POD and waits for the types of its fields.
\<close>

theorem verdicts_follow_the_rule:
  assumes "distinct (map fst (struct_items l))" and "list_all well_named (struct_items l)"
    and "list_all (\<lambda>s. get_field_dependencies (snd s) \<noteq> None) (struct_items l)"
    and "held_below rank (struct_items l)"
  shows "\<exists>order results. structs_in_dependency_order l = Some order \<and>
     ingest_structs order c = Some (c\<lparr>bvc_results := results\<rparr>) \<and>
     list_all (verdict_on c (set (struct_items l)) results) (struct_items l)"
proof -
  let ?all = "struct_items l"
  from ordered_structs[OF assms(1)] assms(3,4) obtain p o' where
    r: "order_from (dependency_positions ?all) [0 ..< length ?all] (replicate (length ?all) Unseen) [] = Some (p, o')"
    and perm: "mset (map (\<lambda>i. ?all ! i) o') = mset ?all"
    and first: "held_first (fst ` set ?all) {} (map (\<lambda>i. ?all ! i) o')"
    by (auto simp: list_all_iff)
  let ?l = "map (\<lambda>i. ?all ! i) o'"
  have set: "set ?l = set ?all" using perm by (metis set_mset_mset)
  have "distinct (map fst ?l)" using assms(1) perm by (metis mset_map mset_eq_imp_distinct_iff)
  moreover have "inj_on fst (set ?all)" using assms(1) by (simp add: distinct_map)
  ultimately obtain results where
    "ingest_structs (map as_ingested ?l) c = Some (c\<lparr>bvc_results := results\<rparr>)"
    "list_all (verdict_on c (set ?all) results) ?l"
    using ingested_by_the_rule[of "set ?all" ?l c] assms(2,3) set first by (auto simp only: list_all_iff)
  moreover have "structs_in_dependency_order l = Some (map as_ingested ?l)"
    using r by (simp add: structs_in_dependency_order_def as_ingested_def Let_def case_prod_unfold)
  ultimately show ?thesis using set by (auto simp only: list_all_iff)
qed

section \<open>Requests, proved\<close>

definition state_of :: "pod_results \<Rightarrow> qualified_name \<Rightarrow> pod_state option" where
  "state_of results ty = map_option pd_state (map_of results ty)"

abbreviation pod_in :: "pod_results \<Rightarrow> qualified_name \<Rightarrow> bool" where
  "pod_in results ty \<equiv> state_of results ty = Some IsPod"

lemma pod_state_of_insert [simp]:
  "state_of (imap_insert k d results) ty = (if ty = k then Some (pd_state d) else state_of results ty)"
  by (simp add: state_of_def)

text \<open>What a state may have become while \<open>ok\<close> are POD and \<open>pending\<close> are asked for.\<close>

definition moved ::
    "(qualified_name \<Rightarrow> bool) \<Rightarrow> qualified_name set \<Rightarrow> pod_details \<Rightarrow> pod_state \<Rightarrow> bool" where
  "moved ok pending d0 s \<longleftrightarrow>
     s = pd_state d0 \<or>
     (case pd_state d0 of
        SafeToBePod \<Rightarrow> s = IsPod \<and> (\<forall>t \<in> set (pd_dependent_structs d0). ok t \<or> t \<in> pending)
      | IsAlias target \<Rightarrow> s = IsPod \<and> ok target \<or> (\<exists>r. s = UnsafeToBePod r)
      | _ \<Rightarrow> False)"

lemma moved_mono:
  "moved ok pending d0 s \<Longrightarrow> \<forall>t. ok t \<longrightarrow> ok' t \<Longrightarrow> \<forall>t \<in> pending. ok' t \<or> t \<in> pending' \<Longrightarrow>
     moved ok' pending' d0 s"
  by (auto simp: moved_def split: pod_state.splits)

definition entry_moved :: "pod_results \<Rightarrow> pod_results \<Rightarrow> qualified_name list \<Rightarrow> qualified_name \<Rightarrow> bool" where
  "entry_moved start results requests ty =
     (case map_of start ty of
        None \<Rightarrow> map_of results ty = None
      | Some d0 \<Rightarrow>
          (case map_of results ty of
             None \<Rightarrow> False
           | Some d \<Rightarrow> pd_dependent_structs d = pd_dependent_structs d0 \<and>
               moved (pod_in results) (set requests) d0 (pd_state d)))"

definition closing :: "pod_results \<Rightarrow> qualified_name set \<Rightarrow> pod_results \<Rightarrow> qualified_name list \<Rightarrow> bool" where
  "closing start asked results requests \<longleftrightarrow>
     (\<forall>ty \<in> asked. pod_in results ty \<or> ty \<in> set requests) \<and> (\<forall>ty. entry_moved start results requests ty)"

lemma closing_step:
  assumes "closing start asked results requests"
    and keep: "\<forall>t. pod_in results t \<longrightarrow> pod_in results' t"
    and open_next: "\<forall>t \<in> set requests. pod_in results' t \<or> t \<in> set requests'"
    and other: "\<forall>k. k \<noteq> ty \<longrightarrow> map_of results' k = map_of results k"
    and own: "map_of results' ty = map_of results ty \<or> entry_moved start results' requests' ty"
  shows "closing start asked results' requests'"
proof -
  have "entry_moved start results' requests' k" for k
  proof (cases "map_of results' k = map_of results k")
    case True
    have "entry_moved start results requests k" using assms(1) by (simp add: closing_def)
    with True show ?thesis
      using moved_mono[OF _ keep open_next] by (auto simp: entry_moved_def split: option.splits)
  qed (use other own in \<open>cases "k = ty"; auto\<close>)
  moreover have "\<forall>t \<in> asked. pod_in results' t \<or> t \<in> set requests'"
    using assms(1) keep open_next unfolding closing_def by blast
  ultimately show ?thesis by (simp add: closing_def)
qed

lemma closing_unsettled:
  assumes "closing start asked results requests" and "map_of results ty = Some d" and "unsettled_state (pd_state d)"
  shows "\<exists>d0. map_of start ty = Some d0 \<and> pd_state d0 = pd_state d \<and>
    pd_dependent_structs d0 = pd_dependent_structs d"
proof -
  have "entry_moved start results requests ty" using assms(1) by (simp add: closing_def)
  with assms(2,3) show ?thesis
    by (auto simp: entry_moved_def moved_def unsettled_state_def split: option.splits pod_state.splits)
qed

lemma closing_entry:
  "map_of start ty = Some d0 \<Longrightarrow> pd_dependent_structs d = pd_dependent_structs d0 \<Longrightarrow>
     moved (pod_in (imap_insert ty d results)) (set requests) d0 (pd_state d) \<Longrightarrow>
     entry_moved start (imap_insert ty d results) requests ty"
  by (simp add: entry_moved_def)

lemma satisfy_requests_closes:
  assumes "closing start asked results requests" and "satisfy_requests results requests awaiting = Inr results'"
  shows "closing start asked results' []"
  using assms
proof (induction results requests awaiting rule: satisfy_requests.induct)
  case (1 results awaiting)
  then show ?case by simp
next
  case (2 results ty requests awaiting)
  from 2(8) obtain d where d: "map_of results ty = Some d"
    by (cases "map_of results ty") (simp_all add: satisfy_requests.simps(2))
  show ?case
  proof (cases "pd_state d")
    case (UnsafeToBePod r)
    with 2(8) d show ?thesis by (simp add: satisfy_requests.simps(2))
  next
    case IsPod
    then have "pod_in results ty" using d by (simp add: state_of_def)
    then have "closing start asked results requests" by (intro closing_step[OF 2(7), of _ _ ty]) auto
    with 2(2)[OF d IsPod] 2(8) d IsPod show ?thesis by (simp add: satisfy_requests.simps(2))
  next
    case SafeToBePod
    let ?r = "imap_insert ty (d\<lparr>pd_state := IsPod\<rparr>) results"
    let ?q = "rev (pd_dependent_structs d) @ requests"
    from closing_unsettled[OF 2(7) d] SafeToBePod obtain d0 where
      d0: "map_of start ty = Some d0" "pd_state d0 = SafeToBePod" "pd_dependent_structs d0 = pd_dependent_structs d"
      by (auto simp: unsettled_state_def)
    then have "entry_moved start ?r ?q ty" by (intro closing_entry[OF d0(1)]) (auto simp: moved_def)
    then have "closing start asked ?r ?q" by (intro closing_step[OF 2(7), of _ _ ty]) auto
    with 2(1)[OF d SafeToBePod] 2(8) d SafeToBePod show ?thesis by (simp add: satisfy_requests.simps(2))
  next
    case (IsAlias target)
    from 2(8) d IsAlias obtain e where e: "map_of results target = Some e"
      by (cases "map_of results target") (simp_all add: satisfy_requests.simps(2))
    from closing_unsettled[OF 2(7) d] IsAlias obtain d0 where
      d0: "map_of start ty = Some d0" "pd_state d0 = IsAlias target" "pd_dependent_structs d0 = pd_dependent_structs d"
      by (auto simp: unsettled_state_def)
    have waits: "closing start asked results (target # ty # requests)"
      by (intro closing_step[OF 2(7), of _ _ ty]) auto
    show ?thesis
    proof (cases "pd_state e")
      case (UnsafeToBePod r)
      let ?d = "d\<lparr>pd_state := UnsafeToBePod (could_not_be_pod ty
                              (''it is a typedef to '' @ QualifiedName_to_string target
                                 @ ''. Because: '' @ r))\<rparr>"
      have "entry_moved start (imap_insert ty ?d results) (ty # requests) ty"
        using d0 by (intro closing_entry[OF d0(1)]) (auto simp: moved_def)
      moreover have "\<not> pod_in results ty" using d IsAlias by (simp add: state_of_def)
      ultimately have "closing start asked (imap_insert ty ?d results) (ty # requests)"
        by (intro closing_step[OF 2(7), of _ _ ty]) auto
      with 2(3)[OF d IsAlias e UnsafeToBePod] 2(8) d e IsAlias UnsafeToBePod
      show ?thesis by (simp add: satisfy_requests.simps(2))
    next
      case SafeToBePod
      with 2(4)[OF d IsAlias e _ _ waits] 2(8) d e IsAlias show ?thesis
        by (simp add: satisfy_requests.simps(2) split: if_splits)
    next
      case IsPod
      let ?r = "imap_insert ty (d\<lparr>pd_state := IsPod\<rparr>) results"
      have "pod_in results target" using e IsPod by (simp add: state_of_def)
      then have "entry_moved start ?r (ty # requests) ty"
        using d0 by (intro closing_entry[OF d0(1)]) (auto simp: moved_def)
      then have "closing start asked ?r (ty # requests)" by (intro closing_step[OF 2(7), of _ _ ty]) auto
      with 2(5)[OF d IsAlias e IsPod] 2(8) d e IsAlias IsPod show ?thesis by (simp add: satisfy_requests.simps(2))
    next
      case IsAlias': (IsAlias t)
      with 2(6)[OF d IsAlias e _ _ waits] 2(8) d e IsAlias show ?thesis
        by (simp add: satisfy_requests.simps(2) split: if_splits)
    qed
  qed
qed


lemma struct_items_names:
  "distinct (map Api_name l) \<Longrightarrow> distinct (map fst (struct_items l))"
  "fst ` set (struct_items l) \<subseteq> Api_name ` set l"
proof -
  show sub: "fst ` set (struct_items l) \<subseteq> Api_name ` set l" for l :: "('td, 'st, 'fn, 'sub) api list"
    by (auto simp: struct_items_def image_iff split: api.splits)
  show "distinct (map Api_name l) \<Longrightarrow> distinct (map fst (struct_items l))"
  proof (induction l)
    case (Cons api l)
    have "struct_items (api # l) = (case api of Api_Struct name details analysis \<Rightarrow> [(Api_name api, sd_item details)] | _ \<Rightarrow> []) @ struct_items l"
      by (simp add: struct_items_def)
    with Cons sub[of l] show ?case by (cases api) auto
  qed (simp add: struct_items_def)
qed

lemma ingested_entries:
  assumes "ingest_structs (map as_ingested l) c = Some c'" and "list_all well_named l" and "distinct (map fst l)"
    and "list_all (\<lambda>s. get_field_dependencies (snd s) \<noteq> None) l"
  shows "c' = c\<lparr>bvc_results := bvc_results c'\<rparr> \<and>
     list_all (\<lambda>(name, def). \<exists>d. map_of (bvc_results c') name = Some d \<and>
        pd_dependent_structs d = map fdep_ty (fields_of def) \<and>
        (pd_state d = SafeToBePod \<and> \<not> own_fault c name def \<or> (\<exists>r. pd_state d = UnsafeToBePod r))) l \<and>
     (\<forall>n. n \<notin> fst ` set l \<longrightarrow> map_of (bvc_results c') n = map_of (bvc_results c) n)"
  using assms
proof (induction l arbitrary: c' rule: rev_induct)
  case Nil
  then show ?case by simp
next
  case (snoc s l)
  obtain name def where s: "s = (name, def)" by (cases s)
  from snoc.prems(1) obtain c1 where c1: "ingest_structs (map as_ingested l) c = Some c1"
    "ingest_struct (as_ingested s) c1 = Some c'" by (auto simp: ingest_structs_snoc bind_eq_Some_conv)
  note IH = snoc.IH[OF c1(1)]
  from snoc.prems(4) s obtain fs where fs: "get_field_dependencies def = Some fs" by auto
  have wn: "well_named (name, def)" using snoc.prems(2) s by simp
  from ingest_struct_gives[OF wn fs, of c1] c1(2) s obtain st where
    st: "c' = c1\<lparr>bvc_results := imap_insert name \<lparr>pd_state = st, pd_dependent_structs = map fdep_ty fs\<rparr> (bvc_results c1)\<rparr>"
    "st = SafeToBePod \<longrightarrow> \<not> own_fault c1 name def" "st = SafeToBePod \<or> (\<exists>r. st = UnsafeToBePod r)"
    by auto
  from IH snoc.prems have same: "c1 = c\<lparr>bvc_results := bvc_results c1\<rparr>" by simp
  then obtain r1 where r1: "c1 = c\<lparr>bvc_results := r1\<rparr>" by blast
  then have "own_fault c1 = own_fault c" by simp
  with st(2,3) have own: "st = SafeToBePod \<and> \<not> own_fault c name def \<or> (\<exists>r. st = UnsafeToBePod r)" by auto
  have new: "name \<notin> fst ` set l" using snoc.prems(3) s by auto
  let ?good = "\<lambda>results (name, def). \<exists>d. map_of results name = Some d \<and>
        pd_dependent_structs d = map fdep_ty (fields_of def) \<and>
        (pd_state d = SafeToBePod \<and> \<not> own_fault c name def \<or> (\<exists>r. pd_state d = UnsafeToBePod r))"
  have "?good (bvc_results c') t" if t: "t \<in> set l" for t
  proof -
    from IH snoc.prems t have "?good (bvc_results c1) t" by (simp add: list_all_iff)
    moreover from new t have "fst t \<noteq> name" by blast
    ultimately show ?thesis using st(1) by (cases t) simp
  qed
  moreover have "?good (bvc_results c') s" using own fs s st(1) by simp
  moreover have "c' = c\<lparr>bvc_results := bvc_results c'\<rparr>" using r1 st(1) by simp
  moreover have "map_of (bvc_results c') n = map_of (bvc_results c) n" if "n \<notin> fst ` set (l @ [s])" for n
    using IH snoc.prems that s st(1) by auto
  ultimately show ?case by (auto simp: list_all_iff)
qed

text \<open>What the pass over everything else leaves for a typedef.\<close>

definition typedef_type :: "typedef_analysis \<Rightarrow> rust_type" where
  "typedef_type analysis = (case ta_kind analysis of TypedefKind_Type t \<Rightarrow> it_ty t | TypedefKind_Use ty \<Rightarrow> ty)"

definition alias_entry :: "type_database \<Rightarrow> rust_type \<Rightarrow> pod_details \<Rightarrow> bool" where
  "alias_entry db ty d \<longleftrightarrow>
     pd_state d = IsPod \<and> is_pointer_like ty \<or>
     (\<exists>target. alias_target db ty = Some (Some target) \<and> pd_state d = IsAlias target) \<or>
     (\<exists>r. pd_state d = UnsafeToBePod r)"

lemma ingest_other_touches:
  "ingest_other db api results = Some results' \<Longrightarrow> n \<noteq> Api_name api \<Longrightarrow> map_of results' n = map_of results n"
  by (auto simp: ingest_other_def ingest_nonpod_type_def Let_def split: api.splits option.splits bool.splits if_splits)

lemma ingest_others_touch:
  "ingest_others db l results = Some results' \<Longrightarrow> n \<notin> Api_name ` set l \<Longrightarrow> map_of results' n = map_of results n"
proof (induction l arbitrary: results)
  case (Cons api l)
  then obtain r where r: "ingest_other db api results = Some r" "ingest_others db l r = Some results'"
    by (auto split: option.splits)
  with Cons.IH[OF r(2)] Cons.prems(2) ingest_other_touches[OF r(1), of n] show ?case by simp
qed simp

lemma ingest_others_typedef:
  assumes "ingest_others db l results = Some results'" and "distinct (map Api_name l)"
    and "Api_Typedef name item old_tyname analysis \<in> set l"
  shows "\<exists>d. map_of results' (an_name name) = Some d \<and> alias_entry db (typedef_type analysis) d"
  using assms
proof (induction l arbitrary: results)
  case (Cons api l)
  then obtain r where r: "ingest_other db api results = Some r" "ingest_others db l r = Some results'"
    by (auto split: option.splits)
  show ?case
  proof (cases "api = Api_Typedef name item old_tyname analysis")
    case True
    then have n: "Api_name api = an_name name" by (simp add: Api_name_def)
    with Cons.prems(2) have "map_of results' (an_name name) = map_of r (an_name name)"
      by (intro ingest_others_touch[OF r(2)]) auto
    moreover have "\<exists>d. map_of r (an_name name) = Some d \<and> alias_entry db (typedef_type analysis) d"
    proof (cases "alias_target db (typedef_type analysis)")
      case None
      with r(1) True show ?thesis by (simp add: ingest_other_def typedef_type_def)
    next
      case (Some t)
      with r(1) True n show ?thesis
        by (cases t) (auto simp: ingest_other_def ingest_nonpod_type_def typedef_type_def[symmetric] alias_entry_def
          pod_details_new_def Let_def split: if_splits)
    qed
    ultimately show ?thesis by simp
  next
    case False
    with Cons.prems have "Api_Typedef name item old_tyname analysis \<in> set l" by auto
    with Cons.IH[OF r(2)] Cons.prems(2) show ?thesis by simp
  qed
qed simp


lemma ordered_as_ingested:
  assumes "structs_in_dependency_order l = Some order" and "distinct (map Api_name l)"
    and "list_all (\<lambda>s. get_field_dependencies (snd s) \<noteq> None) (struct_items l)"
  shows "\<exists>structs. order = map as_ingested structs \<and> mset structs = mset (struct_items l)"
proof -
  from ordered_structs[OF struct_items_names(1)[OF assms(2)]] assms(3) obtain p o' where
    "order_from (dependency_positions (struct_items l)) [0 ..< length (struct_items l)]
       (replicate (length (struct_items l)) Unseen) [] = Some (p, o')"
    "mset (map (\<lambda>i. struct_items l ! i) o') = mset (struct_items l)"
    unfolding list_all_iff by blast
  with assms(1) show ?thesis
    by (intro exI[of _ "map (\<lambda>i. struct_items l ! i) o'"])
      (auto simp add: structs_in_dependency_order_def as_ingested_def Let_def case_prod_unfold)
qed

text \<open>The checker as it stands when the requests are looked at.\<close>

lemma ingested:
  assumes "ingest_apis db l config rep = Some c" and "distinct (map Api_name l)"
    and "list_all well_named (struct_items l)"
    and "list_all (\<lambda>s. get_field_dependencies (snd s) \<noteq> None) (struct_items l)"
  shows "list_all (\<lambda>(name, def). \<exists>d. map_of (bvc_results c) name = Some d \<and>
        pd_dependent_structs d = map fdep_ty (fields_of def) \<and>
        (pd_state d = SafeToBePod \<and> \<not> own_fault c name def \<or> (\<exists>r. pd_state d = UnsafeToBePod r))) (struct_items l)"
    and "Api_Typedef name item old_tyname analysis \<in> set l \<Longrightarrow>
      \<exists>d. map_of (bvc_results c) (an_name name) = Some d \<and> alias_entry db (typedef_type analysis) d"
proof -
  from assms(1) obtain c0 results order where
    o: "ingest_others db l c0 = Some results" "structs_in_dependency_order l = Some order"
      "ingest_structs order \<lparr>bvc_results = results,
          bvc_virtually_inherited = rep_types_inheriting_virtually rep,
          bvc_has_bases = rep_types_with_bases rep,
          bvc_volatile_bitfields = filter (has_volatile_bitfield rep) (map Api_name l)\<rparr> = Some c"
    by (auto simp: ingest_apis_def bind_eq_Some_conv)
  from ordered_as_ingested[OF o(2) assms(2,4)] obtain structs where
    s: "order = map as_ingested structs" "mset structs = mset (struct_items l)" by blast
  then have set: "set structs = set (struct_items l)" by (metis set_mset_mset)
  have dist: "distinct (map fst structs)"
    using struct_items_names(1)[OF assms(2)] s(2) by (metis mset_map mset_eq_imp_distinct_iff)
  from assms(3) set have wn: "list_all well_named structs" by (simp add: list_all_iff)
  from assms(4) set have "list_all (\<lambda>s. get_field_dependencies (snd s) \<noteq> None) structs" by (simp add: list_all_iff)
  note r = ingested_entries[OF o(3)[unfolded s(1)] wn dist this]
  from r have "own_fault c = own_fault \<lparr>bvc_results = results,
          bvc_virtually_inherited = rep_types_inheriting_virtually rep,
          bvc_has_bases = rep_types_with_bases rep,
          bvc_volatile_bitfields = filter (has_volatile_bitfield rep) (map Api_name l)\<rparr>"
    by (metis own_fault_update)
  with r set show "list_all (\<lambda>(name, def). \<exists>d. map_of (bvc_results c) name = Some d \<and>
        pd_dependent_structs d = map fdep_ty (fields_of def) \<and>
        (pd_state d = SafeToBePod \<and> \<not> own_fault c name def \<or> (\<exists>r. pd_state d = UnsafeToBePod r))) (struct_items l)"
    by (simp add: list_all_iff)
  show "\<exists>d. map_of (bvc_results c) (an_name name) = Some d \<and> alias_entry db (typedef_type analysis) d"
    if t: "Api_Typedef name item old_tyname analysis \<in> set l"
  proof -
    have "an_name name \<notin> fst ` set structs"
    proof
      assume "an_name name \<in> fst ` set structs"
      then obtain sname details an where st: "Api_Struct sname details an \<in> set l" "an_name sname = an_name name"
        unfolding set by (auto simp: struct_items_def Api_name_def split: api.splits)
      then have "Api_name (Api_Struct sname details an) = Api_name (Api_Typedef name item old_tyname analysis)"
        by (simp add: Api_name_def)
      with assms(2) st(1) t show False by (auto simp: distinct_map dest: inj_onD)
    qed
    with r have "map_of (bvc_results c) (an_name name) = map_of results (an_name name)" by simp
    with ingest_others_typedef[OF o(1) assms(2) t] show ?thesis by simp
  qed
qed

lemma closing_start: "closing results (set requests) results requests"
  by (auto simp: closing_def entry_moved_def moved_def split: option.splits)



section \<open>Which requests are granted\<close>

text \<open>What a set of requests comes to: the types fields rest on, and the targets of typedefs.\<close>

inductive demanded :: "pod_results \<Rightarrow> qualified_name set \<Rightarrow> qualified_name \<Rightarrow> bool" for start asked where
  asked: "ty \<in> asked \<Longrightarrow> demanded start asked ty"
| field: "demanded start asked ty \<Longrightarrow> map_of start ty = Some d \<Longrightarrow> pd_state d = SafeToBePod \<Longrightarrow>
    t \<in> set (pd_dependent_structs d) \<Longrightarrow> demanded start asked t"
| target: "demanded start asked ty \<Longrightarrow> state_of start ty = Some (IsAlias t) \<Longrightarrow> demanded start asked t"

definition no_circle :: "(qualified_name \<Rightarrow> nat) \<Rightarrow> pod_results \<Rightarrow> bool" where
  "no_circle rank results \<longleftrightarrow>
     list_all (\<lambda>(ty, d). case pd_state d of
        SafeToBePod \<Rightarrow> list_all (\<lambda>t. rank t < rank ty) (pd_dependent_structs d)
      | IsAlias t \<Rightarrow> rank t < rank ty
      | _ \<Rightarrow> True) results"

lemma no_circle_falls:
  assumes "no_circle rank results" and "map_of results ty = Some d"
  shows "pd_state d = SafeToBePod \<Longrightarrow> \<forall>t \<in> set (pd_dependent_structs d). rank t < rank ty"
    and "pd_state d = IsAlias t \<Longrightarrow> rank t < rank ty"
  using assms by (auto simp: no_circle_def list_all_iff dest!: map_of_SomeD bspec)

text \<open>
  While a typedef waits, its target is above it on the stack or settled, and everything above it is
  lower in rank.
\<close>

definition awaits :: "(qualified_name \<Rightarrow> nat) \<Rightarrow> pod_results \<Rightarrow> qualified_name list \<Rightarrow> qualified_name \<Rightarrow> bool" where
  "awaits rank results requests a \<longleftrightarrow>
     (\<forall>target. state_of results a = Some (IsAlias target) \<longrightarrow>
        (\<exists>nearer rest. requests = nearer @ a # rest \<and> (\<forall>x \<in> set nearer. rank x < rank a) \<and>
           (target \<in> set nearer \<or> pod_in results target)))"

definition granting ::
    "(qualified_name \<Rightarrow> nat) \<Rightarrow> pod_results \<Rightarrow> qualified_name set \<Rightarrow> pod_results \<Rightarrow> qualified_name list \<Rightarrow>
     qualified_name list \<Rightarrow> bool" where
  "granting rank start asked results requests awaiting \<longleftrightarrow>
     (\<forall>ty \<in> set requests. demanded start asked ty) \<and>
     (\<forall>ty. demanded start asked ty \<longrightarrow> map_of results ty \<noteq> None) \<and>
     (\<forall>ty d. demanded start asked ty \<longrightarrow> map_of results ty = Some d \<longrightarrow>
        pd_state d = IsPod \<or> map_of start ty = Some d \<and> unsettled_state (pd_state d)) \<and>
     (\<forall>a \<in> set awaiting. demanded start asked a \<and> awaits rank results requests a)"

lemma awaits_settled:
  "state_of results ty = Some IsPod \<Longrightarrow> awaits rank results requests ty"
  by (simp add: awaits_def)

lemma awaits_pop:
  assumes "awaits rank results (ty # requests) a" and "pod_in results ty"
  shows "awaits rank results requests a"
  unfolding awaits_def
proof (intro allI impI)
  fix target assume t: "state_of results a = Some (IsAlias target)"
  with assms(1) obtain nearer rest where n: "ty # requests = nearer @ a # rest"
    "\<forall>x \<in> set nearer. rank x < rank a" "target \<in> set nearer \<or> pod_in results target"
    unfolding awaits_def by blast
  from t assms(2) have "ty \<noteq> a" by auto
  with n(1) obtain nearer' where "nearer = ty # nearer'" by (cases nearer) auto
  with n assms(2) show "\<exists>nearer rest. requests = nearer @ a # rest \<and> (\<forall>x \<in> set nearer. rank x < rank a) \<and>
      (target \<in> set nearer \<or> pod_in results target)"
    by (intro exI[of _ nearer'] exI[of _ rest]) auto
qed

lemma awaits_grant:
  assumes "awaits rank results (ty # requests) a" and "pd_state d' = IsPod"
    and "\<forall>t \<in> set new. rank t < rank ty" and "ty \<noteq> a"
  shows "awaits rank (imap_insert ty d' results) (new @ requests) a"
  unfolding awaits_def
proof (intro allI impI)
  fix target assume "state_of (imap_insert ty d' results) a = Some (IsAlias target)"
  with assms(4) have "state_of results a = Some (IsAlias target)" by simp
  with assms(1) obtain nearer rest where n: "ty # requests = nearer @ a # rest"
    "\<forall>x \<in> set nearer. rank x < rank a" "target \<in> set nearer \<or> pod_in results target"
    unfolding awaits_def by blast
  with assms(4) obtain nearer' where n': "nearer = ty # nearer'" by (cases nearer) auto
  then have "\<forall>x \<in> set new. rank x < rank a" using assms(3) n(2) by fastforce
  with n n' assms(2) show "\<exists>nearer rest. new @ requests = nearer @ a # rest \<and> (\<forall>x \<in> set nearer. rank x < rank a) \<and>
      (target \<in> set nearer \<or> pod_in (imap_insert ty d' results) target)"
    by (intro exI[of _ "new @ nearer'"] exI[of _ rest]) auto
qed

lemma awaits_same_requests:
  assumes "awaits rank results requests a" and "pd_state d' = IsPod"
  shows "awaits rank (imap_insert ty d' results) requests a"
  unfolding awaits_def
proof (intro allI impI)
  fix target assume "state_of (imap_insert ty d' results) a = Some (IsAlias target)"
  with assms(2) have "state_of results a = Some (IsAlias target)" by (simp split: if_splits)
  with assms(1) obtain nearer rest where "requests = nearer @ a # rest"
    "\<forall>x \<in> set nearer. rank x < rank a" "target \<in> set nearer \<or> pod_in results target"
    unfolding awaits_def by blast
  with assms(2) show "\<exists>nearer rest. requests = nearer @ a # rest \<and> (\<forall>x \<in> set nearer. rank x < rank a) \<and>
      (target \<in> set nearer \<or> pod_in (imap_insert ty d' results) target)" by auto
qed

lemma awaits_push:
  assumes "awaits rank results (ty # requests) a" and "rank t < rank ty" and "ty \<noteq> a"
  shows "awaits rank results (t # ty # requests) a"
  unfolding awaits_def
proof (intro allI impI)
  fix target assume "state_of results a = Some (IsAlias target)"
  with assms(1) obtain nearer rest where n: "ty # requests = nearer @ a # rest"
    "\<forall>x \<in> set nearer. rank x < rank a" "target \<in> set nearer \<or> pod_in results target"
    unfolding awaits_def by blast
  with assms(3) have "ty \<in> set nearer" by (cases nearer) auto
  with n assms(2) show "\<exists>nearer rest. t # ty # requests = nearer @ a # rest \<and> (\<forall>x \<in> set nearer. rank x < rank a) \<and>
      (target \<in> set nearer \<or> pod_in results target)"
    by (intro exI[of _ "t # nearer"] exI[of _ rest]) auto
qed


lemma granting_state:
  assumes "granting rank start asked results (ty # requests) awaiting"
  shows "\<exists>d. map_of results ty = Some d \<and>
     (pd_state d = IsPod \<or> map_of start ty = Some d \<and> unsettled_state (pd_state d))"
  using assms unfolding granting_def by fastforce

lemma granting_insert:
  assumes "granting rank start asked results (ty # requests) awaiting" and "pd_state d' = IsPod"
    and "\<forall>t \<in> set requests'. demanded start asked t"
    and "\<forall>a \<in> set awaiting. awaits rank (imap_insert ty d' results) requests' a"
  shows "granting rank start asked (imap_insert ty d' results) requests' awaiting"
  using assms by (simp add: granting_def)

lemma requests_granted:
  assumes "granting rank start asked results requests awaiting" and "no_circle rank start"
  shows "\<exists>results'. satisfy_requests results requests awaiting = Inr results'"
  using assms(1)
proof (induction results requests awaiting rule: satisfy_requests.induct)
  case (1 results awaiting)
  then show ?case by simp
next
  case (2 results ty requests awaiting)
  note g = 2(7)
  from granting_state[OF g] obtain d where d: "map_of results ty = Some d"
    "pd_state d = IsPod \<or> map_of start ty = Some d \<and> unsettled_state (pd_state d)" by blast
  have dem: "demanded start asked ty" and rest: "\<forall>t \<in> set requests. demanded start asked t"
    and wait: "\<forall>a \<in> set awaiting. awaits rank results (ty # requests) a"
    using g by (simp_all add: granting_def)
  show ?case
  proof (cases "pd_state d")
    case (UnsafeToBePod r)
    with d(2) show ?thesis by (simp add: unsettled_state_def)
  next
    case IsPod
    then have pod: "pod_in results ty" using d by (simp add: state_of_def)
    have "\<forall>a \<in> set awaiting. awaits rank results requests a" using wait awaits_pop[OF _ pod] by blast
    then have "granting rank start asked results requests awaiting" using g by (simp add: granting_def)
    with 2(2)[OF d(1) IsPod] d(1) IsPod show ?thesis by (simp add: satisfy_requests.simps(2))
  next
    case SafeToBePod
    with d(2) have start: "map_of start ty = Some d" by simp
    let ?q = "rev (pd_dependent_structs d) @ requests"
    let ?d = "d\<lparr>pd_state := IsPod\<rparr>"
    have falls: "\<forall>t \<in> set (rev (pd_dependent_structs d)). rank t < rank ty"
      using no_circle_falls(1)[OF assms(2) start SafeToBePod] by simp
    have "awaits rank (imap_insert ty ?d results) ?q a" if "a \<in> set awaiting" for a
    proof (cases "a = ty")
      case False
      with that wait show ?thesis by (intro awaits_grant[OF _ _ falls]) auto
    qed (simp add: awaits_settled)
    moreover have "\<forall>t \<in> set ?q. demanded start asked t"
      using rest demanded.field[OF dem start SafeToBePod] by auto
    ultimately have "granting rank start asked (imap_insert ty ?d results) ?q awaiting"
      by (intro granting_insert[OF g]) simp_all
    with 2(1)[OF d(1) SafeToBePod] d(1) SafeToBePod show ?thesis by (simp add: satisfy_requests.simps(2))
  next
    case (IsAlias target)
    with d(2) have start: "map_of start ty = Some d" by simp
    then have "state_of start ty = Some (IsAlias target)" using IsAlias by (simp add: state_of_def)
    from demanded.target[OF dem this] have demt: "demanded start asked target" .
    have falls: "rank target < rank ty" using no_circle_falls(2)[OF assms(2) start IsAlias] .
    from g demt obtain e where e: "map_of results target = Some e"
      "pd_state e = IsPod \<or> unsettled_state (pd_state e)"
      unfolding granting_def by fastforce
    show ?thesis
    proof (cases "pd_state e = IsPod")
      case True
      let ?d = "d\<lparr>pd_state := IsPod\<rparr>"
      have "\<forall>a \<in> set awaiting. awaits rank (imap_insert ty ?d results) (ty # requests) a"
        using wait by (auto intro: awaits_same_requests)
      then have "granting rank start asked (imap_insert ty ?d results) (ty # requests) awaiting"
        using dem rest by (intro granting_insert[OF g]) simp_all
      with 2(5)[OF d(1) IsAlias e(1) True] d(1) e(1) IsAlias True show ?thesis
        by (simp add: satisfy_requests.simps(2))
    next
      case False
      have al: "state_of results ty = Some (IsAlias target)" using d(1) IsAlias by (simp add: state_of_def)
      have fresh: "ty \<notin> set awaiting"
      proof
        assume "ty \<in> set awaiting"
        with wait have "awaits rank results (ty # requests) ty" by blast
        with al obtain nearer rest where n: "ty # requests = nearer @ ty # rest"
          "\<forall>x \<in> set nearer. rank x < rank ty" "target \<in> set nearer \<or> pod_in results target"
          unfolding awaits_def by blast
        have "nearer = []" using n(1,2) by (cases nearer) auto
        with n(3) e(1) False show False by (simp add: state_of_def)
      qed
      have "awaits rank results (target # ty # requests) a" if a: "a \<in> set (iset_insert ty awaiting)" for a
      proof (cases "a = ty")
        case True
        then show ?thesis unfolding awaits_def using al falls
          by (intro allI impI exI[of _ "[target]"] exI[of _ requests]) auto
      next
        case False
        with a wait show ?thesis by (intro awaits_push[OF _ falls]) auto
      qed
      moreover have "\<forall>a \<in> set (iset_insert ty awaiting). demanded start asked a"
        using g dem by (simp add: granting_def)
      ultimately have g': "granting rank start asked results (target # ty # requests) (iset_insert ty awaiting)"
        using g demt by (simp add: granting_def)
      from False e(2) consider (safe) "pd_state e = SafeToBePod" | (again) t where "pd_state e = IsAlias t"
        by (cases "pd_state e") (simp_all add: unsettled_state_def)
      then show ?thesis
      proof cases
        case safe
        with 2(4)[OF d(1) IsAlias e(1) _ fresh g'] d(1) e(1) IsAlias fresh show ?thesis
          by (simp add: satisfy_requests.simps(2))
      next
        case (again t)
        with 2(6)[OF d(1) IsAlias e(1) _ fresh g'] d(1) e(1) IsAlias fresh show ?thesis
          by (simp add: satisfy_requests.simps(2))
      qed
    qed
  qed
qed



section \<open>A nested class written after the class around it\<close>

definition item_with :: "string \<Rightarrow> item_field list \<Rightarrow> struct_details" where
  "item_with name fs =
     \<lparr>sd_item = \<lparr>is_ident = name, is_type_params = [], is_other_params = 0, is_where_clause = [], is_fields = fs, is_tokens = ''''\<rparr>,
      sd_has_rvalue_reference_fields = False, sd_layout = None\<rparr>"

definition sample_nested :: "(typedef_analysis, unit, unit, unit) api list" where
  "sample_nested =
     (let path = \<lambda>n. Type_Path (plain_path False [''root'', ''ns'', n]);
          field = \<lambda>f ty. \<lparr>if_ident = Some f, if_public = True, if_ty = ty\<rparr> in
      [Api_Struct (sample_name ''Outer'') (item_with ''Outer'' [field ''i'' (path ''Inner''), field ''a'' (path ''Alias'')]) (),
       Api_Struct (sample_name ''Inner'') (item_with ''Inner'' [field ''p'' (Type_Ptr True (path ''Outer''))]) (),
       Api_Typedef (sample_name ''Alias'') (TypedefKind_Use (path ''Inner'')) None
         \<lparr>ta_kind = TypedefKind_Use (path ''Inner''), ta_target_kind = Kind_Regular, ta_target_is_const = False,
          ta_target_is_std_array = False, ta_deps = []\<rparr>])"

definition nested_config :: include_cpp_config where
  "nested_config = ns_only_config\<lparr>pod_requests := [\<lparr>dr_text = ''ns::Outer'', dr_matched = False\<rparr>]\<rparr>"

definition nothing_reported :: reported where
  "nothing_reported = \<lparr>rep_types_inheriting_virtually = [], rep_types_with_bases = [], rep_data_members = []\<rparr>"

lemma sample_nested_ok:
  "distinct (map Api_name sample_nested)" "list_all well_named (struct_items sample_nested)"
  "list_all (\<lambda>s. get_field_dependencies (snd s) \<noteq> None) (struct_items sample_nested)"
  by code_simp+

lemma sample_nested_ranks:
  "held_below (\<lambda>n. if n = QualifiedName [''ns''] ''Outer'' then 1 else 0) (struct_items sample_nested)"
  by code_simp

lemma structs_come_after_what_they_hold_witness:
  "\<exists>structs. structs_in_dependency_order sample_nested =
       Some (map (\<lambda>(name, def). (def, get_namespace name)) structs) \<and>
     held_first (fst ` set (struct_items sample_nested)) {} structs"
  using structs_come_after_what_they_hold[OF struct_items_names(1)[OF sample_nested_ok(1)] sample_nested_ok(3)]
    sample_nested_ranks by blast

lemma verdicts_follow_the_rule_witness:
  "\<exists>results. list_all (verdict_on \<lparr>bvc_results = [], bvc_virtually_inherited = [], bvc_has_bases = [],
       bvc_volatile_bitfields = []\<rparr> (set (struct_items sample_nested)) results) (struct_items sample_nested)"
  using verdicts_follow_the_rule[OF struct_items_names(1)[OF sample_nested_ok(1)] sample_nested_ok(2,3)
    sample_nested_ranks] by blast

lemma sample_nested_accepted:
  "case new_from_apis empty_database sample_nested nested_config nothing_reported of
     Some (Inr c) \<Rightarrow> is_pod c (QualifiedName [''ns''] ''Outer'') | _ \<Rightarrow> False"
  by code_simp


definition sample_results :: pod_results where
  "sample_results =
     [(QualifiedName [''ns''] ''Alias'', pod_details_new (IsAlias (QualifiedName [''ns''] ''Inner''))),
      (QualifiedName [''ns''] ''Inner'', pod_details_new SafeToBePod)]"



end
