(* ===== verification/PodAnalysis.thy ===== *)
theory PodAnalysis imports TypedefTargets ByValue begin

text \<open>
  The second pass of the conversion (\<^verbatim>\<open>analysis/pod/mod.rs\<close>): what each struct holds and inherits, and
  whether Rust may hold it by value. The checker of \<open>ByValue\<close> answers for the whole list first; each
  struct is then analysed in turn with one type converter for all of them.
\<close>

type_synonym pod_phase_api = "(typedef_analysis, pod_analysis, unit, unit) api"
type_synonym pod_phase_apis = "(typedef_analysis, pod_analysis, unit, unit) api_vec"

section \<open>What the callbacks reported\<close>

text \<open>What the checker asks of the callbacks' results, asked for each item of the list.\<close>

fun data_members_of ::
    "parse_callback_results \<Rightarrow> qualified_name list \<Rightarrow> (qualified_name, data_member list) index_map option" where
  "data_members_of p [] = Some []"
| "data_members_of p (name # rest) =
     (case data_members p name of
        None \<Rightarrow> None
      | Some members \<Rightarrow> map_option (\<lambda>m. (name, or_empty members) # m) (data_members_of p rest))"

definition reported_of :: "parse_callback_results \<Rightarrow> ('td, 'st, 'fn, 'sub) api list \<Rightarrow> reported option" where
  "reported_of p l =
     map_option
       (\<lambda>members. \<lparr>rep_types_inheriting_virtually = types_inheriting_virtually p,
                   rep_types_with_bases = types_with_bases p, rep_data_members = members\<rparr>)
       (data_members_of p (map Api_name l))"

section \<open>Bases\<close>

definition is_base_field :: "item_field \<Rightarrow> bool" where
  "is_base_field f \<longleftrightarrow> (case if_ident f of Some idt \<Rightarrow> prefix ''_base'' idt | None \<Rightarrow> False)"

fun bases_from_fields ::
    "item_field list \<Rightarrow> (qualified_name, base_class) index_map \<Rightarrow> (qualified_name, base_class) index_map option" where
  "bases_from_fields [] bases = Some bases"
| "bases_from_fields (f # fs) bases =
     (case if_ty f of
        Type_Path typ \<Rightarrow>
          if is_base_field f
          then (case from_type_path typ of
                  None \<Rightarrow> None
                | Some name \<Rightarrow> bases_from_fields fs
                    (imap_insert name \<lparr>bc_name = name, bc_is_virtual = False, bc_is_public = if_public f\<rparr> bases))
          else bases_from_fields fs bases
      | _ \<Rightarrow> bases_from_fields fs bases)"

definition struct_bases ::
    "qualified_name \<Rightarrow> item_struct \<Rightarrow> parse_callback_results \<Rightarrow>
     ((qualified_name, base_class) index_map \<times> bool) option" where
  "struct_bases name item p =
     map_option
       (\<lambda>bases. case get_bases p name of
          None \<Rightarrow> (bases, False)
        | Some reported \<Rightarrow>
            (fold (\<lambda>base bases. if bc_name base = name then bases else imap_insert (bc_name base) base bases)
               (bcs_named reported) bases,
             bcs_any_unnamed reported))
       (bases_from_fields (is_fields item) [])"

section \<open>Fields\<close>

definition is_bindgens_own_field :: "item_field \<Rightarrow> data_member list \<Rightarrow> bool" where
  "is_bindgens_own_field f members \<longleftrightarrow>
     (case if_ident f of
        None \<Rightarrow> True
      | Some idt \<Rightarrow> \<not> list_ex (\<lambda>m. dm_name m = Some idt) members)"

record field_facts =
  ff_deps :: "qualified_name list"
  ff_definition_deps :: "qualified_name list"
  ff_info :: "field_info list"
  ff_all_converted :: bool
  ff_errors :: "convert_error list"

definition no_field_facts :: field_facts where
  "no_field_facts =
     \<lparr>ff_deps = [], ff_definition_deps = [], ff_info = [], ff_all_converted = True, ff_errors = []\<rparr>"

definition is_skipped_field :: "item_field \<Rightarrow> bool" where
  "is_skipped_field f \<longleftrightarrow>
     (case if_ident f of
        Some idt \<Rightarrow> prefix ''_base'' idt \<or> prefix ''__bindgen_padding'' idt
      | None \<Rightarrow> False)"

definition field_info_of :: "item_field \<Rightarrow> rust_type annotated \<Rightarrow> field_info" where
  "field_info_of f r =
     \<lparr>fi_name = if_ident f, fi_ty = ann_ty r, fi_type_kind = ann_kind r,
      fi_bindgen_opaque_data = (if_ident f = Some ''_bindgen_opaque_blob''),
      fi_is_const = ann_is_const r, fi_is_volatile = is_volatile_qualified (if_ty f),
      fi_holds_std_array = holds_std_array (if_ty f) \<or> ann_is_std_array r,
      fi_has_default_initializer = False\<rparr>"

definition note_field :: "item_field \<Rightarrow> rust_type annotated \<Rightarrow> field_facts \<Rightarrow> field_facts option" where
  "note_field f r facts =
     (if is_skipped_field f then Some facts
      else map_option
        (\<lambda>definition_dep. facts
           \<lparr>ff_deps := fold iset_insert (ann_types_encountered r) (ff_deps facts),
            ff_definition_deps := (case definition_dep of
                Some dep \<Rightarrow> iset_insert dep (ff_definition_deps facts) | None \<Rightarrow> ff_definition_deps facts),
            ff_info := ff_info facts @ [field_info_of f r]\<rparr>)
        (case array_element_type (ann_ty r) of
           Type_Path typ \<Rightarrow> map_option Some (from_type_path typ)
         | _ \<Rightarrow> Some None))"

definition note_field_error :: "item_field \<Rightarrow> data_member list \<Rightarrow> convert_error \<Rightarrow> field_facts \<Rightarrow> field_facts" where
  "note_field_error f members e facts = facts
     \<lparr>ff_all_converted := (ff_all_converted facts \<and> is_bindgens_own_field f members),
      ff_errors := ff_errors facts @ [e]\<rparr>"

fun field_types_loop ::
    "(rust_type \<Rightarrow> rust_type annotated conv) \<Rightarrow> data_member list \<Rightarrow> item_field list \<Rightarrow> field_facts \<Rightarrow>
     conversion_state \<Rightarrow> (field_facts \<times> conversion_state) option" where
  "field_types_loop convert members [] facts s = Some (facts, s)"
| "field_types_loop convert members (f # fs) facts (me, extra_apis) =
     (case convert (if_ty f) me of
        None \<Rightarrow> None
      | Some (Inl e, me) \<Rightarrow> field_types_loop convert members fs (note_field_error f members e facts) (me, extra_apis)
      | Some (Inr r, me) \<Rightarrow>
          (case apivec_append extra_apis (ann_extra_apis r) of
             None \<Rightarrow> None
           | Some extra_apis \<Rightarrow>
               (case note_field f r facts of
                  None \<Rightarrow> None
                | Some facts \<Rightarrow> field_types_loop convert members fs facts (me, extra_apis))))"

definition get_struct_field_types ::
    "(string \<Rightarrow> bool) \<Rightarrow> nat \<Rightarrow> namespace \<Rightarrow> item_struct \<Rightarrow> data_member list \<Rightarrow> conversion_state \<Rightarrow>
     (field_facts \<times> conversion_state) option" where
  "get_struct_field_types ok n ns item members =
     field_types_loop (\<lambda>ty. convert_type ok n ty ns (WithinStructField (is_type_params item)))
       members (is_fields item) no_field_facts"

text \<open>Joined on the name bindgen gave the field; a bitfield's reported name is its accessor's.\<close>

definition add_reported_facts :: "data_member list \<Rightarrow> field_info \<Rightarrow> field_info" where
  "add_reported_facts members field =
     (case fi_name field of
        None \<Rightarrow> field
      | Some name \<Rightarrow>
          (case find (\<lambda>m. \<not> dm_is_bitfield m \<and> dm_name m = Some name) members of
             None \<Rightarrow> field
           | Some reported \<Rightarrow> field
               \<lparr>fi_has_default_initializer := dm_has_default_member_initializer reported,
                fi_is_const := fi_is_const field \<or> dm_is_const reported,
                fi_is_volatile := fi_is_volatile field \<or> dm_is_volatile reported\<rparr>))"

section \<open>A struct\<close>

definition decide_kind ::
    "by_value_checker \<Rightarrow> qualified_name \<Rightarrow> bool \<Rightarrow> field_info list \<Rightarrow> convert_error list \<Rightarrow>
     (convert_error_with_context, type_kind) result" where
  "decide_kind checker name has_rvalue_reference_fields info errors =
     (if list_ex fi_bindgen_opaque_data info then Inr Opaque
      else if is_pod checker name then
        (if has_rvalue_reference_fields then fatal (MemberError RValueReferenceField) name
         else case errors of
           err # _ \<Rightarrow> fatal err name
         | [] \<Rightarrow> Inr Pod)
      else Inr NonPod)"

definition struct_analysis ::
    "parse_callback_results \<Rightarrow> qualified_name \<Rightarrow> item_struct \<Rightarrow> (qualified_name, base_class) index_map \<Rightarrow> bool \<Rightarrow>
     data_member list \<Rightarrow> field_facts \<Rightarrow> field_info list \<Rightarrow> type_kind \<Rightarrow> qualified_name list \<Rightarrow> pod_analysis" where
  "struct_analysis p name item bases has_unnamed_base members facts info kind castable =
     \<lparr>pa_kind = kind, pa_bases = map fst bases,
      pa_public_bases = map fst (filter (bc_is_public \<circ> snd) bases),
      pa_has_unnamed_base = has_unnamed_base,
      pa_virtual_bases = map fst (filter (bc_is_virtual \<circ> snd) bases),
      pa_using_declarations = get_using_declarations p name,
      pa_castable_bases = castable, pa_field_deps = ff_deps facts,
      pa_field_definition_deps = ff_definition_deps facts, pa_field_info = info,
      pa_bitfields = filter dm_is_bitfield members,
      pa_num_generics = length (is_type_params item) + is_other_params item,
      pa_in_anonymous_namespace = list_ex (prefix ''_bindgen_mod'') (get_namespace name),
      pa_all_fields_converted = ff_all_converted facts\<rparr>"

definition analyze_struct ::
    "(include_cpp_config \<Rightarrow> nat) \<Rightarrow> (string \<Rightarrow> bool) \<Rightarrow> nat \<Rightarrow> by_value_checker \<Rightarrow>
     (qualified_name, string) index_map \<Rightarrow> parse_callback_results \<Rightarrow> api_name \<Rightarrow> struct_details \<Rightarrow>
     conversion_state \<Rightarrow>
     ((convert_error_with_context, pod_phase_api list) result \<times> conversion_state) option" where
  "analyze_struct get_hash ok n checker nested p name details s =
     (let qn = an_name name; item = sd_item details in
      case check_for_fatal_attrs p qn of
        None \<Rightarrow> None
      | Some (Inl e) \<Rightarrow> Some (Inl e, s)
      | Some (Inr _) \<Rightarrow>
     (case (struct_bases qn item p, data_members p qn) of
        (Some (bases, has_unnamed_base), Some reported_members) \<Rightarrow>
          (let members = or_empty reported_members in
           case get_struct_field_types ok n (get_namespace qn) item members s of
             None \<Rightarrow> None
           | Some (facts, s) \<Rightarrow>
               (let info = map (add_reported_facts members) (ff_info facts) in
                case decide_kind checker qn (sd_has_rvalue_reference_fields details) info (ff_errors facts) of
                  Inl e \<Rightarrow> Some (Inl e, s)
                | Inr kind \<Rightarrow>
                    map_option
                      (\<lambda>castable. (Inr [Api_Struct name details
                          (struct_analysis p qn item bases has_unnamed_base members facts info kind castable)], s))
                      (filter_option (nested_is_on_allowlist get_hash (tc_config (fst s)) nested)
                         (map fst (filter (bc_is_public \<circ> snd) bases)))))
      | _ \<Rightarrow> None))"

definition analyze_enum ::
    "parse_callback_results \<Rightarrow> api_name \<Rightarrow> item_enum \<Rightarrow> conversion_state \<Rightarrow>
     ((convert_error_with_context, pod_phase_api list) result \<times> conversion_state) option" where
  "analyze_enum p name item s =
     map_option (\<lambda>r. (map_sum id (\<lambda>_. [Api_Enum name item]) r, s)) (check_for_fatal_attrs p (an_name name))"

section \<open>The pass\<close>

definition pod_conversions ::
    "(include_cpp_config \<Rightarrow> nat) \<Rightarrow> (string \<Rightarrow> bool) \<Rightarrow> nat \<Rightarrow> by_value_checker \<Rightarrow>
     (qualified_name, string) index_map \<Rightarrow> parse_callback_results \<Rightarrow>
     (typedef_analysis, 'st, unit, unit, typedef_analysis, pod_analysis, unit, unit, conversion_state)
       stateful_conversions" where
  "pod_conversions get_hash ok n checker nested p =
     \<lparr>func_with = (\<lambda>name fn a. keeping (fun_unchanged name fn a)),
      struct_with = (\<lambda>name details a. analyze_struct get_hash ok n checker nested p name details),
      enum_with = analyze_enum p,
      typedef_with = (\<lambda>name item old_tyname a. keeping (typedef_unchanged name item old_tyname a)),
      subclass_with = (\<lambda>name superclass a. keeping (subclass_unchanged name superclass a))\<rparr>"

text \<open>
  The second \<^verbatim>\<open>convert_apis\<close> runs over the concrete types the first one made, and must make none itself.
\<close>

definition analyze_pod_apis ::
    "(include_cpp_config \<Rightarrow> nat) \<Rightarrow> (string \<Rightarrow> bool) \<Rightarrow> nat \<Rightarrow> (typedef_analysis, unit, unit, unit) api_vec \<Rightarrow>
     include_cpp_config \<Rightarrow> parse_callback_results \<Rightarrow>
     (convert_error, pod_phase_apis \<times> include_cpp_config) result option" where
  "analyze_pod_apis get_hash ok n v config p =
     Option.bind (reported_of p (apis v)) (\<lambda>rep.
     Option.bind (new_from_apis known_types (apis v) config rep) (\<lambda>checked.
       case checked of
         Inl e \<Rightarrow> Some (Inl e)
       | Inr checker \<Rightarrow>
          (let nested = nested_cpp_names (map name_info (apis v)) in
           Option.bind (TypeConverter_new n config typedef_analysis_target v p) (\<lambda>me.
           Option.bind (convert_apis_with (pod_conversions get_hash ok n checker nested p) v ApiVec_new (me, ApiVec_new))
             (\<lambda>(results, (me, extra_apis)).
           Option.bind (Option.bind (those (map add_analysis (apis extra_apis)))
               (apivec_from_iter :: (typedef_analysis, pod_analysis, unit, unit) api list \<Rightarrow> pod_phase_apis option)) (\<lambda>extra_apis.
           Option.bind (convert_apis_with (pod_conversions get_hash ok n checker nested p) extra_apis results (me, ApiVec_new))
             (\<lambda>(results, (me, more_extra_apis)).
           if apis more_extra_apis \<noteq> [] then None
           else map_option (\<lambda>(results, me). Inr (results, tc_config me))
                  (attach_deferred_holder_surfaces me results)))))) ))"

definition pod_safe_types :: "pod_phase_api list \<Rightarrow> qualified_name list option" where
  "pod_safe_types l =
     map_option
       (\<lambda>known. fold iset_insert
          (List.map_filter (\<lambda>api. case api of
               Api_Struct name details analysis \<Rightarrow> if pa_kind analysis = Pod then Some (Api_name api) else None
             | Api_Enum name item \<Rightarrow> Some (Api_name api)
             | Api_ExternCppType name details pod \<Rightarrow> if pod then Some (Api_name api) else None
             | _ \<Rightarrow> None) l @ map fst (filter snd known)) [])
       (get_pod_safe_types known_types)"


section \<open>Structs left as POD\<close>

text \<open>
  What a struct called POD has been through: the checker's verdict, no rvalue reference and no opaque bytes,
  and a converted type for every field of bindgen's struct but the bases and the padding, in order.
\<close>

definition sound_pod :: "by_value_checker \<Rightarrow> pod_phase_api \<Rightarrow> bool" where
  "sound_pod checker api \<longleftrightarrow>
     (case api of
        Api_Struct name details analysis \<Rightarrow>
          pa_kind analysis = Pod \<longrightarrow>
            is_pod checker (an_name name) \<and> \<not> sd_has_rvalue_reference_fields details \<and>
            pa_all_fields_converted analysis \<and> \<not> list_ex fi_bindgen_opaque_data (pa_field_info analysis) \<and>
            map fi_name (pa_field_info analysis) =
              map if_ident (filter (\<lambda>f. \<not> is_skipped_field f) (is_fields (sd_item details)))
      | _ \<Rightarrow> True)"

lemma note_field_facts:
  assumes "note_field f r facts = Some facts'"
  shows "ff_errors facts' = ff_errors facts \<and> ff_all_converted facts' = ff_all_converted facts \<and>
    map fi_name (ff_info facts') = map fi_name (ff_info facts) @ (if is_skipped_field f then [] else [if_ident f])"
  using assms by (auto simp: note_field_def field_info_of_def split: if_splits)

lemma field_types_loop_facts:
  assumes "field_types_loop convert members fs facts s = Some (facts', s')"
  shows "\<exists>es. ff_errors facts' = ff_errors facts @ es \<and>
    (es = [] \<longrightarrow> ff_all_converted facts' = ff_all_converted facts \<and>
       map fi_name (ff_info facts') =
         map fi_name (ff_info facts) @ map if_ident (filter (\<lambda>f. \<not> is_skipped_field f) fs))"
  using assms
proof (induction convert members fs facts s rule: field_types_loop.induct)
  case (2 convert members f fs facts me extra_apis)
  from 2(3) consider
      (failed) e me' where "convert (if_ty f) me = Some (Inl e, me')"
        "field_types_loop convert members fs (note_field_error f members e facts) (me', extra_apis) = Some (facts', s')"
    | (converted) r me' extra' facts1 where "convert (if_ty f) me = Some (Inr r, me')"
        "apivec_append extra_apis (ann_extra_apis r) = Some extra'" "note_field f r facts = Some facts1"
        "field_types_loop convert members fs facts1 (me', extra') = Some (facts', s')"
    by (auto split: option.splits sum.splits prod.splits)
  then show ?case
  proof cases
    case failed
    from 2(1)[OF failed(1) refl refl failed(2)] show ?thesis by (auto simp: note_field_error_def)
  next
    case converted
    from 2(2)[OF converted(1) refl refl converted(2,3,4)] note_field_facts[OF converted(3)]
    show ?thesis by auto
  qed
qed auto

lemma add_reported_facts_keeps [simp]:
  "fi_name (add_reported_facts members field) = fi_name field"
  "fi_bindgen_opaque_data (add_reported_facts members field) = fi_bindgen_opaque_data field"
  by (simp_all add: add_reported_facts_def split: option.splits)

lemma decide_kind_pod:
  assumes "decide_kind checker name has_rvalue info errors = Inr Pod"
  shows "is_pod checker name \<and> \<not> has_rvalue \<and> errors = [] \<and> \<not> list_ex fi_bindgen_opaque_data info"
  using assms by (auto simp: decide_kind_def fatal_def split: if_splits list.splits)

lemma analyze_struct_gives:
  assumes "analyze_struct get_hash ok n checker nested p name details s = Some (Inr l, s')"
  shows "\<exists>analysis. l = [Api_Struct name details analysis] \<and> sound_pod checker (Api_Struct name details analysis)"
proof -
  let ?item = "sd_item details" and ?qn = "an_name name"
  from assms obtain bases unnamed reported_members facts s1 kind castable where
    loop: "get_struct_field_types ok n (get_namespace ?qn) ?item (or_empty reported_members) s = Some (facts, s1)"
    and kind: "decide_kind checker ?qn (sd_has_rvalue_reference_fields details)
        (map (add_reported_facts (or_empty reported_members)) (ff_info facts)) (ff_errors facts) = Inr kind"
    and l: "l = [Api_Struct name details (struct_analysis p ?qn ?item bases unnamed (or_empty reported_members) facts
        (map (add_reported_facts (or_empty reported_members)) (ff_info facts)) kind castable)]"
    unfolding analyze_struct_def Let_def by (auto split: option.splits sum.splits prod.splits)
  from field_types_loop_facts[OF loop[unfolded get_struct_field_types_def]]
  have "ff_errors facts = [] \<Longrightarrow> ff_all_converted facts \<and>
      map fi_name (ff_info facts) = map if_ident (filter (\<lambda>f. \<not> is_skipped_field f) (is_fields ?item))"
    by (auto simp: no_field_facts_def)
  with decide_kind_pod[of checker ?qn] kind l show ?thesis
    by (auto simp: sound_pod_def struct_analysis_def comp_def)
qed

interpretation pod_pass:
  one_for_one_pass "convert_one_api_with (pod_conversions get_hash ok n checker nested p)" "\<lambda>_. True"
proof
  fix api :: "(typedef_analysis, 'a, unit, unit) api" and s s' :: conversion_state and outcome
  assume "convert_one_api_with (pod_conversions get_hash ok n checker nested p) api s = Some (outcome, s')"
  then show "True \<and> (\<forall>l. outcome = Inr l \<longrightarrow> map Api_name l = [Api_name api])"
    by (auto simp: convert_one_api_with_def pod_conversions_def keeping_def fun_unchanged_def analyze_enum_def
        subclass_unchanged_def typedef_unchanged_def Api_name_def map_sum_Inr_iff
        dest!: analyze_struct_gives split: api.splits)
qed

lemma pod_conversion_sound:
  assumes "convert_one_api_with (pod_conversions get_hash ok n checker nested p) api s = Some (outcome, s')"
  shows "list_all (sound_pod checker) (api_or_error (name_info api) outcome)"
proof (cases "\<exists>name details analysis. api = Api_Struct name details analysis")
  case True
  with assms show ?thesis
    by (cases outcome) (auto simp: convert_one_api_with_def pod_conversions_def api_or_error_def sound_pod_def
        dest!: analyze_struct_gives split: convert_error_with_context.splits)
next
  case False
  with assms show ?thesis
    by (cases outcome) (auto simp: convert_one_api_with_def pod_conversions_def api_or_error_def sound_pod_def
        keeping_def fun_unchanged_def analyze_enum_def subclass_unchanged_def typedef_unchanged_def map_sum_Inr_iff
        split: api.splits convert_error_with_context.splits)
qed

lemma notes_are_sound_pods: "notes_ok (sound_pod checker)"
  by (simp add: notes_ok_def sound_pod_def)

lemma pod_pass_sound:
  assumes "convert_apis_with (pod_conversions get_hash ok n checker nested p) v results s = Some (w, s')"
    and "list_all (sound_pod checker) (apis results)"
  shows "list_all (sound_pod checker) (apis w)"
proof -
  from assms(1) obtain l where
    l: "outcomes (convert_one_api_with (pod_conversions get_hash ok n checker nested p)) (apis v) s = Some (l, s')"
    and ext: "apivec_extend results l = Some w"
    by (auto simp: convert_apis_with_def pass_with_def split: option.splits)
  from outcomes_all[OF pod_conversion_sound l] apivec_extend_all[OF ext notes_are_sound_pods assms(2)]
  show ?thesis by simp
qed

lemma attach_surfaces_all:
  assumes "\<And>name rs cpp hs needs incomplete. P (Api_ConcreteType name rs cpp hs needs incomplete)" and "list_all P l"
  shows "list_all P (attach_surfaces surfaces l)"
  using assms(2) by (induction surfaces l rule: attach_surfaces.induct) (auto simp: assms(1) split: api.splits option.splits)

lemma attach_deferred_all:
  assumes "attach_deferred_holder_surfaces me v = Some (w, me')" and "notes_ok P" and "list_all P (apis v)"
    and "\<And>name rs cpp hs needs incomplete. P (Api_ConcreteType name rs cpp hs needs incomplete)"
  shows "list_all P (apis w)"
  using assms attach_surfaces_all[OF assms(4,3)]
  by (auto simp: attach_deferred_holder_surfaces_def apivec_from_iter_def ApiVec_new_def dest!: apivec_extend_all
      split: prod.splits if_splits)

section \<open>Properties\<close>


text \<open>A class without members that is asked for by value, as bindgen reports it.\<close>

definition sample_pod_reports :: "bindgen_event list" where
  "sample_pod_reports =
     [Ev_NewItem 0 (DiscoveredItem_Mod ''root'' None), Ev_NewItem 1 (DiscoveredItem_Mod ''ns'' (Some 0)),
      Ev_NewItem 2 (DiscoveredItem_Struct ''Outer''), Ev_CppName 2 (Some ''Outer'') (Some 1)]"

definition sample_pod_results :: parse_callback_results where
  "sample_pod_results = the (index_results (fold callback sample_pod_reports unindexed_default) True)"

definition sample_pod_apis :: "(typedef_analysis, unit, unit, unit) api_vec" where
  "sample_pod_apis = \<lparr>apis = [Api_Struct (sample_name ''Outer'') (item_with ''Outer'' []) ()],
     names = [QualifiedName [''ns''] ''Outer'']\<rparr>"


abbreviation (input) outer_name :: qualified_name where "outer_name \<equiv> QualifiedName [''ns''] ''Outer''"

lemma sample_unknown: "db_get known_types (outer_name) = None"
  unfolding db_get_known by code_simp

lemma sample_spelling: "cpp_spellings (sample_name ''Outer'') = [''ns::Outer'']"
proof -
  have "nested_cpp_spelling (sample_name ''Outer'') = None" "an_name (sample_name ''Outer'') = outer_name"
    by code_simp+
  then show ?thesis
    by (simp add: cpp_spellings_def to_cpp_name_def special_cpp_name_def segment_iter_def ns_segment_iter_def sample_unknown)
qed

lemma sample_pod_request: "pod_request_names (apis sample_pod_apis) nested_config = [outer_name]"
proof -
  have "an_name (sample_name ''Outer'') = outer_name" by code_simp
  then show ?thesis
    by (simp add: sample_pod_apis_def pod_request_names_def names_by_spelling_def sample_spelling nested_config_def
        directive_iter_def Api_name_def)
qed

lemma sample_pod_converter:
  "\<exists>me. TypeConverter_new 5 nested_config typedef_analysis_target sample_pod_apis sample_pod_results = Some me \<and>
     tc_deferred_surfaces me = []"
proof -
  have "case TypeConverter_new 5 nested_config typedef_analysis_target sample_pod_apis sample_pod_results of
      None \<Rightarrow> False | Some me \<Rightarrow> tc_deferred_surfaces me = []" by code_simp
  then show ?thesis by (auto split: option.splits)
qed

lemma sample_pod_facts:
  "reported_of sample_pod_results (apis sample_pod_apis) =
     Some \<lparr>rep_types_inheriting_virtually = [], rep_types_with_bases = [], rep_data_members = [(outer_name, [])]\<rparr>"
  "structs_in_dependency_order (apis sample_pod_apis) = Some [(sd_item (item_with ''Outer'' []), [''ns''])]"
  "check_for_fatal_attrs sample_pod_results outer_name = Some (Inr ())"
  "struct_bases outer_name (sd_item (item_with ''Outer'' [])) sample_pod_results = Some ([], False)"
  "data_members sample_pod_results outer_name = Some None"
  "directive_iter (blocklist nested_config) = []"
  "filter (has_volatile_bitfield \<lparr>rep_types_inheriting_virtually = [], rep_types_with_bases = [],
     rep_data_members = [(outer_name, [])]\<rparr>) (map Api_name (apis sample_pod_apis)) = []"
  "get_field_dependencies (sd_item (item_with ''Outer'' [])) = Some []"
  "QualifiedName_new [''ns''] (is_ident (sd_item (item_with ''Outer'' []))) = outer_name"
  "has_vtable (sd_item (item_with ''Outer'' [])) = False"
  by code_simp+

lemma sample_pod_checked:
  "\<exists>checker. new_from_apis known_types (apis sample_pod_apis) nested_config
       \<lparr>rep_types_inheriting_virtually = [], rep_types_with_bases = [], rep_data_members = [(outer_name, [])]\<rparr> =
     Some (Inr checker) \<and> is_pod checker outer_name"
proof -
  obtain m where "get_pod_safe_types known_types = Some m"
    using pod_safety_collect_total[OF closed_resolves[OF known_types_closed], of "all_names known_types" "[]"]
    by (auto simp: get_pod_safe_types_def)
  then obtain results where new: "ByValueChecker_new known_types =
      Some \<lparr>bvc_results = results, bvc_virtually_inherited = [], bvc_has_bases = [], bvc_volatile_bitfields = []\<rparr>"
    by (simp add: ByValueChecker_new_def)
  have "ingest_others known_types (apis sample_pod_apis) results = Some results"
    by (simp add: sample_pod_apis_def ingest_other_def)
  with new show ?thesis
    by (auto simp: new_from_apis_def ingest_apis_def sample_pod_facts sample_pod_request blocklist_types_def ingest_struct_def
        overall_problem_def initial_problem_def is_pod_def unsettled_state_def Let_def satisfy_requests.simps(2) pod_details_new_def)
qed


lemma sample_pod_pass:
  assumes "is_pod checker outer_name"
  shows "\<exists>analysis. convert_apis_with (pod_conversions get_hash ok n checker nested sample_pod_results)
       sample_pod_apis ApiVec_new (me, ApiVec_new) =
     Some (\<lparr>apis = [Api_Struct (sample_name ''Outer'') (item_with ''Outer'' []) analysis], names = [outer_name]\<rparr>,
           (me, ApiVec_new)) \<and> pa_kind analysis = Pod"
proof -
  have names: "an_name (sample_name ''Outer'') = outer_name" "is_fields (sd_item (item_with ''Outer'' [])) = []"
    "sd_has_rvalue_reference_fields (item_with ''Outer'' []) = False" by code_simp+
  have "\<exists>analysis. analyze_struct get_hash ok n checker nested sample_pod_results (sample_name ''Outer'')
      (item_with ''Outer'' []) (me, ApiVec_new) =
      Some (Inr [Api_Struct (sample_name ''Outer'') (item_with ''Outer'' []) analysis], (me, ApiVec_new)) \<and>
      pa_kind analysis = Pod"
    using assms
    by (simp add: analyze_struct_def names sample_pod_facts Let_def get_struct_field_types_def no_field_facts_def
        decide_kind_def struct_analysis_def or_empty_def)
  then show ?thesis
    by (auto simp: convert_apis_with_def pass_with_def sample_pod_apis_def convert_one_api_with_def pod_conversions_def
        api_or_error_def apivec_push.simps ApiVec_new_def already_contains_def apivec_insert_def Api_name_def names iset_insert_def)
qed


end
