(* ===== verification/ConversionFacts.thy ===== *)
theory ConversionFacts imports ConvertType begin

text \<open>
  What a conversion promises. Statements are over \<open>runs\<close>: whatever a step returns, and whatever
  converter it leaves, satisfies a condition. One rule for each way of composing steps makes every
  proof a walk along the code.
\<close>

section \<open>Walking along the steps\<close>

definition runs :: "'a conv \<Rightarrow> type_converter \<Rightarrow> ((convert_error, 'a) result \<Rightarrow> type_converter \<Rightarrow> bool) \<Rightarrow> bool" where
  "runs m me Q \<longleftrightarrow> (case m me of None \<Rightarrow> True | Some (r, me') \<Rightarrow> Q r me')"

named_theorems runs_simps \<open>how each step runs\<close>

lemma runs_basic [runs_simps]:
  "runs (tc_return x) me Q \<longleftrightarrow> Q (Inr x) me"
  "runs (tc_throw e) me Q \<longleftrightarrow> Q (Inl e) me"
  "runs (tc_get f) me Q \<longleftrightarrow> Q (Inr (f me)) me"
  by (simp_all add: runs_def tc_return_def tc_throw_def tc_get_def)

lemma runs_modify [runs_simps]: "runs (tc_modify g) me Q \<longleftrightarrow> Q (Inr ()) (g me)"
  by (simp add: runs_def tc_modify_def)

lemma runs_when [runs_simps]:
  "runs (tc_when b e) me Q \<longleftrightarrow> (if b then Q (Inl e) me else Q (Inr ()) me)"
  by (simp add: tc_when_def runs_simps)

lemma runs_unwrap [runs_simps]:
  "runs (tc_unwrap x) me Q \<longleftrightarrow> (\<forall>y. x = Some y \<longrightarrow> Q (Inr y) me)"
  by (auto simp: runs_def tc_unwrap_def split: option.splits)

lemma runs_result [runs_simps]:
  "runs (tc_result r) me Q \<longleftrightarrow> (\<forall>x. r = Some x \<longrightarrow> Q x me)"
  by (auto simp: runs_def tc_result_def split: option.splits)

lemma runs_bind [runs_simps]:
  "runs (tc_bind m f) me Q \<longleftrightarrow>
     runs m me (\<lambda>r me. case r of Inl e \<Rightarrow> Q (Inl e) me | Inr x \<Rightarrow> runs (f x) me Q)"
  by (auto simp: runs_def tc_bind_def split: option.splits sum.splits)

lemma runs_if [runs_simps]: "runs (if b then m else m') me Q \<longleftrightarrow> (if b then runs m me Q else runs m' me Q)"
  by simp

lemma runs_mono: "runs m me Q \<Longrightarrow> (\<And>r me'. Q r me' \<Longrightarrow> Q' r me') \<Longrightarrow> runs m me Q'"
  by (auto simp: runs_def split: option.splits)

section \<open>Instantiations and their names\<close>

text \<open>
  Each C++ specialization has one name, names are in the root namespace and all different, and no
  number that \<open>AutocxxConcrete\<close> may yet be given is in use.
\<close>

definition templates_ok :: "(string, qualified_name) index_map \<Rightarrow> bool" where
  "templates_ok templates \<longleftrightarrow>
     imap_wf templates \<and> distinct (map snd templates) \<and> (\<forall>tn \<in> set (map snd templates). get_namespace tn = []) \<and>
     (\<forall>k \<ge> length templates. ''AutocxxConcrete'' @ nat_to_string k \<notin> get_final_item ` set (map snd templates))"

lemma split_at_char: "split_str [c] (x @ c # y) = split_str [c] x @ split_str [c] y"
proof (induction x)
  case Nil
  show ?case by (subst (1 2) split_str.simps) simp
next
  case (Cons a x)
  show ?case
  proof (cases "a = c")
    case True
    with Cons show ?thesis by (subst (1 2) split_str.simps) simp
  next
    case False
    obtain p ps where "split_str [c] x = p # ps" by (cases "split_str [c] x") auto
    with False Cons show ?thesis by (subst (1 2) split_str.simps) simp
  qed
qed

lemma join_snoc_suffix: "suffix w (join sep (xs @ [w]))"
proof (induction xs)
  case (Cons x xs)
  then show ?case by (cases "xs @ [w]") (auto simp: join_Cons suffix_def)
qed simp

lemma concrete_ident_suffix: "suffix ''AutocxxConcrete'' (concrete_type_ident cpp_definition)"
proof -
  have "split_str ''_'' (x @ ''_AutocxxConcrete'') = split_str ''_'' x @ [''AutocxxConcrete'']" for x
    using split_at_char[of "CHR ''_''" x "''AutocxxConcrete''"]
      split_str_no_sep[of "CHR ''_''" "''_''" "''AutocxxConcrete''"] by simp
  then show ?thesis by (simp add: concrete_type_ident_def Let_def join_snoc_suffix)
qed

lemma concrete_ident_not_numbered: "concrete_type_ident cpp_definition \<noteq> ''AutocxxConcrete'' @ nat_to_string k"
proof
  assume eq: "concrete_type_ident cpp_definition = ''AutocxxConcrete'' @ nat_to_string k"
  from concrete_ident_suffix[of cpp_definition] obtain x where
    "concrete_type_ident cpp_definition = x @ ''AutocxxConcrete''" by (auto simp: suffix_def)
  then have "last (concrete_type_ident cpp_definition) = CHR ''e''" by simp
  moreover have "is_digit (last (concrete_type_ident cpp_definition))"
    using nat_to_string_digits[of k] unfolding eq by simp
  ultimately show False by (simp add: is_digit_def)
qed

lemma synthetic_name_fresh:
  assumes "templates_ok templates"
  shows "synthetic_name templates cpp_definition \<notin> set (map snd templates)"
    and "templates_ok (templates @ [(cpp_definition, synthetic_name templates cpp_definition)])
         \<longleftrightarrow> map_of templates cpp_definition = None"
proof -
  let ?tn = "synthetic_name templates cpp_definition"
  have root: "get_namespace ?tn = []"
    by (simp add: synthetic_name_def Let_def QualifiedName_new_def Namespace_new_def)
  have new: "get_final_item ?tn \<notin> get_final_item ` set (map snd templates)"
    using assms by (auto simp: synthetic_name_def Let_def QualifiedName_new_def make_ident_def templates_ok_def)
  then show "?tn \<notin> set (map snd templates)" by blast
  moreover have "''AutocxxConcrete'' @ nat_to_string k \<noteq> get_final_item ?tn" if "k > length templates" for k
    using that concrete_ident_not_numbered[of cpp_definition k]
    by (auto simp: synthetic_name_def Let_def QualifiedName_new_def make_ident_def)
  ultimately show "templates_ok (templates @ [(cpp_definition, ?tn)]) \<longleftrightarrow> map_of templates cpp_definition = None"
    using assms root unfolding templates_ok_def by (auto simp: map_of_eq_None_iff)
qed

text \<open>
  The APIs handed over so far are those of the instantiations first named since the converter knew
  \<open>templates\<close>, in their order, and a failed step leaves the names it gave.
\<close>

definition concrete_entry :: "unanalyzed_api \<Rightarrow> string \<times> qualified_name" where
  "concrete_entry api =
     (case api of Api_ConcreteType name rs cpp_definition surface deps incomplete \<Rightarrow> cpp_definition | _ \<Rightarrow> [], Api_name api)"

lemma snd_concrete_entry [simp]: "snd (concrete_entry api) = Api_name api" "snd \<circ> concrete_entry = Api_name"
  by (auto simp: concrete_entry_def)

definition since ::
    "(string, qualified_name) index_map \<Rightarrow> type_converter \<Rightarrow> (unit, unit, unit, unit) api_vec \<Rightarrow> bool" where
  "since templates me extra_apis \<longleftrightarrow>
     templates_ok (tc_concrete_templates me) \<and>
     tc_concrete_templates me = templates @ map concrete_entry (apis extra_apis) \<and>
     set (names extra_apis) = Api_name ` set (apis extra_apis)"

definition kept :: "(string, qualified_name) index_map \<Rightarrow> type_converter \<Rightarrow> bool" where
  "kept templates me \<longleftrightarrow>
     templates_ok (tc_concrete_templates me) \<and> (\<exists>added. tc_concrete_templates me = templates @ added)"

lemma since_ok: "since templates me extra_apis \<Longrightarrow> templates_ok (tc_concrete_templates me)"
  by (auto simp: since_def)

lemma since_new: "templates_ok (tc_concrete_templates me) \<Longrightarrow> since (tc_concrete_templates me) me ApiVec_new"
  by (simp add: since_def ApiVec_new_def)

lemma since_kept: "since templates me extra_apis \<Longrightarrow> kept templates me"
  by (auto simp: since_def kept_def)

lemma kept_trans: "kept templates me \<Longrightarrow> kept (tc_concrete_templates me) me' \<Longrightarrow> kept templates me'"
  by (auto simp: kept_def)

lemma names_fold_insert:
  "set (names (fold (\<lambda>api v. apivec_insert v api) l v)) = set (names v) \<union> Api_name ` set l"
  by (induction l arbitrary: v) auto

lemma since_append:
  assumes "since templates me extra_apis" and "since (tc_concrete_templates me) me' extra"
  shows "\<exists>v. apivec_append extra_apis extra = Some v \<and> since templates me' v"
proof -
  from assms have m: "tc_concrete_templates me' = templates @ map concrete_entry (apis extra_apis @ apis extra)"
    by (simp add: since_def)
  have "distinct (map snd (map concrete_entry (apis extra_apis @ apis extra)))"
    using assms(2) m by (simp add: since_def templates_ok_def)
  then have d: "distinct (map Api_name (apis extra_apis @ apis extra))" by simp
  have n: "set (names extra_apis) = Api_name ` set (apis extra_apis)" using assms(1) by (simp add: since_def)
  have "apivec_extend extra_apis (apis extra) =
      Some (fold (\<lambda>api v. apivec_insert v api) (apis extra) extra_apis)"
    using d n by (intro extend_fresh) (auto simp: already_contains_def)
  then show ?thesis
    using assms(2) m n by (auto simp: apivec_append_def since_def names_fold_insert)
qed

lemma append_to_new:
  assumes "since templates me extra_apis"
  shows "\<exists>v. apivec_append ApiVec_new extra_apis = Some v \<and> since templates me v"
proof -
  have "distinct (map snd (tc_concrete_templates me))" using since_ok[OF assms] by (simp add: templates_ok_def)
  with assms have "distinct (map Api_name (apis extra_apis))" by (auto simp: since_def)
  then have "apivec_append ApiVec_new extra_apis =
      Some (fold (\<lambda>api v. apivec_insert v api) (apis extra_apis) ApiVec_new)"
    unfolding apivec_append_def by (intro extend_fresh) (simp_all add: already_contains_def ApiVec_new_def)
  with assms show ?thesis by (auto simp: since_def names_fold_insert) (auto simp: ApiVec_new_def)
qed

lemma since_push:
  assumes "since templates me extra_apis" and "tc_concrete_templates me' = tc_concrete_templates me @ [concrete_entry api]"
    and "templates_ok (tc_concrete_templates me')"
  shows "apivec_push extra_apis api = Some (apivec_insert extra_apis api)"
    and "since templates me' (apivec_insert extra_apis api)"
proof -
  from assms(3) have "distinct (map snd (tc_concrete_templates me'))" by (simp add: templates_ok_def)
  with assms(1,2) have "Api_name api \<notin> Api_name ` set (apis extra_apis)" by (auto simp: since_def)
  with assms(1) show "apivec_push extra_apis api = Some (apivec_insert extra_apis api)"
    by (simp add: apivec_push.simps already_contains_def since_def Let_def)
  show "since templates me' (apivec_insert extra_apis api)"
    using assms by (auto simp: since_def apivec_insert_def)
qed

text \<open>A step that does not name instantiations is quiet.\<close>

definition quiet :: "'a conv \<Rightarrow> bool" where
  "quiet m \<longleftrightarrow> (\<forall>me r me'. m me = Some (r, me') \<longrightarrow> tc_concrete_templates me' = tc_concrete_templates me)"

lemma runs_quiet:
  "quiet m \<Longrightarrow> (\<And>r me'. tc_concrete_templates me' = tc_concrete_templates me \<Longrightarrow> Q r me') \<Longrightarrow> runs m me Q"
  by (auto simp: quiet_def runs_def split: option.splits)

lemma quiet_bind: "quiet m \<Longrightarrow> (\<And>x. quiet (f x)) \<Longrightarrow> quiet (tc_bind m f)"
  unfolding quiet_def tc_bind_def by (fastforce split: sum.splits option.splits)

lemma quiet_basic [simp]:
  "quiet (tc_return x)" "quiet (tc_throw e)" "quiet (tc_get f)" "quiet (tc_unwrap y)" "quiet (tc_result z)"
  "quiet (tc_when b e)" "quiet (\<lambda>me. None)"
  by (auto simp: quiet_def tc_return_def tc_throw_def tc_get_def tc_unwrap_def tc_result_def tc_when_def
      split: option.splits if_splits)

lemma quiet_reading [simp]:
  "quiet (\<lambda>me. tc_unwrap (f me) me)" "quiet (\<lambda>me. tc_result (g me) me)"
  by (auto simp: quiet_def runs_def tc_unwrap_def tc_result_def split: option.splits)

lemma quiet_blocklist [simp]: "quiet (tc_is_on_blocklist name)"
  by (simp add: quiet_def runs_def tc_is_on_blocklist_def split: prod.splits)

lemma quiet_resolve [simp]: "quiet (resolve_typedef tn)"
  by (simp add: resolve_typedef_def)

lemma quiet_alias [simp]: "quiet (resolve_through_unnameable_alias ok tn)"
  by (auto simp: quiet_def runs_def resolve_through_unnameable_alias_def split: option.splits prod.splits)

lemma quiet_arg_const [simp]: "quiet (arg_is_const_qualified arg)"
  by (auto simp: arg_is_const_qualified_def intro!: quiet_bind)

lemma quiet_any_const [simp]: "quiet (any_const_qualified args)"
  by (induction args rule: any_const_qualified.induct) (auto intro!: quiet_bind split: rust_type.splits)

lemma quiet_generic_const [simp]: "quiet (generic_args_are_const_qualified typ)"
  by (simp add: generic_args_are_const_qualified_def)

lemma quiet_qualify [simp]: "quiet (qualify_path typ ns)"
  by (auto simp: qualify_path_def intro!: quiet_bind split: list.splits)

lemma quiet_pointee [simp]: "quiet (ensure_pointee_is_valid pointee ctx)"
  by (auto simp: ensure_pointee_is_valid_def split: rust_type.splits type_conversion_context.splits)

lemma quiet_array_referent [simp]: "quiet (check_array_referent elem ctx)"
  by (simp add: check_array_referent_def)

lemma quiet_string_views [simp]: "quiet (refuse_string_views args)"
  by (induction args rule: refuse_string_views.induct)
     (auto intro!: quiet_bind split: rust_type.splits option.splits)

lemma quiet_incomplete [simp]: "quiet (refuse_incomplete ctx qn)"
  by (auto simp: quiet_def runs_def refuse_incomplete_def split: option.splits)

lemma quiet_defer [simp]: "quiet (defer_surface tn surface)"
  by (auto simp: quiet_def runs_def defer_surface_def tc_modify_def tc_return_def split: option.splits)

lemma bind_quiet:
  assumes "quiet m"
    and "\<And>x me'. tc_concrete_templates me' = tc_concrete_templates me \<Longrightarrow> runs (f x) me' Q"
    and "\<And>e me'. tc_concrete_templates me' = tc_concrete_templates me \<Longrightarrow> Q (Inl e) me'"
  shows "runs (tc_bind m f) me Q"
  unfolding runs_simps by (rule runs_quiet[OF assms(1)]) (use assms(2,3) in \<open>auto split: sum.splits\<close>)

lemma bind_runs:
  assumes "runs m me P"
    and "\<And>x me'. P (Inr x) me' \<Longrightarrow> runs (f x) me' Q"
    and "\<And>e me'. P (Inl e) me' \<Longrightarrow> Q (Inl e) me'"
  shows "runs (tc_bind m f) me Q"
  unfolding runs_simps by (rule runs_mono[OF assms(1)]) (use assms(2,3) in \<open>auto split: sum.splits\<close>)

lemma since_same: "tc_concrete_templates me' = tc_concrete_templates me \<Longrightarrow> since templates me' v = since templates me v"
  by (simp add: since_def)

lemma kept_same: "tc_concrete_templates me' = tc_concrete_templates me \<Longrightarrow> kept templates me' = kept templates me"
  by (simp add: kept_def)

section \<open>Making an instantiation\<close>

definition made ::
    "(string, qualified_name) index_map \<Rightarrow> (unit, unit, unit, unit) api_vec \<Rightarrow>
     (convert_error, qualified_name \<times> unanalyzed_api option) result \<Rightarrow> type_converter \<Rightarrow> bool" where
  "made templates extra_apis r me' \<longleftrightarrow>
     (case r of
        Inl e \<Rightarrow> kept templates me'
      | Inr (tn, None) \<Rightarrow> since templates me' extra_apis
      | Inr (tn, Some api) \<Rightarrow>
          (\<exists>rs cpp incomplete. api = concrete_api tn rs cpp incomplete) \<and>
          (\<forall>surface. \<exists>v. apivec_push extra_apis (the (with_surface surface api)) = Some v \<and> since templates me' v) \<and>
          (\<exists>v. apivec_push extra_apis api = Some v \<and> since templates me' v))"

lemma name_of_concrete [simp]: "Api_name (concrete_api tn rs cpp incomplete) = tn"
  by (simp add: concrete_api_def Api_name_def new_from_qualified_name_def new_from_qualified_name_and_cpp_name_def)

lemma with_surface_concrete [simp]:
  "with_surface surface (concrete_api tn rs cpp incomplete) =
     Some (Api_ConcreteType (new_from_qualified_name tn) (Some rs) cpp surface [] incomplete)"
  by (simp add: with_surface_def concrete_api_def)

lemma name_with_surface [simp]:
  "Api_name (Api_ConcreteType (new_from_qualified_name tn) rs cpp surface deps incomplete) = tn"
  by (simp add: Api_name_def new_from_qualified_name_def new_from_qualified_name_and_cpp_name_def)

lemma imap_insert_snoc: "k \<notin> fst ` set m \<Longrightarrow> imap_insert k v m = m @ [(k, v)]"
  by (induction m) auto

lemma entry_of_concrete [simp]:
  "concrete_entry (concrete_api tn rs cpp incomplete) = (cpp, tn)"
  "concrete_entry (Api_ConcreteType (new_from_qualified_name tn) rs' cpp surface deps incomplete) = (cpp, tn)"
  by (simp_all add: concrete_entry_def) (simp add: concrete_api_def)

lemma find_or_make_made:
  assumes "since templates me extra_apis"
  shows "runs (find_or_make_concrete n rs_definition cpp_definition) me (made templates extra_apis)"
proof (cases "map_of (tc_concrete_templates me) cpp_definition")
  case (Some tn)
  with assms show ?thesis by (simp add: runs_def find_or_make_concrete_def made_def)
next
  case None
  let ?tn = "synthetic_name (tc_concrete_templates me) cpp_definition"
  have ok: "templates_ok (tc_concrete_templates me @ [(cpp_definition, ?tn)])"
    using synthetic_name_fresh(2)[OF since_ok[OF assms]] None by blast
  have upd: "imap_insert cpp_definition ?tn (tc_concrete_templates me) =
      tc_concrete_templates me @ [(cpp_definition, ?tn)]"
    using None by (simp add: map_of_eq_None_iff imap_insert_snoc)
  show ?thesis
  proof (cases "incomplete_argument_of n me rs_definition")
    case None
    with \<open>map_of _ cpp_definition = None\<close> show ?thesis by (simp add: runs_def find_or_make_concrete_def Let_def)
  next
    case (Some incomplete)
    have push: "\<exists>v. apivec_push extra_apis api = Some v \<and> since templates me' v"
      if "concrete_entry api = (cpp_definition, ?tn)" "tc_concrete_templates me' = tc_concrete_templates me @ [(cpp_definition, ?tn)]" for api me'
      using since_push[OF assms, of me' api] that ok by auto
    show ?thesis
      using Some \<open>map_of _ cpp_definition = None\<close> upd
      by (auto simp: runs_def find_or_make_concrete_def Let_def made_def intro!: push split: option.splits)
  qed
qed

lemma get_templated_made:
  assumes "since templates me extra_apis"
  shows "runs (get_templated_typename n rs_definition) me (made templates extra_apis)"
proof -
  have finishes: "runs (find_or_make_concrete n rs_definition cpp) me' (made templates extra_apis)"
    if "tc_concrete_templates me' = tc_concrete_templates me" for cpp me'
    by (rule find_or_make_made) (use assms that in \<open>simp add: since_same[OF that]\<close>)
  have failed: "made templates extra_apis (Inl e) me'"
    if "tc_concrete_templates me' = tc_concrete_templates me" for e me'
    using since_kept[OF assms] by (simp add: made_def kept_same[OF that])
  have refusal: "quiet (case unsatisfiable of
        None \<Rightarrow> tc_return ()
      | Some (argument, inner_type) \<Rightarrow>
          tc_bind (tc_unwrap (case rs_definition of Type_Path typ \<Rightarrow> from_type_path typ | _ \<Rightarrow> None))
            (\<lambda>instantiation. tc_throw
               (TypeError (DependentQualifiedTypeOnSubstitute instantiation argument inner_type))))" for unsatisfiable
    by (auto intro!: quiet_bind split: option.splits)
  show ?thesis
    unfolding get_templated_typename_def
    by (rule bind_quiet, simp, rule bind_quiet, simp, rule bind_quiet, rule refusal, rule bind_quiet, simp)
       (simp_all add: failed finishes)
qed

text \<open>What a step that carries a collection along promises of it.\<close>

definition carried ::
    "(string, qualified_name) index_map \<Rightarrow> ('a \<Rightarrow> (unit, unit, unit, unit) api_vec) \<Rightarrow>
     (convert_error, 'a) result \<Rightarrow> type_converter \<Rightarrow> bool" where
  "carried templates extra r me' \<longleftrightarrow>
     (case r of Inl e \<Rightarrow> kept templates me' | Inr x \<Rightarrow> since templates me' (extra x))"

lemma carried_simps [simp]:
  "carried templates extra (Inl e) me' = kept templates me'"
  "carried templates extra (Inr x) me' = since templates me' (extra x)"
  by (simp_all add: carried_def)

lemma carried_return: "since templates me (extra x) \<Longrightarrow> runs (tc_return x) me (carried templates extra)"
  by (simp add: runs_simps)

lemma carried_throw: "kept templates me \<Longrightarrow> runs (tc_throw e) me (carried templates extra)"
  by (simp add: runs_simps)

text \<open>A quiet step in front of one that carries the collection.\<close>

lemma carried_after_quiet:
  assumes "quiet m" and "since templates me extra_apis"
    and "\<And>x me'. since templates me' extra_apis \<Longrightarrow> runs (f x) me' (carried templates extra)"
  shows "runs (tc_bind m f) me (carried templates extra)"
  by (rule bind_quiet[OF assms(1)])
     (use assms(2,3) since_kept[OF assms(2)] in \<open>simp_all add: since_def kept_def\<close>)

lemma carried_bind:
  assumes "runs m me (carried templates extra)"
    and "\<And>x me'. since templates me' (extra x) \<Longrightarrow> runs (f x) me' (carried templates extra')"
  shows "runs (tc_bind m f) me (carried templates extra')"
  by (rule bind_runs[OF assms(1)]) (use assms(2) in auto)

lemma manufacture_holder_carries:
  assumes "since templates me extra_apis"
  shows "runs (manufacture_holder n typ surface extra_apis) me (carried templates snd)"
  unfolding manufacture_holder_def
proof (rule bind_runs[OF get_templated_made[OF assms]])
  fix x me'
  assume made: "made templates extra_apis (Inr x) me'"
  show "runs (case x of (new_tn, api) \<Rightarrow>
       case Option.bind api (with_surface surface) of
         Some api \<Rightarrow> tc_bind (tc_unwrap (apivec_push extra_apis api)) (\<lambda>extra_apis. tc_return (new_tn, extra_apis))
       | None \<Rightarrow> tc_bind (defer_surface new_tn surface) (\<lambda>_. tc_return (new_tn, extra_apis))) me' (carried templates snd)"
  proof (cases x)
    case (Pair tn api)
    show ?thesis
    proof (cases api)
      case None
      with made Pair have "since templates me' extra_apis" by (simp add: made_def)
      then show ?thesis
        by (simp add: Pair None) (rule carried_after_quiet[OF quiet_defer]; simp add: runs_simps)
    next
      case (Some a)
      with made Pair obtain rs cpp inc where a: "a = concrete_api tn rs cpp inc" by (auto simp: made_def)
      with made Pair Some obtain v where
        "apivec_push extra_apis (the (with_surface surface a)) = Some v" "since templates me' v"
        by (auto simp: made_def)
      with a Pair Some show ?thesis by (simp add: runs_simps)
    qed
  qed
next
  fix e me'
  assume "made templates extra_apis (Inl e) me'"
  then show "carried templates snd (Inl e) me'" by (simp add: made_def)
qed

lemma extra_apis_marked [simp]:
  "ann_extra_apis (marked_const_if b a) = ann_extra_apis a"
  "ann_extra_apis (marked_const a) = ann_extra_apis a"
  "ann_extra_apis (marked_std_array a) = ann_extra_apis a"
  "ann_extra_apis (marked_from facts a) = ann_extra_apis a"
  "ann_extra_apis (marked_volatile_pointee_if b a) = ann_extra_apis a"
  "ann_extra_apis (Annotated_new ty types extra kind) = extra"
  "ann_extra_apis (annotated_map g b') = ann_extra_apis b'"
  "ann_extra_apis (extend_types deps a) = ann_extra_apis a"
  by (simp_all add: marked_const_if_def marked_const_def marked_std_array_def marked_std_array_if_def
      marked_from_def marked_volatile_pointee_if_def Annotated_new_def annotated_map_def extend_types_def)

lemma lower_to_holder_carries:
  assumes "since templates me extra_apis"
  shows "runs (lower_to_holder n typ surface deps extra_apis target_is_const) me (carried templates ann_extra_apis)"
  unfolding lower_to_holder_def
  by (rule carried_bind[OF manufacture_holder_carries[OF assms]]) (auto split: prod.splits intro!: carried_return)

section \<open>Conversions that declare what they name\<close>

text \<open>
  The contract of the conversion every part of the code recurses to: the APIs a conversion hands over are
  those of the instantiations it was the first to name.
\<close>

locale declaring_conversion =
  fixes conv :: "rust_type \<Rightarrow> string list \<Rightarrow> type_conversion_context \<Rightarrow> type_converter \<Rightarrow>
    ((convert_error + rust_type annotated) \<times> type_converter) option"
  assumes declares: "templates_ok (tc_concrete_templates me) \<Longrightarrow>
    runs (conv ty ns ctx) me (carried (tc_concrete_templates me) ann_extra_apis)"
begin

lemma conv_fresh:
  assumes "since templates me ApiVec_new"
  shows "runs (conv ty ns ctx) me (carried templates ann_extra_apis)"
proof -
  from assms have "templates = tc_concrete_templates me" "templates_ok (tc_concrete_templates me)"
    by (auto simp: since_def ApiVec_new_def)
  then show ?thesis using declares by simp
qed

lemma conv_appended:
  assumes "since templates me extra_apis"
  shows "runs (conv ty ns ctx) me (\<lambda>r me'. case r of
      Inl e \<Rightarrow> kept templates me'
    | Inr a \<Rightarrow> \<exists>v. apivec_append extra_apis (ann_extra_apis a) = Some v \<and> since templates me' v)"
proof -
  from since_ok[OF assms] have "templates_ok (tc_concrete_templates me)" .
  from declares[OF this] show ?thesis
    by (rule runs_mono)
       (use since_append[OF assms] kept_trans[OF since_kept[OF assms]] in \<open>auto split: sum.splits\<close>)
qed

lemma bind_conv:
  assumes "since templates me ApiVec_new"
    and "\<And>a me'. since templates me' (ann_extra_apis a) \<Longrightarrow> runs (f a) me' (carried templates extra)"
  shows "runs (tc_bind (conv ty ns ctx) f) me (carried templates extra)"
  by (rule carried_bind[OF conv_fresh[OF assms(1)]]) (rule assms(2))

lemma bind_conv_append:
  assumes "since templates me extra_apis"
    and "\<And>a v me'. since templates me' v \<Longrightarrow> runs (f a v) me' (carried templates extra)"
  shows "runs (tc_bind (conv ty ns ctx) (\<lambda>a. tc_bind (tc_unwrap (apivec_append extra_apis (ann_extra_apis a))) (f a)))
    me (carried templates extra)"
  by (rule bind_runs[OF conv_appended[OF assms(1)]]) (use assms(2) in \<open>auto simp: runs_simps\<close>)

lemma reference_declares:
  assumes "since templates me ApiVec_new"
  shows "runs (convert_reference conv m elem ns ctx) me (carried templates ann_extra_apis)"
  unfolding convert_reference_def
  by (rule bind_conv[OF assms], rule carried_after_quiet, simp, assumption) (simp add: carried_return)

lemma array_declares:
  assumes "since templates me ApiVec_new"
  shows "runs (convert_array conv elem len ns ctx) me (carried templates ann_extra_apis)"
  unfolding convert_array_def by (rule bind_conv[OF assms]) (simp add: carried_return)

lemma ptr_declares:
  assumes "since templates me ApiVec_new"
  shows "runs (convert_ptr conv m elem ns ctx) me (carried templates ann_extra_apis)"
  unfolding convert_ptr_def
  by (rule carried_after_quiet[OF _ assms], simp, rule bind_conv, assumption) (simp add: carried_return)

lemma rvalue_reference_declares:
  assumes "since templates me ApiVec_new"
  shows "runs (convert_rvalue_reference conv m elem ns ctx) me (carried templates ann_extra_apis)"
  unfolding convert_rvalue_reference_def
  by (rule carried_after_quiet[OF _ assms], simp, rule bind_conv, assumption) (simp add: carried_return)

lemma lvalue_reference_declares:
  assumes "since templates me ApiVec_new"
  shows "runs (convert_lvalue_reference conv m elem ns ctx) me (carried templates ann_extra_apis)"
  unfolding convert_lvalue_reference_def Let_def
  by (rule bind_conv[OF assms], rule carried_after_quiet, simp, assumption, rule carried_after_quiet, simp,
      assumption, rule carried_after_quiet, simp, assumption) (simp add: carried_return)

end

definition payload_apis :: "rust_type annotated option \<Rightarrow> (unit, unit, unit, unit) api_vec" where
  "payload_apis payload = (case payload of Some a \<Rightarrow> ann_extra_apis a | None \<Rightarrow> ApiVec_new)"

context declaring_conversion begin

lemma const_payload_declares:
  assumes "since templates me ApiVec_new"
  shows "runs (convert_const_payload conv typ ns) me (carried templates payload_apis)"
proof -
  have last: "runs (case payload of
        None \<Rightarrow> tc_return None
      | Some payload \<Rightarrow> tc_bind (conv payload ns WithinContainer) (\<lambda>a. tc_return (Some a))) me'
      (carried templates payload_apis)" if "since templates me' ApiVec_new" for payload me'
    using that by (cases payload) (auto simp: payload_apis_def intro!: carried_return bind_conv[OF that])
  have stop: "runs (tc_return None) me (carried templates payload_apis)"
    using assms by (simp add: carried_return payload_apis_def)
  show ?thesis
    unfolding convert_const_payload_def
    by (auto intro!: carried_after_quiet[OF _ assms] quiet_bind last stop
        split: path_arguments.splits list.splits generic_argument.splits rust_type.splits option.splits)
qed

lemma const_surface_declares:
  assumes "since templates me ApiVec_new"
  shows "runs (const_smart_pointer_surface n conv tn typ ns ApiVec_new) me (carried templates snd)"
  unfolding const_smart_pointer_surface_def
proof (rule carried_bind[OF const_payload_declares[OF assms]])
  fix payload me'
  assume since: "since templates me' (payload_apis payload)"
  show "runs (case payload of
         None \<Rightarrow> tc_return (None, ApiVec_new)
       | Some payload \<Rightarrow>
           tc_bind (tc_unwrap (apivec_append ApiVec_new (ann_extra_apis payload))) (\<lambda>extra_apis.
             let ty = ann_ty payload; deps = ann_types_encountered payload; cpp_name = to_cpp_name tn in
             if cpp_name = ''std::shared_ptr'' then tc_return (Some (Holder_SharedPtr ty deps), extra_apis)
             else if cpp_name = ''std::unique_ptr'' then tc_return (Some (Holder_UniquePtr ty deps), extra_apis)
             else if cpp_name = ''std::weak_ptr'' then
               tc_bind (manufacture_holder n (sibling_shared_ptr typ) (Some (Holder_SharedPtr ty deps)) extra_apis)
                 (\<lambda>(shared_holder, extra_apis).
                   tc_return (Some (Holder_WeakPtr shared_holder [shared_holder]), extra_apis))
             else tc_return (None, extra_apis))) me' (carried templates snd)"
  proof (cases payload)
    case None
    with since show ?thesis by (simp add: carried_return payload_apis_def)
  next
    case (Some a)
    with since obtain v where v: "apivec_append ApiVec_new (ann_extra_apis a) = Some v" "since templates me' v"
      using append_to_new[of templates me' "ann_extra_apis a"] by (auto simp: payload_apis_def)
    have weak: "runs (tc_bind (manufacture_holder n (sibling_shared_ptr typ) surface v)
        (\<lambda>(shared_holder, extra_apis).
           tc_return (Some (Holder_WeakPtr shared_holder [shared_holder]), extra_apis))) me' (carried templates snd)"
      for surface
      by (rule carried_bind[OF manufacture_holder_carries[OF v(2)]]) (auto intro!: carried_return split: prod.splits)
    show ?thesis
      using v weak by (auto simp: Some runs_unwrap runs_bind[of "tc_unwrap _"] Let_def intro!: carried_return)
  qed
qed

lemma custom_surface_declares:
  assumes "since templates me ApiVec_new"
  shows "runs (custom_ptr_surface conv tn typ ns ApiVec_new) me (carried templates snd)"
proof -
  have kept: "kept templates me" by (rule since_kept[OF assms])
  have body: "runs (case stripped of
              Type_Path stripped \<Rightarrow>
                tc_bind (conv (Type_Path stripped) ns WithinContainer) (\<lambda>payload.
                tc_bind (tc_unwrap (apivec_append ApiVec_new (ann_extra_apis payload))) (\<lambda>extra_apis.
                tc_return (Holder_CustomPtr (ann_ty payload) (Type_Path argument) payload_is_const
                             (ann_types_encountered payload), extra_apis)))
            | stripped \<Rightarrow> tc_throw (ItemError (SmartPointerPayloadNotANamedType tn stripped))) me' (carried templates snd)"
    if "since templates me' ApiVec_new" for stripped argument payload_is_const me'
    using since_kept[OF that]
    by (auto intro!: carried_throw bind_conv_append[OF that] carried_return split: rust_type.splits)
  show ?thesis
    unfolding custom_ptr_surface_def
    by (auto intro!: carried_throw[OF kept] carried_after_quiet[OF _ assms] body split: list.splits rust_type.splits)
qed

lemma punctuated_declares:
  assumes "since templates me extra_apis"
  shows "runs (convert_punctuated_from conv pun ns ctx new_pun types extra_apis) me (carried templates ann_extra_apis)"
  using assms
proof (induction pun arbitrary: new_pun types extra_apis me)
  case Nil
  then show ?case by (simp add: carried_return)
next
  case (Cons arg pun)
  show ?case
  proof (cases arg)
    case (GenericArgument_Type t)
    show ?thesis
      by (simp add: GenericArgument_Type) (rule bind_conv_append[OF Cons.prems], rule Cons.IH)
  next
    case (GenericArgument_Other t)
    then show ?thesis using Cons.IH[OF Cons.prems] by simp
  qed
qed

end

definition resolved_apis :: "resolved_typedef \<times> qualified_name list \<Rightarrow> (unit, unit, unit, unit) api_vec" where
  "resolved_apis r = (case fst r of Resolved_Converted a \<Rightarrow> ann_extra_apis a | Resolved_Path typ tn \<Rightarrow> ApiVec_new)"

lemma function_pointer_apis:
  "function_pointer tp ctx = Some (Inr a) \<Longrightarrow> ann_extra_apis a = ApiVec_new"
  by (auto simp: function_pointer_def split: option.splits if_splits)

lemma function_pointer_carries:
  assumes "function_pointer tp ctx = Some r" and "since templates me ApiVec_new"
  shows "runs (tc_result (Some r)) me (carried templates ann_extra_apis)"
  using assms function_pointer_apis[of tp ctx] since_kept[OF assms(2)]
  by (cases r) (auto simp: runs_simps)

context declaring_conversion begin

lemma typedef_target_declares:
  assumes "since templates me ApiVec_new"
  shows "runs (resolve_typedef_target conv typ tn ns ctx deps target) me (carried templates resolved_apis)"
  unfolding resolve_typedef_target_def
proof (rule carried_after_quiet[OF quiet_resolve assms])
  fix resolved me'
  assume since: "since templates me' ApiVec_new"
  have fp: "runs (tc_bind (tc_result (Some r)) (\<lambda>annotated.
      tc_return (Resolved_Converted (marked_const_if (tf_is_const target) (extend_types deps annotated)), []))) me'
      (carried templates resolved_apis)" if "function_pointer tp ctx = Some r" for r tp
    by (rule carried_bind[OF function_pointer_carries[OF that since]]) (simp add: carried_return resolved_apis_def)
  have path: "runs (tc_bind (tc_unwrap (from_type_path tp)) (\<lambda>resolved_tn.
      tc_return (Resolved_Path tp resolved_tn, iset_insert resolved_tn deps))) me' (carried templates resolved_apis)" for tp
    using since by (simp add: runs_simps resolved_apis_def)
  have ptr: "runs (tc_bind (convert_ptr conv m elem ns ctx) (\<lambda>annotated.
      let annotated = extend_types deps annotated;
          annotated = (if tti_kind info = Kind_RValueReference
                       then annotated\<lparr>ann_kind := Kind_RValueReference\<rparr> else annotated)
      in tc_return (Resolved_Converted (marked_const_if (tf_is_const target) annotated), []))) me'
      (carried templates resolved_apis)" for m elem info
    by (rule carried_bind[OF ptr_declares[OF since]]) (simp add: carried_return resolved_apis_def Let_def)
  have stop: "runs (tc_return (Resolved_Converted a, [])) me' (carried templates resolved_apis)"
    if "ann_extra_apis a = ApiVec_new" for a
    using since that by (simp add: carried_return resolved_apis_def)
  have unresolved: "runs (tc_return (Resolved_Path tp tn, deps)) me' (carried templates resolved_apis)" for tp
    using since by (simp add: carried_return resolved_apis_def)
  show "runs (case resolved of
         None \<Rightarrow> tc_return (Resolved_Path typ tn, deps)
       | Some info \<Rightarrow>
           (case tti_ty info of
              Type_Path resolved_tp \<Rightarrow>
                (case function_pointer resolved_tp ctx of
                   Some r \<Rightarrow>
                     tc_bind (tc_result (Some r)) (\<lambda>annotated.
                     tc_return (Resolved_Converted (marked_const_if (tf_is_const target) (extend_types deps annotated)), []))
                 | None \<Rightarrow>
                     if extract_pinned_mutable_reference_type resolved_tp \<noteq> None
                     then tc_return (Resolved_Converted
                            (Annotated_new (Type_Path resolved_tp) deps ApiVec_new Kind_MutableReference), [])
                     else tc_bind (tc_unwrap (from_type_path resolved_tp)) (\<lambda>resolved_tn.
                          tc_return (Resolved_Path resolved_tp resolved_tn, iset_insert resolved_tn deps)))
            | Type_Ptr m elem \<Rightarrow>
                tc_bind (convert_ptr conv m elem ns ctx) (\<lambda>annotated.
                let annotated = extend_types deps annotated;
                    annotated = (if tti_kind info = Kind_RValueReference
                                 then annotated\<lparr>ann_kind := Kind_RValueReference\<rparr> else annotated)
                in tc_return (Resolved_Converted (marked_const_if (tf_is_const target) annotated), []))
            | other \<Rightarrow>
                tc_return (Resolved_Converted (marked_from target
                  (Annotated_new other deps ApiVec_new
                     (case other of Type_Reference True _ \<Rightarrow> Kind_MutableReference
                      | Type_Reference False _ \<Rightarrow> Kind_Reference
                      | _ \<Rightarrow> Kind_Regular))), []))) me' (carried templates resolved_apis)"
  proof (cases resolved)
    case None
    then show ?thesis by (simp add: unresolved)
  next
    case (Some info)
    show ?thesis
    proof (cases "tti_ty info")
      case (Type_Ptr m elem)
      then show ?thesis unfolding Some by (simp only: option.case rust_type.case) (rule ptr)
    qed (simp_all add: Some fp path stop split: option.splits)
  qed
qed

lemma container_declares:
  assumes "since templates me ApiVec_new"
  shows "runs (convert_container conv typ tn behavior payload_is_const ns deps target) me
           (carried templates ann_extra_apis)"
proof -
  have rest: "runs
      (tc_bind (if behavior = CppUniquePtr
                   then tc_unwrap (rename_unique_ptr_payloads 0 (ann_ty innerty) written deps)
                   else tc_return (ann_ty innerty, deps)) (\<lambda>(args, deps).
          tc_bind (if behavior = CppSharedPtr
                   then tc_result (refuse_aliased_atom_payload 0 args written)
                   else tc_return ()) (\<lambda>_.
          tc_bind (tc_unwrap (apivec_append ApiVec_new (ann_extra_apis innerty))) (\<lambda>extra_apis.
          tc_bind (\<lambda>me. tc_result (confirm_inner_type_is_acceptable_generic_payload me args tn
                             behavior (behavior = Generic_Rust)) me) (\<lambda>kind.
          tc_return (marked_from target
            (Annotated_new (Type_Path (set_last_arguments (AngleBracketed args) typ))
               (fold iset_insert (ann_types_encountered innerty) deps) extra_apis kind))))))) me'
      (carried templates ann_extra_apis)"
    if since: "since templates me' (ann_extra_apis innerty)" for innerty written me'
  proof -
    from append_to_new[OF since] obtain v where v: "apivec_append ApiVec_new (ann_extra_apis innerty) = Some v"
      by blast
    have same: "since templates me2 v" if "since templates me2 (ann_extra_apis innerty)" for me2
      using append_to_new[OF that] v by simp
    show ?thesis
      apply (rule carried_after_quiet[OF _ since])
       apply simp
      apply (rename_tac renamed me2, case_tac renamed, simp only: prod.case)
      apply (rule carried_after_quiet)
        apply simp
       apply assumption
      apply (simp add: v runs_bind[of "tc_unwrap _"] runs_unwrap)
      apply (rule carried_after_quiet[OF _ same])
        apply simp
       apply assumption
      apply (simp add: carried_return)
      done
  qed
  have body: "runs (tc_bind (tc_unwrap (payload_names_as_written args)) (\<lambda>written.
      tc_bind (convert_punctuated conv args ns WithinContainer) (\<lambda>innerty.
        f written innerty))) me' (carried templates ann_extra_apis)"
    if "since templates me' ApiVec_new"
      "\<And>written innerty me'. since templates me' (ann_extra_apis innerty) \<Longrightarrow>
         runs (f written innerty) me' (carried templates ann_extra_apis)"
    for args f me'
    unfolding convert_punctuated_def
    by (rule carried_after_quiet[OF _ that(1)], simp, rule carried_bind, rule punctuated_declares, assumption)
       (rule that(2))
  show ?thesis
    unfolding convert_container_def
    using since_kept[OF assms]
    by (auto intro!: carried_throw carried_after_quiet[OF _ assms] body rest split: path_arguments.splits)
qed

lemma instantiation_declares:
  assumes "since templates me ApiVec_new"
  shows "runs (convert_instantiation n conv typ tn ns ctx deps target) me (carried templates ann_extra_apis)"
proof -
  have named: "runs (tc_bind (custom_ptr_surface conv tn typ ns ApiVec_new) (\<lambda>(surface, extra_apis).
       lower_to_holder n typ (Some surface) deps extra_apis (tf_is_const target))) me' (carried templates ann_extra_apis)"
    if "since templates me' ApiVec_new" for me'
    by (rule carried_bind[OF custom_surface_declares[OF that]])
       (auto split: prod.splits intro!: lower_to_holder_carries)
  have unnamed: "runs (tc_bind (get_templated_typename n (Type_Path typ)) (\<lambda>(new_tn, api).
       tc_bind (tc_unwrap (apivec_extend ApiVec_new (case api of Some api \<Rightarrow> [api] | None \<Rightarrow> []))) (\<lambda>extra_apis.
       tc_return (marked_from target
         (Annotated_new (Type_Path (to_type_path new_tn)) (iset_insert new_tn deps) extra_apis Kind_Regular)))))
      me' (carried templates ann_extra_apis)" if "since templates me' ApiVec_new" for me'
    by (rule bind_runs[OF get_templated_made[OF that]])
       (auto simp: made_def runs_simps split: prod.splits option.splits)
  show ?thesis
    unfolding convert_instantiation_def
    by (rule carried_after_quiet[OF _ assms], simp, rule carried_after_quiet, simp, assumption,
        rule carried_after_quiet, simp, assumption, rule carried_after_quiet, simp split: option.splits, assumption,
        rule carried_after_quiet, simp, assumption, rule carried_after_quiet, simp, assumption,
        rule carried_after_quiet, simp, assumption, rule carried_after_quiet, simp, assumption)
       (simp add: named unnamed)
qed

end

context declaring_conversion begin

lemma resolved_path_declares:
  assumes "since templates me ApiVec_new"
  shows "runs (convert_resolved_path n conv typ tn ns ctx deps target) me (carried templates ann_extra_apis)"
proof -
  have holder: "runs (tc_bind (const_smart_pointer_surface n conv tn typ ns ApiVec_new) (\<lambda>(surface, extra_apis).
      lower_to_holder n typ surface deps extra_apis (tf_is_const target))) me' (carried templates ann_extra_apis)"
    if "since templates me' ApiVec_new" for me'
    by (rule carried_bind[OF const_surface_declares[OF that]])
       (auto split: prod.splits intro!: lower_to_holder_carries)
  have vector: "runs (tc_bind (conv element ns WithinContainer) (\<lambda>element.
      lower_to_holder n typ (Some (Holder_VectorOfPointers (ann_ty element) (ann_types_encountered element)))
        deps (ann_extra_apis element) (tf_is_const target))) me' (carried templates ann_extra_apis)"
    if "since templates me' ApiVec_new" for me' element
    by (rule bind_conv[OF that]) (rule lower_to_holder_carries)
  have plain: "runs (let typ = substitute_known tn typ in
      if \<not> has_generic_args typ then
        tc_return (marked_from target (Annotated_new (Type_Path typ) deps ApiVec_new Kind_Regular))
      else if cxx_generic_behavior known_types tn \<noteq> Generic_Not then
        convert_container conv typ tn (cxx_generic_behavior known_types tn) b ns deps target
      else convert_instantiation n conv typ tn ns ctx deps target) me' (carried templates ann_extra_apis)"
    if "since templates me' ApiVec_new" for me' b
    using that by (simp add: Let_def container_declares instantiation_declares carried_return)
  show ?thesis
    unfolding convert_resolved_path_def
    apply (subst Let_def)
    apply (rule carried_after_quiet[OF _ assms])
     apply simp
    apply (rule carried_after_quiet)
      apply simp
     apply assumption
    apply (rule carried_after_quiet)
      apply simp
     apply assumption
    apply (simp only: runs_if)
    apply (auto simp only: holder plain vector split: option.splits if_splits)
    done
qed

lemma plain_path_declares:
  assumes "since templates me ApiVec_new"
  shows "runs (convert_type_path_which_is_not_a_reference ok n conv typ ns ctx) me (carried templates ann_extra_apis)"
proof -
  have unnameable: "runs (tc_bind (resolve_through_unnameable_alias ok tn) (\<lambda>target.
      case target of None \<Rightarrow> tc_throw (InvalidIdent e) | Some target \<Rightarrow> conv target ns' ctx)) me'
      (carried templates ann_extra_apis)" if "since templates me' ApiVec_new" for me' tn ns' e
    by (rule carried_after_quiet[OF _ that])
       (auto intro: carried_throw since_kept conv_fresh split: option.splits)
  have resolved: "runs (tc_bind (resolve_typedef_target conv tp tn ns ctx deps target) (\<lambda>(resolved, deps).
      case resolved of
        Resolved_Converted annotated \<Rightarrow> tc_return annotated
      | Resolved_Path typ tn \<Rightarrow> convert_resolved_path n conv typ tn ns ctx deps target)) me'
      (carried templates ann_extra_apis)" if "since templates me' ApiVec_new" for me' tp tn deps target
    by (rule carried_bind[OF typedef_target_declares[OF that]])
       (auto simp: resolved_apis_def intro: carried_return resolved_path_declares
         split: prod.splits resolved_typedef.splits)
  show ?thesis
    unfolding convert_type_path_which_is_not_a_reference_def
    apply (rule carried_after_quiet[OF _ assms])
     apply simp
    apply (rule carried_after_quiet)
      apply simp
     apply assumption
    apply (rule carried_after_quiet)
      apply simp
     apply assumption
    apply (rule carried_after_quiet)
      apply simp
     apply assumption
    apply (rule carried_after_quiet)
      apply simp
     apply assumption
    apply (rename_tac whole m1 tn m2 u m3 blocked m4 u' m5)
    apply (case_tac "validate_ok_for_cxx ok tn")
     apply (simp only: sum.case)
     apply (erule unnameable)
    apply (simp only: sum.case)
    apply (subst Let_def)
    apply (rule carried_after_quiet)
      apply simp
     apply assumption
    apply (subst Let_def)
    apply (erule resolved)
    done
qed

lemma path_declares:
  assumes "since templates me ApiVec_new"
  shows "runs (convert_path_which_is_not_a_reference ok n conv typ ns ctx) me (carried templates ann_extra_apis)"
proof -
  have known: "runs (tc_bind (tc_unwrap (from_type_path tp)) (\<lambda>qn.
      tc_bind (refuse_incomplete ctx qn) (\<lambda>_.
      tc_return
        (if should_dereference_in_cpp known_types qn
         then Annotated_new (Type_Reference False (Type_Path (plain_path False [''str''])))
                (ann_types_encountered newp) (ann_extra_apis newp) Kind_Reference
         else newp)))) me' (carried templates ann_extra_apis)"
    if "since templates me' (ann_extra_apis newp)" for tp newp me'
    by (rule carried_after_quiet[OF _ that], simp, rule carried_after_quiet, simp, assumption) (simp add: carried_return)
  show ?thesis
    unfolding convert_path_which_is_not_a_reference_def
    by (rule carried_bind[OF plain_path_declares[OF assms]])
       (auto intro: known carried_return split: rust_type.splits)
qed

lemma marked_declares:
  assumes "since templates me ApiVec_new" and "\<And>a. ann_extra_apis (mark a) = ann_extra_apis a"
  shows "runs (tc_bind (conv ty ns ctx) (\<lambda>a. tc_return (mark a))) me (carried templates ann_extra_apis)"
  by (rule bind_conv[OF assms(1)]) (simp add: carried_return assms(2))

lemma step_declares:
  assumes "since templates me ApiVec_new"
  shows "runs (convert_type_step ok n conv ty ns ctx) me (carried templates ann_extra_apis)"
proof -
  note parts = carried_throw[OF since_kept[OF assms]] conv_fresh[OF assms] marked_declares[OF assms]
    lvalue_reference_declares[OF assms] rvalue_reference_declares[OF assms] path_declares[OF assms]
  have "runs (convert_type_path ok n conv tp ns ctx) me (carried templates ann_extra_apis)" for tp
    unfolding convert_type_path_def
    by (simp add: parts function_pointer_carries[OF _ assms] split: option.splits prod.splits)
  then show ?thesis
    unfolding convert_type_step_def
    by (simp add: parts reference_declares[OF assms] array_declares[OF assms] ptr_declares[OF assms]
        split: rust_type.splits)
qed

end

text \<open>Every depth of the recursion keeps the contract.\<close>

lemma convert_type_declaring: "declaring_conversion (convert_type ok n)"
proof (induction n)
  case 0
  show ?case by unfold_locales (simp add: runs_def)
next
  case (Suc n)
  show ?case
  proof (unfold_locales)
    fix me :: type_converter and ty ns ctx
    assume "templates_ok (tc_concrete_templates me)"
    from declaring_conversion.step_declares[OF Suc since_new[OF this]]
    show "runs (convert_type ok (Suc n) ty ns ctx) me (carried (tc_concrete_templates me) ann_extra_apis)" by simp
  qed
qed

interpretation converter: declaring_conversion "convert_type ok n"
  by (rule convert_type_declaring)

section \<open>Properties\<close>

text \<open>
  C8: a conversion that succeeds hands over one API for each instantiation it was the first to name, with
  the C++ type and the name it was filed under, in the order they were named; converting never gives one
  C++ type two names or two types one name, whether it succeeds or fails, and forgets no name.
\<close>

theorem conversion_declares_what_it_names:
  assumes "templates_ok (tc_concrete_templates me)" and "convert_type ok n ty ns ctx me = Some (r, me')"
  shows "templates_ok (tc_concrete_templates me') \<and>
    (\<exists>added. tc_concrete_templates me' = tc_concrete_templates me @ added \<and>
       (\<forall>a. r = Inr a \<longrightarrow> added = map concrete_entry (apis (ann_extra_apis a))))"
  using converter.declares[OF assms(1), of ok n ty ns ctx] assms(2)
  by (cases r) (auto simp: runs_def since_def kept_def)

section \<open>An instantiation that is lost\<close>

text \<open>A template \<open>au\<close>, instantiated on a type \<open>bb\<close> the header only declares.\<close>

definition au_bb :: type_path where
  "au_bb = TypePath False False [PathSegment ''root'' PathArguments_None,
     PathSegment ''au'' (AngleBracketed [GenericArgument_Type (Type_Path (plain_path False [''root'', ''bb'']))])]"

definition declared_only :: type_converter where
  "declared_only =
     \<lparr>tc_types_found = [QualifiedName [] ''au'', QualifiedName [] ''bb''], tc_typedefs = [],
      tc_concrete_templates = [], tc_forward_declarations = [(QualifiedName [] ''bb'', None)],
      tc_instantiations_on_incomplete_types = [], tc_classes_we_may_not_destroy = [],
      tc_concrete_definitions = [], tc_alias_targets = [], tc_inner_types_required = [], tc_ignored_types = [],
      tc_deferred_surfaces = [], tc_config = ns_only_config,
      tc_original_name_map = \<lparr>cnm_original_names = [], cnm_unshadowing_aliases = []\<rparr>\<rparr>"

definition au_bb_name :: qualified_name where
  "au_bb_name = QualifiedName [] ''au_bb_AutocxxConcrete''"

lemma sample_names_unknown [simp]:
  "db_get known_types (QualifiedName [] ''au'') = None"
  "db_get known_types (QualifiedName [] ''bb'') = None"
  "db_get known_types (QualifiedName [] ''au_bb_AutocxxConcrete'') = None"
  unfolding db_get_known by code_simp+

lemma sample_cpp_names [simp]:
  "to_cpp_name (QualifiedName [] ''au'') = ''au''"
  "to_cpp_name (QualifiedName [] ''bb'') = ''bb''"
  "to_cpp_name (QualifiedName [] ''au_bb_AutocxxConcrete'') = ''au_bb_AutocxxConcrete''"
  by (simp_all add: to_cpp_name_def special_cpp_name_def segment_iter_def ns_segment_iter_def)

definition au_bb_out :: type_path where
  "au_bb_out = TypePath False False [PathSegment ''output'' PathArguments_None,
     PathSegment ''au'' (AngleBracketed [GenericArgument_Type (Type_Path (plain_path False [''root'', ''bb'']))])]"

lemma au_bb_unmarked [simp]:
  "unwrap_const au_bb = None" "unwrap_volatile au_bb = None" "unwrap_has_opaque au_bb = None"
  "unwrap_long_double au_bb = None" "unwrap_float128 au_bb = None" "unwrap_bitfield au_bb = None"
  "unwrap_std_array au_bb = None" "unwrap_reference au_bb False = None" "unwrap_reference au_bb True = None"
  "unwrap_function_pointer au_bb = None" "from_type_path au_bb = Some (QualifiedName [] ''au'')"
  "unwrap_const au_bb_out = None" "unwrap_volatile au_bb_out = None"
  "last_arguments au_bb_out = Some [Some (Type_Path (plain_path False [''root'', ''bb'']))]"
  "all_type_arguments au_bb_out = [Type_Path (plain_path False [''root'', ''bb''])]"
  "from_type_path au_bb_out = Some (QualifiedName [] ''au'')" "has_generic_args au_bb_out"
  "refers_to_generic_param ctx au_bb_out = False"
  "\<not> mentions_volatile (Type_Path au_bb_out)" "\<not> mentions_float128 (Type_Path au_bb_out)"
  "\<not> mentions_long_double (Type_Path au_bb_out)" "\<not> mentions_cpp_array (Type_Path au_bb_out)"
  "substitute_known (QualifiedName [] ''au'') au_bb = au_bb_out"
  "validate_ok_for_cxx (\<lambda>_. True) (QualifiedName [] ''au'') = Inr ()"
  "is_on_blocklist ns_only_config ''au'' = (False, ns_only_config)"
  "unwrap_const (plain_path False [''root'', ''bb'']) = None"
  "unwrap_volatile (plain_path False [''root'', ''bb'']) = None"
  "from_type_path (plain_path False [''root'', ''bb'']) = Some (QualifiedName [] ''bb'')"
  "last_arguments (plain_path False [''root'', ''bb'']) = None"
  "\<not> is_va_list (QualifiedName [] ''au'')"
  by (simp add: substitute_known_def consider_substitution_def au_bb_def au_bb_out_def make_ident_def | code_simp
     | simp add: refers_to_generic_param_def, code_simp)+

lemma concrete_au_bb [simp]: "QualifiedName_new Namespace_new (make_ident (concrete_type_ident ''au<bb>'')) = au_bb_name"
  by code_simp

abbreviation au_bb_known :: type_converter where
  "au_bb_known \<equiv> declared_only\<lparr>tc_concrete_templates := [(''au<bb>'', au_bb_name)],
     tc_instantiations_on_incomplete_types := [(au_bb_name, QualifiedName [] ''bb'')]\<rparr>"

lemma declared_only_sel [simp]:
  "tc_typedefs declared_only = []" "tc_concrete_templates declared_only = []"
  "tc_forward_declarations declared_only = [(QualifiedName [] ''bb'', None)]"
  "tc_instantiations_on_incomplete_types declared_only = []" "tc_classes_we_may_not_destroy declared_only = []"
  "tc_alias_targets declared_only = []" "tc_inner_types_required declared_only = []"
  "tc_ignored_types declared_only = []" "tc_config declared_only = ns_only_config"
  by (simp_all add: declared_only_def)
declare type_to_cpp.simps [simp del]
lemma path_mentions [simp]: "\<not> path_mentions_cpp_array au_bb_out"
  using au_bb_unmarked by simp
lemmas conv_defs = tc_bind_def tc_when_def tc_return_def tc_get_def tc_throw_def tc_unwrap_def tc_result_def
lemma au_bb_cpp: "type_to_cpp (tc_original_name_map declared_only) (Type_Path au_bb_out) = Some (Inr ''au<bb>'')"
  by (simp add: type_to_cpp.simps cpp_map_def declared_only_def Let_def unaliased_cpp_name_def)

lemma au_bb_first: "get_templated_typename (Suc n) (Type_Path au_bb_out) declared_only =
   Some (Inr (au_bb_name, Some (concrete_api au_bb_name (Type_Path au_bb_out) ''au<bb>'' (Some (QualifiedName [] ''bb'')))), au_bb_known)"
  by (simp add: get_templated_typename_def conv_defs unsatisfiable_inner_type_def au_bb_cpp
     find_or_make_concrete_def incomplete_argument_of_def incomplete_argument_within_def synthetic_name_def Let_def)
lemma au_bb_second: "get_templated_typename (Suc n) (Type_Path au_bb_out) au_bb_known = Some (Inr (au_bb_name, None), au_bb_known)"
  by (simp add: get_templated_typename_def conv_defs unsatisfiable_inner_type_def au_bb_cpp find_or_make_concrete_def)

lemma au_bb_is_made:
  assumes "me = declared_only\<lparr>tc_concrete_templates := t, tc_instantiations_on_incomplete_types := w\<rparr>"
  shows "convert_type_path_which_is_not_a_reference (\<lambda>_. True) n conv au_bb ns ctx me =
     tc_bind (get_templated_typename n (Type_Path au_bb_out)) (\<lambda>(new_tn, api).
       tc_bind (tc_unwrap (apivec_extend ApiVec_new (case api of Some api \<Rightarrow> [api] | None \<Rightarrow> []))) (\<lambda>extra_apis.
       tc_return (Annotated_new (Type_Path (to_type_path new_tn)) (iset_insert new_tn [QualifiedName [] ''au'']) extra_apis Kind_Regular))) me"
proof -
  have me: "me\<lparr>tc_config := ns_only_config\<rparr> = me" "tc_ignored_types me = []" "tc_config me = ns_only_config" "tc_typedefs me = []"
    using assms by (simp_all add: declared_only_def)
  then have "qualify_path au_bb ns me = Some (Inr au_bb, me)"
    "is_smart_pointer_template (tc_config me) ''au'' = False"
    by (simp_all add: qualify_path_def au_bb_def tc_return_def is_smart_pointer_template_def directive_iter_def ns_only_config_def)
  then show ?thesis
    by (simp add: convert_type_path_which_is_not_a_reference_def conv_defs tc_is_on_blocklist_def me iset_insert_def marked_from_def marked_const_if_def marked_std_array_if_def
      resolve_typedef_def resolve_typedef_loop.simps resolve_typedef_target_def Let_def convert_resolved_path_def convert_instantiation_def cxx_generic_behavior_def 
      cong del: option.case_cong)
qed


lemma declared_only_as: "declared_only = declared_only\<lparr>tc_concrete_templates := [], tc_instantiations_on_incomplete_types := []\<rparr>"
  by (simp add: declared_only_def)

lemma au_bb_name_path: "to_type_path au_bb_name = plain_path False [''output'', ''au_bb_AutocxxConcrete'']"
  by (simp add: au_bb_name_def to_type_path_def known_type_type_path_def make_ident_def segment_iter_def ns_segment_iter_def)

lemma au_bb_name_facts [simp]:
  "from_type_path (plain_path False [''output'', ''au_bb_AutocxxConcrete'']) = Some au_bb_name"
  "map_of (tc_forward_declarations declared_only) au_bb_name = None"
  "au_bb_name \<noteq> QualifiedName [] ''au''" 
  by code_simp+
lemma au_bb_name_deref [simp]: "should_dereference_in_cpp known_types au_bb_name = False" 
  by (simp add: should_dereference_in_cpp_def au_bb_name_def)

lemma au_bb_contexts [simp]:
  "allow_instantiation_of_forward_declaration (behind_reference OuterType)"
  "\<not> allow_instantiation_of_forward_declaration OuterType" "\<not> within_struct_field OuterType"
  "\<not> is_volatile_qualified (Type_Path au_bb)" "apis (ApiVec_new :: (unit, unit, unit, unit) api_vec) = []"
  "au_bb_name \<noteq> QualifiedName [] ''bb''"
  by code_simp+

lemmas au_bb_defs = convert_type_step_def convert_type_path_def convert_ptr_def ensure_pointee_is_valid_def
  function_pointer_def convert_path_which_is_not_a_reference_def
  tc_bind_def [of "convert_type_path_which_is_not_a_reference _ _ _ _ _ _"] conv_defs au_bb_name_path
  Annotated_new_def marked_volatile_pointee_if_def refuse_incomplete_def instantiation_on_incomplete_type_error_def

lemma au_bb_handed: "\<exists>v. apivec_push ApiVec_new (concrete_api au_bb_name ty cpp arg) = Some v"
  by (simp add: apivec_push.simps already_contains_def ApiVec_new_def concrete_api_def)

text \<open>
  An instantiation first met in a conversion that fails is lost: its name is remembered, the API that
  would declare it is dropped with the failed conversion, and a later conversion that succeeds names the
  type and hands nothing over. With \<open>bb\<close> only declared, \<^verbatim>\<open>au<bb>\<close> by value fails and
  \<^verbatim>\<open>const au<bb>*\<close> after it is a pointer to a type nothing declares.
\<close>

theorem lost_instantiation:
  "\<exists>a. convert_type (\<lambda>_. True) (Suc (Suc (Suc n))) (Type_Path au_bb) [] OuterType declared_only =
      Some (Inl (InstantiationOnIncompleteType au_bb_name (QualifiedName [] ''bb'')), au_bb_known) \<and>
    convert_type (\<lambda>_. True) (Suc (Suc (Suc n))) (Type_Ptr False (Type_Path au_bb)) [] OuterType au_bb_known =
      Some (Inr a, au_bb_known) \<and>
    ann_ty a = Type_Ptr False (Type_Path (to_type_path au_bb_name)) \<and> apis (ann_extra_apis a) = []"
proof -
  obtain v where "apivec_push ApiVec_new (concrete_api au_bb_name (Type_Path au_bb_out) ''au<bb>''
      (Some (QualifiedName [] ''bb''))) = Some v"
    using au_bb_handed by blast
  then show ?thesis
    by (simp add: au_bb_defs au_bb_first au_bb_second au_bb_is_made[OF declared_only_as] au_bb_is_made[OF refl])
qed

lemma conversion_declares_what_it_names_witness:
  "\<exists>a. convert_type (\<lambda>_. True) 3 (Type_Ptr False (Type_Path au_bb)) [] OuterType declared_only =
      Some (Inr a, au_bb_known) \<and> map concrete_entry (apis (ann_extra_apis a)) = [(''au<bb>'', au_bb_name)]"
proof -
  obtain v where v: "apivec_push ApiVec_new (concrete_api au_bb_name (Type_Path au_bb_out) ''au<bb>''
      (Some (QualifiedName [] ''bb''))) = Some v"
    using au_bb_handed by blast
  obtain a where "convert_type (\<lambda>_. True) 3 (Type_Ptr False (Type_Path au_bb)) [] OuterType declared_only =
      Some (Inr a, au_bb_known)"
    by (simp add: numeral_3_eq_3 au_bb_defs v au_bb_first au_bb_is_made[OF declared_only_as])
  with conversion_declares_what_it_names[OF _ this] show ?thesis
    by (auto simp: templates_ok_def)
qed

end
