(* ===== verification/RemoveIgnored.thy ===== *)
theory RemoveIgnored imports Deps begin

text \<open>
  Discarding whatever depends on an item that could not be generated, or on a type nobody declares
  (\<^verbatim>\<open>analysis/remove_ignored.rs\<close>): rounds over all items, each replacing what it discards by an error
  marker, until a round replaces nothing. The database of known types is the argument \<open>db\<close>, and
  \<open>None\<close> the panic of a push.
\<close>

definition is_ignored_item :: "('td, 'st, 'fn, 'sub) api \<Rightarrow> bool" where
  "is_ignored_item api = (case api of Api_IgnoredItem _ _ _ \<Rightarrow> True | _ \<Rightarrow> False)"

definition create_ignore_item :: "fn_phase \<Rightarrow> convert_error \<Rightarrow> fn_phase" where
  "create_ignore_item api err =
     (let idt = make_ident (get_final_item (Api_name api)) in
      Api_IgnoredItem (name_info api) err
        (case api of
           Api_Function name fn analysis \<Rightarrow>
             (case fa_kind analysis of
                FnKind_TraitMethod _ _ _ \<Rightarrow> None
              | FnKind_Method _ impl_for \<Rightarrow>
                  Some (new_for_method (make_ident (get_final_item impl_for))
                          (make_ident (fa_rust_name analysis)))
              | FnKind_Function \<Rightarrow> Some (new_for_item (make_ident (fa_rust_name analysis))))
         | _ \<Rightarrow> Some (new_for_item idt)))"

type_synonym reasons = "(qualified_name, convert_error) index_map"

text \<open>
  One item of one round: what replaces it, the reasons with its own added, and whether to go round
  again. The culprit's reason is always there, the culprit having been picked for being a key.
\<close>

definition filter_one ::
    "type_database \<Rightarrow> qualified_name list \<Rightarrow> fn_phase \<Rightarrow> reasons \<Rightarrow> fn_phase \<times> reasons \<times> bool" where
  "filter_one db valid api ignored_items =
     (case fold iset_insert (filter (\<lambda>dep. map_of ignored_items dep \<noteq> None) (deps api)) [] of
        culprit # others \<Rightarrow>
          let reason = the (map_of ignored_items culprit) in
          (create_ignore_item api (IgnoredDependent (culprit # others) culprit reason),
           imap_insert (Api_name api) reason ignored_items, True)
      | [] \<Rightarrow>
          (case List.find (\<lambda>dep. dep \<notin> set valid \<and> \<not> is_known_type db dep) (deps api) of
             Some missing_dep \<Rightarrow>
               let err = UnknownDependentType missing_dep in
               (create_ignore_item api err, imap_insert (Api_name api) err ignored_items, True)
           | None \<Rightarrow> (api, ignored_items, False)))"

fun filter_pass ::
    "type_database \<Rightarrow> qualified_name list \<Rightarrow> fn_phase list \<Rightarrow> reasons \<Rightarrow> fn_phase list \<times> reasons \<times> bool" where
  "filter_pass db valid [] ignored_items = ([], ignored_items, False)"
| "filter_pass db valid (api # rest) ignored_items =
     (let (api', ignored_items', again) = filter_one db valid api ignored_items;
          (rest', ignored_items'', again') = filter_pass db valid rest ignored_items'
      in (api' # rest', ignored_items'', again \<or> again'))"

definition filter_round ::
    "type_database \<Rightarrow> qualified_name list \<Rightarrow> fn_phase_apis \<times> reasons \<Rightarrow>
     ((fn_phase_apis \<times> reasons) \<times> bool) option" where
  "filter_round db valid = (\<lambda>(v, ignored_items).
     let (l, ignored_items', again) = filter_pass db valid (apis v) ignored_items
     in map_option (\<lambda>v'. ((v', ignored_items'), again)) (apivec_from_iter l))"

definition initial_reasons :: "fn_phase_apis \<Rightarrow> reasons" where
  "initial_reasons v =
     fold (\<lambda>api m. case api of
             Api_IgnoredItem name err ctx \<Rightarrow> imap_insert (Api_name api) err m
           | _ \<Rightarrow> m) (apis v) []"

definition all_valid_types :: "fn_phase_apis \<Rightarrow> qualified_name list" where
  "all_valid_types v = remdups (concat (map valid_types (filter (\<lambda>api. \<not> is_ignored_item api) (apis v))))"

definition filter_apis_by_ignored_dependents ::
    "type_database \<Rightarrow> fn_phase_apis \<Rightarrow> fn_phase_apis option" where
  "filter_apis_by_ignored_dependents db v =
     map_option fst (run_rounds (filter_round db (all_valid_types v)) (v, initial_reasons v))"

section \<open>What has to go\<close>

text \<open>
  A name is doomed where it is the name of an item already ignored, or of an item which depends on
  a type nobody declares or on a doomed name.
\<close>

inductive doomed :: "type_database \<Rightarrow> fn_phase_apis \<Rightarrow> qualified_name \<Rightarrow> bool" for db v where
  ignored: "api \<in> set (apis v) \<Longrightarrow> is_ignored_item api \<Longrightarrow> doomed db v (Api_name api)"
| unknown: "api \<in> set (apis v) \<Longrightarrow> d \<in> set (deps api) \<Longrightarrow> d \<notin> set (all_valid_types v) \<Longrightarrow>
    \<not> is_known_type db d \<Longrightarrow> doomed db v (Api_name api)"
| depends: "api \<in> set (apis v) \<Longrightarrow> d \<in> set (deps api) \<Longrightarrow> doomed db v d \<Longrightarrow>
    doomed db v (Api_name api)"

lemma create_ignore_item_name [simp]: "Api_name (create_ignore_item api err) = Api_name api"
  by (simp add: create_ignore_item_def Let_def Api_name_def)

lemma create_ignore_item_ignored [simp]: "is_ignored_item (create_ignore_item api err)"
  by (simp add: create_ignore_item_def is_ignored_item_def Let_def)

lemma ignored_deps: "is_ignored_item (api :: fn_phase) \<Longrightarrow> deps api = []"
  by (cases api) (simp_all add: is_ignored_item_def)

text \<open>One item: either a name among the reasons or an unknown type condemns it, or it stays.\<close>

abbreviation condemned ::
    "type_database \<Rightarrow> qualified_name list \<Rightarrow> reasons \<Rightarrow> fn_phase \<Rightarrow> bool" where
  "condemned db valid m api \<equiv>
     \<exists>d \<in> set (deps api). map_of m d \<noteq> None \<or> d \<notin> set valid \<and> \<not> is_known_type db d"

lemma filter_one_kept:
  assumes "\<not> condemned db valid m api"
  shows "filter_one db valid api m = (api, m, False)"
proof -
  have "filter (\<lambda>dep. map_of m dep \<noteq> None) (deps api) = []"
    using assms by (simp only: filter_empty_conv) blast
  moreover have "List.find (\<lambda>dep. dep \<notin> set valid \<and> \<not> is_known_type db dep) (deps api) = None"
    using assms by (auto simp: find_None_iff)
  ultimately show ?thesis by (simp add: filter_one_def)
qed

lemma filter_one_gone:
  assumes "condemned db valid m api"
  obtains err reason where
    "filter_one db valid api m = (create_ignore_item api err, imap_insert (Api_name api) reason m, True)"
    "(\<exists>d. err = UnknownDependentType d \<and> reason = err) \<or>
     (\<exists>ds culprit. err = IgnoredDependent ds culprit reason \<and> map_of m culprit = Some reason)"
proof (cases "fold iset_insert (filter (\<lambda>dep. map_of m dep \<noteq> None) (deps api)) []")
  case Nil
  then have "set (fold iset_insert (filter (\<lambda>dep. map_of m dep \<noteq> None) (deps api)) []) = {}" by simp
  then have "\<forall>d \<in> set (deps api). map_of m d = None" by auto
  with assms have "List.find (\<lambda>dep. dep \<notin> set valid \<and> \<not> is_known_type db dep) (deps api) \<noteq> None"
    by (auto simp: find_None_iff)
  then obtain d where "List.find (\<lambda>dep. dep \<notin> set valid \<and> \<not> is_known_type db dep) (deps api) = Some d"
    by blast
  with Nil that show ?thesis by (simp add: filter_one_def Let_def)
next
  case (Cons culprit others)
  then have "culprit \<in> set (fold iset_insert (filter (\<lambda>dep. map_of m dep \<noteq> None) (deps api)) [])" by simp
  then have "map_of m culprit \<noteq> None" by simp
  then obtain reason where "map_of m culprit = Some reason" by blast
  with Cons that show ?thesis by (simp add: filter_one_def Let_def)
qed

section \<open>A round\<close>

text \<open>What an item may have become: itself, or a marker of its name where the name is doomed.\<close>

definition replaced :: "type_database \<Rightarrow> fn_phase_apis \<Rightarrow> fn_phase \<Rightarrow> fn_phase \<Rightarrow> bool" where
  "replaced db v api api' \<longleftrightarrow>
     api' = api \<or> Api_name api' = Api_name api \<and> is_ignored_item api' \<and> doomed db v (Api_name api)"

abbreviation reasons_sound :: "type_database \<Rightarrow> fn_phase_apis \<Rightarrow> reasons \<Rightarrow> bool" where
  "reasons_sound db v m \<equiv> \<forall>d. map_of m d \<noteq> None \<longrightarrow> doomed db v d"

definition survivors :: "fn_phase list \<Rightarrow> nat" where
  "survivors l = length (filter (\<lambda>api. \<not> is_ignored_item api) l)"

lemma condemned_doomed:
  assumes "condemned db (all_valid_types v) m api'" and "replaced db v api api'" and "api \<in> set (apis v)"
    and "reasons_sound db v m"
  shows "doomed db v (Api_name api)"
proof (cases "api' = api")
  case True
  with assms show ?thesis by (blast intro: doomed.unknown doomed.depends)
next
  case False
  with assms(2) show ?thesis by (simp add: replaced_def)
qed

lemma filter_pass_step:
  assumes "filter_pass db (all_valid_types v) l m = (l', m', again)"
    and "list_all2 (replaced db v) os l" and "set os \<subseteq> set (apis v)" and "reasons_sound db v m"
  shows "list_all2 (replaced db v) os l' \<and> reasons_sound db v m' \<and> dom (map_of m) \<subseteq> dom (map_of m') \<and>
    (\<forall>a \<in> set l'. is_ignored_item a \<longrightarrow> a \<in> set l \<or> Api_name a \<in> dom (map_of m')) \<and>
    survivors l' \<le> survivors l \<and> (again \<longrightarrow> survivors l' < survivors l) \<and>
    (\<not> again \<longrightarrow> l' = l \<and> m' = m \<and> (\<forall>a \<in> set l. \<not> condemned db (all_valid_types v) m a))"
  using assms
proof (induction l arbitrary: os m l' m' again)
  case Nil
  then show ?case by simp
next
  case (Cons api l)
  let ?valid = "all_valid_types v"
  from Cons.prems(2) obtain orig os' where os: "os = orig # os'" "replaced db v orig api"
    "list_all2 (replaced db v) os' l" by (auto simp: list_all2_Cons2)
  from Cons.prems(3) os(1) have orig: "orig \<in> set (apis v)" "set os' \<subseteq> set (apis v)" by auto
  obtain api1 m1 again1 where one: "filter_one db ?valid api m = (api1, m1, again1)" by (metis prod_cases3)
  obtain l2 m2 again2 where rest: "filter_pass db ?valid l m1 = (l2, m2, again2)" by (metis prod_cases3)
  from Cons.prems(1) one rest have out: "l' = api1 # l2" "m' = m2" "again = (again1 \<or> again2)" by auto
  show ?case
  proof (cases "condemned db ?valid m api")
    case False
    with filter_one_kept[OF False] one have "api1 = api" "m1 = m" "\<not> again1" by auto
    with Cons.IH[OF rest os(3) orig(2)] Cons.prems(4) out os False show ?thesis
      by (auto simp: survivors_def)
  next
    case True
    from condemned_doomed[OF True os(2) orig(1) Cons.prems(4)] have doomed: "doomed db v (Api_name orig)" .
    from True one obtain err reason where gone: "api1 = create_ignore_item api err"
      "m1 = imap_insert (Api_name api) reason m" "again1" by (elim filter_one_gone) auto
    from True have alive: "\<not> is_ignored_item api" using ignored_deps by fastforce
    have name: "Api_name api = Api_name orig" using os(2) by (auto simp: replaced_def)
    have "reasons_sound db v m1" using Cons.prems(4) doomed by (simp add: gone(2) name)
    note IH = Cons.IH[OF rest os(3) orig(2) this]
    have "replaced db v orig api1" using doomed by (simp add: gone(1) replaced_def name)
    moreover have "dom (map_of m1) = insert (Api_name api) (dom (map_of m))"
      by (auto simp: gone(2) dom_def)
    with IH have "Api_name api1 \<in> dom (map_of m2)" "dom (map_of m) \<subseteq> dom (map_of m2)"
      by (auto simp: gone(1))
    ultimately show ?thesis using IH alive gone(3) by (auto simp: out os(1) survivors_def gone(1))
  qed
qed

section \<open>All the rounds\<close>

definition good_round :: "type_database \<Rightarrow> fn_phase_apis \<Rightarrow> fn_phase_apis \<times> reasons \<Rightarrow> bool" where
  "good_round db v = (\<lambda>(w, m).
     distinct (map Api_name (apis v)) \<and> list_all2 (replaced db v) (apis v) (apis w) \<and>
     reasons_sound db v m \<and>
     list_all (\<lambda>a. is_ignored_item a \<longrightarrow> map_of m (Api_name a) \<noteq> None) (apis w))"

lemma replaced_names:
  "list_all2 (replaced db v) l l' \<Longrightarrow> map Api_name l' = map Api_name l"
  by (induction rule: list_all2_induct) (auto simp: replaced_def)

lemma filter_round_returns:
  assumes "good_round db v (w, m)"
  shows "\<exists>w' m' again. filter_round db (all_valid_types v) (w, m) = Some ((w', m'), again) \<and>
    filter_pass db (all_valid_types v) (apis w) m = (apis w', m', again) \<and> good_round db v (w', m')"
proof -
  obtain l' m' again where pass: "filter_pass db (all_valid_types v) (apis w) m = (l', m', again)"
    by (metis prod_cases3)
  from assms have good: "list_all2 (replaced db v) (apis v) (apis w)" "reasons_sound db v m"
    "distinct (map Api_name (apis v))" by (simp_all add: good_round_def)
  note step = filter_pass_step[OF pass good(1) order.refl good(2)]
  from step have "list_all2 (replaced db v) (apis v) l'" by blast
  from replaced_names[OF this] good(3) have "distinct (map Api_name l')" by simp
  from collect_distinct[OF this] obtain w' where w': "apivec_from_iter l' = Some w'" "apis w' = l'" by blast
  have "good_round db v (w', m')"
    using step assms by (auto simp: good_round_def w'(2) list_all_iff dest!: subsetD) 
  with pass w' show ?thesis by (simp add: filter_round_def)
qed

interpretation discard: converging_rounds "filter_round db (all_valid_types v)" "good_round db v"
    "\<lambda>(w, m). survivors (apis w)" for db v
proof
  fix s
  assume good: "good_round db v s"
  obtain w m where s: "s = (w, m)" by fastforce
  from filter_round_returns[OF good[unfolded s]] obtain w' m' again where
    r: "filter_round db (all_valid_types v) (w, m) = Some ((w', m'), again)"
    "filter_pass db (all_valid_types v) (apis w) m = (apis w', m', again)" "good_round db v (w', m')" by blast
  from good s have "list_all2 (replaced db v) (apis v) (apis w)" "reasons_sound db v m"
    by (simp_all add: good_round_def)
  from filter_pass_step[OF r(2) this(1) order.refl this(2)] r
  show "\<exists>t again. filter_round db (all_valid_types v) s = Some (t, again) \<and> good_round db v t \<and>
    (again \<longrightarrow> (case t of (w, m) \<Rightarrow> survivors (apis w)) < (case s of (w, m) \<Rightarrow> survivors (apis w)))"
    by (auto simp: s)
qed

section \<open>Properties\<close>

lemma initial_reasons_get:
  "map_of (fold (\<lambda>api m. case api of
             Api_IgnoredItem name err ctx \<Rightarrow> imap_insert (Api_name api) err m
           | _ \<Rightarrow> m) l m) d \<noteq> None \<longleftrightarrow>
     map_of m d \<noteq> None \<or> (\<exists>api \<in> set l. is_ignored_item api \<and> Api_name api = d)"
proof (induction l arbitrary: m)
  case (Cons api l)
  show ?case unfolding fold_simps comp_def Cons.IH
    by (cases api) (auto simp: is_ignored_item_def)
qed simp

lemma good_start:
  assumes "distinct (map Api_name (apis v))"
  shows "good_round db v (v, initial_reasons v)"
proof -
  have "map_of (initial_reasons v) d \<noteq> None \<longleftrightarrow> (\<exists>api \<in> set (apis v). is_ignored_item api \<and> Api_name api = d)" for d
    unfolding initial_reasons_def initial_reasons_get by simp
  then show ?thesis using assms
    by (auto simp: good_round_def list_all_iff list_all2_conv_all_nth replaced_def intro: doomed.ignored)
qed

lemma fixpoint_discards:
  assumes good: "good_round db v (w, m)" and calm: "\<forall>a \<in> set (apis w). \<not> condemned db (all_valid_types v) m a"
  shows "doomed db v n \<Longrightarrow> map_of m n \<noteq> None \<and> (\<forall>a \<in> set (apis w). Api_name a = n \<longrightarrow> is_ignored_item a)"
proof (induction rule: doomed.induct)
  have pairs: "list_all2 (replaced db v) (apis v) (apis w)" and keys:
    "\<forall>a \<in> set (apis w). is_ignored_item a \<longrightarrow> map_of m (Api_name a) \<noteq> None"
    and unique: "distinct (map Api_name (apis w))"
    using good replaced_names[of db v "apis v" "apis w"] by (auto simp: good_round_def list_all_iff)
  have becomes: "\<exists>a' \<in> set (apis w). replaced db v a a'" if "a \<in> set (apis v)" for a
    using pairs that by (fastforce simp: list_all2_conv_all_nth in_set_conv_nth)
  have settled: "map_of m (Api_name a) \<noteq> None \<and> (\<forall>x \<in> set (apis w). Api_name x = Api_name a \<longrightarrow> is_ignored_item x)"
    if "a \<in> set (apis v)" and "a \<in> set (apis w) \<Longrightarrow> is_ignored_item a" for a
  proof -
    from becomes[OF that(1)] obtain a' where a': "a' \<in> set (apis w)" "replaced db v a a'" by blast
    then have "is_ignored_item a'" "Api_name a' = Api_name a" using that(2) by (auto simp: replaced_def)
    with a'(1) keys unique show ?thesis by (metis distinct_map inj_onD)
  qed
  { case (ignored api) then show ?case by (intro settled) }
  { case (unknown api d) with calm show ?case by (intro settled) blast+ }
  { case (depends api d) with calm show ?case by (intro settled) blast+ }
qed

lemma doomed_are_discarded:
  assumes "distinct (map Api_name (apis v))"
  shows "\<exists>v'. filter_apis_by_ignored_dependents db v = Some v' \<and>
    list_all2 (\<lambda>api api'. Api_name api' = Api_name api \<and>
       (if doomed db v (Api_name api) then is_ignored_item api' else api' = api)) (apis v) (apis v')"
proof -
  from discard.rounds_end[OF good_start[OF assms], of db] obtain s' t where
    runs: "run_rounds (filter_round db (all_valid_types v)) (v, initial_reasons v) = Some t"
    and good: "good_round db v s'" and last: "filter_round db (all_valid_types v) s' = Some (t, False)" by blast
  obtain w m where s': "s' = (w, m)" by fastforce
  from filter_round_returns[OF good[unfolded s']] last s' obtain w' m' where
    pass: "t = (w', m')" "filter_pass db (all_valid_types v) (apis w) m = (apis w', m', False)"
      "good_round db v (w', m')" by auto
  from good s' have "list_all2 (replaced db v) (apis v) (apis w)" "reasons_sound db v m"
    by (simp_all add: good_round_def)
  from filter_pass_step[OF pass(2) this(1) order.refl this(2)]
  have calm: "apis w' = apis w" "m' = m" "\<forall>a \<in> set (apis w). \<not> condemned db (all_valid_types v) m a" by simp_all
  have pairs: "list_all2 (replaced db v) (apis v) (apis w')" using pass(3) by (simp add: good_round_def)
  have "Api_name a' = Api_name a \<and> (if doomed db v (Api_name a) then is_ignored_item a' else a' = a)"
    if "replaced db v a a'" "a' \<in> set (apis w')" for a a'
    using that fixpoint_discards[OF good[unfolded s'] calm(3), of "Api_name a"] calm(1)
    by (auto simp: replaced_def)
  with pairs have "list_all2 (\<lambda>api api'. Api_name api' = Api_name api \<and>
       (if doomed db v (Api_name api) then is_ignored_item api' else api' = api)) (apis v) (apis w')"
    by (auto simp: list_all2_conv_all_nth)
  with runs pass(1) show ?thesis by (auto simp: filter_apis_by_ignored_dependents_def)
qed

text \<open>
  C15: discarding goes exactly as far as it has to. It ends without a panic for every list of APIs
  whose names are unique; an item is replaced by a marker of its name exactly where it was one
  already, or depends by some chain on one or on a type nobody declares; every other item is kept
  as it was, in its place.
\<close>

theorem discards_exactly_the_doomed:
  assumes "apivec_wf v"
  shows "\<exists>v'. filter_apis_by_ignored_dependents db v = Some v' \<and>
    list_all2 (\<lambda>api api'. Api_name api' = Api_name api \<and>
       (if doomed db v (Api_name api) then is_ignored_item api' else api' = api)) (apis v) (apis v')"
  using assms by (intro doomed_are_discarded) (simp add: apivec_wf_def)

definition original_reason :: "fn_phase_apis \<Rightarrow> convert_error \<Rightarrow> bool" where
  "original_reason v err \<longleftrightarrow>
     list_ex (\<lambda>api. case api of Api_IgnoredItem name e ctx \<Rightarrow> e = err | _ \<Rightarrow> False) (apis v)"

definition root_reason :: "fn_phase_apis \<Rightarrow> convert_error \<Rightarrow> bool" where
  "root_reason v err \<longleftrightarrow>
     original_reason v err \<or> (case err of UnknownDependentType _ \<Rightarrow> True | _ \<Rightarrow> False)"

definition well_explained :: "fn_phase_apis \<Rightarrow> fn_phase \<Rightarrow> bool" where
  "well_explained v api =
     (case api of
        Api_IgnoredItem name err ctx \<Rightarrow>
          root_reason v err \<or>
          (case err of IgnoredDependent ds culprit reason \<Rightarrow> root_reason v reason | _ \<Rightarrow> False)
      | _ \<Rightarrow> True)"

lemma filter_pass_explains:
  assumes "filter_pass db valid l m = (l', m', again)"
    and "\<forall>d r. map_of m d = Some r \<longrightarrow> root_reason v r" and "list_all (well_explained v) l"
  shows "(\<forall>d r. map_of m' d = Some r \<longrightarrow> root_reason v r) \<and> list_all (well_explained v) l'"
  using assms
proof (induction l arbitrary: m l' m' again)
  case (Cons api l)
  obtain api1 m1 again1 where one: "filter_one db valid api m = (api1, m1, again1)" by (metis prod_cases3)
  obtain l2 m2 again2 where rest: "filter_pass db valid l m1 = (l2, m2, again2)" by (metis prod_cases3)
  from Cons.prems(1) one rest have out: "l' = api1 # l2" "m' = m2" by auto
  have "(\<forall>d r. map_of m1 d = Some r \<longrightarrow> root_reason v r) \<and> well_explained v api1"
  proof (cases "condemned db valid m api")
    case False
    with filter_one_kept[OF False] one Cons.prems show ?thesis by auto
  next
    case True
    then obtain err reason where gone: "api1 = create_ignore_item api err"
      "m1 = imap_insert (Api_name api) reason m"
      "(\<exists>d. err = UnknownDependentType d \<and> reason = err) \<or>
       (\<exists>ds culprit. err = IgnoredDependent ds culprit reason \<and> map_of m culprit = Some reason)"
      using one by (elim filter_one_gone) auto
    from gone(3) Cons.prems(2) have "root_reason v reason" by (auto simp: root_reason_def)
    with gone Cons.prems(2) show ?thesis
      by (auto simp: well_explained_def create_ignore_item_def Let_def root_reason_def)
  qed
  with Cons.IH[OF rest] Cons.prems(3) out show ?case by auto
qed simp

lemma initial_reasons_root:
  "map_of (initial_reasons v) d = Some r \<Longrightarrow> root_reason v r"
proof -
  have "map_of (fold (\<lambda>api m. case api of
             Api_IgnoredItem name err ctx \<Rightarrow> imap_insert (Api_name api) err m
           | _ \<Rightarrow> m) l m) d = Some r \<Longrightarrow>
    (\<forall>d r. map_of m d = Some r \<longrightarrow> root_reason v r) \<Longrightarrow> set l \<subseteq> set (apis v) \<Longrightarrow> root_reason v r" for l m
  proof (induction l arbitrary: m)
    case (Cons api l)
    show ?case
    proof (cases "is_ignored_item api")
      case True
      then obtain name err ctx where api: "api = Api_IgnoredItem name err ctx"
        by (cases api) (auto simp: is_ignored_item_def)
      with Cons.prems(3) have "root_reason v err"
        by (force simp: root_reason_def original_reason_def list_ex_iff)
      with Cons.IH[of "imap_insert (Api_name api) err m"] Cons.prems api show ?thesis
        by (auto split: if_splits)
    next
      case False
      with Cons show ?thesis by (cases api) (simp_all add: is_ignored_item_def)
    qed
  qed simp
  from this[of "apis v" "[]"] show "map_of (initial_reasons v) d = Some r \<Longrightarrow> root_reason v r"
    by (simp add: initial_reasons_def)
qed

lemma original_explained: "api \<in> set (apis v) \<Longrightarrow> well_explained v api"
  by (cases api) (force simp: well_explained_def root_reason_def original_reason_def list_ex_iff)+

text \<open>
  No explanation is buried. Whatever a discarded item is said to have been discarded for, the
  reason it hands on is either that of an item that was ignored to begin with or that of a type
  nobody declares, and never that of an item discarded in between, however long the chain.
\<close>

theorem explanations_name_the_root:
  assumes "apivec_wf v"
  shows "\<exists>v'. filter_apis_by_ignored_dependents db v = Some v' \<and> list_all (well_explained v) (apis v')"
proof -
  let ?P = "\<lambda>(w, m). (\<forall>d r. map_of m d = Some r \<longrightarrow> root_reason v r) \<and> list_all (well_explained v) (apis w)"
  have start: "?P (v, initial_reasons v)"
    using initial_reasons_root original_explained by (simp add: list_all_iff)
  have keep: "?P t" if good: "good_round db v s" and "?P s"
    and round: "filter_round db (all_valid_types v) s = Some (t, again)" for s t again
  proof -
    obtain w m where s: "s = (w, m)" by fastforce
    from filter_round_returns[OF good[unfolded s]] round s obtain w' m' where
      t: "t = (w', m')" "filter_pass db (all_valid_types v) (apis w) m = (apis w', m', again)" by auto
    from filter_pass_explains[OF t(2), of v] \<open>?P s\<close> s t(1) show ?thesis by auto
  qed
  have "\<exists>s' t. run_rounds (filter_round db (all_valid_types v)) (v, initial_reasons v) = Some t \<and>
    good_round db v s' \<and> ?P s' \<and> filter_round db (all_valid_types v) s' = Some (t, False)"
    using good_start[OF collected.unique[OF assms]] start keep by (rule discard.rounds_keep[where P = ?P])
  then obtain s' t where
    runs: "run_rounds (filter_round db (all_valid_types v)) (v, initial_reasons v) = Some t"
    and good: "good_round db v s'" and P: "?P s'"
    and last: "filter_round db (all_valid_types v) s' = Some (t, False)" by blast
  from keep[OF good P last] runs show ?thesis
    by (cases t) (auto simp: filter_apis_by_ignored_dependents_def)
qed

text \<open>A type that could not be generated, a function of it, and a function that depends on the function.\<close>

definition sample_chain :: fn_phase_apis where
  "sample_chain =
     (let items = [Api_RustFn (sample_name ''g'') '''' [QualifiedName [''ns''] ''f''],
                   Api_RustFn (sample_name ''f'') '''' [QualifiedName [''ns''] ''T''],
                   Api_IgnoredItem (sample_name ''T'') Deleted None,
                   Api_Enum (sample_name ''E'') \<lparr>ie_ident = ''E'', ie_variants = [], ie_tokens = ''''\<rparr>]
      in \<lparr>apis = items, names = map Api_name items\<rparr>)"

lemma sample_chain_wf: "apivec_wf sample_chain"
  by (simp add: apivec_wf_def sample_chain_def Api_name_def stub_ok_def is_displaced_function_def
      sample_name_def new_from_qualified_name_def new_from_qualified_name_and_cpp_name_def Let_def)

lemma sample_chain_doomed:
  "doomed db sample_chain (QualifiedName [''ns''] ''f'')" "doomed db sample_chain (QualifiedName [''ns''] ''g'')"
proof -
  have named: "Api_name (Api_RustFn (sample_name i) tokens ds) = QualifiedName [''ns''] i"
    "Api_name (Api_IgnoredItem (sample_name i) err ctx) = QualifiedName [''ns''] i" for i tokens ds err ctx
    by (simp_all add: Api_name_def sample_name_def new_from_qualified_name_def
        new_from_qualified_name_and_cpp_name_def)
  have items: "Api_IgnoredItem (sample_name ''T'') Deleted None \<in> set (apis sample_chain)"
    "Api_RustFn (sample_name ''f'') '''' [QualifiedName [''ns''] ''T''] \<in> set (apis sample_chain)"
    "Api_RustFn (sample_name ''g'') '''' [QualifiedName [''ns''] ''f''] \<in> set (apis sample_chain)"
    by (simp_all add: sample_chain_def Let_def)
  have t: "doomed db sample_chain (QualifiedName [''ns''] ''T'')"
    using doomed.ignored[OF items(1), of db] by (simp add: is_ignored_item_def named)
  show f: "doomed db sample_chain (QualifiedName [''ns''] ''f'')"
    using doomed.depends[OF items(2) _ t] by (simp add: deps_def named)
  show "doomed db sample_chain (QualifiedName [''ns''] ''g'')"
    using doomed.depends[OF items(3) _ f] by (simp add: deps_def named)
qed

lemma discards_exactly_the_doomed_witness:
  "\<exists>v'. filter_apis_by_ignored_dependents empty_database sample_chain = Some v' \<and>
     length (apis v') = 4 \<and> is_ignored_item (apis v' ! 0) \<and> is_ignored_item (apis v' ! 1)"
proof -
  from discards_exactly_the_doomed[OF sample_chain_wf, of empty_database] obtain v' where
    run: "filter_apis_by_ignored_dependents empty_database sample_chain = Some v'"
    and pairs: "list_all2 (\<lambda>api api'. Api_name api' = Api_name api \<and>
       (if doomed empty_database sample_chain (Api_name api) then is_ignored_item api' else api' = api))
       (apis sample_chain) (apis v')" by blast
  have four: "length (apis sample_chain) = 4" by (simp add: sample_chain_def Let_def)
  have "Api_name (apis sample_chain ! 0) = QualifiedName [''ns''] ''g''"
    "Api_name (apis sample_chain ! 1) = QualifiedName [''ns''] ''f''"
    by (simp_all add: sample_chain_def Let_def Api_name_def sample_name_def new_from_qualified_name_def
        new_from_qualified_name_and_cpp_name_def)
  with pairs four sample_chain_doomed[of empty_database] have "is_ignored_item (apis v' ! 0)"
    "is_ignored_item (apis v' ! 1)" "length (apis v') = 4"
    by (auto simp: list_all2_conv_all_nth)
  with run show ?thesis by blast
qed

lemma explanations_name_the_root_witness:
  "\<exists>v'. filter_apis_by_ignored_dependents empty_database sample_chain = Some v' \<and>
     list_all (well_explained sample_chain) (apis v')"
  by (rule explanations_name_the_root[OF sample_chain_wf])

end
