(* ===== verification/Gc.thy ===== *)
theory Gc imports RemoveIgnored Config begin

text \<open>
  Which items are asked for and what they bring with them: the names a directive may use for an item
  (\<^verbatim>\<open>analysis/fun/mod.rs\<close>), the instantiations \<^verbatim>\<open>instantiable!\<close> names (\<^verbatim>\<open>analysis/tdef.rs\<close>) and the
  closure over dependencies (\<^verbatim>\<open>analysis/gc.rs\<close>). \<open>None\<close> stands for a panic; what the
  configuration remembers of its questions is threaded through.
\<close>

section \<open>The names an item answers to\<close>

definition name_for_allowlist :: "fn_phase \<Rightarrow> qualified_name" where
  "name_for_allowlist api =
     (case api of
        Api_Function name fn analysis \<Rightarrow>
          (case fa_kind analysis of
             FnKind_Method _ impl_for \<Rightarrow> impl_for
           | FnKind_TraitMethod _ impl_for _ \<Rightarrow> impl_for
           | FnKind_Function \<Rightarrow> QualifiedName_new (get_namespace (Api_name api)) (fc_ident fn))
      | Api_RustSubclassFn name subclass details \<Rightarrow> an_name (subclass_api_name subclass)
      | Api_IgnoredItem name err (Some ctx) \<Rightarrow>
          (case ctx of
             Method self_ty _ \<Rightarrow> QualifiedName_new (get_namespace (an_name name)) self_ty
           | Item idt \<Rightarrow> QualifiedName_new (get_namespace (an_name name)) idt
           | SanitizedItem lookup _ \<Rightarrow> QualifiedName_new (get_namespace (an_name name)) lookup)
      | _ \<Rightarrow> Api_name api)"

definition qualify :: "fn_phase \<Rightarrow> string \<Rightarrow> string" where
  "qualify api name = join ''::'' (get_namespace (Api_name api) @ [name])"

definition allowlist_names :: "fn_phase \<Rightarrow> (qualified_name, string) index_map \<Rightarrow> string list" where
  "allowlist_names api nested =
     nested_spellings nested (Api_name api) @ nested_spellings nested (name_for_allowlist api) @
     (case api of
        Api_Function name fn analysis \<Rightarrow>
          (case fa_kind analysis of
             FnKind_Function \<Rightarrow>
               qualify api (fa_rust_name analysis) #
               (case fc_original_name fn of
                  Some original_name \<Rightarrow> [qualify api (for_original_name_map original_name)]
                | None \<Rightarrow> [])
           | _ \<Rightarrow> [])
      | Api_IgnoredItem name err (Some ctx) \<Rightarrow>
          (case ctx of
             Item idt \<Rightarrow> [qualify api idt]
           | SanitizedItem lookup _ \<Rightarrow> [qualify api lookup]
           | Method _ _ \<Rightarrow> [])
      | _ \<Rightarrow> [])"

definition needs_cpp_codegen :: "fn_phase \<Rightarrow> bool" where
  "needs_cpp_codegen api =
     (case api of
        Api_Function name fn analysis \<Rightarrow>
          fa_cpp_wrapper analysis \<noteq> None \<and> fa_ignore_reason analysis = Inr () \<and> fa_externally_callable analysis
      | Api_StringConstructor name \<Rightarrow> True
      | Api_ConcreteType _ _ _ _ _ _ \<Rightarrow> True
      | Api_CType _ _ \<Rightarrow> True
      | Api_RustSubclassFn _ _ _ \<Rightarrow> True
      | Api_Subclass _ _ _ \<Rightarrow> True
      | Api_Struct name details analysis \<Rightarrow> pa_kind (pda_pod analysis) = Pod
      | _ \<Rightarrow> False)"

section \<open>Instantiations Rust may own\<close>

text \<open>\<^verbatim>\<open>str::trim\<close> over the whitespace of ASCII, and what follows the \<open>>\<close> that closes an open \<open><\<close>.\<close>

definition is_whitespace :: "char \<Rightarrow> bool" where
  "is_whitespace c \<longleftrightarrow> (of_char c :: nat) = 32 \<or> 9 \<le> (of_char c :: nat) \<and> (of_char c :: nat) \<le> 13"

definition trim :: "string \<Rightarrow> string" where
  "trim s = rev (dropWhile is_whitespace (rev (dropWhile is_whitespace s)))"

fun after_closing :: "nat \<Rightarrow> string \<Rightarrow> string option" where
  "after_closing depth [] = None"
| "after_closing depth (c # cs) =
     (if c = CHR ''<'' then after_closing (depth + 1) cs
      else if c = CHR ''>'' then
        (if depth - 1 = 0 then Some cs else after_closing (depth - 1) cs)
      else after_closing depth cs)"

text \<open>The outer option is the panic on a path with no segment.\<close>

definition instantiated_template :: "rust_type option \<Rightarrow> string \<Rightarrow> qualified_name option option" where
  "instantiated_template rs_definition cpp_definition =
     (case rs_definition of
        Some (Type_Path typ) \<Rightarrow> map_option Some (from_type_path typ)
      | _ \<Rightarrow>
          Some (case dropWhile (\<lambda>c. c \<noteq> CHR ''<'') cpp_definition of
                  [] \<Rightarrow> None
                | _ # arguments \<Rightarrow>
                    (case after_closing 1 arguments of
                       None \<Rightarrow> None
                     | Some rest \<Rightarrow>
                         if trim rest = [] then
                           Some (new_from_cpp_name (trim (takeWhile (\<lambda>c. c \<noteq> CHR ''<'') cpp_definition)))
                         else None)))"

definition instantiates_smart_pointer ::
    "include_cpp_config \<Rightarrow> rust_type option \<Rightarrow> string \<Rightarrow> bool option" where
  "instantiates_smart_pointer config rs_definition cpp_definition =
     map_option (\<lambda>found. case found of
                    Some template \<Rightarrow> is_smart_pointer_template config (to_cpp_name template)
                  | None \<Rightarrow> False)
       (instantiated_template rs_definition cpp_definition)"

record concrete_instantiation =
  ci_cpp_definition :: string
  ci_can_be_instantiable :: bool

fun concrete_loop ::
    "include_cpp_config \<Rightarrow> ('td, 'st, 'fn, 'sub) api list \<Rightarrow>
     (qualified_name, concrete_instantiation) index_map \<Rightarrow>
     (qualified_name, concrete_instantiation) index_map option" where
  "concrete_loop config [] concrete = Some concrete"
| "concrete_loop config (Api_ConcreteType name rs_definition cpp_definition holder ds alias # rest) concrete =
     (case (if holder = None
            then map_option Not (instantiates_smart_pointer config rs_definition cpp_definition)
            else Some False) of
        None \<Rightarrow> None
      | Some can_be \<Rightarrow>
          concrete_loop config rest
            (imap_insert (an_name name)
               \<lparr>ci_cpp_definition = cpp_definition, ci_can_be_instantiable = can_be\<rparr> concrete))"
| "concrete_loop config (api # rest) concrete = concrete_loop config rest concrete"

text \<open>Every spelling is asked about, so that each directive that names the type notes its match.\<close>

fun named_by ::
    "(include_cpp_config \<Rightarrow> string \<Rightarrow> bool \<times> include_cpp_config) \<Rightarrow> string list \<Rightarrow> include_cpp_config \<Rightarrow>
     bool \<times> include_cpp_config" where
  "named_by ask [] config = (False, config)"
| "named_by ask (spelling # rest) config =
     (let (answer, config) = ask config spelling; (named, config) = named_by ask rest config
      in (answer \<or> named, config))"

record instantiable_state =
  is_config :: include_cpp_config
  is_instantiable_types :: "qualified_name list"
  is_blocked :: "qualified_name list"

definition consider_type ::
    "qualified_name \<Rightarrow> string list \<Rightarrow> bool \<Rightarrow> instantiable_state \<Rightarrow> instantiable_state" where
  "consider_type target spellings can_be s =
     (let (wanted, config) = named_by is_instantiable spellings (is_config s);
          (unwanted, config) = named_by is_on_constructor_blocklist spellings config
      in \<lparr>is_config = config,
          is_instantiable_types =
            (if wanted \<and> can_be then iset_insert target (is_instantiable_types s)
             else is_instantiable_types s),
          is_blocked = (if unwanted then iset_insert target (is_blocked s) else is_blocked s)\<rparr>)"

definition instantiable_concrete_types ::
    "include_cpp_config \<Rightarrow> (typedef_analysis, 'st, 'fn, 'sub) api_vec \<Rightarrow>
     (qualified_name list \<times> include_cpp_config) option" where
  "instantiable_concrete_types config v =
     (case concrete_loop config (apis v) [] of
        None \<Rightarrow> None
      | Some [] \<Rightarrow> Some ([], config)
      | Some concrete \<Rightarrow>
          (case typedef_targets v of
             None \<Rightarrow> None
           | Some targets \<Rightarrow>
               let nested = nested_cpp_names (map name_info (apis v));
                   s = fold (\<lambda>(name, c). consider_type name
                               (nested_spellings nested name @ [ci_cpp_definition c])
                               (ci_can_be_instantiable c))
                         concrete
                         \<lparr>is_config = config, is_instantiable_types = [], is_blocked = []\<rparr>;
                   s = fold (\<lambda>api s.
                               case api of
                                 Api_Typedef name item old_tyname analysis \<Rightarrow>
                                   (let target = resolve_typedefs targets (an_name name) in
                                    case map_of concrete target of
                                      Some c \<Rightarrow> consider_type target (nested_spellings nested (an_name name))
                                                  (ci_can_be_instantiable c) s
                                    | None \<Rightarrow> s)
                               | _ \<Rightarrow> s)
                         (apis v) s
               in Some (filter (\<lambda>name. name \<notin> set (is_blocked s)) (is_instantiable_types s), is_config s)))"

section \<open>Following dependencies\<close>

fun roots_loop ::
    "(include_cpp_config \<Rightarrow> nat) \<Rightarrow> include_cpp_config \<Rightarrow> (qualified_name, string) index_map \<Rightarrow>
     qualified_name list \<Rightarrow> fn_phase list \<Rightarrow> qualified_name list option" where
  "roots_loop get_hash config nested wanted [] = Some []"
| "roots_loop get_hash config nested wanted (api # rest) =
     (case any_option (is_on_allowlist get_hash config) (allowlist_names api nested) of
        None \<Rightarrow> None
      | Some listed \<Rightarrow>
          map_option (\<lambda>names. if listed \<or> name_for_allowlist api \<in> set wanted then Api_name api # names else names)
            (roots_loop get_hash config nested wanted rest))"

fun group_by_name ::
    "fn_phase list \<Rightarrow> (qualified_name, fn_phase_apis) index_map \<Rightarrow>
     (qualified_name, fn_phase_apis) index_map option" where
  "group_by_name [] by_typename = Some by_typename"
| "group_by_name (api # rest) by_typename =
     (case apivec_push (case map_of by_typename (Api_name api) of Some v \<Rightarrow> v | None \<Rightarrow> ApiVec_new) api of
        None \<Rightarrow> None
      | Some v \<Rightarrow> group_by_name rest (imap_insert (Api_name api) v by_typename))"

function gc_loop ::
    "qualified_name list \<Rightarrow> (qualified_name, fn_phase_apis) index_map \<Rightarrow> qualified_name list \<Rightarrow>
     fn_phase_apis \<Rightarrow> fn_phase_apis option" where
  "gc_loop [] by_typename don output = Some output"
| "gc_loop (todo # todos) by_typename don output =
     (if todo \<in> set don then gc_loop todos by_typename don output
      else case map_of by_typename todo of
        Some these_apis \<Rightarrow>
          (case apivec_append output these_apis of
             None \<Rightarrow> None
           | Some output' \<Rightarrow>
               gc_loop (todos @ concat (map deps (apis these_apis))) (AList.delete todo by_typename)
                 (iset_insert todo don) output')
      | None \<Rightarrow> gc_loop todos by_typename (iset_insert todo don) output)"
  by pat_completeness auto

lemma length_delete_present: "map_of m k \<noteq> None \<Longrightarrow> length (AList.delete k m) < length m"
proof (induction m)
  case (Cons p m)
  have "length (AList.delete k m) \<le> length m" by (rule length_delete_le)
  with Cons show ?case by (auto simp: less_Suc_eq_le)
qed simp

termination gc_loop
  by (relation "(\<lambda>(todos, by_typename, don, output). length by_typename) <*mlex*>
        measure (\<lambda>(todos, by_typename, don, output). length todos)")
    (auto simp: wf_mlex mlex_prod_def intro: length_delete_present)

definition filter_apis_by_following_edges_from_allowlist ::
    "(include_cpp_config \<Rightarrow> nat) \<Rightarrow> include_cpp_config \<Rightarrow> fn_phase_apis \<Rightarrow>
     (fn_phase_apis \<times> include_cpp_config) option" where
  "filter_apis_by_following_edges_from_allowlist get_hash config v =
     (let nested = nested_cpp_names (map name_info (apis v)) in
      case instantiable_concrete_types config v of
        None \<Rightarrow> None
      | Some (wanted, config) \<Rightarrow>
          (case roots_loop get_hash config nested wanted (apis v) of
             None \<Rightarrow> None
           | Some todos \<Rightarrow>
               (case group_by_name (apis v) [] of
                  None \<Rightarrow> None
                | Some by_typename \<Rightarrow>
                    map_option (\<lambda>output. (output, config)) (gc_loop todos by_typename [] ApiVec_new))))"

section \<open>What is kept\<close>

text \<open>A name is reached where it is a root or something reached depends on it.\<close>

inductive reached :: "fn_phase list \<Rightarrow> qualified_name set \<Rightarrow> qualified_name \<Rightarrow> bool" for l roots where
  root: "n \<in> roots \<Longrightarrow> reached l roots n"
| dep: "reached l roots (Api_name api) \<Longrightarrow> api \<in> set l \<Longrightarrow> d \<in> set (deps api) \<Longrightarrow> reached l roots d"

text \<open>Items grouped by names that are unique: each group is its item alone.\<close>

definition single :: "fn_phase \<Rightarrow> fn_phase_apis" where
  "single api = apivec_insert ApiVec_new api"

lemma apis_single [simp]: "apis (single api) = [api]"
  by (simp add: single_def ApiVec_new_def)

abbreviation grouped :: "fn_phase list \<Rightarrow> (qualified_name, fn_phase_apis) index_map" where
  "grouped l \<equiv> map (\<lambda>api. (Api_name api, single api)) l"

lemma imap_insert_new: "k \<notin> fst ` set m \<Longrightarrow> imap_insert k v m = m @ [(k, v)]"
  by (induction m) auto

lemma group_unique:
  assumes "distinct (map Api_name (l0 @ l))"
  shows "group_by_name l (grouped l0) = Some (grouped (l0 @ l))"
  using assms
proof (induction l arbitrary: l0)
  case (Cons api l)
  have fresh: "Api_name api \<notin> fst ` set (grouped l0)" using Cons.prems by auto
  then have "map_of (grouped l0) (Api_name api) = None" by (simp add: map_of_eq_None_iff)
  moreover have "apivec_push ApiVec_new api = Some (single api)"
    by (subst apivec_push.simps) (simp add: already_contains_def ApiVec_new_def single_def)
  moreover have "distinct (map Api_name ((l0 @ [api]) @ l))" using Cons.prems by simp
  ultimately show ?case using Cons.IH[of "l0 @ [api]"] fresh by (simp add: imap_insert_new)
qed simp

text \<open>
  Between two turns of the loop: the items not yet output are still filed, what is output is done,
  everything done or to do is reached, and what an output item depends on is one or the other.
\<close>

definition gc_state ::
    "fn_phase list \<Rightarrow> qualified_name set \<Rightarrow> qualified_name list \<Rightarrow> fn_phase list \<Rightarrow>
     qualified_name list \<Rightarrow> fn_phase_apis \<Rightarrow> bool" where
  "gc_state l roots todos waiting don output \<longleftrightarrow>
     set l = set (apis output) \<union> set waiting \<and> distinct (map Api_name (apis output @ waiting)) \<and>
     names output = map Api_name (apis output) \<and>
     Api_name ` set (apis output) \<subseteq> set don \<and> Api_name ` set waiting \<inter> set don = {} \<and>
     roots \<subseteq> set don \<union> set todos \<and> (\<forall>n \<in> set don \<union> set todos. reached l roots n) \<and>
     (\<forall>api \<in> set (apis output). set (deps api) \<subseteq> set don \<union> set todos)"

lemma append_single:
  assumes "names output = map Api_name (apis output)" and "Api_name api \<notin> Api_name ` set (apis output)"
  shows "apivec_append output (single api) = Some (apivec_insert output api)"
  using assms by (simp add: apivec_append_def apivec_push.simps already_contains_def)

lemma delete_grouped: "AList.delete n (grouped l) = grouped (filter (\<lambda>api. Api_name api \<noteq> n) l)"
  by (induction l) auto

text \<open>The turn that outputs an item.\<close>

lemma gc_state_take:
  assumes state: "gc_state l roots (todo # rest) waiting don output" and api: "api \<in> set waiting" "Api_name api = todo"
  shows "gc_state l roots (rest @ deps api) (filter (\<lambda>a. Api_name a \<noteq> todo) waiting) (iset_insert todo don)
    (apivec_insert output api)"
proof -
  from state have names: "names output = map Api_name (apis output)"
    and uniq: "distinct (map Api_name (apis output @ waiting))"
    and all: "set l = set (apis output) \<union> set waiting"
    and reach: "\<forall>n \<in> set don \<union> set (todo # rest). reached l roots n"
    and out: "Api_name ` set (apis output) \<subseteq> set don" and inp: "Api_name ` set waiting \<inter> set don = {}"
    and roots: "roots \<subseteq> set don \<union> set (todo # rest)"
    and needs: "\<forall>a \<in> set (apis output). set (deps a) \<subseteq> set don \<union> set (todo # rest)"
    by (simp_all add: gc_state_def)
  have only: "a = api" if "a \<in> set waiting" "Api_name a = todo" for a
    using uniq that api by (auto simp: distinct_map dest: inj_onD)
  have fresh: "todo \<notin> Api_name ` set (apis output)" using uniq api by (auto simp: image_iff)
  have w: "set waiting = insert api (set (filter (\<lambda>a. Api_name a \<noteq> todo) waiting))"
    unfolding set_filter using only api by blast
  have "set l = set (apis (apivec_insert output api)) \<union> set (filter (\<lambda>a. Api_name a \<noteq> todo) waiting)"
    unfolding all w apis_insert by simp
  moreover have "distinct (map Api_name (apis (apivec_insert output api) @ filter (\<lambda>a. Api_name a \<noteq> todo) waiting))"
    using uniq api by (auto simp: distinct_map_filter image_iff)
  moreover have "names (apivec_insert output api) = map Api_name (apis (apivec_insert output api))"
    using names fresh api(2) by (simp add: apivec_insert_def iset_insert_def)
  moreover have "Api_name ` set (apis (apivec_insert output api)) \<subseteq> set (iset_insert todo don)"
    using out api(2) by auto
  moreover have "Api_name ` set (filter (\<lambda>a. Api_name a \<noteq> todo) waiting) \<inter> set (iset_insert todo don) = {}"
    using inp by auto
  moreover have "roots \<subseteq> set (iset_insert todo don) \<union> set (rest @ deps api)" using roots by auto
  moreover have "reached l roots d" if "d \<in> set (deps api)" for d
    using reached.dep[OF _ _ that] reach api all by auto
  then have "\<forall>n \<in> set (iset_insert todo don) \<union> set (rest @ deps api). reached l roots n"
    using reach by auto
  moreover have "\<forall>a \<in> set (apis (apivec_insert output api)).
      set (deps a) \<subseteq> set (iset_insert todo don) \<union> set (rest @ deps api)"
    using needs by auto
  ultimately show ?thesis unfolding gc_state_def by blast
qed

lemma gc_loop_state:
  assumes "gc_state l roots todos waiting don outp" and "by_typename = grouped waiting"
  shows "\<exists>out waiting' don'. gc_loop todos by_typename don outp = Some out \<and>
    gc_state l roots [] waiting' don' out"
  using assms
proof (induction todos by_typename don outp arbitrary: waiting rule: gc_loop.induct)
  case (2 todo todos by_typename don outp)
  show ?case
  proof (cases "todo \<in> set don")
    case True
    have "gc_state l roots todos waiting don outp"
      using 2(4) True by (auto simp: gc_state_def)
    from 2(1)[OF True this 2(5)] True show ?thesis by simp
  next
    case fresh: False
    show ?thesis
    proof (cases "\<exists>api \<in> set waiting. Api_name api = todo")
      case False
      then have none: "map_of by_typename todo = None" by (auto simp: map_of_eq_None_iff 2(5))
      moreover have "gc_state l roots todos waiting (iset_insert todo don) outp"
        using 2(4) False by (auto simp: gc_state_def)
      ultimately show ?thesis using 2(2)[OF fresh none _ 2(5)] fresh by simp
    next
      case True
      then obtain api where api: "api \<in> set waiting" "Api_name api = todo" by blast
      have uniq: "distinct (map Api_name waiting)" "names outp = map Api_name (apis outp)"
        "Api_name api \<notin> Api_name ` set (apis outp)"
        using 2(4) api by (auto simp: gc_state_def image_iff)
      have some: "map_of by_typename todo = Some (single api)"
        using uniq(1) api unfolding 2(5) by (intro map_of_is_SomeI) (auto simp: comp_def)
      note put = append_single[OF uniq(2,3)]
      have "gc_state l roots (todos @ concat (map deps (apis (single api))))
          (filter (\<lambda>a. Api_name a \<noteq> todo) waiting) (iset_insert todo don) (apivec_insert outp api)"
        using gc_state_take[OF 2(4) api] by simp
      from 2(3)[OF fresh some put this] show ?thesis
        using fresh some put by (simp add: 2(5) delete_grouped)
    qed
  qed
qed auto

lemma gc_state_end:
  assumes "gc_state l roots [] waiting don out"
  shows "set (apis out) = {api \<in> set l. reached l roots (Api_name api)}"
proof -
  from assms have l: "set l = set (apis out) \<union> set waiting" and outs: "Api_name ` set (apis out) \<subseteq> set don"
    and unseen: "Api_name ` set waiting \<inter> set don = {}" and roots: "roots \<subseteq> set don"
    and reach: "\<forall>n \<in> set don. reached l roots n"
    and needs: "\<forall>api \<in> set (apis out). set (deps api) \<subseteq> set don"
    by (simp_all add: gc_state_def)
  have "n \<in> set don" if "reached l roots n" for n
    using that
  proof induction
    case (root n)
    with roots show ?case by blast
  next
    case (dep api d)
    with l unseen have "api \<in> set (apis out)" by blast
    with dep needs show ?case by blast
  qed
  with l outs unseen reach show ?thesis by blast
qed

text \<open>Items the closure starts from.\<close>

definition asked_for ::
    "(include_cpp_config \<Rightarrow> nat) \<Rightarrow> include_cpp_config \<Rightarrow> qualified_name list \<Rightarrow> fn_phase list \<Rightarrow> fn_phase \<Rightarrow> bool" where
  "asked_for get_hash config wanted l api \<longleftrightarrow>
     any_option (is_on_allowlist get_hash config) (allowlist_names api (nested_cpp_names (map name_info l))) = Some True \<or>
     name_for_allowlist api \<in> set wanted"

lemma roots_loop_names:
  "roots_loop get_hash config nested wanted l = Some todos \<Longrightarrow>
     todos = map Api_name (filter (\<lambda>api.
       any_option (is_on_allowlist get_hash config) (allowlist_names api nested) = Some True \<or>
       name_for_allowlist api \<in> set wanted) l)"
proof (induction l arbitrary: todos)
  case (Cons api l)
  then obtain listed todos' where
    listed: "any_option (is_on_allowlist get_hash config) (allowlist_names api nested) = Some listed"
    and rest: "roots_loop get_hash config nested wanted l = Some todos'"
    by (cases "any_option (is_on_allowlist get_hash config) (allowlist_names api nested)") auto
  from Cons.prems listed rest
  have "todos = (if listed \<or> name_for_allowlist api \<in> set wanted then Api_name api # todos' else todos')" by simp
  with Cons.IH[OF rest] listed show ?case by simp
qed simp

lemma allowed_is_known:
  assumes "\<not> (\<exists>l. cfg_allowlist config = Unspecified l)"
  shows "is_on_allowlist get_hash config cpp_name \<noteq> None"
  using assms by (cases "cfg_allowlist config") (auto simp: is_on_allowlist_def)

lemma any_option_known: "(\<And>x. x \<in> set l \<Longrightarrow> p x \<noteq> None) \<Longrightarrow> any_option p l \<noteq> None"
  by (induction l) (auto split: option.splits bool.splits)

lemma roots_loop_returns:
  assumes "\<not> (\<exists>l. cfg_allowlist config = Unspecified l)"
  shows "roots_loop get_hash config nested wanted l \<noteq> None"
proof (induction l)
  case (Cons api l)
  have "any_option (is_on_allowlist get_hash config) (allowlist_names api nested) \<noteq> None"
    by (rule any_option_known) (rule allowed_is_known[OF assms])
  with Cons show ?case by auto
qed simp

section \<open>Properties\<close>

text \<open>What collecting comes to, once the roots are known.\<close>

lemma gc_run:
  assumes "distinct (map Api_name (apis v))" and "instantiable_concrete_types config v = Some (wanted, config')"
    and "roots_loop get_hash config' (nested_cpp_names (map name_info (apis v))) wanted (apis v) = Some todos"
  obtains out where "filter_apis_by_following_edges_from_allowlist get_hash config v = Some (out, config')"
    "set (apis out) = {api \<in> set (apis v). reached (apis v) (set todos) (Api_name api)}"
    "distinct (map Api_name (apis out))" "names out = map Api_name (apis out)"
proof -
  have groups: "group_by_name (apis v) [] = Some (grouped (apis v))"
    using group_unique[of "[]" "apis v"] assms(1) by simp
  have "gc_state (apis v) (set todos) todos (apis v) [] ApiVec_new"
    using assms(1) by (auto simp: gc_state_def ApiVec_new_def intro: reached.root)
  from gc_loop_state[OF this refl] obtain out waiting' don' where
    out: "gc_loop todos (grouped (apis v)) [] ApiVec_new = Some out"
    and end_state: "gc_state (apis v) (set todos) [] waiting' don' out" by blast
  show thesis
  proof (rule that)
    show "filter_apis_by_following_edges_from_allowlist get_hash config v = Some (out, config')"
      by (simp add: filter_apis_by_following_edges_from_allowlist_def assms(2,3) groups out Let_def)
    show "set (apis out) = {api \<in> set (apis v). reached (apis v) (set todos) (Api_name api)}"
      using end_state by (rule gc_state_end)
    show "distinct (map Api_name (apis out))" "names out = map Api_name (apis out)"
      using end_state by (simp_all add: gc_state_def)
  qed
qed

lemma gc_returned:
  assumes "distinct (map Api_name (apis v))"
    and "filter_apis_by_following_edges_from_allowlist get_hash config v = Some (out, config')"
  obtains roots where "set (apis out) = {api \<in> set (apis v). reached (apis v) roots (Api_name api)}"
proof (cases "instantiable_concrete_types config v")
  case None
  with assms(2) show thesis by (simp add: filter_apis_by_following_edges_from_allowlist_def)
next
  case (Some wc)
  obtain wanted c where wc: "wc = (wanted, c)" by (cases wc)
  show thesis
  proof (cases "roots_loop get_hash c (nested_cpp_names (map name_info (apis v))) wanted (apis v)")
    case None
    with assms(2) Some wc show thesis by (simp add: filter_apis_by_following_edges_from_allowlist_def)
  next
    case (Some todos)
    obtain out' where "filter_apis_by_following_edges_from_allowlist get_hash config v = Some (out', c)"
      "set (apis out') = {api \<in> set (apis v). reached (apis v) (set todos) (Api_name api)}"
      by (rule gc_run[OF assms(1) \<open>instantiable_concrete_types config v = Some wc\<close>[unfolded wc] Some])
    with assms(2) that show thesis by auto
  qed
qed

text \<open>
  C14: the collector keeps exactly what is reached. Over a list of APIs with names of their own and an
  allowlist that has been settled, collecting ends without a panic; an item is in the output exactly
  where its name is reached by dependencies from an item a directive asked for, and each is there
  once.
\<close>

theorem keeps_exactly_the_reached:
  assumes "apivec_wf v" and "instantiable_concrete_types config v = Some (wanted, config')"
    and "\<not> (\<exists>l. cfg_allowlist config' = Unspecified l)"
  shows "\<exists>out. filter_apis_by_following_edges_from_allowlist get_hash config v = Some (out, config') \<and>
    set (apis out) = {api \<in> set (apis v).
       reached (apis v) (Api_name ` {api \<in> set (apis v). asked_for get_hash config' wanted (apis v) api})
         (Api_name api)} \<and>
    distinct (map Api_name (apis out))"
proof -
  obtain todos where todos: "roots_loop get_hash config' (nested_cpp_names (map name_info (apis v))) wanted (apis v) =
      Some todos" using roots_loop_returns[OF assms(3)] by blast
  have roots: "set todos = Api_name ` {api \<in> set (apis v). asked_for get_hash config' wanted (apis v) api}"
    using roots_loop_names[OF todos] by (simp add: asked_for_def)
  show ?thesis
    by (rule gc_run[OF collected.unique[OF assms(1)] assms(2) todos]) (auto simp: roots)
qed

lemma valid_type_owner:
  assumes "d \<in> set (all_valid_types v)"
  obtains x where "x \<in> set (apis v)" "\<not> is_ignored_item x" "d \<in> set (valid_types x)"
  using assms by (auto simp: all_valid_types_def)

text \<open>
  C20: nothing generated refers to what is not. After the items that depend on failures are discarded
  and what is not reached is collected, every dependency of every item left is a known type, the
  name of an item that is left and is no error marker, or one of the two C++ classes generated for a
  subclass.
\<close>

theorem no_dangling_dependency:
  assumes "apivec_wf v" and "filter_apis_by_ignored_dependents db v = Some v1"
    and "filter_apis_by_following_edges_from_allowlist get_hash config v1 = Some (out, config')"
    and "api \<in> set (apis out)" and "d \<in> set (deps api)"
  shows "is_known_type db d \<or>
    (\<exists>x \<in> set (apis out). Api_name x = d \<and> \<not> is_ignored_item x) \<or>
    (\<exists>x \<in> set (apis v). d \<in> set (valid_types x) \<and> d \<noteq> Api_name x)"
proof (cases "is_known_type db d")
  case False
  note unique = collected.unique[OF assms(1)]
  from doomed_are_discarded[OF unique, of db] assms(2) have pairs:
    "list_all2 (\<lambda>api api'. Api_name api' = Api_name api \<and>
       (if doomed db v (Api_name api) then is_ignored_item api' else api' = api)) (apis v) (apis v1)" by auto
  then have "map Api_name (apis v1) = map Api_name (apis v)"
    by (auto simp: list_all2_conv_all_nth intro: nth_equalityI)
  with unique have "distinct (map Api_name (apis v1))" by simp
  from gc_returned[OF this assms(3)] obtain roots where
    out: "set (apis out) = {api \<in> set (apis v1). reached (apis v1) roots (Api_name api)}" .
  with assms(4) have api: "api \<in> set (apis v1)" "reached (apis v1) roots (Api_name api)" by simp_all
  from assms(5) ignored_deps[of api] have live: "\<not> is_ignored_item api" by auto
  from pairs api(1) obtain old where "old \<in> set (apis v)" "Api_name api = Api_name old \<and>
    (if doomed db v (Api_name old) then is_ignored_item api else api = old)" by (rule list_all2_origin)
  with live have mem: "api \<in> set (apis v)" "\<not> doomed db v (Api_name api)" by (auto split: if_splits)
  from mem assms(5) False have valid: "d \<in> set (all_valid_types v)" "\<not> doomed db v d"
    by (auto intro: doomed.unknown doomed.depends)
  then obtain x where x: "x \<in> set (apis v)" "\<not> is_ignored_item x" "d \<in> set (valid_types x)"
    by (auto elim: valid_type_owner)
  show ?thesis
  proof (cases "d = Api_name x")
    case True
    from pairs x(1) obtain x' where "x' \<in> set (apis v1)"
      "Api_name x' = Api_name x \<and> (if doomed db v (Api_name x) then is_ignored_item x' else x' = x)"
      by (rule list_all2_image)
    with True valid(2) have "x \<in> set (apis v1)" by simp
    moreover have "reached (apis v1) roots d" using reached.dep[OF api(2,1) assms(5)] .
    ultimately show ?thesis using True x(2) out by auto
  next
    case False
    with x show ?thesis by blast
  qed
qed simp

text \<open>A function of an enum, both asked for by \<^verbatim>\<open>generate_all!\<close>.\<close>

definition sample_pair :: fn_phase_apis where
  "sample_pair =
     (let items = [Api_RustFn (sample_name ''f'') [] [QualifiedName [''ns''] ''E''],
                   Api_Enum (sample_name ''E'') \<lparr>ie_ident = ''E'', ie_variants = [], ie_tokens = []\<rparr>]
      in \<lparr>apis = items, names = map Api_name items\<rparr>)"

definition all_config :: include_cpp_config where
  "all_config = ns_only_config\<lparr>cfg_allowlist := All\<rparr>"

lemma sample_pair_wf: "apivec_wf sample_pair"
  by (simp add: apivec_wf_def sample_pair_def Api_name_def stub_ok_def is_displaced_function_def
      sample_name_def new_from_qualified_name_def new_from_qualified_name_and_cpp_name_def Let_def)

lemma sample_pair_instantiable: "apis v = apis sample_pair \<Longrightarrow>
    instantiable_concrete_types all_config v = Some ([], all_config)"
  by (simp add: instantiable_concrete_types_def sample_pair_def Let_def)

lemma keeps_exactly_the_reached_witness:
  "\<exists>out. filter_apis_by_following_edges_from_allowlist (\<lambda>_. 0) all_config sample_pair = Some (out, all_config) \<and>
     distinct (map Api_name (apis out))"
proof -
  have "\<not> (\<exists>l. cfg_allowlist all_config = Unspecified l)" by (simp add: all_config_def)
  from keeps_exactly_the_reached[OF sample_pair_wf sample_pair_instantiable[OF refl] this, of "\<lambda>_. 0"]
  show ?thesis by blast
qed

lemma all_config_asks: "any_option (is_on_allowlist get_hash all_config) (allowlist_names api nested) = Some True"
proof -
  have "is_on_allowlist get_hash all_config n = Some True" for n
    by (simp add: is_on_allowlist_def all_config_def)
  then show ?thesis by (simp add: allowlist_names_def nested_spellings_def)
qed

lemma roots_of_all: "roots_loop get_hash all_config nested wanted l = Some (map Api_name l)"
  by (induction l) (simp_all add: all_config_asks)

lemma sample_pair_lives: "\<not> doomed db sample_pair n"
proof
  assume "doomed db sample_pair n"
  then show False
    by induction (auto simp: sample_pair_def is_ignored_item_def Let_def deps_def all_valid_types_def
        valid_types_def Api_name_def sample_name_def new_from_qualified_name_def
        new_from_qualified_name_and_cpp_name_def)
qed

lemma no_dangling_dependency_witness:
  "\<exists>v1 out. filter_apis_by_ignored_dependents empty_database sample_pair = Some v1 \<and>
     filter_apis_by_following_edges_from_allowlist (\<lambda>_. 0) all_config v1 = Some (out, all_config) \<and>
     (is_known_type empty_database (QualifiedName [''ns''] ''E'') \<or>
      (\<exists>x \<in> set (apis out). Api_name x = QualifiedName [''ns''] ''E'' \<and> \<not> is_ignored_item x) \<or>
      (\<exists>x \<in> set (apis sample_pair). QualifiedName [''ns''] ''E'' \<in> set (valid_types x) \<and>
         QualifiedName [''ns''] ''E'' \<noteq> Api_name x))"
proof -
  note unique = collected.unique[OF sample_pair_wf]
  from doomed_are_discarded[OF unique, of empty_database] obtain v1 where
    v1: "filter_apis_by_ignored_dependents empty_database sample_pair = Some v1"
    "list_all2 (\<lambda>api api'. Api_name api' = Api_name api \<and>
       (if doomed empty_database sample_pair (Api_name api) then is_ignored_item api' else api' = api))
       (apis sample_pair) (apis v1)" by blast
  then have same: "apis v1 = apis sample_pair"
    by (auto simp: sample_pair_lives list_all2_conv_all_nth intro: nth_equalityI)
  obtain out where
    out: "filter_apis_by_following_edges_from_allowlist (\<lambda>_. 0) all_config v1 = Some (out, all_config)"
    "set (apis out) = {api \<in> set (apis v1). reached (apis v1) (set (map Api_name (apis v1))) (Api_name api)}"
    using unique unfolding same[symmetric]
    by (rule gc_run[OF _ sample_pair_instantiable[OF same] roots_of_all])
  let ?f = "Api_RustFn (sample_name ''f'') [] [QualifiedName [''ns''] ''E'']"
  have f: "?f \<in> set (apis v1)" by (simp add: same sample_pair_def Let_def)
  then have "?f \<in> set (apis out)" by (auto simp: out(2) intro: reached.root)
  from no_dangling_dependency[OF sample_pair_wf v1(1) out(1) this, of "QualifiedName [''ns''] ''E''"]
  show ?thesis using v1(1) out(1) by (simp add: deps_def)
qed


end
