(* ===== verification/FnAnalyzer.thy ===== *)
theory FnAnalyzer imports MemberImports PodAnalysis ConversionFacts Gc begin

text \<open>
  What the analysis of functions keeps (\<^verbatim>\<open>FnAnalyzer\<close> of \<^verbatim>\<open>analysis/fun/mod.rs\<close>): the maps it
  builds from the list of APIs before the first function is looked at, the names it reserves, and the
  steps every later part takes on that state. A step gives an error or a value with the state as it is
  left, or \<open>None\<close>, which is a panic or the fuel of the type converter having run out. The
  configuration, which remembers the directives it was asked about, is the type converter's. What
  \<^verbatim>\<open>syn\<close> takes for an identifier is the argument \<open>ok\<close>.
\<close>

section \<open>The state\<close>

record fn_analyzer =
  fz_unsafe_policy :: unsafe_policy
  fz_extra_apis :: "(unit, unit, unit, unit) api_vec"
  fz_type_converter :: type_converter
  fz_bridge_name_tracker :: bridge_name_tracker
  fz_pod_safe_types :: "qualified_name list"
  fz_moveit_safe_types :: "qualified_name list"
  fz_overload_trackers_by_mod :: overload_trackers
  fz_subclasses_by_superclass :: "(qualified_name, subclass_name list) index_map"
  fz_nested_type_name_map :: "(qualified_name, string) index_map"
  fz_nested_cpp_names :: "(qualified_name, string) index_map"
  fz_generic_types :: "qualified_name list"
  fz_instantiable_concrete_types :: "qualified_name list"
  fz_types_in_anonymous_namespace :: "qualified_name list"
  fz_existing_superclass_trait_api_names :: "qualified_name list"
  fz_cpp_names_taken_on_peer_classes :: "string list"
  fz_using_declarations_by_base :: "(qualified_name, imported_member list) index_map"
  fz_ancestry :: ancestry_map
  fz_scoped_enums :: "qualified_name list"
  fz_enums :: "qualified_name list"
  fz_template_member_functions :: "(qualified_name, template_member_function list) index_map"
  fz_member_function_templates :: "(qualified_name, member_function_template list) index_map"
  fz_operators :: "(qualified_name, conversion_function list \<times> call_operator list) index_map"
  fz_force_wrapper_generation :: bool

definition fz_config :: "fn_analyzer \<Rightarrow> include_cpp_config" where
  "fz_config me = tc_config (fz_type_converter me)"

definition set_fz_config :: "include_cpp_config \<Rightarrow> fn_analyzer \<Rightarrow> fn_analyzer" where
  "set_fz_config config me = me\<lparr>fz_type_converter := (fz_type_converter me)\<lparr>tc_config := config\<rparr>\<rparr>"

section \<open>Steps\<close>

type_synonym 'a fz = "fn_analyzer \<Rightarrow> ((convert_error, 'a) result \<times> fn_analyzer) option"

definition fz_return :: "'a \<Rightarrow> 'a fz" where
  "fz_return x = (\<lambda>me. Some (Inr x, me))"

definition fz_throw :: "convert_error \<Rightarrow> 'a fz" where
  "fz_throw e = (\<lambda>me. Some (Inl e, me))"

definition fz_bind :: "'a fz \<Rightarrow> ('a \<Rightarrow> 'b fz) \<Rightarrow> 'b fz" where
  "fz_bind m f = (\<lambda>me. case m me of
     None \<Rightarrow> None
   | Some (Inl e, me) \<Rightarrow> Some (Inl e, me)
   | Some (Inr x, me) \<Rightarrow> f x me)"

definition fz_unwrap :: "'a option \<Rightarrow> 'a fz" where
  "fz_unwrap x = (\<lambda>me. case x of None \<Rightarrow> None | Some y \<Rightarrow> Some (Inr y, me))"

definition fz_result :: "(convert_error, 'a) result \<Rightarrow> 'a fz" where
  "fz_result r = (\<lambda>me. Some (r, me))"

text \<open>A question that leaves the state alone, and may panic or be answered with an error.\<close>

definition fz_ask :: "(fn_analyzer \<Rightarrow> (convert_error, 'a) result option) \<Rightarrow> 'a fz" where
  "fz_ask f = (\<lambda>me. case f me of None \<Rightarrow> None | Some r \<Rightarrow> Some (r, me))"

text \<open>\<open>convert_boxed_type\<close>: the APIs the converter made up are kept for the end.\<close>

definition fz_convert_boxed_type :: "(string \<Rightarrow> bool) \<Rightarrow> nat \<Rightarrow> rust_type \<Rightarrow> namespace \<Rightarrow> rust_type annotated fz" where
  "fz_convert_boxed_type ok n ty ns = (\<lambda>me.
     case convert_boxed_type ok n ty ns OuterType (fz_type_converter me) of
       None \<Rightarrow> None
     | Some (Inl e, tc) \<Rightarrow> Some (Inl e, me\<lparr>fz_type_converter := tc\<rparr>)
     | Some (Inr annotated, tc) \<Rightarrow>
         map_option
           (\<lambda>extra. (Inr (annotated\<lparr>ann_extra_apis := ApiVec_new\<rparr>),
                     me\<lparr>fz_type_converter := tc, fz_extra_apis := extra\<rparr>))
           (apivec_append (fz_extra_apis me) (ann_extra_apis annotated)))"

section \<open>The maps built before the analysis\<close>

definition subclasses_by_superclass_map ::
    "('td, 'st, 'fn, 'sub) api list \<Rightarrow> (qualified_name, subclass_name list) index_map" where
  "subclasses_by_superclass_map l =
     fold (\<lambda>api m. case api of
             Api_Subclass name superclass analysis \<Rightarrow> imap_push superclass name m
           | _ \<Rightarrow> m) l []"

definition build_virtual_method_cpp_names :: "('td, 'st, 'fn, 'sub) api list \<Rightarrow> string list" where
  "build_virtual_method_cpp_names l =
     fold iset_insert
       (List.map_filter (\<lambda>api. case api of
           Api_Function name fn analysis \<Rightarrow>
             if fc_virtualness fn \<noteq> None then Some (cpp_call_name name) else None
         | _ \<Rightarrow> None) l) []"

definition build_correctly_sized_type_set :: "('td, 'st, 'fn, 'sub) api list \<Rightarrow> qualified_name list" where
  "build_correctly_sized_type_set l =
     fold iset_insert
       (map Api_name (filter (\<lambda>api. case api of
            Api_Struct name details analysis \<Rightarrow> True
          | Api_Enum name item \<Rightarrow> True
          | Api_ExternCppType name (path, opaque) pod \<Rightarrow> \<not> opaque
          | _ \<Rightarrow> False) l)
        @ get_moveit_safe_types known_types) []"

definition build_generic_type_set :: "('td, pod_analysis, 'fn, 'sub) api list \<Rightarrow> qualified_name list" where
  "build_generic_type_set l =
     fold iset_insert
       (List.map_filter (\<lambda>api. case api of
           Api_Struct name details analysis \<Rightarrow>
             if pa_num_generics analysis > 0 then Some (Api_name api) else None
         | _ \<Rightarrow> None) l) []"

definition build_types_in_anonymous_namespace :: "('td, pod_analysis, 'fn, 'sub) api list \<Rightarrow> qualified_name list" where
  "build_types_in_anonymous_namespace l =
     fold iset_insert
       (List.map_filter (\<lambda>api. case api of
           Api_Struct name details analysis \<Rightarrow>
             if pa_in_anonymous_namespace analysis then Some (Api_name api) else None
         | _ \<Rightarrow> None) l) []"

definition final_segment_if_any :: "cpp_effective_name \<Rightarrow> string option" where
  "final_segment_if_any n = map_option snd (split_at_last ''::'' (effective_name_string n))"

definition build_nested_type_map :: "('td, 'st, 'fn, 'sub) api list \<Rightarrow> (qualified_name, string) index_map" where
  "build_nested_type_map l =
     collect_map (\<lambda>api.
       let entry = (\<lambda>name. map_option (\<lambda>suffix. (an_name name, suffix))
                             (final_segment_if_any (ApiName_cpp_name name)))
       in case api of
            Api_Struct name details analysis \<Rightarrow> entry name
          | Api_Enum name item \<Rightarrow> entry name
          | _ \<Rightarrow> None) l"

definition enums_found :: "('td, 'st, 'fn, 'sub) api list \<Rightarrow> qualified_name list" where
  "enums_found l =
     fold iset_insert
       (List.map_filter (\<lambda>api. case api of Api_Enum name item \<Rightarrow> Some (an_name name) | _ \<Rightarrow> None) l) []"

definition find_scoped_enums ::
    "parse_callback_results \<Rightarrow> ('td, 'st, 'fn, 'sub) api list \<Rightarrow> qualified_name list option" where
  "find_scoped_enums p l = filter_option (is_scoped_enum p) (enums_found l)"

text \<open>The instantiations of class templates no smart pointer's surface was made up for.\<close>

definition plain_instantiation :: "('td, 'st, 'fn, 'sub) api \<Rightarrow> qualified_name option option" where
  "plain_instantiation api =
     (case api of
        Api_ConcreteType name rs_definition cpp_definition None ds incomplete \<Rightarrow>
          instantiated_template rs_definition cpp_definition
      | _ \<Rightarrow> Some None)"

text \<open>What is reported of the owners that are found, where there is anything.\<close>

fun reported_members ::
    "('a \<Rightarrow> qualified_name option option) \<Rightarrow> (qualified_name \<Rightarrow> 'b option) \<Rightarrow> 'a list \<Rightarrow>
     (qualified_name, 'b) index_map \<Rightarrow> (qualified_name, 'b) index_map option" where
  "reported_members owner_of report [] m = Some m"
| "reported_members owner_of report (x # xs) m =
     (case owner_of x of
        None \<Rightarrow> None
      | Some None \<Rightarrow> reported_members owner_of report xs m
      | Some (Some owner) \<Rightarrow>
          reported_members owner_of report xs
            (case report owner of Some r \<Rightarrow> imap_insert owner r m | None \<Rightarrow> m))"

definition unless_empty :: "'a list \<Rightarrow> 'a list option" where
  "unless_empty l = (if l = [] then None else Some l)"

definition build_template_member_functions ::
    "('td, 'st, 'fn, 'sub) api list \<Rightarrow> parse_callback_results \<Rightarrow>
     (qualified_name, template_member_function list) index_map option" where
  "build_template_member_functions l p =
     reported_members plain_instantiation (\<lambda>template. unless_empty (get_template_member_functions p template)) l []"

definition struct_owner :: "('td, 'st, 'fn, 'sub) api \<Rightarrow> qualified_name option" where
  "struct_owner api = (case api of Api_Struct name details analysis \<Rightarrow> Some (an_name name) | _ \<Rightarrow> None)"

definition build_member_function_templates ::
    "('td, 'st, 'fn, 'sub) api list \<Rightarrow> parse_callback_results \<Rightarrow>
     (qualified_name, member_function_template list) index_map option" where
  "build_member_function_templates l p =
     reported_members
       (\<lambda>api. case struct_owner api of Some owner \<Rightarrow> Some (Some owner) | None \<Rightarrow> plain_instantiation api)
       (\<lambda>owner. unless_empty (get_member_function_templates p owner)) l []"

definition build_operators ::
    "('td, 'st, 'fn, 'sub) api list \<Rightarrow> parse_callback_results \<Rightarrow>
     (qualified_name, conversion_function list \<times> call_operator list) index_map option" where
  "build_operators l p =
     reported_members (\<lambda>api. Some (struct_owner api))
       (\<lambda>owner. let conversions = get_conversion_functions p owner; calls = get_call_operators p owner
                in if conversions \<noteq> [] \<or> calls \<noteq> [] then Some (conversions, calls) else None) l []"

text \<open>The names every function would have alone are set aside before any of them is numbered.\<close>

definition ideal_name_request ::
    "(string \<Rightarrow> bool) \<Rightarrow> ('td, 'st, 'fn, 'sub) api \<Rightarrow> (namespace \<times> string option \<times> string) option" where
  "ideal_name_request ok api =
     (case api of
        Api_Function name fn analysis \<Rightarrow>
          Some (get_namespace (an_name name), map_option get_final_item (fc_self_ty fn),
                ideal_rust_name ok (fc_ident fn) (an_cpp_name name))
      | _ \<Rightarrow> None)"

definition tracker_in :: "overload_trackers \<Rightarrow> namespace \<Rightarrow> overload_tracker" where
  "tracker_in trackers ns = (case map_of trackers ns of Some t \<Rightarrow> t | None \<Rightarrow> OverloadTracker_default)"

definition reserve_ideal_names ::
    "(string \<Rightarrow> bool) \<Rightarrow> ('td, 'st, 'fn, 'sub) api list \<Rightarrow> overload_trackers \<Rightarrow> overload_trackers" where
  "reserve_ideal_names ok l trackers =
     fold (\<lambda>(ns, type_scope, bare) m. imap_insert ns (reserve (tracker_in m ns) type_scope bare) m)
       (List.map_filter (ideal_name_request ok) l) trackers"

text \<open>
  The analyzer as \<open>analyze_functions\<close> sets it up. The directives that name instantiable types are
  marked in the configuration after the converter has looked at it.
\<close>

definition FnAnalyzer_new ::
    "(string \<Rightarrow> bool) \<Rightarrow> nat \<Rightarrow> pod_phase_apis \<Rightarrow> unsafe_policy \<Rightarrow> include_cpp_config \<Rightarrow>
     parse_callback_results \<Rightarrow> bool \<Rightarrow> fn_analyzer option" where
  "FnAnalyzer_new ok n v unsafe_policy config p force_wrapper_generation =
     (let l = apis v; ancestry = build_ancestry l in
      Option.bind (find_scoped_enums p l) (\<lambda>scoped_enums.
      Option.bind (TypeConverter_new n config typedef_analysis_target v p) (\<lambda>type_converter.
      Option.bind (pod_safe_types l) (\<lambda>pod_safe.
      Option.bind (instantiable_concrete_types config v) (\<lambda>(instantiable_types, config).
      Option.bind (build_template_member_functions l p) (\<lambda>template_members.
      Option.bind (build_member_function_templates l p) (\<lambda>member_templates.
      Option.bind (build_operators l p) (\<lambda>operators.
      Some \<lparr>fz_unsafe_policy = unsafe_policy,
            fz_extra_apis = ApiVec_new,
            fz_type_converter = type_converter\<lparr>tc_config := config\<rparr>,
            fz_bridge_name_tracker = [],
            fz_pod_safe_types = pod_safe,
            fz_moveit_safe_types = build_correctly_sized_type_set l,
            fz_overload_trackers_by_mod = reserve_ideal_names ok l [],
            fz_subclasses_by_superclass = subclasses_by_superclass_map l,
            fz_nested_type_name_map = build_nested_type_map l,
            fz_nested_cpp_names = nested_cpp_names (map name_info l),
            fz_generic_types = build_generic_type_set l,
            fz_instantiable_concrete_types = instantiable_types,
            fz_types_in_anonymous_namespace = build_types_in_anonymous_namespace l,
            fz_existing_superclass_trait_api_names = [],
            fz_cpp_names_taken_on_peer_classes = build_virtual_method_cpp_names l,
            fz_using_declarations_by_base = build_using_declarations_by_base l ancestry,
            fz_ancestry = ancestry,
            fz_scoped_enums = scoped_enums,
            fz_enums = enums_found l,
            fz_template_member_functions = template_members,
            fz_member_function_templates = member_templates,
            fz_operators = operators,
            fz_force_wrapper_generation = force_wrapper_generation\<rparr>))))))))"

definition subclasses_by_superclass :: "fn_analyzer \<Rightarrow> qualified_name \<Rightarrow> subclass_name list" where
  "subclasses_by_superclass me super =
     (case map_of (fz_subclasses_by_superclass me) super of Some subs \<Rightarrow> subs | None \<Rightarrow> [])"

section \<open>Names of functions\<close>

definition get_cxx_bridge_name :: "string option \<Rightarrow> string \<Rightarrow> namespace \<Rightarrow> fn_analyzer \<Rightarrow> string \<times> fn_analyzer" where
  "get_cxx_bridge_name type_name found_name ns me =
     (case get_unique_cxx_bridge_name (fz_bridge_name_tracker me) type_name found_name ns of
        (name, tracker) \<Rightarrow> (name, me\<lparr>fz_bridge_name_tracker := tracker\<rparr>))"

definition fz_get_overload_name ::
    "namespace \<Rightarrow> string \<Rightarrow> string \<Rightarrow> string option \<Rightarrow> fn_analyzer \<Rightarrow> ((string \<times> nat option) \<times> fn_analyzer) option" where
  "fz_get_overload_name ns type_ident rust_name cpp_declared_name me =
     map_option (\<lambda>(answer, trackers). (answer, me\<lparr>fz_overload_trackers_by_mod := trackers\<rparr>))
       (get_overload_name (fz_overload_trackers_by_mod me) ns type_ident rust_name cpp_declared_name)"

definition get_function_overload_name ::
    "namespace \<Rightarrow> string \<Rightarrow> string option \<Rightarrow> fn_analyzer \<Rightarrow> ((string \<times> nat option) \<times> fn_analyzer) option" where
  "get_function_overload_name ns ideal_name cpp_declared_name me =
     map_option
       (\<lambda>(answer, t). (answer, me\<lparr>fz_overload_trackers_by_mod := imap_insert ns t (fz_overload_trackers_by_mod me)\<rparr>))
       (get_function_real_name (tracker_in (fz_overload_trackers_by_mod me) ns) ideal_name cpp_declared_name)"

section \<open>Directives and unsafety\<close>

text \<open>
  Whether a \<open>block!\<close> directive names the function: itself, or under each spelling of the class it
  is an ordinary method of. Every spelling is asked about, so that every directive that matches is
  marked as used.
\<close>

definition class_spellings :: "fn_analyzer \<Rightarrow> qualified_name \<Rightarrow> string \<Rightarrow> string list" where
  "class_spellings me cls item = map (\<lambda>spelling. spelling @ ''::'' @ item) (nested_spellings (fz_nested_cpp_names me) cls)"

definition blockable_spellings :: "fn_analyzer \<Rightarrow> fn_kind \<Rightarrow> qualified_name \<Rightarrow> string list" where
  "blockable_spellings me kind diagnostic_name =
     (case kind of
        FnKind_Function \<Rightarrow> [to_cpp_name diagnostic_name]
      | FnKind_Method (Constructor _) _ \<Rightarrow> []
      | FnKind_Method _ impl_for \<Rightarrow> class_spellings me impl_for (get_final_item diagnostic_name)
      | FnKind_TraitMethod _ _ _ \<Rightarrow> [])"

definition asking_config ::
    "(string list \<Rightarrow> include_cpp_config \<Rightarrow> bool \<times> include_cpp_config) \<Rightarrow> string list \<Rightarrow> fn_analyzer \<Rightarrow>
     bool \<times> fn_analyzer" where
  "asking_config ask spellings me =
     (case ask spellings (fz_config me) of (answer, config) \<Rightarrow> (answer, set_fz_config config me))"

definition is_blocked_by_directive :: "fn_kind \<Rightarrow> qualified_name \<Rightarrow> fn_analyzer \<Rightarrow> bool \<times> fn_analyzer" where
  "is_blocked_by_directive kind diagnostic_name me =
     asking_config (named_by is_on_function_blocklist) (blockable_spellings me kind diagnostic_name) me"

definition accumulate_unsafety :: "bool \<Rightarrow> argument_analysis \<Rightarrow> unsafety_needed \<Rightarrow> unsafety_needed" where
  "accumulate_unsafety ignore_placements pd accumulator =
     (if accumulator = Always then Always
      else if (aa_self_type pd \<noteq> None \<or> aa_is_placement_return_destination pd) \<and> ignore_placements then
        (if aa_requires_unsafe pd \<in> {Always, JustBridge} then JustBridge else accumulator)
      else if aa_requires_unsafe pd = Always then Always
      else if accumulator = JustBridge \<or> aa_requires_unsafe pd = JustBridge then JustBridge
      else Unsafety_None)"

definition from_param_details :: "argument_analysis list \<Rightarrow> bool \<Rightarrow> unsafety_needed" where
  "from_param_details params ignore_placements = fold (accumulate_unsafety ignore_placements) params Unsafety_None"

definition should_be_unsafe :: "unsafe_policy \<Rightarrow> argument_analysis list \<Rightarrow> fn_kind \<Rightarrow> unsafety_needed" where
  "should_be_unsafe unsafe_pol param_details kind =
     (let unsafest_non_placement_param = from_param_details param_details True;
          unsafest_param = from_param_details param_details False
      in case kind of
           FnKind_TraitMethod k _ _ \<Rightarrow>
             if k \<in> {Trait_CopyConstructor, Trait_MoveConstructor, Trait_Alloc, Trait_Dealloc} then Always
             else if unsafest_param = Always then JustBridge
             else unsafest_param
         | _ \<Rightarrow>
             if unsafe_pol = AllFunctionsUnsafe then Always
             else (case unsafest_non_placement_param of
                     Always \<Rightarrow> Always
                   | JustBridge \<Rightarrow>
                       if unsafest_param = Always then JustBridge else unsafest_non_placement_param
                   | Unsafety_None \<Rightarrow>
                       if unsafest_param = Always then JustBridge else unsafest_param))"

section \<open>What the state is for\<close>

text \<open>Reserving gives the trackers a name for each function, and no function has been named yet.\<close>

lemma reserved_by:
  "set (reserved_in (tracker_in (fold (\<lambda>(ns, type_scope, bare) m.
        imap_insert ns (reserve (tracker_in m ns) type_scope bare) m) rs trackers) ns) ty) =
     {bare. (ns, ty, bare) \<in> set rs} \<union> set (reserved_in (tracker_in trackers ns) ty)"
  by (induction rs arbitrary: trackers) (auto simp: tracker_in_def split: if_splits)

definition stands_apart :: "argument_analysis \<Rightarrow> bool" where
  "stands_apart pd \<longleftrightarrow> aa_self_type pd \<noteq> None \<or> aa_is_placement_return_destination pd"

lemma from_param_details_spec:
  "from_param_details params ignore_placements =
     (if \<exists>pd \<in> set params. aa_requires_unsafe pd = Always \<and> \<not> (ignore_placements \<and> stands_apart pd) then Always
      else if \<exists>pd \<in> set params. aa_requires_unsafe pd \<noteq> Unsafety_None then JustBridge
      else Unsafety_None)"
proof -
  have "fold (accumulate_unsafety ignore_placements) params acc =
     (if acc = Always \<or> (\<exists>pd \<in> set params. aa_requires_unsafe pd = Always \<and> \<not> (ignore_placements \<and> stands_apart pd))
      then Always
      else if acc = JustBridge \<or> (\<exists>pd \<in> set params. aa_requires_unsafe pd \<noteq> Unsafety_None) then JustBridge
      else Unsafety_None)" for acc
  proof (induction params arbitrary: acc)
    case (Cons pd params)
    show ?case unfolding fold_Cons comp_apply Cons.IH
      by (cases "aa_requires_unsafe pd"; cases acc; cases "stands_apart pd"; cases ignore_placements)
         (auto simp: accumulate_unsafety_def stands_apart_def)
  next
    case Nil
    show ?case by (cases acc) simp_all
  qed
  then show ?thesis by (simp add: from_param_details_def)
qed

text \<open>
  What makes a function unsafe. A function or method is unsafe to call exactly when the policy
  makes all functions so or a parameter that is neither the receiver nor the place a value is
  returned to is always unsafe; it is plainly safe exactly when the policy allows it and no parameter
  needs anything; in every other case only the bridge's own function is unsafe. Of the methods that
  implement a trait, those that construct or store are always unsafe, and no other is, whatever the
  policy.
\<close>

theorem unsafety_comes_from_parameters:
  "should_be_unsafe unsafe_pol params kind =
     (let needs_something = (\<exists>pd \<in> set params. aa_requires_unsafe pd \<noteq> Unsafety_None) in
      case kind of
        FnKind_TraitMethod k ty details \<Rightarrow>
          if k \<in> {Trait_CopyConstructor, Trait_MoveConstructor, Trait_Alloc, Trait_Dealloc} then Always
          else if needs_something then JustBridge else Unsafety_None
      | _ \<Rightarrow>
          if unsafe_pol = AllFunctionsUnsafe
            \<or> (\<exists>pd \<in> set params. aa_requires_unsafe pd = Always \<and> aa_self_type pd = None
                 \<and> \<not> aa_is_placement_return_destination pd) then Always
          else if needs_something then JustBridge else Unsafety_None)"
  by (cases kind) (auto simp: should_be_unsafe_def from_param_details_spec stands_apart_def Let_def)


section \<open>A sample\<close>

definition sample_converter :: type_converter where
  "sample_converter =
     \<lparr>tc_types_found = [QualifiedName [''ns''] ''Outer''], tc_typedefs = [], tc_concrete_templates = [],
      tc_forward_declarations = [], tc_instantiations_on_incomplete_types = [],
      tc_classes_we_may_not_destroy = [], tc_concrete_definitions = [], tc_alias_targets = [],
      tc_inner_types_required = [], tc_ignored_types = [], tc_deferred_surfaces = [],
      tc_config = nested_config, tc_original_name_map = new_for_analysis ([] :: unanalyzed_api list)\<rparr>"

definition sample_analyzer :: fn_analyzer where
  "sample_analyzer =
     \<lparr>fz_unsafe_policy = AllFunctionsSafe, fz_extra_apis = ApiVec_new, fz_type_converter = sample_converter,
      fz_bridge_name_tracker = [], fz_pod_safe_types = [], fz_moveit_safe_types = [QualifiedName [''ns''] ''Outer''],
      fz_overload_trackers_by_mod = [], fz_subclasses_by_superclass = [], fz_nested_type_name_map = [],
      fz_nested_cpp_names = [], fz_generic_types = [], fz_instantiable_concrete_types = [],
      fz_types_in_anonymous_namespace = [], fz_existing_superclass_trait_api_names = [],
      fz_cpp_names_taken_on_peer_classes = [], fz_using_declarations_by_base = [], fz_ancestry = [],
      fz_scoped_enums = [], fz_enums = [], fz_template_member_functions = [], fz_member_function_templates = [],
      fz_operators = [], fz_force_wrapper_generation = False\<rparr>"

definition sample_type :: rust_type where
  "sample_type = Type_Path (plain_path False [''output'', ''ns'', ''Outer''])"

abbreviation (input) sample_path :: type_path where
  "sample_path \<equiv> TypePath False False [PathSegment ''output'' PathArguments_None, PathSegment ''ns'' PathArguments_None,
     PathSegment ''Outer'' PathArguments_None]"

lemma sample_path_plain:
  "sample_type = Type_Path sample_path"
  "function_pointer sample_path OuterType = None"
  "from_type_path sample_path = Some outer_name"
  "is_va_list outer_name = False"
  "validate_ok_for_cxx (\<lambda>_. True) outer_name = Inr ()"
  "unwrap_const sample_path = None" "unwrap_volatile sample_path = None" "unwrap_has_opaque sample_path = None"
  "unwrap_long_double sample_path = None" "unwrap_float128 sample_path = None" "unwrap_bitfield sample_path = None"
  "unwrap_std_array sample_path = None" "unwrap_reference sample_path False = None"
  "unwrap_reference sample_path True = None"
  "has_generic_args sample_path = False"
  "tc_is_on_blocklist spelling sample_converter = Some (Inr False, sample_converter)"
  "resolve_typedef outer_name sample_converter = Some (Inr None, sample_converter)"
  "refuse_incomplete OuterType outer_name sample_converter = Some (Inr (), sample_converter)"
  by code_simp+

lemma sample_known:
  "cxx_generic_behavior known_types outer_name = Generic_Not" "should_dereference_in_cpp known_types outer_name = False"
  "is_known_type known_types outer_name = False" "consider_substitution known_types outer_name = None"
  by (simp_all add: cxx_generic_behavior_def should_dereference_in_cpp_def is_known_type_def
      consider_substitution_def sample_unknown)

lemma sample_type_converts:
  "convert_type (\<lambda>_. True) (Suc n) sample_type [''ns''] OuterType sample_converter =
     Some (Inr (Annotated_new sample_type [outer_name] ApiVec_new Kind_Regular), sample_converter)"
proof -
  have "convert_type (\<lambda>_. True) (Suc n) sample_type [''ns''] OuterType =
      convert_path_which_is_not_a_reference (\<lambda>_. True) n (convert_type (\<lambda>_. True) n) sample_path [''ns''] OuterType"
    by (simp add: convert_type_step_def convert_type_path_def sample_path_plain)
  moreover have "convert_type_path_which_is_not_a_reference (\<lambda>_. True) n conv sample_path [''ns''] OuterType sample_converter =
      Some (Inr (Annotated_new sample_type [outer_name] ApiVec_new Kind_Regular), sample_converter)" for conv
    by (simp add: convert_type_path_which_is_not_a_reference_def tc_bind_def qualify_path_def tc_return_def tc_unwrap_def
        sample_path_plain tc_when_def resolve_typedef_target_def iset_insert_def convert_resolved_path_def sample_known
        substitute_known_def marked_from_def marked_const_if_def marked_std_array_if_def Let_def)
  ultimately show ?thesis
    by (simp add: convert_path_which_is_not_a_reference_def tc_bind_def sample_path_plain tc_unwrap_def tc_return_def Annotated_new_def sample_known)
qed

end
