(* ===== verification/ArgumentConversion.thy ===== *)
theory ArgumentConversion imports FnAnalyzer begin

text \<open>
  How each parameter and the return value of a function cross the bridge
  (\<^verbatim>\<open>analysis/fun/mod.rs\<close>): the type is converted, and from the converted type, what the
  converter said of it and the policies of the analyzer the conversion of each side is chosen, or the
  signature is turned down with the reason. What \<^verbatim>\<open>syn\<close> takes for an identifier is the argument
  \<open>ok\<close>; \<open>n\<close> is the fuel of the type converter.
\<close>

section \<open>String views and arrays\<close>

definition names_string_view :: "rust_type \<Rightarrow> bool option" where
  "names_string_view ty =
     (case ty of
        Type_Path p \<Rightarrow> map_option (is_string_view known_types) (from_type_path p)
      | _ \<Rightarrow> Some False)"

text \<open>Naming a path of no segments panics; the walk asks the path before its arguments.\<close>

fun mentions_string_view :: "rust_type \<Rightarrow> bool option"
and arguments_mention_string_view :: "path_arguments \<Rightarrow> bool option"
and argument_list_mentions_string_view :: "generic_argument list \<Rightarrow> bool option"
and segments_mention_string_view :: "path_segment list \<Rightarrow> bool option" where
  "mentions_string_view (Type_Path p) =
     (case p of TypePath q c segs \<Rightarrow>
        (case from_type_path p of
           None \<Rightarrow> None
         | Some tn \<Rightarrow> if is_string_view known_types tn then Some True else segments_mention_string_view segs))"
| "mentions_string_view (Type_Ptr m elem) = mentions_string_view elem"
| "mentions_string_view (Type_Reference m elem) = mentions_string_view elem"
| "mentions_string_view (Type_Array elem len) = Some False"
| "mentions_string_view (Type_FnPtr inputs output) = Some False"
| "mentions_string_view (Type_Paren inner) = Some False"
| "mentions_string_view (Type_Group inner) = Some False"
| "mentions_string_view (Type_Other tokens) = Some False"
| "segments_mention_string_view [] = Some False"
| "segments_mention_string_view [PathSegment i a] = arguments_mention_string_view a"
| "segments_mention_string_view (s # t # rest) = segments_mention_string_view (t # rest)"
| "arguments_mention_string_view (AngleBracketed args) = argument_list_mentions_string_view args"
| "arguments_mention_string_view PathArguments_None = Some False"
| "arguments_mention_string_view (Parenthesized tokens) = Some False"
| "argument_list_mentions_string_view [] = Some False"
| "argument_list_mentions_string_view (GenericArgument_Type inner # rest) =
     (case mentions_string_view inner of
        None \<Rightarrow> None
      | Some True \<Rightarrow> Some True
      | Some False \<Rightarrow> argument_list_mentions_string_view rest)"
| "argument_list_mentions_string_view (GenericArgument_Other tokens # rest) =
     argument_list_mentions_string_view rest"

datatype string_view_param = Buildable rust_type | Mutable_View | Indirect

definition view_if :: "rust_type \<Rightarrow> string_view_param \<Rightarrow> string_view_param option option" where
  "view_if ty v = map_option (\<lambda>is_view. if is_view then Some v else None) (names_string_view ty)"

definition string_view_parameter :: "rust_type \<Rightarrow> string_view_param option option" where
  "string_view_parameter ty =
     (case ty of
        Type_Path p \<Rightarrow>
          (case extract_pinned_mutable_reference_type p of
             Some inner \<Rightarrow> view_if inner Mutable_View
           | None \<Rightarrow> view_if ty (Buildable ty))
      | Type_Reference m elem \<Rightarrow> view_if elem (if m then Mutable_View else Buildable elem)
      | Type_Ptr m elem \<Rightarrow> view_if elem Indirect
      | _ \<Rightarrow> Some None)"

definition permissible_array_element :: "fn_analyzer \<Rightarrow> qualified_name \<Rightarrow> bool" where
  "permissible_array_element me name \<longleftrightarrow>
     permissible_within_array known_types name
     \<or> relocatable_newtype known_types name
     \<or> \<not> is_known_type known_types name \<and> name \<in> set (fz_pod_safe_types me)"

definition check_signature_array :: "fn_analyzer \<Rightarrow> rust_type \<Rightarrow> (convert_error, unit) result option" where
  "check_signature_array me ty =
     (if denotes_cpp_array_behind_pointer ty then Some (Inl (SignatureError (CppArrayInSignature ty)))
      else case cpp_array_element ty of
        None \<Rightarrow> Some (Inr ())
      | Some (Type_Path path) \<Rightarrow>
          map_option (\<lambda>tn. if permissible_array_element me tn then Inr ()
                           else Inl (SignatureError (CppArrayElementNotSupported ty)))
            (from_type_path path)
      | Some _ \<Rightarrow> Some (Inl (SignatureError (CppArrayElementNotSupported ty))))"

section \<open>Volatile types\<close>

definition copyable_out_of_volatile :: "fn_analyzer \<Rightarrow> rust_type \<Rightarrow> bool option" where
  "copyable_out_of_volatile me ty =
     (case ty of
        Type_Ptr m elem \<Rightarrow> Some True
      | Type_Path p \<Rightarrow>
          map_option (\<lambda>tn. copyable_from_volatile known_types tn \<or> tn \<in> set (fz_enums me)) (from_type_path p)
      | _ \<Rightarrow> Some False)"

definition readable_by_rust_out_of_volatile :: "rust_type \<Rightarrow> bool option" where
  "readable_by_rust_out_of_volatile ty =
     (case ty of
        Type_Path p \<Rightarrow> map_option (copyable_from_volatile known_types) (from_type_path p)
      | _ \<Rightarrow> Some False)"

text \<open>What is pointed at, whether it may be changed, and whether C++ wrote a reference.\<close>

definition pointee_of :: "rust_type \<Rightarrow> (rust_type \<times> bool \<times> bool) option" where
  "pointee_of converted =
     (case converted of
        Type_Ptr m elem \<Rightarrow> Some (elem, ptr_is_mut m, False)
      | Type_Reference m elem \<Rightarrow> Some (elem, m, True)
      | Type_Path p \<Rightarrow>
          map_option (\<lambda>inner. (inner, True, True)) (extract_pinned_mutable_reference_type p)
      | _ \<Rightarrow> None)"

definition volatile_cpp_conversion :: "bool \<Rightarrow> bool \<Rightarrow> pointer_cpp_conversion" where
  "volatile_cpp_conversion is_return was_reference =
     (case (is_return, was_reference) of
        (True, True) \<Rightarrow> FromVolatileReferenceToPointer
      | (True, False) \<Rightarrow> FromVolatilePointerToPointer
      | (False, True) \<Rightarrow> FromPointerToVolatileReference
      | (False, False) \<Rightarrow> FromPointerToVolatilePointer)"

definition volatile_pointee_policy :: "rust_type \<Rightarrow> bool \<Rightarrow> type_conversion_policy option option" where
  "volatile_pointee_policy converted is_return =
     (case pointee_of converted of
        None \<Rightarrow> Some None
      | Some (pointee, is_mut, was_reference) \<Rightarrow>
          map_option
            (\<lambda>readable.
               if \<not> readable then None
               else Some (Policy_Pointer (BridgePointer_to pointee is_mut)
                            (volatile_cpp_conversion is_return was_reference)
                            (if is_return then FromPointerToVolatilePtr else FromVolatilePtrToPointer)))
            (readable_by_rust_out_of_volatile pointee))"

section \<open>The conversion of a parameter\<close>

datatype sophistication = Regular | SimpleForSubclasses

abbreviation forced_placement :: "forced_rust_conversion option" where
  "forced_placement \<equiv> Some (Forced_Pointer FromPlacementParamToNewReturn)"

definition path_conversion ::
    "fn_analyzer \<Rightarrow> rust_type \<Rightarrow> type_path \<Rightarrow> qualified_name \<Rightarrow> forced_rust_conversion option \<Rightarrow>
     sophistication \<Rightarrow> bool \<Rightarrow> (convert_error, type_conversion_policy) result" where
  "path_conversion me ty p tn force soph is_reference =
     (if policy (fz_config me) = ReferencesWrappedAllFunctionsSafe \<and> is_reference \<and> force = None then
        (case extract_pinned_mutable_reference_type p of
           None \<Rightarrow> Inl (ParameterWasNotAPointer ty)
         | Some unwrapped \<Rightarrow>
             Inr (Policy_Pointer (BridgePointer_to unwrapped True) FromPointerToReference FromReferenceWrapperToPointer))
      else if tn \<in> set (fz_pod_safe_types me) then
        Inr (if lacks_copy_constructor known_types tn then Policy_Whole ty Move WholeRust_None
             else if is_reference \<or> is_known_type known_types tn then new_unconverted ty
             else Policy_Whole ty MoveOrCopy WholeRust_None)
      else if convertible_from_strs known_types tn \<and> \<not> exclude_utilities (fz_config me) then
        Inr (Policy_Whole ty FromUniquePtrToValue FromStr)
      else if soph = SimpleForSubclasses then Inr (Policy_Whole ty FromUniquePtrToValue WholeRust_None)
      else Inr (Policy_Whole ty FromPtrToValue FromValueParamToPtr))"

definition ptr_conversion ::
    "fn_analyzer \<Rightarrow> bool \<Rightarrow> rust_type \<Rightarrow> bool \<Rightarrow> forced_rust_conversion option \<Rightarrow> bool \<Rightarrow> bool \<Rightarrow> bool \<Rightarrow>
     type_conversion_policy" where
  "ptr_conversion me m elem is_move_constructor force is_rvalue_ref is_reference is_placement =
     (let pointer = BridgePointer_to elem (ptr_is_mut m);
          rust = (case force of None \<Rightarrow> PtrRust_None | Some forced \<Rightarrow> on_pointer forced)
      in if is_move_constructor then Policy_Pointer pointer FromPtrToMove rust
         else if is_rvalue_ref then Policy_Whole elem FromPtrToValue FromRValueParamToPtr
         else if policy (fz_config me) = ReferencesWrappedAllFunctionsSafe \<and> is_reference \<and> force = None
                 \<and> \<not> is_placement
         then Policy_Pointer pointer FromPointerToReference FromReferenceWrapperToPointer
         else Policy_Pointer pointer PtrCpp_None rust)"

definition string_view_conversion ::
    "fn_analyzer \<Rightarrow> string_view_param \<Rightarrow> (convert_error, type_conversion_policy) result" where
  "string_view_conversion me sv =
     (case sv of
        Buildable ty \<Rightarrow>
          if exclude_utilities (fz_config me) then Inl (SignatureError StringViewWithoutUtilities)
          else Inr (Policy_Whole ty FromRustBytesToStringView FromBytes)
      | Mutable_View \<Rightarrow> Inl (SignatureError MutableStringViewRef)
      | Indirect \<Rightarrow> Inl (SignatureError IndirectStringView))"

text \<open>The arms of the last match, when nothing before it has settled the conversion.\<close>

definition plain_conversion ::
    "fn_analyzer \<Rightarrow> rust_type \<Rightarrow> bool \<Rightarrow> forced_rust_conversion option \<Rightarrow> sophistication \<Rightarrow> bool \<Rightarrow> bool \<Rightarrow>
     bool \<Rightarrow> (convert_error, type_conversion_policy) result option" where
  "plain_conversion me ty is_move_constructor force soph is_rvalue_ref is_reference is_placement =
     (case ty of
        Type_Path p \<Rightarrow>
          map_option (\<lambda>tn. path_conversion me ty p tn force soph is_reference) (from_type_path p)
      | Type_Ptr m elem \<Rightarrow>
          Some (Inr (ptr_conversion me m elem is_move_constructor force is_rvalue_ref is_reference is_placement))
      | _ \<Rightarrow>
          Some (case ty of
            Type_Reference m elem \<Rightarrow>
              if policy (fz_config me) = ReferencesWrappedAllFunctionsSafe \<and> force = None \<and> \<not> is_placement then
                (if m then Inl (ParameterWasNotAPointer ty)
                 else Inr (Policy_Pointer (BridgePointer_to elem False) FromPointerToReference
                             FromReferenceWrapperToPointer))
              else map_sum id (Policy_Whole ty WholeCpp_None)
                     (case force of None \<Rightarrow> Inr WholeRust_None | Some forced \<Rightarrow> on_whole forced ty)
          | _ \<Rightarrow> map_sum id (Policy_Whole ty WholeCpp_None)
                   (case force of None \<Rightarrow> Inr WholeRust_None | Some forced \<Rightarrow> on_whole forced ty)))"

definition rust_box_of :: "ident \<Rightarrow> rust_type" where
  "rust_box_of holder =
     Type_Path (TypePath False False
       [PathSegment ''rust'' PathArguments_None,
        PathSegment ''Box'' (AngleBracketed [GenericArgument_Type (Type_Path (plain_path False [holder]))])])"

definition held_by_subclass :: "ident \<Rightarrow> type_conversion_policy option" where
  "held_by_subclass holder =
     map_option (\<lambda>subclass. Policy_Whole (rust_box_of holder) Move (ToBoxedUpHolder subclass)) (from_holder_name holder)"

definition argument_conversion_details ::
    "fn_analyzer \<Rightarrow> rust_type annotated \<Rightarrow> bool \<Rightarrow> forced_rust_conversion option \<Rightarrow> sophistication \<Rightarrow> bool \<Rightarrow>
     bool \<Rightarrow> (convert_error, type_conversion_policy) result option" where
  "argument_conversion_details me annotated is_move_constructor force soph is_self is_placement =
     (let ty = ann_ty annotated;
          is_rvalue_ref = (ann_kind annotated = Kind_RValueReference);
          is_reference = (ann_kind annotated \<in> {Kind_Reference, Kind_MutableReference} \<or> is_self)
      in case check_signature_array me ty of
           None \<Rightarrow> None
         | Some (Inl e) \<Rightarrow> Some (Inl e)
         | Some (Inr _) \<Rightarrow>
      (case string_view_parameter ty of
         None \<Rightarrow> None
       | Some (Some sv) \<Rightarrow> Some (string_view_conversion me sv)
       | Some None \<Rightarrow>
      (case ann_kind annotated of
         Kind_SubclassHolder holder \<Rightarrow> map_option Inr (held_by_subclass holder)
       | _ \<Rightarrow>
      if force = forced_placement \<and> soph = Regular then
        Some (case BridgePointer_from_type ty of
                None \<Rightarrow> Inl (ParameterWasNotAPointer ty)
              | Some pointer \<Rightarrow>
                  Inr (Policy_Pointer pointer IgnoredPlacementPtrParameter FromPlacementParamToNewReturn))
      else
      (case (if ann_has_volatile_pointee annotated then volatile_pointee_policy ty False else Some None) of
         None \<Rightarrow> None
       | Some (Some p) \<Rightarrow>
           Some (if is_rvalue_ref then Inl (SignatureError VolatileRValueReference) else Inr p)
       | Some None \<Rightarrow>
           plain_conversion me ty is_move_constructor force soph is_rvalue_ref is_reference is_placement))))"

text \<open>
  The receiver's type, its mutability and what is converted in its place. A pattern is kept as its
  tokens; one that is an identifier alone is \<^verbatim>\<open>Pat::Ident\<close>.
\<close>

definition receiver_of ::
    "qualified_name option \<Rightarrow> qualified_name \<Rightarrow> rust_type \<Rightarrow>
     (convert_error, qualified_name \<times> receiver_mutability \<times> rust_type) result option" where
  "receiver_of virtual_this diagnostic_name ty =
     (case ty of
        Type_Ptr m (Type_Path typ) \<Rightarrow>
          (case unwrap_has_opaque typ of
             Some blob \<Rightarrow> Some (Inl (TypeError (BindgenOpaqueBlob blob)))
           | None \<Rightarrow>
               let mutability = (if ptr_is_mut m then Mutable else Const) in
               (case virtual_this of
                  Some this_type \<Rightarrow> Some (Inr (this_type, mutability, Type_Ptr m (Type_Path (to_type_path this_type))))
                | None \<Rightarrow> map_option (\<lambda>tn. Inr (tn, mutability, ty)) (from_type_path typ)))
      | _ \<Rightarrow> Some (Inl (SignatureError (UnexpectedThisType diagnostic_name))))"

definition marked_reference :: "rust_type \<Rightarrow> rust_type" where
  "marked_reference ty =
     Type_Path (TypePath False False
       [PathSegment ''__bindgen_marker_Reference'' (AngleBracketed [GenericArgument_Type ty])])"

text \<open>The pattern and type to convert, with what is the receiver.\<close>

definition parameter_to_convert ::
    "(string \<Rightarrow> bool) \<Rightarrow> qualified_name option \<Rightarrow> qualified_name \<Rightarrow> bool \<Rightarrow> rust_tokens \<Rightarrow> rust_type \<Rightarrow>
     (convert_error, rust_tokens \<times> rust_type \<times> (qualified_name \<times> receiver_mutability) option) result option" where
  "parameter_to_convert ok virtual_this diagnostic_name treat_this_as_reference pat ty =
     (if pat = ''this'' then
        map_option (map_sum id (\<lambda>(this_type, mutability, ty).
            if treat_this_as_reference then (''self'', marked_reference ty, Some (this_type, mutability))
            else (pat, ty, Some (this_type, mutability))))
          (receiver_of virtual_this diagnostic_name ty)
      else if ok pat then
        Some (case validate_ident_ok_for_cxx ok pat of
                Inl e \<Rightarrow> Inl (InvalidIdent e)
              | Inr _ \<Rightarrow> Inr (pat, ty, None))
      else Some (Inr (pat, ty, None)))"

definition parameter_unsafety :: "rust_type annotated \<Rightarrow> type_conversion_policy \<Rightarrow> bool \<Rightarrow> unsafety_needed" where
  "parameter_unsafety annotated conversion is_placement =
     (if (ann_kind annotated = Kind_Pointer \<or> ann_has_volatile_pointee annotated) \<and> \<not> is_placement then Always
      else if bridge_unsafe_needed conversion \<or> is_placement then JustBridge
      else Unsafety_None)"

definition convert_fn_arg ::
    "(string \<Rightarrow> bool) \<Rightarrow> nat \<Rightarrow> fn_arg \<Rightarrow> namespace \<Rightarrow> qualified_name \<Rightarrow> qualified_name option \<Rightarrow> bool \<Rightarrow> bool \<Rightarrow>
     forced_rust_conversion option \<Rightarrow> sophistication \<Rightarrow> bool \<Rightarrow> (fn_arg \<times> argument_analysis) fz" where
  "convert_fn_arg ok n arg ns diagnostic_name virtual_this treat_this_as_reference is_move_constructor
       force soph construct_into_self =
     (case arg of
        FnArg_Receiver tokens \<Rightarrow> fz_unwrap None
      | FnArg_Typed pat ty \<Rightarrow>
          fz_bind (fz_ask (\<lambda>_. parameter_to_convert ok virtual_this diagnostic_name treat_this_as_reference pat ty))
            (\<lambda>(new_pat, ty, self_type).
          let is_placement = (self_type \<noteq> None \<and> construct_into_self \<or> force = forced_placement) in
          fz_bind (fz_convert_boxed_type ok n ty ns) (\<lambda>annotated.
          fz_bind (fz_ask (\<lambda>me. argument_conversion_details me annotated is_move_constructor force soph
                                (self_type \<noteq> None) is_placement)) (\<lambda>conversion.
          fz_return
            (FnArg_Typed new_pat (ann_ty annotated),
             \<lparr>aa_conversion = conversion,
              aa_name = new_pat,
              aa_self_type = self_type,
              aa_has_lifetime = (ann_kind annotated \<in> {Kind_Reference, Kind_MutableReference}),
              aa_is_mutable_reference = (ann_kind annotated = Kind_MutableReference),
              aa_deps = ann_types_encountered annotated,
              aa_requires_unsafe = parameter_unsafety annotated conversion is_placement,
              aa_is_placement_return_destination = is_placement\<rparr>)))))"

text \<open>
  A parameter analyzed anew takes the place of the first attempt; an index past the parameters is a
  panic.
\<close>

definition reanalyze_parameter ::
    "(string \<Rightarrow> bool) \<Rightarrow> nat \<Rightarrow> nat \<Rightarrow> func_to_convert \<Rightarrow> namespace \<Rightarrow> qualified_name \<Rightarrow>
     fn_arg list \<times> argument_analysis list \<Rightarrow> forced_rust_conversion option \<Rightarrow> sophistication \<Rightarrow> bool \<Rightarrow> bool \<Rightarrow>
     (fn_arg list \<times> argument_analysis list) fz" where
  "reanalyze_parameter ok n param_idx fn ns diagnostic_name = (\<lambda>(params, param_details) force soph
       construct_into_self is_move_constructor.
     fz_bind (fz_unwrap (if param_idx < length (fc_inputs fn) then Some (fc_inputs fn ! param_idx) else None)) (\<lambda>arg.
     fz_bind (convert_fn_arg ok n arg ns diagnostic_name (fc_synthesized_this_type fn) False is_move_constructor
                force soph construct_into_self) (\<lambda>(new_arg, new_analysis).
     fz_bind (fz_unwrap (if param_idx < length param_details then Some () else None)) (\<lambda>_.
     fz_return (take param_idx params @ [new_arg] @ drop (Suc param_idx) params,
                param_details[param_idx := new_analysis])))))"

section \<open>The conversion of the return value\<close>

record return_type_analysis =
  rta_rt :: "rust_type option"
  rta_conversion :: "type_conversion_policy option"
  rta_was_reference :: bool
  rta_was_mutable_reference :: bool
  rta_was_rvalue_reference :: bool
  rta_was_const :: bool
  rta_was_volatile :: bool
  rta_deps :: "qualified_name list"
  rta_placement_param_needed :: "(fn_arg \<times> argument_analysis) option"

definition ReturnTypeAnalysis_default :: return_type_analysis where
  "ReturnTypeAnalysis_default =
     \<lparr>rta_rt = None, rta_conversion = None, rta_was_reference = False, rta_was_mutable_reference = False,
      rta_was_rvalue_reference = False, rta_was_const = False, rta_was_volatile = False, rta_deps = [],
      rta_placement_param_needed = None\<rparr>"

text \<open>What is turned down whatever the type is, in the order it is asked.\<close>

definition refuse_return ::
    "qualified_name \<Rightarrow> bool \<Rightarrow> rust_type annotated \<Rightarrow> fn_analyzer \<Rightarrow> (convert_error, unit) result option" where
  "refuse_return diagnostic_name was_volatile annotated me =
     (let ty = ann_ty annotated in
      case (if was_volatile then copyable_out_of_volatile me ty else Some True) of
        None \<Rightarrow> None
      | Some False \<Rightarrow> Some (Inl (SignatureError (VolatileReturn (to_cpp_name diagnostic_name))))
      | Some True \<Rightarrow>
      (case check_signature_array me ty of
         None \<Rightarrow> None
       | Some (Inl e) \<Rightarrow> Some (Inl e)
       | Some (Inr _) \<Rightarrow>
      (case mentions_string_view ty of
         None \<Rightarrow> None
       | Some mentioned \<Rightarrow>
           Some (if mentioned \<or> list_ex (is_string_view known_types) (ann_types_encountered annotated)
                 then Inl (SignatureError StringViewOutOfCpp) else Inr ()))))"

definition return_by_value ::
    "(string \<Rightarrow> bool) \<Rightarrow> nat \<Rightarrow> rust_type annotated \<Rightarrow> bool \<Rightarrow> qualified_name \<Rightarrow> namespace \<Rightarrow> qualified_name \<Rightarrow>
     sophistication \<Rightarrow> return_type_analysis fz" where
  "return_by_value ok n annotated was_volatile tn ns diagnostic_name soph = (\<lambda>me.
     let ty = ann_ty annotated;
         ra = ReturnTypeAnalysis_default
           \<lparr>rta_was_const := ann_is_const annotated, rta_was_volatile := was_volatile,
            rta_deps := ann_types_encountered annotated\<rparr>
     in if tn \<in> set (fz_moveit_safe_types me) \<and> soph = Regular then
          fz_bind (convert_fn_arg ok n (FnArg_Typed ''placement_return_type'' (Type_Ptr True ty)) ns diagnostic_name
                     None False False forced_placement Regular False) (\<lambda>placement.
          fz_return (ra\<lparr>rta_conversion := Some (new_for_placement_return ty),
                        rta_placement_param_needed := Some placement\<rparr>)) me
        else fz_return (ra\<lparr>rta_rt := Some ty, rta_conversion := Some (new_to_unique_ptr ty)\<rparr>) me)"

definition return_as_is ::
    "rust_type annotated \<Rightarrow> bool \<Rightarrow> bool \<Rightarrow> (convert_error, return_type_analysis) result" where
  "return_as_is annotated was_volatile wraps_references =
     (let ty = ann_ty annotated;
          was_mutable_reference = (ann_kind annotated = Kind_MutableReference);
          was_reference = (was_mutable_reference \<or> ann_kind annotated = Kind_Reference);
          was_rvalue_reference = (ann_kind annotated = Kind_RValueReference)
      in map_sum id
           (\<lambda>conversion.
              \<lparr>rta_rt = Some ty, rta_conversion = Some conversion, rta_was_reference = was_reference,
               rta_was_mutable_reference = was_mutable_reference, rta_was_rvalue_reference = was_rvalue_reference,
               rta_was_const = ann_is_const annotated, rta_was_volatile = was_volatile,
               rta_deps = ann_types_encountered annotated, rta_placement_param_needed = None\<rparr>)
           (if was_rvalue_reference then return_rvalue_reference ty wraps_references
            else if was_reference \<and> wraps_references then return_reference_into_wrapper ty
            else Inr (new_unconverted ty)))"

definition return_volatile_pointer :: "rust_type annotated \<Rightarrow> bool \<Rightarrow> type_conversion_policy \<Rightarrow> return_type_analysis" where
  "return_volatile_pointer annotated was_volatile conversion =
     ReturnTypeAnalysis_default
       \<lparr>rta_rt := Some (ann_ty annotated), rta_conversion := Some conversion,
        rta_was_const := ann_is_const annotated, rta_was_volatile := was_volatile,
        rta_deps := ann_types_encountered annotated\<rparr>"

definition convert_return_type ::
    "(string \<Rightarrow> bool) \<Rightarrow> nat \<Rightarrow> rust_type option \<Rightarrow> namespace \<Rightarrow> qualified_name \<Rightarrow> sophistication \<Rightarrow>
     return_type_analysis fz" where
  "convert_return_type ok n rt ns diagnostic_name soph =
     (case rt of
        None \<Rightarrow> fz_return ReturnTypeAnalysis_default
      | Some written \<Rightarrow>
          let was_volatile = is_volatile_qualified written in
          fz_bind (fz_convert_boxed_type ok n written ns) (\<lambda>annotated.
          let ty = ann_ty annotated; pointee_was_volatile = ann_has_volatile_pointee annotated in
          fz_bind (fz_ask (refuse_return diagnostic_name was_volatile annotated)) (\<lambda>_.
          fz_bind (fz_unwrap (if pointee_was_volatile then volatile_pointee_policy ty True else Some None))
            (\<lambda>volatile_conversion.
          case volatile_conversion of
            Some conversion \<Rightarrow>
              if pointee_was_volatile \<and> type_is_reference written True
              then fz_throw (SignatureError VolatileRValueReference)
              else fz_return (return_volatile_pointer annotated was_volatile conversion)
          | None \<Rightarrow>
              let as_is = (\<lambda>me. Some (return_as_is annotated was_volatile
                                 (policy (fz_config me) = ReferencesWrappedAllFunctionsSafe), me)) in
              (case ty of
                 Type_Path p \<Rightarrow>
                   fz_bind (fz_unwrap (from_type_path p)) (\<lambda>tn me.
                     if tn \<in> set (fz_pod_safe_types me) then as_is me
                     else return_by_value ok n annotated was_volatile tn ns diagnostic_name soph me)
               | _ \<Rightarrow> as_is)))))"

section \<open>What the two sides hand each other\<close>

text \<open>
  The type Rust's side of a conversion produces, where it produces one: an owned string, the bytes of
  a string, or a pointer to storage it holds. Where it does nothing the caller gives what the bridge
  declares.
\<close>

definition rust_hands :: "type_conversion_policy \<Rightarrow> rust_type option" where
  "rust_hands p =
     (case p of
        Policy_Pointer pointer cpp rust \<Rightarrow>
          if rust \<in> {FromReferenceWrapperToPointer, FromVolatilePtrToPointer} then Some (BridgePointer_ty pointer)
          else None
      | Policy_Whole ty cpp rust \<Rightarrow>
          (case rust of
             FromStr \<Rightarrow> Some (unique_ptr_of ty)
           | FromBytes \<Rightarrow> Some bytes_slice
           | FromValueParamToPtr \<Rightarrow> Some (Type_Ptr True ty)
           | FromRValueParamToPtr \<Rightarrow> Some (Type_Ptr True ty)
           | _ \<Rightarrow> None))"

text \<open>A parameter is never made a pointer out of a C++ reference, which is for what C++ returns.\<close>

definition goes_into_cpp :: "type_conversion_policy \<Rightarrow> bool" where
  "goes_into_cpp p \<longleftrightarrow>
     (case p of
        Policy_Pointer pointer cpp rust \<Rightarrow> cpp \<notin> {FromReferenceToPointer, FromRValueReferenceToPointer}
      | Policy_Whole ty cpp rust \<Rightarrow> True)"

definition sides_agree :: "type_conversion_policy \<Rightarrow> bool" where
  "sides_agree p \<longleftrightarrow>
     (case rust_hands p of Some t \<Rightarrow> converted_rust_type p = t \<and> cpp_work_needed p | None \<Rightarrow> True) \<and>
     goes_into_cpp p"

definition wraps_itself :: "forced_rust_conversion option \<Rightarrow> bool" where
  "wraps_itself force \<longleftrightarrow>
     force \<in> {Some (Forced_Pointer FromReferenceWrapperToPointer), Some (Forced_Pointer FromVolatilePtrToPointer)}"

lemmas sides_simps = sides_agree_def goes_into_cpp_def rust_hands_def converted_rust_type_def BridgePointer_ty_def BridgePointer_to_def
  wraps_itself_def

lemma on_whole_Inr [simp]: "on_whole forced ty = Inr c \<longleftrightarrow> forced = Forced_Identity \<and> c = WholeRust_None"
  by (cases forced) auto

lemma volatile_sides:
  "volatile_pointee_policy ty False = Some (Some p) \<Longrightarrow> sides_agree p"
  by (auto simp: volatile_pointee_policy_def volatile_cpp_conversion_def sides_simps
      split: option.splits if_splits bool.splits)

lemma path_sides: "path_conversion me ty p tn force soph is_reference = Inr q \<Longrightarrow> sides_agree q"
  by (auto simp: path_conversion_def sides_simps new_unconverted_def split: option.splits if_splits)

lemma ptr_sides:
  "\<not> wraps_itself force \<Longrightarrow> sides_agree (ptr_conversion me m elem mv force rv is_reference pl)"
  by (auto simp: ptr_conversion_def Let_def sides_simps split: option.splits, cases force)
     (auto split: option.splits elim: on_pointer.elims)

lemma forced_whole_sides:
  "map_sum id (Policy_Whole ty WholeCpp_None)
     (case force of None \<Rightarrow> Inr WholeRust_None | Some forced \<Rightarrow> on_whole forced ty) = Inr q \<Longrightarrow> sides_agree q"
  by (cases force) (auto simp: sides_simps map_sum_Inr_iff)

lemma plain_sides:
  assumes "plain_conversion me ty mv force soph rv is_reference pl = Some (Inr q)" "\<not> wraps_itself force"
  shows "sides_agree q"
  using assms
  by (auto simp: plain_conversion_def split: rust_type.splits if_splits option.splits
      dest: path_sides forced_whole_sides intro: ptr_sides)
     (auto simp: sides_simps map_sum_Inr_iff)


lemma bound_step:
  "fz_bind m f me = Some (Inr y, me'') \<longleftrightarrow>
     (\<exists>x me'. m me = Some (Inr x, me') \<and> f x me' = Some (Inr y, me''))"
  by (auto simp: fz_bind_def split: option.splits sum.splits)

lemma basic_steps [simp]:
  "fz_return x me = Some (Inr y, me') \<longleftrightarrow> y = x \<and> me' = me"
  "\<not> fz_throw e me = Some (Inr y, me')"
  "fz_unwrap x' me = Some (Inr y, me') \<longleftrightarrow> x' = Some y \<and> me' = me"
  "fz_ask q me = Some (Inr y, me') \<longleftrightarrow> q me = Some (Inr y) \<and> me' = me"
  by (auto simp: fz_return_def fz_throw_def fz_unwrap_def fz_ask_def split: option.splits)

lemma accepted_sides:
  assumes "argument_conversion_details me annotated is_move force soph is_self is_placement = Some (Inr p)"
    and "\<not> wraps_itself force"
  shows "sides_agree p"
proof -
  have placed: "sides_agree (Policy_Pointer b IgnoredPlacementPtrParameter FromPlacementParamToNewReturn)" for b
    by (simp add: sides_simps)
  have viewed: "string_view_conversion me sv = Inr p \<Longrightarrow> sides_agree p" for sv
    by (auto simp: string_view_conversion_def sides_simps split: string_view_param.splits if_splits)
  have held: "held_by_subclass h = Some p \<Longrightarrow> sides_agree p" for h
    by (auto simp: held_by_subclass_def sides_simps)
  show "sides_agree p"
    using assms unfolding argument_conversion_details_def Let_def
    by (auto split: option.splits sum.splits if_splits converted_kind.splits
        intro: placed viewed held volatile_sides plain_sides)
qed

text \<open>
  The two sides of a parameter. However a parameter's type was found, with whatever mutability,
  policy and receiver, when a conversion is accepted and Rust's side produces something of its own -
  an owned string, bytes, or a pointer to storage it holds - the wrapper is declared to take exactly
  that type and C++ has work to do on it, so that the wrapper is not left out. Only a conversion the
  caller forces that claims a wrapped reference or a volatile pointer is outside this.
\<close>

theorem parameter_sides_agree:
  assumes "argument_conversion_details me annotated is_move force soph is_self is_placement = Some (Inr p)"
    and "\<not> wraps_itself force"
  shows "case rust_hands p of Some t \<Rightarrow> converted_rust_type p = t \<and> cpp_work_needed p | None \<Rightarrow> True"
  using accepted_sides[OF assms] by (simp add: sides_agree_def)

text \<open>
  C27: string views do not leave C++. When a return type is accepted, the type the function is given
  mentions no string view anywhere and none of the types met on the way to it, through whatever
  typedefs, is one.
\<close>

theorem no_string_view_is_returned:
  assumes "convert_return_type ok n (Some written) ns diagnostic_name soph me = Some (Inr ra, me')"
  shows "(case rta_rt ra of Some t \<Rightarrow> mentions_string_view t = Some False | None \<Rightarrow> True) \<and>
    (\<forall>tn \<in> set (rta_deps ra). \<not> is_string_view known_types tn)"
proof -
  have ok: "refuse_return diagnostic_name v annotated s = Some (Inr ()) \<Longrightarrow>
      mentions_string_view (ann_ty annotated) = Some False \<and>
      \<not> list_ex (is_string_view known_types) (ann_types_encountered annotated)" for v annotated s
    by (auto simp: refuse_return_def Let_def split: option.splits bool.splits sum.splits if_splits)
  have as_is: "return_as_is annotated v w = Inr ra \<Longrightarrow>
      rta_rt ra = Some (ann_ty annotated) \<and> rta_deps ra = ann_types_encountered annotated" for annotated v w
    by (auto simp: return_as_is_def Let_def map_sum_Inr_iff)
  have by_value: "return_by_value ok n annotated v tn ns diagnostic_name soph s = Some (Inr ra, s') \<Longrightarrow>
      rta_rt ra \<in> {None, Some (ann_ty annotated)} \<and> rta_deps ra = ann_types_encountered annotated"
    for annotated v tn s s'
    by (auto simp: return_by_value_def Let_def bound_step ReturnTypeAnalysis_default_def split: if_splits)
  from assms obtain annotated s where
    "refuse_return diagnostic_name (is_volatile_qualified written) annotated s = Some (Inr ())"
    "rta_rt ra \<in> {None, Some (ann_ty annotated)} \<and> rta_deps ra = ann_types_encountered annotated"
    unfolding convert_return_type_def
    by (auto simp: bound_step Let_def return_volatile_pointer_def ReturnTypeAnalysis_default_def
        split: option.splits if_splits rust_type.splits dest!: as_is by_value)
  with ok show ?thesis by (auto simp: list_ex_iff split: option.splits)
qed


section \<open>A class held by value\<close>

lemma sample_type_answers:
  "names_string_view sample_type = Some False" "mentions_string_view sample_type = Some False"
  "string_view_parameter sample_type = Some None" "check_signature_array sample_analyzer sample_type = Some (Inr ())"
  "is_string_view known_types outer_name = False" "convertible_from_strs known_types outer_name = False"
proof -
  have none: "extract_pinned_mutable_reference_type sample_path = None" "cpp_array_element sample_type = None"
    "denotes_cpp_array_behind_pointer sample_type = False" by code_simp+
  show view: "is_string_view known_types outer_name = False" "convertible_from_strs known_types outer_name = False"
    by (simp_all add: is_string_view_def convertible_from_strs_def sample_unknown)
  show names: "names_string_view sample_type = Some False" "mentions_string_view sample_type = Some False"
    by (simp_all add: names_string_view_def sample_path_plain view)
  show "string_view_parameter sample_type = Some None" "check_signature_array sample_analyzer sample_type = Some (Inr ())"
    using names(1) none
    by (simp_all add: string_view_parameter_def sample_path_plain view_if_def check_signature_array_def)
qed

lemma sample_details:
  "argument_conversion_details sample_analyzer
      (Annotated_new sample_type [outer_name] ApiVec_new Kind_Regular) False None Regular False False =
    Some (Inr (Policy_Whole sample_type FromPtrToValue FromValueParamToPtr))"
  by (simp add: argument_conversion_details_def Annotated_new_def sample_type_answers plain_conversion_def)
     (simp add: sample_path_plain path_conversion_def sample_type_answers sample_analyzer_def)

lemma sample_boxed:
  "fz_convert_boxed_type (\<lambda>_. True) (Suc 0) sample_type [''ns''] sample_analyzer =
     Some (Inr (Annotated_new sample_type [outer_name] ApiVec_new Kind_Regular), sample_analyzer)"
  using sample_type_converts[of 0]
  by (simp add: fz_convert_boxed_type_def convert_boxed_type_def tc_bind_def sample_analyzer_def tc_return_def
      annotated_map_def Annotated_new_def apivec_append_def ApiVec_new_def)

lemma parameter_sides_agree_witness:
  "\<exists>p. argument_conversion_details sample_analyzer (Annotated_new sample_type [outer_name] ApiVec_new Kind_Regular)
        False None Regular False False = Some (Inr p) \<and>
      rust_hands p = Some (Type_Ptr True sample_type) \<and> converted_rust_type p = Type_Ptr True sample_type"
proof -
  have hands: "rust_hands (Policy_Whole sample_type FromPtrToValue FromValueParamToPtr) = Some (Type_Ptr True sample_type)"
    by (simp add: rust_hands_def)
  from parameter_sides_agree[OF sample_details] hands sample_details show ?thesis by (auto simp: wraps_itself_def)
qed

lemma no_string_view_is_returned_witness:
  "\<exists>ra me. convert_return_type (\<lambda>_. True) (Suc 0) (Some sample_type) [''ns''] outer_name SimpleForSubclasses sample_analyzer =
        Some (Inr ra, me) \<and> rta_rt ra = Some sample_type \<and> mentions_string_view sample_type = Some False"
proof -
  have "\<not> is_volatile_qualified sample_type" by code_simp
  then have "\<exists>ra. convert_return_type (\<lambda>_. True) (Suc 0) (Some sample_type) [''ns''] outer_name SimpleForSubclasses sample_analyzer =
      Some (Inr ra, sample_analyzer) \<and> rta_rt ra = Some sample_type"
    by (simp add: convert_return_type_def fz_bind_def sample_boxed fz_ask_def refuse_return_def Annotated_new_def sample_type_answers
        fz_unwrap_def)
       (simp add: sample_path_plain fz_unwrap_def return_by_value_def fz_return_def fz_bind_def sample_analyzer_def
        ReturnTypeAnalysis_default_def Let_def)
  then show ?thesis using no_string_view_is_returned by fastforce
qed

end
