(* ===== verification/FunctionNames.thy ===== *)
theory FunctionNames imports ArgumentConversion begin

text \<open>
  What a function becomes in Rust (\<^verbatim>\<open>analysis/fun/mod.rs\<close>): a function, a method of some kind or
  the implementation of a trait, the name it has there, told apart from the other overloads, where
  errors about it are shown, and the note in its documentation where the name differs from C++'s.
\<close>

section \<open>Stages\<close>

text \<open>A stage threads the analyzer through; a step is one whose value may be an error.\<close>

type_synonym 'a st = "fn_analyzer \<Rightarrow> ('a \<times> fn_analyzer) option"

definition st_return :: "'a \<Rightarrow> 'a st" where
  "st_return x = (\<lambda>me. Some (x, me))"

definition st_bind :: "'a st \<Rightarrow> ('a \<Rightarrow> 'b st) \<Rightarrow> 'b st" where
  "st_bind m f = (\<lambda>me. case m me of None \<Rightarrow> None | Some (x, me) \<Rightarrow> f x me)"

definition st_ask :: "(fn_analyzer \<Rightarrow> 'a option) \<Rightarrow> 'a st" where
  "st_ask f = (\<lambda>me. map_option (\<lambda>x. (x, me)) (f me))"

section \<open>Traits\<close>

definition trait_kind ::
    "trait_method_kind \<Rightarrow> qualified_name \<Rightarrow> rust_type \<Rightarrow> rust_type \<Rightarrow> bool \<Rightarrow> bool \<Rightarrow> ident \<Rightarrow> nat list option \<Rightarrow> fn_kind" where
  "trait_kind kind impl_for ty trait_signature is_unsafe avoid_self method_name reordering =
     FnKind_TraitMethod kind impl_for
       \<lparr>tmd_trait_impl = \<lparr>tis_ty = ty, tis_trait_signature = trait_signature, tis_unsafety = is_unsafe\<rparr>,
        tmd_avoid_self = avoid_self, tmd_method_name = make_ident method_name,
        tmd_parameter_reordering = reordering\<rparr>"

definition path_with_argument :: "ident list \<Rightarrow> type_path \<Rightarrow> rust_type" where
  "path_with_argument segs arg =
     Type_Path (TypePath False False
       (map (\<lambda>s. PathSegment s PathArguments_None) (butlast segs)
        @ [PathSegment (last segs) (AngleBracketed [GenericArgument_Type (Type_Path arg)])]))"

definition cast_signature :: "type_path \<Rightarrow> type_path \<Rightarrow> cast_mutability \<Rightarrow> rust_type \<times> rust_type \<times> string" where
  "cast_signature from_path to_path mutable =
     (case mutable of
        ConstToConst \<Rightarrow> (path_with_argument [''AsRef''] to_path, Type_Path from_path, ''as_ref'')
      | MutToConst \<Rightarrow>
          (path_with_argument [''AsRef''] to_path,
           Type_Reference True (pinned_mutable (Type_Path from_path)), ''as_ref'')
      | MutToMut \<Rightarrow>
          (path_with_argument [''autocxx'', ''PinMut''] to_path, pinned_mutable (Type_Path from_path), ''pin_mut''))"

type_synonym named_kind = "fn_kind \<times> error_context \<times> string"

definition generate_alloc_or_deallocate ::
    "string \<Rightarrow> qualified_name \<Rightarrow> string \<Rightarrow> trait_method_kind \<Rightarrow> named_kind st" where
  "generate_alloc_or_deallocate ideal ty method_name kind =
     st_bind (get_function_overload_name (get_namespace ty) ideal None) (\<lambda>(rust_name, _).
     st_return
       (trait_kind kind ty (Type_Path (to_type_path ty))
          (Type_Path (plain_path False [''autocxx'', ''moveit'', ''MakeCppStorage''])) True False method_name None,
        new_for_item (make_ident rust_name), rust_name))"

text \<open>A cast of no type is the panic of an \<open>unwrap\<close>.\<close>

definition trait_creation_details_for_synthetic_function ::
    "trait_synthesis option \<Rightarrow> namespace \<Rightarrow> string \<Rightarrow> qualified_name option \<Rightarrow> named_kind option st" where
  "trait_creation_details_for_synthetic_function synthesis ns ideal self_ty =
     (case synthesis of
        None \<Rightarrow> st_return None
      | Some (Synth_Cast to_type mutable) \<Rightarrow>
          st_bind (get_function_overload_name ns ideal None) (\<lambda>(rust_name, _).
          st_bind (st_ask (\<lambda>_. self_ty)) (\<lambda>from_type.
          case cast_signature (to_type_path from_type) (to_type_path to_type) mutable of
            (trait_signature, ty, method_name) \<Rightarrow>
              st_return (Some
                (trait_kind Trait_Cast from_type ty trait_signature False False method_name None,
                 new_for_item (make_ident rust_name), rust_name))))
      | Some (AllocUninitialized ty) \<Rightarrow>
          st_bind (generate_alloc_or_deallocate ideal ty ''allocate_uninitialized_cpp_storage'' Trait_Alloc)
            (\<lambda>k. st_return (Some k))
      | Some (FreeUninitialized ty) \<Rightarrow>
          st_bind (generate_alloc_or_deallocate ideal ty ''free_uninitialized_cpp_storage'' Trait_Dealloc)
            (\<lambda>k. st_return (Some k)))"

section \<open>Methods\<close>

definition strip_prefix :: "string \<Rightarrow> string \<Rightarrow> string option" where
  "strip_prefix p s = (if prefix p s then Some (drop (length p) s) else None)"

text \<open>\<open>str::parse::<u32>\<close>, which takes a leading plus sign.\<close>

definition parses_as_u32 :: "string \<Rightarrow> bool" where
  "parses_as_u32 s \<longleftrightarrow>
     (let digits = (if prefix ''+'' s then drop 1 s else s)
      in digits \<noteq> [] \<and> list_all is_digit digits \<and> string_to_nat digits < 2 ^ 32)"

definition constructor_with_suffix :: "string \<Rightarrow> string \<Rightarrow> cpp_method_kind option \<Rightarrow> string option" where
  "constructor_with_suffix rust_name nested_type_ident method_kind =
     (case method_kind of
        Some CppKind_Constructor \<Rightarrow>
          Some (case strip_prefix nested_type_ident rust_name of Some sfx \<Rightarrow> sfx | None \<Rightarrow> [])
      | Some _ \<Rightarrow> None
      | None \<Rightarrow>
          (case strip_prefix nested_type_ident rust_name of
             Some sfx \<Rightarrow> if sfx = [] \<or> parses_as_u32 sfx then Some sfx else None
           | None \<Rightarrow> None))"

text \<open>The name settled on, with which declaration of its name the function is.\<close>

definition settle_method_name ::
    "string option \<Rightarrow> namespace \<Rightarrow> string \<Rightarrow> string \<Rightarrow> string option \<Rightarrow> (string \<times> nat option) st" where
  "settle_method_name predetermined ns type_ident rust_name cpp_declared_name =
     (case predetermined of
        Some name \<Rightarrow> st_return (name, None)
      | None \<Rightarrow> fz_get_overload_name ns type_ident rust_name cpp_declared_name)"

definition by_const_reference :: "argument_analysis list \<Rightarrow> bool" where
  "by_const_reference param_details \<longleftrightarrow>
     length param_details > 1 \<and> aa_has_lifetime (param_details ! 1) \<and> \<not> aa_is_mutable_reference (param_details ! 1)"

definition copy_or_move_kind :: "qualified_name \<Rightarrow> bool \<Rightarrow> argument_analysis list \<Rightarrow> fn_kind" where
  "copy_or_move_kind self_ty is_move param_details =
     (if is_move \<or> by_const_reference param_details then
        (case (if is_move then (Trait_MoveConstructor, ''move_new'', ''MoveNew'')
               else (Trait_CopyConstructor, ''copy_new'', ''CopyNew'')) of
           (kind, method_name, trait_id) \<Rightarrow>
             trait_kind kind self_ty (Type_Path (to_type_path self_ty))
               (Type_Path (plain_path False [''autocxx'', ''moveit'', ''new'', trait_id]))
               True True method_name (Some [1, 0]))
      else FnKind_Method (Constructor False) self_ty)"

definition drop_kind :: "qualified_name \<Rightarrow> fn_kind" where
  "drop_kind self_ty =
     trait_kind Trait_Destructor self_ty (Type_Path (to_type_path self_ty)) (Type_Path (plain_path False [''Drop'']))
       False False ''drop'' None"

text \<open>An ordinary method whose receiver cannot be found is a panic.\<close>

definition ordinary_method_kind :: "virtualness option \<Rightarrow> bool \<Rightarrow> receiver_mutability option \<Rightarrow> method_kind option" where
  "ordinary_method_kind virtualness is_static receiver_mutability =
     (if is_static then Some Static
      else map_option
             (\<lambda>mutability. case virtualness of
                None \<Rightarrow> Normal
              | Some Virtual \<Rightarrow> VirtualMethod mutability
              | Some PureVirtual \<Rightarrow> PureVirtualMethod mutability)
             receiver_mutability)"

record naming_input =
  ni_ns :: namespace
  ni_ideal :: string
  ni_declared :: "string option"
  ni_predetermined :: "string option"

text \<open>The kind of a method with the name asked for.\<close>

definition method_kind_and_name ::
    "func_to_convert \<Rightarrow> argument_analysis list \<Rightarrow> qualified_name \<Rightarrow> bool \<Rightarrow> receiver_mutability option \<Rightarrow>
     string \<Rightarrow> string \<Rightarrow> (fn_kind \<times> string) option" where
  "method_kind_and_name fn param_details self_ty is_static receiver_mutability nested_type_ident rust_name =
     (if fc_special_member fn \<in> {Some CopyConstructor, Some MoveConstructor} then
        Some (copy_or_move_kind self_ty (fc_special_member fn = Some MoveConstructor) param_details,
              case strip_prefix nested_type_ident rust_name of Some sfx \<Rightarrow> ''new'' @ sfx | None \<Rightarrow> rust_name)
      else if fc_special_member fn = Some Destructor then Some (drop_kind self_ty, rust_name)
      else case constructor_with_suffix rust_name nested_type_ident (fc_method_kind fn) of
        Some sfx \<Rightarrow>
          Some (FnKind_Method (Constructor (fc_special_member fn = Some DefaultConstructor)) self_ty, ''new'' @ sfx)
      | None \<Rightarrow>
          map_option (\<lambda>k. (FnKind_Method k self_ty, rust_name))
            (ordinary_method_kind (fc_virtualness fn) is_static receiver_mutability))"

definition name_method ::
    "func_to_convert \<Rightarrow> argument_analysis list \<Rightarrow> qualified_name \<Rightarrow> bool \<Rightarrow> receiver_mutability option \<Rightarrow>
     naming_input \<Rightarrow> (named_kind \<times> nat option) st" where
  "name_method fn param_details self_ty is_static receiver_mutability ni = (\<lambda>me.
     let nested_type_ident = (case map_of (fz_nested_type_name_map me) self_ty of
                                Some s \<Rightarrow> s | None \<Rightarrow> get_final_item self_ty)
     in case method_kind_and_name fn param_details self_ty is_static receiver_mutability nested_type_ident (ni_ideal ni) of
          None \<Rightarrow> None
        | Some (kind, rust_name) \<Rightarrow>
            st_bind (settle_method_name (ni_predetermined ni) (ni_ns ni) (get_final_item self_ty) rust_name (ni_declared ni))
              (\<lambda>(rust_name, index) me.
                 Some (((kind, error_context_for_method (fz_generic_types me) self_ty rust_name, rust_name), index), me)) me)"

definition name_free_function :: "naming_input \<Rightarrow> (named_kind \<times> nat option) st" where
  "name_free_function ni =
     st_bind (get_function_overload_name (ni_ns ni) (ni_ideal ni) (ni_declared ni)) (\<lambda>(rust_name, index).
     st_return ((FnKind_Function, new_for_item (make_ident rust_name), rust_name), index))"

text \<open>
  The receiver found among the parameters, or a static method's class. A trait is settled first, then
  a method, then a free function.
\<close>

definition name_and_kind ::
    "func_to_convert \<Rightarrow> argument_analysis list \<Rightarrow> naming_input \<Rightarrow> (named_kind \<times> nat option) st" where
  "name_and_kind fn param_details ni =
     (case (case List.map_filter aa_self_type param_details of
              (self_ty, mutability) # _ \<Rightarrow> (False, Some self_ty, Some mutability)
            | [] \<Rightarrow> (fc_self_ty fn \<noteq> None, fc_self_ty fn, None)) of
        (is_static, self_ty, receiver_mutability) \<Rightarrow>
      st_bind (trait_creation_details_for_synthetic_function (fc_add_to_trait fn) (ni_ns ni) (ni_ideal ni) self_ty)
        (\<lambda>details.
           case details of
             Some named \<Rightarrow> st_return (named, None)
           | None \<Rightarrow>
               (case self_ty of
                  Some self_ty \<Rightarrow> name_method fn param_details self_ty is_static receiver_mutability ni
                | None \<Rightarrow> name_free_function ni)))"

section \<open>Documentation\<close>

definition is_constructor_kind :: "fn_kind \<Rightarrow> bool" where
  "is_constructor_kind kind \<longleftrightarrow>
     (case kind of
        FnKind_Method (Constructor _) _ \<Rightarrow> True
      | FnKind_TraitMethod k _ _ \<Rightarrow> k \<in> {Trait_CopyConstructor, Trait_MoveConstructor}
      | _ \<Rightarrow> False)"

definition rename_note :: "string \<Rightarrow> string \<Rightarrow> bool \<Rightarrow> nat option \<Rightarrow> string option" where
  "rename_note rust_name cpp_name is_constructor overload_index =
     (case overload_index of
        Some index \<Rightarrow>
          Some (if index \<ge> 1 then
                  (if is_constructor
                   then '' C++: constructor '' @ nat_to_string (index + 1) @ '' of `'' @ cpp_name
                        @ ''`, counting in the order autocxx met them.''
                   else '' C++: `'' @ cpp_name @ ''`, declaration '' @ nat_to_string (index + 1)
                        @ '' of that name, counting in the order autocxx met them.'')
                else if is_constructor then '' C++: a constructor of `'' @ cpp_name @ ''`.''
                else '' C++: `'' @ cpp_name @ ''`.'')
      | None \<Rightarrow>
          if \<not> is_constructor \<and> rust_name \<noteq> cpp_name then Some ('' C++: `'' @ cpp_name @ ''`.'') else None)"

text \<open>The attribute is kept as its label.\<close>

definition rename_doc ::
    "string \<Rightarrow> cpp_original_name option \<Rightarrow> provenance \<Rightarrow> fn_kind \<Rightarrow> nat option \<Rightarrow> rust_tokens list" where
  "rename_doc rust_name cpp_original_name provenance kind overload_index =
     (if provenance \<noteq> Bindgen then []
      else case cpp_original_name of
        None \<Rightarrow> []
      | Some cpp_name \<Rightarrow>
          (case kind of
             FnKind_TraitMethod Trait_Destructor _ _ \<Rightarrow> []
           | _ \<Rightarrow>
               (case rename_note rust_name (original_name_string cpp_name) (is_constructor_kind kind) overload_index of
                  Some label \<Rightarrow> [label]
                | None \<Rightarrow> [])))"

end
