(* ===== verification/AnalyzeFunction.thy ===== *)
theory AnalyzeFunction imports FunctionNames begin

text \<open>
  The analysis of one function (\<^verbatim>\<open>FnAnalyzer::analyze_foreign_fn\<close> of \<^verbatim>\<open>analysis/fun/mod.rs\<close>), in the
  stages the code has: the parameters are converted, the function is named, the parameters that its
  kind wants converted otherwise are converted again, reasons to leave it out are collected, the
  return type is converted, and what C++ and Rust wrappers it needs is decided. Each reason to leave
  it out takes the place of the one before it. \<open>ok\<close>, \<open>n\<close> and \<open>get_hash\<close> are what \<^verbatim>\<open>syn\<close> takes for an
  identifier, the fuel of the type converter and the hash of the block.
\<close>

section \<open>The parameters\<close>

definition describe_arg :: "(string \<Rightarrow> bool) \<Rightarrow> fn_arg \<Rightarrow> string" where
  "describe_arg ok arg =
     (case arg of
        FnArg_Receiver tokens \<Rightarrow> ''the function receiver (this/self paramter)''
      | FnArg_Typed pat ty \<Rightarrow> if ok pat then pat else ''another argument we don't know how to describe'')"

record converted_inputs =
  cv_params :: "fn_arg list"
  cv_param_details :: "argument_analysis list"
  cv_bads :: "convert_error list"

fun convert_inputs ::
    "(string \<Rightarrow> bool) \<Rightarrow> nat \<Rightarrow> namespace \<Rightarrow> qualified_name \<Rightarrow> qualified_name option \<Rightarrow> sophistication \<Rightarrow>
     fn_arg list \<Rightarrow> converted_inputs st" where
  "convert_inputs ok n ns diagnostic_name virtual_this soph [] =
     st_return \<lparr>cv_params = [], cv_param_details = [], cv_bads = []\<rparr>"
| "convert_inputs ok n ns diagnostic_name virtual_this soph (i # inputs) =
     st_bind (convert_fn_arg ok n i ns diagnostic_name virtual_this True False None soph False) (\<lambda>outcome.
     st_bind (convert_inputs ok n ns diagnostic_name virtual_this soph inputs) (\<lambda>rest.
     st_return
       (case outcome of
          Inl err \<Rightarrow> rest\<lparr>cv_bads := ArgumentError (describe_arg ok i) err # cv_bads rest\<rparr>
        | Inr (param, details) \<Rightarrow>
            rest\<lparr>cv_params := param # cv_params rest, cv_param_details := details # cv_param_details rest\<rparr>)))"

text \<open>
  The second look at the parameters: for each kind, which parameter is converted again, what the
  Rust conversion is forced to be, whether it is what is constructed, and whether it is moved from.
\<close>

definition reanalyses :: "fn_kind \<Rightarrow> (nat \<times> forced_rust_conversion option \<times> bool \<times> bool) list" where
  "reanalyses kind =
     (case kind of
        FnKind_Method (Constructor _) _ \<Rightarrow> [(0, None, True, False)]
      | FnKind_TraitMethod Trait_Destructor _ _ \<Rightarrow> [(0, Some (Forced_Pointer FromTypeToPtr), False, False)]
      | FnKind_TraitMethod Trait_CopyConstructor _ _ \<Rightarrow>
          [(0, Some (Forced_Pointer FromPinMaybeUninitToPtr), False, False), (1, Some Forced_Identity, False, False)]
      | FnKind_TraitMethod Trait_MoveConstructor _ _ \<Rightarrow>
          [(0, Some (Forced_Pointer FromPinMaybeUninitToPtr), False, False),
           (1, Some (Forced_Pointer FromPinMoveRefToPtr), False, True)]
      | _ \<Rightarrow> [])"

definition arity_problems :: "fn_kind \<Rightarrow> nat \<Rightarrow> convert_error list" where
  "arity_problems kind params =
     (case kind of
        FnKind_TraitMethod k _ _ \<Rightarrow>
          if k \<in> {Trait_CopyConstructor, Trait_MoveConstructor} then
            (if params < 2 then [SignatureError ConstructorWithOnlyOneParam] else [])
            @ (if params > 2 then [SignatureError ConstructorWithMultipleParams] else [])
          else []
      | _ \<Rightarrow> [])"

type_synonym parameters = "fn_arg list \<times> argument_analysis list"

fun reanalyze_all ::
    "(string \<Rightarrow> bool) \<Rightarrow> nat \<Rightarrow> func_to_convert \<Rightarrow> namespace \<Rightarrow> qualified_name \<Rightarrow> sophistication \<Rightarrow>
     (nat \<times> forced_rust_conversion option \<times> bool \<times> bool) list \<Rightarrow> parameters \<Rightarrow>
     (parameters \<times> convert_error list) st" where
  "reanalyze_all ok n fn ns diagnostic_name soph [] ps = st_return (ps, [])"
| "reanalyze_all ok n fn ns diagnostic_name soph ((param_idx, force, construct_into_self, is_move) # rest) ps =
     st_bind (reanalyze_parameter ok n param_idx fn ns diagnostic_name ps force soph construct_into_self is_move)
       (\<lambda>outcome.
     st_bind (reanalyze_all ok n fn ns diagnostic_name soph rest (case outcome of Inr ps' \<Rightarrow> ps' | Inl e \<Rightarrow> ps))
       (\<lambda>(ps, problems).
     st_return (ps, (case outcome of Inl e \<Rightarrow> [e] | Inr _ \<Rightarrow> []) @ problems)))"

section \<open>Reasons to leave the function out\<close>

definition return_type_is_reference :: "rust_type option \<Rightarrow> bool" where
  "return_type_is_reference output_ty = (case output_ty of Some ty \<Rightarrow> type_is_reference ty True | None \<Rightarrow> False)"

text \<open>What is wrong with the class a method is of; asking the allowlist may panic.\<close>

definition class_problems :: "(include_cpp_config \<Rightarrow> nat) \<Rightarrow> fn_analyzer \<Rightarrow> fn_kind \<Rightarrow> convert_error list option" where
  "class_problems get_hash me kind =
     (let of_class = (\<lambda>impl_for.
            (if impl_for \<in> set (fz_generic_types me) then [MemberError MethodOfGenericType] else [])
            @ (if impl_for \<in> set (fz_types_in_anonymous_namespace me) then [MemberError MethodInAnonymousNamespace] else []))
      in case kind of
           FnKind_Function \<Rightarrow> Some []
         | FnKind_TraitMethod _ impl_for _ \<Rightarrow>
             Some (if \<not> is_cxx_acceptable_receiver known_types impl_for then [SignatureError UnsupportedReceiver]
                   else of_class impl_for)
         | FnKind_Method method_kind impl_for \<Rightarrow>
             if method_kind \<noteq> Static \<and> \<not> is_cxx_acceptable_receiver known_types impl_for
             then Some [SignatureError UnsupportedReceiver]
             else map_option
                    (\<lambda>listed. if \<not> listed \<and> impl_for \<notin> set (fz_instantiable_concrete_types me)
                              then [MemberError MethodOfNonAllowlistedType] else of_class impl_for)
                    (nested_is_on_allowlist get_hash (fz_config me) (fz_nested_cpp_names me) impl_for))"

definition is_assignment_operator :: "func_to_convert \<Rightarrow> bool" where
  "is_assignment_operator fn \<longleftrightarrow> fc_special_member fn = Some AssignmentOperator"

definition early_problems ::
    "(include_cpp_config \<Rightarrow> nat) \<Rightarrow> func_to_convert \<Rightarrow> convert_error list \<Rightarrow> fn_kind \<Rightarrow> fn_analyzer \<Rightarrow>
     convert_error list option" where
  "early_problems get_hash fn bads kind me =
     map_option
       (\<lambda>of_signature.
          (if fc_cpp_vis fn = Private then [MemberError PrivateMethod] else [])
          @ (if fc_variadic fn then [SignatureError Variadic] else []) @ of_signature)
       (case bads of
          problem # _ \<Rightarrow> Some [problem]
        | [] \<Rightarrow>
            if is_assignment_operator fn then Some [ConvertError_AssignmentOperator]
            else if return_type_is_reference (fc_output fn) then Some [SignatureError RValueReturn]
            else if fc_ref_qualifier fn = RValue then Some [SignatureError RValueRefQualifiedMethod]
            else if fc_is_deleted fn = Some Explicitness_Deleted then Some [Deleted]
            else class_problems get_hash me kind)"

definition return_problems ::
    "func_to_convert \<Rightarrow> string \<Rightarrow> return_type_analysis \<Rightarrow> argument_analysis list \<Rightarrow> convert_error list" where
  "return_problems fn rust_name ra param_details =
     (if is_assignment_operator fn then []
      else
        (let references = length (filter aa_has_lifetime param_details);
             mutable_references = length (filter (\<lambda>pd. aa_has_lifetime pd \<and> aa_is_mutable_reference pd) param_details)
         in (if rta_was_rvalue_reference ra then [SignatureError RValueReturn] else [])
            @ (if \<not> rta_was_reference ra then []
               else if references = 0 then [SignatureError (NoInputReference rust_name)]
               else if references > 1 then [SignatureError (MultipleInputReferences rust_name)] else [])
            @ (if \<not> rta_was_mutable_reference ra then []
               else if mutable_references = 0 then [SignatureError (NoMutableInputReference rust_name)]
               else if mutable_references > 1 then [SignatureError (MultipleMutableInputReferences rust_name)]
               else [])))"

text \<open>The last of the reasons is the one that is reported.\<close>

definition reported_reason ::
    "error_context \<Rightarrow> convert_error list \<Rightarrow> (convert_error_with_context, unit) result" where
  "reported_reason ctx problems =
     (if problems = [] then Inr () else Inl (ConvertErrorWithContext (last problems) (Some ctx)))"

section \<open>Throwing\<close>

text \<open>Every spelling is asked about, and only what is not a trait's method can throw.\<close>

definition throwing_spellings :: "func_to_convert \<Rightarrow> fn_kind \<Rightarrow> qualified_name \<Rightarrow> fn_analyzer \<Rightarrow> string list" where
  "throwing_spellings fn kind diagnostic_name me =
     (case kind of
        FnKind_Function \<Rightarrow> [to_cpp_name diagnostic_name]
      | FnKind_Method _ impl_for \<Rightarrow> class_spellings me impl_for (get_final_item diagnostic_name)
      | FnKind_TraitMethod _ impl_for _ \<Rightarrow> class_spellings me impl_for (get_final_item diagnostic_name))
     @ (case fc_synthetic_cpp fn of
          Some (BaseClassMethodCall base base_cpp_spelling method receiver_mutability, _) \<Rightarrow>
            class_spellings me base (effective_name_string method)
        | _ \<Rightarrow> [])"

definition decide_may_throw :: "func_to_convert \<Rightarrow> fn_kind \<Rightarrow> qualified_name \<Rightarrow> bool st" where
  "decide_may_throw fn kind diagnostic_name = (\<lambda>me.
     case asking_config (named_by is_on_throws_list) (throwing_spellings fn kind diagnostic_name me) me of
       (designated, me) \<Rightarrow>
         Some (designated \<and> (case kind of FnKind_TraitMethod _ _ _ \<Rightarrow> False | _ \<Rightarrow> True), me))"

section \<open>Wrappers\<close>

record wrapper_facts =
  wf_cxxbridge_name :: ident
  wf_rust_name :: string
  wf_param_conversion_needed :: bool
  wf_ret_type_conversion_needed :: bool
  wf_ret_type_was_const :: bool
  wf_ret_type_was_volatile :: bool
  wf_any_param_pointee_was_volatile :: bool
  wf_cpp_name_incompatible_with_cxx :: bool

definition wrapper_function_needed :: "bool \<Rightarrow> func_to_convert \<Rightarrow> fn_kind \<Rightarrow> wrapper_facts \<Rightarrow> bool" where
  "wrapper_function_needed force_wrapper_generation fn kind w \<longleftrightarrow>
     (case kind of
        FnKind_Method method_kind _ \<Rightarrow>
          (case method_kind of Normal \<Rightarrow> False | _ \<Rightarrow> True) \<or> wf_cxxbridge_name w \<noteq> wf_rust_name w
      | FnKind_TraitMethod k _ _ \<Rightarrow> k \<in> {Trait_CopyConstructor, Trait_MoveConstructor, Trait_Destructor}
      | FnKind_Function \<Rightarrow> False)
     \<or> fc_ref_qualifier fn = LValue
     \<or> wf_param_conversion_needed w
     \<or> wf_ret_type_conversion_needed w
     \<or> wf_ret_type_was_const w
     \<or> wf_ret_type_was_volatile w
     \<or> wf_any_param_pointee_was_volatile w
     \<or> fc_deprecation fn \<noteq> None
     \<or> wf_cpp_name_incompatible_with_cxx w
     \<or> fc_synthetic_cpp fn \<noteq> None
     \<or> force_wrapper_generation"

definition wrapper_payload ::
    "func_to_convert \<Rightarrow> fn_kind \<Rightarrow> namespace \<Rightarrow> cpp_effective_name \<Rightarrow> cpp_function_body \<times> cpp_function_kind" where
  "wrapper_payload fn kind ns underlying_cpp_function_name =
     (case fc_synthetic_cpp fn of
        Some payload \<Rightarrow> payload
      | None \<Rightarrow>
          (case kind of
             FnKind_Method (Constructor _) impl_for \<Rightarrow>
               (PlacementNew ns (get_final_item impl_for), CppFunction_Constructor)
           | FnKind_Method Static impl_for \<Rightarrow>
               (StaticMethodCall ns (get_final_item impl_for) underlying_cpp_function_name, CppFunction_Function)
           | FnKind_Method _ _ \<Rightarrow> (FunctionCall ns underlying_cpp_function_name, CppFunction_Method)
           | FnKind_TraitMethod k impl_for _ \<Rightarrow>
               if k \<in> {Trait_CopyConstructor, Trait_MoveConstructor}
               then (PlacementNew ns (get_final_item impl_for), CppFunction_Constructor)
               else if k = Trait_Destructor
               then (Body_Destructor ns (get_final_item impl_for), CppFunction_Function)
               else (FunctionCall ns underlying_cpp_function_name, CppFunction_Function)
           | FnKind_Function \<Rightarrow> (FunctionCall ns underlying_cpp_function_name, CppFunction_Function)))"

definition wrapper_name :: "(include_cpp_config \<Rightarrow> nat) \<Rightarrow> include_cpp_config \<Rightarrow> ident \<Rightarrow> ident" where
  "wrapper_name get_hash config cxxbridge_name =
     make_ident (uniquify_name_per_mod get_hash config
       (cxxbridge_name @ (if suffix ''_'' cxxbridge_name then '''' else ''_'') @ ''autocxx_wrapper''))"

definition RECEIVER_ARG_NAME :: string where
  "RECEIVER_ARG_NAME = ''autocxx_gen_this''"

definition wrapper_params :: "argument_analysis list \<Rightarrow> fn_arg list" where
  "wrapper_params param_details =
     map (\<lambda>pd. FnArg_Typed (if aa_self_type pd \<noteq> None then RECEIVER_ARG_NAME else aa_name pd)
                 (converted_rust_type (aa_conversion pd))) param_details"

definition wrapper_ret_type :: "type_conversion_policy option \<Rightarrow> rust_type option \<Rightarrow> rust_type option" where
  "wrapper_ret_type conversion ret_type =
     (case conversion of
        Some c \<Rightarrow> if populate_return_value c then Some (unconverted_rust_type c) else ret_type
      | None \<Rightarrow> ret_type)"

definition rust_wrapper_is_needed ::
    "bool \<Rightarrow> func_to_convert \<Rightarrow> fn_kind \<Rightarrow> ident \<Rightarrow> string \<Rightarrow> argument_analysis list \<Rightarrow> type_conversion_policy option \<Rightarrow> bool" where
  "rust_wrapper_is_needed force_wrapper_generation fn kind cxxbridge_name rust_name param_details ret_conversion \<longleftrightarrow>
     list_ex (\<lambda>pd. rust_work_needed (aa_conversion pd)) param_details
     \<or> (case ret_conversion of Some c \<Rightarrow> rust_work_needed c | None \<Rightarrow> False)
     \<or> (case kind of
          FnKind_TraitMethod _ _ _ \<Rightarrow> True
        | FnKind_Method _ _ \<Rightarrow> cxxbridge_name \<noteq> rust_name
        | FnKind_Function \<Rightarrow> fc_deprecation fn \<noteq> None \<or> force_wrapper_generation)"

definition rust_rename_strategy_of :: "bool \<Rightarrow> fn_kind \<Rightarrow> ident \<Rightarrow> string \<Rightarrow> rust_rename_strategy" where
  "rust_rename_strategy_of rust_wrapper_needed kind cxxbridge_name rust_name =
     (if rust_wrapper_needed then RenameUsingWrapperFunction
      else if kind = FnKind_Function \<and> cxxbridge_name \<noteq> rust_name then RenameInOutputMod (make_ident rust_name)
      else Rename_None)"

section \<open>The whole analysis\<close>

text \<open>What is known of a function once its signature has been read.\<close>

record signature_read =
  rs_kind :: fn_kind
  rs_context :: error_context
  rs_rust_name :: string
  rs_overload_index :: "nat option"
  rs_cxxbridge_name :: ident
  rs_params :: "fn_arg list"
  rs_param_details :: "argument_analysis list"
  rs_return :: return_type_analysis
  rs_deps :: "qualified_name list"
  rs_problems :: "convert_error list"

definition diagnostic_name_of :: "api_name \<Rightarrow> func_to_convert \<Rightarrow> qualified_name" where
  "diagnostic_name_of name fn =
     QualifiedName_new (get_namespace (an_name name))
       (make_ident (case an_cpp_name name of Some n \<Rightarrow> original_name_string n | None \<Rightarrow> fc_ident fn))"

definition naming_input_of :: "(string \<Rightarrow> bool) \<Rightarrow> api_name \<Rightarrow> func_to_convert \<Rightarrow> string option \<Rightarrow> naming_input" where
  "naming_input_of ok name fn predetermined =
     (let ideal = ideal_rust_name ok (fc_ident fn) (an_cpp_name name) in
      \<lparr>ni_ns = get_namespace (an_name name), ni_ideal = ideal,
       ni_declared = (if fc_provenance fn = Bindgen
                      then Some (case an_cpp_name name of Some n \<Rightarrow> original_name_string n | None \<Rightarrow> ideal)
                      else None),
       ni_predetermined = predetermined\<rparr>)"

definition class_of_kind :: "fn_kind \<Rightarrow> qualified_name option" where
  "class_of_kind kind =
     (case kind of
        FnKind_Function \<Rightarrow> None
      | FnKind_Method _ impl_for \<Rightarrow> Some impl_for
      | FnKind_TraitMethod _ impl_for _ \<Rightarrow> Some impl_for)"

text \<open>A return type that cannot be converted leaves the function returning nothing, with the reason.\<close>

definition read_return_type ::
    "(string \<Rightarrow> bool) \<Rightarrow> nat \<Rightarrow> func_to_convert \<Rightarrow> namespace \<Rightarrow> qualified_name \<Rightarrow> sophistication \<Rightarrow>
     (return_type_analysis \<times> convert_error list) st" where
  "read_return_type ok n fn ns diagnostic_name soph =
     st_bind (convert_return_type ok n (fc_output fn) ns diagnostic_name soph) (\<lambda>outcome.
     st_return (case outcome of
                  Inr ra \<Rightarrow> (ra, [])
                | Inl e \<Rightarrow> (ReturnTypeAnalysis_default, [e])))"

definition read_signature ::
    "(include_cpp_config \<Rightarrow> nat) \<Rightarrow> (string \<Rightarrow> bool) \<Rightarrow> nat \<Rightarrow> api_name \<Rightarrow> func_to_convert \<Rightarrow> sophistication \<Rightarrow>
     string option \<Rightarrow> signature_read st" where
  "read_signature get_hash ok n name fn soph predetermined =
     (let ns = get_namespace (an_name name); diagnostic_name = diagnostic_name_of name fn in
      st_bind (convert_inputs ok n ns diagnostic_name (fc_synthesized_this_type fn) soph (fc_inputs fn)) (\<lambda>inputs.
      st_bind (name_and_kind fn (cv_param_details inputs) (naming_input_of ok name fn predetermined))
        (\<lambda>((kind, ctx, rust_name), overload_index).
      st_bind (reanalyze_all ok n fn ns diagnostic_name soph (reanalyses kind)
                 (cv_params inputs, cv_param_details inputs)) (\<lambda>((params, param_details), unconvertible).
      st_bind (st_ask (early_problems get_hash fn (cv_bads inputs) kind)) (\<lambda>early.
      st_bind (\<lambda>me. Some (get_cxx_bridge_name (map_option get_final_item (class_of_kind kind)) rust_name ns me))
        (\<lambda>cxxbridge_name.
      st_bind (read_return_type ok n fn ns diagnostic_name soph) (\<lambda>(ra, not_returnable).
      let placed = (case rta_placement_param_needed ra of Some p \<Rightarrow> [p] | None \<Rightarrow> []);
          params = params @ map fst placed; param_details = param_details @ map snd placed
      in st_return
           \<lparr>rs_kind = kind, rs_context = ctx, rs_rust_name = rust_name, rs_overload_index = overload_index,
            rs_cxxbridge_name = cxxbridge_name, rs_params = params, rs_param_details = param_details,
            rs_return = ra,
            rs_deps = fold iset_insert (concat (map aa_deps (cv_param_details inputs)) @ rta_deps ra) [],
            rs_problems = arity_problems kind (length (cv_param_details inputs)) @ unconvertible @ early
                          @ not_returnable @ return_problems fn rust_name ra param_details\<rparr>)))))))"

definition wrapper_facts_of :: "(string \<Rightarrow> bool) \<Rightarrow> api_name \<Rightarrow> signature_read \<Rightarrow> wrapper_facts" where
  "wrapper_facts_of ok name s =
     \<lparr>wf_cxxbridge_name = rs_cxxbridge_name s, wf_rust_name = rs_rust_name s,
      wf_param_conversion_needed = list_ex (\<lambda>pd. cpp_work_needed (aa_conversion pd)) (rs_param_details s),
      wf_ret_type_conversion_needed =
        (case rta_conversion (rs_return s) of Some c \<Rightarrow> cpp_work_needed c | None \<Rightarrow> False),
      wf_ret_type_was_const = rta_was_const (rs_return s),
      wf_ret_type_was_volatile = rta_was_volatile (rs_return s),
      wf_any_param_pointee_was_volatile = list_ex (\<lambda>pd. pointee_was_volatile (aa_conversion pd)) (rs_param_details s),
      wf_cpp_name_incompatible_with_cxx =
        (case an_cpp_name name of Some n \<Rightarrow> validate_ident_ok_for_rust ok n \<noteq> Inr () | None \<Rightarrow> False)\<rparr>"

text \<open>The wrapper C++ is given, named after the bridge's function.\<close>

definition cpp_wrapper_of ::
    "(include_cpp_config \<Rightarrow> nat) \<Rightarrow> include_cpp_config \<Rightarrow> api_name \<Rightarrow> func_to_convert \<Rightarrow> signature_read \<Rightarrow> cpp_function" where
  "cpp_wrapper_of get_hash config name fn s =
     (let wrapper_ident = wrapper_name get_hash config (rs_cxxbridge_name s);
          underlying = (case an_cpp_name name of Some n \<Rightarrow> to_effective_name n
                        | None \<Rightarrow> CppEffectiveName (rs_rust_name s));
          (payload, cpp_function_kind) = wrapper_payload fn (rs_kind s) (get_namespace (an_name name)) underlying
      in \<lparr>cf_payload = payload, cf_wrapper_function_name = wrapper_ident,
          cf_original_cpp_name = (case an_cpp_name name of Some n \<Rightarrow> to_effective_name n
                                  | None \<Rightarrow> CppEffectiveName wrapper_ident),
          cf_return_conversion = rta_conversion (rs_return s),
          cf_argument_conversion = map aa_conversion (rs_param_details s),
          cf_kind = cpp_function_kind, cf_pass_obs_field = False, cf_qualification = None,
          cf_ref_qualifier = RefQualifier_None, cf_calls_deprecated = (fc_deprecation fn \<noteq> None),
          cf_is_virtual_override = False, cf_exception_specification = Spec_None\<rparr>)"

definition cpp_call_name_of :: "api_name \<Rightarrow> signature_read \<Rightarrow> cpp_original_name option" where
  "cpp_call_name_of name s =
     (case an_cpp_name name of
        Some n \<Rightarrow> Some n
      | None \<Rightarrow> if rs_cxxbridge_name s \<noteq> rs_rust_name s then Some (CppOriginalName (rs_rust_name s)) else None)"

definition finish_function ::
    "(include_cpp_config \<Rightarrow> nat) \<Rightarrow> (string \<Rightarrow> bool) \<Rightarrow> api_name \<Rightarrow> func_to_convert \<Rightarrow> signature_read \<Rightarrow> bool \<Rightarrow>
     bool \<Rightarrow> fn_analyzer \<Rightarrow> fn_analysis" where
  "finish_function get_hash ok name fn s may_throw blocked me =
     (let force = fz_force_wrapper_generation me; kind = rs_kind s;
          wrapper_needed = wrapper_function_needed force fn kind (wrapper_facts_of ok name s);
          cpp_wrapper = (if wrapper_needed then Some (cpp_wrapper_of get_hash (fz_config me) name fn s) else None);
          cxxbridge_name = (case cpp_wrapper of Some w \<Rightarrow> cf_wrapper_function_name w | None \<Rightarrow> rs_cxxbridge_name s);
          conversion = rta_conversion (rs_return s);
          rust_wrapper_needed = rust_wrapper_is_needed force fn kind cxxbridge_name (rs_rust_name s)
                                  (rs_param_details s) conversion
      in \<lparr>fa_cxxbridge_name = cxxbridge_name,
          fa_rust_name = rs_rust_name s,
          fa_cpp_call_name = cpp_call_name_of name s,
          fa_rust_rename_strategy = rust_rename_strategy_of rust_wrapper_needed kind cxxbridge_name (rs_rust_name s),
          fa_params = (if wrapper_needed then wrapper_params (rs_param_details s) else rs_params s),
          fa_kind = kind,
          fa_ret_type = (if wrapper_needed then wrapper_ret_type conversion (rta_rt (rs_return s)) else rta_rt (rs_return s)),
          fa_param_details = rs_param_details s,
          fa_ret_conversion = conversion,
          fa_requires_unsafe = should_be_unsafe (fz_unsafe_policy me) (rs_param_details s) kind,
          fa_vis = fc_vis fn,
          fa_cpp_wrapper = cpp_wrapper,
          fa_deps = rs_deps s,
          fa_ignore_reason = reported_reason (rs_context s)
            (rs_problems s
             @ (case validate_ident_ok_for_cxx ok cxxbridge_name of Inl e \<Rightarrow> [InvalidIdent e] | Inr _ \<Rightarrow> [])
             @ (if blocked then [MemberError FunctionBlocked] else [])),
          fa_externally_callable = (fc_cpp_vis fn = Public),
          fa_rust_wrapper_needed = rust_wrapper_needed,
          fa_may_throw = may_throw,
          fa_rename_doc = rename_doc (rs_rust_name s) (an_cpp_name name) (fc_provenance fn) kind (rs_overload_index s)\<rparr>)"

definition analyze_foreign_fn ::
    "(include_cpp_config \<Rightarrow> nat) \<Rightarrow> (string \<Rightarrow> bool) \<Rightarrow> nat \<Rightarrow> api_name \<Rightarrow> func_to_convert \<Rightarrow> sophistication \<Rightarrow>
     string option \<Rightarrow> (fn_analysis \<times> api_name) st" where
  "analyze_foreign_fn get_hash ok n name fn soph predetermined =
     st_bind (read_signature get_hash ok n name fn soph predetermined) (\<lambda>s.
     st_bind (decide_may_throw fn (rs_kind s) (diagnostic_name_of name fn)) (\<lambda>may_throw.
     st_bind (st_ask Some) (\<lambda>me.
     st_bind (\<lambda>me. Some (is_blocked_by_directive (rs_kind s) (diagnostic_name_of name fn) me)) (\<lambda>blocked.
     let analysis = finish_function get_hash ok name fn s may_throw blocked me
     in st_return
          (analysis,
           ApiName_new_with_cpp_name (get_namespace (an_name name)) (fa_cxxbridge_name analysis) (an_cpp_name name))))))"

text \<open>The analyzed function is pushed as any item is, where its name may displace another or be refused.\<close>

definition analyze_and_add ::
    "(include_cpp_config \<Rightarrow> nat) \<Rightarrow> (string \<Rightarrow> bool) \<Rightarrow> nat \<Rightarrow> api_name \<Rightarrow> func_to_convert \<Rightarrow>
     ('td, 'st, fn_analysis, 'sub) api_vec \<Rightarrow> sophistication \<Rightarrow> string option \<Rightarrow>
     (qualified_name \<times> ('td, 'st, fn_analysis, 'sub) api_vec) st" where
  "analyze_and_add get_hash ok n name new_func results soph predetermined =
     st_bind (analyze_foreign_fn get_hash ok n name new_func soph predetermined) (\<lambda>(analysis, name).
     st_bind (st_ask (\<lambda>_. apivec_push results (Api_Function name new_func analysis))) (\<lambda>results.
     st_return (an_name name, results)))"

section \<open>Stages that come to an end\<close>

lemma staged [simp]:
  "st_bind m f me = Some r \<longleftrightarrow> (\<exists>x me'. m me = Some (x, me') \<and> f x me' = Some r)"
  "st_return x me = Some (y, me') \<longleftrightarrow> y = x \<and> me' = me"
  "st_ask q me = Some (y, me') \<longleftrightarrow> q me = Some y \<and> me' = me"
  by (auto simp: st_bind_def st_return_def st_ask_def split: option.splits)

section \<open>Parameters and what is said of them\<close>

text \<open>
  A parameter as it is written in the bridge beside its analysis: it has the name, and its type is
  what its conversion takes unless C++ has work to do, when a wrapper with types of its own is made.
\<close>

definition arg_ok :: "fn_arg \<Rightarrow> argument_analysis \<Rightarrow> bool" where
  "arg_ok param pd \<longleftrightarrow>
     (\<exists>ty. param = FnArg_Typed (aa_name pd) ty \<and>
        (\<not> cpp_work_needed (aa_conversion pd) \<longrightarrow> ty = converted_rust_type (aa_conversion pd))) \<and>
     sides_agree (aa_conversion pd)"

lemma idle_conversion:
  assumes "argument_conversion_details me annotated mv force soph is_self pl = Some (Inr p)" "\<not> cpp_work_needed p"
  shows "converted_rust_type p = ann_ty annotated"
proof -
  have volatile: "volatile_pointee_policy ty False = Some (Some p) \<Longrightarrow> cpp_work_needed p" for ty
    by (auto simp: volatile_pointee_policy_def volatile_cpp_conversion_def split: option.splits if_splits bool.splits)
  have path: "path_conversion me ty tp tn force soph r = Inr p \<Longrightarrow> converted_rust_type p = ty" for ty tp tn r
    using assms(2) by (auto simp: path_conversion_def converted_rust_type_def new_unconverted_def split: option.splits if_splits)
  have ptr: "converted_rust_type (ptr_conversion me m elem mv force rv r pl) = Type_Ptr m elem"
    if "p = ptr_conversion me m elem mv force rv r pl" for m elem rv r
    using assms(2) that
    by (auto simp: ptr_conversion_def Let_def converted_rust_type_def BridgePointer_ty_def BridgePointer_to_def ptr_is_mut_def)
  have plain: "plain_conversion me ty mv force soph rv r pl = Some (Inr p) \<Longrightarrow> converted_rust_type p = ty" for ty rv r
    using assms(2)
    by (auto simp: plain_conversion_def map_sum_Inr_iff ptr path split: rust_type.splits if_splits option.splits)
       (auto simp: converted_rust_type_def)
  have viewed: "\<not> string_view_conversion me sv = Inr p" for sv
    using assms(2) by (auto simp: string_view_conversion_def split: string_view_param.splits if_splits)
  have held: "\<not> held_by_subclass h = Some p" for h using assms(2) by (auto simp: held_by_subclass_def)
  show ?thesis
    using assms unfolding argument_conversion_details_def Let_def
    by (auto simp: viewed held split: option.splits sum.splits if_splits converted_kind.splits dest: volatile plain)
qed

lemma converted_arg_ok:
  assumes "convert_fn_arg ok n arg ns d v t mv force soph c me = Some (Inr (param, pd), me')" "\<not> wraps_itself force"
  shows "arg_ok param pd"
  using assms
  by (auto simp: convert_fn_arg_def bound_step Let_def arg_ok_def split: fn_arg.splits
      dest: idle_conversion accepted_sides)


lemma inputs_ok:
  assumes "convert_inputs ok n ns d v soph inputs me = Some (c, me')"
  shows "list_all2 arg_ok (cv_params c) (cv_param_details c) \<and>
    length (cv_params c) + length (cv_bads c) = length inputs"
  using assms
proof (induction inputs arbitrary: me c me')
  case (Cons i inputs)
  then obtain outcome me1 rest me2 where one: "convert_fn_arg ok n i ns d v True False None soph False me = Some (outcome, me1)"
    and rest: "convert_inputs ok n ns d v soph inputs me1 = Some (rest, me2)"
    and c: "c = (case outcome of
          Inl err \<Rightarrow> rest\<lparr>cv_bads := ArgumentError (describe_arg ok i) err # cv_bads rest\<rparr>
        | Inr (param, details) \<Rightarrow>
            rest\<lparr>cv_params := param # cv_params rest, cv_param_details := details # cv_param_details rest\<rparr>)"
    by auto
  from Cons.IH[OF rest] one show ?case
    by (cases outcome) (auto simp: c wraps_itself_def intro!: converted_arg_ok)
qed simp

lemma reanalyzed_ok:
  assumes "reanalyze_parameter ok n i fn ns d (params, details) force soph c mv me = Some (Inr (params', details'), me')"
    and "list_all2 arg_ok params details" "\<not> wraps_itself force"
  shows "list_all2 arg_ok params' details' \<and> length params' = length params"
proof -
  from assms(1) obtain arg new_arg new_analysis me1 where
    new: "convert_fn_arg ok n arg ns d (fc_synthesized_this_type fn) False mv force soph c me = Some (Inr (new_arg, new_analysis), me1)"
    and i: "i < length details" "params' = take i params @ [new_arg] @ drop (Suc i) params"
      "details' = details[i := new_analysis]"
    by (auto simp: reanalyze_parameter_def bound_step split: if_splits)
  have len: "length params = length details" using assms(2) by (rule list_all2_lengthD)
  with i have "params' = params[i := new_arg]" by (simp add: upd_conv_take_nth_drop)
  with i(3) assms(2) converted_arg_ok[OF new assms(3)] len show ?thesis by (simp add: list_all2_update_cong)
qed

lemma reanalyses_plain: "(i, force, c, mv) \<in> set (reanalyses kind) \<Longrightarrow> \<not> wraps_itself force"
  by (auto simp: reanalyses_def wraps_itself_def split: fn_kind.splits method_kind.splits trait_method_kind.splits)

lemma all_reanalyzed_ok:
  assumes "reanalyze_all ok n fn ns d soph rs ps me = Some ((ps', problems), me')"
    and "list_all2 arg_ok (fst ps) (snd ps)" "\<forall>(i, force, c, mv) \<in> set rs. \<not> wraps_itself force"
  shows "list_all2 arg_ok (fst ps') (snd ps') \<and> length (fst ps') = length (fst ps)"
  using assms
proof (induction rs arbitrary: ps ps' problems me me')
  case (Cons r rs)
  obtain i force c mv where r: "r = (i, force, c, mv)" by (cases r)
  from Cons.prems(1) obtain outcome me1 ps1 problems1 where
    one: "reanalyze_parameter ok n i fn ns d ps force soph c mv me = Some (outcome, me1)"
    and rest: "reanalyze_all ok n fn ns d soph rs (case outcome of Inr ps' \<Rightarrow> ps' | Inl e \<Rightarrow> ps) me1 = Some ((ps', problems1), me')"
    by (auto simp: r)
  have "list_all2 arg_ok (fst qs) (snd qs) \<and> length (fst qs) = length (fst ps)"
    if "outcome = Inr qs" for qs
    using reanalyzed_ok[of ok n i fn ns d "fst ps" "snd ps" force soph c mv me "fst qs" "snd qs" me1] one that Cons.prems(2,3)
    by (simp add: r)
  with Cons.prems(2) have "list_all2 arg_ok (fst qs) (snd qs) \<and> length (fst qs) = length (fst ps)"
    if "qs = (case outcome of Inr ps' \<Rightarrow> ps' | Inl e \<Rightarrow> ps)" for qs using that by (auto split: sum.splits)
  from this[OF refl] Cons.IH[OF rest] Cons.prems(3) show ?case by auto
qed simp

lemma placement_ok:
  assumes "convert_return_type ok n rt ns d soph me = Some (Inr ra, me')" "rta_placement_param_needed ra = Some (param, pd)"
  shows "arg_ok param pd"
proof -
  have "\<not> wraps_itself forced_placement" by (simp add: wraps_itself_def)
  with assms show ?thesis
    unfolding convert_return_type_def
    by (auto simp: bound_step Let_def return_volatile_pointer_def ReturnTypeAnalysis_default_def return_as_is_def
        map_sum_Inr_iff return_by_value_def
        split: option.splits if_splits rust_type.splits intro: converted_arg_ok)
qed

lemma return_read_ok:
  assumes "read_return_type ok n fn ns d soph me = Some ((ra, problems), me')" "rta_placement_param_needed ra = Some (param, pd)"
  shows "arg_ok param pd"
proof -
  from assms(1) obtain outcome where "convert_return_type ok n (fc_output fn) ns d soph me = Some (outcome, me')"
    "(ra, problems) = (case outcome of Inr ra \<Rightarrow> (ra, []) | Inl e \<Rightarrow> (ReturnTypeAnalysis_default, [e]))"
    by (auto simp: read_return_type_def)
  with assms(2) show ?thesis
    by (cases outcome) (auto simp: ReturnTypeAnalysis_default_def intro: placement_ok)
qed

lemma read_signature_ok:
  assumes "read_signature get_hash ok n name fn soph predetermined me = Some (s, me')"
  shows "list_all2 arg_ok (rs_params s) (rs_param_details s)"
proof -
  from assms obtain inputs me1 kind ctx rust_name index me2 params details unconvertible me3 ra not_returnable me4 me5 where
    inputs: "convert_inputs ok n (get_namespace (an_name name)) (diagnostic_name_of name fn)
      (fc_synthesized_this_type fn) soph (fc_inputs fn) me = Some (inputs, me1)"
    and again: "reanalyze_all ok n fn (get_namespace (an_name name)) (diagnostic_name_of name fn) soph (reanalyses kind)
      (cv_params inputs, cv_param_details inputs) me2 = Some (((params, details), unconvertible), me3)"
    and ret: "read_return_type ok n fn (get_namespace (an_name name)) (diagnostic_name_of name fn) soph me4 =
      Some ((ra, not_returnable), me5)"
    and s: "rs_params s = params @ map fst (case rta_placement_param_needed ra of Some p \<Rightarrow> [p] | None \<Rightarrow> [])"
      "rs_param_details s = details @ map snd (case rta_placement_param_needed ra of Some p \<Rightarrow> [p] | None \<Rightarrow> [])"
    by (auto simp: read_signature_def Let_def)
  have "list_all2 arg_ok params details"
    using all_reanalyzed_ok[OF again] inputs_ok[OF inputs] reanalyses_plain by fastforce
  with return_read_ok[OF ret] show ?thesis by (auto simp: s split: option.splits intro!: list_all2_appendI)
qed

text \<open>
  C4: what the bridge declares. Analyzing a function gives as many parameters as it gives analyses of
  them, and each is written in the bridge with the type its conversion takes, under its own name, or
  the receiver's name where a wrapper is made; where Rust's side of a conversion produces a type of
  its own, it is the type that is declared. This holds with a wrapper and without one, for whatever
  signature, kind of function and policy.
\<close>

theorem bridge_declares_what_crosses:
  assumes "analyze_foreign_fn get_hash ok n name fn soph predetermined me = Some ((analysis, name'), me')"
  shows "list_all2
    (\<lambda>param pd.
       param = FnArg_Typed
         (if fa_cpp_wrapper analysis \<noteq> None \<and> aa_self_type pd \<noteq> None then RECEIVER_ARG_NAME else aa_name pd)
         (converted_rust_type (aa_conversion pd)) \<and>
       (case rust_hands (aa_conversion pd) of
          Some t \<Rightarrow> converted_rust_type (aa_conversion pd) = t
        | None \<Rightarrow> True))
    (fa_params analysis) (fa_param_details analysis)"
proof -
  from assms obtain s me1 may_throw blocked me2 where
    s: "read_signature get_hash ok n name fn soph predetermined me = Some (s, me1)"
    and a: "analysis = finish_function get_hash ok name fn s may_throw blocked me2"
    by (auto simp: analyze_foreign_fn_def Let_def)
  let ?needed = "wrapper_function_needed (fz_force_wrapper_generation me2) fn (rs_kind s) (wrapper_facts_of ok name s)"
  have parts: "fa_param_details analysis = rs_param_details s" "(fa_cpp_wrapper analysis \<noteq> None) = ?needed"
    "fa_params analysis = (if ?needed then wrapper_params (rs_param_details s) else rs_params s)"
    by (simp_all add: a finish_function_def Let_def)
  have ok: "list_all2 arg_ok (rs_params s) (rs_param_details s)" by (rule read_signature_ok[OF s])
  have agreed: "sides_agree (aa_conversion pd)" if "pd \<in> set (rs_param_details s)" for pd
    using ok that by (auto simp: list_all2_conv_all_nth in_set_conv_nth arg_ok_def)
  have hands: "case rust_hands (aa_conversion pd) of Some t \<Rightarrow> converted_rust_type (aa_conversion pd) = t | None \<Rightarrow> True"
    if "pd \<in> set (rs_param_details s)" for pd
    using agreed[OF that] by (auto simp: sides_agree_def split: option.splits)
  show ?thesis
  proof (cases ?needed)
    case True
    with parts(2) have "fa_cpp_wrapper analysis \<noteq> None" by simp
    with True show ?thesis using hands
      by (auto simp: parts wrapper_params_def list_all2_map1 intro!: list.rel_refl_strong)
  next
    case False
    with parts(2) have unwrapped: "fa_cpp_wrapper analysis = None" by simp
    from False have "\<not> cpp_work_needed (aa_conversion pd)" if "pd \<in> set (rs_param_details s)" for pd
      using that by (auto simp: wrapper_function_needed_def wrapper_facts_of_def list_ex_iff)
    with False unwrapped ok hands show ?thesis
      by (auto simp: parts list_all2_conv_all_nth arg_ok_def)
  qed
qed


section \<open>Functions that are not left out\<close>

text \<open>What the steps of the analysis leave as it was found.\<close>

definition same_classes :: "fn_analyzer \<Rightarrow> fn_analyzer \<Rightarrow> bool" where
  "same_classes me me' \<longleftrightarrow>
     fz_generic_types me' = fz_generic_types me \<and> fz_types_in_anonymous_namespace me' = fz_types_in_anonymous_namespace me"

lemma same_classes_trans: "same_classes me me1 \<Longrightarrow> same_classes me1 me2 \<Longrightarrow> same_classes me me2"
  by (simp add: same_classes_def)

lemma same_classes_refl [simp]: "same_classes me me"
  by (simp add: same_classes_def)

lemma bind_same:
  assumes "fz_bind m f me = Some (r, me'')" "\<And>x me'. m me = Some (x, me') \<Longrightarrow> same_classes me me'"
    "\<And>x me'. f x me' = Some (r, me'') \<Longrightarrow> same_classes me' me''"
  shows "same_classes me me''"
proof -
  from assms(1) obtain x me' where m: "m me = Some (x, me')" by (auto simp: fz_bind_def split: option.splits)
  have "me'' = me' \<or> (\<exists>y. f y me' = Some (r, me''))" using assms(1) m by (auto simp: fz_bind_def split: sum.splits)
  with m assms(2)[of x me'] assms(3)[of _ me'] show ?thesis by (auto intro: same_classes_trans)
qed

lemma boxed_same: "fz_convert_boxed_type ok n ty ns me = Some (r, me') \<Longrightarrow> same_classes me me'"
  by (auto simp: fz_convert_boxed_type_def same_classes_def split: option.splits sum.splits)

lemma basic_same:
  "fz_return x me = Some (r, me') \<Longrightarrow> same_classes me me'" "fz_throw e me = Some (r, me') \<Longrightarrow> same_classes me me'"
  "fz_unwrap y me = Some (r, me') \<Longrightarrow> same_classes me me'" "fz_ask q me = Some (r, me') \<Longrightarrow> same_classes me me'"
  by (auto simp: fz_return_def fz_throw_def fz_unwrap_def fz_ask_def split: option.splits)

lemma arg_same: "convert_fn_arg ok n arg ns d v t mv force soph c me = Some (r, me') \<Longrightarrow> same_classes me me'"
  by (auto simp: convert_fn_arg_def Let_def split: fn_arg.splits
      elim!: bind_same dest: boxed_same basic_same)

lemma reanalyzed_same:
  "reanalyze_parameter ok n i fn ns d ps force soph c mv me = Some (r, me') \<Longrightarrow> same_classes me me'"
  by (cases ps) (auto simp: reanalyze_parameter_def elim!: bind_same dest: arg_same basic_same)

lemma inputs_same: "convert_inputs ok n ns d v soph inputs me = Some (r, me') \<Longrightarrow> same_classes me me'"
  by (induction inputs arbitrary: me r) (auto dest: arg_same intro: same_classes_trans)

lemma all_reanalyzed_same: "reanalyze_all ok n fn ns d soph rs ps me = Some (r, me') \<Longrightarrow> same_classes me me'"
proof (induction rs arbitrary: ps me r)
  case (Cons x rs)
  obtain i force c mv where x: "x = (i, force, c, mv)" by (cases x)
  from Cons.prems obtain outcome me1 qs r1 where
    "reanalyze_parameter ok n i fn ns d ps force soph c mv me = Some (outcome, me1)"
    "reanalyze_all ok n fn ns d soph rs qs me1 = Some (r1, me')"
    by (simp add: x) blast
  then show ?case using Cons.IH reanalyzed_same same_classes_trans by blast
qed simp

lemma overload_same:
  "get_function_overload_name ns ideal decl me = Some (r, me') \<Longrightarrow> same_classes me me'"
  "settle_method_name predetermined ns ty rust_name decl me = Some (r, me') \<Longrightarrow> same_classes me me'"
  by (auto simp: get_function_overload_name_def settle_method_name_def fz_get_overload_name_def same_classes_def
      split: option.splits)

lemma trait_same:
  "trait_creation_details_for_synthetic_function synthesis ns ideal self_ty me = Some (r, me') \<Longrightarrow> same_classes me me'"
  by (auto simp: trait_creation_details_for_synthetic_function_def generate_alloc_or_deallocate_def
      split_beta split: option.splits trait_synthesis.splits dest: overload_same)

lemma method_same:
  "name_method fn details self_ty is_static mutability ni me = Some (r, me') \<Longrightarrow> same_classes me me'"
  by (auto simp: name_method_def Let_def split: option.splits prod.splits dest: overload_same)

lemma named_same: "name_and_kind fn details ni me = Some (r, me') \<Longrightarrow> same_classes me me'"
  by (auto simp: name_and_kind_def name_free_function_def Let_def split: option.splits list.splits prod.splits
      dest!: overload_same trait_same method_same intro: same_classes_trans)


definition class_ok :: "fn_analyzer \<Rightarrow> qualified_name \<Rightarrow> bool" where
  "class_ok me cls \<longleftrightarrow> cls \<notin> set (fz_generic_types me) \<and> cls \<notin> set (fz_types_in_anonymous_namespace me)"

definition kind_ok :: "fn_analyzer \<Rightarrow> fn_kind \<Rightarrow> bool" where
  "kind_ok me kind \<longleftrightarrow>
     (case kind of
        FnKind_Function \<Rightarrow> True
      | FnKind_Method method_kind cls \<Rightarrow>
          (method_kind \<noteq> Static \<longrightarrow> is_cxx_acceptable_receiver known_types cls) \<and> class_ok me cls
      | FnKind_TraitMethod _ cls _ \<Rightarrow> is_cxx_acceptable_receiver known_types cls \<and> class_ok me cls)"

lemma no_class_problems: "class_problems get_hash me kind = Some [] \<Longrightarrow> kind_ok me kind"
  by (auto simp: class_problems_def kind_ok_def class_ok_def Let_def split: fn_kind.splits if_splits)

lemma no_early_problems:
  assumes "early_problems get_hash fn bads kind me = Some []"
  shows "fc_cpp_vis fn \<noteq> Private \<and> \<not> fc_variadic fn \<and> fc_is_deleted fn \<noteq> Some Explicitness_Deleted
      \<and> fc_special_member fn \<noteq> Some AssignmentOperator \<and> fc_ref_qualifier fn \<noteq> RValue
      \<and> \<not> return_type_is_reference (fc_output fn) \<and> bads = [] \<and> kind_ok me kind"
  using assms
  by (auto simp: early_problems_def is_assignment_operator_def split: list.splits if_splits dest: no_class_problems)

lemma read_without_problems:
  assumes "read_signature get_hash ok n name fn soph predetermined me = Some (s, me')" "rs_problems s = []"
  shows "fc_cpp_vis fn \<noteq> Private \<and> \<not> fc_variadic fn \<and> fc_is_deleted fn \<noteq> Some Explicitness_Deleted
      \<and> fc_special_member fn \<noteq> Some AssignmentOperator \<and> fc_ref_qualifier fn \<noteq> RValue
      \<and> \<not> return_type_is_reference (fc_output fn)
      \<and> length (rs_params s) \<in> {length (fc_inputs fn), Suc (length (fc_inputs fn))}
      \<and> arity_problems (rs_kind s) (length (fc_inputs fn)) = [] \<and> kind_ok me (rs_kind s)"
proof -
  from assms(1) obtain inputs me1 kind ctx rust_name index me2 params details unconvertible me3 early ra not_returnable where
    inputs: "convert_inputs ok n (get_namespace (an_name name)) (diagnostic_name_of name fn)
      (fc_synthesized_this_type fn) soph (fc_inputs fn) me = Some (inputs, me1)"
    and named: "name_and_kind fn (cv_param_details inputs) (naming_input_of ok name fn predetermined) me1 =
      Some (((kind, ctx, rust_name), index), me2)"
    and again: "reanalyze_all ok n fn (get_namespace (an_name name)) (diagnostic_name_of name fn) soph (reanalyses kind)
      (cv_params inputs, cv_param_details inputs) me2 = Some (((params, details), unconvertible), me3)"
    and early: "early_problems get_hash fn (cv_bads inputs) kind me3 = Some early"
    and s: "rs_params s = params @ map fst (case rta_placement_param_needed ra of Some p \<Rightarrow> [p] | None \<Rightarrow> [])"
      "rs_kind s = kind"
    and problems: "rs_problems s = arity_problems kind (length (cv_param_details inputs)) @ unconvertible @ early
        @ not_returnable @ return_problems fn rust_name ra (rs_param_details s)"
    by (auto simp: read_signature_def Let_def)
  from problems assms(2) have none: "early = []" "arity_problems kind (length (cv_param_details inputs)) = []" by simp_all
  from early none have facts: "fc_cpp_vis fn \<noteq> Private \<and> \<not> fc_variadic fn \<and> fc_is_deleted fn \<noteq> Some Explicitness_Deleted
      \<and> fc_special_member fn \<noteq> Some AssignmentOperator \<and> fc_ref_qualifier fn \<noteq> RValue
      \<and> \<not> return_type_is_reference (fc_output fn) \<and> cv_bads inputs = [] \<and> kind_ok me3 kind"
    using no_early_problems by blast
  have "same_classes me me3"
    using inputs_same[OF inputs] named_same[OF named] all_reanalyzed_same[OF again] same_classes_trans by blast
  then have "kind_ok me kind" using facts
    by (auto simp: kind_ok_def class_ok_def same_classes_def split: fn_kind.splits)
  moreover have "length params = length (fc_inputs fn)" "length (cv_param_details inputs) = length (fc_inputs fn)"
    using all_reanalyzed_ok[OF again] inputs_ok[OF inputs] facts reanalyses_plain by (fastforce dest: list_all2_lengthD)+
  ultimately show ?thesis using facts s none by (auto split: option.splits)
qed

text \<open>
  C2: what a function that is kept satisfies. A function with no reason to leave it out is not
  private, variadic, deleted or an assignment operator, is not qualified for rvalues and does not
  return one; every parameter C++ declares was converted, with one more at most, to return into, and
  two are declared where it copies or moves; its class is neither generic nor in an anonymous
  namespace and, unless it is static, one the bridge can have as a receiver; and the bridge accepts
  its name.
\<close>

theorem kept_functions_are_callable:
  assumes "analyze_foreign_fn get_hash ok n name fn soph predetermined me = Some ((analysis, name'), me')"
    and "fa_ignore_reason analysis = Inr ()"
  shows "fc_cpp_vis fn \<noteq> Private \<and> \<not> fc_variadic fn \<and> fc_is_deleted fn \<noteq> Some Explicitness_Deleted
      \<and> fc_special_member fn \<noteq> Some AssignmentOperator \<and> fc_ref_qualifier fn \<noteq> RValue
      \<and> \<not> return_type_is_reference (fc_output fn)
      \<and> length (fa_params analysis) \<in> {length (fc_inputs fn), Suc (length (fc_inputs fn))}
      \<and> arity_problems (fa_kind analysis) (length (fc_inputs fn)) = [] \<and> kind_ok me (fa_kind analysis)
      \<and> validate_ident_ok_for_cxx ok (fa_cxxbridge_name analysis) = Inr ()"
proof -
  from assms(1) obtain s me1 may_throw blocked me2 where
    s: "read_signature get_hash ok n name fn soph predetermined me = Some (s, me1)"
    and a: "analysis = finish_function get_hash ok name fn s may_throw blocked me2"
    by (auto simp: analyze_foreign_fn_def Let_def)
  have reason: "fa_ignore_reason analysis = reported_reason (rs_context s)
      (rs_problems s
       @ (case validate_ident_ok_for_cxx ok (fa_cxxbridge_name analysis) of Inl e \<Rightarrow> [InvalidIdent e] | Inr _ \<Rightarrow> [])
       @ (if blocked then [MemberError FunctionBlocked] else []))"
    "fa_kind analysis = rs_kind s" "length (fa_params analysis) = length (rs_params s)"
    using read_signature_ok[OF s]
    by (auto simp: a finish_function_def Let_def wrapper_params_def dest: list_all2_lengthD)
  from assms(2) have "rs_problems s = []" "validate_ident_ok_for_cxx ok (fa_cxxbridge_name analysis) = Inr ()"
    unfolding reason(1) by (auto simp: reported_reason_def split: if_splits sum.splits)
  with read_without_problems[OF s] reason(2,3) show ?thesis by simp
qed


section \<open>A function that takes a class by value\<close>

definition sample_fn :: func_to_convert where
  "sample_fn =
     \<lparr>fc_provenance = Bindgen, fc_ident = ''f'', fc_doc_attrs = [], fc_inputs = [FnArg_Typed ''x'' sample_type],
      fc_variadic = False, fc_output = None, fc_vis = ''pub'', fc_virtualness = None, fc_cpp_vis = Public,
      fc_special_member = None, fc_method_kind = None, fc_original_name = None, fc_self_ty = None,
      fc_synthesized_this_type = None, fc_add_to_trait = None, fc_synthetic_cpp = None, fc_is_deleted = None,
      fc_deprecation = None, fc_ref_qualifier = RefQualifier_None, fc_exception_specification = ExSpec_None\<rparr>"

definition sample_pd :: argument_analysis where
  "sample_pd =
     \<lparr>aa_conversion = Policy_Whole sample_type FromPtrToValue FromValueParamToPtr, aa_name = ''x'',
      aa_self_type = None, aa_has_lifetime = False, aa_is_mutable_reference = False,
      aa_deps = [QualifiedName [''ns''] ''Outer''], aa_requires_unsafe = JustBridge,
      aa_is_placement_return_destination = False\<rparr>"

definition named_analyzer :: fn_analyzer where
  "named_analyzer = sample_analyzer\<lparr>fz_overload_trackers_by_mod :=
     [([''ns''], \<lparr>fn_names = \<lparr>offsets = [(''f'', Suc 0)], assigned = [''f''], declarations = [(''f'', Suc 0)]\<rparr>,
       method_names_by_type = [], reserved_fn_names = [], reserved_method_names_by_type = []\<rparr>)]\<rparr>"

lemma sample_arg:
  "convert_fn_arg (\<lambda>_. True) (Suc 0) (FnArg_Typed ''x'' sample_type) [''ns''] d None True False None Regular False
     sample_analyzer = Some (Inr (FnArg_Typed ''x'' sample_type, sample_pd), sample_analyzer)"
proof -
  have ident: "validate_ident_ok_for_cxx (\<lambda>_. True) ''x'' = Inr ()" by code_simp
  show ?thesis
    by (simp add: convert_fn_arg_def fz_bind_def fz_ask_def parameter_to_convert_def ident sample_boxed[unfolded Annotated_new_def]
        sample_details[unfolded Annotated_new_def]
        fz_return_def parameter_unsafety_def sample_pd_def Annotated_new_def)
qed

lemma sample_parts:
  "fc_inputs sample_fn = [FnArg_Typed ''x'' sample_type]"
  "get_namespace (an_name (sample_name ''f'')) = [''ns'']" "an_cpp_name (sample_name ''f'') = None"
  "fc_synthesized_this_type sample_fn = None" "fc_output sample_fn = None" "fc_add_to_trait sample_fn = None"
  "fc_self_ty sample_fn = None" "aa_self_type sample_pd = None"
  by (simp_all add: sample_fn_def sample_pd_def sample_name_def new_from_qualified_name_def
      new_from_qualified_name_and_cpp_name_def)

lemma sample_naming:
  "name_and_kind sample_fn [sample_pd] (naming_input_of (\<lambda>_. True) (sample_name ''f'') sample_fn None) sample_analyzer =
     Some (((FnKind_Function, Item ''f'', ''f''), None), named_analyzer)"
  "get_cxx_bridge_name None ''f'' [''ns''] named_analyzer =
     (''f'', named_analyzer\<lparr>fz_bridge_name_tracker := [(''f'', Suc 0)]\<rparr>)"
proof -
  have ni: "naming_input_of (\<lambda>_. True) (sample_name ''f'') sample_fn None =
      \<lparr>ni_ns = [''ns''], ni_ideal = ''f'', ni_declared = Some ''f'', ni_predetermined = None\<rparr>"
    by code_simp
  have given: "get_function_real_name OverloadTracker_default ''f'' (Some ''f'') =
      Some ((''f'', None), \<lparr>fn_names = \<lparr>offsets = [(''f'', 1)], assigned = [''f''], declarations = [(''f'', 1)]\<rparr>,
       method_names_by_type = [], reserved_fn_names = [], reserved_method_names_by_type = []\<rparr>)"
    "get_unique_cxx_bridge_name [] None ''f'' [''ns''] = (''f'', [(''f'', Suc 0)])"
    by code_simp+
  have "db_get known_types (QualifiedName [] ''f'') = None" unfolding db_get_known by code_simp
  then have item: "new_for_item (make_ident ''f'') = Item ''f''"
    by (simp add: new_for_item_def sanitize_error_ident_def conflicts_with_built_in_type_def QualifiedName_new_def
        Namespace_new_def make_ident_def)
  have none: "fz_overload_trackers_by_mod sample_analyzer = []" "fz_bridge_name_tracker named_analyzer = []"
    by (simp_all add: sample_analyzer_def named_analyzer_def)
  show "name_and_kind sample_fn [sample_pd] (naming_input_of (\<lambda>_. True) (sample_name ''f'') sample_fn None) sample_analyzer =
     Some (((FnKind_Function, Item ''f'', ''f''), None), named_analyzer)"
    by (simp add: ni name_and_kind_def map_filter_simps sample_parts trait_creation_details_for_synthetic_function_def
        st_bind_def st_return_def name_free_function_def get_function_overload_name_def none tracker_in_def given item
        named_analyzer_def)
  show "get_cxx_bridge_name None ''f'' [''ns''] named_analyzer =
     (''f'', named_analyzer\<lparr>fz_bridge_name_tracker := [(''f'', Suc 0)]\<rparr>)"
    by (simp add: get_cxx_bridge_name_def none given)
qed

lemma sample_early: "early_problems get_hash sample_fn [] FnKind_Function me = Some []"
  by (simp add: early_problems_def is_assignment_operator_def sample_fn_def return_type_is_reference_def class_problems_def)

lemma sample_read:
  "\<exists>s. read_signature (\<lambda>_. 0) (\<lambda>_. True) (Suc 0) (sample_name ''f'') sample_fn Regular None sample_analyzer =
       Some (s, named_analyzer\<lparr>fz_bridge_name_tracker := [(''f'', Suc 0)]\<rparr>) \<and>
     rs_kind s = FnKind_Function \<and> rs_problems s = [] \<and> rs_param_details s = [sample_pd] \<and> rs_cxxbridge_name s = ''f'' \<and>
     rs_return s = ReturnTypeAnalysis_default"
  by (simp add: read_signature_def Let_def st_bind_def sample_naming sample_parts sample_early sample_arg st_return_def reanalyses_def
      st_ask_def class_of_kind_def read_return_type_def convert_return_type_def fz_return_def
      ReturnTypeAnalysis_default_def arity_problems_def return_problems_def)

lemma sample_analyzed:
  "\<exists>analysis name me. analyze_foreign_fn (\<lambda>_. 0) (\<lambda>_. True) (Suc 0) (sample_name ''f'') sample_fn Regular None
       sample_analyzer = Some ((analysis, name), me) \<and>
     fa_ignore_reason analysis = Inr () \<and> fa_param_details analysis = [sample_pd] \<and>
     (\<exists>w call_name. fa_cpp_wrapper analysis = Some w \<and> cf_argument_conversion w = [aa_conversion sample_pd] \<and>
        cf_return_conversion w = None \<and> cf_payload w = FunctionCall [''ns''] call_name)"
proof -
  from sample_read obtain s where s: "read_signature (\<lambda>_. 0) (\<lambda>_. True) (Suc 0) (sample_name ''f'') sample_fn Regular
      None sample_analyzer = Some (s, named_analyzer\<lparr>fz_bridge_name_tracker := [(''f'', Suc 0)]\<rparr>)"
    "rs_kind s = FnKind_Function" "rs_problems s = []" "rs_param_details s = [sample_pd]" "rs_cxxbridge_name s = ''f''"
    "rs_return s = ReturnTypeAnalysis_default" by blast
  have config: "fz_config (named_analyzer\<lparr>fz_bridge_name_tracker := [(''f'', Suc 0)]\<rparr>) = nested_config"
    "set_fz_config nested_config (named_analyzer\<lparr>fz_bridge_name_tracker := [(''f'', Suc 0)]\<rparr>) =
      named_analyzer\<lparr>fz_bridge_name_tracker := [(''f'', Suc 0)]\<rparr>"
    by (simp_all add: fz_config_def set_fz_config_def named_analyzer_def sample_analyzer_def sample_converter_def)
  have throws: "is_on_throws_list nested_config spelling = (False, nested_config)"
    "is_on_function_blocklist nested_config spelling = (False, nested_config)" for spelling
    by (simp_all add: is_on_throws_list_def is_on_function_blocklist_def nested_config_def ns_only_config_def
        directive_matches_def Let_def)
  have valid: "validate_ident_ok_for_cxx (\<lambda>_. True) (wrapper_name (\<lambda>_. 0) config ''f'') = Inr ()" for config by code_simp
  have work: "cpp_work_needed (aa_conversion sample_pd)" "fc_synthetic_cpp sample_fn = None" by code_simp+
  show ?thesis
    by (simp add: analyze_foreign_fn_def st_bind_def s decide_may_throw_def throwing_spellings_def work asking_config_def
        config throws st_ask_def is_blocked_by_directive_def blockable_spellings_def Let_def st_return_def finish_function_def
        wrapper_function_needed_def wrapper_facts_of_def reported_reason_def cpp_wrapper_of_def valid split_beta
        wrapper_payload_def ReturnTypeAnalysis_default_def sample_parts)
qed

lemma bridge_declares_what_crosses_witness:
  "\<exists>analysis name me. analyze_foreign_fn (\<lambda>_. 0) (\<lambda>_. True) (Suc 0) (sample_name ''f'') sample_fn Regular None
       sample_analyzer = Some ((analysis, name), me) \<and>
     fa_params analysis = [FnArg_Typed ''x'' (Type_Ptr True sample_type)]"
proof -
  from sample_analyzed obtain analysis name me where a: "analyze_foreign_fn (\<lambda>_. 0) (\<lambda>_. True) (Suc 0) (sample_name ''f'')
      sample_fn Regular None sample_analyzer = Some ((analysis, name), me)" "fa_param_details analysis = [sample_pd]"
    by blast
  have pd: "converted_rust_type (aa_conversion sample_pd) = Type_Ptr True sample_type" "aa_self_type sample_pd = None"
    "aa_name sample_pd = ''x''" by code_simp+
  from bridge_declares_what_crosses[OF a(1)] a pd show ?thesis by (auto simp: list_all2_Cons2)
qed

lemma kept_functions_are_callable_witness:
  "\<exists>analysis name me. analyze_foreign_fn (\<lambda>_. 0) (\<lambda>_. True) (Suc 0) (sample_name ''f'') sample_fn Regular None
       sample_analyzer = Some ((analysis, name), me) \<and> fa_ignore_reason analysis = Inr () \<and>
     length (fa_params analysis) \<in> {1, 2} \<and> fc_cpp_vis sample_fn \<noteq> Private"
proof -
  from sample_analyzed obtain analysis name me where a: "analyze_foreign_fn (\<lambda>_. 0) (\<lambda>_. True) (Suc 0) (sample_name ''f'')
      sample_fn Regular None sample_analyzer = Some ((analysis, name), me)" "fa_ignore_reason analysis = Inr ()"
    by blast
  have "length (fc_inputs sample_fn) = 1" by code_simp
  with kept_functions_are_callable[OF a] a show ?thesis by auto
qed

end
