(* ===== verification/SynthesizedFunctions.thy ===== *)
theory SynthesizedFunctions imports PodAnalysis Gc begin

text \<open>
  Functions autocxx adds for a class: upcasts to its bases (\<^verbatim>\<open>analysis/casts.rs\<close>) and the allocation and
  release of an uninitialized object (\<^verbatim>\<open>analysis/allocators.rs\<close>); and the typedefs that lose their target
  (\<^verbatim>\<open>analysis/replace_hopeless_typedef_targets.rs\<close>). Each is a pass over the whole list.
\<close>

section \<open>A function of autocxx's own\<close>

text \<open>What the synthesized functions have in common; each sets what is its own.\<close>

definition synthesized_fn :: "ident \<Rightarrow> fn_arg list \<Rightarrow> rust_type option \<Rightarrow> func_to_convert" where
  "synthesized_fn idt inputs ret =
     \<lparr>fc_provenance = SynthesizedOther, fc_ident = idt, fc_doc_attrs = [], fc_inputs = inputs,
      fc_variadic = False, fc_output = ret, fc_vis = ''pub'', fc_virtualness = None, fc_cpp_vis = Public,
      fc_special_member = None, fc_method_kind = None, fc_original_name = None, fc_self_ty = None,
      fc_synthesized_this_type = None, fc_add_to_trait = None, fc_synthetic_cpp = None, fc_is_deleted = None,
      fc_deprecation = None, fc_ref_qualifier = RefQualifier_None, fc_exception_specification = ExSpec_None\<rparr>"

definition marked_type :: "ident \<Rightarrow> rust_type \<Rightarrow> rust_type" where
  "marked_type marker ty =
     Type_Path (TypePath False False [PathSegment marker (AngleBracketed [GenericArgument_Type ty])])"

section \<open>Casts\<close>

definition SUPPORT_MUTABLE_CASTS :: bool where
  "SUPPORT_MUTABLE_CASTS = False"

definition cast_types :: "cast_mutability list" where
  "cast_types = (if SUPPORT_MUTABLE_CASTS then [ConstToConst, MutToConst, MutToMut] else [ConstToConst])"

definition name_for_cast :: "qualified_name \<Rightarrow> qualified_name \<Rightarrow> cast_mutability \<Rightarrow> qualified_name" where
  "name_for_cast from_ty to_ty mutable =
     (let sfx = (case mutable of ConstToConst \<Rightarrow> '''' | MutToConst \<Rightarrow> ''_to_const'' | MutToMut \<Rightarrow> ''_mut'')
      in QualifiedName_new (get_namespace from_ty)
           (make_ident (''cast_'' @ get_final_item from_ty @ ''_to_'' @ get_final_item to_ty @ sfx)))"

definition create_cast :: "qualified_name \<Rightarrow> qualified_name \<Rightarrow> cast_mutability \<Rightarrow> pod_phase_api" where
  "create_cast from_ty to_ty mutable =
     (let name = name_for_cast from_ty to_ty mutable;
          return_mutability = (mutable = MutToMut);
          param_mutability = (mutable \<noteq> ConstToConst)
      in Api_Function (new_from_qualified_name name)
           ((synthesized_fn (get_final_item name)
               [FnArg_Typed ''this'' (Type_Ptr param_mutability (Type_Path (to_type_path from_ty)))]
               (Some (marked_type ''__bindgen_marker_Reference''
                  (Type_Ptr return_mutability (Type_Path (to_type_path to_ty))))))
             \<lparr>fc_self_ty := Some from_ty, fc_add_to_trait := Some (Synth_Cast to_ty mutable),
              fc_synthetic_cpp := Some (Body_Cast, CppFunction_Function)\<rparr>) ())"

definition create_casts :: "qualified_name \<Rightarrow> pod_analysis \<Rightarrow> pod_phase_api list" where
  "create_casts name analysis =
     concat (map (\<lambda>base. map (create_cast name base) cast_types) (pa_castable_bases analysis))"

definition with_casts :: "pod_phase_api \<Rightarrow> pod_phase_api list" where
  "with_casts api =
     (case api of
        Api_Struct name details analysis \<Rightarrow> create_casts (an_name name) analysis
      | _ \<Rightarrow> []) @ [api]"

definition add_casts :: "pod_phase_apis \<Rightarrow> pod_phase_apis option" where
  "add_casts v = apivec_from_iter (concat (map with_casts (apis v)))"

section \<open>Allocation\<close>

definition allocator_name :: "qualified_name \<Rightarrow> string \<Rightarrow> qualified_name" where
  "allocator_name ty_name label =
     QualifiedName_new (get_namespace ty_name) (make_ident (get_final_item ty_name @ ''_'' @ label))"

definition get_alloc_name :: "qualified_name \<Rightarrow> qualified_name" where
  "get_alloc_name ty_name = allocator_name ty_name ''autocxx_alloc''"

definition get_free_name :: "qualified_name \<Rightarrow> qualified_name" where
  "get_free_name ty_name = allocator_name ty_name ''autocxx_free''"

definition create_alloc_and_free :: "qualified_name \<Rightarrow> pod_phase_api list" where
  "create_alloc_and_free ty_name =
     (let ptr = Type_Ptr True (Type_Path (to_type_path ty_name)) in
      map (\<lambda>(synthesis, name, inputs, ret, body).
             Api_Function (new_from_qualified_name name)
               ((synthesized_fn (get_final_item name) inputs ret)
                 \<lparr>fc_synthetic_cpp := Some (body, CppFunction_Function), fc_add_to_trait := Some synthesis\<rparr>) ())
        [(AllocUninitialized ty_name, get_alloc_name ty_name, [], Some ptr, Body_AllocUninitialized ty_name),
         (FreeUninitialized ty_name, get_free_name ty_name, [FnArg_Typed ''arg0'' ptr], None,
          Body_FreeUninitialized ty_name)])"

definition with_allocators :: "qualified_name list \<Rightarrow> pod_phase_api \<Rightarrow> pod_phase_api list" where
  "with_allocators wanted api =
     (case api of
        Api_Struct name details analysis \<Rightarrow> create_alloc_and_free (an_name name) @ [api]
      | Api_Subclass name superclass analysis \<Rightarrow> create_alloc_and_free (subclass_cpp name) @ [api]
      | Api_ConcreteType name rs cpp surface needs incomplete \<Rightarrow>
          if an_name name \<in> set wanted then create_alloc_and_free (an_name name) @ [api] else [api]
      | _ \<Rightarrow> [api])"

definition create_alloc_and_frees ::
    "pod_phase_apis \<Rightarrow> include_cpp_config \<Rightarrow> (pod_phase_apis \<times> include_cpp_config) option" where
  "create_alloc_and_frees v config =
     Option.bind (instantiable_concrete_types config v) (\<lambda>(wanted, config).
       map_option (\<lambda>v. (v, config)) (apivec_from_iter (concat (map (with_allocators wanted) (apis v)))))"

section \<open>Typedefs that lose their target\<close>

definition opaque_stands_in_for :: "convert_error \<Rightarrow> bool" where
  "opaque_stands_in_for reason \<longleftrightarrow> reason \<noteq> TypeError UnsupportedVaList"

definition blames_any_of ::
    "qualified_name list \<Rightarrow> (qualified_name, convert_error) index_map \<Rightarrow> opaque_typedef_reason option" where
  "blames_any_of blamed failures =
     (case List.find (\<lambda>dep. map_of failures dep \<noteq> None) blamed of
        None \<Rightarrow> None
      | Some dep \<Rightarrow> map_option (\<lambda>reason. \<lparr>otr_culprit = dep, otr_reason = reason\<rparr>) (map_of failures dep))"

definition failed_forward_declarations :: "pod_phase_api list \<Rightarrow> (qualified_name, convert_error) index_map" where
  "failed_forward_declarations l =
     collect_map (\<lambda>api. case api of
         Api_ForwardDeclaration name (Some (ConvertErrorWithContext err ctx)) \<Rightarrow> Some (Api_name api, err)
       | _ \<Rightarrow> None) l"

definition opaque_instead ::
    "include_cpp_config \<Rightarrow> pod_phase_api \<Rightarrow> opaque_typedef_reason \<Rightarrow> pod_phase_api \<times> include_cpp_config" where
  "opaque_instead config api blame =
     (if \<not> opaque_stands_in_for (otr_reason blame)
      then (Api_IgnoredItem (name_info api) (otr_reason blame) (item_context (Api_name api)), config)
      else if effective_is_nested (effective_cpp_name api)
      then (Api_IgnoredItem (name_info api) NestedOpaqueTypedef (item_context (Api_name api)), config)
      else case is_instantiable config (to_cpp_name (Api_name api)) of
        (asked, config) \<Rightarrow> (Api_OpaqueTypedef (name_info api) (\<not> asked) (Some blame), config))"

definition replace_one ::
    "(qualified_name, convert_error) index_map \<Rightarrow> (qualified_name, convert_error) index_map \<Rightarrow>
     include_cpp_config \<Rightarrow> pod_phase_api \<Rightarrow> pod_phase_api \<times> include_cpp_config" where
  "replace_one ignored failed config api =
     (case api of
        Api_Typedef name item old_tyname analysis \<Rightarrow>
          (case blames_any_of (ta_deps analysis) ignored of
             Some blame \<Rightarrow> opaque_instead config api blame
           | None \<Rightarrow>
               (case blames_any_of (ta_deps analysis) failed of
                  Some blame \<Rightarrow> (Api_OpaqueTypedef (name_info api) True (Some blame), config)
                | None \<Rightarrow> (api, config)))
      | Api_ForwardDeclaration name (Some (ConvertErrorWithContext err ctx)) \<Rightarrow>
          (Api_IgnoredItem name err ctx, config)
      | _ \<Rightarrow> (api, config))"

fun replace_all ::
    "(qualified_name, convert_error) index_map \<Rightarrow> (qualified_name, convert_error) index_map \<Rightarrow>
     include_cpp_config \<Rightarrow> pod_phase_api list \<Rightarrow> pod_phase_api list \<times> include_cpp_config" where
  "replace_all ignored failed config [] = ([], config)"
| "replace_all ignored failed config (api # rest) =
     (case replace_one ignored failed config api of
        (api, config) \<Rightarrow> apfst ((#) api) (replace_all ignored failed config rest))"

definition replace_hopeless_typedef_targets ::
    "include_cpp_config \<Rightarrow> pod_phase_apis \<Rightarrow> (pod_phase_apis \<times> include_cpp_config) option" where
  "replace_hopeless_typedef_targets config v =
     (case replace_all (find_ignored_types (apis v)) (failed_forward_declarations (apis v)) config (apis v) of
        (l, config) \<Rightarrow> map_option (\<lambda>v. (v, config)) (apivec_from_iter l))"


section \<open>Casts of one name\<close>

lemma name_of_cast: "name_for_cast d a m = name_for_cast d b m \<longleftrightarrow> get_final_item a = get_final_item b"
  by (auto simp: name_for_cast_def QualifiedName_new_def make_ident_def Let_def split: cast_mutability.splits)

lemma create_cast_name [simp]: "Api_name (create_cast from_ty to_ty mutable) = name_for_cast from_ty to_ty mutable"
  by (simp add: create_cast_def Let_def Api_name_def new_from_qualified_name_def new_from_qualified_name_and_cpp_name_def)

text \<open>
  A cast is named after the last part of its base's name alone. A class with two bases of one name in
  different namespaces therefore gets neither of its casts: the list takes the second for a duplicate of the
  first and keeps a note in place of both.
\<close>

theorem casts_of_one_name_are_lost:
  assumes "pa_castable_bases analysis = [a, b]" and "get_final_item a = get_final_item b"
    and "an_name name \<noteq> name_for_cast (an_name name) a ConstToConst"
    and "apis v = [Api_Struct name details analysis]"
  shows "\<exists>w. add_casts v = Some w \<and>
    apis w = [duplicate_item (name_for_cast (an_name name) a ConstToConst), Api_Struct name details analysis]"
proof -
  let ?cast = "name_for_cast (an_name name) a ConstToConst"
  have same: "name_for_cast (an_name name) b ConstToConst = ?cast" using assms(2) by (simp add: name_of_cast)
  have parts: "is_function (create_cast x y m)" "\<not> is_displaced_function (create_cast x y m)"
    "\<not> discard_duplicates (create_cast x y m)" "\<not> is_unshadowable_type (create_cast x y m)" for x y m
    by (simp_all add: is_function_def is_displaced_function_def is_unshadowable_type_def discard_duplicates_def
        create_cast_def Let_def)
  show ?thesis
    using assms same parts
    by (simp add: add_casts_def with_casts_def create_casts_def cast_types_def SUPPORT_MUTABLE_CASTS_def
        apivec_from_iter_def)
      (simp add: apivec_push.simps[of _ "create_cast _ _ _"] apivec_push.simps[of _ "duplicate_item _"]
        apivec_push.simps[of _ "Api_Struct _ _ _"] ApiVec_new_def already_contains_def apivec_insert_def
        take_displaced_function_def contains_unshadowable_type_def contains_function_def retain_def Let_def,
       simp add: Api_name_def)
qed

definition sample_analysis :: "type_kind \<Rightarrow> qualified_name list \<Rightarrow> pod_analysis" where
  "sample_analysis kind castable =
     \<lparr>pa_kind = kind, pa_bases = castable, pa_public_bases = castable, pa_has_unnamed_base = False,
      pa_virtual_bases = [], pa_using_declarations = [], pa_castable_bases = castable, pa_field_deps = [],
      pa_field_definition_deps = [], pa_field_info = [], pa_bitfields = [], pa_num_generics = 0,
      pa_in_anonymous_namespace = False, pa_all_fields_converted = True\<rparr>"

definition sample_derived :: pod_phase_api where
  "sample_derived = Api_Struct (sample_name ''D'') (item_with ''D'' [])
     (sample_analysis NonPod [QualifiedName [''a''] ''B'', QualifiedName [''b''] ''B''])"

lemma casts_of_one_name_are_lost_witness:
  "\<exists>w. add_casts \<lparr>apis = [sample_derived], names = []\<rparr> = Some w \<and>
     apis w = [duplicate_item (QualifiedName [''ns''] ''cast_D_to_B''), sample_derived]"
proof -
  have "an_name (sample_name ''D'') = QualifiedName [''ns''] ''D''"
    "name_for_cast (QualifiedName [''ns''] ''D'') (QualifiedName [''a''] ''B'') ConstToConst =
       QualifiedName [''ns''] ''cast_D_to_B''" by code_simp+
  then show ?thesis
    using casts_of_one_name_are_lost[of "sample_analysis NonPod [QualifiedName [''a''] ''B'', QualifiedName [''b''] ''B'']"
        "QualifiedName [''a''] ''B''" "QualifiedName [''b''] ''B''" "sample_name ''D''"
        "\<lparr>apis = [sample_derived], names = []\<rparr>" "item_with ''D'' []"]
    by (simp add: sample_derived_def sample_analysis_def)
qed

section \<open>Nothing hopeless is left\<close>

lemma blames_any_of_None: "blames_any_of l failures = None \<longleftrightarrow> (\<forall>dep \<in> set l. map_of failures dep = None)"
  by (auto simp: blames_any_of_def find_None_iff find_Some_iff split: option.splits)

text \<open>
  A typedef left depends on nothing that was ignored or failed, a forward declaration left has no error.
\<close>

definition hopeful :: "(qualified_name, convert_error) index_map \<Rightarrow> (qualified_name, convert_error) index_map \<Rightarrow>
    pod_phase_api \<Rightarrow> bool" where
  "hopeful ignored failed api \<longleftrightarrow>
     (case api of
        Api_Typedef name item old_tyname analysis \<Rightarrow>
          \<forall>dep \<in> set (ta_deps analysis). map_of ignored dep = None \<and> map_of failed dep = None
      | Api_ForwardDeclaration name err \<Rightarrow> err = None
      | _ \<Rightarrow> True)"

definition given_up :: "pod_phase_api \<Rightarrow> bool" where
  "given_up api \<longleftrightarrow> (case api of Api_IgnoredItem _ _ _ \<Rightarrow> True | Api_OpaqueTypedef _ _ _ \<Rightarrow> True | _ \<Rightarrow> False)"

lemma hopeful_typedef: "hopeful ignored failed (Api_Typedef name item old_tyname analysis) \<longleftrightarrow>
    blames_any_of (ta_deps analysis) ignored = None \<and> blames_any_of (ta_deps analysis) failed = None"
  by (auto simp: hopeful_def blames_any_of_None)

lemma replace_one_gives:
  assumes "replace_one ignored failed config api = (api', config')"
  shows "name_info api' = name_info api \<and> (if hopeful ignored failed api then api' = api else given_up api')"
proof (cases api)
  case (Api_Typedef name item old_tyname analysis)
  with assms show ?thesis
    by (auto simp: replace_one_def hopeful_typedef given_up_def opaque_instead_def
        split: option.splits if_splits prod.splits)
next
  case (Api_ForwardDeclaration name err)
  with assms show ?thesis
    by (auto simp: replace_one_def hopeful_def given_up_def split: option.splits convert_error_with_context.splits)
qed (use assms in \<open>auto simp: replace_one_def hopeful_def\<close>)

lemma replace_all_gives:
  assumes "replace_all ignored failed config l = (l', config')"
  shows "list_all2 (\<lambda>api api'. name_info api' = name_info api \<and>
    (if hopeful ignored failed api then api' = api else given_up api')) l l'"
  using assms
proof (induction l arbitrary: config l')
  case (Cons api rest)
  obtain api1 config1 where one: "replace_one ignored failed config api = (api1, config1)" by fastforce
  obtain rest1 config2 where more: "replace_all ignored failed config1 rest = (rest1, config2)" by fastforce
  with Cons.prems one have "l' = api1 # rest1" "config2 = config'" by simp_all
  with Cons.IH[of config1 rest1] more replace_one_gives[OF one] show ?case by simp
qed simp

text \<open>
  C32: replacing the typedefs whose target is gone ends without a panic and leaves each item its name and its
  place. An item nothing is wrong with stays as it is; a typedef of an ignored item or of a failed forward
  declaration, and a failed forward declaration, become an opaque type or a note.
\<close>

theorem hopeless_targets_are_replaced:
  assumes "apivec_wf v"
  shows "\<exists>w config'. replace_hopeless_typedef_targets config v = Some (w, config') \<and>
    list_all2 (\<lambda>api api'. name_info api' = name_info api \<and>
      (if hopeful (find_ignored_types (apis v)) (failed_forward_declarations (apis v)) api
       then api' = api else given_up api')) (apis v) (apis w)"
proof -
  obtain l config' where l: "replace_all (find_ignored_types (apis v)) (failed_forward_declarations (apis v)) config (apis v)
      = (l, config')" by fastforce
  note gives = replace_all_gives[OF l]
  then have "map Api_name l = map Api_name (apis v)"
    by (auto simp: list_all2_conv_all_nth Api_name_def intro: nth_equalityI)
  with assms have "distinct (map Api_name l)" by (simp add: apivec_wf_def)
  with collect_distinct[of l] obtain w where "apivec_from_iter l = Some w" "apis w = l" by blast
  with l gives show ?thesis by (simp add: replace_hopeless_typedef_targets_def)
qed


text \<open>A forward declaration that failed, a typedef of it, and a typedef of neither.\<close>

definition sample_hopeless :: pod_phase_apis where
  "sample_hopeless =
     (let named = \<lambda>n. new_from_qualified_name (QualifiedName [] n);
          tdef = \<lambda>n target. Api_Typedef (named n) (TypedefKind_Use (Type_Other ''t'')) None
            \<lparr>ta_kind = TypedefKind_Use (Type_Other ''t''), ta_target_kind = Kind_Regular, ta_target_is_const = False,
             ta_target_is_std_array = False, ta_deps = [QualifiedName [] target]\<rparr>
      in \<lparr>apis = [Api_ForwardDeclaration (named ''F'') (Some (ConvertErrorWithContext NestedOpaqueTypedef None)),
                 tdef ''T'' ''F'', tdef ''U'' ''int''],
          names = map (QualifiedName []) [''F'', ''T'', ''U'']\<rparr>)"

lemma hopeless_targets_are_replaced_witness:
  "\<exists>w config'. replace_hopeless_typedef_targets nested_config sample_hopeless = Some (w, config') \<and>
     given_up (apis w ! 0) \<and> given_up (apis w ! 1) \<and> apis w ! 2 = apis sample_hopeless ! 2"
proof -
  have "apivec_wf sample_hopeless" by code_simp
  moreover have "\<not> hopeful (find_ignored_types (apis sample_hopeless)) (failed_forward_declarations (apis sample_hopeless))
      (apis sample_hopeless ! 0)"
    "\<not> hopeful (find_ignored_types (apis sample_hopeless)) (failed_forward_declarations (apis sample_hopeless))
      (apis sample_hopeless ! 1)"
    "hopeful (find_ignored_types (apis sample_hopeless)) (failed_forward_declarations (apis sample_hopeless))
      (apis sample_hopeless ! 2)" "length (apis sample_hopeless) = 3" by code_simp+
  ultimately show ?thesis
    using hopeless_targets_are_replaced[of sample_hopeless nested_config] by (auto simp: list_all2_conv_all_nth)
qed

end
