(* ===== verification/Statics.thy ===== *)
theory Statics imports SynthesizedFunctions begin

text \<open>
  C++ variables with static storage (\<^verbatim>\<open>expose_statics\<close> of \<^verbatim>\<open>analysis/statics.rs\<close>). One whose type Rust sees
  as bindgen declared it is re-exported; any other is read through a getter which hands back a holder that
  stands for a \<^verbatim>\<open>const\<close> reference to it. The holders made so far are the state of the pass.
\<close>

section \<open>Which types\<close>

definition representable_static_types :: "pod_phase_api list \<Rightarrow> qualified_name list" where
  "representable_static_types l =
     List.map_filter (\<lambda>api. case api of
         Api_Struct name details analysis \<Rightarrow> if pa_kind analysis = Pod then Some (an_name name) else None
       | Api_Enum name item \<Rightarrow> Some (an_name name)
       | _ \<Rightarrow> None) l"

definition holdable_static_types :: "pod_phase_api list \<Rightarrow> qualified_name list option" where
  "holdable_static_types l =
     map_option
       (\<lambda>known. List.map_filter (\<lambda>api. case api of
            Api_Struct name details analysis \<Rightarrow> if pa_num_generics analysis = 0 then Some (an_name name) else None
          | _ \<Rightarrow> None) l @ map fst known)
       (get_pod_safe_types known_types)"

section \<open>Holders\<close>

text \<open>A concrete type there already is; \<open>None\<close> for one whose surface is another.\<close>

definition existing_holders :: "pod_phase_api list \<Rightarrow> (string, qualified_name option) index_map" where
  "existing_holders l =
     collect_map (\<lambda>api. case api of
         Api_ConcreteType name rs cpp_definition surface needs incomplete \<Rightarrow>
           Some (cpp_definition, (case surface of Some (Holder_ConstRef _ _) \<Rightarrow> Some (Api_name api) | _ \<Rightarrow> None))
       | _ \<Rightarrow> None) l"

record holder_state =
  hs_holders :: "(string, qualified_name option) index_map"
  hs_names_taken :: "qualified_name list"
  hs_new_holders :: pod_phase_apis

text \<open>The name itself if it is free, else the first of the numbered ones that is.\<close>

definition free_name_from :: "qualified_name \<Rightarrow> qualified_name list \<Rightarrow> qualified_name option" where
  "free_name_from base taken =
     (if base \<notin> set taken then Some base
      else map_option (numbered_candidate base) (first_free (numbered_candidate base) (\<lambda>q. q \<in> set taken) 1))"

definition holder_definition :: "qualified_name \<Rightarrow> rust_type" where
  "holder_definition cpp_ty =
     Type_Path (TypePath False False
       [PathSegment ''std'' PathArguments_None,
        PathSegment ''reference_wrapper'' (AngleBracketed [GenericArgument_Type
          (marked_type ''__bindgen_marker_Const'' (Type_Path (to_type_path cpp_ty)))])])"

definition holder_api :: "qualified_name \<Rightarrow> string \<Rightarrow> qualified_name \<Rightarrow> pod_phase_api" where
  "holder_api name cpp_definition cpp_ty =
     Api_ConcreteType (new_from_qualified_name name) (Some (holder_definition cpp_ty)) cpp_definition
       (Some (Holder_ConstRef (Type_Path (to_type_path cpp_ty)) [cpp_ty])) [] None"

definition make_holder ::
    "qualified_name \<Rightarrow> string \<Rightarrow> holder_state \<Rightarrow> (qualified_name \<times> holder_state) option" where
  "make_holder cpp_ty cpp_definition s =
     Option.bind
       (free_name_from (QualifiedName_new Namespace_new (make_ident (concrete_type_ident cpp_definition)))
          (hs_names_taken s)) (\<lambda>name.
     map_option
       (\<lambda>v. (name, \<lparr>hs_holders = imap_insert cpp_definition (Some name) (hs_holders s),
                    hs_names_taken = iset_insert name (hs_names_taken s), hs_new_holders = v\<rparr>))
       (apivec_push (hs_new_holders s) (holder_api name cpp_definition cpp_ty)))"

definition holder_for ::
    "qualified_name \<Rightarrow> cpp_name_map \<Rightarrow> holder_state \<Rightarrow>
     ((convert_error, qualified_name) result \<times> holder_state) option" where
  "holder_for cpp_ty name_map s =
     (case type_to_cpp name_map (holder_definition cpp_ty) of
        None \<Rightarrow> None
      | Some (Inl e) \<Rightarrow> Some (Inl e, s)
      | Some (Inr cpp_definition) \<Rightarrow>
          (case map_of (hs_holders s) cpp_definition of
             Some (Some existing) \<Rightarrow> Some (Inr existing, s)
           | Some None \<Rightarrow> Some (Inl (ItemError (StaticDataHolderAlreadyTaken cpp_ty)), s)
           | None \<Rightarrow> map_option (apfst Inr) (make_holder cpp_ty cpp_definition s)))"

section \<open>The pass\<close>

definition static_doc :: "qualified_name \<Rightarrow> rust_tokens" where
  "static_doc variable =
     ''Reads the C++ variable `'' @ to_cpp_name variable @ ''`. autocxx generated this getter because the variable's type reaches Rust as an opaque one, which Rust cannot be handed by value; what comes back refers to the variable rather than copying it.''"

definition static_getter :: "api_name \<Rightarrow> qualified_name \<Rightarrow> pod_phase_api" where
  "static_getter name holder =
     Api_Function name
       ((synthesized_fn (get_final_item (an_name name)) [] (Some (Type_Path (to_type_path holder))))
         \<lparr>fc_doc_attrs := [static_doc (an_name name)],
          fc_synthetic_cpp := Some (VariableRead (an_name name), CppFunction_Function)\<rparr>) ()"

definition expose_static ::
    "qualified_name list \<Rightarrow> qualified_name list \<Rightarrow> cpp_name_map \<Rightarrow> pod_phase_api \<Rightarrow> holder_state \<Rightarrow>
     ((convert_error, pod_phase_api list) result \<times> holder_state) option" where
  "expose_static representable holdable name_map api s =
     (case api of
        Api_Static name (Some cpp_ty) name_is_cpp_name \<Rightarrow>
          if cpp_ty \<in> set representable then Some (Inr [api], s)
          else if \<not> name_is_cpp_name then Some (Inl (ItemError (StaticDataWithUnknownCppName (an_name name))), s)
          else if is_string_view known_types cpp_ty then Some (Inl (SignatureError StringViewOutOfCpp), s)
          else if cpp_ty \<notin> set holdable then Some (Inl (ItemError (StaticDataOfUnholdableType cpp_ty)), s)
          else map_option (apfst (map_sum id (\<lambda>holder. [static_getter name holder]))) (holder_for cpp_ty name_map s)
      | _ \<Rightarrow> Some (Inr [api], s))"

definition expose_statics :: "pod_phase_apis \<Rightarrow> pod_phase_apis option" where
  "expose_statics v =
     Option.bind (holdable_static_types (apis v)) (\<lambda>holdable.
     Option.bind
       (convert_item_apis_with
          (expose_static (representable_static_types (apis v)) holdable (new_for_analysis (apis v))) v ApiVec_new
          \<lparr>hs_holders = existing_holders (apis v), hs_names_taken = fold iset_insert (map Api_name (apis v)) [],
           hs_new_holders = ApiVec_new\<rparr>) (\<lambda>(results, s).
       apivec_append results (hs_new_holders s)))"


section \<open>Holders stand for what is declared\<close>

definition is_holder :: "pod_phase_api \<Rightarrow> bool" where
  "is_holder api \<longleftrightarrow> (case api of Api_ConcreteType _ _ _ (Some (Holder_ConstRef _ _)) _ _ \<Rightarrow> True | _ \<Rightarrow> False)"

definition declared_holder :: "pod_phase_api list \<Rightarrow> holder_state \<Rightarrow> qualified_name \<Rightarrow> bool" where
  "declared_holder l s h \<longleftrightarrow>
     (\<exists>api \<in> set l \<union> set (apis (hs_new_holders s)). is_holder api \<and> Api_name api = h)"

text \<open>
  What the pass keeps of its state: the holders made so far have names of their own, none of them that of an
  item there was; every holder on file is one of them or was there before.
\<close>

definition holders_ok :: "pod_phase_api list \<Rightarrow> holder_state \<Rightarrow> bool" where
  "holders_ok l s \<longleftrightarrow>
     distinct (map Api_name (apis (hs_new_holders s))) \<and> list_all is_holder (apis (hs_new_holders s)) \<and>
     set (names (hs_new_holders s)) = Api_name ` set (apis (hs_new_holders s)) \<and>
     Api_name ` set l \<union> Api_name ` set (apis (hs_new_holders s)) \<subseteq> set (hs_names_taken s) \<and>
     Api_name ` set l \<inter> Api_name ` set (apis (hs_new_holders s)) = {} \<and>
     (\<forall>cpp h. map_of (hs_holders s) cpp = Some (Some h) \<longrightarrow> declared_holder l s h)"

lemma free_name_found: "\<exists>q. free_name_from base taken = Some q \<and> q \<notin> set taken"
proof (cases "base \<in> set taken")
  case True
  from numbered.search_ends[of "\<lambda>q. q \<in> set taken" 1 base] True show ?thesis by (auto simp: free_name_from_def)
qed (simp add: free_name_from_def)

lemma holder_api_facts [simp]:
  "Api_name (holder_api name cpp ty) = name" "is_holder (holder_api name cpp ty)"
  by (simp_all add: holder_api_def is_holder_def Api_name_def new_from_qualified_name_def
      new_from_qualified_name_and_cpp_name_def)

lemma make_holder_gives:
  assumes "holders_ok l s"
  shows "\<exists>name s'. make_holder ty cpp s = Some (name, s') \<and> holders_ok l s' \<and> declared_holder l s' name \<and>
    set (apis (hs_new_holders s)) \<subseteq> set (apis (hs_new_holders s'))"
proof -
  obtain name where name: "free_name_from (QualifiedName_new Namespace_new (make_ident (concrete_type_ident cpp)))
      (hs_names_taken s) = Some name" "name \<notin> set (hs_names_taken s)" using free_name_found by blast
  let ?v = "apivec_insert (hs_new_holders s) (holder_api name cpp ty)"
  from assms name(2) have fresh: "\<not> already_contains (hs_new_holders s) name"
    by (auto simp: holders_ok_def already_contains_def)
  then have "apivec_push (hs_new_holders s) (holder_api name cpp ty) = Some ?v" by (simp add: apivec_push.simps)
  with name(1) have "make_holder ty cpp s = Some (name, \<lparr>hs_holders = imap_insert cpp (Some name) (hs_holders s),
      hs_names_taken = iset_insert name (hs_names_taken s), hs_new_holders = ?v\<rparr>)" (is "_ = Some (_, ?s')")
    by (simp add: make_holder_def)
  moreover have "holders_ok l ?s'" using assms name(2) by (auto simp: holders_ok_def declared_holder_def)
  moreover have "declared_holder l ?s' name" by (simp add: declared_holder_def)
  ultimately show ?thesis by auto
qed

lemma holder_for_gives:
  assumes "holders_ok l s" and "holder_for ty name_map s = Some (outcome, s')"
  shows "holders_ok l s' \<and> set (apis (hs_new_holders s)) \<subseteq> set (apis (hs_new_holders s')) \<and>
    (\<forall>h. outcome = Inr h \<longrightarrow> declared_holder l s' h)"
proof -
  from assms(2) consider (failed) e where "outcome = Inl e" "s' = s"
    | (known) cpp h where "outcome = Inr h" "s' = s" "map_of (hs_holders s) cpp = Some (Some h)"
    | (made) cpp h where "outcome = Inr h" "make_holder ty cpp s = Some (h, s')"
    by (auto simp: holder_for_def apfst_def map_prod_def split: option.splits sum.splits prod.splits)
  then show ?thesis
  proof cases
    case made
    with make_holder_gives[OF assms(1), of ty cpp] show ?thesis by auto
  qed (use assms(1) in \<open>auto simp: holders_ok_def\<close>)
qed

text \<open>What the pass makes of an item: itself, if it is no variable or one Rust may see, or its getter or a note.\<close>

definition exposed :: "pod_phase_api list \<Rightarrow> holder_state \<Rightarrow> pod_phase_api \<Rightarrow> pod_phase_api \<Rightarrow> bool" where
  "exposed l s api api' \<longleftrightarrow>
     (case api of
        Api_Static name (Some cpp_ty) name_is_cpp_name \<Rightarrow>
          (if cpp_ty \<in> set (representable_static_types l) then api' = api
           else (\<exists>h. api' = static_getter name h \<and> declared_holder l s h) \<or>
                (\<exists>err ctx. api' = Api_IgnoredItem name err ctx))
      | _ \<Rightarrow> api' = api)"

lemma expose_static_gives:
  assumes "holders_ok l s"
    and "expose_static (representable_static_types l) holdable name_map api s = Some (outcome, s')"
  shows "holders_ok l s' \<and> set (apis (hs_new_holders s)) \<subseteq> set (apis (hs_new_holders s')) \<and>
    (\<forall>out. outcome = Inr out \<longrightarrow> (\<exists>api'. out = [api'] \<and> exposed l s' api api' \<and> Api_name api' = Api_name api)) \<and>
    (\<forall>e err ctx. outcome = Inl e \<longrightarrow> exposed l s' api (Api_IgnoredItem (name_info api) err ctx))"
proof (cases "\<exists>name ty is_cpp. api = Api_Static name (Some ty) is_cpp")
  case True
  then obtain name ty is_cpp where api: "api = Api_Static name (Some ty) is_cpp" by blast
  have getter: "Api_name (static_getter name h) = an_name name" for h
    by (simp add: static_getter_def Api_name_def)
  show ?thesis
  proof (cases "\<exists>r. holder_for ty name_map s = Some (r, s') \<and> outcome = map_sum id (\<lambda>h. [static_getter name h]) r \<and>
      ty \<notin> set (representable_static_types l)")
    case True
    then obtain r where r: "holder_for ty name_map s = Some (r, s')"
      "outcome = map_sum id (\<lambda>h. [static_getter name h]) r" "ty \<notin> set (representable_static_types l)" by blast
    from holder_for_gives[OF assms(1) r(1)] r(2,3) show ?thesis
      by (auto simp: api exposed_def map_sum_Inr_iff getter Api_name_def[of "Api_Static _ _ _"])
  next
    case False
    with assms show ?thesis
      by (auto simp: api expose_static_def exposed_def apfst_def map_prod_def split: if_splits prod.splits)
  qed
next
  case False
  with assms show ?thesis
    by (auto simp: expose_static_def exposed_def split: api.splits option.splits)
qed


lemma exposed_mono:
  assumes "exposed l s api api'" and "set (apis (hs_new_holders s)) \<subseteq> set (apis (hs_new_holders s'))"
  shows "exposed l s' api api'"
  using assms by (fastforce simp: exposed_def declared_holder_def split: api.splits option.splits if_splits)

lemma outcomes_exposed:
  assumes "holders_ok l s"
    and "outcomes (item_conversion_with (expose_static (representable_static_types l) holdable name_map)) items s =
      Some (out, s')"
  shows "holders_ok l s' \<and> set (apis (hs_new_holders s)) \<subseteq> set (apis (hs_new_holders s')) \<and>
    list_all2 (\<lambda>api api'. Api_name api' = Api_name api \<and> exposed l s' api api') items out"
  using assms
proof (induction items arbitrary: s out)
  case (Cons api items)
  let ?conv = "item_conversion_with (expose_static (representable_static_types l) holdable name_map)"
  from Cons.prems(2) obtain outcome s1 out1 where step: "?conv api s = Some (outcome, s1)"
    and rest: "outcomes ?conv items s1 = Some (out1, s')" and out: "out = api_or_error (name_info api) outcome @ out1"
    by (auto split: option.splits prod.splits)
  from step obtain r where r: "expose_static (representable_static_types l) holdable name_map api s = Some (r, s1)"
    "outcome = (case r of Inr converted \<Rightarrow> Inr converted
       | Inl e \<Rightarrow> Inl (ConvertErrorWithContext e (Some (new_for_item (get_final_item (Api_name api))))))"
    by (auto simp: item_conversion_with_def)
  note one = expose_static_gives[OF Cons.prems(1) r(1)]
  with Cons.IH[OF _ rest] have more: "holders_ok l s'" "set (apis (hs_new_holders s1)) \<subseteq> set (apis (hs_new_holders s'))"
    by simp_all
  show ?case
  proof (cases r)
    case (Inl e)
    with one Cons.IH[OF _ rest] out r(2) exposed_mono[OF _ more(2)] show ?thesis
      by (auto simp: api_or_error_def Api_name_def)
  next
    case (Inr converted)
    with one Cons.IH[OF _ rest] out r(2) exposed_mono[OF _ more(2)] show ?thesis
      by (auto simp: api_or_error_def)
  qed
qed simp

lemma collect_map_origin:
  assumes "map_of (collect_map f xs) k = Some v"
  shows "\<exists>x \<in> set xs. f x = Some (k, v)"
proof -
  have "map_of (fold (\<lambda>x m. case f x of Some (k, v) \<Rightarrow> imap_insert k v m | None \<Rightarrow> m) xs acc) k = Some v \<Longrightarrow>
      map_of acc k = Some v \<or> (\<exists>x \<in> set xs. f x = Some (k, v))" for acc
  proof (induction xs arbitrary: acc)
    case (Cons x xs)
    from Cons.IH Cons.prems have "map_of (case f x of Some (k, v) \<Rightarrow> imap_insert k v acc | None \<Rightarrow> acc) k = Some v \<or>
        (\<exists>x \<in> set xs. f x = Some (k, v))" by (simp only: fold.simps comp_def)
    then show ?case by (auto split: option.splits prod.splits if_splits)
  qed simp
  from this[of "[]"] assms show ?thesis by (simp add: collect_map_def)
qed

lemma existing_holders_declared:
  assumes "map_of (existing_holders l) cpp = Some (Some h)"
  shows "\<exists>api \<in> set l. is_holder api \<and> Api_name api = h"
proof -
  from collect_map_origin[OF assms[unfolded existing_holders_def]] obtain api where "api \<in> set l"
    and "(case api of
         Api_ConcreteType name rs cpp_definition surface needs incomplete \<Rightarrow>
           Some (cpp_definition, (case surface of Some (Holder_ConstRef _ _) \<Rightarrow> Some (Api_name api) | _ \<Rightarrow> None))
       | _ \<Rightarrow> None) = Some (cpp, Some h)" ..
  then show ?thesis
    by (intro bexI[of _ api]) (auto simp: is_holder_def split: api.splits option.splits holder_surface.splits)
qed

section \<open>Properties\<close>

text \<open>
  C30: the pass over the variables ends with what it promises. Each item keeps its name and its place; one that
  is no variable, or a variable whose type Rust sees as it is, stays, and every other variable becomes a getter
  or a note. What a getter returns is a holder that the list declares, for a \<^verbatim>\<open>const\<close> reference; the holders
  made for it come after the items, each under a name no other item has.
\<close>

theorem static_getters_return_declared_holders:
  assumes "apivec_wf v" and "expose_statics v = Some w"
  shows "\<exists>l holders. apis w = l @ holders \<and> distinct (map Api_name (apis w)) \<and> list_all is_holder holders \<and>
    list_all2 (\<lambda>api api'. Api_name api' = Api_name api \<and>
      (case api of
         Api_Static name (Some cpp_ty) name_is_cpp_name \<Rightarrow>
           (if cpp_ty \<in> set (representable_static_types (apis v)) then api' = api
            else (\<exists>h. api' = static_getter name h \<and> (\<exists>holder \<in> set (apis w). is_holder holder \<and> Api_name holder = h)) \<or>
                 (\<exists>err ctx. api' = Api_IgnoredItem name err ctx))
       | _ \<Rightarrow> api' = api)) (apis v) l"
proof -
  let ?s = "\<lparr>hs_holders = existing_holders (apis v), hs_names_taken = fold iset_insert (map Api_name (apis v)) [],
      hs_new_holders = ApiVec_new\<rparr>"
  from assms(2) obtain holdable results s' where
    pass: "convert_item_apis_with (expose_static (representable_static_types (apis v)) holdable
        (new_for_analysis (apis v))) v ApiVec_new ?s = Some (results, s')"
    and w: "apivec_append results (hs_new_holders s') = Some w"
    by (auto simp: expose_statics_def split: Option.bind_splits prod.splits)
  from pass obtain l where l: "outcomes (item_conversion_with (expose_static (representable_static_types (apis v)) holdable
        (new_for_analysis (apis v)))) (apis v) ?s = Some (l, s')" and from_l: "apivec_from_iter l = Some results"
    by (auto simp: convert_item_apis_with_def pass_with_def apivec_from_iter_def split: option.splits)
  have "holders_ok (apis v) ?s"
    using existing_holders_declared by (fastforce simp: holders_ok_def declared_holder_def ApiVec_new_def)
  from outcomes_exposed[OF this l] have ok: "holders_ok (apis v) s'"
    and each: "list_all2 (\<lambda>api api'. Api_name api' = Api_name api \<and> exposed (apis v) s' api api') (apis v) l"
    by simp_all
  let ?new = "apis (hs_new_holders s')"
  have names: "map Api_name l = map Api_name (apis v)"
    using each by (auto simp: list_all2_conv_all_nth intro: nth_equalityI)
  with assms(1) have dist: "distinct (map Api_name l)" by (simp add: apivec_wf_def)
  have results: "results = fold (\<lambda>api v. apivec_insert v api) l ApiVec_new"
    using extend_fresh[OF dist, of ApiVec_new] from_l by (simp add: apivec_from_iter_def already_contains_def ApiVec_new_def)
  have stored: "set (names results) = Api_name ` set l"
  proof -
    have "set (names (fold (\<lambda>api v. apivec_insert v api) l v)) = Api_name ` set l \<union> set (names v)"
      for v :: pod_phase_apis by (induction l arbitrary: v) auto
    then show ?thesis by (simp add: results ApiVec_new_def)
  qed
  have "Api_name ` set l = Api_name ` set (apis v)" using names by (metis list.set_map)
  with ok stored have apart: "\<forall>api \<in> set ?new. \<not> already_contains results (Api_name api)" "distinct (map Api_name ?new)"
    by (auto simp: holders_ok_def already_contains_def)
  with extend_fresh[OF apart(2,1)] w have w_is: "apis w = l @ ?new"
    by (auto simp: apivec_append_def results ApiVec_new_def)
  have "distinct (map Api_name (l @ ?new))" "list_all is_holder ?new"
    using dist ok names \<open>Api_name ` set l = _\<close> by (auto simp: holders_ok_def)
  moreover have "\<exists>holder \<in> set (apis w). is_holder holder \<and> Api_name holder = h" if "declared_holder (apis v) s' h" for h
  proof -
    from that obtain api where api: "api \<in> set (apis v) \<union> set ?new" "is_holder api" "Api_name api = h"
      by (auto simp: declared_holder_def)
    show ?thesis
    proof (cases "api \<in> set ?new")
      case False
      with api(1) each obtain i where i: "i < length l" "api = apis v ! i" "exposed (apis v) s' api (l ! i)"
        by (auto simp: list_all2_conv_all_nth in_set_conv_nth)
      with api(2) have "l ! i = api" by (auto simp: is_holder_def exposed_def split: api.splits)
      with i(1) have "api \<in> set l" by force
      with api show ?thesis by (auto simp: w_is)
    qed (use api in \<open>auto simp: w_is\<close>)
  qed
  then have "list_all2 (\<lambda>api api'. Api_name api' = Api_name api \<and>
      (case api of
         Api_Static name (Some cpp_ty) name_is_cpp_name \<Rightarrow>
           (if cpp_ty \<in> set (representable_static_types (apis v)) then api' = api
            else (\<exists>h. api' = static_getter name h \<and> (\<exists>holder \<in> set (apis w). is_holder holder \<and> Api_name holder = h)) \<or>
                 (\<exists>err ctx. api' = Api_IgnoredItem name err ctx))
       | _ \<Rightarrow> api' = api)) (apis v) l"
    by (intro list.rel_mono_strong[OF each])
      (auto simp: exposed_def split: api.splits option.splits if_splits)
  ultimately show ?thesis using w_is by (intro exI[of _ l] exI[of _ ?new] conjI) (simp_all split del: if_split)
qed


text \<open>A struct Rust sees, a variable of it, and a variable of a type of which nothing is known.\<close>

definition sample_statics :: pod_phase_apis where
  "sample_statics =
     \<lparr>apis = [Api_Struct (sample_name ''P'') (item_with ''P'' []) (sample_analysis Pod []),
              Api_Static (sample_name ''a'') (Some (QualifiedName [''ns''] ''P'')) True,
              Api_Static (sample_name ''b'') (Some (QualifiedName [''ns''] ''X'')) False],
      names = map (QualifiedName [''ns'']) [''P'', ''a'', ''b'']\<rparr>"

lemma sample_statics_exposed: "\<exists>w. expose_statics sample_statics = Some w"
proof -
  obtain m where "get_pod_safe_types known_types = Some m"
    using pod_safety_collect_total[OF closed_resolves[OF known_types_closed], of "all_names known_types" "[]"]
    by (auto simp: get_pod_safe_types_def)
  then show ?thesis
    by (simp add: expose_statics_def holdable_static_types_def convert_item_apis_with_def pass_with_def
        sample_statics_def item_conversion_with_def expose_static_def representable_static_types_def map_filter_simps
        sample_analysis_def api_or_error_def apivec_push.simps ApiVec_new_def already_contains_def
        apivec_insert_def iset_insert_def Api_name_def sample_name_def new_from_qualified_name_def
        new_from_qualified_name_and_cpp_name_def apivec_append_def Let_def)
qed

lemma static_getters_return_declared_holders_witness:
  "\<exists>w. expose_statics sample_statics = Some w \<and> apis w ! 1 = apis sample_statics ! 1 \<and>
     ((\<exists>h. apis w ! 2 = static_getter (sample_name ''b'') h) \<or> (\<exists>err ctx. apis w ! 2 = Api_IgnoredItem (sample_name ''b'') err ctx))"
proof -
  from sample_statics_exposed obtain w where w: "expose_statics sample_statics = Some w" by blast
  have wf: "apivec_wf sample_statics"
    "QualifiedName [''ns''] ''P'' \<in> set (representable_static_types (apis sample_statics))"
    "QualifiedName [''ns''] ''X'' \<notin> set (representable_static_types (apis sample_statics))" by code_simp+
  from static_getters_return_declared_holders[OF wf(1) w] obtain l holders where l: "apis w = l @ holders"
    "list_all2 (\<lambda>api api'. Api_name api' = Api_name api \<and>
      (case api of
         Api_Static name (Some cpp_ty) name_is_cpp_name \<Rightarrow>
           (if cpp_ty \<in> set (representable_static_types (apis sample_statics)) then api' = api
            else (\<exists>h. api' = static_getter name h \<and> (\<exists>holder \<in> set (apis w). is_holder holder \<and> Api_name holder = h)) \<or>
                 (\<exists>err ctx. api' = Api_IgnoredItem name err ctx))
       | _ \<Rightarrow> api' = api)) (apis sample_statics) l" by blast
  with wf(2,3) have "l ! 1 = apis sample_statics ! 1"
    "(\<exists>h. l ! 2 = static_getter (sample_name ''b'') h) \<or> (\<exists>err ctx. l ! 2 = Api_IgnoredItem (sample_name ''b'') err ctx)"
    "length l = 3"
    by (auto simp: sample_statics_def list_all2_Cons1)
  with w l(1) show ?thesis by (auto simp: nth_append)
qed

end
