(* ===== verification/AbstractTypes.thy ===== *)
theory AbstractTypes imports Deps ErrorReporter begin

text \<open>
  Which classes are abstract, and what goes with that (\<^verbatim>\<open>analysis/abstract_types.rs\<close>): a census of
  the virtual functions, the destructors that are virtual by inheritance, a walk over the classes
  with bases first, and the withdrawal of what would make an object of an abstract class. \<open>None\<close>
  stands for a panic.
\<close>

type_synonym fn_pre_phase3_apis =
  "(typedef_analysis, pod_and_constructor_analysis, fn_analysis, subclass_analysis) api_vec"

section \<open>Pure virtual functions\<close>

record signature =
  sig_name :: cpp_effective_name
  sig_args :: "rust_type list"
  sig_constness :: receiver_mutability

definition Signature_new :: "api_name \<Rightarrow> fn_arg list \<Rightarrow> receiver_mutability \<Rightarrow> signature" where
  "Signature_new name params constness =
     \<lparr>sig_name = ApiName_cpp_name name,
      sig_args = concat (map (\<lambda>p. case p of FnArg_Typed _ ty \<Rightarrow> [ty] | FnArg_Receiver _ \<Rightarrow> []) (drop 1 params)),
      sig_constness = constness\<rparr>"

record pure_virtual =
  pv_declared_by :: qualified_name
  pv_signature :: signature

record class_abstract_state =
  cs_undefined :: "pure_virtual list"
  cs_undefined_through_virtual_base :: "pure_virtual list"
  cs_defined :: "signature list"
  cs_overrides_through_virtual_base :: "pure_virtual list"

definition default_class_state :: class_abstract_state where
  "default_class_state =
     \<lparr>cs_undefined = [], cs_undefined_through_virtual_base = [], cs_defined = [],
      cs_overrides_through_virtual_base = []\<rparr>"

type_synonym class_states = "(qualified_name, class_abstract_state) index_map"

definition state_of_class :: "class_states \<Rightarrow> qualified_name \<Rightarrow> class_abstract_state" where
  "state_of_class states name =
     (case map_of states name of Some s \<Rightarrow> s | None \<Rightarrow> default_class_state)"

record virtual_census =
  vc_class_states :: class_states
  vc_pure_virtual_destructors :: "qualified_name list"
  vc_virtual_destructors :: "qualified_name list"

definition note_virtual :: "fn_pre_phase3 \<Rightarrow> virtual_census \<Rightarrow> virtual_census" where
  "note_virtual api c =
     (case api of
        Api_Function name fn analysis \<Rightarrow>
          (case fa_kind analysis of
             FnKind_Method mkind self_ty \<Rightarrow>
               (let s = state_of_class (vc_class_states c) self_ty in
                case mkind of
                  PureVirtualMethod constness \<Rightarrow>
                    c\<lparr>vc_class_states := imap_insert self_ty
                        (s\<lparr>cs_undefined := iset_insert
                             \<lparr>pv_declared_by = self_ty, pv_signature = Signature_new name (fa_params analysis) constness\<rparr>
                             (cs_undefined s)\<rparr>)
                        (vc_class_states c)\<rparr>
                | VirtualMethod constness \<Rightarrow>
                    c\<lparr>vc_class_states := imap_insert self_ty
                        (s\<lparr>cs_defined := iset_insert (Signature_new name (fa_params analysis) constness) (cs_defined s)\<rparr>)
                        (vc_class_states c)\<rparr>
                | _ \<Rightarrow> c)
           | FnKind_TraitMethod Trait_Destructor self_ty _ \<Rightarrow>
               (case fc_virtualness fn of
                  None \<Rightarrow> c
                | Some virtualness \<Rightarrow>
                    c\<lparr>vc_pure_virtual_destructors :=
                         (if virtualness = PureVirtual then iset_insert self_ty (vc_pure_virtual_destructors c)
                          else vc_pure_virtual_destructors c),
                      vc_virtual_destructors := iset_insert self_ty (vc_virtual_destructors c)\<rparr>)
           | _ \<Rightarrow> c)
      | _ \<Rightarrow> c)"

definition census :: "fn_pre_phase3 list \<Rightarrow> virtual_census" where
  "census l = fold note_virtual l
     \<lparr>vc_class_states = [], vc_pure_virtual_destructors = [], vc_virtual_destructors = []\<rparr>"

section \<open>Virtual destructors\<close>

fun destructor_pass ::
    "(qualified_name, qualified_name) index_map \<Rightarrow> fn_pre_phase3 list \<Rightarrow> qualified_name list \<Rightarrow>
     qualified_name list \<times> bool" where
  "destructor_pass targets [] virtual = (virtual, False)"
| "destructor_pass targets (api # rest) virtual =
     (case api of
        Api_Struct name details analysis \<Rightarrow>
          if an_name name \<notin> set virtual
             \<and> list_ex (\<lambda>b. resolve_typedefs targets b \<in> set virtual) (pa_bases (pca_pod analysis))
          then (fst (destructor_pass targets rest (iset_insert (an_name name) virtual)), True)
          else destructor_pass targets rest virtual
      | _ \<Rightarrow> destructor_pass targets rest virtual)"

definition virtual_destructors ::
    "(qualified_name, qualified_name) index_map \<Rightarrow> fn_pre_phase3 list \<Rightarrow> qualified_name list \<Rightarrow>
     qualified_name list option" where
  "virtual_destructors targets l declared = run_rounds (\<lambda>v. Some (destructor_pass targets l v)) declared"

section \<open>Abstract classes\<close>

definition phase3_field_and_base_deps :: "fn_pre_phase3 \<Rightarrow> qualified_name list" where
  "phase3_field_and_base_deps api =
     (case api of
        Api_Struct name details analysis \<Rightarrow>
          pa_field_definition_deps (pca_pod analysis) @ pa_bases (pca_pod analysis)
      | _ \<Rightarrow> [])"

definition index_extend :: "'a list \<Rightarrow> 'a list \<Rightarrow> 'a list" where
  "index_extend xs new = fold iset_insert new xs"

definition inherit_from ::
    "(qualified_name, qualified_name) index_map \<Rightarrow> qualified_name list \<Rightarrow> class_states \<Rightarrow> qualified_name \<Rightarrow>
     class_abstract_state \<Rightarrow> class_abstract_state" where
  "inherit_from targets virtual_bases states base self_cs =
     (case map_of states (resolve_typedefs targets base) of
        None \<Rightarrow> self_cs
      | Some base_cs \<Rightarrow>
          let self_cs =
                (if base \<in> set virtual_bases then
                   self_cs\<lparr>cs_undefined_through_virtual_base :=
                     index_extend (cs_undefined_through_virtual_base self_cs) (cs_undefined base_cs)\<rparr>
                 else
                   self_cs\<lparr>cs_undefined := index_extend (cs_undefined self_cs) (cs_undefined base_cs)\<rparr>)
          in self_cs
            \<lparr>cs_undefined_through_virtual_base :=
               index_extend (cs_undefined_through_virtual_base self_cs) (cs_undefined_through_virtual_base base_cs),
             cs_overrides_through_virtual_base :=
               index_extend (cs_overrides_through_virtual_base self_cs) (cs_overrides_through_virtual_base base_cs)\<rparr>)"

definition settle :: "class_abstract_state \<Rightarrow> class_abstract_state" where
  "settle s =
     (let overrides = index_extend (cs_overrides_through_virtual_base s)
            (filter (\<lambda>pure. pv_signature pure \<in> set (cs_defined s)) (cs_undefined_through_virtual_base s))
      in s\<lparr>cs_overrides_through_virtual_base := overrides,
           cs_undefined := filter (\<lambda>und. pv_signature und \<notin> set (cs_defined s)) (cs_undefined s),
           cs_undefined_through_virtual_base :=
             filter (\<lambda>und. und \<notin> set overrides) (cs_undefined_through_virtual_base s)\<rparr>)"

definition abstract_step ::
    "(qualified_name, qualified_name) index_map \<Rightarrow> qualified_name list \<Rightarrow> fn_pre_phase3 \<Rightarrow>
     class_states \<times> qualified_name list \<Rightarrow> class_states \<times> qualified_name list" where
  "abstract_step targets pure_virtual_destructors api = (\<lambda>(states, abstract_classes).
     case api of
       Api_Struct name details analysis \<Rightarrow>
         let pod = pca_pod analysis in
         if pa_kind pod = Pod \<or> pa_kind pod = NonPod then
           let self_cs = settle (fold (inherit_from targets (pa_virtual_bases pod) states) (pa_bases pod)
                           (state_of_class states (an_name name)))
           in (imap_insert (an_name name) self_cs states,
               if cs_undefined self_cs \<noteq> [] \<or> cs_undefined_through_virtual_base self_cs \<noteq> []
                  \<or> an_name name \<in> set pure_virtual_destructors
               then iset_insert (an_name name) abstract_classes else abstract_classes)
         else (states, abstract_classes)
     | _ \<Rightarrow> (states, abstract_classes))"

definition find_abstract_classes ::
    "(qualified_name, qualified_name) index_map \<Rightarrow> fn_pre_phase3 list \<Rightarrow> qualified_name list option" where
  "find_abstract_classes targets l =
     map_option
       (\<lambda>order. snd (fold (abstract_step targets (vc_pure_virtual_destructors (census l))) order
                       (vc_class_states (census l), [])))
       (fields_and_bases_first Api_name phase3_field_and_base_deps l)"

definition mark_one ::
    "(qualified_name, qualified_name) index_map \<Rightarrow> qualified_name list \<Rightarrow> qualified_name list \<Rightarrow>
     fn_pre_phase3 \<Rightarrow> fn_pre_phase3" where
  "mark_one targets abstract_classes virtual_dtors api =
     (case api of
        Api_Struct name details analysis \<Rightarrow>
          if an_name name \<in> set abstract_classes then
            Api_Struct name details
              (analysis\<lparr>pca_pod := (pca_pod analysis)\<lparr>pa_kind := Abstract\<rparr>,
                        pca_constructors := (pca_constructors analysis)
                          \<lparr>pc_abstract_without_virtual_destructor := (an_name name \<notin> set virtual_dtors)\<rparr>\<rparr>)
          else api
      | Api_Subclass name superclass analysis \<Rightarrow>
          Api_Subclass name superclass
            (analysis\<lparr>sa_superclass_destructor_virtual := (resolve_typedefs targets superclass \<in> set virtual_dtors)\<rparr>)
      | _ \<Rightarrow> api)"

definition makes_object_of :: "qualified_name list \<Rightarrow> fn_pre_phase3 \<Rightarrow> bool" where
  "makes_object_of classes api =
     (case api of
        Api_Function name fn analysis \<Rightarrow>
          (case fa_kind analysis of
             FnKind_Method (Constructor _) self_ty \<Rightarrow> self_ty \<in> set classes
           | FnKind_TraitMethod Trait_CopyConstructor self_ty _ \<Rightarrow> self_ty \<in> set classes
           | FnKind_TraitMethod Trait_MoveConstructor self_ty _ \<Rightarrow> self_ty \<in> set classes
           | _ \<Rightarrow> False)
      | _ \<Rightarrow> False)"

definition refuse_nested_abstract ::
    "fn_pre_phase3 \<Rightarrow> (convert_error, fn_pre_phase3 list) result" where
  "refuse_nested_abstract api =
     (case api of
        Api_Struct name details analysis \<Rightarrow>
          if pa_kind (pca_pod analysis) = Abstract
             \<and> (case an_cpp_name name of Some n \<Rightarrow> is_nested n | None \<Rightarrow> False)
          then Inl AbstractNestedType else Inr [api]
      | _ \<Rightarrow> Inr [api])"

definition mark_types_abstract :: "fn_pre_phase3_apis \<Rightarrow> fn_pre_phase3_apis option" where
  "mark_types_abstract v =
     (case typedef_targets v of
        None \<Rightarrow> None
      | Some targets \<Rightarrow>
          (case virtual_destructors targets (apis v) (vc_virtual_destructors (census (apis v))) of
             None \<Rightarrow> None
           | Some virtual_dtors \<Rightarrow>
               (case find_abstract_classes targets (apis v) of
                  None \<Rightarrow> None
                | Some abstract_classes \<Rightarrow>
                    (case apivec_from_iter (map (mark_one targets abstract_classes virtual_dtors) (apis v)) of
                       None \<Rightarrow> None
                     | Some marked \<Rightarrow>
                         convert_item_apis refuse_nested_abstract
                           (retain (\<lambda>api. \<not> makes_object_of abstract_classes api) marked) ApiVec_new))))"

section \<open>Functions that are not to be generated\<close>

definition keep_unless_ignored ::
    "api_name \<Rightarrow> func_to_convert \<Rightarrow> fn_analysis \<Rightarrow>
     (convert_error_with_context, ('td, 'st, fn_analysis, 'sub) api list) result" where
  "keep_unless_ignored name fn analysis =
     (case fa_ignore_reason analysis of
        Inl e \<Rightarrow> Inl e
      | Inr _ \<Rightarrow> Inr [Api_Function name fn analysis])"

definition discard_ignored_functions :: "fn_phase_apis \<Rightarrow> fn_phase_apis option" where
  "discard_ignored_functions v =
     convert_apis
       \<lparr>func_conversion = keep_unless_ignored, struct_conversion = struct_unchanged,
        enum_conversion = enum_unchanged, typedef_conversion = typedef_unchanged,
        subclass_conversion = subclass_unchanged\<rparr>
       v ApiVec_new"

section \<open>The destructors found virtual\<close>

text \<open>A class has a virtual destructor where it declares one, or a base it names has.\<close>

inductive destructor_virtual ::
    "(qualified_name, qualified_name) index_map \<Rightarrow> fn_pre_phase3 list \<Rightarrow> qualified_name list \<Rightarrow>
     qualified_name \<Rightarrow> bool" for targets l declared where
  declared: "n \<in> set declared \<Longrightarrow> destructor_virtual targets l declared n"
| inherited: "Api_Struct name details analysis \<in> set l \<Longrightarrow> b \<in> set (pa_bases (pca_pod analysis)) \<Longrightarrow>
    destructor_virtual targets l declared (resolve_typedefs targets b) \<Longrightarrow>
    destructor_virtual targets l declared (an_name name)"

abbreviation newly_virtual ::
    "(qualified_name, qualified_name) index_map \<Rightarrow> qualified_name list \<Rightarrow> fn_pre_phase3 \<Rightarrow> bool" where
  "newly_virtual targets known api \<equiv>
     \<exists>name details analysis. api = Api_Struct name details analysis \<and> an_name name \<notin> set known \<and>
       (\<exists>b \<in> set (pa_bases (pca_pod analysis)). resolve_typedefs targets b \<in> set known)"

lemma destructor_pass_Cons:
  "destructor_pass targets (api # rest) known =
     (if newly_virtual targets known api
      then (fst (destructor_pass targets rest (iset_insert (Api_name api) known)), True)
      else destructor_pass targets rest known)"
  by (cases api) (auto simp: list_ex_iff Api_name_def)

declare destructor_pass.simps(2) [simp del]

lemma destructor_pass_grows: "set known \<subseteq> set (fst (destructor_pass targets l known))"
proof (induction l arbitrary: known)
  case (Cons api l)
  from Cons.IH[of known] Cons.IH[of "iset_insert (Api_name api) known"] show ?case
    by (auto simp: destructor_pass_Cons)
qed simp

lemma destructor_pass_sound:
  assumes "\<forall>n \<in> set known. destructor_virtual targets l0 declared n" and "set l \<subseteq> set l0"
  shows "\<forall>n \<in> set (fst (destructor_pass targets l known)). destructor_virtual targets l0 declared n"
  using assms
proof (induction l arbitrary: known)
  case (Cons api l)
  have rest: "set l \<subseteq> set l0" using Cons.prems(2) by simp
  show ?case
  proof (cases "newly_virtual targets known api")
    case True
    then have "destructor_virtual targets l0 declared (Api_name api)"
      using Cons.prems by (auto simp: Api_name_def intro: destructor_virtual.inherited)
    with Cons.prems(1) have "\<forall>n \<in> set (iset_insert (Api_name api) known). destructor_virtual targets l0 declared n"
      by simp
    from Cons.IH[OF this rest] True show ?thesis by (simp only: destructor_pass_Cons if_True fst_conv)
  next
    case False
    from Cons.IH[OF Cons.prems(1) rest] show ?thesis by (simp only: destructor_pass_Cons False if_False)
  qed
qed simp

lemma destructor_pass_again:
  assumes "snd (destructor_pass targets l known)"
  shows "\<exists>api \<in> set l. Api_name api \<notin> set known \<and> Api_name api \<in> set (fst (destructor_pass targets l known))"
  using assms
proof (induction l)
  case (Cons api l)
  show ?case
  proof (cases "newly_virtual targets known api")
    case True
    then have "Api_name api \<notin> set known" by (auto simp: Api_name_def)
    moreover have "Api_name api \<in> set (fst (destructor_pass targets l (iset_insert (Api_name api) known)))"
      using destructor_pass_grows[of "iset_insert (Api_name api) known" targets l] by auto
    ultimately show ?thesis using True by (simp only: destructor_pass_Cons if_True fst_conv) simp
  next
    case False
    with Cons show ?thesis by (simp only: destructor_pass_Cons if_False) simp
  qed
qed simp

lemma destructor_pass_done:
  assumes "destructor_pass targets l known = (known', False)"
  shows "known' = known \<and> (\<forall>api \<in> set l. \<not> newly_virtual targets known api)"
  using assms
proof (induction l)
  case (Cons api l)
  then show ?case by (cases "newly_virtual targets known api") (simp_all only: destructor_pass_Cons if_True if_False prod.inject, auto)
qed simp

interpretation destructors: converging_rounds "\<lambda>known. Some (destructor_pass targets l known)" "\<lambda>_. True"
    "\<lambda>known. length (filter (\<lambda>api. Api_name api \<notin> set known) l)"
proof
  fix known :: "qualified_name list"
  obtain known' again where pass: "destructor_pass targets l known = (known', again)" by fastforce
  have "length (filter (\<lambda>api. Api_name api \<notin> set known') l) < length (filter (\<lambda>api. Api_name api \<notin> set known) l)"
    if again
  proof -
    from pass that destructor_pass_again[of targets l known] obtain api where
      api: "api \<in> set l" "Api_name api \<notin> set known" "Api_name api \<in> set known'" by auto
    from pass destructor_pass_grows[of known targets l] have "set known \<subseteq> set known'" by simp
    then have "filter (\<lambda>api. Api_name api \<notin> set known') l =
        filter (\<lambda>api. Api_name api \<notin> set known') (filter (\<lambda>api. Api_name api \<notin> set known) l)"
      by (auto intro: filter_cong)
    moreover have "length (filter (\<lambda>api. Api_name api \<notin> set known') (filter (\<lambda>api. Api_name api \<notin> set known) l)) <
        length (filter (\<lambda>api. Api_name api \<notin> set known) l)"
      using api by (intro length_filter_less[of api]) auto
    ultimately show ?thesis by simp
  qed
  with pass show "\<exists>t again. Some (destructor_pass targets l known) = Some (t, again) \<and> True \<and>
      (again \<longrightarrow> length (filter (\<lambda>api. Api_name api \<notin> set t) l) <
        length (filter (\<lambda>api. Api_name api \<notin> set known) l))" by blast
qed

lemma virtual_destructors_found:
  "\<exists>found. virtual_destructors targets l declared = Some found \<and>
     set found = {n. destructor_virtual targets l declared n}"
proof -
  let ?P = "\<lambda>known. (\<forall>n \<in> set known. destructor_virtual targets l declared n) \<and> set declared \<subseteq> set known"
  have keep: "?P t" if "?P s" "Some (destructor_pass targets l s) = Some (t, again)" for s t again
    using destructor_pass_sound[of s targets l declared l] destructor_pass_grows[of s targets l] that by auto
  have start: "?P declared" by (auto intro: destructor_virtual.declared)
  have "\<exists>s t. run_rounds (\<lambda>known. Some (destructor_pass targets l known)) declared = Some t \<and> True \<and> ?P s \<and>
      Some (destructor_pass targets l s) = Some (t, False)"
    using TrueI start keep by (rule destructors.rounds_keep[where P = ?P])
  then obtain s t where run: "virtual_destructors targets l declared = Some t" "?P s"
    "Some (destructor_pass targets l s) = Some (t, False)"
    unfolding virtual_destructors_def by blast
  then have t: "t = s" and closed: "\<forall>api \<in> set l. \<not> newly_virtual targets s api"
    using destructor_pass_done[of targets l s t] by auto
  have "n \<in> set s" if "destructor_virtual targets l declared n" for n
    using that
  proof induction
    case (inherited name details analysis b)
    with closed show ?case by blast
  qed (use run(2) in blast)
  with run t show ?thesis by blast
qed


section \<open>What the census notes\<close>

definition declares_pure :: "fn_pre_phase3 list \<Rightarrow> qualified_name \<Rightarrow> signature \<Rightarrow> bool" where
  "declares_pure l n sig \<longleftrightarrow> (\<exists>name fn analysis constness. Api_Function name fn analysis \<in> set l \<and>
     fa_kind analysis = FnKind_Method (PureVirtualMethod constness) n \<and>
     sig = Signature_new name (fa_params analysis) constness)"

definition defines_virtual :: "fn_pre_phase3 list \<Rightarrow> qualified_name \<Rightarrow> signature \<Rightarrow> bool" where
  "defines_virtual l n sig \<longleftrightarrow> (\<exists>name fn analysis constness. Api_Function name fn analysis \<in> set l \<and>
     fa_kind analysis = FnKind_Method (VirtualMethod constness) n \<and>
     sig = Signature_new name (fa_params analysis) constness)"

definition destructor_declared :: "(virtualness \<Rightarrow> bool) \<Rightarrow> fn_pre_phase3 list \<Rightarrow> qualified_name \<Rightarrow> bool" where
  "destructor_declared ok l n \<longleftrightarrow> (\<exists>name fn analysis details how. Api_Function name fn analysis \<in> set l \<and>
     fa_kind analysis = FnKind_TraitMethod Trait_Destructor n details \<and> fc_virtualness fn = Some how \<and> ok how)"

lemma state_of_insert [simp]:
  "state_of_class (imap_insert k s m) n = (if n = k then s else state_of_class m n)"
  by (simp add: state_of_class_def)

text \<open>Of a single item, so that a whole list is a union.\<close>

lemma declares_pure_Cons: "declares_pure (api # l) n sig \<longleftrightarrow> declares_pure [api] n sig \<or> declares_pure l n sig"
  unfolding declares_pure_def by (simp only: list.set insert_iff empty_iff) blast

lemma defines_virtual_Cons: "defines_virtual (api # l) n sig \<longleftrightarrow> defines_virtual [api] n sig \<or> defines_virtual l n sig"
  unfolding defines_virtual_def by (simp only: list.set insert_iff empty_iff) blast

lemma destructor_declared_Cons:
  "destructor_declared ok (api # l) n \<longleftrightarrow> destructor_declared ok [api] n \<or> destructor_declared ok l n"
  unfolding destructor_declared_def by (simp only: list.set insert_iff empty_iff) blast

abbreviation pure_of :: "qualified_name \<Rightarrow> signature \<Rightarrow> pure_virtual" where
  "pure_of n sig \<equiv> \<lparr>pv_declared_by = n, pv_signature = sig\<rparr>"

lemma note_virtual_one:
  "set (cs_undefined (state_of_class (vc_class_states (note_virtual api c)) n)) =
     set (cs_undefined (state_of_class (vc_class_states c) n)) \<union> {pure_of n sig | sig. declares_pure [api] n sig}"
  "set (cs_defined (state_of_class (vc_class_states (note_virtual api c)) n)) =
     set (cs_defined (state_of_class (vc_class_states c) n)) \<union> {sig. defines_virtual [api] n sig}"
  "cs_undefined_through_virtual_base (state_of_class (vc_class_states (note_virtual api c)) n) =
     cs_undefined_through_virtual_base (state_of_class (vc_class_states c) n)"
  "set (vc_pure_virtual_destructors (note_virtual api c)) =
     set (vc_pure_virtual_destructors c) \<union> {n. destructor_declared (\<lambda>how. how = PureVirtual) [api] n}"
  "set (vc_virtual_destructors (note_virtual api c)) =
     set (vc_virtual_destructors c) \<union> {n. destructor_declared (\<lambda>how. True) [api] n}"
  by (cases api; (auto simp: note_virtual_def declares_pure_def defines_virtual_def destructor_declared_def Let_def
        split: fn_kind.splits method_kind.splits trait_method_kind.splits option.splits)[1])+

lemma fold_note_virtual:
  "set (cs_undefined (state_of_class (vc_class_states (fold note_virtual l c)) n)) =
     set (cs_undefined (state_of_class (vc_class_states c) n)) \<union> {pure_of n sig | sig. declares_pure l n sig}"
  "set (cs_defined (state_of_class (vc_class_states (fold note_virtual l c)) n)) =
     set (cs_defined (state_of_class (vc_class_states c) n)) \<union> {sig. defines_virtual l n sig}"
  "cs_undefined_through_virtual_base (state_of_class (vc_class_states (fold note_virtual l c)) n) =
     cs_undefined_through_virtual_base (state_of_class (vc_class_states c) n)"
  "set (vc_pure_virtual_destructors (fold note_virtual l c)) =
     set (vc_pure_virtual_destructors c) \<union> {n. destructor_declared (\<lambda>how. how = PureVirtual) l n}"
  "set (vc_virtual_destructors (fold note_virtual l c)) =
     set (vc_virtual_destructors c) \<union> {n. destructor_declared (\<lambda>how. True) l n}"
proof (induction l arbitrary: c)
  case (Cons api l)
  { case 1 show ?case unfolding fold_simps comp_def Cons.IH(1) note_virtual_one(1) declares_pure_Cons[of api l] by blast }
  { case 2 show ?case unfolding fold_simps comp_def Cons.IH(2) note_virtual_one(2) defines_virtual_Cons[of api l] by blast }
  { case 3 show ?case unfolding fold_simps comp_def Cons.IH(3) note_virtual_one(3) by simp }
  { case 4 show ?case unfolding fold_simps comp_def Cons.IH(4) note_virtual_one(4)
      destructor_declared_Cons[of "\<lambda>how. how = PureVirtual" api l] by blast }
  { case 5 show ?case unfolding fold_simps comp_def Cons.IH(5) note_virtual_one(5)
      destructor_declared_Cons[of "\<lambda>how. True" api l] by blast }
qed (auto simp: declares_pure_def defines_virtual_def destructor_declared_def)

lemma census_notes:
  "set (cs_undefined (state_of_class (vc_class_states (census l)) n)) = {pure_of n sig | sig. declares_pure l n sig}"
  "set (cs_defined (state_of_class (vc_class_states (census l)) n)) = {sig. defines_virtual l n sig}"
  "cs_undefined_through_virtual_base (state_of_class (vc_class_states (census l)) n) = []"
  "set (vc_pure_virtual_destructors (census l)) = {n. destructor_declared (\<lambda>how. how = PureVirtual) l n}"
  "set (vc_virtual_destructors (census l)) = {n. destructor_declared (\<lambda>how. True) l n}"
  unfolding census_def fold_note_virtual by (simp_all add: state_of_class_def default_class_state_def)


section \<open>The walk over the classes\<close>

lemma set_index_extend [simp]: "set (index_extend xs new) = set xs \<union> set new"
  by (simp add: index_extend_def Un_commute)

lemma inherit_from_sets:
  "set (cs_undefined (inherit_from targets vbases states b s)) = set (cs_undefined s) \<union>
     (if b \<in> set vbases then {} else set (cs_undefined (state_of_class states (resolve_typedefs targets b))))"
  "set (cs_undefined_through_virtual_base (inherit_from targets vbases states b s)) =
     set (cs_undefined_through_virtual_base s) \<union>
     (if b \<in> set vbases then set (cs_undefined (state_of_class states (resolve_typedefs targets b))) else {}) \<union>
     set (cs_undefined_through_virtual_base (state_of_class states (resolve_typedefs targets b)))"
  "cs_defined (inherit_from targets vbases states b s) = cs_defined s"
  by (auto simp: inherit_from_def state_of_class_def default_class_state_def Let_def split: option.splits)

lemma fold_inherit_sets:
  "set (cs_undefined (fold (inherit_from targets vbases states) bases s)) = set (cs_undefined s) \<union>
     (\<Union>b \<in> {b \<in> set bases. b \<notin> set vbases}. set (cs_undefined (state_of_class states (resolve_typedefs targets b))))"
  "set (cs_undefined_through_virtual_base (fold (inherit_from targets vbases states) bases s)) =
     set (cs_undefined_through_virtual_base s) \<union>
     (\<Union>b \<in> {b \<in> set bases. b \<in> set vbases}. set (cs_undefined (state_of_class states (resolve_typedefs targets b)))) \<union>
     (\<Union>b \<in> set bases. set (cs_undefined_through_virtual_base (state_of_class states (resolve_typedefs targets b))))"
  "cs_defined (fold (inherit_from targets vbases states) bases s) = cs_defined s"
  by (induction bases arbitrary: s) (auto simp: inherit_from_sets split: if_splits)

lemma settle_sets:
  "set (cs_undefined (settle s)) = {und \<in> set (cs_undefined s). pv_signature und \<notin> set (cs_defined s)}"
  "set (cs_undefined_through_virtual_base (settle s)) \<subseteq> set (cs_undefined_through_virtual_base s)"
  "cs_defined (settle s) = cs_defined s"
  by (auto simp: settle_def Let_def)

text \<open>A class the walk looks at, with its bases.\<close>

definition walked :: "fn_pre_phase3 list \<Rightarrow> qualified_name \<Rightarrow> qualified_name list \<Rightarrow> bool" where
  "walked l n bases \<longleftrightarrow> (\<exists>name details analysis. Api_Struct name details analysis \<in> set l \<and>
     an_name name = n \<and> pa_bases (pca_pod analysis) = bases \<and>
     (pa_kind (pca_pod analysis) = Pod \<or> pa_kind (pca_pod analysis) = NonPod))"

text \<open>
  The rule of C++ where no base is virtual: a pure virtual function is left to whoever derives from
  its class until some class on the way down defines a function of its signature.
\<close>

inductive unsettled ::
    "(qualified_name, qualified_name) index_map \<Rightarrow> fn_pre_phase3 list \<Rightarrow> qualified_name \<Rightarrow> pure_virtual \<Rightarrow> bool"
  for targets l where
  own: "declares_pure l n sig \<Longrightarrow> \<forall>bases. walked l n bases \<longrightarrow> \<not> defines_virtual l n sig \<Longrightarrow>
    unsettled targets l n (pure_of n sig)"
| from_base: "walked l n bases \<Longrightarrow> b \<in> set bases \<Longrightarrow> unsettled targets l (resolve_typedefs targets b) pv \<Longrightarrow>
    \<not> defines_virtual l n (pv_signature pv) \<Longrightarrow> unsettled targets l n pv"

lemma walked_unique:
  assumes "distinct (map Api_name l)" and "walked l n bases" and "walked l n bases'"
  shows "bases = bases'"
proof -
  from assms(2) obtain name details analysis where
    a: "Api_Struct name details analysis \<in> set l" "an_name name = n" "pa_bases (pca_pod analysis) = bases"
    by (auto simp: walked_def)
  from assms(3) obtain name' details' analysis' where
    b: "Api_Struct name' details' analysis' \<in> set l" "an_name name' = n" "pa_bases (pca_pod analysis') = bases'"
    by (auto simp: walked_def)
  have "Api_name (Api_Struct name details analysis) = Api_name (Api_Struct name' details' analysis')"
    by (simp add: Api_name_def a(2) b(2))
  with assms(1) a(1) b(1) have "Api_Struct name details analysis = Api_Struct name' details' analysis'"
    unfolding distinct_map inj_on_def by blast
  with a(3) b(3) show ?thesis by simp
qed

lemma unsettled_walked:
  assumes "distinct (map Api_name l)" and "walked l n bases"
  shows "{pv. unsettled targets l n pv} =
    {pv \<in> {pure_of n sig | sig. declares_pure l n sig} \<union>
          (\<Union>b \<in> set bases. {pv. unsettled targets l (resolve_typedefs targets b) pv}).
       \<not> defines_virtual l n (pv_signature pv)}" (is "?lhs = ?rhs")
proof
  show "?lhs \<subseteq> ?rhs"
  proof
    fix pv assume "pv \<in> ?lhs"
    then have "unsettled targets l n pv" by simp
    then show "pv \<in> ?rhs"
    proof cases
      case (own sig)
      with assms(2) show ?thesis by auto
    next
      case (from_base bases' b)
      with walked_unique[OF assms from_base(1)] show ?thesis by auto
    qed
  qed
  show "?rhs \<subseteq> ?lhs"
  proof
    fix pv assume "pv \<in> ?rhs"
    then consider (own) sig where "pv = pure_of n sig" "declares_pure l n sig" "\<not> defines_virtual l n sig"
      | (base) b where "b \<in> set bases" "unsettled targets l (resolve_typedefs targets b) pv"
        "\<not> defines_virtual l n (pv_signature pv)" by auto
    then show "pv \<in> ?lhs"
    proof cases
      case own
      then show ?thesis by (simp add: unsettled.own)
    next
      case base
      with assms(2) show ?thesis by (simp add: unsettled.from_base)
    qed
  qed
qed

lemma unsettled_unwalked:
  "\<nexists>bases. walked l n bases \<Longrightarrow> {pv. unsettled targets l n pv} = {pure_of n sig | sig. declares_pure l n sig}"
  by (subst unsettled.simps) auto

text \<open>
  While names are still waiting: a class that waits has what the census noted, every other name has
  what the rule leaves unsettled, and no base is virtual anywhere.
\<close>

definition walk_state ::
    "(qualified_name, qualified_name) index_map \<Rightarrow> fn_pre_phase3 list \<Rightarrow> qualified_name set \<Rightarrow>
     class_states \<times> qualified_name list \<Rightarrow> bool" where
  "walk_state targets l waiting = (\<lambda>(states, abstract_classes).
     (\<forall>n. set (cs_defined (state_of_class states n)) = {sig. defines_virtual l n sig} \<and>
          cs_undefined_through_virtual_base (state_of_class states n) = [] \<and>
          set (cs_undefined (state_of_class states n)) =
            (if n \<in> waiting then {pure_of n sig | sig. declares_pure l n sig}
             else {pv. unsettled targets l n pv})) \<and>
     set abstract_classes = {n. n \<notin> waiting \<and> (\<exists>bases. walked l n bases) \<and>
       ((\<exists>pv. unsettled targets l n pv) \<or> destructor_declared (\<lambda>how. how = PureVirtual) l n)})"

text \<open>Plain inheritance: no virtual base, and every base named as the class it is.\<close>

definition plain_bases ::
    "(qualified_name, qualified_name) index_map \<Rightarrow> fn_pre_phase3 \<Rightarrow> bool" where
  "plain_bases targets api =
     (case api of
        Api_Struct name details analysis \<Rightarrow>
          list_all (\<lambda>b. b \<notin> set (pa_virtual_bases (pca_pod analysis)) \<and> resolve_typedefs targets b = b)
            (pa_bases (pca_pod analysis))
      | _ \<Rightarrow> True)"

lemma walk_start:
  assumes "waiting = Api_name ` set l"
  shows "walk_state targets l waiting (vc_class_states (census l), [])"
proof -
  have "n \<in> waiting" if "walked l n bases" for n bases
    using that assms by (force simp: walked_def Api_name_def)
  then have "{pv. unsettled targets l n pv} = {pure_of n sig | sig. declares_pure l n sig}" if "n \<notin> waiting" for n
    using that by (intro unsettled_unwalked) blast
  moreover have "{n. n \<notin> waiting \<and> (\<exists>bases. walked l n bases) \<and>
      ((\<exists>pv. unsettled targets l n pv) \<or> destructor_declared (\<lambda>how. how = PureVirtual) l n)} = {}"
    using \<open>\<And>n bases. walked l n bases \<Longrightarrow> n \<in> waiting\<close> by blast
  ultimately show ?thesis unfolding walk_state_def by (simp only: census_notes prod.case) auto
qed


lemma walked_only:
  assumes "distinct (map Api_name l)" and "api \<in> set l" and "walked l (Api_name api) bases"
  obtains name details analysis where "api = Api_Struct name details analysis" "bases = pa_bases (pca_pod analysis)"
    "pa_kind (pca_pod analysis) = Pod \<or> pa_kind (pca_pod analysis) = NonPod"
proof -
  from assms(3) obtain name details analysis where
    a: "Api_Struct name details analysis \<in> set l" "an_name name = Api_name api"
      "pa_bases (pca_pod analysis) = bases"
      "pa_kind (pca_pod analysis) = Pod \<or> pa_kind (pca_pod analysis) = NonPod"
    by (auto simp: walked_def)
  have "Api_name (Api_Struct name details analysis) = Api_name api" by (simp add: Api_name_def a(2))
  with assms(1,2) a(1) have "api = Api_Struct name details analysis" unfolding distinct_map inj_on_def by metis
  with a that show thesis by blast
qed

lemma walk_skip:
  assumes "walk_state targets l waiting s" and "\<nexists>bases. walked l n bases"
  shows "walk_state targets l (waiting - {n}) s"
proof (cases s)
  case (Pair states abstract_classes)
  note same = unsettled_unwalked[OF assms(2), of targets]
  have "set (cs_undefined (state_of_class states n)) = {pv. unsettled targets l n pv}"
    using assms(1) Pair same by (simp add: walk_state_def)
  with assms Pair show ?thesis by (auto simp: walk_state_def)
qed

lemma walk_struct:
  assumes l: "distinct (map Api_name l)" and state: "walk_state targets l waiting (states, abstract_classes)"
    and api: "api = Api_Struct name details analysis" "api \<in> set l" and plain: "plain_bases targets api"
    and waits: "Api_name api \<in> waiting" and ready: "set (phase3_field_and_base_deps api) \<inter> waiting = {}"
    and kind: "pa_kind (pca_pod analysis) = Pod \<or> pa_kind (pca_pod analysis) = NonPod"
  shows "walk_state targets l (waiting - {Api_name api})
    (abstract_step targets (vc_pure_virtual_destructors (census l)) api (states, abstract_classes))"
proof -
  let ?bases = "pa_bases (pca_pod analysis)" and ?n = "an_name name"
  let ?self = "settle (fold (inherit_from targets (pa_virtual_bases (pca_pod analysis)) states) ?bases
      (state_of_class states ?n))"
  have n: "Api_name api = ?n" by (simp add: api(1) Api_name_def)
  have walked: "walked l ?n ?bases" using api kind by (auto simp: walked_def)
  have bases: "b \<notin> set (pa_virtual_bases (pca_pod analysis)) \<and> resolve_typedefs targets b = b \<and> b \<notin> waiting"
    if "b \<in> set ?bases" for b
    using that plain ready by (auto simp: plain_bases_def api(1) phase3_field_and_base_deps_def list_all_iff)
  have defined: "set (cs_defined (state_of_class states n)) = {sig. defines_virtual l n sig}"
    and shared: "cs_undefined_through_virtual_base (state_of_class states n) = []" for n
    using state by (simp_all add: walk_state_def)
  have own: "set (cs_undefined (state_of_class states ?n)) = {pure_of ?n sig | sig. declares_pure l ?n sig}"
    using state waits n by (simp add: walk_state_def)
  have base: "set (cs_undefined (state_of_class states b)) = {pv. unsettled targets l (resolve_typedefs targets b) pv}"
    if "b \<in> set ?bases" for b
    using state bases[OF that] by (simp add: walk_state_def)
  have every: "{b \<in> set ?bases. b \<notin> set (pa_virtual_bases (pca_pod analysis))} = set ?bases"
    and none: "{b \<in> set ?bases. b \<in> set (pa_virtual_bases (pca_pod analysis))} = {}" using bases by auto
  have united: "(\<Union>b \<in> set ?bases. set (cs_undefined (state_of_class states (resolve_typedefs targets b)))) =
      (\<Union>b \<in> set ?bases. {pv. unsettled targets l (resolve_typedefs targets b) pv})"
    by (intro SUP_cong refl) (simp only: bases[THEN conjunct2, THEN conjunct1] base)
  have "set (cs_undefined ?self) = {pv. unsettled targets l ?n pv}"
    unfolding unsettled_walked[OF l walked] settle_sets(1) fold_inherit_sets own defined every united by simp
  moreover have "cs_undefined_through_virtual_base ?self = []"
    using settle_sets(2)[of "fold (inherit_from targets (pa_virtual_bases (pca_pod analysis)) states) ?bases
      (state_of_class states ?n)"]
    by (simp only: fold_inherit_sets none shared) simp
  moreover have "set (cs_defined ?self) = {sig. defines_virtual l ?n sig}"
    by (simp add: settle_sets fold_inherit_sets defined)
  moreover have "cs_undefined ?self \<noteq> [] \<longleftrightarrow> (\<exists>pv. unsettled targets l ?n pv)"
    using calculation(1) by (metis Collect_empty_eq set_empty)
  ultimately obtain self where self: "self = ?self" "set (cs_undefined self) = {pv. unsettled targets l ?n pv}"
    "cs_undefined_through_virtual_base self = []" "set (cs_defined self) = {sig. defines_virtual l ?n sig}"
    "cs_undefined self \<noteq> [] \<longleftrightarrow> (\<exists>pv. unsettled targets l ?n pv)" by blast
  let ?found = "(\<exists>pv. unsettled targets l ?n pv) \<or> destructor_declared (\<lambda>how. how = PureVirtual) l ?n"
  have step: "abstract_step targets (vc_pure_virtual_destructors (census l)) api (states, abstract_classes) =
      (imap_insert ?n self states, if ?found then iset_insert ?n abstract_classes else abstract_classes)"
    unfolding self(5)[symmetric] using kind self(3)
    by (simp add: abstract_step_def api(1) Let_def census_notes flip: self(1))
  have states: "set (cs_defined (state_of_class (imap_insert ?n self states) m)) = {sig. defines_virtual l m sig} \<and>
      cs_undefined_through_virtual_base (state_of_class (imap_insert ?n self states) m) = [] \<and>
      set (cs_undefined (state_of_class (imap_insert ?n self states) m)) =
        (if m \<in> waiting - {?n} then {pure_of m sig | sig. declares_pure l m sig}
         else {pv. unsettled targets l m pv})" for m
  proof (cases "m = ?n")
    case False
    then show ?thesis using state by (simp add: walk_state_def)
  qed (simp add: self(2-4))
  have classes: "set (if ?found then iset_insert ?n abstract_classes else abstract_classes) =
      {m. m \<notin> waiting - {?n} \<and> (\<exists>bases. walked l m bases) \<and>
        ((\<exists>pv. unsettled targets l m pv) \<or> destructor_declared (\<lambda>how. how = PureVirtual) l m)}"
  proof -
    have old: "set abstract_classes = {m. m \<notin> waiting \<and> (\<exists>bases. walked l m bases) \<and>
        ((\<exists>pv. unsettled targets l m pv) \<or> destructor_declared (\<lambda>how. how = PureVirtual) l m)}"
      using state by (simp add: walk_state_def)
    show ?thesis
    proof (cases ?found)
      case True
      then show ?thesis unfolding if_P[OF True] set_iset_insert old using walked by blast
    next
      case False
      then show ?thesis unfolding if_not_P[OF False] old by blast
    qed
  qed
  show ?thesis unfolding n step walk_state_def prod.case using states classes by blast
qed

lemma walk_all:
  assumes l: "distinct (map Api_name l)" and plain: "list_all (plain_bases targets) l"
  shows "deps_first Api_name phase3_field_and_base_deps waiting order \<Longrightarrow> set order \<subseteq> set l \<Longrightarrow>
    Api_name ` set order \<subseteq> waiting \<Longrightarrow> distinct (map Api_name order) \<Longrightarrow> walk_state targets l waiting s \<Longrightarrow>
    walk_state targets l (waiting - Api_name ` set order)
      (fold (abstract_step targets (vc_pure_virtual_destructors (census l))) order s)"
proof (induction order arbitrary: waiting s)
  case (Cons api order)
  let ?step = "abstract_step targets (vc_pure_virtual_destructors (census l)) api s"
  obtain states abstract_classes where s: "s = (states, abstract_classes)" by (cases s)
  have here: "walk_state targets l (waiting - {Api_name api}) ?step"
  proof (cases "\<exists>bases. walked l (Api_name api) bases")
    case True
    then obtain bases where "walked l (Api_name api) bases" by blast
    with l Cons.prems(2) obtain name details analysis where
      api: "api = Api_Struct name details analysis" "pa_kind (pca_pod analysis) = Pod \<or> pa_kind (pca_pod analysis) = NonPod"
      by (auto elim: walked_only)
    with Cons.prems plain show ?thesis unfolding s
      by (intro walk_struct[OF l _ api(1) _ _ _ _ api(2)]) (auto simp: list_all_iff s)
  next
    case False
    have "?step = s"
    proof (cases "\<exists>name details analysis. api = Api_Struct name details analysis")
      case True
      then obtain name details analysis where api: "api = Api_Struct name details analysis" by blast
      with False Cons.prems(2) show ?thesis
        by (auto simp: s abstract_step_def walked_def Api_name_def Let_def)
    next
      case False
      then show ?thesis by (cases api) (simp_all add: s abstract_step_def)
    qed
    with walk_skip[OF Cons.prems(5) False] show ?thesis by simp
  qed
  have sub: "Api_name ` set order \<subseteq> waiting - {Api_name api}"
    using Cons.prems(3,4) by (simp add: subset_Diff_insert)
  have rest: "deps_first Api_name phase3_field_and_base_deps (waiting - {Api_name api}) order"
    "set order \<subseteq> set l" "distinct (map Api_name order)" using Cons.prems(1,2,4) by simp_all
  have "waiting - {Api_name api} - Api_name ` set order = waiting - Api_name ` set (api # order)" by auto
  with Cons.IH[OF rest(1,2) sub rest(3) here] show ?case by simp
qed simp

text \<open>Where a class is abstract by the rule: something pure is left to it, or its own destructor is pure.\<close>

definition abstract_by_rule ::
    "(qualified_name, qualified_name) index_map \<Rightarrow> fn_pre_phase3 list \<Rightarrow> qualified_name \<Rightarrow> bool" where
  "abstract_by_rule targets l n \<longleftrightarrow> (\<exists>bases. walked l n bases) \<and>
     ((\<exists>pv. unsettled targets l n pv) \<or> destructor_declared (\<lambda>how. how = PureVirtual) l n)"

lemma abstract_classes_found:
  assumes "distinct (map Api_name l)" and "list_all (plain_bases targets) l"
    and "find_abstract_classes targets l = Some abstract_classes"
  shows "set abstract_classes = {n. abstract_by_rule targets l n}"
proof -
  from assms(3) obtain order where
    order: "depth_first_iter Api_name phase3_field_and_base_deps (remdups (map Api_name l)) l = Some order"
    and found: "abstract_classes = snd (fold (abstract_step targets (vc_pure_virtual_destructors (census l))) order
                       (vc_class_states (census l), []))"
    by (auto simp: find_abstract_classes_def fields_and_bases_first_def)
  from iter_order[OF order] have perm: "mset order = mset l"
    and first: "deps_first Api_name phase3_field_and_base_deps (Api_name ` set l) order" by simp_all
  from perm have same: "set order = set l" by (metis set_mset_mset)
  have "distinct (map Api_name order)" using perm assms(1) by (metis mset_eq_imp_distinct_iff mset_map)
  from walk_all[OF assms(1,2) first _ _ this walk_start[OF refl]] same
  have "walk_state targets l {} (fold (abstract_step targets (vc_pure_virtual_destructors (census l))) order
      (vc_class_states (census l), []))" by simp
  with found show ?thesis by (auto simp: walk_state_def abstract_by_rule_def split: prod.splits)
qed

section \<open>What marking leaves\<close>

definition left_after_marking ::
    "(qualified_name, qualified_name) index_map \<Rightarrow> qualified_name list \<Rightarrow> qualified_name list \<Rightarrow>
     fn_pre_phase3 list \<Rightarrow> fn_pre_phase3 list" where
  "left_after_marking targets abstract_classes virtual_dtors l =
     map (checked refuse_nested_abstract)
       (filter (\<lambda>api. \<not> makes_object_of abstract_classes api)
          (map (mark_one targets abstract_classes virtual_dtors) l))"

lemma mark_one_name [simp]: "Api_name (mark_one targets abstract_classes virtual_dtors api) = Api_name api"
  by (cases api) (simp_all add: mark_one_def Api_name_def)

lemma marking_runs:
  assumes "distinct (map Api_name (apis v))" and "typedef_targets v = Some targets"
    and "find_abstract_classes targets (apis v) = Some abstract_classes"
  obtains virtual_dtors results where "mark_types_abstract v = Some results"
    "apis results = left_after_marking targets abstract_classes virtual_dtors (apis v)"
    "set virtual_dtors = {n. destructor_virtual targets (apis v) (vc_virtual_destructors (census (apis v))) n}"
proof -
  obtain virtual_dtors where virtual:
    "virtual_destructors targets (apis v) (vc_virtual_destructors (census (apis v))) = Some virtual_dtors"
    "set virtual_dtors = {n. destructor_virtual targets (apis v) (vc_virtual_destructors (census (apis v))) n}"
    using virtual_destructors_found by blast
  have "map Api_name (map (mark_one targets abstract_classes virtual_dtors) (apis v)) = map Api_name (apis v)"
    by simp
  with assms(1) obtain marked where marked:
    "apivec_from_iter (map (mark_one targets abstract_classes virtual_dtors) (apis v)) = Some marked"
    "apis marked = map (mark_one targets abstract_classes virtual_dtors) (apis v)"
    by (metis collect_distinct)
  have "distinct (map Api_name (apis (retain (\<lambda>api. \<not> makes_object_of abstract_classes api) marked)))"
    using assms(1) \<open>map Api_name (map _ (apis v)) = _\<close> unfolding apis_retain marked(2)
    by (metis distinct_map_filter)
  moreover have "refuse_nested_abstract api = Inr [api] \<or> (\<exists>e. refuse_nested_abstract api = Inl e)" for api
    by (cases api) (simp_all add: refuse_nested_abstract_def)
  ultimately obtain results where
    "convert_item_apis refuse_nested_abstract
       (retain (\<lambda>api. \<not> makes_object_of abstract_classes api) marked) ApiVec_new = Some results"
    "apis results = map (checked refuse_nested_abstract)
       (apis (retain (\<lambda>api. \<not> makes_object_of abstract_classes api) marked))"
    by (rule checking_pass)
  with that assms(2,3) virtual marked show thesis
    by (simp add: mark_types_abstract_def left_after_marking_def)
qed

lemma marking_ran:
  assumes "distinct (map Api_name (apis v))" and "mark_types_abstract v = Some results"
  obtains targets abstract_classes virtual_dtors where
    "typedef_targets v = Some targets" "find_abstract_classes targets (apis v) = Some abstract_classes"
    "apis results = left_after_marking targets abstract_classes virtual_dtors (apis v)"
    "set virtual_dtors = {n. destructor_virtual targets (apis v) (vc_virtual_destructors (census (apis v))) n}"
proof -
  from assms(2) obtain targets abstract_classes where found:
    "typedef_targets v = Some targets" "find_abstract_classes targets (apis v) = Some abstract_classes"
    by (auto simp: mark_types_abstract_def split: option.splits)
  with marking_runs[OF assms(1) found] assms(2) that[OF found] show thesis by (metis option.inject)
qed

text \<open>A struct that is left is the one there was, abstract where it was found so.\<close>

definition not_yet_abstract :: "fn_pre_phase3 \<Rightarrow> bool" where
  "not_yet_abstract api =
     (case api of Api_Struct name details analysis \<Rightarrow> pa_kind (pca_pod analysis) \<noteq> Abstract | _ \<Rightarrow> True)"

lemma left_struct:
  assumes "Api_Struct name details analysis \<in> set (left_after_marking targets abstract_classes virtual_dtors l)"
    and "list_all not_yet_abstract l"
  shows "pa_kind (pca_pod analysis) = Abstract \<longleftrightarrow> an_name name \<in> set abstract_classes"
proof -
  from assms(1) obtain api where api: "api \<in> set l"
    "Api_Struct name details analysis = checked refuse_nested_abstract (mark_one targets abstract_classes virtual_dtors api)"
    by (auto simp: left_after_marking_def)
  then have same: "Api_Struct name details analysis = mark_one targets abstract_classes virtual_dtors api"
    by (simp add: checked_def split: sum.splits)
  then obtain analysis0 where "api = Api_Struct name details analysis0"
    by (cases api) (auto simp: mark_one_def split: if_splits)
  with same assms(2) api(1) show ?thesis
    by (auto simp: mark_one_def list_all_iff not_yet_abstract_def split: if_splits)
qed

lemma left_was_there:
  assumes "Api_Struct name details analysis \<in> set (left_after_marking targets abstract_classes virtual_dtors l)"
  shows "\<exists>analysis0. Api_Struct name details analysis0 \<in> set l"
proof -
  from assms obtain api where api: "api \<in> set l"
    "Api_Struct name details analysis = checked refuse_nested_abstract (mark_one targets abstract_classes virtual_dtors api)"
    by (auto simp: left_after_marking_def)
  then have same: "Api_Struct name details analysis = mark_one targets abstract_classes virtual_dtors api"
    by (simp add: checked_def split: sum.splits)
  then obtain analysis0 where "api = Api_Struct name details analysis0"
    by (cases api) (auto simp: mark_one_def split: if_splits)
  with api(1) show ?thesis by blast
qed

section \<open>The rule of C++\<close>

text \<open>
  The rule of C++ over every class of the list, whatever bindgen could say of its insides: a pure virtual function is
  left to whoever derives from its class until some class on the way down defines a function of its signature.
\<close>

definition class_with_bases :: "fn_pre_phase3 list \<Rightarrow> qualified_name \<Rightarrow> qualified_name list \<Rightarrow> bool" where
  "class_with_bases l n bases \<longleftrightarrow> (\<exists>name details analysis. Api_Struct name details analysis \<in> set l \<and>
     an_name name = n \<and> pa_bases (pca_pod analysis) = bases)"

inductive pure_left ::
    "(qualified_name, qualified_name) index_map \<Rightarrow> fn_pre_phase3 list \<Rightarrow> qualified_name \<Rightarrow> pure_virtual \<Rightarrow> bool"
  for targets l where
  declared: "declares_pure l n sig \<Longrightarrow> \<forall>bases. class_with_bases l n bases \<longrightarrow> \<not> defines_virtual l n sig \<Longrightarrow>
    pure_left targets l n (pure_of n sig)"
| inherited: "class_with_bases l n bases \<Longrightarrow> b \<in> set bases \<Longrightarrow> pure_left targets l (resolve_typedefs targets b) pv \<Longrightarrow>
    \<not> defines_virtual l n (pv_signature pv) \<Longrightarrow> pure_left targets l n pv"

definition abstract_in_cpp ::
    "(qualified_name, qualified_name) index_map \<Rightarrow> fn_pre_phase3 list \<Rightarrow> qualified_name \<Rightarrow> bool" where
  "abstract_in_cpp targets l n \<longleftrightarrow>
     (\<exists>pv. pure_left targets l n pv) \<or> destructor_declared (\<lambda>how. how = PureVirtual) l n"

text \<open>A class and the classes it is derived from, however far up.\<close>

inductive has_ancestor ::
    "(qualified_name, qualified_name) index_map \<Rightarrow> fn_pre_phase3 list \<Rightarrow> qualified_name \<Rightarrow> qualified_name \<Rightarrow> bool"
  for targets l where
  itself: "has_ancestor targets l n n"
| above: "class_with_bases l n bases \<Longrightarrow> b \<in> set bases \<Longrightarrow> has_ancestor targets l (resolve_typedefs targets b) m \<Longrightarrow>
    has_ancestor targets l n m"

definition opaque_class :: "fn_pre_phase3 list \<Rightarrow> qualified_name \<Rightarrow> bool" where
  "opaque_class l n \<longleftrightarrow> (\<exists>name details analysis. Api_Struct name details analysis \<in> set l \<and>
     an_name name = n \<and> pa_kind (pca_pod analysis) = Opaque)"

lemma walked_class:
  assumes "list_all not_yet_abstract l" and "\<not> opaque_class l n"
  shows "walked l n bases \<longleftrightarrow> class_with_bases l n bases"
proof
  assume "class_with_bases l n bases"
  then obtain name details analysis where s: "Api_Struct name details analysis \<in> set l" "an_name name = n"
    "pa_bases (pca_pod analysis) = bases" by (auto simp: class_with_bases_def)
  with assms have "pa_kind (pca_pod analysis) \<noteq> Opaque" "pa_kind (pca_pod analysis) \<noteq> Abstract"
    by (auto simp: opaque_class_def list_all_iff not_yet_abstract_def split: api.splits)
  with s show "walked l n bases" unfolding walked_def by (cases "pa_kind (pca_pod analysis)") auto
qed (auto simp: walked_def class_with_bases_def)

lemma opaque_not_walked:
  assumes "distinct (map Api_name l)" and "opaque_class l n"
  shows "\<not> walked l n bases"
proof
  assume "walked l n bases"
  with assms(2) obtain name details analysis name' details' analysis' where both:
    "Api_Struct name details analysis \<in> set l" "Api_Struct name' details' analysis' \<in> set l"
    and names: "an_name name = n" "an_name name' = n"
    and kinds: "pa_kind (pca_pod analysis) = Opaque" "pa_kind (pca_pod analysis') \<noteq> Opaque"
    unfolding opaque_class_def walked_def by force
  have "Api_name (Api_Struct name details analysis) = Api_name (Api_Struct name' details' analysis')"
    by (simp add: Api_name_def names)
  with assms(1) both have "Api_Struct name details analysis = Api_Struct name' details' analysis'"
    unfolding distinct_map inj_on_def by blast
  with kinds show False by simp
qed

lemma unsettled_is_pure_left:
  assumes "list_all not_yet_abstract l" and "\<And>m. has_ancestor targets l n m \<Longrightarrow> \<not> opaque_class l m"
  shows "unsettled targets l n pv \<longleftrightarrow> pure_left targets l n pv"
proof
  assume "unsettled targets l n pv"
  then show "pure_left targets l n pv" using assms(2)
  proof (induction rule: unsettled.induct)
    case (own n sig)
    with walked_class[OF assms(1), of n] has_ancestor.itself show ?case by (blast intro: pure_left.declared)
  next
    case (from_base n bases b pv)
    with walked_class[OF assms(1), of n] have cls: "class_with_bases l n bases" by (blast intro: has_ancestor.itself)
    with from_base show ?case by (blast intro: pure_left.inherited has_ancestor.above)
  qed
next
  assume "pure_left targets l n pv"
  then show "unsettled targets l n pv" using assms(2)
  proof (induction rule: pure_left.induct)
    case (declared n sig)
    with walked_class[OF assms(1), of n] has_ancestor.itself show ?case by (blast intro: unsettled.own)
  next
    case (inherited n bases b pv)
    with walked_class[OF assms(1), of n] have "walked l n bases" by (blast intro: has_ancestor.itself)
    with inherited show ?case by (blast intro: unsettled.from_base has_ancestor.above)
  qed
qed

section \<open>Properties\<close>


text \<open>
  No way to make an object of an abstract class is left: neither a constructor nor the copy or
  move that was found for it, however it came to be abstract.
\<close>

theorem abstract_classes_are_not_made:
  assumes "apivec_wf v" and "list_all not_yet_abstract (apis v)" and "mark_types_abstract v = Some results"
    and "Api_Struct name details analysis \<in> set (apis results)" and "pa_kind (pca_pod analysis) = Abstract"
  shows "\<not> list_ex (makes_object_of [an_name name]) (apis results)"
proof -
  obtain targets abstract_classes virtual_dtors where
    left: "apis results = left_after_marking targets abstract_classes virtual_dtors (apis v)"
    using marking_ran[OF collected.unique[OF assms(1)] assms(3)] by metis
  have found: "an_name name \<in> set abstract_classes"
    using left_struct[OF assms(4)[unfolded left] assms(2)] assms(5) by simp
  have "\<not> makes_object_of [an_name name] api" if "api \<in> set (apis results)" for api
  proof
    assume makes: "makes_object_of [an_name name] api"
    then have "makes_object_of abstract_classes api"
      using found by (auto simp: makes_object_of_def split: api.splits fn_kind.splits method_kind.splits trait_method_kind.splits)
    moreover from that obtain old where "\<not> makes_object_of abstract_classes old" "api = checked refuse_nested_abstract old"
      unfolding left left_after_marking_def by auto
    then have "\<not> makes_object_of abstract_classes api"
      by (auto simp: checked_def makes_object_of_def split: sum.splits)
    ultimately show False by blast
  qed
  then show ?thesis by (auto simp: list_ex_iff)
qed


text \<open>
  Marking ends, without a panic, exactly where the targets of the typedefs are paths and no item
  holds or inherits from itself by any chain; the search for virtual destructors always ends.
\<close>

theorem marking_returns:
  assumes "apivec_wf v"
  shows "mark_types_abstract v \<noteq> None \<longleftrightarrow> typedef_targets v \<noteq> None \<and>
    (\<exists>rank :: qualified_name \<Rightarrow> nat. \<forall>x \<in> set (apis v). \<forall>d \<in> set (phase3_field_and_base_deps x).
       d \<in> Api_name ` set (apis v) \<longrightarrow> rank d < rank (Api_name x))"
proof -
  note unique = collected.unique[OF assms]
  have "mark_types_abstract v \<noteq> None \<longleftrightarrow> typedef_targets v \<noteq> None \<and>
      fields_and_bases_first Api_name phase3_field_and_base_deps (apis v) \<noteq> None"
  proof
    assume "mark_types_abstract v \<noteq> None"
    then obtain results where "mark_types_abstract v = Some results" by blast
    from marking_ran[OF unique this] show "typedef_targets v \<noteq> None \<and>
      fields_and_bases_first Api_name phase3_field_and_base_deps (apis v) \<noteq> None"
      by (metis find_abstract_classes_def option.distinct(1) option.map_disc_iff)
  next
    assume "typedef_targets v \<noteq> None \<and> fields_and_bases_first Api_name phase3_field_and_base_deps (apis v) \<noteq> None"
    then obtain targets abstract_classes where
      "typedef_targets v = Some targets" "find_abstract_classes targets (apis v) = Some abstract_classes"
      by (auto simp: find_abstract_classes_def)
    from marking_runs[OF unique this] show "mark_types_abstract v \<noteq> None" by blast
  qed
  with collected.order_exists[OF assms, of phase3_field_and_base_deps] show ?thesis by simp
qed

text \<open>
  A subclass knows whether the destructor of its superclass is virtual: the flag is set exactly
  where the class the superclass's name comes to, or a class it inherits from by any chain of bases,
  typedefs followed, declares its destructor virtual or pure.
\<close>

theorem superclass_destructor_is_known:
  assumes "apivec_wf v" and "typedef_targets v = Some targets" and "mark_types_abstract v = Some results"
    and "Api_Subclass name superclass analysis \<in> set (apis results)"
  shows "sa_superclass_destructor_virtual analysis \<longleftrightarrow>
    destructor_virtual targets (apis v) (vc_virtual_destructors (census (apis v)))
      (resolve_typedefs targets superclass)"
proof -
  obtain abstract_classes virtual_dtors where
    left: "apis results = left_after_marking targets abstract_classes virtual_dtors (apis v)"
    and virtual: "set virtual_dtors =
      {n. destructor_virtual targets (apis v) (vc_virtual_destructors (census (apis v))) n}"
    using marking_ran[OF collected.unique[OF assms(1)] assms(3)] assms(2) by (metis option.inject)
  from assms(4) obtain api where
    "Api_Subclass name superclass analysis = checked refuse_nested_abstract (mark_one targets abstract_classes virtual_dtors api)"
    unfolding left left_after_marking_def by auto
  then have "Api_Subclass name superclass analysis = mark_one targets abstract_classes virtual_dtors api"
    by (simp add: checked_def split: sum.splits)
  then show ?thesis using virtual by (cases api) (auto simp: mark_one_def split: if_splits)
qed

section \<open>An example\<close>

text \<open>
  \<^verbatim>\<open>struct A { virtual void f() = 0; }; struct B : A {};\<close> and \<^verbatim>\<open>struct D : B {};\<close>, the base of \<^verbatim>\<open>D\<close>
  named as it is or through a typedef of \<^verbatim>\<open>B\<close>.
\<close>

definition sample_class :: "string \<Rightarrow> string list \<Rightarrow> fn_pre_phase3" where
  "sample_class n bases =
     Api_Struct (sample_name n) (sample_details n)
       \<lparr>pca_pod = sample_pod (map (QualifiedName [''ns'']) bases) [] [],
        pca_constructors = from_items_found (concrete_items_found (sample_name n)) False None\<rparr>"

definition sample_method :: "string \<Rightarrow> string \<Rightarrow> method_kind \<Rightarrow> fn_pre_phase3" where
  "sample_method ty f kind =
     (case sample_destructor ty None of
        Api_Function name fn analysis \<Rightarrow>
          Api_Function (sample_name f) fn (analysis\<lparr>fa_kind := FnKind_Method kind (QualifiedName [''ns''] ty)\<rparr>)
      | _ \<Rightarrow> Api_StringConstructor (sample_name f))"

definition sample_alias :: "string \<Rightarrow> string \<Rightarrow> fn_pre_phase3" where
  "sample_alias n target =
     Api_Typedef (sample_name n) (TypedefKind_Use (Type_Path (plain_path False [''root'', ''ns'', target]))) None
       \<lparr>ta_kind = TypedefKind_Use (Type_Path (plain_path False [''root'', ''ns'', target])),
        ta_target_kind = Kind_Regular, ta_target_is_const = False, ta_target_is_std_array = False,
        ta_deps = [QualifiedName [''ns''] target]\<rparr>"

definition sample_hierarchy :: "string \<Rightarrow> fn_pre_phase3_apis" where
  "sample_hierarchy base_of_d =
     (let items = [sample_class ''B'' [''A''], sample_alias ''Alias'' ''B'', sample_class ''D'' [base_of_d],
                   sample_method ''A'' ''f'' (PureVirtualMethod Const), sample_class ''A'' []]
      in \<lparr>apis = items, names = map Api_name items\<rparr>)"

lemmas hierarchy_simps = sample_hierarchy_def sample_class_def sample_method_def sample_alias_def
  sample_simps Api_name_def Let_def

abbreviation alias_targets :: "(qualified_name, qualified_name) index_map" where
  "alias_targets \<equiv> [(QualifiedName [''ns''] ''Alias'', QualifiedName [''ns''] ''B'')]"

lemmas walk_simps = find_abstract_classes_def fields_and_bases_first_def
  depth_first_iter.simps depth_first_next_def phase3_field_and_base_deps_def census_def note_virtual_def
  abstract_step_def settle_def inherit_from_def resolve_typedefs_def index_extend_def
  state_of_class_def default_class_state_def iset_insert_def

lemma found_through_alias:
  "find_abstract_classes alias_targets (apis (sample_hierarchy ''Alias'')) =
     Some [QualifiedName [''ns''] ''A'', QualifiedName [''ns''] ''B'']"
  by (simp add: hierarchy_simps walk_simps)

lemma found_directly:
  "find_abstract_classes alias_targets (apis (sample_hierarchy ''B'')) =
     Some [QualifiedName [''ns''] ''A'', QualifiedName [''ns''] ''B'', QualifiedName [''ns''] ''D'']"
  by (simp add: hierarchy_simps walk_simps)

text \<open>
  A typedef hides a pure virtual function. The walk takes a class as soon as the items it names
  as bases are done, and the typedef of an item is done long before the item: with \<^verbatim>\<open>A\<close> last in the
  list, \<^verbatim>\<open>D\<close> is settled while \<^verbatim>\<open>B\<close> has nothing yet of what it inherits from \<^verbatim>\<open>A\<close>, and is called
  concrete, where naming \<^verbatim>\<open>B\<close> outright makes it abstract.
\<close>

theorem typedef_hides_pure_virtual:
  "QualifiedName [''ns''] ''D'' \<notin>
     set (the (find_abstract_classes alias_targets (apis (sample_hierarchy ''Alias'')))) \<and>
   QualifiedName [''ns''] ''D'' \<in>
     set (the (find_abstract_classes alias_targets (apis (sample_hierarchy ''B''))))"
  by (simp add: found_through_alias found_directly)

lemma sample_hierarchy_targets:
  "typedef_targets (sample_hierarchy b) = Some alias_targets"
  by (simp add: hierarchy_simps typedef_targets_def plain_path_def from_type_path_def
    from_segments_def Namespace_new_def Namespace_push_def)


lemma sample_hierarchy_wf: "apivec_wf (sample_hierarchy ''B'')"
  by (simp add: apivec_wf_def hierarchy_simps stub_ok_def is_displaced_function_def)

lemma sample_hierarchy_plain:
  "list_all (plain_bases alias_targets) (apis (sample_hierarchy ''B''))"
  "list_all not_yet_abstract (apis (sample_hierarchy ''B''))"
  by (simp_all add: hierarchy_simps plain_bases_def not_yet_abstract_def resolve_typedefs_def)

lemma sample_marked:
  obtains results analysis where "mark_types_abstract (sample_hierarchy ''B'') = Some results"
    "Api_Struct (sample_name ''D'') (sample_details ''D'') analysis \<in> set (apis results)"
    "pa_kind (pca_pod analysis) = Abstract"
proof -
  let ?classes = "[QualifiedName [''ns''] ''A'', QualifiedName [''ns''] ''B'', QualifiedName [''ns''] ''D'']"
  obtain results virtual_dtors where run: "mark_types_abstract (sample_hierarchy ''B'') = Some results"
    "apis results = left_after_marking alias_targets ?classes virtual_dtors (apis (sample_hierarchy ''B''))"
    by (rule marking_runs[OF collected.unique[OF sample_hierarchy_wf] sample_hierarchy_targets found_directly])
  let ?D = "mark_one alias_targets ?classes virtual_dtors (sample_class ''D'' [''B''])"
  have "sample_class ''D'' [''B''] \<in> set (apis (sample_hierarchy ''B''))"
    by (simp add: sample_hierarchy_def Let_def)
  moreover have "\<not> makes_object_of ?classes ?D" by (simp add: makes_object_of_def mark_one_def sample_class_def)
  ultimately have "checked refuse_nested_abstract ?D \<in> set (apis results)"
    unfolding run(2) left_after_marking_def set_map set_filter by blast
  moreover obtain analysis where "?D = Api_Struct (sample_name ''D'') (sample_details ''D'') analysis"
    "pa_kind (pca_pod analysis) = Abstract"
    by (simp add: mark_one_def sample_class_def sample_name_def new_from_qualified_name_def
        new_from_qualified_name_and_cpp_name_def)
  moreover from this have "checked refuse_nested_abstract ?D = ?D"
    by (simp add: checked_def refuse_nested_abstract_def sample_name_def new_from_qualified_name_def
        new_from_qualified_name_and_cpp_name_def)
  ultimately show thesis using that run(1) by metis
qed

lemma sample_not_opaque:
  "\<not> opaque_class (apis (sample_hierarchy ''B'')) m"
  by (auto simp: opaque_class_def hierarchy_simps)


lemma abstract_classes_are_not_made_witness:
  "\<exists>results. mark_types_abstract (sample_hierarchy ''B'') = Some results \<and>
     \<not> list_ex (makes_object_of [QualifiedName [''ns''] ''D'']) (apis results)"
proof -
  obtain results analysis where run: "mark_types_abstract (sample_hierarchy ''B'') = Some results"
    "Api_Struct (sample_name ''D'') (sample_details ''D'') analysis \<in> set (apis results)"
    "pa_kind (pca_pod analysis) = Abstract" by (rule sample_marked)
  from abstract_classes_are_not_made[OF sample_hierarchy_wf sample_hierarchy_plain(2) run] run(1)
  show ?thesis by (simp add: sample_name_def new_from_qualified_name_def new_from_qualified_name_and_cpp_name_def)
qed

lemma marking_returns_witness:
  "\<exists>rank :: qualified_name \<Rightarrow> nat. rank (QualifiedName [''ns''] ''A'') < rank (QualifiedName [''ns''] ''B'')"
proof -
  obtain results where "mark_types_abstract (sample_hierarchy ''B'') = Some results" by (rule sample_marked)
  with marking_returns[OF sample_hierarchy_wf] obtain rank :: "qualified_name \<Rightarrow> nat" where
    "\<forall>x \<in> set (apis (sample_hierarchy ''B'')). \<forall>d \<in> set (phase3_field_and_base_deps x).
       d \<in> Api_name ` set (apis (sample_hierarchy ''B'')) \<longrightarrow> rank d < rank (Api_name x)" by auto
  then have "rank (QualifiedName [''ns''] ''A'') < rank (QualifiedName [''ns''] ''B'')"
    by (simp add: hierarchy_simps phase3_field_and_base_deps_def)
  then show ?thesis by blast
qed

text \<open>A Rust subclass of a class whose destructor is virtual.\<close>

definition sample_peer :: fn_pre_phase3_apis where
  "sample_peer =
     (let items = [Api_Subclass (SubclassName (sample_name ''Sub'')) (QualifiedName [''ns''] ''A'')
                     \<lparr>sa_superclass_destructor_visibility = None, sa_superclass_destructor_virtual = False\<rparr>,
                   (case sample_destructor ''A'' None of
                      Api_Function name fn analysis \<Rightarrow>
                        Api_Function name (fn\<lparr>fc_virtualness := Some Virtual\<rparr>) analysis
                    | _ \<Rightarrow> Api_StringConstructor (sample_name ''A''))]
      in \<lparr>apis = items, names = map Api_name items\<rparr>)"

lemma superclass_destructor_is_known_witness:
  "\<exists>results analysis. mark_types_abstract sample_peer = Some results \<and>
     Api_Subclass (SubclassName (sample_name ''Sub'')) (QualifiedName [''ns''] ''A'') analysis \<in> set (apis results) \<and>
     sa_superclass_destructor_virtual analysis"
proof -
  have wf: "apivec_wf sample_peer"
    by (simp add: apivec_wf_def sample_peer_def hierarchy_simps stub_ok_def is_displaced_function_def)
  have targets: "typedef_targets sample_peer = Some []"
    by (simp add: typedef_targets_def sample_peer_def hierarchy_simps)
  have none: "find_abstract_classes [] (apis sample_peer) = Some []"
    by (simp add: sample_peer_def hierarchy_simps walk_simps)
  obtain results virtual_dtors where run: "mark_types_abstract sample_peer = Some results"
    "apis results = left_after_marking [] [] virtual_dtors (apis sample_peer)"
    by (rule marking_runs[OF collected.unique[OF wf] targets none])
  then obtain analysis where mem: "Api_Subclass (SubclassName (sample_name ''Sub'')) (QualifiedName [''ns''] ''A'') analysis
      \<in> set (apis results)"
    by (simp add: left_after_marking_def sample_peer_def Let_def mark_one_def makes_object_of_def checked_def
        refuse_nested_abstract_def) blast
  have "QualifiedName [''ns''] ''A'' \<in> set (vc_virtual_destructors (census (apis sample_peer)))"
    by (simp add: sample_peer_def hierarchy_simps walk_simps)
  then have "destructor_virtual [] (apis sample_peer) (vc_virtual_destructors (census (apis sample_peer)))
      (resolve_typedefs [] (QualifiedName [''ns''] ''A''))"
    by (simp add: resolve_typedefs_def destructor_virtual.declared)
  with superclass_destructor_is_known[OF wf targets run(1) mem] run(1) mem show ?thesis by blast
qed


end
