(* ===== verification/SubclassFunctions.thy ===== *)
theory SubclassFunctions imports AnalyzeFunction Statics AbstractTypes begin

text \<open>
  What functions are made up for Rust subclasses of C++ classes
  (\<^verbatim>\<open>analysis/fun/subclass.rs\<close> and the parts of \<^verbatim>\<open>analysis/fun/mod.rs\<close> that call it): for each virtual
  function of a superclass the Rust function an override reaches, the function that calls the
  superclass's own, and the item of the trait a subclass implements; and for each constructor of a
  superclass a constructor of the peer class.
\<close>

section \<open>What is made up\<close>

definition override_exception_specification ::
    "exception_specification \<Rightarrow> (convert_error, cpp_exception_specification) result" where
  "override_exception_specification superclass_method =
     (if superclass_method \<in> {BasicNoexcept, DynamicNone, NoThrow} then Inr Spec_Noexcept
      else if superclass_method \<in> {ExSpec_None, MsAny} then Inr Spec_None
      else Inl (SignatureError UnreproducibleExceptionSpecification))"

definition create_subclass_fn_wrapper ::
    "subclass_name \<Rightarrow> qualified_name \<Rightarrow> func_to_convert \<Rightarrow> func_to_convert" where
  "create_subclass_fn_wrapper sub super_fn_name fn =
     \<lparr>fc_provenance = SynthesizedOther, fc_ident = get_final_item super_fn_name, fc_doc_attrs = fc_doc_attrs fn,
      fc_inputs = fc_inputs fn, fc_variadic = fc_variadic fn, fc_output = fc_output fn, fc_vis = fc_vis fn,
      fc_virtualness = None, fc_cpp_vis = Public, fc_special_member = None, fc_method_kind = None,
      fc_original_name = None, fc_self_ty = Some (subclass_cpp sub),
      fc_synthesized_this_type = Some (subclass_cpp sub), fc_add_to_trait = fc_add_to_trait fn,
      fc_synthetic_cpp = None, fc_is_deleted = fc_is_deleted fn, fc_deprecation = fc_deprecation fn,
      fc_ref_qualifier = fc_ref_qualifier fn, fc_exception_specification = ExSpec_None\<rparr>"

definition subclass_unsafety :: "unsafe_policy \<Rightarrow> argument_analysis list \<Rightarrow> unsafety_needed" where
  "subclass_unsafety unsafe_pol param_details =
     (if unsafe_pol = AllFunctionsUnsafe then Always else from_param_details param_details False)"

definition create_subclass_trait_item ::
    "api_name \<Rightarrow> fn_analysis \<Rightarrow> fn_analysis \<Rightarrow> receiver_mutability \<Rightarrow> qualified_name \<Rightarrow> bool \<Rightarrow> unsafe_policy \<Rightarrow>
     ('td, 'st, 'fn, 'sub) api" where
  "create_subclass_trait_item name analysis superclass_analysis receiver_mutability receiver has_super_helper unsafe_pol =
     Api_SubclassTraitItem name
       \<lparr>sm_name = make_ident (fa_rust_name analysis), sm_receiver = receiver, sm_params = fa_params analysis,
        sm_param_conversions = map aa_conversion (fa_param_details analysis),
        sm_ret_type = fa_ret_type analysis, sm_ret_conversion = fa_ret_conversion analysis,
        sm_receiver_mutability = receiver_mutability,
        sm_requires_unsafe = subclass_unsafety unsafe_pol (fa_param_details analysis),
        sm_has_super_helper = has_super_helper,
        sm_superclass_binding_returns_new =
          list_ex aa_is_placement_return_destination (fa_param_details superclass_analysis)\<rparr>"

definition subclass_fn_name :: "subclass_name \<Rightarrow> api_name \<Rightarrow> string" where
  "subclass_fn_name sub name = SubclassName_id sub @ ''_'' @ get_final_item (an_name name)"

record override =
  ov_exception_specification :: cpp_exception_specification
  ov_cpp_super_fn_name :: "ident option"
  ov_dependencies :: "qualified_name list"

definition create_subclass_function ::
    "subclass_name \<Rightarrow> fn_analysis \<Rightarrow> api_name \<Rightarrow> receiver_mutability \<Rightarrow> qualified_name \<Rightarrow> override \<Rightarrow> unsafe_policy \<Rightarrow>
     func_to_convert \<Rightarrow> ('td, 'st, 'fn, 'sub) api" where
  "create_subclass_function sub analysis name receiver_mutability superclass ov unsafe_pol fn =
     (let rust_call_name = subclass_fn_name sub name in
      Api_RustSubclassFn (new_in_root_namespace (make_ident rust_call_name)) sub
        \<lparr>rsf_params = FnArg_Typed ''me'' (Type_Reference False (Type_Path (plain_path False [subclass_holder sub])))
                        # drop 1 (fa_params analysis),
         rsf_ret = fa_ret_type analysis,
         rsf_cpp_impl =
           \<lparr>cf_payload = FunctionCall Namespace_new (CppEffectiveName rust_call_name),
            cf_wrapper_function_name = make_ident (fa_rust_name analysis),
            cf_original_cpp_name = ApiName_cpp_name name,
            cf_return_conversion = fa_ret_conversion analysis,
            cf_argument_conversion = map aa_conversion (drop 1 (fa_param_details analysis)),
            cf_kind = (if receiver_mutability = Mutable then CppFunction_Method else CppFunction_ConstMethod),
            cf_pass_obs_field = True, cf_qualification = Some (subclass_cpp sub),
            cf_ref_qualifier = fc_ref_qualifier fn, cf_calls_deprecated = (fc_deprecation fn \<noteq> None),
            cf_is_virtual_override = True, cf_exception_specification = ov_exception_specification ov\<rparr>,
         rsf_method_name = make_ident (fa_rust_name analysis), rsf_superclass = superclass,
         rsf_receiver_mutability = receiver_mutability, rsf_dependencies = ov_dependencies ov,
         rsf_requires_unsafe = subclass_unsafety unsafe_pol (fa_param_details analysis),
         rsf_cpp_super_fn_name = ov_cpp_super_fn_name ov\<rparr>)"

text \<open>The first parameter of a constructor is a pointer to what is constructed; anything else is a panic.\<close>

definition peer_constructor_inputs :: "subclass_name \<Rightarrow> fn_arg list \<Rightarrow> fn_arg list option" where
  "peer_constructor_inputs sub inputs =
     (case inputs of
        FnArg_Typed pat (Type_Ptr m elem) # rest \<Rightarrow>
          Some (FnArg_Typed pat (Type_Ptr m (Type_Path (to_type_path (subclass_cpp sub))))
                # FnArg_Typed ''peer'' (rust_box_of (subclass_holder sub)) # rest)
      | _ \<Rightarrow> None)"

definition peer_constructor_impl :: "subclass_name \<Rightarrow> fn_analysis \<Rightarrow> qualified_name \<Rightarrow> func_to_convert \<Rightarrow> cpp_function" where
  "peer_constructor_impl sub analysis superclass fn =
     \<lparr>cf_payload = ConstructSuperclass (to_cpp_name superclass),
      cf_wrapper_function_name = get_final_item (subclass_cpp sub),
      cf_original_cpp_name = CppEffectiveName (to_cpp_name (subclass_cpp sub)),
      cf_return_conversion = None,
      cf_argument_conversion = new_unconverted (rust_box_of (subclass_holder sub))
        # map aa_conversion (drop 1 (fa_param_details analysis)),
      cf_kind = SynthesizedConstructor, cf_pass_obs_field = False, cf_qualification = Some (subclass_cpp sub),
      cf_ref_qualifier = RefQualifier_None, cf_calls_deprecated = (fc_deprecation fn \<noteq> None),
      cf_is_virtual_override = False, cf_exception_specification = Spec_None\<rparr>"

definition create_subclass_constructor ::
    "subclass_name \<Rightarrow> fn_analysis \<Rightarrow> qualified_name \<Rightarrow> func_to_convert \<Rightarrow> (func_to_convert \<times> api_name) option" where
  "create_subclass_constructor sub analysis superclass fn =
     (let cpp = subclass_cpp sub;
          idt = make_ident (get_final_item cpp @ ''_'' @ get_final_item cpp)
      in map_option
           (\<lambda>inputs.
              (\<lparr>fc_provenance = SynthesizedSubclassConstructor
                  \<lparr>scd_subclass = sub, scd_is_trivial = (length (fa_param_details analysis) = 1),
                   scd_cpp_impl = peer_constructor_impl sub analysis superclass fn\<rparr>,
                fc_ident = idt, fc_doc_attrs = fc_doc_attrs fn, fc_inputs = inputs, fc_variadic = fc_variadic fn,
                fc_output = fc_output fn, fc_vis = fc_vis fn, fc_virtualness = None, fc_cpp_vis = Public,
                fc_special_member = fc_special_member fn, fc_method_kind = None, fc_original_name = None,
                fc_self_ty = Some cpp, fc_synthesized_this_type = Some cpp, fc_add_to_trait = None,
                fc_synthetic_cpp = None, fc_is_deleted = fc_is_deleted fn, fc_deprecation = fc_deprecation fn,
                fc_ref_qualifier = RefQualifier_None, fc_exception_specification = ExSpec_None\<rparr>,
               ApiName_new_with_cpp_name Namespace_new idt (Some (from_final_item_of_generated_cpp_name cpp))))
           (peer_constructor_inputs sub (fc_inputs fn)))"

section \<open>Virtual functions\<close>

text \<open>The class and receiver of a virtual function no directive blocks.\<close>

definition subclass_source :: "fn_analysis \<Rightarrow> (qualified_name \<times> receiver_mutability) option" where
  "subclass_source analysis =
     (if is_function_blocked analysis then None
      else case fa_kind analysis of
        FnKind_Method (VirtualMethod mutability) super \<Rightarrow> Some (super, mutability)
      | FnKind_Method (PureVirtualMethod mutability) super \<Rightarrow> Some (super, mutability)
      | _ \<Rightarrow> None)"

definition is_pure_virtual :: "fn_analysis \<Rightarrow> bool" where
  "is_pure_virtual analysis \<longleftrightarrow>
     (case fa_kind analysis of FnKind_Method (PureVirtualMethod mutability) super \<Rightarrow> True | _ \<Rightarrow> False)"

text \<open>The name of the function that calls the superclass's own, kept so that no other gets it.\<close>

definition take_super_fn_name :: "bool \<Rightarrow> string \<Rightarrow> qualified_name option st" where
  "take_super_fn_name has_super_helper rust_name = (\<lambda>me.
     if \<not> has_super_helper then Some (None, me)
     else map_option
            (\<lambda>name. (Some name, me\<lparr>fz_cpp_names_taken_on_peer_classes :=
                iset_insert (get_final_item name) (fz_cpp_names_taken_on_peer_classes me)\<rparr>))
            (get_cpp_super_fn_name Namespace_new rust_name
               (\<lambda>candidate. candidate \<in> set (fz_cpp_names_taken_on_peer_classes me))))"

type_synonym fn_phase1_apis = "(typedef_analysis, pod_analysis, fn_analysis, unit) api_vec"

record virtual_method =
  vm_fn :: func_to_convert
  vm_name :: api_name
  vm_analysis :: fn_analysis
  vm_simpler_analysis :: fn_analysis
  vm_superclass :: qualified_name
  vm_receiver_mutability :: receiver_mutability
  vm_has_super_helper :: bool
  vm_super_fn_cpp_name :: "qualified_name option"

definition push_api :: "('td, 'st, 'fn, 'sub) api \<Rightarrow> ('td, 'st, 'fn, 'sub) api_vec \<Rightarrow> ('td, 'st, 'fn, 'sub) api_vec st" where
  "push_api api results = st_ask (\<lambda>_. apivec_push results api)"

text \<open>The call of the superclass's own function, where there is one, and what the override depends on.\<close>

definition add_super_helper ::
    "(include_cpp_config \<Rightarrow> nat) \<Rightarrow> (string \<Rightarrow> bool) \<Rightarrow> nat \<Rightarrow> virtual_method \<Rightarrow> subclass_name \<Rightarrow> fn_phase1_apis \<Rightarrow>
     (qualified_name list \<times> fn_phase1_apis) st" where
  "add_super_helper get_hash ok n vm sub results =
     (let rust_name = fa_rust_name (vm_analysis vm);
          trait_api_name = get_trait_api_name (vm_superclass vm) rust_name
      in case vm_super_fn_cpp_name vm of
           None \<Rightarrow> st_return ([trait_api_name], results)
         | Some super_fn_cpp_name \<Rightarrow>
             st_bind
               (analyze_and_add get_hash ok n
                  (new_from_qualified_name_and_cpp_name
                     (get_super_fn_name Namespace_new (fa_cxxbridge_name (vm_analysis vm)))
                     (Some (from_final_item_of_generated_cpp_name super_fn_cpp_name)))
                  (create_subclass_fn_wrapper sub super_fn_cpp_name (vm_fn vm)) results SimpleForSubclasses
                  (Some (get_final_item (get_super_fn_name Namespace_new rust_name))))
               (\<lambda>(super_fn_call_api_name, results).
             st_return ([trait_api_name, super_fn_call_api_name], results)))"

definition add_trait_item :: "virtual_method \<Rightarrow> fn_phase1_apis \<Rightarrow> fn_phase1_apis st" where
  "add_trait_item vm results = (\<lambda>me.
     let trait_api_name = get_trait_api_name (vm_superclass vm) (fa_rust_name (vm_analysis vm)) in
     if trait_api_name \<in> set (fz_existing_superclass_trait_api_names me) then Some (results, me)
     else push_api
            (create_subclass_trait_item (new_from_qualified_name trait_api_name) (vm_simpler_analysis vm)
               (vm_analysis vm) (vm_receiver_mutability vm) (vm_superclass vm) (vm_has_super_helper vm)
               (fz_unsafe_policy me)) results
            (me\<lparr>fz_existing_superclass_trait_api_names :=
                iset_insert trait_api_name (fz_existing_superclass_trait_api_names me)\<rparr>))"

fun add_overrides ::
    "(include_cpp_config \<Rightarrow> nat) \<Rightarrow> (string \<Rightarrow> bool) \<Rightarrow> nat \<Rightarrow> virtual_method \<Rightarrow> subclass_name list \<Rightarrow> fn_phase1_apis \<Rightarrow>
     fn_phase1_apis st" where
  "add_overrides get_hash ok n vm [] results = st_return results"
| "add_overrides get_hash ok n vm (sub # subs) results =
     st_bind
       (case override_exception_specification (fc_exception_specification (vm_fn vm)) of
          Inl err \<Rightarrow>
            push_api (Api_IgnoredItem (new_in_root_namespace (make_ident (subclass_fn_name sub (vm_name vm)))) err None)
              results
        | Inr exception_specification \<Rightarrow>
            st_bind (add_super_helper get_hash ok n vm sub results) (\<lambda>(subclass_fn_deps, results).
            st_bind (st_ask (\<lambda>me. Some (fz_unsafe_policy me))) (\<lambda>unsafe_pol.
            st_bind
              (push_api
                 (create_subclass_function sub (vm_simpler_analysis vm) (vm_name vm) (vm_receiver_mutability vm)
                    (vm_superclass vm)
                    \<lparr>ov_exception_specification = exception_specification,
                     ov_cpp_super_fn_name = map_option get_final_item (vm_super_fn_cpp_name vm),
                     ov_dependencies = subclass_fn_deps\<rparr>
                    unsafe_pol (vm_fn vm))
                 results)
              (add_trait_item vm))))
       (add_overrides get_hash ok n vm subs)"

definition analyze_virtual_method ::
    "(include_cpp_config \<Rightarrow> nat) \<Rightarrow> (string \<Rightarrow> bool) \<Rightarrow> nat \<Rightarrow> api_name \<Rightarrow> func_to_convert \<Rightarrow> fn_analysis \<Rightarrow>
     qualified_name \<times> receiver_mutability \<Rightarrow> fn_phase1_apis \<Rightarrow> fn_phase1_apis st" where
  "analyze_virtual_method get_hash ok n name fn analysis = (\<lambda>(super, receiver_mutability) results.
     st_bind (analyze_foreign_fn get_hash ok n name fn SimpleForSubclasses (Some (fa_rust_name analysis)))
       (\<lambda>(simpler_analysis, _).
     st_bind (st_ask (\<lambda>me. Some (subclasses_by_superclass me super))) (\<lambda>subs.
     let has_super_helper = (\<not> is_pure_virtual simpler_analysis \<and> fc_cpp_vis fn \<noteq> Private \<and> subs \<noteq> []) in
     st_bind (take_super_fn_name has_super_helper (fa_rust_name analysis)) (\<lambda>super_fn_cpp_name.
     add_overrides get_hash ok n
       \<lparr>vm_fn = fn, vm_name = name, vm_analysis = analysis, vm_simpler_analysis = simpler_analysis,
        vm_superclass = super, vm_receiver_mutability = receiver_mutability,
        vm_has_super_helper = has_super_helper, vm_super_fn_cpp_name = super_fn_cpp_name\<rparr>
       subs results))))"

definition analyze_foreign_fn_and_subclasses ::
    "(include_cpp_config \<Rightarrow> nat) \<Rightarrow> (string \<Rightarrow> bool) \<Rightarrow> nat \<Rightarrow> api_name \<Rightarrow> func_to_convert \<Rightarrow> fn_pre_phase1 list st" where
  "analyze_foreign_fn_and_subclasses get_hash ok n name fn =
     st_bind (analyze_foreign_fn get_hash ok n name fn Regular None) (\<lambda>(analysis, name).
     st_bind
       (case subclass_source analysis of
          None \<Rightarrow> st_return ApiVec_new
        | Some source \<Rightarrow> analyze_virtual_method get_hash ok n name fn analysis source ApiVec_new) (\<lambda>results.
     st_bind (push_api (Api_Function name fn analysis) results) (\<lambda>results.
     st_return (apis results))))"

section \<open>Constructors of peers\<close>

text \<open>Who may destroy each class: what its destructor is declared, where it is not deleted or left out.\<close>

definition destructor_visibility_by_class ::
    "('td, 'st, fn_analysis, 'sub) api list \<Rightarrow> (qualified_name, cpp_visibility) index_map" where
  "destructor_visibility_by_class l =
     collect_map (\<lambda>api. case api of
         Api_Function name fn analysis \<Rightarrow>
           (case fa_kind analysis of
              FnKind_TraitMethod k impl_for details \<Rightarrow>
                if fa_ignore_reason analysis = Inr () \<and> fc_special_member fn = Some Destructor \<and>
                   fc_is_deleted fn \<in> {None, Some Explicitness_Defaulted}
                then Some (impl_for, fc_cpp_vis fn) else None
            | _ \<Rightarrow> None)
       | _ \<Rightarrow> None) l"

definition constructor_of :: "('td, 'st, fn_analysis, 'sub) api \<Rightarrow> (func_to_convert \<times> fn_analysis \<times> qualified_name) option" where
  "constructor_of api =
     (case api of
        Api_Function name fn analysis \<Rightarrow>
          (case fa_kind analysis of
             FnKind_Method (Constructor is_default) super \<Rightarrow> Some (fn, analysis, super)
           | _ \<Rightarrow> None)
      | _ \<Rightarrow> None)"

fun add_peer_constructors ::
    "(include_cpp_config \<Rightarrow> nat) \<Rightarrow> (string \<Rightarrow> bool) \<Rightarrow> nat \<Rightarrow> func_to_convert \<Rightarrow> fn_analysis \<Rightarrow> qualified_name \<Rightarrow>
     subclass_name list \<Rightarrow> fn_pre_phase3_apis \<Rightarrow> fn_pre_phase3_apis st" where
  "add_peer_constructors get_hash ok n fn analysis super [] results = st_return results"
| "add_peer_constructors get_hash ok n fn analysis super (sub # subs) results =
     st_bind (st_ask (\<lambda>_. create_subclass_constructor sub analysis super fn)) (\<lambda>(constructor_fn, constructor_name).
     st_bind (analyze_and_add get_hash ok n constructor_name constructor_fn results Regular None) (\<lambda>(_, results).
     add_peer_constructors get_hash ok n fn analysis super subs results))"

fun subclass_constructors_loop ::
    "(include_cpp_config \<Rightarrow> nat) \<Rightarrow> (string \<Rightarrow> bool) \<Rightarrow> nat \<Rightarrow> (qualified_name, cpp_visibility) index_map \<Rightarrow>
     fn_pre_phase2 list \<Rightarrow> fn_pre_phase3_apis \<Rightarrow> fn_pre_phase3_apis st" where
  "subclass_constructors_loop get_hash ok n visibilities [] results = st_return results"
| "subclass_constructors_loop get_hash ok n visibilities (api # rest) results =
     st_bind
       (case constructor_of api of
          None \<Rightarrow> st_return results
        | Some (fn, analysis, super) \<Rightarrow>
            if map_of visibilities super \<notin> {Some Public, Some Protected} then st_return results
            else st_bind (st_ask (\<lambda>me. Some (subclasses_by_superclass me super))) (\<lambda>subs.
                 add_peer_constructors get_hash ok n fn analysis super subs results))
       (subclass_constructors_loop get_hash ok n visibilities rest)"

definition subclass_analyses ::
    "(qualified_name, cpp_visibility) index_map \<Rightarrow>
     (typedef_analysis, pod_and_constructor_analysis, fn_analysis, unit,
      typedef_analysis, pod_and_constructor_analysis, fn_analysis, subclass_analysis) conversions" where
  "subclass_analyses visibilities =
     \<lparr>func_conversion = fun_unchanged, struct_conversion = struct_unchanged, enum_conversion = enum_unchanged,
      typedef_conversion = typedef_unchanged,
      subclass_conversion = (\<lambda>name superclass _.
        Inr [Api_Subclass name superclass
               \<lparr>sa_superclass_destructor_visibility = map_of visibilities superclass,
                sa_superclass_destructor_virtual = False\<rparr>])\<rparr>"

definition add_subclass_constructors ::
    "(include_cpp_config \<Rightarrow> nat) \<Rightarrow> (string \<Rightarrow> bool) \<Rightarrow> nat \<Rightarrow>
     (typedef_analysis, pod_and_constructor_analysis, fn_analysis, unit) api_vec \<Rightarrow> fn_pre_phase3_apis st" where
  "add_subclass_constructors get_hash ok n v =
     (let visibilities = destructor_visibility_by_class (apis v) in
      st_bind (subclass_constructors_loop get_hash ok n visibilities (apis v) ApiVec_new) (\<lambda>results.
      st_ask (\<lambda>_. convert_apis (subclass_analyses visibilities) v results)))"

section \<open>Peers are made over classes that can be destroyed\<close>

definition may_destroy :: "('td, 'st, fn_analysis, 'sub) api list \<Rightarrow> qualified_name \<Rightarrow> cpp_visibility \<Rightarrow> bool" where
  "may_destroy l cls vis \<longleftrightarrow>
     list_ex (\<lambda>api. case api of
         Api_Function name fn analysis \<Rightarrow>
           (case fa_kind analysis of
              FnKind_TraitMethod k impl_for details \<Rightarrow>
                impl_for = cls \<and> fa_ignore_reason analysis = Inr () \<and> fc_special_member fn = Some Destructor \<and>
                fc_is_deleted fn \<noteq> Some Explicitness_Deleted \<and> fc_cpp_vis fn = vis
            | _ \<Rightarrow> False)
       | _ \<Rightarrow> False) l"

lemma visibility_declared:
  assumes "map_of (destructor_visibility_by_class l) cls = Some vis"
  shows "may_destroy l cls vis"
proof -
  from collect_map_origin[OF assms[unfolded destructor_visibility_by_class_def]] obtain api where "api \<in> set l"
    and entry: "(case api of
         Api_Function name fn analysis \<Rightarrow>
           (case fa_kind analysis of
              FnKind_TraitMethod k impl_for details \<Rightarrow>
                if fa_ignore_reason analysis = Inr () \<and> fc_special_member fn = Some Destructor \<and>
                   fc_is_deleted fn \<in> {None, Some Explicitness_Defaulted}
                then Some (impl_for, fc_cpp_vis fn) else None
            | _ \<Rightarrow> None)
       | _ \<Rightarrow> None) = Some (cls, vis)" by blast
  moreover from entry obtain name fn analysis where "api = Api_Function name fn analysis" by (cases api) auto
  ultimately show ?thesis
    by (auto simp: may_destroy_def list_ex_iff split: fn_kind.splits if_splits intro!: bexI[of _ api])
qed

lemma collect_map_none: "map_of (collect_map f xs) k = None \<longleftrightarrow> (\<forall>x \<in> set xs. \<forall>v. f x \<noteq> Some (k, v))"
proof -
  have "map_of (fold (\<lambda>x m. case f x of Some (k, v) \<Rightarrow> imap_insert k v m | None \<Rightarrow> m) xs acc) k = None \<longleftrightarrow>
      map_of acc k = None \<and> (\<forall>x \<in> set xs. \<forall>v. f x \<noteq> Some (k, v))" for acc
    by (induction xs arbitrary: acc) (auto split: option.splits prod.splits)
  then show ?thesis by (simp add: collect_map_def)
qed

lemma destroyable_is_told:
  assumes "map_of (destructor_visibility_by_class l) cls = None"
  shows "\<not> may_destroy l cls vis"
proof
  assume "may_destroy l cls vis"
  then obtain api where api: "api \<in> set l" "may_destroy [api] cls vis"
    by (auto simp only: may_destroy_def list_ex_iff list.set singleton_iff bex_simps)
  from api(2) obtain name fn analysis k details where fn: "api = Api_Function name fn analysis"
    "fa_kind analysis = FnKind_TraitMethod k cls details" "fa_ignore_reason analysis = Inr ()"
    "fc_special_member fn = Some Destructor" "fc_is_deleted fn \<noteq> Some Explicitness_Deleted"
    by (cases api) (auto simp: may_destroy_def split: fn_kind.splits)
  then have "fc_is_deleted fn \<in> {None, Some Explicitness_Defaulted}"
    by (cases "fc_is_deleted fn"; cases "the (fc_is_deleted fn)") auto
  with api(1) fn assms show False
    by (force simp: destructor_visibility_by_class_def collect_map_none dest!: bspec)
qed

text \<open>A function that is a peer's constructor, made from one of a superclass that can be destroyed.\<close>

definition is_peer_constructor ::
    "('td, 'st, fn_analysis, 'sub) api list \<Rightarrow> func_to_convert \<Rightarrow> bool" where
  "is_peer_constructor l fn \<longleftrightarrow>
     (\<exists>sub name super_fn super_analysis is_default super vis peer_name.
        Api_Function name super_fn super_analysis \<in> set l \<and>
        fa_kind super_analysis = FnKind_Method (Constructor is_default) super \<and>
        may_destroy l super vis \<and> vis \<noteq> Private \<and>
        create_subclass_constructor sub super_analysis super super_fn = Some (fn, peer_name))"

definition peers_sound :: "('td, 'st, fn_analysis, 'sub) api list \<Rightarrow> fn_pre_phase3 \<Rightarrow> bool" where
  "peers_sound l api \<longleftrightarrow>
     (case api of
        Api_Function name fn analysis \<Rightarrow> Api_Function name fn analysis \<in> set l \<or> is_peer_constructor l fn
      | Api_Subclass name super analysis \<Rightarrow>
          (case sa_superclass_destructor_visibility analysis of
           Some vis \<Rightarrow> may_destroy l super vis
         | None \<Rightarrow> (\<forall>vis. \<not> may_destroy l super vis))
      | _ \<Rightarrow> True)"

lemma notes_are_sound: "notes_ok (peers_sound l)"
  by (simp add: notes_ok_def peers_sound_def)

lemma added_sound:
  assumes "analyze_and_add get_hash ok n name fn results soph predetermined me = Some ((qn, results'), me')"
    and "list_all (peers_sound l) (apis results)" and "is_peer_constructor l fn"
  shows "list_all (peers_sound l) (apis results')"
  using assms notes_are_sound
  by (auto simp: analyze_and_add_def elim!: apivec_push_all intro!: notes_are_sound simp: peers_sound_def)

lemma peers_added_sound:
  assumes "add_peer_constructors get_hash ok n fn analysis super subs results me = Some (results', me')"
    and "list_all (peers_sound l) (apis results)"
    and "Api_Function name fn analysis \<in> set l" "fa_kind analysis = FnKind_Method (Constructor is_default) super"
    and "may_destroy l super vis" "vis \<noteq> Private"
  shows "list_all (peers_sound l) (apis results')"
  using assms(1,2)
proof (induction subs arbitrary: results me)
  case (Cons sub subs)
  from Cons.prems(1) obtain peer_fn peer_name qn results1 me1 where
    made: "create_subclass_constructor sub analysis super fn = Some (peer_fn, peer_name)"
    and added: "analyze_and_add get_hash ok n peer_name peer_fn results Regular None me = Some ((qn, results1), me1)"
    and rest: "add_peer_constructors get_hash ok n fn analysis super subs results1 me1 = Some (results', me')"
    by auto
  from made assms(3-6) have "is_peer_constructor l peer_fn"
    unfolding is_peer_constructor_def by blast
  from Cons.IH[OF rest added_sound[OF added Cons.prems(2) this]] show ?case .
qed simp

lemma constructors_loop_sound:
  assumes "subclass_constructors_loop get_hash ok n (destructor_visibility_by_class l) rest results me = Some (results', me')"
    and "list_all (peers_sound l) (apis results)" and "set rest \<subseteq> set l"
  shows "list_all (peers_sound l) (apis results')"
  using assms
proof (induction rest arbitrary: results me)
  case (Cons api rest)
  let ?vs = "destructor_visibility_by_class l"
  from Cons.prems(1) obtain results1 me1 where
    one: "(case constructor_of api of
          None \<Rightarrow> st_return results
        | Some (fn, analysis, super) \<Rightarrow>
            if map_of ?vs super \<notin> {Some Public, Some Protected} then st_return results
            else st_bind (st_ask (\<lambda>me. Some (subclasses_by_superclass me super))) (\<lambda>subs.
                 add_peer_constructors get_hash ok n fn analysis super subs results)) me = Some (results1, me1)"
    and more: "subclass_constructors_loop get_hash ok n ?vs rest results1 me1 = Some (results', me')"
    by auto
  have "list_all (peers_sound l) (apis results1)"
  proof (cases "constructor_of api")
    case None
    with one Cons.prems(2) show ?thesis by simp
  next
    case (Some c)
    then obtain name fn analysis is_default super where api: "api = Api_Function name fn analysis"
      "fa_kind analysis = FnKind_Method (Constructor is_default) super" "c = (fn, analysis, super)"
      by (auto simp: constructor_of_def split: api.splits fn_kind.splits method_kind.splits)
    show ?thesis
    proof (cases "map_of ?vs super \<in> {Some Public, Some Protected}")
      case True
      then obtain vis where vis: "may_destroy l super vis" "vis \<noteq> Private"
        using visibility_declared[of l super] by fastforce
      from Some one True obtain me0 where
        "add_peer_constructors get_hash ok n fn analysis super (subclasses_by_superclass me super) results me0 = Some (results1, me1)"
        by (auto simp: api(3))
      from peers_added_sound[where name = name, OF this Cons.prems(2) _ api(2) vis] Cons.prems(3) show ?thesis
        by (simp add: api(1))
    next
      case False
      with Some one Cons.prems(2) show ?thesis by (auto simp: api(3))
    qed
  qed
  with Cons.IH[OF more] Cons.prems(3) show ?case by simp
qed simp

lemma carried_sound: "list_all (peers_sound l) (converted_apis (subclass_analyses (destructor_visibility_by_class l)) l)"
proof -
  have "list_all (peers_sound l) (api_or_error (name_info api)
      (convert_one_api (subclass_analyses (destructor_visibility_by_class l)) api))" if "api \<in> set l" for api
    by (rule api.exhaust[of api])
      (use that in \<open>auto simp: api_or_error_def subclass_analyses_def fun_unchanged_def struct_unchanged_def enum_unchanged_def
        typedef_unchanged_def peers_sound_def dest: visibility_declared destroyable_is_told split: option.splits\<close>)
  then show ?thesis by (auto simp: converted_apis_def list_all_iff)
qed

text \<open>
  C13: peers that can be destroyed. After constructors were added for the peers of Rust subclasses, each
  function is one that was there or the constructor of a peer, made for a subclass from a constructor
  of its superclass, and that superclass has a destructor that is public or protected, not deleted and
  not left out; and each subclass is told the visibility of such a destructor of its superclass, and told of none
  only where the superclass has no such destructor.
\<close>

theorem peers_have_destroyable_superclasses:
  assumes "add_subclass_constructors get_hash ok n v me = Some (results, me')" and "api \<in> set (apis results)"
  shows "case api of
      Api_Function name fn analysis \<Rightarrow>
        Api_Function name fn analysis \<in> set (apis v) \<or> is_peer_constructor (apis v) fn
    | Api_Subclass name super analysis \<Rightarrow>
        (case sa_superclass_destructor_visibility analysis of
           Some vis \<Rightarrow> may_destroy (apis v) super vis
         | None \<Rightarrow> (\<forall>vis. \<not> may_destroy (apis v) super vis))
    | _ \<Rightarrow> True"
proof -
  from assms(1) obtain results1 where
    "subclass_constructors_loop get_hash ok n (destructor_visibility_by_class (apis v)) (apis v) ApiVec_new me = Some (results1, me')"
    "convert_apis (subclass_analyses (destructor_visibility_by_class (apis v))) v results1 = Some results"
    by (auto simp: add_subclass_constructors_def Let_def)
  then have "list_all (peers_sound (apis v)) (apis results)"
    using constructors_loop_sound[of get_hash ok n "apis v" "apis v" ApiVec_new me results1 me'] carried_sound[of "apis v"]
      notes_are_sound
    by (auto simp: convert_apis_def ApiVec_new_def intro!: notes_are_sound elim!: apivec_extend_all)
  with assms(2) show ?thesis by (auto simp: list_all_iff peers_sound_def)
qed

section \<open>A subclass of a class with a protected destructor\<close>

definition protected_destructor :: fn_pre_phase2 where
  "protected_destructor =
     (case sample_destructor ''S'' None of
        Api_Function name fn analysis \<Rightarrow> Api_Function name (fn\<lparr>fc_cpp_vis := Protected\<rparr>) analysis
      | _ \<Rightarrow> Api_StringConstructor (sample_name ''S''))"

definition sample_subclass :: "(typedef_analysis, pod_and_constructor_analysis, fn_analysis, unit) api_vec" where
  "sample_subclass =
     \<lparr>apis = [protected_destructor, Api_Subclass (SubclassName_new ''Sub'') (QualifiedName [''ns''] ''S'') ()],
      names = [QualifiedName [''ns''] ''S_destructor'', QualifiedName [] ''Sub'']\<rparr>"

lemma sample_subclass_visible:
  "destructor_visibility_by_class (apis sample_subclass) = [(QualifiedName [''ns''] ''S'', Protected)]"
  by (simp add: destructor_visibility_by_class_def collect_map_def sample_subclass_def protected_destructor_def
      sample_destructor_def)

lemma peers_have_destroyable_superclasses_witness:
  "\<exists>results me' analysis. add_subclass_constructors (\<lambda>_. 0) (\<lambda>_. True) 0 sample_subclass sample_analyzer = Some (results, me') \<and>
     Api_Subclass (SubclassName_new ''Sub'') (QualifiedName [''ns''] ''S'') analysis \<in> set (apis results) \<and>
     sa_superclass_destructor_visibility analysis = Some Protected \<and>
     may_destroy (apis sample_subclass) (QualifiedName [''ns''] ''S'') Protected"
proof -
  have "\<exists>results me' analysis. add_subclass_constructors (\<lambda>_. 0) (\<lambda>_. True) 0 sample_subclass sample_analyzer = Some (results, me') \<and>
     Api_Subclass (SubclassName_new ''Sub'') (QualifiedName [''ns''] ''S'') analysis \<in> set (apis results) \<and>
     sa_superclass_destructor_visibility analysis = Some Protected"
    unfolding add_subclass_constructors_def Let_def sample_subclass_visible
    by (simp add: sample_subclass_def protected_destructor_def sample_destructor_def constructor_of_def st_bind_def
        st_return_def st_ask_def convert_apis_def converted_apis_def api_or_error_def subclass_analyses_def fun_unchanged_def
        apivec_push.simps ApiVec_new_def already_contains_def apivec_insert_def Api_name_def iset_insert_def
        sample_name_def new_from_qualified_name_def new_from_qualified_name_and_cpp_name_def SubclassName_new_def
        new_in_root_namespace_def ApiName_new_def QualifiedName_new_def make_ident_def Namespace_new_def Let_def)
  then obtain results me' analysis where r:
    "add_subclass_constructors (\<lambda>_. 0) (\<lambda>_. True) 0 sample_subclass sample_analyzer = Some (results, me')"
    "Api_Subclass (SubclassName_new ''Sub'') (QualifiedName [''ns''] ''S'') analysis \<in> set (apis results)"
    "sa_superclass_destructor_visibility analysis = Some Protected" by blast
  from peers_have_destroyable_superclasses[OF r(1,2)] r show ?thesis by auto
qed

end
