(* ===== verification/SpecialMembers.thy ===== *)
theory SpecialMembers imports SubclassFunctions SynthesizedFunctions begin

text \<open>
  The constructors and destructors C++ declares for a class that says nothing of them
  (\<^verbatim>\<open>add_constructors_present\<close> and \<^verbatim>\<open>synthesize_special_member\<close> of \<^verbatim>\<open>analysis/fun/mod.rs\<close>): for each class
  a function such as bindgen would have written is made up and analyzed like any other, and each struct
  is told which of its constructors are there. Which they are is the business of \<open>Constructors\<close>.
\<close>

section \<open>Enums that arrive as structs\<close>

datatype enum_style = BitfieldEnum | NewtypeEnum | RustifiedEnum | RustifiedNonExhaustiveEnum

fun enum_style_as_str :: "enum_style \<Rightarrow> string" where
  "enum_style_as_str BitfieldEnum = ''BitfieldEnum''"
| "enum_style_as_str NewtypeEnum = ''NewtypeEnum''"
| "enum_style_as_str RustifiedEnum = ''RustifiedEnum''"
| "enum_style_as_str RustifiedNonExhaustiveEnum = ''RustifiedNonExhaustiveEnum''"

definition all_enum_styles :: "enum_style list" where
  "all_enum_styles = [BitfieldEnum, NewtypeEnum, RustifiedEnum, RustifiedNonExhaustiveEnum]"

definition is_newtype :: "enum_style \<Rightarrow> bool" where
  "is_newtype style \<longleftrightarrow> style \<in> {BitfieldEnum, NewtypeEnum}"

definition enum_style_from_name :: "string \<Rightarrow> enum_style option" where
  "enum_style_from_name name = List.find (\<lambda>style. enum_style_as_str style = name) all_enum_styles"

text \<open>The configuration keeps a style under the spelling it was written with.\<close>

definition enum_style_of :: "include_cpp_config \<Rightarrow> string \<Rightarrow> enum_style option" where
  "enum_style_of config cpp_name = Option.bind (map_of (enum_styles config) cpp_name) enum_style_from_name"

section \<open>One member\<close>

definition special_member_inputs :: "special_member_kind \<Rightarrow> type_path \<Rightarrow> fn_arg list" where
  "special_member_inputs special path =
     FnArg_Typed ''this'' (Type_Ptr True (Type_Path path))
     # (case special of
          MoveConstructor \<Rightarrow>
            [FnArg_Typed ''other'' (marked_type ''__bindgen_marker_RValueReference'' (Type_Ptr True (Type_Path path)))]
        | CopyConstructor \<Rightarrow>
            [FnArg_Typed ''other'' (marked_type ''__bindgen_marker_Reference'' (Type_Ptr False (Type_Path path)))]
        | _ \<Rightarrow> [])"

definition special_member_fn :: "qualified_name \<Rightarrow> ident \<Rightarrow> special_member_kind \<Rightarrow> func_to_convert" where
  "special_member_fn self_ty idt special =
     (synthesized_fn idt (special_member_inputs special (to_type_path self_ty)) None)
       \<lparr>fc_doc_attrs := [''Synthesized '' @ special_member_to_string special @ ''.''],
        fc_self_ty := Some self_ty, fc_special_member := Some special\<rparr>"

text \<open>
  A constructor that neither copies nor moves is known by the name of its class; for a nested class that
  is the last segment of what C++ calls it.
\<close>

definition special_member_name ::
    "fn_analyzer \<Rightarrow> qualified_name \<Rightarrow> ident \<Rightarrow> special_member_kind \<Rightarrow> api_name" where
  "special_member_name me self_ty idt special =
     ApiName_new_with_cpp_name (get_namespace self_ty) idt
       (if special = DefaultConstructor
        then Some (from_type_name_for_constructor
               (case map_of (fz_nested_type_name_map me) self_ty of
                  Some nested \<Rightarrow> nested
                | None \<Rightarrow> get_final_item self_ty))
        else None)"

definition synthesize_special_member ::
    "(include_cpp_config \<Rightarrow> nat) \<Rightarrow> (string \<Rightarrow> bool) \<Rightarrow> nat \<Rightarrow> items_found \<Rightarrow> string \<Rightarrow> special_member_kind \<Rightarrow>
     fn_pre_phase1_apis \<Rightarrow> fn_pre_phase1_apis st" where
  "synthesize_special_member get_hash ok n items label special v =
     st_bind (st_ask (\<lambda>me. map_option (\<lambda>name.
         let self_ty = an_name name;
             idt = make_ident (uniquify_name_per_mod get_hash (fz_config me)
                     (get_final_item self_ty @ ''_synthetic_'' @ label))
         in (special_member_name me self_ty idt special, special_member_fn self_ty idt special)) (mem_name items)))
       (\<lambda>(name, fn).
     st_bind (analyze_foreign_fn_and_subclasses get_hash ok n name fn) (\<lambda>made.
     st_ask (\<lambda>_. apivec_extend v made)))"

section \<open>Every class\<close>

definition pod_types :: "('td, pod_analysis, 'fn, 'sub) api list \<Rightarrow> qualified_name list" where
  "pod_types l =
     fold iset_insert
       (List.map_filter (\<lambda>api. case api of
           Api_Struct name details analysis \<Rightarrow> if pa_kind analysis = Pod then Some (an_name name) else None
         | _ \<Rightarrow> None) l) []"

text \<open>The directive is asked about even where \<open>exclude_impls\<close> would do, so that it counts as used.\<close>

definition nothing_to_synthesize :: "qualified_name \<Rightarrow> bool st" where
  "nothing_to_synthesize self_ty = (\<lambda>me.
     case is_on_constructor_blocklist (fz_config me) (to_cpp_name self_ty) of
       (blocked, config) \<Rightarrow>
         Some (exclude_impls config \<or> blocked
               \<or> (case enum_style_of config (QualifiedName_to_string self_ty) of
                    Some style \<Rightarrow> is_newtype style | None \<Rightarrow> False),
               set_fz_config config me))"

definition synthesize_if ::
    "(include_cpp_config \<Rightarrow> nat) \<Rightarrow> (string \<Rightarrow> bool) \<Rightarrow> nat \<Rightarrow> bool \<Rightarrow> items_found \<Rightarrow> string \<Rightarrow> special_member_kind \<Rightarrow>
     fn_pre_phase1_apis \<Rightarrow> fn_pre_phase1_apis st" where
  "synthesize_if get_hash ok n needed items label special v =
     (if needed then synthesize_special_member get_hash ok n items label special v else st_return v)"

text \<open>A destructor that would do nothing is left out of a type Rust holds by value.\<close>

definition destructor_would_do_nothing :: "qualified_name list \<Rightarrow> qualified_name \<Rightarrow> items_found \<Rightarrow> bool" where
  "destructor_would_do_nothing pods self_ty items \<longleftrightarrow> mem_destructor_is_trivial items \<and> self_ty \<in> set pods"

definition synthesize_for_class ::
    "(include_cpp_config \<Rightarrow> nat) \<Rightarrow> (string \<Rightarrow> bool) \<Rightarrow> nat \<Rightarrow> qualified_name list \<Rightarrow> qualified_name \<Rightarrow> items_found \<Rightarrow>
     fn_pre_phase1_apis \<times> qualified_name list \<Rightarrow> (fn_pre_phase1_apis \<times> qualified_name list) st" where
  "synthesize_for_class get_hash ok n pods self_ty items = (\<lambda>(v, omitted).
     st_bind (nothing_to_synthesize self_ty) (\<lambda>skip.
     if skip then st_return (v, omitted)
     else
       st_bind (synthesize_if get_hash ok n (implicit_default_constructor_needed items) items
                  ''default_ctor'' DefaultConstructor v) (\<lambda>v.
       st_bind (synthesize_if get_hash ok n (implicit_move_constructor_needed items) items
                  ''move_ctor'' MoveConstructor v) (\<lambda>v.
       st_bind (synthesize_if get_hash ok n (implicit_const_copy_constructor_needed items) items
                  ''const_copy_ctor'' CopyConstructor v) (\<lambda>v.
       if destructor_would_do_nothing pods self_ty items then st_return (v, iset_insert self_ty omitted)
       else st_bind (synthesize_if get_hash ok n (implicit_destructor_needed items) items
                       ''destructor'' Destructor v) (\<lambda>v.
            st_return (v, omitted)))))))"

fun synthesize_members ::
    "(include_cpp_config \<Rightarrow> nat) \<Rightarrow> (string \<Rightarrow> bool) \<Rightarrow> nat \<Rightarrow> qualified_name list \<Rightarrow> (qualified_name \<times> items_found) list \<Rightarrow>
     fn_pre_phase1_apis \<times> qualified_name list \<Rightarrow> (fn_pre_phase1_apis \<times> qualified_name list) st" where
  "synthesize_members get_hash ok n pods [] acc = st_return acc"
| "synthesize_members get_hash ok n pods ((self_ty, items) # rest) acc =
     st_bind (synthesize_for_class get_hash ok n pods self_ty items acc)
       (synthesize_members get_hash ok n pods rest)"

definition PublicConstructors_default :: public_constructors where
  "PublicConstructors_default =
     \<lparr>pc_move_constructor = False, pc_destructor = False, pc_destructor_inaccessible = False,
      pc_why_no_constructors = no_reasons, pc_destructor_omitted_as_trivial = False,
      pc_abstract_without_virtual_destructor = False, pc_undestroyable_member = None\<rparr>"

definition constructors_told ::
    "(qualified_name, items_found) index_map \<Rightarrow> qualified_name list \<Rightarrow> type_converter \<Rightarrow> qualified_name \<Rightarrow>
     public_constructors" where
  "constructors_told found omitted tc name =
     (case map_of found name of
        Some items \<Rightarrow> from_items_found items (name \<in> set omitted) (undestroyable_member_of tc name)
      | None \<Rightarrow> PublicConstructors_default)"

definition constructors_conversions ::
    "(qualified_name, items_found) index_map \<Rightarrow> qualified_name list \<Rightarrow> type_converter \<Rightarrow>
     (typedef_analysis, pod_analysis, fn_analysis, unit,
      typedef_analysis, pod_and_constructor_analysis, fn_analysis, unit) conversions" where
  "constructors_conversions found omitted tc =
     \<lparr>func_conversion = fun_unchanged,
      struct_conversion = (\<lambda>name details analysis.
        Inr [Api_Struct name details
               \<lparr>pca_pod = analysis, pca_constructors = constructors_told found omitted tc (an_name name)\<rparr>]),
      enum_conversion = enum_unchanged, typedef_conversion = typedef_unchanged,
      subclass_conversion = subclass_unchanged\<rparr>"

definition add_constructors_present ::
    "(include_cpp_config \<Rightarrow> nat) \<Rightarrow> (string \<Rightarrow> bool) \<Rightarrow> nat \<Rightarrow> fn_pre_phase1_apis \<Rightarrow>
     (typedef_analysis, pod_and_constructor_analysis, fn_analysis, unit) api_vec st" where
  "add_constructors_present get_hash ok n v =
     st_bind (st_ask (\<lambda>me. find_constructors_present known_types v (fz_instantiable_concrete_types me))) (\<lambda>found.
     st_bind (st_ask (\<lambda>_. discard_deleted_defaulted_members v found)) (\<lambda>kept.
     st_bind (synthesize_members get_hash ok n (pod_types (apis v)) found (kept, [])) (\<lambda>(v, omitted).
     st_ask (\<lambda>me. convert_apis (constructors_conversions found omitted (fz_type_converter me)) v ApiVec_new))))"

section \<open>What each class is told\<close>

lemma found_once:
  assumes "find_constructors_present db v wanted = Some found"
  shows "imap_wf found"
proof -
  have structs: "visit_structs order cs = Some cs' \<Longrightarrow> imap_wf (cs_found cs) \<Longrightarrow> imap_wf (cs_found cs')" for order cs cs'
  proof (induction order arbitrary: cs)
    case (Cons api order)
    from Cons.prems obtain cs1 where one: "visit_struct api cs = Some cs1" "visit_structs order cs1 = Some cs'"
      by (auto split: option.splits)
    have "imap_wf (cs_found cs1)"
      using one(1) Cons.prems(2)
      by (cases api) (auto simp: visit_struct_def Let_def split: option.splits if_splits)
    with Cons.IH one(2) show ?case by blast
  qed simp
  have instances: "imap_wf m \<Longrightarrow> imap_wf (fold (visit_concrete wanted) l m)" for l m
    by (induction l arbitrary: m) (auto simp: visit_concrete_def split: api.splits)
  from assms show ?thesis
    by (auto simp: find_constructors_present_def split: option.splits intro!: instances dest: structs)
qed

lemma class_omits:
  assumes "synthesize_for_class get_hash ok n pods self_ty items (v, omitted) me = Some ((v', omitted'), me')"
  shows "set omitted' \<subseteq> set omitted \<union> (if destructor_would_do_nothing pods self_ty items then {self_ty} else {})"
  using assms by (auto simp: synthesize_for_class_def split: if_splits)

lemma members_omit:
  assumes "synthesize_members get_hash ok n pods found acc me = Some ((v', omitted'), me')"
  shows "set omitted' \<subseteq> set (snd acc) \<union> {ty. \<exists>items. (ty, items) \<in> set found \<and> destructor_would_do_nothing pods ty items}"
  using assms
proof (induction found arbitrary: acc me)
  case (Cons c found)
  obtain self_ty items where c: "c = (self_ty, items)" by (cases c)
  obtain v omitted where acc: "acc = (v, omitted)" by (cases acc)
  from Cons.prems obtain v1 omitted1 me1 where
    one: "synthesize_for_class get_hash ok n pods self_ty items (v, omitted) me = Some ((v1, omitted1), me1)"
    and rest: "synthesize_members get_hash ok n pods found (v1, omitted1) me1 = Some ((v', omitted'), me')"
    by (auto simp: c acc)
  from Cons.IH[OF rest] class_omits[OF one] show ?case by (auto simp: c acc split: if_splits)
qed simp

definition told :: "(qualified_name, items_found) index_map \<Rightarrow> qualified_name list \<Rightarrow> type_converter \<Rightarrow> fn_pre_phase2 \<Rightarrow> bool" where
  "told found omitted tc api \<longleftrightarrow>
     (case api of
        Api_Struct name details analysis \<Rightarrow> pca_constructors analysis = constructors_told found omitted tc (an_name name)
      | _ \<Rightarrow> True)"

lemma all_told:
  assumes "convert_apis (constructors_conversions found omitted tc) v ApiVec_new = Some results"
  shows "list_all (told found omitted tc) (apis results)"
proof -
  have "list_all (told found omitted tc)
      (api_or_error (name_info api) (convert_one_api (constructors_conversions found omitted tc) api))" for api
    by (cases api) (simp_all add: api_or_error_def constructors_conversions_def fun_unchanged_def enum_unchanged_def
        typedef_unchanged_def subclass_unchanged_def told_def)
  then have "list_all (told found omitted tc) (converted_apis (constructors_conversions found omitted tc) (apis v))"
    by (auto simp: converted_apis_def list_all_iff)
  moreover have "notes_ok (told found omitted tc)" by (simp add: notes_ok_def told_def)
  ultimately show ?thesis
    using assms by (auto simp: convert_apis_def ApiVec_new_def elim!: apivec_extend_all)
qed


section \<open>A class whose copy constructor is deleted\<close>

definition deleted_copy :: fn_pre_phase1 where
  "deleted_copy =
     (case sample_destructor ''S'' (Some Explicitness_Deleted) of
        Api_Function name fn analysis \<Rightarrow>
          Api_Function name (fn\<lparr>fc_special_member := Some CopyConstructor\<rparr>)
            (case fa_kind analysis of
               FnKind_TraitMethod kind impl_for details \<Rightarrow>
                 analysis\<lparr>fa_kind := FnKind_TraitMethod Trait_CopyConstructor impl_for details\<rparr>
             | _ \<Rightarrow> analysis)
      | api \<Rightarrow> api)"

definition uncopyable_class :: fn_pre_phase1_apis where
  "uncopyable_class =
     \<lparr>apis = [Api_Struct (sample_name ''S'') (sample_details ''S'') ((sample_pod [] [] [])\<lparr>pa_kind := Pod\<rparr>), deleted_copy],
      names = [QualifiedName [''ns''] ''S'', QualifiedName [''ns''] ''S_destructor'']\<rparr>"

lemmas uncopyable_simps = uncopyable_class_def deleted_copy_def

lemma uncopyable_found:
  "\<exists>s. find_constructors_present db uncopyable_class [] = Some [(QualifiedName [''ns''] ''S'', s)] \<and>
     mem_destructor_is_trivial s \<and> mem_default_constructor s = NotPresent \<and> mem_const_copy_constructor s = NotPresent \<and>
     mem_move_constructor s = NotPresent"
  by (simp add: uncopyable_simps sample_simps search_simps, simp add: rule_simps)

lemma uncopyable_targets: "typedef_targets uncopyable_class = Some []"
  by (simp add: typedef_targets_def uncopyable_simps sample_simps)

lemma uncopyable_kept:
  "discard_deleted_defaulted_members uncopyable_class found = Some uncopyable_class"
  by (simp add: discard_deleted_defaulted_members_def discard_if_deleted_def uncopyable_simps sample_simps
      apivec_from_iter_def apivec_push.simps ApiVec_new_def already_contains_def apivec_insert_def Api_name_def iset_insert_def Let_def)

lemma uncopyable_pods: "pod_types (apis uncopyable_class) = [QualifiedName [''ns''] ''S'']"
  by (simp add: pod_types_def uncopyable_simps sample_simps map_filter_simps iset_insert_def)

lemma sample_synthesizes: "nothing_to_synthesize self_ty sample_analyzer = Some (False, sample_analyzer)"
  by (simp add: nothing_to_synthesize_def fz_config_def set_fz_config_def sample_analyzer_def sample_converter_def
      is_on_constructor_blocklist_def directive_matches_def nested_config_def ns_only_config_def enum_style_of_def Let_def)

lemma uncopyable_members:
  assumes "mem_destructor_is_trivial s" "mem_default_constructor s = NotPresent" "mem_const_copy_constructor s = NotPresent"
    "mem_move_constructor s = NotPresent"
  shows "synthesize_members get_hash ok n [self_ty] [(self_ty, s)] (v, []) sample_analyzer = Some ((v, [self_ty]), sample_analyzer)"
  by (simp add: synthesize_for_class_def sample_synthesizes st_bind_def st_return_def synthesize_if_def
      implicit_default_constructor_needed_def implicit_move_constructor_needed_def implicit_const_copy_constructor_needed_def
      exists_implicit_def destructor_would_do_nothing_def assms iset_insert_def)


end
