(* ===== verification/FunctionPasses.thy ===== *)
theory FunctionPasses imports SpecialMembers begin

text \<open>
  The passes \<^verbatim>\<open>FnAnalyzer::analyze_functions\<close> of \<^verbatim>\<open>analysis/fun/mod.rs\<close> goes through, in its order: the
  functions bindgen reported; members brought in by using-declarations and inherited; the members of
  instantiations of class templates; notes for member function templates and operators; special members;
  and the constructors of peers. What \<^verbatim>\<open>syn\<close> makes of the text of a parameter or of a return type is
  a pair of arguments, \<open>parse_fn_arg\<close> and \<open>parse_type\<close>.
\<close>

section \<open>Functions and notes that are added\<close>

fun add_functions ::
    "(include_cpp_config \<Rightarrow> nat) \<Rightarrow> (string \<Rightarrow> bool) \<Rightarrow> nat \<Rightarrow> (api_name \<times> func_to_convert) list \<Rightarrow> fn_phase1_apis \<Rightarrow>
     fn_phase1_apis st" where
  "add_functions get_hash ok n [] results = st_return results"
| "add_functions get_hash ok n ((name, fn) # rest) results =
     st_bind (analyze_and_add get_hash ok n name fn results Regular None) (\<lambda>(_, results).
     add_functions get_hash ok n rest results)"

text \<open>An identifier for a note, from a stem, that no item has.\<close>

definition note_ident :: "qualified_name \<Rightarrow> string \<Rightarrow> qualified_name list \<Rightarrow> (ident \<times> qualified_name list) option" where
  "note_ident self_ty item taken =
     (let stem = get_final_item self_ty @ ''_'' @ item;
          name_of = (\<lambda>c. QualifiedName_new (get_namespace self_ty) (make_ident c))
      in map_option
           (\<lambda>k. (make_ident (note_candidate stem k), iset_insert (name_of (note_candidate stem k)) taken))
           (first_free (note_candidate stem) (\<lambda>c. name_of c \<in> set taken) 0))"

definition names_taken :: "fn_phase1_apis \<Rightarrow> fn_analyzer \<Rightarrow> qualified_name list" where
  "names_taken v me =
     fold iset_insert (map Api_name (apis v) @ map Api_name (apis (fz_extra_apis me))) []"

text \<open>A note takes a number from the tracker the methods of its class are numbered by.\<close>

definition push_method_note ::
    "qualified_name \<Rightarrow> string \<Rightarrow> string option \<Rightarrow> api_name \<Rightarrow> convert_error \<Rightarrow> fn_phase1_apis \<Rightarrow> fn_phase1_apis st" where
  "push_method_note self_ty rust_name cpp_declared_name name err results =
     st_bind (fz_get_overload_name (get_namespace self_ty) (get_final_item self_ty) rust_name cpp_declared_name)
       (\<lambda>(rust_name, _).
     st_ask (\<lambda>me. apivec_push results
       (Api_IgnoredItem name err (Some (error_context_for_method (fz_generic_types me) self_ty rust_name)))))"

definition declared_name_of :: "api_name \<Rightarrow> string option" where
  "declared_name_of name = map_option for_validation (an_cpp_name name)"

section \<open>Imported members\<close>

definition add_using_declaration_imports ::
    "(include_cpp_config \<Rightarrow> nat) \<Rightarrow> (string \<Rightarrow> bool) \<Rightarrow> nat \<Rightarrow> fn_phase1_apis \<Rightarrow> fn_phase1_apis st" where
  "add_using_declaration_imports get_hash ok n v =
     st_bind (st_ask (\<lambda>me. Some (using_declaration_imports (fz_using_declarations_by_base me) (apis v)))) (\<lambda>imports.
     add_functions get_hash ok n (map snd imports) v)"

definition add_inherited_member_imports ::
    "(include_cpp_config \<Rightarrow> nat) \<Rightarrow> (string \<Rightarrow> bool) \<Rightarrow> nat \<Rightarrow> fn_phase1_apis \<Rightarrow> fn_phase1_apis st" where
  "add_inherited_member_imports get_hash ok n v =
     st_bind (st_ask (\<lambda>me.
         inherited_imports get_hash (fz_config me) (fz_nested_cpp_names me) (fz_ancestry me) (fz_generic_types me)
           (fz_types_in_anonymous_namespace me) (fz_scoped_enums me) (apis v))) (\<lambda>found.
     st_bind (add_functions get_hash ok n (ims_imports found) v) (\<lambda>results me.
       map_option (\<lambda>(results, trackers). (results, me\<lparr>fz_overload_trackers_by_mod := trackers\<rparr>))
         (add_declined_notes ok (fz_generic_types me) (ims_declined found) (names_taken results me)
           (fz_overload_trackers_by_mod me) results)))"

section \<open>Members of instantiations\<close>

fun parse_arguments :: "(string \<Rightarrow> fn_arg option) \<Rightarrow> string list \<Rightarrow> (convert_error, fn_arg list) result" where
  "parse_arguments parse_fn_arg [] = Inr []"
| "parse_arguments parse_fn_arg (argument # rest) =
     (case parse_fn_arg argument of
        None \<Rightarrow> Inl (MemberError (TemplateMemberSignatureNotRust argument))
      | Some arg \<Rightarrow> map_sum id (Cons arg) (parse_arguments parse_fn_arg rest))"

definition parse_return_type ::
    "(string \<Rightarrow> rust_type option) \<Rightarrow> string option \<Rightarrow> (convert_error, rust_type option) result" where
  "parse_return_type parse_type return_type =
     (case return_type of
        None \<Rightarrow> Inr None
      | Some txt \<Rightarrow>
          (case parse_type txt of
             None \<Rightarrow> Inl (MemberError (TemplateMemberSignatureNotRust txt))
           | Some ty \<Rightarrow> Inr (Some ty)))"

text \<open>The receiver is the one part of the signature that names the class; bindgen reports the rest.\<close>

definition instantiation_receiver :: "qualified_name \<Rightarrow> template_member_function \<Rightarrow> fn_arg list" where
  "instantiation_receiver self_ty member =
     (if tmf_kind member = CppKind_Static then []
      else [FnArg_Typed ''this'' (Type_Ptr (\<not> tmf_is_const member) (Type_Path (to_type_path self_ty)))])"

definition virtualness_of :: "cpp_method_kind \<Rightarrow> virtualness option" where
  "virtualness_of kind =
     (case kind of
        CppKind_Virtual pure_virtual \<Rightarrow> Some (if pure_virtual then PureVirtual else Virtual)
      | _ \<Rightarrow> None)"

definition instantiation_call ::
    "qualified_name \<Rightarrow> template_member_function \<Rightarrow> cpp_original_name \<Rightarrow> cpp_function_body \<times> cpp_function_kind" where
  "instantiation_call self_ty member cpp_name =
     (if tmf_kind member = CppKind_Static
      then (StaticMethodCall (get_namespace self_ty) (make_ident (get_final_item self_ty)) (to_effective_name cpp_name),
            CppFunction_Function)
      else (FunctionCall Namespace_new (to_effective_name cpp_name), CppFunction_Method))"

definition template_member_fn ::
    "(string \<Rightarrow> fn_arg option) \<Rightarrow> (string \<Rightarrow> rust_type option) \<Rightarrow> qualified_name \<Rightarrow> template_member_function \<Rightarrow>
     ident \<Rightarrow> cpp_original_name \<Rightarrow> (convert_error, func_to_convert) result" where
  "template_member_fn parse_fn_arg parse_type self_ty member idt cpp_name =
     (case tmf_signature member of
        None \<Rightarrow> Inl (MemberError TemplateMemberWithDependentSignature)
      | Some signature \<Rightarrow>
          (case parse_arguments parse_fn_arg (tms_arguments signature) of
             Inl e \<Rightarrow> Inl e
           | Inr arguments \<Rightarrow>
               (case parse_return_type parse_type (tms_return_type signature) of
                  Inl e \<Rightarrow> Inl e
                | Inr output \<Rightarrow>
                    Inr ((synthesized_fn idt (instantiation_receiver self_ty member @ arguments) output)
                      \<lparr>fc_variadic := tms_is_variadic signature,
                       fc_virtualness := virtualness_of (tmf_kind member),
                       fc_special_member := tmf_special_member member,
                       fc_method_kind := Some (tmf_kind member),
                       fc_original_name := Some cpp_name,
                       fc_self_ty := Some self_ty,
                       fc_synthetic_cpp := Some (instantiation_call self_ty member cpp_name),
                       fc_is_deleted := tmf_explicitness member,
                       fc_deprecation := tmf_deprecation member,
                       fc_ref_qualifier := tmf_ref_qualifier member\<rparr>))))"

datatype instantiation_member =
    Bind api_name func_to_convert qualified_name string
  | Refuse api_name qualified_name string convert_error

definition is_bound_member :: "template_member_function \<Rightarrow> bool" where
  "is_bound_member member \<longleftrightarrow>
     tmf_visibility member = Public \<and>
     (case tmf_kind member of
        CppKind_Constructor \<Rightarrow> False
      | CppKind_Destructor \<Rightarrow> False
      | CppKind_VirtualDestructor _ \<Rightarrow> False
      | _ \<Rightarrow> True)"

definition instantiation_member_of ::
    "(string \<Rightarrow> bool) \<Rightarrow> (string \<Rightarrow> fn_arg option) \<Rightarrow> (string \<Rightarrow> rust_type option) \<Rightarrow> qualified_name \<Rightarrow>
     template_member_function \<Rightarrow> ident \<Rightarrow> instantiation_member" where
  "instantiation_member_of ok parse_fn_arg parse_type self_ty member idt =
     (let cpp_name = from_template_member_function_name (tmf_name member);
          name = ApiName_new_with_cpp_name (get_namespace self_ty) idt (Some cpp_name);
          rust_name = ideal_rust_name ok idt (Some cpp_name)
      in case template_member_fn parse_fn_arg parse_type self_ty member idt cpp_name of
           Inr fn \<Rightarrow> Bind name fn self_ty rust_name
         | Inl err \<Rightarrow> Refuse name self_ty rust_name err)"

text \<open>bindgen numbers no overload it does not emit, so the identifiers are told apart here.\<close>

fun instantiation_members ::
    "(string \<Rightarrow> bool) \<Rightarrow> (string \<Rightarrow> fn_arg option) \<Rightarrow> (string \<Rightarrow> rust_type option) \<Rightarrow> qualified_name \<Rightarrow>
     template_member_function list \<Rightarrow> string list \<Rightarrow> instantiation_member list option" where
  "instantiation_members ok parse_fn_arg parse_type self_ty [] idents = Some []"
| "instantiation_members ok parse_fn_arg parse_type self_ty (member # rest) idents =
     (if \<not> is_bound_member member then instantiation_members ok parse_fn_arg parse_type self_ty rest idents
      else let candidate = note_candidate (get_final_item self_ty @ ''_'' @ tmf_name member) in
           Option.bind (first_free candidate (\<lambda>c. c \<in> set idents) 0) (\<lambda>k.
           map_option
             (Cons (instantiation_member_of ok parse_fn_arg parse_type self_ty member (make_ident (candidate k))))
             (instantiation_members ok parse_fn_arg parse_type self_ty rest (iset_insert (candidate k) idents))))"

definition members_of_api ::
    "(string \<Rightarrow> bool) \<Rightarrow> (string \<Rightarrow> fn_arg option) \<Rightarrow> (string \<Rightarrow> rust_type option) \<Rightarrow> fn_analyzer \<Rightarrow>
     fn_pre_phase1 \<Rightarrow> instantiation_member list option" where
  "members_of_api ok parse_fn_arg parse_type me api =
     (if Api_name api \<notin> set (fz_instantiable_concrete_types me) then Some []
      else Option.bind (plain_instantiation api) (\<lambda>template.
             case Option.bind template (map_of (fz_template_member_functions me)) of
               None \<Rightarrow> Some []
             | Some members \<Rightarrow> instantiation_members ok parse_fn_arg parse_type (Api_name api) members []))"

definition wanted_name :: "instantiation_member \<Rightarrow> qualified_name \<times> string" where
  "wanted_name member =
     (case member of
        Bind name fn self_ty rust_name \<Rightarrow> (self_ty, rust_name)
      | Refuse name self_ty rust_name err \<Rightarrow> (self_ty, rust_name))"

definition reserve_wanted_names :: "instantiation_member list \<Rightarrow> overload_trackers \<Rightarrow> overload_trackers" where
  "reserve_wanted_names members trackers =
     fold (\<lambda>(self_ty, rust_name) m.
             let ns = get_namespace self_ty
             in imap_insert ns (reserve (tracker_in m ns) (Some (get_final_item self_ty)) rust_name) m)
       (map wanted_name members) trackers"

fun add_instantiation_members ::
    "(include_cpp_config \<Rightarrow> nat) \<Rightarrow> (string \<Rightarrow> bool) \<Rightarrow> nat \<Rightarrow> instantiation_member list \<Rightarrow> fn_phase1_apis \<Rightarrow>
     fn_phase1_apis st" where
  "add_instantiation_members get_hash ok n [] results = st_return results"
| "add_instantiation_members get_hash ok n (member # rest) results =
     st_bind
       (case member of
          Bind name fn self_ty rust_name \<Rightarrow>
            st_bind (analyze_and_add get_hash ok n name fn results Regular None) (\<lambda>(_, results). st_return results)
        | Refuse name self_ty rust_name err \<Rightarrow>
            push_method_note self_ty rust_name (declared_name_of name) name err results)
       (add_instantiation_members get_hash ok n rest)"

definition add_template_instantiation_members ::
    "(include_cpp_config \<Rightarrow> nat) \<Rightarrow> (string \<Rightarrow> bool) \<Rightarrow> (string \<Rightarrow> fn_arg option) \<Rightarrow> (string \<Rightarrow> rust_type option) \<Rightarrow>
     nat \<Rightarrow> fn_phase1_apis \<Rightarrow> fn_phase1_apis st" where
  "add_template_instantiation_members get_hash ok parse_fn_arg parse_type n v = (\<lambda>me.
     if fz_template_member_functions me = [] then Some (v, me)
     else Option.bind (those (map (members_of_api ok parse_fn_arg parse_type me) (apis v))) (\<lambda>found.
          let members = concat found in
          add_instantiation_members get_hash ok n members v
            (me\<lparr>fz_overload_trackers_by_mod := reserve_wanted_names members (fz_overload_trackers_by_mod me)\<rparr>)))"

section \<open>Notes for what no function is made of\<close>

text \<open>
  The class a note hangs off and the class its member is declared by, which differ for an instantiation.
\<close>

definition note_owners ::
    "fn_analyzer \<Rightarrow> fn_pre_phase1 \<Rightarrow> (qualified_name \<times> qualified_name) list option" where
  "note_owners me api =
     (case api of
        Api_Struct name details analysis \<Rightarrow>
          Some (if an_name name \<in> set (fz_generic_types me) then [] else [(an_name name, an_name name)])
      | _ \<Rightarrow>
          if Api_name api \<notin> set (fz_instantiable_concrete_types me) then Some []
          else map_option (\<lambda>template. map (Pair (Api_name api)) (option_list template)) (plain_instantiation api))"

record member_note =
  mn_name :: api_name
  mn_self_ty :: qualified_name
  mn_rust_name :: string
  mn_error :: convert_error

definition template_error :: "bool \<Rightarrow> nat \<Rightarrow> convert_error" where
  "template_error from_class_template template_parameters =
     MemberError (if from_class_template then MemberFunctionTemplateOfClassTemplate template_parameters
                  else MemberFunctionTemplate template_parameters)"

definition is_noted_template :: "member_function_template \<Rightarrow> bool" where
  "is_noted_template member \<longleftrightarrow> mft_visibility member = Public \<and> mft_kind member \<noteq> CppKind_Constructor"

fun template_notes ::
    "(string \<Rightarrow> bool) \<Rightarrow> qualified_name \<Rightarrow> bool \<Rightarrow> member_function_template list \<Rightarrow>
     qualified_name list \<Rightarrow> (member_note list \<times> qualified_name list) option" where
  "template_notes ok self_ty from_class_template [] taken = Some ([], taken)"
| "template_notes ok self_ty from_class_template (member # rest) taken =
     (if \<not> is_noted_template member then template_notes ok self_ty from_class_template rest taken
      else let cpp_name = from_member_function_template_name (mft_name member) in
           case note_rust_name ok cpp_name of
             None \<Rightarrow> template_notes ok self_ty from_class_template rest taken
           | Some rust_name \<Rightarrow>
               Option.bind (note_ident self_ty (mft_name member) taken) (\<lambda>(idt, taken).
               map_option
                 (map_prod
                   (Cons \<lparr>mn_name = ApiName_new_with_cpp_name (get_namespace self_ty) idt (Some cpp_name),
                          mn_self_ty = self_ty, mn_rust_name = rust_name,
                          mn_error = template_error from_class_template (mft_template_parameters member)\<rparr>) id)
                 (template_notes ok self_ty from_class_template rest taken)))"

fun all_template_notes ::
    "(string \<Rightarrow> bool) \<Rightarrow> (qualified_name, member_function_template list) index_map \<Rightarrow>
     (qualified_name \<times> qualified_name) list \<Rightarrow> qualified_name list \<Rightarrow> member_note list option" where
  "all_template_notes ok templates [] taken = Some []"
| "all_template_notes ok templates ((self_ty, declarer) # rest) taken =
     (case map_of templates declarer of
        None \<Rightarrow> all_template_notes ok templates rest taken
      | Some members \<Rightarrow>
          Option.bind (template_notes ok self_ty (self_ty \<noteq> declarer) members taken) (\<lambda>(notes, taken).
          map_option (append notes) (all_template_notes ok templates rest taken)))"

fun push_member_notes :: "(api_name \<Rightarrow> string option) \<Rightarrow> member_note list \<Rightarrow> fn_phase1_apis \<Rightarrow> fn_phase1_apis st" where
  "push_member_notes key [] results = st_return results"
| "push_member_notes key (note # rest) results =
     st_bind (push_method_note (mn_self_ty note) (mn_rust_name note) (key (mn_name note)) (mn_name note) (mn_error note) results)
       (push_member_notes key rest)"

definition add_member_function_template_notes :: "(string \<Rightarrow> bool) \<Rightarrow> fn_phase1_apis \<Rightarrow> fn_phase1_apis st" where
  "add_member_function_template_notes ok v = (\<lambda>me.
     if fz_member_function_templates me = [] then Some (v, me)
     else Option.bind (those (map (note_owners me) (apis v))) (\<lambda>owners.
          Option.bind (all_template_notes ok (fz_member_function_templates me) (concat owners) (names_taken v me)) (\<lambda>notes.
          push_member_notes declared_name_of notes v me)))"

text \<open>A name is made up for an operator, which has none in Rust.\<close>

definition operator_notes ::
    "qualified_name \<Rightarrow> conversion_function list \<times> call_operator list \<Rightarrow> (qualified_name \<times> string \<times> convert_error) list" where
  "operator_notes self_ty = (\<lambda>(conversions, calls).
     map (\<lambda>c. (self_ty, ''conversion_operator'', MemberError (ConversionOperator (cvf_target_type c))))
       (filter (\<lambda>c. cvf_visibility c = Public) conversions)
     @ map (\<lambda>c. (self_ty, ''call_operator'', MemberError (CallOperator (co_parameters c))))
         (filter (\<lambda>c. co_visibility c = Public) calls))"

definition operators_to_note :: "fn_analyzer \<Rightarrow> fn_pre_phase1 \<Rightarrow> (qualified_name \<times> string \<times> convert_error) list" where
  "operators_to_note me api =
     (case struct_owner api of
        None \<Rightarrow> []
      | Some self_ty \<Rightarrow>
          if self_ty \<in> set (fz_generic_types me) then []
          else case map_of (fz_operators me) self_ty of Some ops \<Rightarrow> operator_notes self_ty ops | None \<Rightarrow> [])"

fun push_operator_notes ::
    "(qualified_name \<times> string \<times> convert_error) list \<Rightarrow> qualified_name list \<Rightarrow> fn_phase1_apis \<Rightarrow> fn_phase1_apis st" where
  "push_operator_notes [] taken results = st_return results"
| "push_operator_notes ((self_ty, stem_name, err) # rest) taken results =
     st_bind (st_ask (\<lambda>_. note_ident self_ty stem_name taken)) (\<lambda>(idt, taken).
     st_bind (push_method_note self_ty stem_name None (ApiName_new (get_namespace self_ty) idt) err results)
       (push_operator_notes rest taken))"

definition add_operator_notes :: "fn_phase1_apis \<Rightarrow> fn_phase1_apis st" where
  "add_operator_notes v = (\<lambda>me.
     if fz_operators me = [] then Some (v, me)
     else push_operator_notes (concat (map (operators_to_note me) (apis v))) (names_taken v me) v me)"

section \<open>The whole analysis\<close>

definition function_conversions ::
    "(include_cpp_config \<Rightarrow> nat) \<Rightarrow> (string \<Rightarrow> bool) \<Rightarrow> nat \<Rightarrow>
     (typedef_analysis, pod_analysis, unit, unit,
      typedef_analysis, pod_analysis, fn_analysis, unit, fn_analyzer) stateful_conversions" where
  "function_conversions get_hash ok n =
     \<lparr>func_with = (\<lambda>name fn _ me.
        map_option (\<lambda>(made, me). (Inr made, me)) (analyze_foreign_fn_and_subclasses get_hash ok n name fn me)),
      struct_with = (\<lambda>name details a. keeping (struct_unchanged name details a)),
      enum_with = (\<lambda>name item. keeping (enum_unchanged name item)),
      typedef_with = (\<lambda>name item old a. keeping (typedef_unchanged name item old a)),
      subclass_with = (\<lambda>name superclass a. keeping (subclass_unchanged name superclass a))\<rparr>"

definition attach_surfaces_made :: "('td, 'st, 'fn, 'sub) api_vec \<Rightarrow> ('td, 'st, 'fn, 'sub) api_vec st" where
  "attach_surfaces_made v = (\<lambda>me.
     map_option (\<lambda>(v, tc). (v, me\<lparr>fz_type_converter := tc\<rparr>)) (attach_deferred_holder_surfaces (fz_type_converter me) v))"

definition analyze_all_functions ::
    "(include_cpp_config \<Rightarrow> nat) \<Rightarrow> (string \<Rightarrow> bool) \<Rightarrow> (string \<Rightarrow> fn_arg option) \<Rightarrow> (string \<Rightarrow> rust_type option) \<Rightarrow>
     nat \<Rightarrow> pod_phase_apis \<Rightarrow> fn_pre_phase3_apis st" where
  "analyze_all_functions get_hash ok parse_fn_arg parse_type n v =
     st_bind (convert_apis_with (function_conversions get_hash ok n) v ApiVec_new) (\<lambda>v.
     st_bind (attach_surfaces_made v) (\<lambda>v.
     st_bind (add_using_declaration_imports get_hash ok n v) (\<lambda>v.
     st_bind (add_inherited_member_imports get_hash ok n v) (\<lambda>v.
     st_bind (add_template_instantiation_members get_hash ok parse_fn_arg parse_type n v) (\<lambda>v.
     st_bind (add_member_function_template_notes ok v) (\<lambda>v.
     st_bind (add_operator_notes v) (\<lambda>v.
     st_bind (add_constructors_present get_hash ok n v) (\<lambda>v.
     st_bind (add_subclass_constructors get_hash ok n v) (\<lambda>v.
     st_bind (st_ask (\<lambda>me. add_extra_apis v (apis (fz_extra_apis me)))) (\<lambda>v.
     attach_surfaces_made v))))))))))"

text \<open>The configuration, with the directives that were asked about, is handed on with the list.\<close>

definition analyze_functions ::
    "(include_cpp_config \<Rightarrow> nat) \<Rightarrow> (string \<Rightarrow> bool) \<Rightarrow> (string \<Rightarrow> fn_arg option) \<Rightarrow> (string \<Rightarrow> rust_type option) \<Rightarrow>
     nat \<Rightarrow> pod_phase_apis \<Rightarrow> unsafe_policy \<Rightarrow> include_cpp_config \<Rightarrow> parse_callback_results \<Rightarrow> bool \<Rightarrow>
     (fn_pre_phase3_apis \<times> include_cpp_config) option" where
  "analyze_functions get_hash ok parse_fn_arg parse_type n v unsafe_pol config p force_wrapper_generation =
     Option.bind (FnAnalyzer_new ok n v unsafe_pol config p force_wrapper_generation) (\<lambda>me.
     map_option (\<lambda>(v, me). (v, fz_config me))
       (analyze_all_functions get_hash ok parse_fn_arg parse_type n v me))"

section \<open>Notes for operators\<close>

lemma note_ident_found:
  obtains idt taken' where "note_ident self_ty item taken = Some (idt, taken')"
    "QualifiedName_new (get_namespace self_ty) idt \<notin> set taken"
    "set taken' = insert (QualifiedName_new (get_namespace self_ty) idt) (set taken)"
proof -
  let ?stem = "get_final_item self_ty @ ''_'' @ item"
  obtain k where k: "first_free (note_candidate ?stem)
      (\<lambda>c. QualifiedName_new (get_namespace self_ty) (make_ident c) \<in> set taken) 0 = Some k"
    and "QualifiedName_new (get_namespace self_ty) (make_ident (note_candidate ?stem k)) \<notin> set taken"
    using note_name_found by blast
  then show thesis by (intro that) (auto simp: note_ident_def Let_def)
qed

lemma method_note_pushed:
  assumes "apivec_wf results" and "an_name name \<notin> set (names results)" and "err \<noteq> FunctionHiddenByType"
  obtains rust_name' me' where
    "push_method_note self_ty rust_name key name err results me =
       Some (apivec_insert results (Api_IgnoredItem name err
         (Some (error_context_for_method (fz_generic_types me) self_ty rust_name'))), me')"
    "apivec_wf (apivec_insert results (Api_IgnoredItem name err
         (Some (error_context_for_method (fz_generic_types me) self_ty rust_name'))))"
    "fz_generic_types me' = fz_generic_types me" "fz_extra_apis me' = fz_extra_apis me"
proof -
  obtain rust_name' k trackers' where t: "get_overload_name (fz_overload_trackers_by_mod me) (get_namespace self_ty)
      (get_final_item self_ty) rust_name key = Some ((rust_name', k), trackers')"
    using overload_name_found by (metis surj_pair)
  let ?api = "Api_IgnoredItem name err (Some (error_context_for_method (fz_generic_types me) self_ty rust_name')) :: fn_pre_phase1"
  have fresh: "\<not> already_contains results (Api_name ?api)" and ok: "stub_ok ?api"
    using assms(2,3) by (simp_all add: already_contains_def Api_name_def stub_ok_def is_displaced_function_def split: convert_error.split)
  then have "apivec_push results ?api = Some (apivec_insert results ?api)" by (simp add: apivec_push.simps Let_def)
  then show thesis using t apivec_wf_insert[OF assms(1) fresh ok]
    by (intro that[of rust_name' "me\<lparr>fz_overload_trackers_by_mod := trackers'\<rparr>"]) (auto simp: push_method_note_def fz_get_overload_name_def)
qed

definition notes_operator :: "qualified_name list \<Rightarrow> qualified_name \<times> string \<times> convert_error \<Rightarrow> fn_pre_phase1 \<Rightarrow> bool" where
  "notes_operator generic_types = (\<lambda>(self_ty, stem_name, err) api.
     \<exists>idt rust_name. api = Api_IgnoredItem (ApiName_new (get_namespace self_ty) idt) err
       (Some (error_context_for_method generic_types self_ty rust_name)))"

lemma operator_notes_pushed:
  assumes "apivec_wf results" and "set (names results) \<subseteq> set taken"
    and "\<forall>(self_ty, stem_name, err) \<in> set ops. err \<noteq> FunctionHiddenByType"
  shows "\<exists>results' me' added. push_operator_notes ops taken results me = Some (results', me') \<and>
    apis results' = apis results @ added \<and> list_all2 (notes_operator (fz_generic_types me)) ops added \<and>
    apivec_wf results' \<and> Api_name ` set added \<inter> set taken = {}"
  using assms
proof (induction ops arbitrary: results taken me)
  case (Cons op ops)
  obtain self_ty stem_name err where op: "op = (self_ty, stem_name, err)" by (cases op)
  obtain idt taken' where i: "note_ident self_ty stem_name taken = Some (idt, taken')"
    "QualifiedName_new (get_namespace self_ty) idt \<notin> set taken"
    "set taken' = insert (QualifiedName_new (get_namespace self_ty) idt) (set taken)"
    by (rule note_ident_found)
  let ?name = "ApiName_new (get_namespace self_ty) idt"
  have named: "an_name ?name = QualifiedName_new (get_namespace self_ty) idt"
    by (simp add: ApiName_new_def new_from_qualified_name_def new_from_qualified_name_and_cpp_name_def)
  with i(2) Cons.prems(2) have "an_name ?name \<notin> set (names results)" by auto
  moreover have "err \<noteq> FunctionHiddenByType" using Cons.prems(3) op by auto
  ultimately obtain rust_name' me1 where
    one: "push_method_note self_ty stem_name None ?name err results me =
       Some (apivec_insert results (Api_IgnoredItem ?name err
         (Some (error_context_for_method (fz_generic_types me) self_ty rust_name'))), me1)"
    and wf: "apivec_wf (apivec_insert results (Api_IgnoredItem ?name err
         (Some (error_context_for_method (fz_generic_types me) self_ty rust_name'))))"
    and same: "fz_generic_types me1 = fz_generic_types me"
    using method_note_pushed[OF Cons.prems(1)] by metis
  let ?api = "Api_IgnoredItem ?name err (Some (error_context_for_method (fz_generic_types me) self_ty rust_name'))"
  have "set (names (apivec_insert results ?api)) \<subseteq> set taken'"
    using Cons.prems(2) i(3) named by (auto simp: Api_name_def)
  from Cons.IH[OF wf this, of me1] Cons.prems(3) obtain results' me' added where
    rest: "push_operator_notes ops taken' (apivec_insert results ?api) me1 = Some (results', me')"
    "apis results' = apis results @ ?api # added" "list_all2 (notes_operator (fz_generic_types me)) ops added"
    "apivec_wf results'" "Api_name ` set added \<inter> set taken' = {}"
    by (auto simp: same)
  have "push_operator_notes (op # ops) taken results me = Some (results', me')"
    using i(1) one rest(1) by (auto simp: op)
  moreover have "notes_operator (fz_generic_types me) op ?api" by (auto simp: notes_operator_def op)
  moreover have "Api_name ` set (?api # added) \<inter> set taken = {}"
    using rest(5) i(2,3) named by (auto simp: Api_name_def)
  ultimately show ?case using rest(2-4)
    by (intro exI[of _ results'] exI[of _ me'] exI[of _ "?api # added"]) simp
qed simp

text \<open>
  C26: operators are noted and displace nothing. The notes left in place of conversion and call operators
  are one for each public one of a class without parameters, in the order of the classes, each with the
  operator's own reason and named as a method of the class; every search for a free name ends; the
  items there were stay as they are, and no note takes the name of one of them, of a concrete type made
  up along the way, or of another note.
\<close>

theorem operators_are_noted:
  assumes "apivec_wf v"
  shows "\<exists>results me' added. add_operator_notes v me = Some (results, me') \<and> apis results = apis v @ added \<and>
    list_all2
      (\<lambda>(self_ty, stem_name, err) note. \<exists>idt rust_name. note =
         Api_IgnoredItem (ApiName_new (get_namespace self_ty) idt) err
           (Some (error_context_for_method (fz_generic_types me) self_ty rust_name)))
      (concat (map (operators_to_note me) (apis v))) added \<and>
    distinct (map Api_name (apis results)) \<and>
    Api_name ` set added \<inter> (Api_name ` set (apis v) \<union> Api_name ` set (apis (fz_extra_apis me))) = {}"
proof (cases "fz_operators me = []")
  case True
  then have "operators_to_note me api = []" for api by (simp add: operators_to_note_def split: option.splits)
  then have "concat (map (operators_to_note me) (apis v)) = []" by simp
  with True collected.unique[OF assms] show ?thesis by (simp add: add_operator_notes_def)
next
  case False
  let ?ops = "concat (map (operators_to_note me) (apis v))"
  have taken: "set (names_taken v me) = Api_name ` set (apis v) \<union> Api_name ` set (apis (fz_extra_apis me))"
    by (auto simp: names_taken_def)
  with assms have known: "set (names v) \<subseteq> set (names_taken v me)" by (auto simp: apivec_wf_def)
  have reasons: "\<forall>(self_ty, stem_name, err) \<in> set ?ops. err \<noteq> FunctionHiddenByType"
    by (auto simp: operators_to_note_def operator_notes_def split: option.splits if_splits)
  from operator_notes_pushed[OF assms known reasons, of me] obtain results me' added where r:
    "push_operator_notes ?ops (names_taken v me) v me = Some (results, me')" "apis results = apis v @ added"
    "list_all2 (notes_operator (fz_generic_types me)) ?ops added" "apivec_wf results"
    "Api_name ` set added \<inter> set (names_taken v me) = {}" by blast
  with False collected.unique[OF r(4)] taken show ?thesis
    by (intro exI[of _ results] exI[of _ me'] exI[of _ added])
       (simp add: add_operator_notes_def notes_operator_def[abs_def])
qed

lemma operators_are_noted_witness:
  "\<exists>results me' note. add_operator_notes
       (uncopyable_class :: fn_phase1_apis)
       (sample_analyzer\<lparr>fz_operators := [(QualifiedName [''ns''] ''S'', ([\<lparr>cvf_target_type = ''bool'', cvf_visibility = Public\<rparr>], []))]\<rparr>) =
     Some (results, me') \<and> apis results = apis uncopyable_class @ [note] \<and> distinct (map Api_name (apis results))"
proof -
  let ?me = "sample_analyzer\<lparr>fz_operators :=
      [(QualifiedName [''ns''] ''S'', ([\<lparr>cvf_target_type = ''bool'', cvf_visibility = Public\<rparr>], []))]\<rparr>"
  have wf: "apivec_wf uncopyable_class"
    by (simp add: apivec_wf_def uncopyable_simps sample_simps Api_name_def stub_ok_def is_displaced_function_def Let_def)
  have "concat (map (operators_to_note ?me) (apis uncopyable_class)) =
      [(QualifiedName [''ns''] ''S'', ''conversion_operator'', MemberError (ConversionOperator ''bool''))]"
    by (simp add: uncopyable_simps sample_simps operators_to_note_def operator_notes_def struct_owner_def sample_analyzer_def)
  with operators_are_noted[OF wf, of ?me] show ?thesis by (auto simp: list_all2_Cons1)
qed

end
