(* ===== verification/FieldAccessors.thy ===== *)
theory FieldAccessors imports Statics begin

text \<open>
  Getters for the public data members of a class Rust sees as opaque (\<^verbatim>\<open>analysis/field_accessors.rs\<close>). A
  member comes back by value or as a reference, or its accessor is a note that says why there is none.
\<close>

definition ACCESSOR_SUFFIX :: string where
  "ACCESSOR_SUFFIX = ''_autocxx_field''"

section \<open>What is known of types\<close>

record type_facts =
  tyf_pod_safe :: "qualified_name list"
  tyf_enums :: "qualified_name list"
  tyf_nameable :: "qualified_name list"

datatype shape = ByValue | ByReference

datatype refusal = Refusal_Kind unrepresentable_member | NotNameable qualified_name

fun refusal_error :: "refusal \<Rightarrow> string \<Rightarrow> convert_error" where
  "refusal_error (Refusal_Kind kind) member_name = MemberError (UnrepresentableDataMember member_name kind)"
| "refusal_error (NotNameable ty) member_name = MemberError (DataMemberOfNonAllowlistedType member_name ty)"

definition nameable_types ::
    "(include_cpp_config \<Rightarrow> nat) \<Rightarrow> include_cpp_config \<Rightarrow> (qualified_name, string) index_map \<Rightarrow>
     ('td, 'st, 'fn, 'sub) api list \<Rightarrow> qualified_name list option" where
  "nameable_types get_hash config nested l =
     map_option
       (\<lambda>listed. fold iset_insert
          (listed @ List.map_filter (\<lambda>api. case api of
               Api_ConcreteType _ _ _ _ _ _ \<Rightarrow> Some (Api_name api) | _ \<Rightarrow> None) l) [])
       (filter_option (nested_is_on_allowlist get_hash config nested) (map Api_name l))"

section \<open>One member\<close>

definition copyable_by_construction :: "type_facts \<Rightarrow> qualified_name \<Rightarrow> bool" where
  "copyable_by_construction facts tn \<longleftrightarrow>
     tn \<in> set (tyf_enums facts) \<or> is_known_type known_types tn \<and> \<not> lacks_copy_constructor known_types tn"

definition shape_of_named :: "type_facts \<Rightarrow> bool \<Rightarrow> qualified_name \<Rightarrow> (refusal, shape) result" where
  "shape_of_named facts is_volatile tn =
     (if \<not> is_known_type known_types tn \<and> tn \<notin> set (tyf_nameable facts) then Inl (NotNameable tn)
      else let by_value = copyable_by_construction facts tn \<and> tn \<in> set (tyf_pod_safe facts) in
        if is_volatile then
          (if by_value \<and> (copyable_from_volatile known_types tn \<or> tn \<in> set (tyf_enums facts)) then Inr ByValue
           else Inl (Refusal_Kind Member_Volatile))
        else if by_value then Inr ByValue
        else Inr ByReference)"

definition member_shape :: "item_field \<Rightarrow> field_info \<Rightarrow> type_facts \<Rightarrow> (refusal, shape) result option" where
  "member_shape field info facts =
     (if fi_type_kind info \<in> {Kind_Reference, Kind_MutableReference, Kind_RValueReference}
      then Some (Inl (Refusal_Kind Member_Reference))
      else if (case strip_layout_markers (if_ty field) of Type_Array _ _ \<Rightarrow> True | _ \<Rightarrow> False) \<or>
              (case fi_ty info of Type_Array _ _ \<Rightarrow> True | _ \<Rightarrow> False)
      then Some (Inl (Refusal_Kind Member_Array))
      else if is_pointer_like (fi_ty info) then Some (Inr ByValue)
      else case fi_ty info of
        Type_Path typ \<Rightarrow> map_option (shape_of_named facts (is_volatile_qualified (if_ty field))) (from_type_path typ)
      | _ \<Rightarrow> Some (Inl (Refusal_Kind Unrepresentable)))"

definition accessor_doc :: "string \<Rightarrow> rust_tokens list" where
  "accessor_doc cpp_name =
     [''Reads the C++ data member `'' @ cpp_name @ ''`. autocxx generated this accessor because this type reaches Rust as an opaque one, whose fields Rust may not name.'']"

definition field_getter ::
    "qualified_name \<Rightarrow> qualified_name \<Rightarrow> item_field \<Rightarrow> string \<Rightarrow> shape \<Rightarrow> func_to_convert" where
  "field_getter self_ty name field cpp_name sh =
     (let ty = strip_const_markers (if_ty field);
          ret = (case sh of
              ByValue \<Rightarrow> ty
            | ByReference \<Rightarrow> marked_type ''__bindgen_marker_Reference'' (Type_Ptr False ty))
      in (synthesized_fn (get_final_item name)
            [FnArg_Typed ''this'' (Type_Ptr False (Type_Path (to_type_path self_ty)))] (Some ret))
           \<lparr>fc_doc_attrs := accessor_doc cpp_name, fc_method_kind := Some CppKind_Normal,
            fc_synthetic_cpp := Some (FieldRead cpp_name, CppFunction_Method)\<rparr>)"

definition accessor_stem :: "qualified_name \<Rightarrow> string \<Rightarrow> qualified_name" where
  "accessor_stem self_ty field_name =
     QualifiedName_new (get_namespace self_ty)
       (make_ident (get_final_item self_ty @ ''_'' @ field_name @ ACCESSOR_SUFFIX))"

definition accessor_api ::
    "qualified_name \<Rightarrow> qualified_name \<Rightarrow> string \<Rightarrow> string \<Rightarrow> item_field \<Rightarrow> (refusal, shape) result \<Rightarrow> pod_phase_api" where
  "accessor_api self_ty name field_name cpp_name field outcome =
     (case outcome of
        Inr sh \<Rightarrow>
          Api_Function (new_from_qualified_name_and_cpp_name name (Some (from_data_member_name cpp_name)))
            (field_getter self_ty name field cpp_name sh) ()
      | Inl r \<Rightarrow>
          Api_IgnoredItem (new_from_qualified_name name) (refusal_error r (to_cpp_name self_ty @ ''::'' @ cpp_name))
            (Some (new_for_method (get_final_item self_ty) (make_ident field_name))))"

text \<open>
  \<open>None\<close> is a panic; \<open>Some None\<close> a member that is passed over. The names taken grow by the accessor's.
\<close>

definition accessor_for ::
    "qualified_name \<Rightarrow> struct_details \<Rightarrow> pod_analysis \<Rightarrow> data_member \<Rightarrow> type_facts \<Rightarrow> qualified_name list \<Rightarrow>
     (pod_phase_api option \<times> qualified_name list) option" where
  "accessor_for self_ty details analysis m facts names_taken =
     (if \<not> dm_is_public m \<or> dm_is_bitfield m then Some (None, names_taken)
      else case (dm_name m, dm_cpp_name m) of
        (Some name, Some cpp_name) \<Rightarrow>
          (case (List.find (\<lambda>f. if_ident f = Some name) (is_fields (sd_item details)),
                 List.find (\<lambda>info. fi_name info = Some name) (pa_field_info analysis)) of
             (Some field, Some info) \<Rightarrow>
               Option.bind (free_name_from (accessor_stem self_ty name) names_taken) (\<lambda>api_name.
               map_option
                 (\<lambda>outcome. (Some (accessor_api self_ty api_name name cpp_name field outcome),
                             iset_insert api_name names_taken))
                 (member_shape field info facts))
           | _ \<Rightarrow> Some (None, names_taken))
      | _ \<Rightarrow> Some (None, names_taken))"

section \<open>The pass\<close>

fun accessors_for_members ::
    "qualified_name \<Rightarrow> struct_details \<Rightarrow> pod_analysis \<Rightarrow> type_facts \<Rightarrow> data_member list \<Rightarrow>
     pod_phase_apis \<times> qualified_name list \<Rightarrow> (pod_phase_apis \<times> qualified_name list) option" where
  "accessors_for_members self_ty details analysis facts [] acc = Some acc"
| "accessors_for_members self_ty details analysis facts (m # ms) (accessors, names_taken) =
     (case accessor_for self_ty details analysis m facts names_taken of
        None \<Rightarrow> None
      | Some (None, names_taken) \<Rightarrow>
          accessors_for_members self_ty details analysis facts ms (accessors, names_taken)
      | Some (Some accessor, names_taken) \<Rightarrow>
          Option.bind (apivec_push accessors accessor) (\<lambda>accessors.
            accessors_for_members self_ty details analysis facts ms (accessors, names_taken)))"

fun accessors_loop ::
    "(qualified_name \<Rightarrow> bool option) \<Rightarrow> parse_callback_results \<Rightarrow> type_facts \<Rightarrow> pod_phase_api list \<Rightarrow>
     pod_phase_apis \<times> qualified_name list \<Rightarrow> (pod_phase_apis \<times> qualified_name list) option" where
  "accessors_loop listed p facts [] acc = Some acc"
| "accessors_loop listed p facts (api # rest) acc =
     (case api of
        Api_Struct name details analysis \<Rightarrow>
          if pa_kind analysis = NonPod \<and> pa_num_generics analysis = 0 then
            Option.bind (listed (an_name name)) (\<lambda>on_list.
              if \<not> on_list then accessors_loop listed p facts rest acc
              else Option.bind (data_members p (an_name name)) (\<lambda>members.
                Option.bind (accessors_for_members (an_name name) details analysis facts (or_empty members) acc)
                  (accessors_loop listed p facts rest)))
          else accessors_loop listed p facts rest acc
      | _ \<Rightarrow> accessors_loop listed p facts rest acc)"

definition enums_of :: "('td, 'st, 'fn, 'sub) api list \<Rightarrow> qualified_name list" where
  "enums_of l = map Api_name (filter (\<lambda>api. case api of Api_Enum _ _ \<Rightarrow> True | _ \<Rightarrow> False) l)"

definition add_field_accessors ::
    "(include_cpp_config \<Rightarrow> nat) \<Rightarrow> pod_phase_apis \<Rightarrow> include_cpp_config \<Rightarrow> parse_callback_results \<Rightarrow>
     pod_phase_apis option" where
  "add_field_accessors get_hash v config p =
     (let nested = nested_cpp_names (map name_info (apis v)) in
      Option.bind (pod_safe_types (apis v)) (\<lambda>pod_safe.
      Option.bind (nameable_types get_hash config nested (apis v)) (\<lambda>nameable.
      Option.bind
        (accessors_loop (nested_is_on_allowlist get_hash config nested) p
           \<lparr>tyf_pod_safe = pod_safe, tyf_enums = enums_of (apis v), tyf_nameable = nameable\<rparr>
           (apis v) (ApiVec_new, fold iset_insert (map Api_name (apis v)) []))
        (\<lambda>(accessors, names_taken). apivec_append v accessors))))"


section \<open>What the accessors are\<close>

text \<open>
  A type the accessor's C++ may copy out: a pointer, or a type that is POD and is an enum or one of the known
  types with a copy constructor, and then one that can be read through \<^verbatim>\<open>volatile\<close> if the member is.
\<close>

definition copies_out :: "type_facts \<Rightarrow> item_field \<Rightarrow> field_info \<Rightarrow> bool" where
  "copies_out facts field info \<longleftrightarrow>
     is_pointer_like (fi_ty info) \<or>
     (\<exists>typ tn. fi_ty info = Type_Path typ \<and> from_type_path typ = Some tn \<and> tn \<in> set (tyf_pod_safe facts) \<and>
        (tn \<in> set (tyf_enums facts) \<or>
         is_known_type known_types tn \<and> \<not> lacks_copy_constructor known_types tn \<and>
         (is_volatile_qualified (if_ty field) \<longrightarrow> copyable_from_volatile known_types tn)))"

lemma by_value_copies_out: "member_shape field info facts = Some (Inr ByValue) \<Longrightarrow> copies_out facts field info"
  by (auto simp: member_shape_def shape_of_named_def copyable_by_construction_def copies_out_def Let_def
      split: if_splits rust_type.splits)

text \<open>What an accessor is for: a public member, no bitfield, of an opaque class that takes no parameters.\<close>

inductive accessor_of :: "type_facts \<Rightarrow> pod_phase_api list \<Rightarrow> pod_phase_api \<Rightarrow> bool" for facts l where
  accessor_of: "Api_Struct name details analysis \<in> set l \<Longrightarrow> pa_kind analysis = NonPod \<Longrightarrow>
    pa_num_generics analysis = 0 \<Longrightarrow> dm_is_public (m :: data_member) \<Longrightarrow> \<not> dm_is_bitfield m \<Longrightarrow> dm_name m = Some member \<Longrightarrow>
    dm_cpp_name m = Some cpp_name \<Longrightarrow> field \<in> set (is_fields (sd_item details)) \<Longrightarrow> if_ident field = Some member \<Longrightarrow>
    info \<in> set (pa_field_info analysis) \<Longrightarrow> fi_name info = Some member \<Longrightarrow>
    member_shape field info facts = Some outcome \<Longrightarrow> (outcome = Inr ByValue \<Longrightarrow> copies_out facts field info) \<Longrightarrow>
    accessor_of facts l (accessor_api (an_name name) api_name member cpp_name field outcome)"

definition accessors_ok ::
    "type_facts \<Rightarrow> pod_phase_api list \<Rightarrow> pod_phase_apis \<times> qualified_name list \<Rightarrow> bool" where
  "accessors_ok facts l acc \<longleftrightarrow>
     (case acc of (accessors, taken) \<Rightarrow>
        distinct (map Api_name (apis accessors)) \<and> list_all (accessor_of facts l) (apis accessors) \<and>
        set (names accessors) = Api_name ` set (apis accessors) \<and>
        Api_name ` set l \<union> Api_name ` set (apis accessors) \<subseteq> set taken \<and>
        Api_name ` set l \<inter> Api_name ` set (apis accessors) = {})"

lemma accessor_api_name [simp]: "Api_name (accessor_api self_ty name field_name cpp_name field outcome) = name"
  by (simp add: accessor_api_def Api_name_def new_from_qualified_name_def new_from_qualified_name_and_cpp_name_def
      split: sum.splits)

lemma accessor_for_gives:
  assumes "accessor_for (an_name name) details analysis m facts taken = Some (Some accessor, taken')"
    and "Api_Struct name details analysis \<in> set l" "pa_kind analysis = NonPod" "pa_num_generics analysis = 0"
  shows "accessor_of facts l accessor \<and> Api_name accessor \<notin> set taken \<and>
    taken' = iset_insert (Api_name accessor) taken"
proof -
  from assms(1) obtain member cpp_name field info api_name outcome where
    m: "dm_is_public m" "\<not> dm_is_bitfield m" "dm_name m = Some member" "dm_cpp_name m = Some cpp_name"
    and field: "List.find (\<lambda>f. if_ident f = Some member) (is_fields (sd_item details)) = Some field"
    and info: "List.find (\<lambda>info. fi_name info = Some member) (pa_field_info analysis) = Some info"
    and name: "free_name_from (accessor_stem (an_name name) member) taken = Some api_name"
    and shape: "member_shape field info facts = Some outcome"
    and out: "accessor = accessor_api (an_name name) api_name member cpp_name field outcome"
      "taken' = iset_insert api_name taken"
    by (auto simp: accessor_for_def split: if_splits option.splits Option.bind_splits)
  from field info have "field \<in> set (is_fields (sd_item details))" "if_ident field = Some member"
    "info \<in> set (pa_field_info analysis)" "fi_name info = Some member"
    by (auto simp: find_Some_iff)
  with assms(2,3,4) m shape have "accessor_of facts l accessor"
    unfolding out by (intro accessor_of.intros) (auto intro: by_value_copies_out)
  with free_name_found[of "accessor_stem (an_name name) member" taken] name out show ?thesis by auto
qed

lemma accessor_for_none:
  "accessor_for self_ty details analysis m facts taken = Some (None, taken') \<Longrightarrow> taken' = taken"
  by (auto simp: accessor_for_def split: if_splits option.splits Option.bind_splits)

lemma accessors_for_members_ok:
  assumes "accessors_for_members (an_name name) details analysis facts ms acc = Some acc'" and "accessors_ok facts l acc"
    and "Api_Struct name details analysis \<in> set l" "pa_kind analysis = NonPod" "pa_num_generics analysis = 0"
  shows "accessors_ok facts l acc'"
  using assms(1,2)
proof (induction ms arbitrary: acc)
  case (Cons m ms)
  obtain accessors taken where acc: "acc = (accessors, taken)" by fastforce
  from Cons.prems(1) obtain accessor taken1 where
    one: "accessor_for (an_name name) details analysis m facts taken = Some (accessor, taken1)"
    by (auto simp: acc split: option.splits)
  show ?case
  proof (cases accessor)
    case None
    with one have "taken1 = taken" by (auto dest: accessor_for_none)
    with Cons one None show ?thesis by (simp add: acc)
  next
    case (Some a)
    note new = accessor_for_gives[OF one[unfolded Some] assms(3,4,5)]
    with Cons.prems(2) have "apivec_push accessors a = Some (apivec_insert accessors a)"
      by (auto simp: acc accessors_ok_def apivec_push.simps already_contains_def Let_def)
    moreover have "accessors_ok facts l (apivec_insert accessors a, taken1)"
      using new Cons.prems(2) by (auto simp: acc accessors_ok_def)
    ultimately show ?thesis using Cons one Some by (simp add: acc)
  qed
qed simp

lemma accessors_loop_ok:
  assumes "accessors_loop listed p facts items acc = Some acc'" and "set items \<subseteq> set l" and "accessors_ok facts l acc"
  shows "accessors_ok facts l acc'"
  using assms
proof (induction items arbitrary: acc)
  case (Cons api items)
  then show ?case
    by (auto split: api.splits if_splits Option.bind_splits dest!: accessors_for_members_ok)
qed simp

section \<open>Properties\<close>

text \<open>
  C31: the accessors are added after everything there was, of which nothing is displaced, each under a name no
  other item has. Each is for a public member, not a bitfield, of an opaque class that takes no parameters, and
  hands the member back by value only where C++ can copy it out and Rust may hold it.
\<close>

theorem field_accessors_are_added:
  assumes "apivec_wf v" and "add_field_accessors get_hash v config p = Some w"
  shows "\<exists>accessors facts. apis w = apis v @ accessors \<and> distinct (map Api_name (apis w)) \<and>
    list_all (accessor_of facts (apis v)) accessors \<and>
    pod_safe_types (apis v) = Some (tyf_pod_safe facts) \<and> tyf_enums facts = enums_of (apis v)"
proof -
  from assms(2) obtain pod_safe nameable accessors taken where pod_safe: "pod_safe_types (apis v) = Some pod_safe"
    and loop: "accessors_loop (nested_is_on_allowlist get_hash config (nested_cpp_names (map name_info (apis v)))) p
      \<lparr>tyf_pod_safe = pod_safe, tyf_enums = enums_of (apis v), tyf_nameable = nameable\<rparr> (apis v)
      (ApiVec_new, fold iset_insert (map Api_name (apis v)) []) = Some (accessors, taken)"
    and w: "apivec_append v accessors = Some w"
    by (auto simp: add_field_accessors_def Let_def split: Option.bind_splits)
  let ?facts = "\<lparr>tyf_pod_safe = pod_safe, tyf_enums = enums_of (apis v), tyf_nameable = nameable\<rparr>"
  have "accessors_ok ?facts (apis v) (ApiVec_new, fold iset_insert (map Api_name (apis v)) [])"
    by (simp add: accessors_ok_def ApiVec_new_def)
  from accessors_loop_ok[OF loop _ this] have ok: "accessors_ok ?facts (apis v) (accessors, taken)" by simp
  with assms(1) have "distinct (map Api_name (apis accessors))"
    "\<forall>api \<in> set (apis accessors). \<not> already_contains v (Api_name api)"
    by (auto simp: accessors_ok_def already_contains_def apivec_wf_def)
  from extend_fresh[OF this] w have "apis w = apis v @ apis accessors" by (auto simp: apivec_append_def)
  with ok assms(1) pod_safe show ?thesis
    by (intro exI[of _ "apis accessors"] exI[of _ ?facts]) (auto simp: accessors_ok_def apivec_wf_def)
qed


text \<open>An opaque class with a public pointer.\<close>

definition sample_pointer_field :: item_field where
  "sample_pointer_field = \<lparr>if_ident = Some ''f'', if_public = True, if_ty = Type_Ptr True (Type_Other ''t'')\<rparr>"

definition sample_member_reports :: "bindgen_event list" where
  "sample_member_reports = sample_pod_reports @ [Ev_DataMember 2 (Some ''f'') (Some ''f'') True False False None None]"

definition sample_member_results :: parse_callback_results where
  "sample_member_results = the (index_results (fold callback sample_member_reports unindexed_default) True)"

definition sample_opaque :: pod_phase_apis where
  "sample_opaque =
     \<lparr>apis = [Api_Struct (sample_name ''Outer'') (item_with ''Outer'' [sample_pointer_field])
        ((sample_analysis NonPod [])\<lparr>pa_field_info :=
          [\<lparr>fi_name = Some ''f'', fi_ty = Type_Ptr True (Type_Other ''t''), fi_type_kind = Kind_Pointer,
            fi_bindgen_opaque_data = False, fi_is_const = False, fi_is_volatile = False, fi_holds_std_array = False,
            fi_has_default_initializer = False\<rparr>]\<rparr>)],
      names = [outer_name]\<rparr>"

lemma sample_member_reported:
  "map_option or_empty (data_members sample_member_results outer_name) =
     Some [\<lparr>dm_name = Some ''f'', dm_cpp_name = Some ''f'', dm_is_public = True, dm_is_const = False,
       dm_is_volatile = False, dm_is_bitfield = False, dm_has_default_member_initializer = False\<rparr>]"
  by code_simp


lemma sample_accessor_added:
  "\<exists>w. add_field_accessors (\<lambda>_. 0) sample_opaque (nested_config\<lparr>cfg_allowlist := All\<rparr>) sample_member_results = Some w \<and>
     length (apis w) = 2"
proof -
  obtain m where known: "get_pod_safe_types known_types = Some m"
    using pod_safety_collect_total[OF closed_resolves[OF known_types_closed], of "all_names known_types" "[]"]
    by (auto simp: get_pod_safe_types_def)
  have listed: "nested_is_on_allowlist get_hash (nested_config\<lparr>cfg_allowlist := All\<rparr>) nested name = Some True" for get_hash nested name
    by (simp add: nested_is_on_allowlist_def nested_spellings_def is_on_allowlist_def)
  have name: "an_name (sample_name ''Outer'') = outer_name"
    "accessor_stem outer_name ''f'' = QualifiedName [''ns''] ''Outer_f_autocxx_field''" by code_simp+
  from sample_member_reported obtain ms where ms: "data_members sample_member_results outer_name = Some ms"
    "or_empty ms = [\<lparr>dm_name = Some ''f'', dm_cpp_name = Some ''f'', dm_is_public = True, dm_is_const = False,
       dm_is_volatile = False, dm_is_bitfield = False, dm_has_default_member_initializer = False\<rparr>]" by auto
  have shape: "member_shape sample_pointer_field
      \<lparr>fi_name = Some ''f'', fi_ty = Type_Ptr True (Type_Other ''t''), fi_type_kind = Kind_Pointer,
       fi_bindgen_opaque_data = False, fi_is_const = False, fi_is_volatile = False, fi_holds_std_array = False,
       fi_has_default_initializer = False\<rparr> facts = Some (Inr ByValue)" for facts
    by (simp add: member_shape_def sample_pointer_field_def strip_layout_markers.simps is_pointer_like_def)
  have field: "is_fields (sd_item (item_with ''Outer'' [sample_pointer_field])) = [sample_pointer_field]"
    "if_ident sample_pointer_field = Some ''f''" by code_simp+
  show ?thesis
    using known ms
    by (simp add: add_field_accessors_def Let_def pod_safe_types_def nameable_types_def listed sample_opaque_def
        Api_name_def sample_analysis_def accessor_for_def shape field name free_name_from_def apivec_push.simps
        ApiVec_new_def already_contains_def apivec_append_def apivec_insert_def accessor_api_name[unfolded Api_name_def])
qed

lemma field_accessors_are_added_witness:
  "\<exists>w accessor. add_field_accessors (\<lambda>_. 0) sample_opaque (nested_config\<lparr>cfg_allowlist := All\<rparr>) sample_member_results = Some w \<and>
     apis w = apis sample_opaque @ [accessor] \<and> Api_name accessor \<noteq> outer_name"
proof -
  from sample_accessor_added obtain w where w: "add_field_accessors (\<lambda>_. 0) sample_opaque
      (nested_config\<lparr>cfg_allowlist := All\<rparr>) sample_member_results = Some w" "length (apis w) = 2" by blast
  have wf: "apivec_wf sample_opaque" by code_simp
  have one: "length (apis sample_opaque) = 1" "map Api_name (apis sample_opaque) = [outer_name]" by code_simp+
  from field_accessors_are_added[OF wf w(1)] obtain accessors where "apis w = apis sample_opaque @ accessors"
    "distinct (map Api_name (apis w))" by blast
  with w one show ?thesis by (cases accessors) auto
qed

end
