(* ===== verification/DirectiveChecks.thy ===== *)
theory DirectiveChecks imports Gc begin

text \<open>
  What is checked once every item has been through the analyses (\<^verbatim>\<open>conversion/mod.rs\<close>,
  \<^verbatim>\<open>conversion/derives.rs\<close>): that each directive of the block came to something. The first that did not
  is the error of the whole conversion.
\<close>

section \<open>What was asked to be generated\<close>

record generated_names =
  gn_generated :: "string list"
  gn_discarded :: "(string, convert_error) index_map"

text \<open>The first error noted for a name is kept.\<close>

definition note_generated ::
    "(qualified_name, string) index_map \<Rightarrow> fn_phase \<Rightarrow> generated_names \<Rightarrow> generated_names" where
  "note_generated nested api g =
     (case api of
        Api_IgnoredItem name err ctx \<Rightarrow>
          g\<lparr>gn_discarded := fold (\<lambda>n m. if map_of m n = None then imap_insert n err m else m)
              (allowlist_names api nested) (gn_discarded g)\<rparr>
      | _ \<Rightarrow> g\<lparr>gn_generated := fold iset_insert (allowlist_names api nested) (gn_generated g)\<rparr>)"

definition generated_names_of :: "fn_phase list \<Rightarrow> generated_names" where
  "generated_names_of l =
     fold (note_generated (nested_cpp_names (map name_info l))) l \<lparr>gn_generated = [], gn_discarded = []\<rparr>"

definition not_generated :: "generated_names \<Rightarrow> string \<Rightarrow> convert_error" where
  "not_generated g generate_directive =
     (case map_of (gn_discarded g) generate_directive of
        Some err \<Rightarrow> DidNotGenerateAnythingUsable generate_directive err
      | None \<Rightarrow> DidNotGenerateAnything generate_directive)"

definition confirm_all_generate_directives_still_obeyed ::
    "include_cpp_config \<Rightarrow> fn_phase_apis \<Rightarrow> (convert_error, unit) result" where
  "confirm_all_generate_directives_still_obeyed config v =
     (let g = generated_names_of (apis v) in
      case List.find (\<lambda>d. d \<notin> set (gn_generated g)) (must_generate_list config) of
        Some d \<Rightarrow> Inl (not_generated g d)
      | None \<Rightarrow> Inr ())"

section \<open>Smart pointers\<close>

text \<open>The templates a \<^verbatim>\<open>get\<close> was made for; \<open>None\<close> is the panic on a path that names nothing.\<close>

definition custom_holder_template :: "fn_phase \<Rightarrow> qualified_name option option" where
  "custom_holder_template api =
     (case api of
        Api_ConcreteType name rs_definition cpp_definition (Some (Holder_CustomPtr payload payload_cpp is_const held)) needs incomplete \<Rightarrow>
          instantiated_template rs_definition cpp_definition
      | _ \<Rightarrow> Some None)"

definition confirm_smart_pointer_directives_obeyed ::
    "include_cpp_config \<Rightarrow> fn_phase_apis \<Rightarrow> (convert_error, unit) result option" where
  "confirm_smart_pointer_directives_obeyed config v =
     (if smart_pointers config = [] then Some (Inr ())
      else map_option
        (\<lambda>found.
           let templates = List.map_filter id found in
           case List.find (\<lambda>d. \<not> list_ex (\<lambda>template. name_matches_directive (to_cpp_name template) d) templates)
                  (directive_iter (smart_pointers config)) of
             Some d \<Rightarrow> Inl (ItemError (SmartPointerDirectiveMatchedNothing d))
           | None \<Rightarrow> Inr ())
        (those (map custom_holder_template (apis v))))"

section \<open>Derived traits\<close>

datatype derive_target = DeriveTarget_Pod | DeriveTarget_Enum

type_synonym derive_requests = "(qualified_name, rust_tokens list) index_map"

definition derive_target_of :: "fn_phase \<Rightarrow> derive_target option" where
  "derive_target_of api =
     (case api of
        Api_Struct name details analysis \<Rightarrow>
          if pa_kind (pda_pod analysis) = Pod then Some DeriveTarget_Pod else None
      | Api_Enum name item \<Rightarrow> Some DeriveTarget_Enum
      | _ \<Rightarrow> None)"

text \<open>A name may belong to a type and to functions on it; only the type carries a target.\<close>

definition note_derive_target ::
    "fn_phase \<Rightarrow> (string, qualified_name \<times> derive_target option) index_map \<Rightarrow>
     (string, qualified_name \<times> derive_target option) index_map" where
  "note_derive_target api targets =
     fold (\<lambda>spelling m.
             if derive_target_of api \<noteq> None \<or> map_of m spelling = None
             then imap_insert spelling (an_name (name_info api), derive_target_of api) m else m)
       (cpp_spellings (name_info api)) targets"

definition derive_targets :: "fn_phase list \<Rightarrow> (string, qualified_name \<times> derive_target option) index_map" where
  "derive_targets l = fold note_derive_target l []"

definition resolve_derive_target ::
    "(string, qualified_name \<times> derive_target option) index_map \<Rightarrow> string \<Rightarrow>
     (convert_error, qualified_name \<times> derive_target) result" where
  "resolve_derive_target targets cpp_name =
     (case map_of targets cpp_name of
        Some (name, Some target) \<Rightarrow> Inr (name, target)
      | Some (name, None) \<Rightarrow> Inl (ItemError (DeriveOnTypeWithNoRustDefinition cpp_name))
      | None \<Rightarrow> Inl (ItemError (DeriveDirectiveMatchedNothing cpp_name)))"

fun derive_loop ::
    "(string, qualified_name \<times> derive_target option) index_map \<Rightarrow> (string \<times> rust_tokens list) list \<Rightarrow>
     derive_requests \<Rightarrow> (convert_error, derive_requests) result" where
  "derive_loop targets [] requests = Inr requests"
| "derive_loop targets ((cpp_name, traits) # rest) requests =
     (case resolve_derive_target targets cpp_name of
        Inl e \<Rightarrow> Inl e
      | Inr (name, target) \<Rightarrow>
          if target = DeriveTarget_Enum \<and> ''Default'' \<in> set traits
          then Inl (ItemError (DeriveDefaultOnEnum cpp_name))
          else derive_loop targets rest (fold (imap_push name) traits requests))"

definition resolve_derive_directives ::
    "include_cpp_config \<Rightarrow> fn_phase_apis \<Rightarrow> (convert_error, derive_requests) result" where
  "resolve_derive_directives config v =
     (if derives config = [] then Inr []
      else derive_loop (derive_targets (apis v)) (derives config) [])"

section \<open>Directives that match by name\<close>

definition confirm_name_matching_directives_matched :: "include_cpp_config \<Rightarrow> (convert_error, unit) result" where
  "confirm_name_matching_directives_matched config =
     (case unmatched_directives config of
        (directive, request) # _ \<Rightarrow> Inl (ItemError (DirectiveMatchedNothing directive request))
      | [] \<Rightarrow> Inr ())"

section \<open>All four\<close>

definition confirm_directives ::
    "include_cpp_config \<Rightarrow> fn_phase_apis \<Rightarrow> (convert_error, derive_requests) result option" where
  "confirm_directives config v =
     (case confirm_all_generate_directives_still_obeyed config v of
        Inl e \<Rightarrow> Some (Inl e)
      | Inr _ \<Rightarrow>
          (case confirm_smart_pointer_directives_obeyed config v of
             None \<Rightarrow> None
           | Some (Inl e) \<Rightarrow> Some (Inl e)
           | Some (Inr _) \<Rightarrow>
               (case resolve_derive_directives config v of
                  Inl e \<Rightarrow> Some (Inl e)
                | Inr requests \<Rightarrow>
                    (case confirm_name_matching_directives_matched config of
                       Inl e \<Rightarrow> Some (Inl e)
                     | Inr _ \<Rightarrow> Some (Inr requests)))))"

section \<open>What a block that is accepted has got\<close>

lemma fold_iset_set: "set (fold iset_insert xs acc) = set xs \<union> set acc"
  by simp

lemma note_generated_names:
  "set (gn_generated (fold (note_generated nested) l g)) =
     set (gn_generated g) \<union> {d. \<exists>api \<in> set l. \<not> is_ignored_item api \<and> d \<in> set (allowlist_names api nested)}"
proof (induction l arbitrary: g)
  case (Cons api l)
  have "set (gn_generated (note_generated nested api g)) =
      set (gn_generated g) \<union> {d. \<not> is_ignored_item api \<and> d \<in> set (allowlist_names api nested)}"
    by (cases api) (auto simp: note_generated_def is_ignored_item_def)
  then show ?case unfolding fold_Cons comp_apply Cons.IH by auto
qed simp

text \<open>The error kept for a name is that of the first note that answers to the name.\<close>

lemma note_discarded_names:
  "map_of (gn_discarded (fold (note_generated nested) l g)) d =
     (case map_of (gn_discarded g) d of
        Some err \<Rightarrow> Some err
      | None \<Rightarrow>
          (case List.map_filter (\<lambda>api. case api of
               Api_IgnoredItem name err ctx \<Rightarrow> if d \<in> set (allowlist_names api nested) then Some err else None
             | _ \<Rightarrow> None) l of
             [] \<Rightarrow> None
           | err # _ \<Rightarrow> Some err))"
proof (induction l arbitrary: g)
  case (Cons api l)
  have kept: "map_of (fold (\<lambda>n m. if map_of m n = None then imap_insert n e m else m) ns m) d =
      (case map_of m d of Some err \<Rightarrow> Some err | None \<Rightarrow> if d \<in> set ns then Some e else None)" for ns e m
    by (induction ns arbitrary: m) (auto split: option.splits)
  have "map_of (gn_discarded (note_generated nested api g)) d =
      (case map_of (gn_discarded g) d of
         Some err \<Rightarrow> Some err
       | None \<Rightarrow> (case api of
               Api_IgnoredItem name err ctx \<Rightarrow> if d \<in> set (allowlist_names api nested) then Some err else None
             | _ \<Rightarrow> None))"
    by (cases api) (simp_all add: note_generated_def kept split: option.splits)
  then show ?case unfolding fold_Cons comp_apply Cons.IH
    by (auto simp: map_filter_simps split: option.splits)
qed (simp add: map_filter_simps split: option.splits)

lemma find_none: "List.find P xs = None \<longleftrightarrow> (\<forall>x \<in> set xs. \<not> P x)"
  by (auto simp: find_None_iff)

lemma find_some: "List.find P xs = Some x \<Longrightarrow> x \<in> set xs \<and> P x"
  by (induction xs) (auto split: if_splits)

definition notes_for :: "fn_phase list \<Rightarrow> string \<Rightarrow> convert_error list" where
  "notes_for l d =
     List.map_filter (\<lambda>api. case api of
         Api_IgnoredItem name err ctx \<Rightarrow>
           if d \<in> set (allowlist_names api (nested_cpp_names (map name_info l))) then Some err else None
       | _ \<Rightarrow> None) l"

definition offers :: "fn_phase list \<Rightarrow> string \<Rightarrow> bool" where
  "offers l d \<longleftrightarrow>
     list_ex (\<lambda>api. \<not> is_ignored_item api \<and> d \<in> set (allowlist_names api (nested_cpp_names (map name_info l)))) l"

lemma generate_confirmed:
  "confirm_all_generate_directives_still_obeyed config v = Inr () \<longleftrightarrow>
     (\<forall>d \<in> set (must_generate_list config). offers (apis v) d)"
proof -
  let ?nested = "nested_cpp_names (map name_info (apis v))"
  have "set (gn_generated (generated_names_of (apis v))) = {d. offers (apis v) d}"
    using note_generated_names[of ?nested "apis v" "\<lparr>gn_generated = [], gn_discarded = []\<rparr>"]
    by (auto simp: generated_names_of_def offers_def list_ex_iff)
  then show ?thesis
    by (auto simp: confirm_all_generate_directives_still_obeyed_def Let_def find_none split: option.splits dest!: find_some)
qed

lemma pointers_confirmed:
  assumes "confirm_smart_pointer_directives_obeyed config v = Some (Inr ())" "d \<in> set (directive_iter (smart_pointers config))"
  shows "\<exists>api \<in> set (apis v). \<exists>template. custom_holder_template api = Some (Some template) \<and>
    name_matches_directive (to_cpp_name template) d"
proof -
  from assms obtain found where found: "those (map custom_holder_template (apis v)) = Some found"
    and ok: "list_ex (\<lambda>template. name_matches_directive (to_cpp_name template) d) (List.map_filter id found)"
    by (auto simp: confirm_smart_pointer_directives_obeyed_def Let_def find_none directive_iter_def split: if_splits option.splits)
  from ok obtain template where t: "Some template \<in> set found" "name_matches_directive (to_cpp_name template) d"
    by (auto simp: list_ex_iff map_filter_def)
  have "those ys = Some zs \<Longrightarrow> z \<in> set zs \<Longrightarrow> Some z \<in> set ys" for ys :: "'a option list" and zs z
    by (induction ys arbitrary: zs) (auto split: option.splits)
  from this[OF found t(1)] t(2) show ?thesis by force
qed

lemma target_noted:
  assumes "map_of (fold note_derive_target l m) spelling = Some (name, Some target)"
  shows "map_of m spelling = Some (name, Some target) \<or>
    (\<exists>api \<in> set l. spelling \<in> set (cpp_spellings (name_info api)) \<and> Api_name api = name \<and> derive_target_of api = Some target)"
  using assms
proof (induction l arbitrary: m)
  case (Cons api l)
  have kept: "map_of (fold (\<lambda>s m. if t \<noteq> None \<or> map_of m s = None then imap_insert s (n, t) m else m) ss m) spelling =
        Some (name, Some target) \<Longrightarrow>
      map_of m spelling = Some (name, Some target) \<or> spelling \<in> set ss \<and> n = name \<and> t = Some target"
    for ss m n t
  proof (induction ss arbitrary: m)
    case (Cons s ss)
    from Cons.IH[of "if t \<noteq> None \<or> map_of m s = None then imap_insert s (n, t) m else m"] Cons.prems
    show ?case by (auto split: if_splits)
  qed simp
  have "map_of (note_derive_target api m) spelling = Some (name, Some target) \<Longrightarrow>
      map_of m spelling = Some (name, Some target) \<or>
      spelling \<in> set (cpp_spellings (name_info api)) \<and> Api_name api = name \<and> derive_target_of api = Some target"
    unfolding note_derive_target_def Api_name_def by (rule kept)
  with Cons.IH[of "note_derive_target api m"] Cons.prems show ?case by auto
qed simp

lemma derives_confirmed:
  assumes "derive_loop targets ds requests = Inr requests'"
  shows "(\<forall>(cpp_name, traits) \<in> set ds. \<exists>name target. map_of targets cpp_name = Some (name, Some target) \<and>
      (target = DeriveTarget_Enum \<longrightarrow> ''Default'' \<notin> set traits) \<and>
      set traits \<subseteq> set (case map_of requests' name of Some ts \<Rightarrow> ts | None \<Rightarrow> [])) \<and>
    (\<forall>name. set (case map_of requests name of Some ts \<Rightarrow> ts | None \<Rightarrow> []) \<subseteq>
            set (case map_of requests' name of Some ts \<Rightarrow> ts | None \<Rightarrow> []))"
  using assms
proof (induction ds arbitrary: requests)
  case (Cons d ds)
  obtain cpp_name traits where d: "d = (cpp_name, traits)" by (cases d)
  have pushed: "set (case map_of (fold (imap_push k) ts m) name of Some vs \<Rightarrow> vs | None \<Rightarrow> []) =
      set (case map_of m name of Some vs \<Rightarrow> vs | None \<Rightarrow> []) \<union> (if name = k then set ts else {})" for k ts m and name :: qualified_name
    by (induction ts arbitrary: m) (auto simp: map_of_imap_push split: option.splits)
  from Cons.prems d obtain name target where r: "resolve_derive_target targets cpp_name = Inr (name, target)"
    "\<not> (target = DeriveTarget_Enum \<and> ''Default'' \<in> set traits)"
    "derive_loop targets ds (fold (imap_push name) traits requests) = Inr requests'"
    by (auto split: sum.splits if_splits)
  from r(1) have "map_of targets cpp_name = Some (name, Some target)"
    by (auto simp: resolve_derive_target_def split: option.splits)
  with Cons.IH[OF r(3)] r(2) d show ?case unfolding pushed by (auto split: if_splits)
qed simp

lemma generate_refused:
  assumes "confirm_all_generate_directives_still_obeyed config v = Inl err"
  shows "\<exists>d \<in> set (must_generate_list config). \<not> offers (apis v) d \<and>
    err = (case notes_for (apis v) d of [] \<Rightarrow> DidNotGenerateAnything d | e # _ \<Rightarrow> DidNotGenerateAnythingUsable d e)"
proof -
  let ?nested = "nested_cpp_names (map name_info (apis v))"
  have offered: "set (gn_generated (generated_names_of (apis v))) = {d. offers (apis v) d}"
    using note_generated_names[of ?nested "apis v" "\<lparr>gn_generated = [], gn_discarded = []\<rparr>"]
    by (auto simp: generated_names_of_def offers_def list_ex_iff)
  have "map_of (gn_discarded (generated_names_of (apis v))) d =
      (case notes_for (apis v) d of [] \<Rightarrow> None | e # _ \<Rightarrow> Some e)" for d
    by (simp add: generated_names_of_def note_discarded_names notes_for_def)
  with assms offered show ?thesis
    by (auto simp: confirm_all_generate_directives_still_obeyed_def Let_def not_generated_def
        split: option.splits list.splits dest!: find_some)
qed

lemma note_derive_target_lookup:
  "map_of (note_derive_target api m) s =
     (if s \<in> set (cpp_spellings (name_info api)) \<and> (derive_target_of api \<noteq> None \<or> map_of m s = None)
      then Some (Api_name api, derive_target_of api) else map_of m s)"
proof -
  have "map_of (fold (\<lambda>s m. if t \<noteq> None \<or> map_of m s = None then imap_insert s (n, t) m else m) ss m) s =
      (if s \<in> set ss \<and> (t \<noteq> None \<or> map_of m s = None) then Some (n, t) else map_of m s)" for ss t and n :: qualified_name
    by (induction ss arbitrary: m) auto
  then show ?thesis unfolding note_derive_target_def Api_name_def .
qed

lemma derive_target_unknown:
  "map_of (fold note_derive_target l m) s = None \<longleftrightarrow>
     map_of m s = None \<and> (\<forall>api \<in> set l. s \<notin> set (cpp_spellings (name_info api)))"
proof (induction l arbitrary: m)
  case (Cons api l)
  then show ?case by (auto simp: note_derive_target_lookup)
qed simp

lemma derive_target_missing:
  assumes "map_of (fold note_derive_target l m) s = Some (name, None)"
  shows "\<forall>api \<in> set l. s \<in> set (cpp_spellings (name_info api)) \<longrightarrow> derive_target_of api = None"
proof -
  have kept: "\<exists>name' t'. map_of (fold note_derive_target l m) s = Some (name', Some t')"
    if "map_of m s = Some (name, Some t)" for name t and l and m :: "(string, qualified_name \<times> derive_target option) index_map"
    using that
  proof (induction l arbitrary: m name t)
    case (Cons api l)
    then have "\<exists>name' t'. map_of (note_derive_target api m) s = Some (name', Some t')"
      by (cases "derive_target_of api") (simp_all add: note_derive_target_lookup)
    with Cons.IH[of "note_derive_target api m"] show ?case by auto
  qed simp
  from assms show ?thesis
  proof (induction l arbitrary: m)
    case (Cons api l)
    have "derive_target_of api = None" if spelled: "s \<in> set (cpp_spellings (name_info api))"
    proof (rule ccontr)
      assume "derive_target_of api \<noteq> None"
      with spelled have "\<exists>t. map_of (note_derive_target api m) s = Some (Api_name api, Some t)"
        by (auto simp: note_derive_target_lookup)
      with kept[of "note_derive_target api m" _ _ l] Cons.prems show False by auto
    qed
    with Cons show ?case by auto
  qed simp
qed

text \<open>
  What a refusal says of the block and the list: which request it names, and that the request was not met.
\<close>

definition names_unmet_request :: "include_cpp_config \<Rightarrow> fn_phase list \<Rightarrow> convert_error \<Rightarrow> bool" where
  "names_unmet_request config l err =
     (let wants = (\<lambda>d. d \<in> set (must_generate_list config));
          spelled = (\<lambda>n api. api \<in> set l \<and> n \<in> set (cpp_spellings (name_info api)));
          derived = (\<lambda>n. n \<in> fst ` set (derives config))
      in (\<exists>d. err = DidNotGenerateAnything d \<and> wants d \<and> \<not> offers l d \<and> notes_for l d = []) \<or>
         (\<exists>d e later. err = DidNotGenerateAnythingUsable d e \<and> wants d \<and> \<not> offers l d \<and> notes_for l d = e # later) \<or>
         (\<exists>d. err = ItemError (SmartPointerDirectiveMatchedNothing d) \<and> d \<in> set (directive_iter (smart_pointers config)) \<and>
            (\<forall>api \<in> set l. \<forall>template. custom_holder_template api = Some (Some template) \<longrightarrow>
               \<not> name_matches_directive (to_cpp_name template) d)) \<or>
         (\<exists>n. err = ItemError (DeriveDirectiveMatchedNothing n) \<and> derived n \<and> (\<forall>api. \<not> spelled n api)) \<or>
         (\<exists>n. err = ItemError (DeriveOnTypeWithNoRustDefinition n) \<and> derived n \<and> (\<exists>api. spelled n api) \<and>
            (\<forall>api. spelled n api \<longrightarrow> derive_target_of api = None)) \<or>
         (\<exists>n. err = ItemError (DeriveDefaultOnEnum n) \<and>
            (\<exists>traits. (n, traits) \<in> set (derives config) \<and> ''Default'' \<in> set traits) \<and>
            (\<exists>api. spelled n api \<and> derive_target_of api = Some DeriveTarget_Enum)) \<or>
         (\<exists>directive request. err = ItemError (DirectiveMatchedNothing directive request) \<and>
            (directive, request) \<in> set (unmatched_directives config)))"

lemma pointers_refused:
  assumes "confirm_smart_pointer_directives_obeyed config v = Some (Inl err)"
  shows "names_unmet_request config (apis v) err"
proof -
  from assms obtain found d where found: "those (map custom_holder_template (apis v)) = Some found"
    and d: "List.find (\<lambda>d. \<not> list_ex (\<lambda>template. name_matches_directive (to_cpp_name template) d) (List.map_filter id found))
              (directive_iter (smart_pointers config)) = Some d"
    and err: "err = ItemError (SmartPointerDirectiveMatchedNothing d)"
    by (auto simp: confirm_smart_pointer_directives_obeyed_def Let_def split: if_splits option.splits)
  have all: "those ys = Some zs \<Longrightarrow> Some z \<in> set ys \<Longrightarrow> z \<in> set zs" for ys :: "'a option list" and zs z
    by (induction ys arbitrary: zs) (auto split: option.splits)
  have "\<not> name_matches_directive (to_cpp_name template) d"
    if "api \<in> set (apis v)" "custom_holder_template api = Some (Some template)" for api template
  proof -
    from that have "Some (Some template) \<in> set (map custom_holder_template (apis v))" by force
    from all[OF found this] have "template \<in> set (List.map_filter id found)" by (force simp: map_filter_def)
    with find_some[OF d] show ?thesis by (auto simp: list_ex_iff)
  qed
  with find_some[OF d] err show ?thesis by (auto simp: names_unmet_request_def)
qed

lemma derive_loop_refused:
  assumes "derive_loop (derive_targets l) ds requests = Inl err" "set ds \<subseteq> set (derives config)"
  shows "names_unmet_request config l err"
  using assms
proof (induction ds arbitrary: requests)
  case (Cons d ds)
  obtain n traits where d: "d = (n, traits)" by (cases d)
  with Cons.prems(2) have asked: "(n, traits) \<in> set (derives config)" "n \<in> fst ` set (derives config)" by force+
  show ?case
  proof (cases "map_of (derive_targets l) n")
    case None
    with Cons.prems(1) d have err: "err = ItemError (DeriveDirectiveMatchedNothing n)"
      by (simp add: resolve_derive_target_def)
    from None derive_target_unknown[of l "[]" n] asked(2) show ?thesis
      unfolding names_unmet_request_def Let_def err by (simp add: derive_targets_def)
  next
    case (Some found)
    obtain name target where found: "found = (name, target)" by (cases found)
    show ?thesis
    proof (cases target)
      case None
      with Some found Cons.prems(1) d have err: "err = ItemError (DeriveOnTypeWithNoRustDefinition n)"
        by (simp add: resolve_derive_target_def)
      from Some found None have missing: "map_of (fold note_derive_target l []) n = Some (name, None)"
        by (simp add: derive_targets_def)
      with derive_target_unknown[of l "[]" n] have "\<exists>api \<in> set l. n \<in> set (cpp_spellings (name_info api))" by auto
      with derive_target_missing[OF missing] asked(2) show ?thesis
        unfolding names_unmet_request_def Let_def err by auto
    next
      case (Some t)
      with \<open>map_of (derive_targets l) n = Some found\<close> found target_noted[of l "[]" n name t] obtain api where
        "api \<in> set l" "n \<in> set (cpp_spellings (name_info api))" "derive_target_of api = Some t"
        by (auto simp: derive_targets_def)
      with Some \<open>map_of (derive_targets l) n = Some found\<close> found asked Cons d show ?thesis
        by (fastforce simp: resolve_derive_target_def names_unmet_request_def split: if_splits)
    qed
  qed
qed simp

lemma generate_refusal_named:
  assumes "confirm_all_generate_directives_still_obeyed config v = Inl err"
  shows "names_unmet_request config (apis v) err"
proof -
  from generate_refused[OF assms] obtain d where d: "d \<in> set (must_generate_list config)" "\<not> offers (apis v) d"
    "err = (case notes_for (apis v) d of [] \<Rightarrow> DidNotGenerateAnything d | e # _ \<Rightarrow> DidNotGenerateAnythingUsable d e)"
    by blast
  then show ?thesis by (cases "notes_for (apis v) d") (simp_all add: names_unmet_request_def)
qed

lemma refusals_name_requests:
  assumes "confirm_directives config v = Some (Inl err)"
  shows "names_unmet_request config (apis v) err"
proof -
  consider "confirm_all_generate_directives_still_obeyed config v = Inl err"
    | "confirm_smart_pointer_directives_obeyed config v = Some (Inl err)"
    | "resolve_derive_directives config v = Inl err"
    | "confirm_name_matching_directives_matched config = Inl err"
    using assms by (auto simp: confirm_directives_def split: option.splits sum.splits)
  then show ?thesis
  proof cases
    case 3
    then show ?thesis using derive_loop_refused[OF _ subset_refl]
      by (auto simp: resolve_derive_directives_def split: if_splits)
  next
    case 4
    then show ?thesis
      by (auto simp: confirm_name_matching_directives_matched_def names_unmet_request_def split: list.splits prod.splits)
  qed (simp_all add: generate_refusal_named pointers_refused)
qed

lemma directives_settled:
  assumes "confirm_directives config v = Some outcome"
  shows "case outcome of
    Inr requests \<Rightarrow>
      (\<forall>d \<in> set (must_generate_list config). offers (apis v) d) \<and>
      (\<forall>d \<in> set (directive_iter (smart_pointers config)).
         \<exists>api \<in> set (apis v). \<exists>template. custom_holder_template api = Some (Some template) \<and>
           name_matches_directive (to_cpp_name template) d) \<and>
      (\<forall>(cpp_name, traits) \<in> set (derives config).
         \<exists>api \<in> set (apis v). cpp_name \<in> set (cpp_spellings (name_info api)) \<and>
           (derive_target_of api = Some DeriveTarget_Pod \<or>
            derive_target_of api = Some DeriveTarget_Enum \<and> ''Default'' \<notin> set traits) \<and>
           set traits \<subseteq> set (case map_of requests (Api_name api) of Some ts \<Rightarrow> ts | None \<Rightarrow> [])) \<and>
      unmatched_directives config = []
  | Inl err \<Rightarrow> names_unmet_request config (apis v) err"
proof (cases outcome)
  case (Inr requests)
  from assms Inr have all: "confirm_all_generate_directives_still_obeyed config v = Inr ()" "confirm_smart_pointer_directives_obeyed config v = Some (Inr ())"
    "resolve_derive_directives config v = Inr requests" "confirm_name_matching_directives_matched config = Inr ()"
    by (auto simp: confirm_directives_def split: sum.splits option.splits)
  have "\<exists>api \<in> set (apis v). cpp_name \<in> set (cpp_spellings (name_info api)) \<and>
      (derive_target_of api = Some DeriveTarget_Pod \<or>
       derive_target_of api = Some DeriveTarget_Enum \<and> ''Default'' \<notin> set traits) \<and>
      set traits \<subseteq> set (case map_of requests (Api_name api) of Some ts \<Rightarrow> ts | None \<Rightarrow> [])"
    if "(cpp_name, traits) \<in> set (derives config)" for cpp_name traits
  proof -
    from all(3) that have loop: "derive_loop (derive_targets (apis v)) (derives config) [] = Inr requests"
      by (auto simp: resolve_derive_directives_def split: if_splits)
    from derives_confirmed[OF loop] that obtain name target where
      t: "map_of (derive_targets (apis v)) cpp_name = Some (name, Some target)"
      "target = DeriveTarget_Enum \<longrightarrow> ''Default'' \<notin> set traits"
      "set traits \<subseteq> set (case map_of requests name of Some ts \<Rightarrow> ts | None \<Rightarrow> [])" by blast
    from target_noted[OF t(1)[unfolded derive_targets_def]] t(2,3) show ?thesis by (cases target) auto
  qed
  moreover have "unmatched_directives config = []"
    using all(4) by (auto simp: confirm_name_matching_directives_matched_def split: list.splits)
  ultimately show ?thesis using all(1,2) pointers_confirmed[of config v] by (auto simp: Inr generate_confirmed)
next
  case (Inl err)
  with assms show ?thesis by (simp add: refusals_name_requests)
qed

text \<open>
  C3: directives that took effect. When a block is accepted, each name it asks to be generated, by
  \<^verbatim>\<open>generate!\<close> or \<^verbatim>\<open>generate_pod!\<close>, is the name of an item that is no error marker, each smart pointer
  it names is a template a holder with a \<^verbatim>\<open>get\<close> was made for, each type it derives traits for is a POD
  struct or an enum of the list, not an enum given \<^verbatim>\<open>Default\<close>, and gets every trait asked for, and no
  directive that matches by name is left unmatched. A refusal always names a request of the block that was
  not met, and there is no other kind of refusal: a name to generate that no usable item has, with the
  first reason noted for the name where there is one; a smart pointer no holder was made for; a type to
  derive for that no item is called, that has no Rust definition, or that is an enum asked to be
  \<^verbatim>\<open>Default\<close>; or a directive that matched nothing.
\<close>

theorem accepted_directives_took_effect:
  assumes "confirm_directives config v = Some outcome"
  shows "case outcome of
    Inr requests \<Rightarrow>
      (\<forall>d \<in> set (must_generate_list config). offers (apis v) d) \<and>
      (\<forall>d \<in> set (directive_iter (smart_pointers config)).
         \<exists>api \<in> set (apis v). \<exists>template. custom_holder_template api = Some (Some template) \<and>
           name_matches_directive (to_cpp_name template) d) \<and>
      (\<forall>(cpp_name, traits) \<in> set (derives config).
         \<exists>api \<in> set (apis v). cpp_name \<in> set (cpp_spellings (name_info api)) \<and>
           (derive_target_of api = Some DeriveTarget_Pod \<or>
            derive_target_of api = Some DeriveTarget_Enum \<and> ''Default'' \<notin> set traits) \<and>
           set traits \<subseteq> set (case map_of requests (Api_name api) of Some ts \<Rightarrow> ts | None \<Rightarrow> [])) \<and>
      unmatched_directives config = []
  | Inl err \<Rightarrow> names_unmet_request config (apis v) err"
  using assms by (rule directives_settled)

section \<open>An enum asked for by name\<close>

definition wishing_config :: include_cpp_config where
  "wishing_config = ns_only_config\<lparr>cfg_allowlist := Specific [AllowlistEntry_Item ''E''], derives := [(''E'', [''Clone''])]\<rparr>"

definition derived_enum :: fn_phase_apis where
  "derived_enum =
     \<lparr>apis = [Api_Enum (ApiName_new [] ''E'') \<lparr>ie_ident = ''E'', ie_variants = [''A''], ie_tokens = ''''\<rparr>],
      names = [QualifiedName [] ''E'']\<rparr>"

lemma sample_enum_spelled:
  "to_cpp_name (QualifiedName [] ''E'') = ''E''" "an_name (ApiName_new [] ''E'') = QualifiedName [] ''E''"
  "nested_cpp_spelling (ApiName_new [] ''E'') = None"
proof -
  have "db_get known_types (QualifiedName [] ''E'') = None" unfolding db_get_known by code_simp
  then show "to_cpp_name (QualifiedName [] ''E'') = ''E''"
    by (simp add: to_cpp_name_def special_cpp_name_def segment_iter_def ns_segment_iter_def)
  show "an_name (ApiName_new [] ''E'') = QualifiedName [] ''E''" "nested_cpp_spelling (ApiName_new [] ''E'') = None"
    by code_simp+
qed

lemma sample_enum_offered: "offers (apis derived_enum) ''E''"
  by (simp add: offers_def derived_enum_def is_ignored_item_def allowlist_names_def nested_spellings_def nested_cpp_names_def
      sample_enum_spelled Api_name_def)

lemma accepted_directives_took_effect_witness:
  "confirm_directives wishing_config derived_enum = Some (Inr [(QualifiedName [] ''E'', [''Clone''])]) \<and>
     offers (apis derived_enum) ''E'' \<and> unmatched_directives wishing_config = []"
proof -
  have wishes: "must_generate_list wishing_config = [''E'']" "smart_pointers wishing_config = []"
    "derives wishing_config = [(''E'', [''Clone''])]" "unmatched_directives wishing_config = []"
    by (simp_all add: wishing_config_def must_generate_list_def ns_only_config_def map_filter_simps directive_iter_def
        unmatched_directives_def name_matching_directives_def unmatched_def)
  have "confirm_all_generate_directives_still_obeyed wishing_config derived_enum = Inr ()"
    using sample_enum_offered by (simp add: generate_confirmed wishes)
  moreover have "resolve_derive_directives wishing_config derived_enum = Inr [(QualifiedName [] ''E'', [''Clone''])]"
    by (simp add: resolve_derive_directives_def wishes derive_targets_def note_derive_target_def derived_enum_def
        cpp_spellings_def sample_enum_spelled derive_target_of_def resolve_derive_target_def imap_push_def)
  ultimately have run: "confirm_directives wishing_config derived_enum = Some (Inr [(QualifiedName [] ''E'', [''Clone''])])"
    by (simp add: confirm_directives_def confirm_smart_pointer_directives_obeyed_def wishes
        confirm_name_matching_directives_matched_def)
  from accepted_directives_took_effect[OF run] run show ?thesis by (simp add: wishes)
qed

end
