(* ===== verification/Ownership.thy ===== *)
theory Ownership imports AbstractTypes begin

text \<open>
  What may bring an object of a class into being or free one: its withdrawal where Rust may not
  destroy an object of the class (\<^verbatim>\<open>analysis/destructibility.rs\<close>), the note every class keeps of
  the functions that do it (\<^verbatim>\<open>analysis/constructor_deps.rs\<close>), and the C types the bridge has to
  declare (\<^verbatim>\<open>analysis/ctypes.rs\<close>). \<open>None\<close> stands for the panic of a push.
\<close>

section \<open>Classes nobody may destroy\<close>

definition why_not_destructible :: "fn_pre_phase3 \<Rightarrow> (qualified_name \<times> convert_error) option" where
  "why_not_destructible api =
     (case api of
        Api_Struct name details analysis \<Rightarrow>
          (let cons = pca_constructors analysis in
           if pc_destructor_inaccessible cons then Some (an_name name, DestructorInaccessible)
           else map_option
                  (\<lambda>member. (an_name name,
                     MemberOfInstantiationOnIncompleteType (an_name name) (um_held member) (um_argument member)))
                  (pc_undestroyable_member cons))
      | _ \<Rightarrow> None)"

definition non_destructible_types :: "fn_pre_phase3_apis \<Rightarrow> (qualified_name, convert_error) index_map" where
  "non_destructible_types v =
     fold (\<lambda>api m. case why_not_destructible api of
                     Some (name, err) \<Rightarrow> imap_insert name err m
                   | None \<Rightarrow> m) (apis v) []"

definition withdraw_function ::
    "(qualified_name, convert_error) index_map \<Rightarrow> fn_analysis \<Rightarrow> fn_analysis" where
  "withdraw_function m analysis =
     (if fa_ignore_reason analysis \<noteq> Inr () then analysis
      else case fa_kind analysis of
        FnKind_Method (Constructor _) impl_for \<Rightarrow>
          (case map_of m impl_for of
             None \<Rightarrow> analysis
           | Some err \<Rightarrow>
               analysis\<lparr>fa_ignore_reason := Inl (ConvertErrorWithContext err
                 (Some (new_for_method (make_ident (get_final_item impl_for))
                          (make_ident (fa_rust_name analysis)))))\<rparr>)
      | FnKind_TraitMethod kind impl_for _ \<Rightarrow>
          if kind \<in> {Trait_CopyConstructor, Trait_MoveConstructor, Trait_Alloc, Trait_Dealloc, Trait_Destructor}
          then (case map_of m impl_for of
                  None \<Rightarrow> analysis
                | Some err \<Rightarrow> analysis\<lparr>fa_ignore_reason := Inl (ConvertErrorWithContext err None)\<rparr>)
          else analysis
      | _ \<Rightarrow> analysis)"

definition withdraw_one ::
    "(qualified_name, convert_error) index_map \<Rightarrow> ('td, 'st, fn_analysis, 'sub) api \<Rightarrow>
     ('td, 'st, fn_analysis, 'sub) api" where
  "withdraw_one m api =
     (case api of
        Api_Function name fn analysis \<Rightarrow> Api_Function name fn (withdraw_function m analysis)
      | _ \<Rightarrow> api)"

definition remove_ownership_of_non_destructible_types ::
    "fn_pre_phase3_apis \<Rightarrow> fn_pre_phase3_apis option" where
  "remove_ownership_of_non_destructible_types v =
     (if non_destructible_types v = [] then Some v
      else apivec_from_iter (map (withdraw_one (non_destructible_types v)) (apis v)))"

section \<open>Which functions make or free an object of a class\<close>

definition important_for :: "qualified_name list \<Rightarrow> fn_pre_phase3 \<Rightarrow> qualified_name option" where
  "important_for concrete_types api =
     (case api of
        Api_Function name fn analysis \<Rightarrow>
          if fa_ignore_reason analysis \<noteq> Inr () then None
          else (case fa_kind analysis of
                  FnKind_TraitMethod kind impl_for _ \<Rightarrow>
                    if kind \<in> {Trait_Alloc, Trait_Dealloc, Trait_CopyConstructor, Trait_MoveConstructor}
                       \<or> kind = Trait_Destructor \<and> impl_for \<in> set concrete_types
                    then Some impl_for else None
                | FnKind_Method (Constructor _) impl_for \<Rightarrow>
                    if impl_for \<in> set concrete_types then Some impl_for else None
                | _ \<Rightarrow> None)
      | _ \<Rightarrow> None)"

definition concrete_type_names :: "('td, 'st, 'fn, 'sub) api list \<Rightarrow> qualified_name list" where
  "concrete_type_names l =
     concat (map (\<lambda>api. case api of Api_ConcreteType name _ _ _ _ _ \<Rightarrow> [an_name name] | _ \<Rightarrow> []) l)"

type_synonym important_functions = "(qualified_name, qualified_name list) index_map"

definition note_important ::
    "qualified_name list \<Rightarrow> fn_pre_phase3 \<Rightarrow> important_functions \<Rightarrow> important_functions" where
  "note_important concrete_types api results =
     (case important_for concrete_types api of
        None \<Rightarrow> results
      | Some impl_for \<Rightarrow>
          imap_insert impl_for
            ((case map_of results impl_for of Some l \<Rightarrow> l | None \<Rightarrow> []) @ [Api_name api]) results)"

definition find_important_constructors :: "fn_pre_phase3_apis \<Rightarrow> important_functions" where
  "find_important_constructors v = fold (note_important (concrete_type_names (apis v))) (apis v) []"

text \<open>\<open>remove(..).unwrap_or_default()\<close>.\<close>

definition take_entry ::
    "qualified_name \<Rightarrow> important_functions \<Rightarrow> qualified_name list \<times> important_functions" where
  "take_entry name m = ((case map_of m name of Some l \<Rightarrow> l | None \<Rightarrow> []), AList.delete name m)"

definition decorate_struct ::
    "api_name \<Rightarrow> pod_and_constructor_analysis \<Rightarrow> important_functions \<Rightarrow>
     pod_and_dep_analysis \<times> important_functions" where
  "decorate_struct name fn_struct m =
     (let pod = pca_pod fn_struct;
          (ds, m) = (if pa_kind pod = Abstract \<or> pa_num_generics pod > 0 then ([], m)
                     else take_entry (an_name name) m)
      in (\<lparr>pda_pod = pod, pda_constructor_and_allocator_deps = ds,
           pda_constructors = pca_constructors fn_struct\<rparr>, m))"

definition decorating ::
    "important_functions \<Rightarrow>
     (typedef_analysis, pod_and_constructor_analysis, fn_analysis, subclass_analysis,
      typedef_analysis, pod_and_dep_analysis, fn_analysis, subclass_analysis) conversions" where
  "decorating m =
     \<lparr>func_conversion = fun_unchanged,
      struct_conversion = (\<lambda>name details fn_struct. Inr [Api_Struct name details (fst (decorate_struct name fn_struct m))]),
      enum_conversion = enum_unchanged, typedef_conversion = typedef_unchanged,
      subclass_conversion = subclass_unchanged\<rparr>"

text \<open>\<^verbatim>\<open>convert_apis\<close> with a struct conversion that takes entries out of the map as it goes.\<close>

fun decorate_items :: "fn_pre_phase3 list \<Rightarrow> important_functions \<Rightarrow> fn_phase list \<times> important_functions" where
  "decorate_items [] m = ([], m)"
| "decorate_items (api # rest) m =
     (let converted = api_or_error (name_info api) (convert_one_api (decorating m) api);
          m' = (case api of Api_Struct name details fn_struct \<Rightarrow> snd (decorate_struct name fn_struct m) | _ \<Rightarrow> m);
          (rest', m'') = decorate_items rest m'
      in (converted @ rest', m''))"

fun decorate_concrete :: "fn_phase list \<Rightarrow> important_functions \<Rightarrow> fn_phase list" where
  "decorate_concrete [] m = []"
| "decorate_concrete (api # rest) m =
     (case api of
        Api_ConcreteType name rs_definition cpp_definition holder ds ia \<Rightarrow>
          (let (ds', m') = take_entry (an_name name) m in
           Api_ConcreteType name rs_definition cpp_definition holder ds' ia # decorate_concrete rest m')
      | _ \<Rightarrow> api # decorate_concrete rest m)"

definition decorate_types_with_constructor_deps :: "fn_pre_phase3_apis \<Rightarrow> fn_phase_apis option" where
  "decorate_types_with_constructor_deps v =
     (let (items, m) = decorate_items (apis v) (find_important_constructors v) in
      case apivec_extend ApiVec_new items of
        None \<Rightarrow> None
      | Some results \<Rightarrow> apivec_from_iter (decorate_concrete (apis results) m))"

section \<open>C types the bridge has to declare\<close>

definition c_types :: "fn_phase list \<Rightarrow> (ident, qualified_name) index_map" where
  "c_types l =
     fold (\<lambda>ty m. imap_insert (get_final_item ty) ty m)
       (List.map_filter (as_ctype known_types) (concat (map deps l))) []"

definition append_ctype_information :: "fn_phase_apis \<Rightarrow> fn_phase_apis option" where
  "append_ctype_information v =
     apivec_extend v (map (\<lambda>(idt, typename). Api_CType (ApiName_new Namespace_new idt) typename) (c_types (apis v)))"

section \<open>Decorating, item by item\<close>

text \<open>What the first pass makes of one item, with the map nothing has been taken from yet.\<close>

definition decorated :: "important_functions \<Rightarrow> fn_pre_phase3 \<Rightarrow> fn_phase" where
  "decorated m api = hd (api_or_error (name_info api) (convert_one_api (decorating m) api))"

lemma convert_decorating:
  "api_or_error (name_info api) (convert_one_api (decorating m) api) = [decorated m api]"
  by (cases api) (simp_all add: decorated_def decorating_def api_or_error_def fun_unchanged_def
      enum_unchanged_def typedef_unchanged_def subclass_unchanged_def)

lemma decorated_name_info [simp]: "name_info (decorated m api) = name_info api"
  by (cases api) (simp_all add: decorated_def decorating_def api_or_error_def fun_unchanged_def
      enum_unchanged_def typedef_unchanged_def subclass_unchanged_def)

lemma decorated_name [simp]: "Api_name (decorated m api) = Api_name api"
  by (simp add: Api_name_def)

lemma decorated_struct [simp]:
  "decorated m (Api_Struct name details fn_struct) =
     Api_Struct name details (fst (decorate_struct name fn_struct m))"
  by (simp add: decorated_def decorating_def api_or_error_def)

lemma decorated_function [simp]: "decorated m (Api_Function name fn analysis) = Api_Function name fn analysis"
  by (simp add: decorated_def decorating_def api_or_error_def fun_unchanged_def)

lemma decorated_is_struct:
  "decorated m api = Api_Struct name details analysis \<Longrightarrow>
     \<exists>fn_struct. api = Api_Struct name details fn_struct \<and> analysis = fst (decorate_struct name fn_struct m)"
  by (cases api) (auto simp: decorated_def decorating_def api_or_error_def fun_unchanged_def
      enum_unchanged_def typedef_unchanged_def subclass_unchanged_def)

lemma decorated_is_concrete:
  "decorated m api = Api_ConcreteType name rs_definition cpp_definition holder ds ia \<longleftrightarrow>
     api = Api_ConcreteType name rs_definition cpp_definition holder ds ia"
  by (cases api) (auto simp: decorated_def decorating_def api_or_error_def fun_unchanged_def
      enum_unchanged_def typedef_unchanged_def subclass_unchanged_def)

lemma decorated_is_function:
  "decorated m api = Api_Function name fn analysis \<longleftrightarrow> api = Api_Function name fn analysis"
  by (cases api) (auto simp: decorated_def decorating_def api_or_error_def fun_unchanged_def
      enum_unchanged_def typedef_unchanged_def subclass_unchanged_def)

lemma decorate_struct_local:
  "map_of m (an_name name) = map_of m' (an_name name) \<Longrightarrow>
     fst (decorate_struct name fn_struct m) = fst (decorate_struct name fn_struct m')"
  by (simp add: decorate_struct_def take_entry_def Let_def)

lemma decorated_local:
  assumes "map_of m (Api_name api) = map_of m' (Api_name api)"
  shows "decorated m api = decorated m' api"
proof (cases "\<exists>name details fn_struct. api = Api_Struct name details fn_struct")
  case True
  then obtain name details fn_struct where "api = Api_Struct name details fn_struct" by blast
  with assms decorate_struct_local[of m name m' fn_struct] show ?thesis by (simp add: Api_name_def)
next
  case False
  then show ?thesis by (cases api) (simp_all add: decorated_def decorating_def)
qed

lemma taken_from_elsewhere:
  "an_name name \<noteq> n \<Longrightarrow> map_of (snd (decorate_struct name fn_struct m)) n = map_of m n"
  by (auto simp: decorate_struct_def take_entry_def Let_def delete_conv')

definition is_struct :: "('td, 'st, 'fn, 'sub) api \<Rightarrow> bool" where
  "is_struct api = (case api of Api_Struct _ _ _ \<Rightarrow> True | _ \<Rightarrow> False)"

lemma decorate_items_each:
  assumes "distinct (map Api_name l)" and "\<forall>api \<in> set l. map_of m (Api_name api) = map_of m0 (Api_name api)"
  shows "fst (decorate_items l m) = map (decorated m0) l"
  using assms
proof (induction l arbitrary: m)
  case (Cons api l)
  let ?m = "case api of Api_Struct name details fn_struct \<Rightarrow> snd (decorate_struct name fn_struct m) | _ \<Rightarrow> m"
  have "map_of ?m (Api_name x) = map_of m0 (Api_name x)" if "x \<in> set l" for x
  proof -
    have "Api_name x \<in> Api_name ` set l" using that by simp
    with Cons.prems(1) have "Api_name api \<noteq> Api_name x" by auto
    then have "map_of ?m (Api_name x) = map_of m (Api_name x)"
      by (cases api) (simp_all add: taken_from_elsewhere Api_name_def)
    with Cons.prems(2) that show ?thesis by simp
  qed
  with Cons.IH[of ?m] Cons.prems have "fst (decorate_items l ?m) = map (decorated m0) l" by simp
  moreover have "decorated m api = decorated m0 api" using Cons.prems(2) by (intro decorated_local) simp
  ultimately show ?case by (simp add: convert_decorating split_beta Let_def)
qed simp

lemma decorate_items_leaves:
  "\<forall>api \<in> set l. is_struct api \<longrightarrow> Api_name api \<noteq> n \<Longrightarrow> map_of (snd (decorate_items l m)) n = map_of m n"
proof (induction l arbitrary: m)
  case (Cons api l)
  let ?m = "case api of Api_Struct name details fn_struct \<Rightarrow> snd (decorate_struct name fn_struct m) | _ \<Rightarrow> m"
  have "map_of ?m n = map_of m n"
    using Cons.prems by (cases api) (simp_all add: taken_from_elsewhere Api_name_def is_struct_def)
  with Cons.IH[of ?m] Cons.prems show ?case by (simp add: split_beta Let_def)
qed simp

text \<open>The second pass touches the concrete types only.\<close>

definition with_deps :: "important_functions \<Rightarrow> fn_phase \<Rightarrow> fn_phase" where
  "with_deps m api =
     (case api of
        Api_ConcreteType name rs_definition cpp_definition holder ds ia \<Rightarrow>
          Api_ConcreteType name rs_definition cpp_definition holder (fst (take_entry (an_name name) m)) ia
      | _ \<Rightarrow> api)"

lemma with_deps_name [simp]: "Api_name (with_deps m api) = Api_name api"
  by (cases api) (simp_all add: with_deps_def Api_name_def)

lemma decorate_concrete_each:
  assumes "distinct (map Api_name l)" and "\<forall>api \<in> set l. map_of m (Api_name api) = map_of m0 (Api_name api)"
  shows "decorate_concrete l m = map (with_deps m0) l"
  using assms
proof (induction l arbitrary: m)
  case (Cons api l)
  show ?case
  proof (cases "\<exists>name rs_definition cpp_definition holder ds ia.
      api = Api_ConcreteType name rs_definition cpp_definition holder ds ia")
    case True
    then obtain name rs_definition cpp_definition holder ds ia where
      api: "api = Api_ConcreteType name rs_definition cpp_definition holder ds ia" by blast
    then have name: "Api_name api = an_name name" by (simp add: Api_name_def)
    have "map_of (AList.delete (an_name name) m) (Api_name x) = map_of m0 (Api_name x)" if "x \<in> set l" for x
    proof -
      have "Api_name x \<in> Api_name ` set l" using that by simp
      with Cons.prems(1) name have "an_name name \<noteq> Api_name x" by auto
      with Cons.prems(2) that show ?thesis by (simp add: delete_conv')
    qed
    with Cons.IH[of "AList.delete (an_name name) m"] Cons.prems
    have "decorate_concrete l (AList.delete (an_name name) m) = map (with_deps m0) l" by simp
    moreover have "map_of m (an_name name) = map_of m0 (an_name name)" using Cons.prems(2) name by simp
    ultimately show ?thesis by (simp add: api take_entry_def with_deps_def)
  next
    case False
    with Cons show ?thesis by (cases api) (simp_all add: with_deps_def)
  qed
qed simp

lemma decorating_runs:
  assumes "distinct (map Api_name (apis v))"
  obtains results m where "decorate_types_with_constructor_deps v = Some results"
    "apis results = map (with_deps m) (map (decorated (find_important_constructors v)) (apis v))"
    "\<And>n. \<forall>api \<in> set (apis v). is_struct api \<longrightarrow> Api_name api \<noteq> n \<Longrightarrow>
       map_of m n = map_of (find_important_constructors v) n"
proof -
  let ?m0 = "find_important_constructors v"
  obtain items m where pass: "decorate_items (apis v) ?m0 = (items, m)" by fastforce
  with decorate_items_each[OF assms, of ?m0 ?m0] have items: "items = map (decorated ?m0) (apis v)" by simp
  have names: "map Api_name items = map Api_name (apis v)" by (simp add: items)
  with assms have "distinct (map Api_name items)" by simp
  from collect_distinct[OF this] obtain w where w: "apivec_extend ApiVec_new items = Some w" "apis w = items"
    by (auto simp: apivec_from_iter_def)
  have second: "decorate_concrete items m = map (with_deps m) items"
    using names assms by (intro decorate_concrete_each) simp_all
  have "map Api_name (map (with_deps m) items) = map Api_name items" by simp
  with names assms obtain results where "apivec_from_iter (decorate_concrete items m) = Some results"
    "apis results = decorate_concrete items m"
    using collect_distinct[of "map (with_deps m) items"] second by metis
  with that[of results m] w pass second items decorate_items_leaves[of "apis v" _ ?m0] show thesis
    by (auto simp: decorate_types_with_constructor_deps_def)
qed


lemma important_found:
  "map_of (fold (note_important c) l m) n =
     (let new = map Api_name (filter (\<lambda>api. important_for c api = Some n) l) in
      if new = [] then map_of m n
      else Some ((case map_of m n of Some old \<Rightarrow> old | None \<Rightarrow> []) @ new))"
proof (induction l arbitrary: m)
  case (Cons api l)
  show ?case unfolding fold_simps comp_def Cons.IH
    by (cases "important_for c api") (auto simp: note_important_def Let_def)
qed simp

section \<open>Withdrawing and discarding, item by item\<close>

lemma withdraw_nothing: "withdraw_one [] api = api"
proof -
  have "withdraw_function [] analysis = analysis" for analysis
    by (simp add: withdraw_function_def split: fn_kind.splits method_kind.splits)
  then show ?thesis by (cases api) (simp_all add: withdraw_one_def)
qed

lemma withdraw_one_name [simp]: "Api_name (withdraw_one m api) = Api_name api"
  by (cases api) (simp_all add: withdraw_one_def Api_name_def)

lemma withdrawing_runs:
  assumes "distinct (map Api_name (apis v))"
  obtains v' where "remove_ownership_of_non_destructible_types v = Some v'"
    "apis v' = map (withdraw_one (non_destructible_types v)) (apis v)"
proof (cases "non_destructible_types v = []")
  case True
  then show thesis using that[of v]
    by (simp add: remove_ownership_of_non_destructible_types_def withdraw_nothing map_idI)
next
  case False
  let ?l = "map (withdraw_one (non_destructible_types v)) (apis v)"
  have "map Api_name ?l = map Api_name (apis v)" by simp
  with assms collect_distinct[of ?l] obtain v' where "apivec_from_iter ?l = Some v'" "apis v' = ?l" by metis
  with False that show thesis by (simp add: remove_ownership_of_non_destructible_types_def)
qed

lemma non_destructible_found:
  "map_of (non_destructible_types v) n \<noteq> None \<longleftrightarrow>
     (\<exists>api \<in> set (apis v). \<exists>err. why_not_destructible api = Some (n, err))"
proof -
  have "map_of (fold (\<lambda>api m. case why_not_destructible api of
          Some (name, err) \<Rightarrow> imap_insert name err m | None \<Rightarrow> m) l m) n \<noteq> None \<longleftrightarrow>
      map_of m n \<noteq> None \<or> (\<exists>api \<in> set l. \<exists>err. why_not_destructible api = Some (n, err))" for l m
  proof (induction l arbitrary: m)
    case (Cons api l)
    show ?case unfolding fold_simps comp_def Cons.IH
      by (cases "why_not_destructible api") (auto split: prod.splits)
  qed simp
  from this[of "apis v" "[]"] show ?thesis by (simp add: non_destructible_types_def)
qed

definition discard_one :: "fn_phase \<Rightarrow> fn_phase" where
  "discard_one api =
     (case api of
        Api_Function name fn analysis \<Rightarrow>
          (case fa_ignore_reason analysis of
             Inl (ConvertErrorWithContext err ctx) \<Rightarrow> Api_IgnoredItem name err ctx
           | Inr _ \<Rightarrow> api)
      | _ \<Rightarrow> api)"

lemma discard_one_name [simp]: "Api_name (discard_one api) = Api_name api"
  by (cases api) (simp_all add: discard_one_def Api_name_def split: sum.splits convert_error_with_context.splits)

lemma discarding_runs:
  assumes "distinct (map Api_name (apis v))"
  obtains v' where "discard_ignored_functions v = Some v'" "apis v' = map discard_one (apis v)"
proof -
  let ?cv = "\<lparr>func_conversion = keep_unless_ignored, struct_conversion = struct_unchanged,
      enum_conversion = enum_unchanged, typedef_conversion = typedef_unchanged,
      subclass_conversion = subclass_unchanged\<rparr> ::
     (typedef_analysis, pod_and_dep_analysis, fn_analysis, subclass_analysis,
      typedef_analysis, pod_and_dep_analysis, fn_analysis, subclass_analysis) conversions"
  have "api_or_error (name_info api) (convert_one_api ?cv api) = [discard_one api]" for api
    by (cases api) (simp_all add: api_or_error_def discard_one_def keep_unless_ignored_def struct_unchanged_def
        enum_unchanged_def typedef_unchanged_def subclass_unchanged_def
        split: sum.splits convert_error_with_context.splits)
  then have converted: "converted_apis ?cv l = map discard_one l" for l
    by (induction l) (simp_all add: converted_apis_def)
  have "map Api_name (map discard_one (apis v)) = map Api_name (apis v)" by simp
  with assms collect_distinct[of "map discard_one (apis v)"] obtain v' where
    "apivec_from_iter (map discard_one (apis v)) = Some v'" "apis v' = map discard_one (apis v)" by metis
  with that converted show thesis
    by (simp add: discard_ignored_functions_def convert_apis_def apivec_from_iter_def)
qed

section \<open>Properties\<close>

text \<open>What makes, copies, moves, allocates or frees an object of the class \<open>n\<close>.\<close>

definition owning :: "qualified_name \<Rightarrow> fn_analysis \<Rightarrow> bool" where
  "owning n analysis =
     (case fa_kind analysis of
        FnKind_Method (Constructor _) impl_for \<Rightarrow> impl_for = n
      | FnKind_TraitMethod kind impl_for _ \<Rightarrow> impl_for = n \<and>
          kind \<in> {Trait_CopyConstructor, Trait_MoveConstructor, Trait_Alloc, Trait_Dealloc, Trait_Destructor}
      | _ \<Rightarrow> False)"

definition owning_function :: "qualified_name \<Rightarrow> ('td, 'st, fn_analysis, 'sub) api \<Rightarrow> bool" where
  "owning_function n api =
     (case api of Api_Function name fn analysis \<Rightarrow> owning n analysis | _ \<Rightarrow> False)"

lemma withdrawn_is_ignored:
  "owning n analysis \<Longrightarrow> map_of m n \<noteq> None \<Longrightarrow> fa_ignore_reason (withdraw_function m analysis) \<noteq> Inr ()"
  by (auto simp: owning_def withdraw_function_def split: fn_kind.splits method_kind.splits)

lemma withdraw_function_kind [simp]: "fa_kind (withdraw_function m analysis) = fa_kind analysis"
  by (simp add: withdraw_function_def split: fn_kind.splits method_kind.splits option.splits)

text \<open>
  C17: what Rust may not destroy it never comes to own. Take any class whose destructor is
  inaccessible, or holds what the compiler cannot destroy: the passes that withdraw ownership,
  list the functions of every class and discard what is ignored run without a panic, keep every
  name, and leave no constructor, copy, move, allocation, release or destructor of the class.
\<close>

theorem undestroyable_is_never_owned:
  assumes "apivec_wf v" and "api \<in> set (apis v)" and "why_not_destructible api = Some (n, err)"
  shows "\<exists>v1 v2 v3. remove_ownership_of_non_destructible_types v = Some v1 \<and>
    decorate_types_with_constructor_deps v1 = Some v2 \<and> discard_ignored_functions v2 = Some v3 \<and>
    map Api_name (apis v3) = map Api_name (apis v) \<and> \<not> list_ex (owning_function n) (apis v3)"
proof -
  let ?m = "non_destructible_types v"
  note unique = collected.unique[OF assms(1)]
  obtain v1 where v1: "remove_ownership_of_non_destructible_types v = Some v1" "apis v1 = map (withdraw_one ?m) (apis v)"
    using unique by (rule withdrawing_runs)
  have "map Api_name (apis v1) = map Api_name (apis v)" by (simp add: v1(2))
  with unique have unique1: "distinct (map Api_name (apis v1))" by simp
  obtain v2 m where v2: "decorate_types_with_constructor_deps v1 = Some v2"
    "apis v2 = map (with_deps m) (map (decorated (find_important_constructors v1)) (apis v1))"
    using unique1 by (rule decorating_runs)
  have "map Api_name (apis v2) = map Api_name (apis v)" by (simp add: v2(2) v1(2))
  with unique have "distinct (map Api_name (apis v2))" by simp
  then obtain v3 where v3: "discard_ignored_functions v2 = Some v3" "apis v3 = map discard_one (apis v2)"
    by (rule discarding_runs)
  have "\<not> owning_function n x" if "x \<in> set (apis v3)" for x
  proof
    assume "owning_function n x"
    then obtain name fn analysis where x: "x = Api_Function name fn analysis" "owning n analysis"
      by (cases x) (auto simp: owning_function_def)
    from that v3(2) obtain y where y: "y \<in> set (apis v2)" "x = discard_one y" by auto
    with x have "y = x" "fa_ignore_reason analysis = Inr ()"
      by (cases y; auto simp: discard_one_def split: sum.splits convert_error_with_context.splits)+
    with y(1) v2(2) x obtain z where z: "z \<in> set (apis v1)"
      "Api_Function name fn analysis = with_deps m (decorated (find_important_constructors v1) z)" by auto
    then have "decorated (find_important_constructors v1) z = Api_Function name fn analysis"
      by (auto simp: with_deps_def split: api.splits)
    then have "z = Api_Function name fn analysis" by (simp add: decorated_is_function)
    with z(1) v1(2) have "\<exists>w :: fn_pre_phase3. Api_Function name fn analysis = withdraw_one ?m w" by auto
    then obtain w :: fn_pre_phase3 where "Api_Function name fn analysis = withdraw_one ?m w" by blast
    then obtain analysis0 where "analysis = withdraw_function ?m analysis0"
      by (cases w) (simp_all add: withdraw_one_def)
    moreover from this x(2) have "owning n analysis0" by (simp add: owning_def)
    moreover have "map_of ?m n \<noteq> None" using assms(2,3) non_destructible_found by blast
    ultimately show False using withdrawn_is_ignored \<open>fa_ignore_reason analysis = Inr ()\<close> by metis
  qed
  then have "\<not> list_ex (owning_function n) (apis v3)" by (auto simp: list_ex_iff)
  moreover have "map Api_name (apis v3) = map Api_name (apis v)" by (simp add: v3(2) v2(2) v1(2))
  ultimately show ?thesis using v1(1) v2(1) v3(1) by blast
qed

text \<open>
  Every class keeps a note of exactly the functions that make or free an object of it. In the
  list that decorating returns, a class that is abstract or a template lists none; any other lists,
  in their order, the names of the functions not ignored that allocate, free, copy or move it.
\<close>

theorem constructor_deps_are_listed:
  assumes "apivec_wf v" and "decorate_types_with_constructor_deps v = Some results"
    and "Api_Struct name details analysis \<in> set (apis results)"
  shows "pda_constructor_and_allocator_deps analysis =
    (if pa_kind (pda_pod analysis) = Abstract \<or> pa_num_generics (pda_pod analysis) > 0 then []
     else map Api_name (filter (\<lambda>api. important_for (concrete_type_names (apis v)) api = Some (an_name name)) (apis v)))"
proof -
  obtain m where results: "apis results = map (with_deps m) (map (decorated (find_important_constructors v)) (apis v))"
    using decorating_runs[OF collected.unique[OF assms(1)]] assms(2) by (metis option.inject)
  with assms(3) obtain api where api: "api \<in> set (apis v)"
    "Api_Struct name details analysis = with_deps m (decorated (find_important_constructors v) api)" by auto
  then have "decorated (find_important_constructors v) api = Api_Struct name details analysis"
    by (auto simp: with_deps_def split: api.splits)
  from decorated_is_struct[OF this] obtain fn_struct where
    "analysis = fst (decorate_struct name fn_struct (find_important_constructors v))" by blast
  moreover have "(case map_of (find_important_constructors v) (an_name name) of Some l \<Rightarrow> l | None \<Rightarrow> []) =
      map Api_name (filter (\<lambda>api. important_for (concrete_type_names (apis v)) api = Some (an_name name)) (apis v))"
    unfolding find_important_constructors_def important_found by (simp add: Let_def)
  ultimately show ?thesis by (simp add: decorate_struct_def take_entry_def Let_def)
qed


text \<open>A class with a private destructor, and its constructor; a class with no more than a copy function.\<close>

definition sealed_class :: fn_pre_phase3 where
  "sealed_class =
     (case sample_class ''S'' [] of
        Api_Struct name details analysis \<Rightarrow>
          Api_Struct name details
            (analysis\<lparr>pca_constructors := (pca_constructors analysis)\<lparr>pc_destructor_inaccessible := True\<rparr>\<rparr>)
      | api \<Rightarrow> api)"

definition sample_sealed :: fn_pre_phase3_apis where
  "sample_sealed =
     (let items = [sealed_class, sample_method ''S'' ''S_new'' (Constructor False)]
      in \<lparr>apis = items, names = map Api_name items\<rparr>)"

lemma sample_sealed_wf: "apivec_wf sample_sealed"
  by (simp add: apivec_wf_def sample_sealed_def sealed_class_def hierarchy_simps stub_ok_def is_displaced_function_def)

lemma undestroyable_is_never_owned_witness:
  "\<exists>v1 v2 v3. remove_ownership_of_non_destructible_types sample_sealed = Some v1 \<and>
    decorate_types_with_constructor_deps v1 = Some v2 \<and> discard_ignored_functions v2 = Some v3 \<and>
    \<not> list_ex (owning_function (QualifiedName [''ns''] ''S'')) (apis v3)"
proof -
  have "sealed_class \<in> set (apis sample_sealed)" by (simp add: sample_sealed_def Let_def)
  moreover have "why_not_destructible sealed_class = Some (QualifiedName [''ns''] ''S'', DestructorInaccessible)"
    by (simp add: why_not_destructible_def sealed_class_def hierarchy_simps)
  ultimately show ?thesis using undestroyable_is_never_owned[OF sample_sealed_wf] by blast
qed

definition sample_copied :: fn_pre_phase3_apis where
  "sample_copied =
     (let copy = (case sample_destructor ''S'' None of
                    Api_Function name fn analysis \<Rightarrow>
                      Api_Function (sample_name ''S_copy'') fn
                        (analysis\<lparr>fa_kind := (case fa_kind analysis of
                            FnKind_TraitMethod _ t details \<Rightarrow> FnKind_TraitMethod Trait_CopyConstructor t details
                          | kind \<Rightarrow> kind)\<rparr>)
                  | _ \<Rightarrow> sealed_class);
          items = [sample_class ''S'' [], copy]
      in \<lparr>apis = items, names = map Api_name items\<rparr>)"

lemma constructor_deps_are_listed_witness:
  "\<exists>results details analysis. decorate_types_with_constructor_deps sample_copied = Some results \<and>
     Api_Struct (sample_name ''S'') details analysis \<in> set (apis results) \<and>
     pda_constructor_and_allocator_deps analysis = [QualifiedName [''ns''] ''S_copy'']"
proof -
  have wf: "apivec_wf sample_copied"
    by (simp add: apivec_wf_def sample_copied_def hierarchy_simps stub_ok_def is_displaced_function_def)
  obtain results m where run: "decorate_types_with_constructor_deps sample_copied = Some results"
    "apis results = map (with_deps m) (map (decorated (find_important_constructors sample_copied)) (apis sample_copied))"
    using collected.unique[OF wf] by (rule decorating_runs)
  obtain fn_struct where s: "sample_class ''S'' [] = Api_Struct (sample_name ''S'') (sample_details ''S'') fn_struct"
    "pca_pod fn_struct = sample_pod [] [] []" by (simp add: sample_class_def)
  let ?analysis = "fst (decorate_struct (sample_name ''S'') fn_struct (find_important_constructors sample_copied))"
  have "sample_class ''S'' [] \<in> set (apis sample_copied)" by (simp add: sample_copied_def Let_def)
  then have "with_deps m (decorated (find_important_constructors sample_copied) (sample_class ''S'' [])) \<in> set (apis results)"
    unfolding run(2) by simp
  then have mem: "Api_Struct (sample_name ''S'') (sample_details ''S'') ?analysis \<in> set (apis results)"
    by (simp add: s(1) with_deps_def)
  from constructor_deps_are_listed[OF wf run(1) mem]
  have "pda_constructor_and_allocator_deps ?analysis = [QualifiedName [''ns''] ''S_copy'']"
    by (simp add: decorate_struct_def s(2) sample_copied_def hierarchy_simps important_for_def concrete_type_names_def split_beta)
  with run(1) mem show ?thesis by blast
qed


end
