(* ===== verification/MangledNames.thy ===== *)
theory MangledNames imports FunctionWrapper begin

text \<open>
  What bindgen's output does not say and the mangled names do: the ref-qualifier of a member function
  (\<^verbatim>\<open>parse/ref_qualifier.rs\<close>) and the linkage of a variable (\<^verbatim>\<open>parse/linkage.rs\<close>). A string is its
  bytes.
\<close>

section \<open>Prefixes\<close>

definition strip_str :: "string \<Rightarrow> string \<Rightarrow> string option" where
  "strip_str p s = (if prefix p s then Some (drop (length p) s) else None)"

lemma strip_str_append [simp]: "strip_str p (p @ s) = Some s"
  by (simp add: strip_str_def)

fun split_once :: "string \<Rightarrow> string \<Rightarrow> (string \<times> string) option" where
  "split_once sep [] = (if sep = [] then Some ([], []) else None)"
| "split_once sep (c # cs) =
     (if prefix sep (c # cs) then Some ([], drop (length sep) (c # cs))
      else map_option (\<lambda>(a, b). (c # a, b)) (split_once sep cs))"

text \<open>The mark bindgen puts in front of a link name.\<close>

definition unmarked :: "string \<Rightarrow> string" where
  "unmarked s = (case strip_str [CHR 0x01] s of Some rest \<Rightarrow> rest | None \<Rightarrow> s)"

definition itanium_rest :: "string \<Rightarrow> string option" where
  "itanium_rest mangled_name =
     (case strip_str ''__Z'' mangled_name of
        Some rest \<Rightarrow> Some rest
      | None \<Rightarrow> strip_str ''_Z'' mangled_name)"

definition skip_first :: "char \<Rightarrow> string \<Rightarrow> string" where
  "skip_first cv rest = (case rest of c # cs \<Rightarrow> if c = cv then cs else rest | [] \<Rightarrow> rest)"

definition skip_cv :: "string \<Rightarrow> string" where
  "skip_cv rest = fold skip_first ''rVK'' rest"

section \<open>Ref-qualifiers\<close>

definition itanium_ref_qualifier :: "string \<Rightarrow> cpp_ref_qualifier" where
  "itanium_ref_qualifier mangled_name =
     (case itanium_rest mangled_name of
        None \<Rightarrow> RefQualifier_None
      | Some rest \<Rightarrow>
          (case strip_str ''N'' rest of
             None \<Rightarrow> RefQualifier_None
           | Some rest \<Rightarrow>
               (case skip_cv rest of
                  [] \<Rightarrow> RefQualifier_None
                | c # _ \<Rightarrow> if c = CHR ''R'' then LValue else if c = CHR ''O'' then RValue
                           else RefQualifier_None)))"

definition msvc_ref_qualifier :: "string \<Rightarrow> cpp_ref_qualifier" where
  "msvc_ref_qualifier mangled_name =
     (case strip_str ''?'' mangled_name of
        None \<Rightarrow> RefQualifier_None
      | Some rest \<Rightarrow>
          (case split_once ''@@'' rest of
             None \<Rightarrow> RefQualifier_None
           | Some (qualified_name, rest) \<Rightarrow>
               if CHR ''?'' \<in> set qualified_name then RefQualifier_None
               else case rest of
                 [] \<Rightarrow> RefQualifier_None
               | fclass # rest \<Rightarrow>
                   if fclass \<in> set ''CDKLST'' then RefQualifier_None
                   else if fclass \<in> set ''ABCDEFGHIJKLMNOPQRSTUVWX'' then
                     (case dropWhile (\<lambda>c. c \<in> set ''EFI'') rest of
                        [] \<Rightarrow> RefQualifier_None
                      | c # _ \<Rightarrow> if c = CHR ''G'' then LValue else if c = CHR ''H'' then RValue
                                 else RefQualifier_None)
                   else RefQualifier_None))"

definition ref_qualifier_from_mangled_name :: "string \<Rightarrow> cpp_ref_qualifier" where
  "ref_qualifier_from_mangled_name mangled_name =
     (let mangled_name = unmarked mangled_name in
      case mangled_name of
        CHR ''?'' # _ \<Rightarrow> msvc_ref_qualifier mangled_name
      | _ \<Rightarrow> itanium_ref_qualifier mangled_name)"

section \<open>Linkage\<close>

datatype cpp_linkage = External | Internal | Linkage_Unknown

definition ANONYMOUS_NAMESPACE :: string where
  "ANONYMOUS_NAMESPACE = ''_GLOBAL__N_''"

definition starts_with_source_name :: "string \<Rightarrow> bool" where
  "starts_with_source_name mangled_name =
     (case mangled_name of [] \<Rightarrow> False | c # _ \<Rightarrow> c \<in> set ''123456789'')"

text \<open>A length is a \<^verbatim>\<open>usize\<close>: no digits, or more than fit into 64 bits, do not parse.\<close>

definition take_source_name :: "string \<Rightarrow> (string \<times> string) option" where
  "take_source_name mangled_name =
     (let digits = takeWhile is_digit mangled_name;
          rest = dropWhile is_digit mangled_name;
          len = string_to_nat digits
      in if digits = [] \<or> len \<ge> 2 ^ 64 then None
         else if length rest < len then None
         else Some (take len rest, drop len rest))"

lemma take_source_name_shorter:
  "take_source_name s = Some (name, tail) \<Longrightarrow> length tail < length s"
proof -
  assume a: "take_source_name s = Some (name, tail)"
  then have "takeWhile is_digit s \<noteq> []" "tail = drop (string_to_nat (takeWhile is_digit s)) (dropWhile is_digit s)"
    by (auto simp: take_source_name_def Let_def split: if_splits)
  moreover have "length s = length (takeWhile is_digit s) + length (dropWhile is_digit s)"
    by (metis length_append takeWhile_dropWhile_id)
  ultimately show ?thesis by (cases "takeWhile is_digit s") auto
qed

function nested_linkage :: "string \<Rightarrow> cpp_linkage" where
  "nested_linkage [] = Linkage_Unknown"
| "nested_linkage (c # tail) =
     (if c = CHR ''E'' then External
      else if c = CHR ''L'' \<and> starts_with_source_name tail then Internal
      else if is_digit c then
        (case take_source_name (c # tail) of
           None \<Rightarrow> Linkage_Unknown
         | Some (name, rest) \<Rightarrow> if prefix ANONYMOUS_NAMESPACE name then Internal else nested_linkage rest)
      else Linkage_Unknown)"
  by pat_completeness auto
termination
  by (relation "measure length") (auto dest: take_source_name_shorter)

definition itanium_linkage :: "string \<Rightarrow> cpp_linkage" where
  "itanium_linkage mangled_name =
     (case itanium_rest mangled_name of
        None \<Rightarrow> Linkage_Unknown
      | Some rest \<Rightarrow>
          (case strip_str ''N'' rest of
             Some rest \<Rightarrow> nested_linkage (skip_cv rest)
           | None \<Rightarrow>
               (case rest of
                  CHR ''L'' # tail \<Rightarrow>
                    if starts_with_source_name tail then Internal
                    else if starts_with_source_name rest then External else Linkage_Unknown
                | _ \<Rightarrow> if starts_with_source_name rest then External else Linkage_Unknown)))"

definition linkage_from_link_name :: "string option \<Rightarrow> cpp_linkage" where
  "linkage_from_link_name link_name =
     (case link_name of
        None \<Rightarrow> External
      | Some link_name \<Rightarrow>
          (let mangled_name = unmarked link_name in
           if prefix ''?'' mangled_name then Linkage_Unknown else itanium_linkage mangled_name))"

section \<open>The grammar of the names\<close>

text \<open>How a compiler spells what the readers recover.\<close>

fun itanium_qualifier :: "cpp_ref_qualifier \<Rightarrow> string" where
  "itanium_qualifier RefQualifier_None = ''''"
| "itanium_qualifier LValue = ''R''"
| "itanium_qualifier RValue = ''O''"

fun msvc_qualifier :: "cpp_ref_qualifier \<Rightarrow> string" where
  "msvc_qualifier RefQualifier_None = ''''"
| "msvc_qualifier LValue = ''G''"
| "msvc_qualifier RValue = ''H''"

definition link_mark :: "bool \<Rightarrow> string" where
  "link_mark marked = (if marked then [CHR 0x01] else [])"

definition itanium_start :: "bool \<Rightarrow> string" where
  "itanium_start mach_o = (if mach_o then ''__Z'' else ''_Z'')"

definition cv_letters :: "bool \<Rightarrow> bool \<Rightarrow> bool \<Rightarrow> string" where
  "cv_letters r v k = (if r then ''r'' else '''') @ (if v then ''V'' else '''') @ (if k then ''K'' else '''')"

definition source_name :: "string \<Rightarrow> string" where
  "source_name s = nat_to_string (length s) @ s"

definition mangled_variable :: "bool \<Rightarrow> string list \<Rightarrow> string \<Rightarrow> bool \<Rightarrow> string" where
  "mangled_variable mach_o scopes name internal =
     itanium_start mach_o @
     (let entity = (if internal then ''L'' else '''') @ source_name name in
      if scopes = [] then entity else ''N'' @ concat (map source_name scopes) @ entity @ ''E'')"

lemma unmarked_mark: "prefix ''_'' s \<or> prefix ''?'' s \<Longrightarrow> unmarked (link_mark m @ s) = s"
  by (cases s) (auto simp: unmarked_def link_mark_def strip_str_def)

lemma itanium_rest_start: "hd s \<noteq> CHR ''_'' \<Longrightarrow> itanium_rest (itanium_start m @ s) = Some s"
  by (cases s) (auto simp: itanium_rest_def itanium_start_def strip_str_def)

lemma skip_cv_letters:
  assumes "s = [] \<or> hd s \<notin> set ''rVK''"
  shows "skip_cv (cv_letters r v k @ s) = s"
  using assms by (cases s) (auto simp: skip_cv_def skip_first_def cv_letters_def)

section \<open>Reading them back\<close>

lemma split_once_names:
  assumes "list_all (\<lambda>n. n \<noteq> [] \<and> CHR ''@'' \<notin> set n) names" and "names \<noteq> []"
  shows "split_once ''@@'' (join ''@'' names @ ''@@'' @ rest) = Some (join ''@'' names, rest)"
proof -
  have plain: "CHR ''@'' \<notin> set n \<Longrightarrow> n \<noteq> [] \<Longrightarrow> \<not> prefix ''@@'' (CHR ''@'' # s) \<or> s = CHR ''@'' # t \<Longrightarrow>
      split_once ''@@'' (n @ s) = map_option (\<lambda>(a, b). (n @ a, b)) (split_once ''@@'' s)" for n s t
  proof (induction n)
    case (Cons c n)
    then show ?case
      by (cases "n = []") (auto simp: option.map_comp o_def case_prod_unfold)
  qed simp
  from assms show ?thesis
  proof (induction names)
    case (Cons n names)
    show ?case
    proof (cases names)
      case Nil
      with Cons.prems plain[of n "''@@'' @ rest" "CHR ''@'' # rest"] show ?thesis by simp
    next
      case (Cons n' more)
      have IH: "split_once ''@@'' (join ''@'' names @ ''@@'' @ rest) = Some (join ''@'' names, rest)"
        using Cons.IH Cons.prems Cons by simp
      have "hd (join ''@'' names) \<noteq> CHR ''@''" "join ''@'' names \<noteq> []"
        using Cons.prems Cons by (cases n'; cases more; auto)+
      then have "split_once ''@@'' (CHR ''@'' # join ''@'' names @ ''@@'' @ rest) =
          Some (CHR ''@'' # join ''@'' names, rest)"
        using IH by (cases "join ''@'' names") auto
      with plain[of n "CHR ''@'' # join ''@'' names @ ''@@'' @ rest" "join ''@'' names @ ''@@'' @ rest"] Cons.prems Cons
      show ?thesis by (simp add: join_Cons)
    qed
  qed simp
qed

lemma join_chars: "set (join sep xs) \<subseteq> set sep \<union> \<Union> (set ` set xs)"
  by (induction sep xs rule: join.induct) auto

lemma join_holds: "n \<in> set xs \<Longrightarrow> set n \<subseteq> set (join sep xs)"
  by (induction sep xs rule: join.induct) auto

lemma itanium_qualifier_recovered:
  assumes "body = [] \<or> hd body \<notin> set ''rVKRO''"
  shows "itanium_ref_qualifier (itanium_start mach @ ''N'' @ cv_letters r v k @ itanium_qualifier q @ body) = q"
proof -
  have "skip_cv (cv_letters r v k @ itanium_qualifier q @ body) = itanium_qualifier q @ body"
    using assms by (intro skip_cv_letters) (cases q; auto)
  moreover have "itanium_rest (itanium_start mach @ ''N'' @ s) = Some (''N'' @ s)" for s
    by (rule itanium_rest_start) simp
  ultimately show ?thesis using assms
    by (cases q; cases body) (auto simp: itanium_ref_qualifier_def strip_str_def)
qed

lemma msvc_qualifier_recovered:
  assumes "list_all (\<lambda>n. n \<noteq> [] \<and> CHR ''@'' \<notin> set n \<and> CHR ''?'' \<notin> set n) names" and "names \<noteq> []"
    and "fclass \<in> set ''ABEFGHIJMNOPQRUVWX''" and "set exts \<subseteq> set ''EFI''" and "cv \<in> set ''ABCD''"
  shows "msvc_ref_qualifier (''?'' @ join ''@'' names @ ''@@'' @ fclass # exts @ msvc_qualifier q @ cv # body) = q"
proof -
  have "split_once ''@@'' (join ''@'' names @ ''@@'' @ rest) = Some (join ''@'' names, rest)" for rest
    using assms(1,2) by (intro split_once_names) (auto simp: list_all_iff)
  moreover have "CHR ''?'' \<notin> set (join ''@'' names)"
    using join_chars[of "''@''" names] assms(1) by (auto simp: list_all_iff)
  moreover have "fclass \<notin> set ''CDKLST''" "fclass \<in> set ''ABCDEFGHIJKLMNOPQRSTUVWX''"
    using assms(3) by auto
  moreover have "dropWhile (\<lambda>c. c \<in> set ''EFI'') (exts @ msvc_qualifier q @ cv # body) = msvc_qualifier q @ cv # body"
    using assms(4,5) by (subst dropWhile_append2) (cases q; auto)+
  ultimately show ?thesis using assms(5)
    by (cases q) (auto simp: msvc_ref_qualifier_def strip_str_def)
qed

text \<open>What the text calls its limitation: a further question mark among the scopes, and nothing is read.\<close>

lemma msvc_qualifier_given_up:
  assumes "list_all (\<lambda>n. n \<noteq> [] \<and> CHR ''@'' \<notin> set n) names" and "list_ex (\<lambda>n. CHR ''?'' \<in> set n) names"
  shows "msvc_ref_qualifier (''?'' @ join ''@'' names @ ''@@'' @ rest) = RefQualifier_None"
proof -
  from assms(2) have "names \<noteq> []" by auto
  with assms(1) have "split_once ''@@'' (join ''@'' names @ ''@@'' @ rest) = Some (join ''@'' names, rest)"
    by (intro split_once_names) (auto simp: list_all_iff)
  moreover have "CHR ''?'' \<in> set (join ''@'' names)" using assms(2) join_holds by (auto simp: list_ex_iff)
  ultimately show ?thesis by (simp add: msvc_ref_qualifier_def strip_str_def)
qed

text \<open>
  C34: ref-qualifiers survive mangling. Of a member function, marked by bindgen or not, the qualifier its mangled
  name was made with is the one that is read back, whatever its constness, visibility and arguments: under the
  Itanium ABI whatever its scopes are, and under the Microsoft one where the scopes are plain names. Where a
  scope or the function is written with a question mark of its own, as operators and templates are, a Microsoft name
  reads as having no qualifier, the limitation \<^verbatim>\<open>ref_qualifier.rs\<close> documents.
\<close>

theorem member_qualifier_recovered:
  assumes "body = [] \<or> hd body \<notin> set ''rVKRO''"
    and "list_all (\<lambda>n. n \<noteq> [] \<and> CHR ''@'' \<notin> set n \<and> CHR ''?'' \<notin> set n) names" and "names \<noteq> []"
    and "fclass \<in> set ''ABEFGHIJMNOPQRUVWX''" and "set exts \<subseteq> set ''EFI''" and "cv \<in> set ''ABCD''"
    and "list_all (\<lambda>n. n \<noteq> [] \<and> CHR ''@'' \<notin> set n) odd_names" and "list_ex (\<lambda>n. CHR ''?'' \<in> set n) odd_names"
  shows "ref_qualifier_from_mangled_name
       (link_mark m @ itanium_start mach @ ''N'' @ cv_letters r v k @ itanium_qualifier q @ body) = q \<and>
     ref_qualifier_from_mangled_name
       (link_mark m @ ''?'' @ join ''@'' names @ ''@@'' @ fclass # exts @ msvc_qualifier q @ cv # tail) = q \<and>
     ref_qualifier_from_mangled_name
       (link_mark m @ ''?'' @ join ''@'' odd_names @ ''@@'' @ fclass # exts @ msvc_qualifier q @ cv # tail) = RefQualifier_None"
proof (intro conjI)
  have "unmarked (link_mark m @ itanium_start mach @ s) = itanium_start mach @ s" for s
    by (rule unmarked_mark) (simp add: itanium_start_def)
  moreover obtain t where "itanium_start mach = CHR ''_'' # t" by (cases mach) (simp_all add: itanium_start_def)
  ultimately show "ref_qualifier_from_mangled_name
       (link_mark m @ itanium_start mach @ ''N'' @ cv_letters r v k @ itanium_qualifier q @ body) = q"
    using itanium_qualifier_recovered[OF assms(1), of mach r v k q]
    by (simp add: ref_qualifier_from_mangled_name_def Let_def)
  have clean: "unmarked (link_mark m @ ''?'' @ s) = ''?'' @ s" for s
    by (rule unmarked_mark) simp
  with msvc_qualifier_recovered[OF assms(2-6), of q tail]
  show "ref_qualifier_from_mangled_name
       (link_mark m @ ''?'' @ join ''@'' names @ ''@@'' @ fclass # exts @ msvc_qualifier q @ cv # tail) = q"
    by (simp add: ref_qualifier_from_mangled_name_def Let_def)
  from clean msvc_qualifier_given_up[OF assms(7,8), of "fclass # exts @ msvc_qualifier q @ cv # tail"]
  show "ref_qualifier_from_mangled_name
       (link_mark m @ ''?'' @ join ''@'' odd_names @ ''@@'' @ fclass # exts @ msvc_qualifier q @ cv # tail) = RefQualifier_None"
    by (simp add: ref_qualifier_from_mangled_name_def Let_def)
qed

lemma member_qualifier_recovered_witness:
  "ref_qualifier_from_mangled_name (link_mark True @ itanium_start False @ ''N'' @ cv_letters False False True @
       itanium_qualifier LValue @ ''1A3bazEv'') = LValue \<and>
   ref_qualifier_from_mangled_name (link_mark True @ ''?'' @ join ''@'' [''baz'', ''A''] @ ''@@'' @
       CHR ''Q'' # ''E'' @ msvc_qualifier LValue @ CHR ''A'' # ''AXXZ'') = LValue \<and>
   ref_qualifier_from_mangled_name (link_mark True @ ''?'' @ join ''@'' [''tm'', ''?$C'', ''H''] @ ''@@'' @
       CHR ''Q'' # ''E'' @ msvc_qualifier LValue @ CHR ''A'' # ''AXXZ'') = RefQualifier_None"
  by (rule member_qualifier_recovered) simp_all

lemma source_name_within_bounds_iff:
  "take_source_name s = Some (name, tail) \<longleftrightarrow>
     (\<exists>digits. digits \<noteq> [] \<and> list_all is_digit digits \<and> string_to_nat digits = length name \<and>
        length name < 2 ^ 64 \<and> s = digits @ name @ tail \<and> \<not> list_ex is_digit (take 1 (name @ tail)))"
proof
  assume t: "take_source_name s = Some (name, tail)"
  let ?d = "takeWhile is_digit s" and ?r = "dropWhile is_digit s"
  from t have r: "?d \<noteq> []" "string_to_nat ?d < 2 ^ 64" "string_to_nat ?d \<le> length ?r"
    "name = take (string_to_nat ?d) ?r" "tail = drop (string_to_nat ?d) ?r"
    by (auto simp: take_source_name_def Let_def split: if_splits)
  have "\<not> list_ex is_digit (take 1 ?r)"
  proof (cases ?r)
    case (Cons c cs)
    then have "?r \<noteq> []" by (metis list.distinct(1))
    from hd_dropWhile[OF this] Cons show ?thesis by simp
  next
    case Nil
    then show ?thesis by (simp only: take_Nil) simp
  qed
  moreover have "list_all is_digit ?d" by (auto simp: list_all_iff dest: set_takeWhileD)
  ultimately show "\<exists>digits. digits \<noteq> [] \<and> list_all is_digit digits \<and> string_to_nat digits = length name \<and>
        length name < 2 ^ 64 \<and> s = digits @ name @ tail \<and> \<not> list_ex is_digit (take 1 (name @ tail))"
    using r by (intro exI[of _ ?d]) simp
next
  assume "\<exists>digits. digits \<noteq> [] \<and> list_all is_digit digits \<and> string_to_nat digits = length name \<and>
        length name < 2 ^ 64 \<and> s = digits @ name @ tail \<and> \<not> list_ex is_digit (take 1 (name @ tail))"
  then obtain digits where d: "digits \<noteq> []" "list_all is_digit digits" "string_to_nat digits = length name"
    "length name < 2 ^ 64" "s = digits @ name @ tail" "\<not> list_ex is_digit (take 1 (name @ tail))" by blast
  have "takeWhile is_digit s = digits" "dropWhile is_digit s = name @ tail"
    using d(2,5,6) by (cases "name @ tail"; simp add: list_all_iff takeWhile_append dropWhile_append)+
  with d show "take_source_name s = Some (name, tail)"
    by (simp add: take_source_name_def Let_def)
qed

text \<open>
  C38: what is cut off a mangled name lies within it. A name is taken exactly where decimal digits of a
  number that fits into 64 bits stand before at least as many bytes, and then the digits, the name
  and what is left make up the string; a longer, missing or overflowing length is never read.
\<close>

theorem source_name_within_bounds:
  "take_source_name s = Some (name, tail) \<longleftrightarrow>
     (\<exists>digits. digits \<noteq> [] \<and> list_all is_digit digits \<and> string_to_nat digits = length name \<and>
        length name < 2 ^ 64 \<and> s = digits @ name @ tail \<and> \<not> list_ex is_digit (take 1 (name @ tail)))"
  by (rule source_name_within_bounds_iff)

lemma starts_numeral: "n \<noteq> 0 \<Longrightarrow> starts_with_source_name (nat_to_string n @ s)"
proof (induction n arbitrary: s rule: nat_to_string.induct)
  case (1 n)
  show ?case
  proof (cases "n < 10")
    case True
    with 1(2) have "n \<in> {1 ..< 10}" by simp
    moreover have "\<forall>n \<in> {1 ..< 10}. digit_char n \<in> set ''123456789''" by code_simp
    ultimately have "digit_char n \<in> set ''123456789''" by blast
    with True show ?thesis by (subst nat_to_string.simps) (simp add: starts_with_source_name_def)
  next
    case False
    then have "n div 10 \<noteq> 0" by simp
    from 1(1)[OF False this, of "digit_char (n mod 10) # s"] False show ?thesis
      by (subst nat_to_string.simps) simp
  qed
qed

definition cpp_identifier :: "string \<Rightarrow> bool" where
  "cpp_identifier s \<longleftrightarrow> s \<noteq> [] \<and> \<not> is_digit (hd s) \<and> length s < 2 ^ 64"

lemma starts_source_name: "cpp_identifier s \<Longrightarrow> starts_with_source_name (source_name s @ rest)"
  by (simp add: source_name_def cpp_identifier_def starts_numeral)

lemma take_own_source_name: "cpp_identifier s \<Longrightarrow> take_source_name (source_name s @ rest) = Some (s, rest)"
  unfolding source_name_within_bounds_iff source_name_def cpp_identifier_def
  using nat_to_string_digits[of "length s"]
  by (intro exI[of _ "nat_to_string (length s)"]) (cases s; simp add: list_all_iff)

definition in_anonymous_namespace :: "string \<Rightarrow> bool" where
  "in_anonymous_namespace name = prefix ANONYMOUS_NAMESPACE name"

lemma nested_linkage_step:
  assumes "cpp_identifier s"
  shows "nested_linkage (source_name s @ rest) = (if in_anonymous_namespace s then Internal else nested_linkage rest)"
proof -
  obtain c cs where c: "source_name s = c # cs" "is_digit c"
    using nat_to_string_digits[of "length s"] by (cases "nat_to_string (length s)") (auto simp: source_name_def)
  have "c \<noteq> CHR ''E''" "c \<noteq> CHR ''L''" using c(2) by (auto simp: is_digit_def)
  with c take_own_source_name[OF assms, of rest] show ?thesis
    by (simp add: in_anonymous_namespace_def)
qed

lemma nested_linkage_scopes:
  "list_all cpp_identifier scopes \<Longrightarrow>
     nested_linkage (concat (map source_name scopes) @ rest) =
       (if list_ex in_anonymous_namespace scopes then Internal else nested_linkage rest)"
  by (induction scopes) (simp_all add: nested_linkage_step)

lemma numeral_head: "\<exists>c cs. source_name s = c # cs \<and> is_digit c"
  using nat_to_string_digits[of "length s"] by (cases "nat_to_string (length s)") (auto simp: source_name_def)

text \<open>
  What is linked is told from what is not. Of a variable in plain scopes, on Mach-O or not, marked
  by bindgen or not, the reader says internal exactly where the name was made for internal linkage or
  goes through an anonymous namespace, and external otherwise.
\<close>

theorem variable_linkage_recovered:
  assumes "list_all cpp_identifier scopes" and "cpp_identifier name"
  shows "linkage_from_link_name (Some (link_mark m @ mangled_variable mach_o scopes name internal)) =
     (if internal \<or> (scopes \<noteq> [] \<and> list_ex in_anonymous_namespace (scopes @ [name])) then Internal else External)"
proof -
  let ?entity = "(if internal then ''L'' else '''') @ source_name name"
  have mark: "linkage_from_link_name (Some (link_mark m @ itanium_start mach_o @ s)) = itanium_linkage (itanium_start mach_o @ s)" for s
  proof -
    have "unmarked (link_mark m @ itanium_start mach_o @ s) = itanium_start mach_o @ s"
      by (rule unmarked_mark) (simp add: itanium_start_def)
    then show ?thesis by (cases mach_o) (simp_all add: linkage_from_link_name_def itanium_start_def Let_def)
  qed
  obtain c cs where c: "source_name name = c # cs" "is_digit c" using numeral_head by blast
  note starts = starts_source_name[OF assms(2)]
  show ?thesis
  proof (cases "scopes = []")
    case True
    have "itanium_rest (itanium_start mach_o @ ?entity) = Some ?entity"
      using c by (intro itanium_rest_start) (auto simp: is_digit_def)
    moreover have "strip_str ''N'' ?entity = None" using c by (auto simp: strip_str_def is_digit_def)
    moreover have "c \<noteq> CHR ''L''" using c(2) by (auto simp: is_digit_def)
    ultimately have "itanium_linkage (itanium_start mach_o @ ?entity) = (if internal then Internal else External)"
      using starts[of "[]"] c(1) by (auto simp: itanium_linkage_def split: char.splits bool.splits)
    then show ?thesis using True mark[of ?entity] by (simp add: mangled_variable_def)
  next
    case False
    let ?body = "concat (map source_name scopes) @ ?entity @ ''E''"
    obtain s ss where s: "scopes = s # ss" using False by (cases scopes) auto
    obtain d ds where d: "source_name s = d # ds" "is_digit d" using numeral_head by blast
    have "d \<notin> set ''rVK''" using d(2) by (auto simp: is_digit_def)
    then have "skip_cv ?body = ?body" using s d skip_cv_letters[of ?body False False False]
      by (simp add: cv_letters_def)
    moreover have "itanium_rest (itanium_start mach_o @ ''N'' @ ?body) = Some (''N'' @ ?body)"
      by (rule itanium_rest_start) simp
    ultimately have "itanium_linkage (itanium_start mach_o @ ''N'' @ ?body) = nested_linkage ?body"
      by (simp add: itanium_linkage_def strip_str_def)
    moreover have "nested_linkage (?entity @ ''E'') = (if internal \<or> in_anonymous_namespace name then Internal else External)"
      using nested_linkage_step[OF assms(2), of "''E''"] starts[of "''E''"] by simp
    ultimately have "itanium_linkage (itanium_start mach_o @ ''N'' @ ?body) =
        (if internal \<or> list_ex in_anonymous_namespace (scopes @ [name]) then Internal else External)"
      using nested_linkage_scopes[OF assms(1), of "?entity @ ''E''"] by auto
    then show ?thesis using False mark[of "''N'' @ ?body"] by (simp add: mangled_variable_def)
  qed
qed

lemma variable_linkage_recovered_witness:
  "linkage_from_link_name (Some (link_mark True @ mangled_variable True [''ns''] ''s_ns'' True)) = Internal \<and>
   mangled_variable True [''ns''] ''s_ns'' True = ''__ZN2nsL4s_nsE''"
proof
  have "list_all cpp_identifier [''ns'']" "cpp_identifier ''s_ns''" by (simp_all add: cpp_identifier_def is_digit_def)
  from variable_linkage_recovered[OF this, of True True True]
  show "linkage_from_link_name (Some (link_mark True @ mangled_variable True [''ns''] ''s_ns'' True)) = Internal" by simp
qed code_simp


end
