(* ===== verification/CppConversions.thy ===== *)
theory CppConversions imports CppTypes ArgumentConversion begin

text \<open>
  How the C++ half of the bridge spells one value that crosses it
  (\<^verbatim>\<open>codegen_cpp/function_wrapper_cpp.rs\<close>): the type a wrapper is handed, the type it hands on, and the
  expression that turns the one into the other. \<open>None\<close> is a panic, \<open>Inl\<close> an error.
\<close>

section \<open>Text that may fail to be written\<close>

type_synonym 'a written = "(convert_error, 'a) result option"

definition wr_return :: "'a \<Rightarrow> 'a written" where
  "wr_return x = Some (Inr x)"

definition wr_fail :: "convert_error \<Rightarrow> 'a written" where
  "wr_fail e = Some (Inl e)"

definition wr_bind :: "'a written \<Rightarrow> ('a \<Rightarrow> 'b written) \<Rightarrow> 'b written" where
  "wr_bind x f = (case x of None \<Rightarrow> None | Some (Inl e) \<Rightarrow> Some (Inl e) | Some (Inr y) \<Rightarrow> f y)"

definition wr_map :: "('a \<Rightarrow> 'b) \<Rightarrow> 'a written \<Rightarrow> 'b written" where
  "wr_map f x = wr_bind x (\<lambda>y. wr_return (f y))"

text \<open>Collecting stops at the first error.\<close>

fun wr_collect :: "'a written list \<Rightarrow> 'a list written" where
  "wr_collect [] = wr_return []"
| "wr_collect (x # xs) = wr_bind x (\<lambda>y. wr_map ((#) y) (wr_collect xs))"

lemma wr_bind_written:
  "wr_bind x f = Some (Inr z) \<longleftrightarrow> (\<exists>y. x = Some (Inr y) \<and> f y = Some (Inr z))"
  by (auto simp: wr_bind_def split: option.splits sum.splits)

lemma wr_return_written: "wr_return x = Some (Inr z) \<longleftrightarrow> z = x"
  by (auto simp: wr_return_def)

lemma wr_map_written: "wr_map f x = Some (Inr z) \<longleftrightarrow> (\<exists>y. x = Some (Inr y) \<and> z = f y)"
  by (auto simp: wr_map_def wr_bind_written wr_return_written)

lemma wr_fail_written: "wr_fail e \<noteq> Some (Inr z)"
  by (simp add: wr_fail_def)

lemmas written = wr_bind_written wr_return_written wr_map_written wr_fail_written

lemma wr_collect_written: "wr_collect xs = Some (Inr ys) \<longleftrightarrow> xs = map (\<lambda>y. Some (Inr y)) ys"
  by (induction xs arbitrary: ys) (auto simp: written)

lemma wr_map_spelled: "wr_map f x = map_option (map_sum id f) x"
  by (auto simp: wr_map_def wr_bind_def wr_return_def split: option.splits sum.splits)

section \<open>Types\<close>

definition RUST_BYTE_SLICE :: string where
  "RUST_BYTE_SLICE = ''::rust::Slice<::std::uint8_t const>''"

definition const_string :: "bridge_pointer \<Rightarrow> string" where
  "const_string pointer = (if bp_mutable pointer then '''' else ''const '')"

definition reference_type :: "bridge_pointer \<Rightarrow> cpp_name_map \<Rightarrow> string written" where
  "reference_type pointer m = type_to_cpp m (Type_Reference (bp_mutable pointer) (bp_pointee pointer))"

definition pointee_type :: "bridge_pointer \<Rightarrow> cpp_name_map \<Rightarrow> string \<Rightarrow> string written" where
  "pointee_type pointer m sfx =
     wr_map (\<lambda>s. const_string pointer @ s @ sfx) (type_to_cpp m (bp_pointee pointer))"

definition rvalue_reference_type :: "bridge_pointer \<Rightarrow> cpp_name_map \<Rightarrow> string written" where
  "rvalue_reference_type pointer m = pointee_type pointer m ''&&''"

definition volatile_pointee_type :: "bridge_pointer \<Rightarrow> cpp_name_map \<Rightarrow> string \<Rightarrow> string written" where
  "volatile_pointee_type pointer m sfx =
     wr_map (\<lambda>s. const_string pointer @ ''volatile '' @ s @ sfx) (type_to_cpp m (bp_pointee pointer))"

definition unwrapped_type_as_string :: "type_conversion_policy \<Rightarrow> cpp_name_map \<Rightarrow> string written" where
  "unwrapped_type_as_string conv m = type_to_cpp m (cxxbridge_type conv)"

definition unique_ptr_wrapped_type :: "type_conversion_policy \<Rightarrow> cpp_name_map \<Rightarrow> string written" where
  "unique_ptr_wrapped_type conv m =
     wr_map (\<lambda>s. ''std::unique_ptr<'' @ s @ ''>'') (unwrapped_type_as_string conv m)"

definition unconverted_type :: "type_conversion_policy \<Rightarrow> cpp_name_map \<Rightarrow> string written" where
  "unconverted_type conv m =
     (case conv of
        Policy_Whole ty cpp rust \<Rightarrow>
          (case cpp of
             FromUniquePtrToValue \<Rightarrow> unique_ptr_wrapped_type conv m
           | FromPtrToValue \<Rightarrow> wr_map (\<lambda>s. s @ ''*'') (unwrapped_type_as_string conv m)
           | FromRustBytesToStringView \<Rightarrow> wr_return RUST_BYTE_SLICE
           | _ \<Rightarrow> unwrapped_type_as_string conv m)
      | Policy_Pointer pointer cpp rust \<Rightarrow>
          (case cpp of
             FromReferenceToPointer \<Rightarrow> reference_type pointer m
           | FromRValueReferenceToPointer \<Rightarrow> rvalue_reference_type pointer m
           | _ \<Rightarrow> unwrapped_type_as_string conv m))"

definition converted_type :: "type_conversion_policy \<Rightarrow> cpp_name_map \<Rightarrow> string written" where
  "converted_type conv m =
     (case conv of
        Policy_Whole ty cpp rust \<Rightarrow>
          if cpp = FromValueToUniquePtr then unique_ptr_wrapped_type conv m
          else unwrapped_type_as_string conv m
      | Policy_Pointer pointer cpp rust \<Rightarrow>
          (case cpp of
             FromReferenceToPointer \<Rightarrow> pointee_type pointer m ''*''
           | FromRValueReferenceToPointer \<Rightarrow> pointee_type pointer m ''*''
           | FromPointerToReference \<Rightarrow> reference_type pointer m
           | FromPointerToRValueReference \<Rightarrow> rvalue_reference_type pointer m
           | _ \<Rightarrow> unwrapped_type_as_string conv m))"

section \<open>Expressions\<close>

definition move_or_copy :: "string \<Rightarrow> string" where
  "move_or_copy e = ''::autocxx_move_or_copy('' @ e @ '')''"

definition string_view_of :: "string \<Rightarrow> string" where
  "string_view_of var_name =
     ''('' @ var_name @ ''.empty() ? ::std::string_view() : ::std::string_view(reinterpret_cast<const char*>('' @
     var_name @ ''.data()), '' @ var_name @ ''.size()))''"

definition cpp_conversion ::
    "type_conversion_policy \<Rightarrow> string \<Rightarrow> cpp_name_map \<Rightarrow> bool \<Rightarrow> string option written" where
  "cpp_conversion conv var_name m is_return =
     (case conv of
        Policy_Whole ty cpp rust \<Rightarrow>
          (case cpp of
             WholeCpp_None \<Rightarrow> wr_return (Some var_name)
           | FromReturnValueToPlacementPtr \<Rightarrow> wr_return (Some var_name)
           | Move \<Rightarrow> wr_return (Some (''std::move('' @ var_name @ '')''))
           | FromUniquePtrToValue \<Rightarrow> wr_return (Some (move_or_copy (''*'' @ var_name)))
           | MoveOrCopy \<Rightarrow> wr_return (Some (move_or_copy var_name))
           | FromValueToUniquePtr \<Rightarrow>
               wr_map (\<lambda>t. Some (''std::make_unique<'' @ t @ ''>('' @ var_name @ '')'')) (unconverted_type conv m)
           | FromPtrToValue \<Rightarrow>
               wr_return (Some (if is_return then ''*'' @ var_name else move_or_copy (''*'' @ var_name)))
           | FromRustBytesToStringView \<Rightarrow> wr_return (Some (string_view_of var_name)))
      | Policy_Pointer pointer cpp rust \<Rightarrow>
          (case cpp of
             PtrCpp_None \<Rightarrow> wr_return (Some var_name)
           | FromPointerToReference \<Rightarrow> wr_return (Some (''(*'' @ var_name @ '')''))
           | FromPtrToMove \<Rightarrow> wr_return (Some (''std::move(*'' @ var_name @ '')''))
           | IgnoredPlacementPtrParameter \<Rightarrow> wr_return None
           | FromReferenceToPointer \<Rightarrow> wr_return (Some (''::std::addressof('' @ var_name @ '')''))
           | FromVolatilePointerToPointer \<Rightarrow>
               wr_map (\<lambda>t. Some (''const_cast<'' @ t @ ''>('' @ var_name @ '')'')) (unwrapped_type_as_string conv m)
           | FromVolatileReferenceToPointer \<Rightarrow>
               wr_map (\<lambda>t. Some (''const_cast<'' @ t @ ''>(::std::addressof('' @ var_name @ ''))''))
                 (unwrapped_type_as_string conv m)
           | FromPointerToVolatilePointer \<Rightarrow>
               wr_map (\<lambda>t. Some (''static_cast<'' @ t @ ''>('' @ var_name @ '')'')) (volatile_pointee_type pointer m ''*'')
           | FromPointerToVolatileReference \<Rightarrow>
               wr_map (\<lambda>t. Some (''static_cast<'' @ t @ ''>(*'' @ var_name @ '')'')) (volatile_pointee_type pointer m ''&'')
           | FromPointerToRValueReference \<Rightarrow>
               wr_map (\<lambda>t. Some (''static_cast<'' @ t @ ''>(*'' @ var_name @ '')'')) (rvalue_reference_type pointer m)
           | FromRValueReferenceToPointer \<Rightarrow> wr_fail (SignatureError RValueReturn)))"

definition builds_a_string_view :: "type_conversion_policy \<Rightarrow> bool" where
  "builds_a_string_view conv \<longleftrightarrow>
     (case conv of Policy_Whole ty cpp rust \<Rightarrow> cpp = FromRustBytesToStringView | Policy_Pointer _ _ _ \<Rightarrow> False)"

definition may_use_move_or_copy_helper :: "type_conversion_policy \<Rightarrow> bool" where
  "may_use_move_or_copy_helper conv \<longleftrightarrow>
     (case conv of
        Policy_Whole ty cpp rust \<Rightarrow> cpp \<in> {FromUniquePtrToValue, FromPtrToValue, MoveOrCopy}
      | Policy_Pointer _ _ _ \<Rightarrow> False)"

section \<open>The two sides of one conversion\<close>

text \<open>Where the pointee does not say \<open>const\<close> itself, a pointer is its pointee with a star.\<close>

definition says_const_once :: "type_conversion_policy \<Rightarrow> bool" where
  "says_const_once conv \<longleftrightarrow>
     (case conv of
        Policy_Pointer pointer cpp rust \<Rightarrow> \<not> pointee_says_const (bp_pointee pointer)
      | Policy_Whole ty cpp rust \<Rightarrow> True)"

lemma pointer_is_pointee_with_star:
  assumes "\<not> pointee_says_const (bp_pointee pointer)"
  shows "type_to_cpp m (BridgePointer_ty pointer) = pointee_type pointer m ''*''"
  using assms by (simp add: BridgePointer_ty_def pointee_type_def wr_map_spelled const_string_def
      get_mut_string_def ptr_is_mut_def)

lemma inverse_takes_what_is_handed_on:
  assumes "policy_inverse conv = Some inverted" and "says_const_once conv"
  shows "unconverted_type inverted m = converted_type conv m"
proof (cases conv)
  case (Policy_Pointer pointer cpp rust)
  with assms show ?thesis
    by (cases cpp) (auto simp: says_const_once_def unconverted_type_def converted_type_def
        unwrapped_type_as_string_def pointer_is_pointee_with_star)
next
  case (Policy_Whole ty cpp rust)
  with assms show ?thesis
    by (cases cpp) (auto simp: unconverted_type_def converted_type_def unwrapped_type_as_string_def
        unique_ptr_wrapped_type_def)
qed

lemma inverse_hands_on_what_is_taken:
  assumes "policy_inverse conv = Some inverted" and "says_const_once conv"
    and "\<And>ty rust. conv \<noteq> Policy_Whole ty FromPtrToValue rust"
  shows "converted_type inverted m = unconverted_type conv m"
proof (cases conv)
  case (Policy_Pointer pointer cpp rust)
  with assms show ?thesis
    by (cases cpp) (auto simp: says_const_once_def unconverted_type_def converted_type_def
        unwrapped_type_as_string_def pointer_is_pointee_with_star)
next
  case (Policy_Whole ty cpp rust)
  with assms show ?thesis
    by (cases cpp) (auto simp: unconverted_type_def converted_type_def unwrapped_type_as_string_def
        unique_ptr_wrapped_type_def)
qed

section \<open>What the bridge passes\<close>

lemma unique_ptr_in_cpp:
  assumes "cpp_map m (QualifiedName [''cxx''] ''UniquePtr'') = ''std::unique_ptr''"
  shows "type_to_cpp m (unique_ptr_of ty) = wr_map (\<lambda>s. ''std::unique_ptr<'' @ s @ ''>'') (type_to_cpp m ty)"
proof -
  let ?path = "TypePath False False
       [PathSegment ''cxx'' PathArguments_None, PathSegment ''UniquePtr'' (AngleBracketed [GenericArgument_Type ty])]"
  have "unwrap_const ?path = None" "unwrap_volatile ?path = None"
    by (simp_all add: unwrap_const_def unwrap_volatile_def unwrap_bindgen_marker_def unwrap_newtype_def)
  moreover have "from_type_path ?path = Some (QualifiedName [''cxx''] ''UniquePtr'')"
    by (simp add: from_type_path_def from_segments_def Namespace_new_def Namespace_push_def)
  moreover have "last_arguments ?path = Some [Some ty]"
    by (simp add: last_arguments_def argument_types_def)
  ultimately show ?thesis
    by (simp add: unique_ptr_of_def assms wr_map_def wr_bind_def wr_return_def split: option.splits sum.splits)
qed

text \<open>
  A reference or an rvalue reference only ever becomes a pointer on the way back from C++. \<open>&[u8]\<close> is a
  slice, which the spelling of types does not know.
\<close>

lemma wrapper_takes_the_bridge_type:
  assumes "cpp_map m (QualifiedName [''cxx''] ''UniquePtr'') = ''std::unique_ptr''" and "goes_into_cpp conv"
  shows "if builds_a_string_view conv
    then unconverted_type conv m = wr_return RUST_BYTE_SLICE \<and> converted_rust_type conv = bytes_slice
    else unconverted_type conv m = type_to_cpp m (converted_rust_type conv)"
proof (cases conv)
  case (Policy_Pointer pointer cpp rust)
  with assms(2) show ?thesis
    by (cases cpp) (simp_all add: goes_into_cpp_def builds_a_string_view_def unconverted_type_def converted_rust_type_def
        unwrapped_type_as_string_def)
next
  case (Policy_Whole ty cpp rust)
  with assms show ?thesis
    by (cases cpp) (simp_all add: builds_a_string_view_def unconverted_type_def converted_rust_type_def
        unwrapped_type_as_string_def unique_ptr_wrapped_type_def unique_ptr_in_cpp wr_map_spelled get_mut_string_def ptr_is_mut_def)
qed

end
