(* ===== verification/CppWrappers.thy ===== *)
theory CppWrappers imports CppConversions AnalyzeFunction Gc begin

text \<open>
  The C++ that is generated beyond what cxx generates (\<^verbatim>\<open>codegen_cpp/mod.rs\<close>): the wrapper of a function,
  with its signature, the call it makes and the headers both need; the helpers of the holders; and the
  peer class of a Rust subclass. What is generated is a list of pieces, each with a type definition, a
  declaration, a definition and headers, and is text but for the headers.
\<close>

section \<open>Pieces of C++\<close>

datatype cpp_header =
    System string
  | CxxH
  | CxxgenH
  | NewDeletePrelude
  | MoveOrCopyPrelude
  | StringViewPrelude

datatype conversion_direction = RustCallsCpp | CppCallsCpp | CppCallsRust

record extra_cpp =
  ec_type_definition :: "string option"
  ec_declaration :: "string option"
  ec_definition :: "string option"
  ec_headers :: "cpp_header list"
  ec_cpp_headers :: "cpp_header list"

definition ExtraCpp_default :: extra_cpp where
  "ExtraCpp_default =
     \<lparr>ec_type_definition = None, ec_declaration = None, ec_definition = None, ec_headers = [], ec_cpp_headers = []\<rparr>"

definition code_lines :: "string list \<Rightarrow> string" where
  "code_lines ls = join [CHR 0x0A] ls"

definition quoted :: "string \<Rightarrow> string" where
  "quoted s = CHR 0x22 # s @ [CHR 0x22]"

definition silence_deprecation :: "string \<Rightarrow> string" where
  "silence_deprecation code =
     code_lines
       [''#if defined(_MSC_VER)'', ''#pragma warning(push)'', ''#pragma warning(disable : 4996)'',
        ''#elif defined(__GNUC__)'', ''#pragma GCC diagnostic push'',
        ''#pragma GCC diagnostic ignored '' @ quoted ''-Wdeprecated-declarations'', ''#endif'',
        code,
        ''#if defined(_MSC_VER)'', ''#pragma warning(pop)'', ''#elif defined(__GNUC__)'',
        ''#pragma GCC diagnostic pop'', ''#endif'']"

section \<open>The signature of a wrapper\<close>

definition is_a_method :: "bool \<Rightarrow> cpp_function \<Rightarrow> bool" where
  "is_a_method avoid_this details \<longleftrightarrow>
     \<not> avoid_this \<and> cf_kind details \<in> {CppFunction_Method, CppFunction_ConstMethod, CppFunction_Constructor}"

definition wrapper_arg_name :: "bool \<Rightarrow> nat \<Rightarrow> string" where
  "wrapper_arg_name is_method counter =
     (if is_method \<and> counter = 0 then RECEIVER_ARG_NAME else ''arg'' @ nat_to_string counter)"

text \<open>A subclass peer is called by C++, so each conversion is read backwards there.\<close>

definition opposite :: "type_conversion_policy \<Rightarrow> type_conversion_policy written" where
  "opposite conv =
     (case policy_inverse conv of Some inverted \<Rightarrow> wr_return inverted | None \<Rightarrow> wr_fail NonInvertibleConversion)"

definition argument_type :: "cpp_name_map \<Rightarrow> conversion_direction \<Rightarrow> type_conversion_policy \<Rightarrow> string written" where
  "argument_type m direction conv =
     (case direction of
        RustCallsCpp \<Rightarrow> unconverted_type conv m
      | CppCallsCpp \<Rightarrow> converted_type conv m
      | CppCallsRust \<Rightarrow> wr_bind (opposite conv) (\<lambda>inverted. unconverted_type inverted m))"

definition parameter_list :: "(nat \<Rightarrow> string) \<Rightarrow> string list \<Rightarrow> string" where
  "parameter_list arg_name types =
     join '', '' (map (\<lambda>(counter, ty). ty @ '' '' @ arg_name counter) (enumerate 0 types))"

definition wrapper_arguments ::
    "cpp_name_map \<Rightarrow> conversion_direction \<Rightarrow> (nat \<Rightarrow> string) \<Rightarrow> type_conversion_policy list \<Rightarrow> string written" where
  "wrapper_arguments m direction arg_name conversions =
     wr_map (parameter_list arg_name) (wr_collect (map (argument_type m direction) conversions))"

definition default_return :: "cpp_function \<Rightarrow> string" where
  "default_return details = (if cf_kind details = SynthesizedConstructor then '''' else ''void'')"

definition wrapper_return_type :: "cpp_name_map \<Rightarrow> conversion_direction \<Rightarrow> cpp_function \<Rightarrow> string written" where
  "wrapper_return_type m direction details =
     (case cf_return_conversion details of
        None \<Rightarrow> wr_return (default_return details)
      | Some ret \<Rightarrow>
          (case direction of
             RustCallsCpp \<Rightarrow>
               if populate_return_value ret then converted_type ret m else wr_return (default_return details)
           | CppCallsCpp \<Rightarrow> unconverted_type ret m
           | CppCallsRust \<Rightarrow> wr_bind (opposite ret) (\<lambda>inverted. converted_type inverted m)))"

definition constness_text :: "cpp_function \<Rightarrow> string" where
  "constness_text details = (if cf_kind details = CppFunction_ConstMethod then '' const'' else '''')"

definition ref_qualifier_text :: "cpp_function \<Rightarrow> string" where
  "ref_qualifier_text details =
     (case cf_ref_qualifier details of RefQualifier_None \<Rightarrow> '''' | LValue \<Rightarrow> '' &'' | RValue \<Rightarrow> '' &&'')"

definition override_text :: "cpp_function \<Rightarrow> string" where
  "override_text details = (if cf_is_virtual_override details then '' override'' else '''')"

definition exception_text :: "cpp_function \<Rightarrow> string" where
  "exception_text details =
     (case cf_exception_specification details of Spec_None \<Rightarrow> '''' | Spec_Noexcept \<Rightarrow> '' noexcept'')"

definition qualification_text :: "cpp_function \<Rightarrow> string" where
  "qualification_text details =
     (case cf_qualification details of Some qn \<Rightarrow> to_cpp_name qn @ ''::'' | None \<Rightarrow> '''')"

definition signature_text :: "cpp_function \<Rightarrow> string \<Rightarrow> string \<Rightarrow> string \<Rightarrow> string" where
  "signature_text details ret_type nam args =
     ret_type @ '' '' @ nam @ ''('' @ args @ '')'' @ constness_text details @ ref_qualifier_text details
     @ exception_text details"

section \<open>The call a wrapper makes\<close>

definition placement_param :: "(nat \<Rightarrow> string) \<Rightarrow> type_conversion_policy list \<Rightarrow> string option" where
  "placement_param arg_name conversions =
     map_option (arg_name \<circ> fst) (List.find (is_placement_parameter \<circ> snd) (enumerate 0 conversions))"

definition passed_argument ::
    "cpp_name_map \<Rightarrow> conversion_direction \<Rightarrow> string \<Rightarrow> type_conversion_policy \<Rightarrow> string option written" where
  "passed_argument m direction nam conv =
     (case direction of
        RustCallsCpp \<Rightarrow> cpp_conversion conv nam m False
      | CppCallsCpp \<Rightarrow> wr_return (Some nam)
      | CppCallsRust \<Rightarrow> wr_bind (opposite conv) (\<lambda>inverted. cpp_conversion inverted nam m False))"

definition passed_arguments ::
    "cpp_name_map \<Rightarrow> conversion_direction \<Rightarrow> (nat \<Rightarrow> string) \<Rightarrow> type_conversion_policy list \<Rightarrow> string list written" where
  "passed_arguments m direction arg_name conversions =
     wr_map (List.map_filter id)
       (wr_collect (map (\<lambda>(counter, conv). passed_argument m direction (arg_name counter) conv) (enumerate 0 conversions)))"

record underlying_call =
  uc_call :: string
  uc_field_assignments :: string
  uc_need_allocators :: bool
  uc_need_placement_new :: bool

definition plain_call :: "string \<Rightarrow> underlying_call" where
  "plain_call code =
     \<lparr>uc_call = code, uc_field_assignments = '''', uc_need_allocators = False, uc_need_placement_new = False\<rparr>"

definition destructor_call :: "cpp_name_map \<Rightarrow> namespace \<Rightarrow> ident \<Rightarrow> string \<Rightarrow> string" where
  "destructor_call m ns idt arg_list =
     (let full_name = QualifiedName_new ns idt;
          ty_id = cpp_map_final_item m full_name;
          is_a_nested_struct = (map_of (cnm_original_names m) full_name \<noteq> None);
          call = arg_list @ ''->'' @ ty_id @ ''::~'' @ ty_id @ ''()'';
          path = cpp_map m full_name
      in if ns = [] then call
         else if is_a_nested_struct then
           ''{ using '' @ ty_id @ '' = '' @ path @ ''; '' @ call @ ''; '' @ ty_id @ ''* pointless; (void)pointless; }''
         else ''{ using '' @ path @ ''; '' @ call @ ''; }'')"

text \<open>\<open>None\<close> is the panic on a method without a receiver.\<close>

definition underlying_call_of ::
    "cpp_name_map \<Rightarrow> cpp_function_body \<Rightarrow> string option \<Rightarrow> string \<Rightarrow> underlying_call option" where
  "underlying_call_of m payload receiver arg_list =
     (case payload of
        Body_Cast \<Rightarrow> Some (plain_call arg_list)
      | PlacementNew ns idt \<Rightarrow>
          map_option (\<lambda>r. (plain_call (''::new ('' @ r @ '') '' @ cpp_map m (QualifiedName_new ns idt) @ ''('' @ arg_list @ '')''))
              \<lparr>uc_need_placement_new := True\<rparr>) receiver
      | Body_Destructor ns idt \<Rightarrow> Some (plain_call (destructor_call m ns idt arg_list))
      | FunctionCall ns nam \<Rightarrow>
          (case receiver of
             Some r \<Rightarrow> Some (plain_call (r @ ''.'' @ effective_name_string nam @ ''('' @ arg_list @ '')''))
           | None \<Rightarrow> Some (plain_call (join ''::'' (ns @ [effective_name_string nam]) @ ''('' @ arg_list @ '')'')))
      | BaseClassMethodCall base base_cpp_spelling nam receiver_mutability \<Rightarrow>
          map_option (\<lambda>r. plain_call
              (''static_cast<'' @ (case receiver_mutability of Const \<Rightarrow> ''const '' | Mutable \<Rightarrow> '''') @ base_cpp_spelling
               @ ''&>('' @ r @ '').'' @ effective_name_string nam @ ''('' @ arg_list @ '')'')) receiver
      | FieldRead field \<Rightarrow> map_option (\<lambda>r. plain_call (r @ ''.'' @ field)) receiver
      | VariableRead name \<Rightarrow> Some (plain_call (cpp_map m name))
      | StaticMethodCall ns ty_id fn_id \<Rightarrow>
          Some (plain_call (cpp_map m (QualifiedName_new ns ty_id) @ ''::'' @ effective_name_string fn_id
            @ ''('' @ arg_list @ '')''))
      | ConstructSuperclass superclass_name \<Rightarrow> Some ((plain_call '''')\<lparr>uc_field_assignments := arg_list\<rparr>)
      | Body_AllocUninitialized ty \<Rightarrow>
          Some ((plain_call (''::new_appropriately<'' @ cpp_map m ty @ ''>();''))\<lparr>uc_need_allocators := True\<rparr>)
      | Body_FreeUninitialized ty \<Rightarrow>
          Some ((plain_call (''::delete_appropriately<'' @ cpp_map m ty @ ''>(arg0);''))\<lparr>uc_need_allocators := True\<rparr>))"

definition constructs_superclass :: "cpp_function_body \<Rightarrow> bool" where
  "constructs_superclass payload \<longleftrightarrow> (case payload of ConstructSuperclass _ \<Rightarrow> True | _ \<Rightarrow> False)"

text \<open>The receiver and the other arguments as text; the holder a peer is made with is not passed on.\<close>

definition receiver_and_rest :: "bool \<Rightarrow> cpp_function \<Rightarrow> string list \<Rightarrow> string option \<times> string" where
  "receiver_and_rest is_method details passed =
     (let receiver = (if is_method \<and> passed \<noteq> [] then Some (hd passed) else None);
          rest = (if is_method then drop 1 passed else passed);
          rest = (if constructs_superclass (cf_payload details) then drop 1 rest else rest)
      in (receiver, if cf_pass_obs_field details then join '','' (''*obs'' # rest) else join '', '' rest))"

text \<open>\<open>None\<close> is the panic on a conversion of a return value that makes no expression.\<close>

definition call_itself ::
    "cpp_name_map \<Rightarrow> conversion_direction \<Rightarrow> type_conversion_policy \<Rightarrow> string \<Rightarrow> string written" where
  "call_itself m direction ret call =
     wr_bind
       (case direction of
          RustCallsCpp \<Rightarrow> cpp_conversion ret call m True
        | CppCallsCpp \<Rightarrow> wr_return (Some call)
        | CppCallsRust \<Rightarrow> wr_bind (opposite ret) (\<lambda>inverted. cpp_conversion inverted call m True))
       (\<lambda>made. case made of Some e \<Rightarrow> wr_return e | None \<Rightarrow> None)"

definition returning_call ::
    "cpp_name_map \<Rightarrow> conversion_direction \<Rightarrow> cpp_function \<Rightarrow> string option \<Rightarrow> underlying_call \<Rightarrow> underlying_call written" where
  "returning_call m direction details placement call =
     (case cf_return_conversion details of
        None \<Rightarrow> wr_return call
      | Some ret \<Rightarrow>
          wr_bind (call_itself m direction ret (uc_call call)) (\<lambda>e.
            case placement of
              None \<Rightarrow> wr_return (call\<lparr>uc_call := ''return '' @ e\<rparr>)
            | Some param \<Rightarrow>
                wr_map (\<lambda>tyname. call\<lparr>uc_call := ''::new('' @ param @ '') '' @ tyname @ ''('' @ e @ '')'',
                                       uc_need_placement_new := True\<rparr>)
                  (type_to_cpp m (cxxbridge_type ret))))"

definition body_text :: "cpp_function \<Rightarrow> underlying_call \<Rightarrow> string" where
  "body_text details call =
     (let code = (if uc_call call = '''' then '''' else uc_call call @ '';'');
          assignments =
            (case cf_payload details of
               ConstructSuperclass superclass_name \<Rightarrow>
                 '': '' @ (if uc_field_assignments call = '''' then ''''
                          else superclass_name @ ''('' @ uc_field_assignments call @ ''), '') @ ''obs(std::move(arg0))''
             | _ \<Rightarrow> '''')
      in assignments @ '' { '' @ code @ '' }'')"

section \<open>Headers\<close>

text \<open>A conversion without an opposite has been reported by the time this is asked.\<close>

definition needs_move_or_copy :: "conversion_direction \<Rightarrow> type_conversion_policy \<Rightarrow> bool" where
  "needs_move_or_copy direction conv \<longleftrightarrow>
     (case direction of
        RustCallsCpp \<Rightarrow> may_use_move_or_copy_helper conv
      | CppCallsCpp \<Rightarrow> False
      | CppCallsRust \<Rightarrow>
          (case policy_inverse conv of None \<Rightarrow> True | Some inverted \<Rightarrow> may_use_move_or_copy_helper inverted))"

definition wrapper_headers :: "conversion_direction \<Rightarrow> cpp_function \<Rightarrow> underlying_call \<Rightarrow> cpp_header list" where
  "wrapper_headers direction details call =
     [System ''memory'']
     @ (if uc_need_placement_new call then [System ''new''] else [])
     @ (if uc_need_allocators call
        then [System ''cstddef'', System ''exception'', System ''new'', System ''type_traits'', NewDeletePrelude] else [])
     @ (if list_ex (needs_move_or_copy direction)
             (cf_argument_conversion details @ (case cf_return_conversion details of Some ret \<Rightarrow> [ret] | None \<Rightarrow> []))
        then [System ''type_traits'', MoveOrCopyPrelude] else [])
     @ (if list_ex builds_a_string_view (cf_argument_conversion details)
        then [System ''cstdint'', StringViewPrelude] else [])"

section \<open>Wrappers\<close>

definition generate_cpp_function_inner ::
    "cpp_name_map \<Rightarrow> cpp_function \<Rightarrow> bool \<Rightarrow> conversion_direction \<Rightarrow> bool \<Rightarrow> cpp_effective_name option \<Rightarrow> extra_cpp written" where
  "generate_cpp_function_inner m details avoid_this direction requires_rust_declarations force_name =
     (let is_method = is_a_method avoid_this details;
          nam = (case force_name of Some n \<Rightarrow> effective_name_string n | None \<Rightarrow> cf_wrapper_function_name details);
          arg_name = wrapper_arg_name is_method;
          silenced = (if cf_calls_deprecated details then silence_deprecation else id)
      in
      wr_bind (wrapper_arguments m direction arg_name (cf_argument_conversion details)) (\<lambda>args.
      wr_bind (wrapper_return_type m direction details) (\<lambda>ret_type.
      wr_bind (passed_arguments m direction arg_name (cf_argument_conversion details)) (\<lambda>passed.
        let (receiver, arg_list) = receiver_and_rest is_method details passed;
            declaration = signature_text details ret_type nam args @ override_text details
        in
        case underlying_call_of m (cf_payload details) receiver arg_list of
          None \<Rightarrow> None
        | Some call \<Rightarrow>
            wr_map
              (\<lambda>call.
                 (if requires_rust_declarations then
                    ExtraCpp_default
                      \<lparr>ec_declaration := Some (silenced (declaration @ '';'')),
                       ec_definition := Some (silenced
                         (signature_text details ret_type (qualification_text details @ nam) args @ '' '' @ body_text details call))\<rparr>
                  else ExtraCpp_default\<lparr>ec_declaration := Some (silenced (''inline '' @ declaration @ '' '' @ body_text details call))\<rparr>)
                 \<lparr>ec_headers := wrapper_headers direction details call\<rparr>)
              (returning_call m direction details (placement_param arg_name (cf_argument_conversion details)) call)))))"

definition generate_cpp_function :: "cpp_name_map \<Rightarrow> cpp_function \<Rightarrow> extra_cpp written" where
  "generate_cpp_function m details = generate_cpp_function_inner m details False RustCallsCpp False None"

section \<open>Helpers of holders\<close>

definition declared_with :: "string list \<Rightarrow> cpp_header list \<Rightarrow> extra_cpp" where
  "declared_with decls headers =
     ExtraCpp_default\<lparr>ec_declaration := Some (code_lines decls), ec_headers := headers\<rparr>"

definition generate_typedef :: "qualified_name \<Rightarrow> string \<Rightarrow> extra_cpp" where
  "generate_typedef tn cpp_definition =
     ExtraCpp_default\<lparr>ec_type_definition := Some (''typedef '' @ cpp_definition @ '' '' @ get_final_item tn @ '';'')\<rparr>"

text \<open>A helper is \<open>inline\<close> and reads the holder it is given.\<close>

definition helper :: "string \<Rightarrow> string \<Rightarrow> string \<Rightarrow> string \<Rightarrow> string \<Rightarrow> string" where
  "helper result nam holder params e =
     ''inline '' @ result @ '' '' @ nam @ ''(const '' @ holder @ ''& self'' @ params @ '') { return '' @ e @ ''; }''"

definition owned_new :: "string \<Rightarrow> string \<Rightarrow> string" where
  "owned_new holder e = ''::std::unique_ptr<'' @ holder @ ''>(new '' @ holder @ ''('' @ e @ ''))''"

definition generate_shared_ptr_shims :: "qualified_name \<Rightarrow> extra_cpp" where
  "generate_shared_ptr_shims tn =
     (let holder = get_final_item tn in
      declared_with
        (map (\<lambda>shim. let nam = shared_ptr_cpp_name shim tn in
                case shim of
                  SharedPtr_Get \<Rightarrow> helper (holder @ ''::element_type*'') nam holder '''' ''self.get()''
                | SharedPtr_Clone \<Rightarrow>
                    helper (''::std::unique_ptr<'' @ holder @ ''>'') nam holder '''' (owned_new holder ''self'')
                | SharedPtr_UseCount \<Rightarrow> helper ''::std::int64_t'' nam holder '''' ''self.use_count()'')
           [SharedPtr_Get, SharedPtr_Clone, SharedPtr_UseCount])
        [System ''memory'', System ''cstdint''])"

definition generate_unique_ptr_shims :: "qualified_name \<Rightarrow> extra_cpp" where
  "generate_unique_ptr_shims tn =
     (let holder = get_final_item tn in
      declared_with
        (map (\<lambda>shim. let nam = unique_ptr_cpp_name shim tn in
                case shim of
                  UniquePtr_Get \<Rightarrow> helper (holder @ ''::element_type*'') nam holder '''' ''self.get()''
                | UniquePtr_PayloadIsNull \<Rightarrow> helper ''bool'' nam holder '''' ''!self'')
           [UniquePtr_Get, UniquePtr_PayloadIsNull])
        [System ''memory''])"

definition generate_weak_ptr_shims :: "qualified_name \<Rightarrow> qualified_name \<Rightarrow> extra_cpp" where
  "generate_weak_ptr_shims tn shared_holder =
     (let holder = get_final_item tn; shared = get_final_item shared_holder in
      declared_with
        (map (\<lambda>shim. let nam = weak_ptr_cpp_name shim tn in
                case shim of
                  WeakPtr_Lock \<Rightarrow>
                    helper (''::std::unique_ptr<'' @ shared @ ''>'') nam holder '''' (owned_new shared ''self.lock()'')
                | WeakPtr_UseCount \<Rightarrow> helper ''::std::int64_t'' nam holder '''' ''self.use_count()'')
           [WeakPtr_Lock, WeakPtr_UseCount])
        [System ''memory'', System ''cstdint''])"

definition generate_vector_shims :: "qualified_name \<Rightarrow> extra_cpp" where
  "generate_vector_shims tn =
     (let holder = get_final_item tn in
      declared_with
        (map (\<lambda>shim. let nam = vector_cpp_name shim tn in
                case shim of
                  Vector_Len \<Rightarrow> helper ''::std::size_t'' nam holder '''' ''self.size()''
                | Vector_GetUnchecked \<Rightarrow>
                    helper (holder @ ''::value_type'') nam holder '', ::std::size_t pos'' ''self[pos]'')
           [Vector_Len, Vector_GetUnchecked])
        [System ''vector'', System ''cstddef''])"

definition generate_const_ref_shims :: "qualified_name \<Rightarrow> extra_cpp" where
  "generate_const_ref_shims tn =
     (let holder = get_final_item tn in
      declared_with
        (map (\<lambda>shim. helper (holder @ ''::type*'') (const_ref_cpp_name shim tn) holder '''' ''::std::addressof(self.get())'')
           [ConstRef_Get])
        [System ''functional'', System ''memory''])"

definition generate_custom_ptr_shims :: "qualified_name \<Rightarrow> string \<Rightarrow> extra_cpp" where
  "generate_custom_ptr_shims tn payload_cpp =
     (let holder = get_final_item tn in
      declared_with
        (map (\<lambda>shim. helper (payload_cpp @ ''*'') (custom_ptr_cpp_name shim tn) holder '''' ''self.get()'') [CustomPtr_Get])
        [])"

section \<open>Types and assertions\<close>

definition WCHAR_T :: string where
  "WCHAR_T = ''wchar_t''"

definition assert_wchar_t_width :: "nat \<Rightarrow> extra_cpp" where
  "assert_wchar_t_width wchar_t_size =
     ExtraCpp_default\<lparr>ec_type_definition := Some
       (''static_assert(sizeof('' @ WCHAR_T @ '') == '' @ nat_to_string wchar_t_size @ '', '' @
        quoted (''autocxx generated these bindings for a target whose '' @ WCHAR_T @ '' is '' @ nat_to_string wchar_t_size
          @ '' bytes wide; this C++ compiler disagrees - check for -fshort-wchar'') @ '');'')\<rparr>"

definition generate_ctype_typedef :: "nat \<Rightarrow> qualified_name \<Rightarrow> extra_cpp list" where
  "generate_ctype_typedef wchar_t_size tn =
     generate_typedef tn (to_cpp_name tn)
     # (if to_cpp_name tn = WCHAR_T then [assert_wchar_t_width wchar_t_size] else [])"

definition generate_string_constructor :: "string \<Rightarrow> extra_cpp" where
  "generate_string_constructor makestring_name =
     declared_with
       [''inline std::unique_ptr<std::string> '' @ makestring_name
        @ ''(::rust::Str str) { return std::make_unique<std::string>(std::string(str)); }'']
       [System ''memory'', System ''string'', CxxH]"

definition generate_pod_assertion :: "string \<Rightarrow> extra_cpp" where
  "generate_pod_assertion nam =
     declared_with
       [''static_assert(::rust::IsRelocatable<'' @ nam @ ''>::value, '' @
        quoted (''type '' @ nam @ '' should be trivially move constructible and trivially destructible ''
          @ ''to be used with generate_pod! in autocxx'') @ '');'']
       [CxxH]"

definition generate_trivial_destructor_assertion :: "string \<Rightarrow> extra_cpp" where
  "generate_trivial_destructor_assertion nam =
     declared_with
       [''static_assert(::std::is_trivially_destructible<'' @ nam @ ''>::value, '' @
        quoted (''autocxx generated no destructor call for '' @ nam
          @ '', because it worked out that C++ destroys one trivially, and this assertion says C++ disagrees. ''
          @ ''Something '' @ nam @ '' owns - most likely through a member whose type bindgen replaced with a blob of bytes - ''
          @ ''has a destructor which does work, and Rust would never have run it. ''
          @ ''Use generate! rather than generate_pod! for this type.'') @ '');'']
       [System ''type_traits'']"

section \<open>Subclass peers\<close>

record subclass_function =
  sf_fun :: cpp_function
  sf_cpp_super_fn_name :: "ident option"

definition super_method :: "qualified_name \<Rightarrow> cpp_function \<Rightarrow> ident \<Rightarrow> cpp_function" where
  "super_method superclass fn super_fn_name =
     fn\<lparr>cf_pass_obs_field := False, cf_ref_qualifier := RefQualifier_None, cf_exception_specification := Spec_None,
        cf_is_virtual_override := False, cf_wrapper_function_name := super_fn_name,
        cf_payload := StaticMethodCall (get_namespace superclass) (get_final_item superclass) (cf_original_cpp_name fn)\<rparr>"

definition generate_override :: "cpp_name_map \<Rightarrow> cpp_function \<Rightarrow> extra_cpp written" where
  "generate_override m fn = generate_cpp_function_inner m fn True CppCallsRust True (Some (cf_original_cpp_name fn))"

definition generate_super_call :: "cpp_name_map \<Rightarrow> qualified_name \<Rightarrow> cpp_function \<Rightarrow> ident \<Rightarrow> extra_cpp written" where
  "generate_super_call m superclass fn super_fn_name =
     generate_cpp_function_inner m (super_method superclass fn super_fn_name) True CppCallsCpp False None"

text \<open>The declaration of a member stands in the class; \<open>None\<close> is the panic on a piece without one.\<close>

definition take_declaration :: "extra_cpp \<Rightarrow> (string \<times> extra_cpp) written" where
  "take_declaration piece =
     (case ec_declaration piece of
        Some d \<Rightarrow> wr_return (d, piece\<lparr>ec_declaration := None\<rparr>)
      | None \<Rightarrow> None)"

definition peer_method :: "cpp_name_map \<Rightarrow> qualified_name \<Rightarrow> subclass_function \<Rightarrow> (string \<times> extra_cpp) list written" where
  "peer_method m superclass method =
     wr_bind (wr_bind (generate_override m (sf_fun method)) take_declaration) (\<lambda>overriding.
     case sf_cpp_super_fn_name method of
       None \<Rightarrow> wr_return [overriding]
     | Some super_fn_name \<Rightarrow>
         wr_map (\<lambda>super_call. [overriding, super_call])
           (wr_bind (generate_super_call m superclass (sf_fun method) super_fn_name) take_declaration))"

definition peer_constructor :: "cpp_name_map \<Rightarrow> cpp_function \<Rightarrow> (string \<times> extra_cpp) written" where
  "peer_constructor m fn = wr_bind (generate_cpp_function_inner m fn False CppCallsCpp False None) take_declaration"

definition as_superclass :: "qualified_name \<Rightarrow> string list" where
  "as_superclass superclass =
     (let super_name = get_final_item superclass in
      [''const '' @ super_name @ ''& As_'' @ super_name @ ''() const { return *this; }'',
       super_name @ ''& As_'' @ super_name @ ''_mut() { return *this; }''])"

definition unique_ptr_upcast :: "qualified_name \<Rightarrow> subclass_name \<Rightarrow> extra_cpp" where
  "unique_ptr_upcast superclass sub =
     (let super_cpp = to_cpp_name superclass; peer = QualifiedName_to_string (subclass_cpp sub) in
      declared_with
        [''inline std::unique_ptr<'' @ super_cpp @ ''> '' @ peer @ ''_As_'' @ get_final_item superclass
         @ ''_UniquePtr(std::unique_ptr<'' @ peer @ ''> u) { return std::unique_ptr<'' @ super_cpp @ ''>(u.release()); }'']
        [])"

definition remove_ownership_text :: "subclass_name \<Rightarrow> string" where
  "remove_ownership_text sub =
     (let peer = QualifiedName_to_string (subclass_cpp sub); holder = subclass_holder sub in
      code_lines
        [''void '' @ peer @ ''::'' @ cpp_remove_ownership sub @ ''() const {'',
         ''const_cast<'' @ peer @ ''*>(this)->really_remove_ownership();'',
         ''}'',
         ''void '' @ peer @ ''::really_remove_ownership() {'',
         ''// `obs` must be valid whenever Rust code can run. Releasing `owning` - the'',
         ''// first of these to be destroyed - can destroy this object, so no statement'',
         ''// follows it.'',
         ''::rust::Box<::'' @ holder @ ''> replacement = ::'' @ remove_ownership sub @ ''(static_cast<const ::'' @ holder @ ''&>(*obs));'',
         ''::rust::Box<::'' @ holder @ ''> owning = ::std::move(obs);'',
         ''obs = ::std::move(replacement);'',
         ''}'', ''''])"

definition peer_class :: "qualified_name \<Rightarrow> bool \<Rightarrow> subclass_name \<Rightarrow> string list \<Rightarrow> string list \<Rightarrow> extra_cpp" where
  "peer_class superclass destructor_virtual sub constructor_decls method_decls =
     ExtraCpp_default
       \<lparr>ec_type_definition := Some (code_lines
          [''class '' @ QualifiedName_to_string (subclass_cpp sub) @ (if destructor_virtual then '''' else '' final'')
             @ '' : public '' @ to_cpp_name superclass,
           ''{'', ''public:'', code_lines constructor_decls, code_lines method_decls,
           ''void '' @ cpp_remove_ownership sub @ ''() const;'',
           ''private:rust::Box<'' @ subclass_holder sub @ ''> obs;'', ''void really_remove_ownership();'', '''', ''};'']),
        ec_definition := Some (remove_ownership_text sub), ec_cpp_headers := [CxxgenH]\<rparr>"

definition generate_subclass ::
    "cpp_name_map \<Rightarrow> qualified_name \<Rightarrow> cpp_visibility option \<Rightarrow> bool \<Rightarrow> subclass_name \<Rightarrow>
     cpp_function list \<Rightarrow> subclass_function list \<Rightarrow> extra_cpp list written" where
  "generate_subclass m superclass destructor_visibility destructor_virtual sub constructors methods =
     wr_bind (wr_map concat (wr_collect (map (peer_method m superclass) methods))) (\<lambda>members.
     wr_map
       (\<lambda>made.
          [ExtraCpp_default\<lparr>ec_type_definition := Some (''struct '' @ subclass_holder sub @ '';'')\<rparr>]
          @ map snd members
          @ (if destructor_virtual \<and> destructor_visibility = Some Public then [unique_ptr_upcast superclass sub] else [])
          @ map snd made
          @ [peer_class superclass destructor_virtual sub (map fst made) (map fst members @ as_superclass superclass)])
       (wr_collect (map (peer_constructor m) constructors)))"

section \<open>Everything the items need\<close>

record cpp_needs =
  cn_pieces :: "extra_cpp list"
  cn_constructors :: "(subclass_name, cpp_function list) index_map"
  cn_methods :: "(subclass_name, subclass_function list) index_map"
  cn_deferred :: "fn_phase list"

definition add_pieces :: "extra_cpp list \<Rightarrow> cpp_needs \<Rightarrow> cpp_needs" where
  "add_pieces ps needs = needs\<lparr>cn_pieces := cn_pieces needs @ ps\<rparr>"

definition surface_shims :: "cpp_name_map \<Rightarrow> qualified_name \<Rightarrow> holder_surface option \<Rightarrow> extra_cpp list written" where
  "surface_shims m tn surface =
     (case surface of
        None \<Rightarrow> wr_return []
      | Some (Holder_SharedPtr _ _) \<Rightarrow> wr_return [generate_shared_ptr_shims tn]
      | Some (Holder_UniquePtr _ _) \<Rightarrow> wr_return [generate_unique_ptr_shims tn]
      | Some (Holder_WeakPtr shared_holder _) \<Rightarrow> wr_return [generate_weak_ptr_shims tn shared_holder]
      | Some (Holder_VectorOfPointers _ _) \<Rightarrow> wr_return [generate_vector_shims tn]
      | Some (Holder_CustomPtr _ payload_cpp _ _) \<Rightarrow>
          wr_map (\<lambda>spelled. [generate_custom_ptr_shims tn spelled]) (type_to_cpp m payload_cpp)
      | Some (Holder_ConstRef _ _) \<Rightarrow> wr_return [generate_const_ref_shims tn])"

definition concrete_type_pieces ::
    "cpp_name_map \<Rightarrow> qualified_name \<Rightarrow> rust_type option \<Rightarrow> string \<Rightarrow> holder_surface option \<Rightarrow> extra_cpp list written" where
  "concrete_type_pieces m tn rs_definition cpp_definition surface =
     wr_bind (case rs_definition of Some ty \<Rightarrow> type_to_cpp m ty | None \<Rightarrow> wr_return cpp_definition) (\<lambda>effective.
     wr_map ((#) (generate_typedef tn effective)) (surface_shims m tn surface))"

text \<open>The constructor of a peer is kept for its class, and the function that calls it is a function like any.\<close>

definition note_constructor :: "func_to_convert \<Rightarrow> cpp_needs \<Rightarrow> cpp_needs" where
  "note_constructor fn needs =
     (case fc_provenance fn of
        SynthesizedSubclassConstructor d \<Rightarrow>
          needs\<lparr>cn_constructors := imap_push (scd_subclass d) (scd_cpp_impl d) (cn_constructors needs)\<rparr>
      | _ \<Rightarrow> needs)"

definition add_need ::
    "cpp_name_map \<Rightarrow> string \<Rightarrow> nat \<Rightarrow> fn_phase \<Rightarrow> cpp_needs \<Rightarrow> cpp_needs written" where
  "add_need m makestring_name wchar_t_size api needs =
     (case api of
        Api_StringConstructor name \<Rightarrow> wr_return (add_pieces [generate_string_constructor makestring_name] needs)
      | Api_Function name fn analysis \<Rightarrow>
          (case fa_cpp_wrapper analysis of
             Some cpp_wrapper \<Rightarrow>
               if fa_ignore_reason analysis = Inr () \<and> fa_externally_callable analysis then
                 wr_map (\<lambda>piece. add_pieces [piece] (note_constructor fn needs)) (generate_cpp_function m cpp_wrapper)
               else None
           | None \<Rightarrow> None)
      | Api_ConcreteType name rs_definition cpp_definition surface ds ia \<Rightarrow>
          wr_map (\<lambda>ps. add_pieces ps needs)
            (concrete_type_pieces m (an_name name) rs_definition cpp_definition surface)
      | Api_CType name typename \<Rightarrow> wr_return (add_pieces (generate_ctype_typedef wchar_t_size typename) needs)
      | Api_Subclass name superclass analysis \<Rightarrow> wr_return (needs\<lparr>cn_deferred := cn_deferred needs @ [api]\<rparr>)
      | Api_RustSubclassFn name sub details \<Rightarrow>
          wr_return (needs\<lparr>cn_methods := imap_push sub
            \<lparr>sf_fun = rsf_cpp_impl details, sf_cpp_super_fn_name = rsf_cpp_super_fn_name details\<rparr> (cn_methods needs)\<rparr>)
      | Api_Struct name details analysis \<Rightarrow>
          if pa_kind (pda_pod analysis) = Pod then
            let cpp_name = cpp_map m (an_name name) in
            wr_return (add_pieces
              ((if pc_destructor_omitted_as_trivial (pda_constructors analysis)
                then [generate_trivial_destructor_assertion cpp_name] else [])
               @ [generate_pod_assertion cpp_name]) needs)
          else None
      | _ \<Rightarrow> None)"

fun add_each_need :: "cpp_name_map \<Rightarrow> string \<Rightarrow> nat \<Rightarrow> fn_phase list \<Rightarrow> cpp_needs \<Rightarrow> cpp_needs written" where
  "add_each_need m makestring_name wchar_t_size [] needs = wr_return needs"
| "add_each_need m makestring_name wchar_t_size (api # l) needs =
     wr_bind (add_need m makestring_name wchar_t_size api needs) (add_each_need m makestring_name wchar_t_size l)"

definition kept_for :: "subclass_name \<Rightarrow> (subclass_name, 'a list) index_map \<Rightarrow> 'a list" where
  "kept_for sub entries = (case map_of entries sub of Some xs \<Rightarrow> xs | None \<Rightarrow> [])"

fun add_deferred :: "cpp_name_map \<Rightarrow> fn_phase list \<Rightarrow> cpp_needs \<Rightarrow> cpp_needs written" where
  "add_deferred m [] needs = wr_return needs"
| "add_deferred m (api # l) needs =
     (case api of
        Api_Subclass sub superclass analysis \<Rightarrow>
          wr_bind
            (generate_subclass m superclass (sa_superclass_destructor_visibility analysis)
               (sa_superclass_destructor_virtual analysis) sub
               (kept_for sub (cn_constructors needs)) (kept_for sub (cn_methods needs)))
            (\<lambda>ps. add_deferred m l
               ((add_pieces ps needs)\<lparr>cn_constructors := AList.delete sub (cn_constructors needs),
                                      cn_methods := AList.delete sub (cn_methods needs)\<rparr>))
      | _ \<Rightarrow> None)"

definition add_needs :: "cpp_name_map \<Rightarrow> string \<Rightarrow> nat \<Rightarrow> fn_phase list \<Rightarrow> extra_cpp list written" where
  "add_needs m makestring_name wchar_t_size l =
     wr_bind (add_each_need m makestring_name wchar_t_size (filter needs_cpp_codegen l)
         \<lparr>cn_pieces = [], cn_constructors = [], cn_methods = [], cn_deferred = []\<rparr>) (\<lambda>needs.
     wr_map cn_pieces (add_deferred m (cn_deferred needs) needs))"

text \<open>The aliases that make hidden types nameable come before everything that may name them.\<close>

definition unshadowing_typedef :: "qualified_name \<times> unshadowing_alias \<Rightarrow> string" where
  "unshadowing_typedef = (\<lambda>(name, a).
     foldr (\<lambda>segment inner. ''namespace '' @ segment @ '' { '' @ inner @ '' }'') (get_namespace name)
       (''typedef '' @ ua_tag a @ '' ::'' @ ua_original_cpp_name a @ '' '' @ ua_alias a @ '';''))"

definition generate_unshadowing_aliases :: "cpp_name_map \<Rightarrow> extra_cpp list" where
  "generate_unshadowing_aliases m =
     (if cnm_unshadowing_aliases m = [] then []
      else [ExtraCpp_default\<lparr>ec_type_definition := Some (code_lines
        [''#if defined(_MSC_VER)'', ''#pragma warning(push)'', ''#pragma warning(disable : 4099)'',
         ''#elif defined(__clang__)'', ''#pragma clang diagnostic push'',
         ''#pragma clang diagnostic ignored '' @ quoted ''-Wmismatched-tags'', ''#endif'',
         code_lines (map unshadowing_typedef (cnm_unshadowing_aliases m)),
         ''#if defined(_MSC_VER)'', ''#pragma warning(pop)'', ''#elif defined(__clang__)'',
         ''#pragma clang diagnostic pop'', ''#endif''])\<rparr>])"

section \<open>What a wrapper declares\<close>

lemma wrapper_declared:
  assumes "generate_cpp_function_inner m details avoid_this direction requires_rust_declarations force_name = Some (Inr piece)"
  obtains args ret_type nam call where
    "wrapper_arguments m direction (wrapper_arg_name (is_a_method avoid_this details)) (cf_argument_conversion details) =
       Some (Inr args)"
    "wrapper_return_type m direction details = Some (Inr ret_type)"
    "nam = (case force_name of Some n \<Rightarrow> effective_name_string n | None \<Rightarrow> cf_wrapper_function_name details)"
    "ec_declaration piece = Some ((if cf_calls_deprecated details then silence_deprecation else id)
       (if requires_rust_declarations then signature_text details ret_type nam args @ override_text details @ '';''
        else ''inline '' @ signature_text details ret_type nam args @ override_text details @ '' '' @ body_text details call))"
    "ec_headers piece = wrapper_headers direction details call"
proof -
  let ?arg_name = "wrapper_arg_name (is_a_method avoid_this details)"
  from assms obtain args ret_type passed where parts:
    "wrapper_arguments m direction ?arg_name (cf_argument_conversion details) = Some (Inr args)"
    "wrapper_return_type m direction details = Some (Inr ret_type)"
    "passed_arguments m direction ?arg_name (cf_argument_conversion details) = Some (Inr passed)"
    by (auto simp: generate_cpp_function_inner_def Let_def wr_bind_written)
  obtain receiver arg_list where "receiver_and_rest (is_a_method avoid_this details) details passed = (receiver, arg_list)"
    by fastforce
  with parts assms show thesis
    by (auto simp: generate_cpp_function_inner_def Let_def wr_bind_def wr_map_written split: option.splits intro!: that)
qed

lemma wrapper_arguments_written:
  "wrapper_arguments m direction arg_name conversions = Some (Inr args) \<longleftrightarrow>
     (\<exists>types. args = parameter_list arg_name types \<and>
        list_all2 (\<lambda>conv ty. argument_type m direction conv = Some (Inr ty)) conversions types)"
  by (auto simp: wrapper_arguments_def wr_map_written wr_collect_written list_all2_conv_all_nth list_eq_iff_nth_eq)

text \<open>
  C39: the wrapper takes what the bridge passes. When a function has a wrapper in C++ and it is
  generated, the wrapper is declared under the name the bridge has for the function, with as many
  parameters as the bridge declares, each of the type the bridge declares for it, spelled in C++;
  \<open>&[u8]\<close>, which has no spelling of its own there, is the slice type of cxx. This holds for every
  signature, kind of function and policy, wherever the header does not rename cxx's own smart pointer.
\<close>

theorem wrappers_take_what_the_bridge_passes:
  assumes "analyze_foreign_fn get_hash ok n name fn soph predetermined me = Some ((analysis, name'), me')"
    and "fa_cpp_wrapper analysis = Some w" and "generate_cpp_function m w = Some (Inr piece)"
    and "cpp_map m (QualifiedName [''cxx''] ''UniquePtr'') = ''std::unique_ptr''"
  shows "\<exists>types ret_type code.
    list_all2
      (\<lambda>param t. \<exists>nam ty. param = FnArg_Typed nam ty \<and>
         (type_to_cpp m ty = Some (Inr t) \<or> ty = bytes_slice \<and> t = RUST_BYTE_SLICE))
      (fa_params analysis) types \<and>
    ec_declaration piece = Some ((if cf_calls_deprecated w then silence_deprecation else id)
      (''inline '' @ signature_text w ret_type (fa_cxxbridge_name analysis)
         (parameter_list (wrapper_arg_name (is_a_method False w)) types) @ override_text w @ code))"
proof -
  from assms(1) obtain s me1 may_throw blocked me2 where
    s: "read_signature get_hash ok n name fn soph predetermined me = Some (s, me1)"
    and a: "analysis = finish_function get_hash ok name fn s may_throw blocked me2"
    by (auto simp: analyze_foreign_fn_def Let_def)
  from assms(2) have parts: "fa_params analysis = wrapper_params (rs_param_details s)"
    "fa_cxxbridge_name analysis = cf_wrapper_function_name w"
    "cf_argument_conversion w = map aa_conversion (rs_param_details s)"
    by (auto simp: a finish_function_def Let_def cpp_wrapper_of_def split: if_splits prod.splits)
  have "list_all2 arg_ok (rs_params s) (rs_param_details s)" by (rule read_signature_ok[OF s])
  then have into: "goes_into_cpp (aa_conversion pd)" if "pd \<in> set (rs_param_details s)" for pd
    using that by (auto simp: list_all2_conv_all_nth in_set_conv_nth arg_ok_def sides_agree_def)
  from assms(3) obtain args ret_type code where made:
    "wrapper_arguments m RustCallsCpp (wrapper_arg_name (is_a_method False w)) (cf_argument_conversion w) = Some (Inr args)"
    "ec_declaration piece = Some ((if cf_calls_deprecated w then silence_deprecation else id)
       (''inline '' @ signature_text w ret_type (cf_wrapper_function_name w) args @ override_text w @ code))"
    unfolding generate_cpp_function_def by (rule wrapper_declared) auto
  from made(1) obtain types where types: "args = parameter_list (wrapper_arg_name (is_a_method False w)) types"
    "list_all2 (\<lambda>conv ty. unconverted_type conv m = Some (Inr ty)) (map aa_conversion (rs_param_details s)) types"
    by (auto simp: wrapper_arguments_written parts argument_type_def)
  let ?crosses = "\<lambda>param t. \<exists>nam ty. param = FnArg_Typed nam ty \<and>
    (type_to_cpp m ty = Some (Inr t) \<or> ty = bytes_slice \<and> t = RUST_BYTE_SLICE)"
  have "?crosses (FnArg_Typed nam (converted_rust_type (aa_conversion pd))) t"
    if "pd \<in> set (rs_param_details s)" and "unconverted_type (aa_conversion pd) m = Some (Inr t)" for pd t nam
    using wrapper_takes_the_bridge_type[OF assms(4) into[OF that(1)]] that(2) by (auto simp: wr_return_def split: if_splits)
  with types(2) have "list_all2 ?crosses (wrapper_params (rs_param_details s)) types"
    by (auto simp: wrapper_params_def list_all2_map1 elim!: list.rel_mono_strong)
  with types(1) made(2) show ?thesis unfolding parts by blast
qed

section \<open>What a peer declares\<close>

definition returns_by_pointer :: "cpp_function \<Rightarrow> bool" where
  "returns_by_pointer fn \<longleftrightarrow> (\<exists>ty rust. cf_return_conversion fn = Some (Policy_Whole ty FromPtrToValue rust))"

lemma opposite_written: "opposite conv = Some (Inr inverted) \<longleftrightarrow> policy_inverse conv = Some inverted"
  by (auto simp: opposite_def written split: option.splits)

lemma overridden_argument:
  assumes "argument_type m CppCallsRust conv = Some (Inr ty)" and "says_const_once conv"
  shows "converted_type conv m = Some (Inr ty)"
  using assms inverse_takes_what_is_handed_on[of conv]
  by (auto simp: argument_type_def wr_bind_written opposite_written)


section \<open>Examples\<close>

definition unrenamed :: cpp_name_map where
  "unrenamed = \<lparr>cnm_original_names = [], cnm_unshadowing_aliases = []\<rparr>"

lemma unrenamed_spellings:
  "cpp_map unrenamed (QualifiedName [''cxx''] ''UniquePtr'') = ''std::unique_ptr''"
  "cpp_map unrenamed (QualifiedName [''ns''] ''Outer'') = ''ns::Outer''"
  "type_to_cpp unrenamed sample_type = Some (Inr ''ns::Outer'')"
proof -
  have "map_option td_cpp_name (db_get known_types (QualifiedName [''cxx''] ''UniquePtr'')) = Some ''std::unique_ptr''"
    and unknown: "db_get known_types (QualifiedName [''ns''] ''Outer'') = None"
    unfolding db_get_known by code_simp+
  then show "cpp_map unrenamed (QualifiedName [''cxx''] ''UniquePtr'') = ''std::unique_ptr''"
    by (auto simp: cpp_map_def unrenamed_def unaliased_cpp_name_def to_cpp_name_def special_cpp_name_def)
  show named: "cpp_map unrenamed (QualifiedName [''ns''] ''Outer'') = ''ns::Outer''"
    by (simp add: cpp_map_def unrenamed_def unaliased_cpp_name_def to_cpp_name_def special_cpp_name_def unknown
        segment_iter_def ns_segment_iter_def)
  let ?path = "plain_path False [''output'', ''ns'', ''Outer'']"
  have "from_type_path ?path = Some (QualifiedName [''ns''] ''Outer'')" "unwrap_const ?path = None"
    "unwrap_volatile ?path = None" "last_arguments ?path = None" by code_simp+
  with named show "type_to_cpp unrenamed sample_type = Some (Inr ''ns::Outer'')" by (simp add: sample_type_def)
qed

lemmas generation_simps = generate_cpp_function_inner_def Let_def wr_bind_def wr_return_def wr_map_def
  wrapper_arguments_def wrapper_return_type_def passed_arguments_def passed_argument_def argument_type_def
  underlying_call_of_def receiver_and_rest_def returning_call_def call_itself_def constructs_superclass_def
  unconverted_type_def converted_type_def unwrapped_type_as_string_def cpp_conversion_def enumerate_eq_zip

lemma wrappers_take_what_the_bridge_passes_witness:
  "\<exists>analysis name me w piece. analyze_foreign_fn (\<lambda>_. 0) (\<lambda>_. True) (Suc 0) (sample_name ''f'') sample_fn Regular None
       sample_analyzer = Some ((analysis, name), me) \<and>
     fa_cpp_wrapper analysis = Some w \<and> generate_cpp_function unrenamed w = Some (Inr piece) \<and> ec_declaration piece \<noteq> None"
proof -
  from sample_analyzed obtain analysis name me w call_name where a: "analyze_foreign_fn (\<lambda>_. 0) (\<lambda>_. True) (Suc 0) (sample_name ''f'')
      sample_fn Regular None sample_analyzer = Some ((analysis, name), me)"
    and w: "fa_cpp_wrapper analysis = Some w" "cf_argument_conversion w = [aa_conversion sample_pd]"
      "cf_return_conversion w = None" "cf_payload w = FunctionCall [''ns''] call_name" by blast
  have "\<exists>piece. generate_cpp_function unrenamed w = Some (Inr piece)"
    by (simp add: generate_cpp_function_def generation_simps w sample_pd_def unrenamed_spellings split: option.splits)
  then obtain piece where piece: "generate_cpp_function unrenamed w = Some (Inr piece)" by blast
  from wrappers_take_what_the_bridge_passes[OF a w(1) piece unrenamed_spellings(1)] a w(1) piece show ?thesis by blast
qed

text \<open>A constant method of a class that takes an instance by reference and gives one back by value.\<close>

definition peer_override :: cpp_function where
  "peer_override =
     \<lparr>cf_payload = FunctionCall [] (CppEffectiveName ''Sub_m''), cf_wrapper_function_name = ''Sub_m'',
      cf_original_cpp_name = CppEffectiveName ''m'',
      cf_return_conversion = Some (Policy_Whole sample_type FromValueToUniquePtr WholeRust_None),
      cf_argument_conversion = [Policy_Pointer \<lparr>bp_pointee = sample_type, bp_mutable = False\<rparr> FromPointerToReference PtrRust_None],
      cf_kind = CppFunction_ConstMethod, cf_pass_obs_field = True, cf_qualification = None,
      cf_ref_qualifier = LValue, cf_calls_deprecated = False, cf_is_virtual_override = True,
      cf_exception_specification = Spec_Noexcept\<rparr>"

lemma peer_override_made:
  "\<exists>overriding. generate_override unrenamed peer_override = Some (Inr overriding)"
  "\<exists>super_call. generate_super_call unrenamed (QualifiedName [''ns''] ''Outer'') peer_override ''Sub_super_m'' = Some (Inr super_call)"
  by (simp_all add: generate_override_def generate_super_call_def super_method_def generation_simps peer_override_def
      opposite_def is_a_method_def reference_type_def pointee_type_def unique_ptr_wrapped_type_def
      placement_param_def BridgePointer_ty_def unrenamed_spellings)


end
