(* ===== verification/Spec2Isabelle.thy ===== *)
theory Spec2Isabelle imports FunctionPasses FieldAccessors DirectiveChecks BridgeNames Ownership MangledNames CppWrappers begin

text \<open>
  \<^verbatim>\<open>autocxx\<close> reads what bindgen makes of a C++ header and writes a \<^verbatim>\<open>cxx\<close> bridge for it. Between the
  two stands the conversion of \<^verbatim>\<open>src/engine/src/conversion\<close>: a list of APIs (\<^verbatim>\<open>api.rs\<close>), each under a
  name of its own (\<^verbatim>\<open>apivec.rs\<close>), goes through passes that refine what is known of each item, and an
  item that a pass cannot deal with is replaced by a marker of the same name with the reason. This
  development models the data the passes share, the directives that steer them, and every pass of the
  conversion between the parsed items and the code generators, composed as the program composes them
  (\<open>convert_parsed\<close>, at the end of this theory).

  \<^bold>\<open>Layout.\<close> A theory models one part, in the order in which the parts use each other.
  \<^item> \<open>Prelude\<close>: insertion-ordered maps and sets (the program's \<^verbatim>\<open>IndexMap\<close> and \<^verbatim>\<open>IndexSet\<close>), results,
    numerals, the search for a free number (\<open>first_free\<close>) and rounds run to a fixed point
    (\<open>run_rounds\<close>).
  \<^item> \<open>SynTypes\<close>: \<^verbatim>\<open>conversion/type_helpers.rs\<close> over a datatype of Rust types.
  \<^item> \<open>Names\<close>: \<^verbatim>\<open>types.rs\<close>, namespaces and qualified names, and the identifiers cxx takes.
  \<^item> \<open>TypeDatabase\<close>, \<open>KnownTypes\<close>: \<^verbatim>\<open>known_types.rs\<close>, its entries, queries, and the database evaluated.
  \<^item> \<open>ApiNames\<close>, \<open>FunctionWrapper\<close>, \<open>Api\<close>: the names and records of \<^verbatim>\<open>api.rs\<close>, \<^verbatim>\<open>convert_error.rs\<close> and
    \<^verbatim>\<open>analysis/fun/mod.rs\<close>; how one value crosses the bridge (\<^verbatim>\<open>function_wrapper.rs\<close>).
  \<^item> \<open>ApiVec\<close>, \<open>ErrorReporter\<close>: the list of APIs and the skeleton of every pass over it.
  \<^item> \<open>Config\<close>: the directives of an \<^verbatim>\<open>include_cpp!\<close> block (\<^verbatim>\<open>parser/src/config.rs\<close>).
  \<^item> \<open>DepthFirst\<close>: the order in which fields and bases come first.
  \<^item> \<open>Pod\<close>, \<open>Constructors\<close>, \<open>Deps\<close>: the records the type analyses leave, which special members C++
    declares, defaults or withdraws (\<^verbatim>\<open>implicit_constructors.rs\<close>), and dependencies (\<^verbatim>\<open>deps.rs\<close>).
  \<^item> \<open>RemoveIgnored\<close>, \<open>Gc\<close>: what is discarded with a failure and what the allowlist reaches.
  \<^item> \<open>BridgeNames\<close>: overloads, bridge names and the last checks on them.
  \<^item> \<open>AbstractTypes\<close>, \<open>Ownership\<close>: pure virtual functions, and destructors nobody may run.
  \<^item> \<open>StructOrder\<close>, \<open>ByValue\<close>: which types may be held by value (\<^verbatim>\<open>pod/byvalue_checker.rs\<close>).
  \<^item> \<open>MangledNames\<close>: what \<^verbatim>\<open>parse/ref_qualifier.rs\<close> and \<^verbatim>\<open>parse/linkage.rs\<close> read off a symbol.
  \<^item> \<open>MemberLookup\<close>, \<open>MemberImports\<close>: the paths to base classes, C++ member lookup over them, and the
    members \<^verbatim>\<open>fun/mod.rs\<close> imports into a class by inheritance or by a using-declaration.
  \<^item> \<open>CppTypes\<close>: how a type is spelled in C++ (\<^verbatim>\<open>codegen_cpp/type_to_cpp.rs\<close>).
  \<^item> \<open>ParseCallbacks\<close>: what bindgen's callbacks report, its index and the queries (\<^verbatim>\<open>parse_callbacks.rs\<close>).
  \<^item> \<open>TypeConverter\<close>, \<open>ConvertType\<close>, \<open>ConversionFacts\<close>: the state of the type converter, the conversion
    itself, and what it promises of the concrete types it makes (\<^verbatim>\<open>analysis/type_converter.rs\<close>).
  \<^item> \<open>StatefulPasses\<close>: the passes of \<^verbatim>\<open>error_reporter.rs\<close> whose conversions share a state.
  \<^item> \<open>TypedefTargets\<close>, \<open>PodAnalysis\<close>: the first two passes, over typedefs (\<^verbatim>\<open>analysis/tdef.rs\<close>) and over
    structs (\<^verbatim>\<open>analysis/pod/mod.rs\<close>).
  \<^item> \<open>SynthesizedFunctions\<close>, \<open>Statics\<close>, \<open>FieldAccessors\<close>: the passes that add functions C++ does not declare
    (\<^verbatim>\<open>casts.rs\<close>, \<^verbatim>\<open>allocators.rs\<close>, \<^verbatim>\<open>statics.rs\<close>, \<^verbatim>\<open>field_accessors.rs\<close>), and the typedefs that lose their
    target (\<^verbatim>\<open>replace_hopeless_typedef_targets.rs\<close>).
  \<^item> \<open>FnAnalyzer\<close>: the state of the function analysis (\<^verbatim>\<open>fun/mod.rs\<close>), how it is made from the list, and
    computations over it, which may panic (\<open>None\<close>) or fail (\<open>Inl\<close>).
  \<^item> \<open>ArgumentConversion\<close>, \<open>FunctionNames\<close>, \<open>AnalyzeFunction\<close>: one function: its parameters and return type, its
    kind and name, the reasons to leave it out, and its wrappers.
  \<^item> \<open>SubclassFunctions\<close>, \<open>SpecialMembers\<close>, \<open>FunctionPasses\<close>: what Rust subclasses need (\<^verbatim>\<open>fun/subclass.rs\<close>), the
    special members C++ writes itself, and the passes of \<^verbatim>\<open>analyze_functions\<close> in their order.
  \<^item> \<open>DirectiveChecks\<close>: the checks at the end of \<^verbatim>\<open>conversion/mod.rs\<close> that each directive was obeyed, and the
    traits to derive (\<^verbatim>\<open>derives.rs\<close>).
  \<^item> \<open>CppConversions\<close>, \<open>CppWrappers\<close>: the C++ that is generated beyond what cxx generates: how one value is
    converted (\<^verbatim>\<open>codegen_cpp/function_wrapper_cpp.rs\<close>), wrappers, helpers of holders, and the peer classes of
    Rust subclasses (\<^verbatim>\<open>codegen_cpp/mod.rs\<close>).
  \<^item> This theory: the passes composed as \<^verbatim>\<open>BridgeConverter::convert\<close> composes them.

  \<^bold>\<open>State and errors.\<close> An \<open>api_vec\<close> is the list of items with the set of their names, and \<open>apivec_wf\<close>
  says that the two agree and each name is there once; it is kept by every operation. A panic is the
  value \<open>None\<close> of an option. An error a pass reports is a \<open>convert_error\<close> in a sum. Directive lists
  remember what was asked of them, so a query returns the changed configuration.

  \<^bold>\<open>Lemmas.\<close> \<open>ApiVec\<close> and \<open>ErrorReporter\<close> prove once that a pass over a well-formed list gives one, and
  loses no name; \<open>checked\<close> and \<open>checking_pass\<close> do the same for passes that accept or refuse each item.
  The locales over the list and its passes are interpreted on the model's own operations. The theorem
  of this theory joins what each pass after the function analysis promises: from a well-formed list no
  pass panics. \<open>conversion_delivers\<close> reads off the checks at the end what an accepted block has got.
  For a function, \<open>AnalyzeFunction\<close> shows what one that is kept satisfies and that the bridge declares what
  its conversions take; \<open>ArgumentConversion\<close> that the two sides of a parameter agree; \<open>SpecialMembers\<close> and
  \<open>SubclassFunctions\<close> that no destructor is taken to be trivial, or to be accessible, that is not;
  \<open>CppWrappers\<close> that the C++ that is written takes what the bridge passes.

  \<^bold>\<open>Loops.\<close> Nothing is bounded from outside. A search for a free name is \<open>first_free\<close>, which is shown to
  end because a finite set cannot hold all candidates. The rounds that discard dependents or find
  virtual destructors are \<open>run_rounds\<close>, whose termination is shown from a count that falls each
  round. The collector's worklist is a function with a measure over what it has not taken yet. The
  depth-first queue rotates at most as often as it is long. A chain of typedefs is followed for at most
  as many steps as there are typedefs, as the code has it. Only \<open>convert_type\<close> is given fuel, one unit for
  each nested call: a typedef or a shadowing alias may lead anywhere, and what the code recurses to is
  not bounded by the type it is given. The passes that convert types hand that fuel on (\<open>n\<close>); running
  out is \<open>None\<close>, and the theorems about them hold for every amount of it. A search for the name of a
  note among the operators ends as well, which \<open>FunctionPasses\<close> proves.

  \<^bold>\<open>Parameters.\<close> What is not under \<^verbatim>\<open>src/\<close> is an argument: whether \<^verbatim>\<open>syn\<close> takes a string for an
  identifier (\<open>is_rust_ident\<close>, or \<open>ok\<close>), what it makes of the text of a parameter or a return type that bindgen reports
  of a template's member (\<open>parse_fn_arg\<close>, \<open>parse_type\<close>), and the hash of a block (\<open>get_hash\<close>). The database of known types is
  an argument where a proof does not need its contents. An identifier is its text: what is proved of panics is
  for names that Rust takes for identifiers, as \<open>Names\<close> says of \<open>make_ident\<close>.

  \<^bold>\<open>Not modelled.\<close> The parsers of macro tokens and of bindgen's items, which work on trees of \<^verbatim>\<open>syn\<close>; the
  generator of Rust, which prints such trees; of the C++ generator the texts of its preludes, the witnesses of
  array elements and the layout assertions, and how its pieces are joined into files; and files, processes and the runtime crate,
  which is unsafe code over foreign memory. Spans, attributes and documentation comments are
  left out of the records, and so are log lines.
\<close>

section \<open>The passes after the function analysis\<close>

text \<open>What \<^verbatim>\<open>BridgeConverter::convert\<close> does with the items once functions are analyzed.\<close>

definition finish_analysis ::
    "(include_cpp_config \<Rightarrow> nat) \<Rightarrow> (string \<Rightarrow> bool) \<Rightarrow> include_cpp_config \<Rightarrow> fn_pre_phase3_apis \<Rightarrow>
     (fn_phase_apis \<times> bridge_type_names \<times> include_cpp_config) option" where
  "finish_analysis get_hash is_rust_ident config v =
     Option.bind (mark_types_abstract v) (\<lambda>v.
     Option.bind (remove_ownership_of_non_destructible_types v) (\<lambda>v.
     Option.bind (decorate_types_with_constructor_deps v) (\<lambda>v.
     Option.bind (discard_ignored_functions v) (\<lambda>v.
     Option.bind (check_names is_rust_ident v) (\<lambda>(v, bridge_type_names).
     Option.bind (filter_apis_by_ignored_dependents known_types v) (\<lambda>v.
     Option.bind (filter_apis_by_following_edges_from_allowlist get_hash config v) (\<lambda>(v, config).
     map_option (\<lambda>v. (v, bridge_type_names, config)) (append_ctype_information v))))))))"

section \<open>The conversion\<close>

text \<open>
  \<^verbatim>\<open>BridgeConverter::convert\<close> from what was parsed to what the code generators are given: the items, the
  names of types in the bridge, the traits to derive and the configuration with the directives marked
  that were asked about.
\<close>

definition convert_parsed ::
    "(include_cpp_config \<Rightarrow> nat) \<Rightarrow> (string \<Rightarrow> bool) \<Rightarrow> (string \<Rightarrow> fn_arg option) \<Rightarrow> (string \<Rightarrow> rust_type option) \<Rightarrow>
     nat \<Rightarrow> unsafe_policy \<Rightarrow> bool \<Rightarrow> parse_callback_results \<Rightarrow> (unit, unit, unit, unit) api_vec \<Rightarrow> include_cpp_config \<Rightarrow>
     (convert_error, fn_phase_apis \<times> bridge_type_names \<times> derive_requests \<times> include_cpp_config) result option" where
  "convert_parsed get_hash ok parse_fn_arg parse_type n unsafe_pol force_wrapper_gen p v config =
     Option.bind (convert_typedef_targets ok n config v p) (\<lambda>(v, config).
     Option.bind (analyze_pod_apis get_hash ok n v config p) (\<lambda>analyzed.
       case analyzed of
         Inl e \<Rightarrow> Some (Inl e)
       | Inr (v, config) \<Rightarrow>
           Option.bind (expose_statics v) (\<lambda>v.
           Option.bind (replace_hopeless_typedef_targets config v) (\<lambda>(v, config).
           Option.bind (add_casts v) (\<lambda>v.
           Option.bind (add_field_accessors get_hash v config p) (\<lambda>v.
           Option.bind (create_alloc_and_frees v config) (\<lambda>(v, config).
           Option.bind (analyze_functions get_hash ok parse_fn_arg parse_type n v unsafe_pol config p force_wrapper_gen)
             (\<lambda>(v, config).
           Option.bind (finish_analysis get_hash ok config v) (\<lambda>(v, bridge_type_names, config).
             map_option (map_sum id (\<lambda>requests. (v, bridge_type_names, requests, config)))
               (confirm_directives config v))))))))))"

text \<open>A conversion that succeeds has what its directives asked for.\<close>

lemma conversion_delivers:
  assumes "convert_parsed get_hash ok parse_fn_arg parse_type n unsafe_pol force_wrapper_gen p v config =
      Some (Inr (w, bridge_type_names, requests, config'))"
  shows "(\<forall>d \<in> set (must_generate_list config'). offers (apis w) d) \<and> unmatched_directives config' = []"
proof -
  from assms obtain v1 config1 analyzed where
    "convert_typedef_targets ok n config v p = Some (v1, config1)" "analyze_pod_apis get_hash ok n v1 config1 p = Some analyzed"
    by (auto simp: convert_parsed_def bind_eq_Some_conv)
  with assms have "confirm_directives config' w = Some (Inr requests)"
    by (cases analyzed) (auto simp: convert_parsed_def bind_eq_Some_conv map_sum_Inr_iff)
  from directives_settled[OF this] show ?thesis by simp
qed

section \<open>Items every pass can handle\<close>

definition path_named :: "rust_type \<Rightarrow> bool" where
  "path_named ty = (case ty of Type_Path typ \<Rightarrow> from_type_path typ \<noteq> None | _ \<Rightarrow> True)"

definition typedef_nameable :: "(typedef_analysis, 'st, 'fn, 'sub) api \<Rightarrow> bool" where
  "typedef_nameable api =
     (case api of
        Api_Typedef name item old_tyname analysis \<Rightarrow>
          path_named (case ta_kind analysis of TypedefKind_Type t \<Rightarrow> it_ty t | TypedefKind_Use ty \<Rightarrow> ty)
      | _ \<Rightarrow> True)"

definition concrete_nameable :: "('td, 'st, 'fn, 'sub) api \<Rightarrow> bool" where
  "concrete_nameable api =
     (case api of
        Api_ConcreteType name rs_definition cpp_definition holder ds ia \<Rightarrow>
          (case rs_definition of Some ty \<Rightarrow> path_named ty | None \<Rightarrow> True)
      | _ \<Rightarrow> True)"

definition reason_speaks :: "('td, 'st, fn_analysis, 'sub) api \<Rightarrow> bool" where
  "reason_speaks api =
     (case api of
        Api_Function name fn analysis \<Rightarrow>
          (case fa_ignore_reason analysis of
             Inl (ConvertErrorWithContext err ctx) \<Rightarrow> err \<noteq> FunctionHiddenByType
           | Inr _ \<Rightarrow> True)
      | _ \<Rightarrow> True)"

definition manageable :: "(typedef_analysis, 'st, fn_analysis, 'sub) api \<Rightarrow> bool" where
  "manageable api \<longleftrightarrow> stub_ok api \<and> typedef_nameable api \<and> concrete_nameable api \<and> reason_speaks api"

lemma manageable_note [simp]:
  "err \<noteq> FunctionHiddenByType \<Longrightarrow> manageable (Api_IgnoredItem name err ctx)"
  by (auto simp: manageable_def stub_ok_def is_displaced_function_def typedef_nameable_def concrete_nameable_def
      reason_speaks_def split: convert_error.splits)

lemma path_named_iff: "path_named ty \<longleftrightarrow> (\<forall>typ. ty = Type_Path typ \<longrightarrow> from_type_path typ \<noteq> None)"
  by (cases ty) (simp_all add: path_named_def)

lemma typedef_targets_named: "typedef_targets v \<noteq> None \<longleftrightarrow> list_all typedef_nameable (apis v)"
proof -
  have "typedef_targets_loop l m \<noteq> None \<longleftrightarrow> list_all typedef_nameable l"
    for l :: "(typedef_analysis, 'a, 'b, 'c) api list" and m
  proof (induction l arbitrary: m)
    case (Cons api l)
    show ?case
    proof (cases "\<exists>name item old_tyname analysis. api = Api_Typedef name item old_tyname analysis")
      case True
      then obtain name item old_tyname analysis where api: "api = Api_Typedef name item old_tyname analysis" by blast
      show ?thesis unfolding api using Cons.IH
        by (cases "case ta_kind analysis of TypedefKind_Type t \<Rightarrow> it_ty t | TypedefKind_Use ty \<Rightarrow> ty")
          (auto simp: typedef_nameable_def path_named_def split: option.splits)
    next
      case False
      with Cons.IH show ?thesis by (cases api) (simp_all add: typedef_nameable_def)
    qed
  qed simp
  then show ?thesis by (simp add: typedef_targets_def)
qed

lemma concrete_loop_named:
  "list_all concrete_nameable l \<Longrightarrow> concrete_loop config l m \<noteq> None"
proof (induction l arbitrary: m)
  case (Cons api l)
  show ?case
  proof (cases "\<exists>name rs_definition cpp_definition holder ds ia.
      api = Api_ConcreteType name rs_definition cpp_definition holder ds ia")
    case True
    then obtain name rs_definition cpp_definition holder ds ia where
      api: "api = Api_ConcreteType name rs_definition cpp_definition holder ds ia" by blast
    have "instantiated_template rs_definition cpp_definition \<noteq> None"
      using Cons.prems api by (auto simp: concrete_nameable_def instantiated_template_def path_named_def
          split: option.splits rust_type.splits)
    with Cons api show ?thesis by (auto simp: instantiates_smart_pointer_def split: option.splits)
  next
    case False
    with Cons show ?thesis by (cases api) simp_all
  qed
qed simp

text \<open>Asking the configuration changes nothing of its allowlist.\<close>

lemma named_by_allowlist:
  assumes "\<And>config s. cfg_allowlist (snd (ask config s)) = cfg_allowlist config"
  shows "cfg_allowlist (snd (named_by ask spellings config)) = cfg_allowlist config"
  by (induction spellings arbitrary: config) (simp_all add: split_beta Let_def assms)

lemma consider_allowlist [simp]:
  "cfg_allowlist (is_config (consider_type target spellings can_be s)) = cfg_allowlist (is_config s)"
  by (simp add: consider_type_def split_beta Let_def named_by_allowlist is_instantiable_def
      is_on_constructor_blocklist_def)

lemma fold_keeps: "(\<And>x s. g (f x s) = g s) \<Longrightarrow> g (fold f l s) = g s"
  by (induction l arbitrary: s) simp_all

lemma instantiable_keeps_allowlist:
  assumes "instantiable_concrete_types config v = Some (wanted, config')"
  shows "cfg_allowlist config' = cfg_allowlist config"
proof -
  have one: "cfg_allowlist (is_config (case x of (name, c) \<Rightarrow> consider_type name (f name c) (g c) s)) =
      cfg_allowlist (is_config s)" for x s and f g
    by (cases x) simp
  show ?thesis using assms
    by (auto simp: instantiable_concrete_types_def Let_def one
        split: option.splits list.splits prod.splits api.splits
        intro!: fold_keeps[where g = "\<lambda>s. cfg_allowlist (is_config s)", THEN trans])
qed

section \<open>What each pass keeps of the items\<close>

lemma checked_manageable:
  assumes "manageable api" and "\<And>e. fn api = Inl e \<Longrightarrow> e \<noteq> FunctionHiddenByType"
  shows "manageable (checked fn api)"
  using assms by (auto simp: checked_def split: sum.splits)

lemma mark_one_manageable: "manageable api \<Longrightarrow> manageable (mark_one targets abstract_classes virtual_dtors api)"
  by (cases api) (simp_all add: mark_one_def manageable_def stub_ok_def is_displaced_function_def
      typedef_nameable_def concrete_nameable_def reason_speaks_def)

lemma refused_why: "refuse_nested_abstract api = Inl e \<Longrightarrow> e \<noteq> FunctionHiddenByType"
  by (cases api) (auto simp: refuse_nested_abstract_def split: if_splits)

lemma marking_manageable:
  assumes "list_all manageable l"
  shows "list_all manageable (left_after_marking targets abstract_classes virtual_dtors l)"
  using assms unfolding left_after_marking_def
  by (auto simp: list_all_iff intro!: checked_manageable mark_one_manageable dest: refused_why)

lemma non_destructible_why: "map_of (non_destructible_types v) n = Some err \<Longrightarrow> err \<noteq> FunctionHiddenByType"
proof -
  have one: "why_not_destructible api = Some (k, e) \<Longrightarrow> e \<noteq> FunctionHiddenByType" for api k e
    by (cases api) (auto simp: why_not_destructible_def Let_def split: if_splits)
  have "map_of (fold (\<lambda>api m. case why_not_destructible api of
          Some (name, err) \<Rightarrow> imap_insert name err m | None \<Rightarrow> m) l m) n = Some err \<Longrightarrow>
      (\<forall>k e. map_of m k = Some e \<longrightarrow> e \<noteq> FunctionHiddenByType) \<Longrightarrow> err \<noteq> FunctionHiddenByType" for l m
  proof (induction l arbitrary: m)
    case (Cons api l)
    show ?case
    proof (cases "why_not_destructible api")
      case None
      with Cons show ?thesis by simp
    next
      case (Some p)
      obtain k e where p: "p = (k, e)" by (cases p)
      with one[of api k e] Some Cons.prems(2)
      have "\<forall>k' e'. map_of (imap_insert k e m) k' = Some e' \<longrightarrow> e' \<noteq> FunctionHiddenByType" by auto
      with Cons.IH[of "imap_insert k e m"] Cons.prems(1) Some p show ?thesis by simp
    qed
  qed auto
  from this[of "apis v" "[]"] show "map_of (non_destructible_types v) n = Some err \<Longrightarrow> err \<noteq> FunctionHiddenByType"
    by (simp add: non_destructible_types_def)
qed

lemma withdraw_reason:
  assumes "\<And>n err. map_of m n = Some err \<Longrightarrow> err \<noteq> FunctionHiddenByType"
    and "fa_ignore_reason (withdraw_function m analysis) = Inl (ConvertErrorWithContext err ctx)"
  shows "fa_ignore_reason analysis = Inl (ConvertErrorWithContext err ctx) \<or> err \<noteq> FunctionHiddenByType"
  using assms(2)
  by (auto simp: withdraw_function_def split: if_splits fn_kind.splits method_kind.splits option.splits dest: assms(1))

lemma withdraw_manageable:
  assumes "\<And>n err. map_of m n = Some err \<Longrightarrow> err \<noteq> FunctionHiddenByType" and "manageable api"
  shows "manageable (withdraw_one m api)"
proof (cases "\<exists>name fn analysis. api = Api_Function name fn analysis")
  case True
  then obtain name fn analysis where api: "api = Api_Function name fn analysis" by blast
  with assms(2) have "fa_ignore_reason analysis \<noteq> Inl (ConvertErrorWithContext FunctionHiddenByType ctx)" for ctx
    by (auto simp: manageable_def reason_speaks_def)
  then have "fa_ignore_reason (withdraw_function m analysis) \<noteq> Inl (ConvertErrorWithContext FunctionHiddenByType ctx)" for ctx
    using withdraw_reason[of m analysis FunctionHiddenByType ctx] assms(1) by blast
  then show ?thesis
    by (auto simp: api withdraw_one_def manageable_def stub_ok_def is_displaced_function_def typedef_nameable_def
        concrete_nameable_def reason_speaks_def split: sum.splits convert_error_with_context.splits)
next
  case False
  then have "withdraw_one m api = api" by (cases api) (simp_all add: withdraw_one_def)
  with assms(2) show ?thesis by simp
qed

lemma decorated_manageable: "manageable api \<Longrightarrow> manageable (decorated m api)"
  by (cases api) (simp_all add: decorated_def decorating_def api_or_error_def fun_unchanged_def
      enum_unchanged_def typedef_unchanged_def subclass_unchanged_def manageable_def stub_ok_def
      is_displaced_function_def displaced_function_name_def typedef_nameable_def concrete_nameable_def reason_speaks_def)

lemma with_deps_manageable: "manageable api \<Longrightarrow> manageable (with_deps m api)"
  by (cases api) (simp_all add: with_deps_def manageable_def stub_ok_def is_displaced_function_def
      typedef_nameable_def concrete_nameable_def reason_speaks_def)

lemma discard_manageable:
  assumes "manageable api"
  shows "manageable (discard_one api)"
proof (cases "discard_one api = api")
  case False
  then obtain name fn analysis err ctx where gone: "api = Api_Function name fn analysis"
    "fa_ignore_reason analysis = Inl (ConvertErrorWithContext err ctx)"
    "discard_one api = Api_IgnoredItem name err ctx"
    by (cases api) (auto simp: discard_one_def split: sum.splits convert_error_with_context.splits)
  with assms have "err \<noteq> FunctionHiddenByType" by (simp add: manageable_def reason_speaks_def)
  with gone show ?thesis by simp
qed (use assms in simp)

lemma check_segments_why: "check_segments is_rust_ident api = Inl e \<Longrightarrow> e \<noteq> FunctionHiddenByType"
proof -
  have "validate_all_segments_ok_for_cxx is_rust_ident segs = Inl e \<Longrightarrow> e \<noteq> FunctionHiddenByType" for segs
    by (induction segs) (auto split: sum.splits)
  then have "validate_names is_rust_ident segss api = Inl e \<Longrightarrow> e \<noteq> FunctionHiddenByType" for segss
    by (auto simp: validate_names_def split: sum.splits)
  then show "check_segments is_rust_ident api = Inl e \<Longrightarrow> e \<noteq> FunctionHiddenByType"
    by (cases api) (auto simp: check_segments_def split: if_splits)
qed

lemma check_bridge_name_why: "check_bridge_name b l api = Inl e \<Longrightarrow> e \<noteq> FunctionHiddenByType"
  by (auto simp: check_bridge_name_def split: option.splits if_splits)

lemma filter_pass_manageable:
  assumes "filter_pass db valid l m = (l', m', again)" and "list_all manageable l"
  shows "list_all manageable l'"
  using assms
proof (induction l arbitrary: m l' m' again)
  case (Cons api l)
  obtain api1 m1 again1 where one: "filter_one db valid api m = (api1, m1, again1)" by (metis prod_cases3)
  obtain l2 m2 again2 where rest: "filter_pass db valid l m1 = (l2, m2, again2)" by (metis prod_cases3)
  from Cons.prems(1) one rest have out: "l' = api1 # l2" by auto
  have "manageable api1"
  proof (cases "condemned db valid m api")
    case False
    with filter_one_kept[OF False] one Cons.prems(2) show ?thesis by auto
  next
    case True
    then obtain err reason where "api1 = create_ignore_item api err"
      "(\<exists>d. err = UnknownDependentType d \<and> reason = err) \<or>
       (\<exists>ds culprit. err = IgnoredDependent ds culprit reason \<and> map_of m culprit = Some reason)"
      using one by (elim filter_one_gone) auto
    then show ?thesis by (auto simp: create_ignore_item_def Let_def)
  qed
  with Cons.IH[OF rest] Cons.prems(2) out show ?case by simp
qed simp

lemma filtering_runs:
  assumes "distinct (map Api_name (apis v))" and "list_all manageable (apis v)"
  obtains v' where "filter_apis_by_ignored_dependents db v = Some v'" "distinct (map Api_name (apis v'))"
    "list_all manageable (apis v')"
proof -
  let ?P = "\<lambda>(w, m). list_all manageable (apis w)"
  have start: "?P (v, initial_reasons v)" using assms(2) by simp
  have keep: "?P t" if good: "good_round db v s" and "?P s"
    and round: "filter_round db (all_valid_types v) s = Some (t, again)" for s t again
  proof -
    obtain w m where s: "s = (w, m)" by fastforce
    from filter_round_returns[OF good[unfolded s]] round s obtain w' m' where
      t: "t = (w', m')" "filter_pass db (all_valid_types v) (apis w) m = (apis w', m', again)" by auto
    from filter_pass_manageable[OF t(2)] \<open>?P s\<close> s t(1) show ?thesis by auto
  qed
  have "\<exists>s' t. run_rounds (filter_round db (all_valid_types v)) (v, initial_reasons v) = Some t \<and>
    good_round db v s' \<and> ?P s' \<and> filter_round db (all_valid_types v) s' = Some (t, False)"
    using good_start[OF assms(1)] start keep by (rule discard.rounds_keep[where P = ?P])
  then obtain s' w m where
    run: "run_rounds (filter_round db (all_valid_types v)) (v, initial_reasons v) = Some (w, m)"
    and last: "good_round db v s'" "?P s'" "filter_round db (all_valid_types v) s' = Some ((w, m), False)" by auto
  from keep[OF last] have "list_all manageable (apis w)" by simp
  moreover from run have v': "filter_apis_by_ignored_dependents db v = Some w"
    by (simp add: filter_apis_by_ignored_dependents_def)
  moreover have "distinct (map Api_name (apis w))"
  proof -
    from doomed_are_discarded[OF assms(1), of db] v' have "map Api_name (apis w) = map Api_name (apis v)"
      by (auto simp: list_all2_conv_all_nth intro: nth_equalityI)
    with assms(1) show ?thesis by simp
  qed
  ultimately show thesis using that by blast
qed

lemma collecting_runs:
  assumes "distinct (map Api_name (apis v))" and "list_all manageable (apis v)"
    and "\<not> (\<exists>l. cfg_allowlist config = Unspecified l)"
  obtains out config' where "filter_apis_by_following_edges_from_allowlist get_hash config v = Some (out, config')"
    "distinct (map Api_name (apis out))" "list_all manageable (apis out)" "apivec_wf out"
proof -
  from assms(2) have "list_all typedef_nameable (apis v)" "list_all concrete_nameable (apis v)"
    by (simp_all add: list_all_iff manageable_def)
  then have named: "typedef_targets v \<noteq> None" "concrete_loop config (apis v) [] \<noteq> None"
    using typedef_targets_named[of v] concrete_loop_named[of "apis v" config "[]"] by blast+
  then obtain wanted config' where wanted: "instantiable_concrete_types config v = Some (wanted, config')"
    by (cases "concrete_loop config (apis v) []"; cases "the (concrete_loop config (apis v) [])")
      (auto simp: instantiable_concrete_types_def Let_def)
  from assms(3) instantiable_keeps_allowlist[OF wanted]
  have "\<not> (\<exists>l. cfg_allowlist config' = Unspecified l)" by simp
  from roots_loop_returns[OF this] obtain todos where
    "roots_loop get_hash config' (nested_cpp_names (map name_info (apis v))) wanted (apis v) = Some todos" by blast
  from gc_run[OF assms(1) wanted this] obtain out where
    out: "filter_apis_by_following_edges_from_allowlist get_hash config v = Some (out, config')"
    "set (apis out) \<subseteq> set (apis v)" "distinct (map Api_name (apis out))" "names out = map Api_name (apis out)"
    by (metis (no_types, lifting) mem_Collect_eq subsetI)
  with assms(2) have "list_all manageable (apis out)" by (auto simp: list_all_iff)
  moreover from this out(3,4) have "apivec_wf out" by (simp add: apivec_wf_def list_all_iff manageable_def)
  ultimately show thesis using that out(1,3) by blast
qed

text \<open>
  C12: what runs after the function analysis always comes to its end. Take a list of APIs with names of
  their own, none of which holds or inherits from itself, and an
  allowlist that is settled. The items are \<open>manageable\<close>, as those made of parsed ones are: the path a typedef or an
  instantiation stands for names something, no note of a hidden function has forgotten the function, and no
  function was left out for being hidden by a type, which only a push says. Then whatever the names, overloads, failures, destructors and directives, no pass panics and no loop runs for ever, and the items it hands to the
  code generators have names of their own.
\<close>

theorem analysis_finishes:
  fixes rank :: "qualified_name \<Rightarrow> nat"
  assumes "apivec_wf v" and "list_all manageable (apis v)"
    and "\<forall>x \<in> set (apis v). \<forall>d \<in> set (phase3_field_and_base_deps x).
       d \<in> Api_name ` set (apis v) \<longrightarrow> rank d < rank (Api_name x)"
    and "\<not> (\<exists>l. cfg_allowlist config = Unspecified l)"
  shows "\<exists>out b config'. finish_analysis get_hash is_rust_ident config v = Some (out, b, config') \<and>
    distinct (map Api_name (apis out))"
proof -
  note unique = collected.unique[OF assms(1)]
  from assms(2) have "list_all typedef_nameable (apis v)" by (simp add: list_all_iff manageable_def)
  then have "typedef_targets v \<noteq> None" using typedef_targets_named[of v] by blast
  moreover have "find_abstract_classes targets (apis v) \<noteq> None" for targets
    using collected.order_exists[OF assms(1), of phase3_field_and_base_deps] assms(3)
    by (auto simp: find_abstract_classes_def)
  ultimately obtain targets abstract_classes where
    "typedef_targets v = Some targets" "find_abstract_classes targets (apis v) = Some abstract_classes" by fastforce
  with unique obtain virtual_dtors v1 where v1: "mark_types_abstract v = Some v1"
    "apis v1 = left_after_marking targets abstract_classes virtual_dtors (apis v)" by (rule marking_runs)
  have unique1: "distinct (map Api_name (apis v1))"
  proof -
    have "map Api_name (map (mark_one targets abstract_classes virtual_dtors) (apis v)) = map Api_name (apis v)" by simp
    with unique show ?thesis unfolding v1(2) left_after_marking_def map_name_checked by (metis distinct_map_filter)
  qed
  have ok1: "list_all manageable (apis v1)" unfolding v1(2) by (rule marking_manageable[OF assms(2)])
  obtain v2 where v2: "remove_ownership_of_non_destructible_types v1 = Some v2"
    "apis v2 = map (withdraw_one (non_destructible_types v1)) (apis v1)" using unique1 by (rule withdrawing_runs)
  have unique2: "distinct (map Api_name (apis v2))" using unique1 by (simp add: v2(2) comp_def)
  have ok2: "list_all manageable (apis v2)" using ok1 non_destructible_why
    by (auto simp: v2(2) list_all_iff intro!: withdraw_manageable)
  obtain v3 m where v3: "decorate_types_with_constructor_deps v2 = Some v3"
    "apis v3 = map (with_deps m) (map (decorated (find_important_constructors v2)) (apis v2))"
    using unique2 by (rule decorating_runs)
  have unique3: "distinct (map Api_name (apis v3))" using unique2 by (simp add: v3(2) comp_def)
  have ok3: "list_all manageable (apis v3)" using ok2
    by (simp add: v3(2) list_all_iff decorated_manageable with_deps_manageable)
  obtain v4 where v4: "discard_ignored_functions v3 = Some v4" "apis v4 = map discard_one (apis v3)"
    using unique3 by (rule discarding_runs)
  have unique4: "distinct (map Api_name (apis v4))" using unique3 by (simp add: v4(2) comp_def)
  have ok4: "list_all manageable (apis v4)" using ok3 by (simp add: v4(2) list_all_iff discard_manageable)
  obtain v5 b l where v5: "check_names is_rust_ident v4 = Some (v5, b)"
    "apis v5 = map (checked (check_bridge_name b l)) l" "l = map (checked (check_segments is_rust_ident)) (apis v4)"
    using unique4 by (rule check_names_runs)
  have unique5: "distinct (map Api_name (apis v5))" using unique4 by (simp add: v5(2,3) comp_def)
  have "list_all manageable l" using ok4
    by (auto simp: v5(3) list_all_iff intro!: checked_manageable dest: check_segments_why)
  then have ok5: "list_all manageable (apis v5)"
    by (auto simp: v5(2) list_all_iff intro!: checked_manageable dest: check_bridge_name_why)
  obtain v6 where v6: "filter_apis_by_ignored_dependents known_types v5 = Some v6"
    "distinct (map Api_name (apis v6))" "list_all manageable (apis v6)"
    using unique5 ok5 by (rule filtering_runs)
  obtain v7 config' where v7: "filter_apis_by_following_edges_from_allowlist get_hash config v6 = Some (v7, config')"
    "distinct (map Api_name (apis v7))" "list_all manageable (apis v7)" "apivec_wf v7"
    using v6(2,3) assms(4) by (rule collecting_runs)
  have "\<forall>api \<in> set (map (\<lambda>(idt, typename). Api_CType (ApiName_new Namespace_new idt) typename) (c_types (apis v7))).
      stub_ok api"
    by (auto simp: stub_ok_def is_displaced_function_def)
  from apivec_extend_wf[OF v7(4) this] obtain v8 where "append_ctype_information v7 = Some v8" "apivec_wf v8"
    unfolding append_ctype_information_def by blast
  then show ?thesis
    using v1(1) v2(1) v3(1) v4(1) v5(1) v6(1) v7(1) collected.unique[of v8] by (simp add: finish_analysis_def)
qed

lemma analysis_finishes_witness:
  "\<exists>out b config'. finish_analysis (\<lambda>_. 0) (\<lambda>_. True) all_config (sample_hierarchy ''B'') = Some (out, b, config') \<and>
     distinct (map Api_name (apis out))"
proof -
  define rank :: "qualified_name \<Rightarrow> nat" where
    "rank n = (if n = QualifiedName [''ns''] ''A'' then 0 else if n = QualifiedName [''ns''] ''B'' then 1 else 2)" for n
  have ok: "list_all manageable (apis (sample_hierarchy ''B''))"
    by (simp add: hierarchy_simps manageable_def stub_ok_def is_displaced_function_def typedef_nameable_def
        concrete_nameable_def reason_speaks_def path_named_def plain_path_def from_type_path_def from_segments_def)
  have ranked: "\<forall>x \<in> set (apis (sample_hierarchy ''B'')). \<forall>d \<in> set (phase3_field_and_base_deps x).
       d \<in> Api_name ` set (apis (sample_hierarchy ''B'')) \<longrightarrow> rank d < rank (Api_name x)"
    by (simp add: hierarchy_simps phase3_field_and_base_deps_def rank_def)
  have "\<not> (\<exists>l. cfg_allowlist all_config = Unspecified l)" by (simp add: all_config_def)
  from analysis_finishes[OF sample_hierarchy_wf ok ranked this] show ?thesis .
qed


end
